(* ===== verification/Py_Base.thy ===== *)
theory Py_Base
  imports Complex_Main "HOL-Library.AList"
begin

text \<open>
  Prelude of the development: the part of the Python language and of its standard library that
  the modelled code uses.

  \<^item> Text. A Python \<open>str\<close> is a \<^typ>\<open>string\<close> whose characters are the code points below
    256; \<open>strip\<close>, \<open>lower\<close>, \<open>split\<close>, \<open>casefold\<close>, \<open>isdigit\<close> follow the interpreter on them.
  \<^item> Values. \<open>pyval\<close> is a JSON-like Python value (what dictionaries, payloads and metadata
    hold); a float carries its exact value and the text that \<open>repr\<close> gives it. Dictionaries
    are association lists in insertion order with distinct keys.
  \<^item> Failure. An exception is a value \<open>Inl e\<close> of \<open>pyerr + 'a\<close>; \<open>rbind\<close> stops at it.
  \<^item> Tables. A database table is the list of its rows in insertion order; \<open>tbl_get\<close> is
    \<open>filter_by(key).one_or_none()\<close> and \<open>tbl_upd\<close> an in-place update of the row with a key.
    The locale \<open>row_op\<close> is the contract of every repository method that changes one row.
  \<^item> Time. A \<open>datetime\<close> is its distance from 1970-01-01 00:00 UTC in microseconds.
\<close>

named_theorems py_simps \<open>evaluation rules of the Python prelude\<close>

section \<open>Characters and strings\<close>

abbreviation code :: "char \<Rightarrow> nat" where
  "code c \<equiv> of_char c"

definition is_space :: "char \<Rightarrow> bool" where
  "is_space c \<longleftrightarrow> (let n = code c in
     (9 \<le> n \<and> n \<le> 13) \<or> (28 \<le> n \<and> n \<le> 32) \<or> n = 133 \<or> n = 160)"

definition is_decimal :: "char \<Rightarrow> bool" where
  "is_decimal c \<longleftrightarrow> (let n = code c in 48 \<le> n \<and> n \<le> 57)"

definition lower_char :: "char \<Rightarrow> char" where
  "lower_char c = (let n = code c in
     if (65 \<le> n \<and> n \<le> 90) \<or> (192 \<le> n \<and> n \<le> 222 \<and> n \<noteq> 215) then char_of (n + 32) else c)"

definition lower :: "string \<Rightarrow> string" where
  "lower s = map lower_char s"

text \<open>\<open>str.casefold\<close> on these code points: \<open>lower\<close>, and the sharp s becomes two letters.\<close>

definition casefold :: "string \<Rightarrow> string" where
  "casefold s = concat (map (\<lambda>c. if code c = 223 then ''ss'' else [lower_char c]) s)"

definition lstrip_by :: "(char \<Rightarrow> bool) \<Rightarrow> string \<Rightarrow> string" where
  "lstrip_by p s = dropWhile p s"

definition rstrip_by :: "(char \<Rightarrow> bool) \<Rightarrow> string \<Rightarrow> string" where
  "rstrip_by p s = rev (dropWhile p (rev s))"

definition strip_by :: "(char \<Rightarrow> bool) \<Rightarrow> string \<Rightarrow> string" where
  "strip_by p s = rstrip_by p (lstrip_by p s)"

abbreviation strip :: "string \<Rightarrow> string" where
  "strip \<equiv> strip_by is_space"

definition startswith :: "string \<Rightarrow> string \<Rightarrow> bool" where
  "startswith s p \<longleftrightarrow> take (length p) s = p"

definition endswith :: "string \<Rightarrow> string \<Rightarrow> bool" where
  "endswith s p \<longleftrightarrow> length p \<le> length s \<and> drop (length s - length p) s = p"

text \<open>The substring test \<open>sub in s\<close>.\<close>

fun contains :: "string \<Rightarrow> string \<Rightarrow> bool" where
  "contains sub [] = (sub = [])"
| "contains sub (c # cs) = (startswith (c # cs) sub \<or> contains sub cs)"

text \<open>\<open>s.split(c)\<close> for a one-character separator: never empty.\<close>

fun split_on :: "char \<Rightarrow> string \<Rightarrow> string list" where
  "split_on d [] = [[]]"
| "split_on d (c # cs) =
     (if c = d then [] # split_on d cs
      else case split_on d cs of w # ws \<Rightarrow> (c # w) # ws | [] \<Rightarrow> [[c]])"

text \<open>\<open>s.split()\<close>: the maximal runs of characters that are not white space.\<close>

definition split_ws :: "string \<Rightarrow> string list" where
  "split_ws s =
     filter (\<lambda>w. w \<noteq> []) (foldr (\<lambda>c ws. if is_space c then [] # ws
        else case ws of w # ws' \<Rightarrow> (c # w) # ws' | [] \<Rightarrow> [[c]]) s [[]])"

fun join :: "string \<Rightarrow> string list \<Rightarrow> string" where
  "join sep [] = []"
| "join sep [w] = w"
| "join sep (w # v # ws) = w @ sep @ join sep (v # ws)"

text \<open>\<open>str.isdigit\<close>: the decimal digits and the superscripts two, three and one, which
  \<open>int()\<close> does not accept.\<close>

definition isdigit :: "string \<Rightarrow> bool" where
  "isdigit s \<longleftrightarrow> s \<noteq> [] \<and> list_all (\<lambda>c. is_decimal c \<or> code c \<in> {178, 179, 185}) s"

section \<open>Exceptions\<close>

datatype pyerr =
    ValueError string
  | TypeError string
  | KeyError string
  | IndexError
  | RuntimeError string
  | AttributeError string
  | MultipleResultsFound
  | IntegrityError string

definition rbind :: "'e + 'a \<Rightarrow> ('a \<Rightarrow> 'e + 'b) \<Rightarrow> 'e + 'b" where
  "rbind x f = (case x of Inl e \<Rightarrow> Inl e | Inr a \<Rightarrow> f a)"

section \<open>Numbers and text\<close>

fun nat_str :: "nat \<Rightarrow> string" where
  "nat_str n = (if n < 10 then [char_of (48 + n)] else nat_str (n div 10) @ [char_of (48 + n mod 10)])"

declare nat_str.simps [simp del]

definition int_str :: "int \<Rightarrow> string" where
  "int_str i = (if i < 0 then CHR ''-'' # nat_str (nat (- i)) else nat_str (nat i))"

text \<open>Python's format \<open>:02d\<close> for a value that is not negative.\<close>

definition pad2 :: "int \<Rightarrow> string" where
  "pad2 i = (if i < 10 then CHR ''0'' # int_str i else int_str i)"

fun digits_val :: "bool \<Rightarrow> int \<Rightarrow> string \<Rightarrow> int option" where
  "digits_val prev acc [] = (if prev then Some acc else None)"
| "digits_val prev acc (c # cs) =
     (if is_decimal c then digits_val True (10 * acc + (int (code c) - 48)) cs
      else if c = CHR ''_'' \<and> prev then digits_val False acc cs else None)"

definition int_space :: "char \<Rightarrow> bool" where
  "int_space c \<longleftrightarrow> (let n = code c in (9 \<le> n \<and> n \<le> 13) \<or> n = 32 \<or> n = 133 \<or> n = 160)"

text \<open>\<open>int(s)\<close> for a string: \<open>None\<close> is ValueError.\<close>

definition parse_int :: "string \<Rightarrow> int option" where
  "parse_int s = (case strip_by int_space s of
       [] \<Rightarrow> None
     | c # cs \<Rightarrow> if c = CHR ''-'' then map_option uminus (digits_val False 0 cs)
                else if c = CHR ''+'' then digits_val False 0 cs
                else digits_val False 0 (c # cs))"

section \<open>Values\<close>

datatype pyval =
    PNone
  | PBool bool
  | PInt int
  | PFloat rat string
  | PStr string
  | PList "pyval list"
  | PDict "(string \<times> pyval) list"

type_synonym pydict = "(string \<times> pyval) list"

fun truthy :: "pyval \<Rightarrow> bool" where
  "truthy PNone = False"
| "truthy (PBool b) = b"
| "truthy (PInt i) = (i \<noteq> 0)"
| "truthy (PFloat r _) = (r \<noteq> 0)"
| "truthy (PStr s) = (s \<noteq> [])"
| "truthy (PList xs) = (xs \<noteq> [])"
| "truthy (PDict d) = (d \<noteq> [])"

definition py_or :: "pyval \<Rightarrow> pyval \<Rightarrow> pyval" where
  "py_or a b = (if truthy a then a else b)"

fun is_dict :: "pyval \<Rightarrow> bool" where
  "is_dict (PDict _) = True"
| "is_dict _ = False"

text \<open>\<open>repr\<close> and \<open>str\<close>.\<close>

definition hex_digit :: "nat \<Rightarrow> char" where
  "hex_digit n = (if n < 10 then char_of (48 + n) else char_of (87 + n))"

definition printable :: "char \<Rightarrow> bool" where
  "printable c \<longleftrightarrow> (let n = code c in (32 \<le> n \<and> n \<le> 126) \<or> (161 \<le> n \<and> n \<noteq> 173))"

definition repr_char :: "char \<Rightarrow> char \<Rightarrow> string" where
  "repr_char q c =
     (if c = q \<or> code c = 92 then [char_of (92::nat), c]
      else if code c = 10 then [char_of (92::nat), CHR ''n'']
      else if code c = 13 then [char_of (92::nat), CHR ''r'']
      else if code c = 9 then [char_of (92::nat), CHR ''t'']
      else if printable c then [c]
      else [char_of (92::nat), CHR ''x'', hex_digit (code c div 16), hex_digit (code c mod 16)])"

definition repr_str :: "string \<Rightarrow> string" where
  "repr_str s =
     (let sq = char_of (39::nat); dq = char_of (34::nat);
          q = (if sq \<in> set s \<and> dq \<notin> set s then dq else sq)
      in [q] @ concat (map (repr_char q) s) @ [q])"

fun py_repr :: "pyval \<Rightarrow> string"
and py_repr_items :: "pyval list \<Rightarrow> string list"
and py_repr_pairs :: "(string \<times> pyval) list \<Rightarrow> string list" where
  "py_repr PNone = ''None''"
| "py_repr (PBool b) = (if b then ''True'' else ''False'')"
| "py_repr (PInt i) = int_str i"
| "py_repr (PFloat r s) = s"
| "py_repr (PStr s) = repr_str s"
| "py_repr (PList xs) = ''['' @ join '', '' (py_repr_items xs) @ '']''"
| "py_repr (PDict d) = ''{'' @ join '', '' (py_repr_pairs d) @ ''}''"
| "py_repr_items [] = []"
| "py_repr_items (x # xs) = py_repr x # py_repr_items xs"
| "py_repr_pairs [] = []"
| "py_repr_pairs ((k, v) # d) = (repr_str k @ '': '' @ py_repr v) # py_repr_pairs d"

fun py_str :: "pyval \<Rightarrow> string" where
  "py_str (PStr s) = s"
| "py_str v = py_repr v"

text \<open>The idioms \<open>str(x or "")\<close> and \<open>str(x or "").strip()\<close>.\<close>

definition str_or :: "pyval \<Rightarrow> string \<Rightarrow> string" where
  "str_or v d = py_str (py_or v (PStr d))"

definition clean :: "pyval \<Rightarrow> string" where
  "clean v = strip (str_or v [])"

text \<open>The idiom \<open>[str(item).strip() for item in values if str(item).strip()]\<close>.\<close>

definition clean_list :: "pyval list \<Rightarrow> string list" where
  "clean_list vs = filter (\<lambda>s. s \<noteq> []) (map (\<lambda>v. strip (py_str v)) vs)"

text \<open>The idiom \<open>text or default\<close> on strings.\<close>

definition or_str :: "string \<Rightarrow> string \<Rightarrow> string" where
  "or_str s d = (if s = [] then d else s)"

text \<open>\<open>int(x)\<close>.\<close>

definition rat_trunc :: "rat \<Rightarrow> int" where
  "rat_trunc r = (if 0 \<le> r then floor r else - floor (- r))"

fun py_int :: "pyval \<Rightarrow> pyerr + int" where
  "py_int (PInt i) = Inr i"
| "py_int (PBool b) = Inr (if b then 1 else 0)"
| "py_int (PFloat r _) = Inr (rat_trunc r)"
| "py_int (PStr s) = (case parse_int s of Some i \<Rightarrow> Inr i | None \<Rightarrow> Inl (ValueError ''invalid literal for int()''))"
| "py_int v = Inl (TypeError ''int() argument must be a string or a number'')"

text \<open>Iterating a value: a string yields its characters, a dictionary its keys.\<close>

fun py_iter :: "pyval \<Rightarrow> pyerr + pyval list" where
  "py_iter (PList xs) = Inr xs"
| "py_iter (PStr s) = Inr (map (\<lambda>c. PStr [c]) s)"
| "py_iter (PDict d) = Inr (map (PStr \<circ> fst) d)"
| "py_iter _ = Inl (TypeError ''object is not iterable'')"

definition iterable :: "pyval \<Rightarrow> bool" where
  "iterable v = (case v of PList _ \<Rightarrow> True | PStr _ \<Rightarrow> True | PDict _ \<Rightarrow> True | _ \<Rightarrow> False)"

text \<open>\<open>list(x or [])\<close> for a value.\<close>

definition py_list_or :: "pyval \<Rightarrow> pyerr + pyval list" where
  "py_list_or v = py_iter (py_or v (PList []))"

text \<open>The loop that keeps the first occurrence of every non-empty string (\<open>seen\<close> is the set
  of those already kept).\<close>

fun dedup_nonempty :: "string list \<Rightarrow> string list \<Rightarrow> string list" where
  "dedup_nonempty seen [] = []"
| "dedup_nonempty seen (s # ss) =
     (if s = [] \<or> s \<in> set seen then dedup_nonempty seen ss
      else s # dedup_nonempty (s # seen) ss)"

text \<open>\<open>sorted(xs, key=k, reverse=True)\<close>: descending, equal keys in their original order.\<close>

definition sorted_desc :: "('a \<Rightarrow> 'k::linorder) \<Rightarrow> 'a list \<Rightarrow> 'a list" where
  "sorted_desc k xs = rev (sort_key k (rev xs))"

section \<open>Dictionaries\<close>

definition dget :: "pydict \<Rightarrow> string \<Rightarrow> pyval" where
  "dget d k = (case map_of d k of Some v \<Rightarrow> v | None \<Rightarrow> PNone)"

definition dget_or :: "pydict \<Rightarrow> string \<Rightarrow> pyval \<Rightarrow> pyval" where
  "dget_or d k v0 = (case map_of d k of Some v \<Rightarrow> v | None \<Rightarrow> v0)"

definition dhas :: "pydict \<Rightarrow> string \<Rightarrow> bool" where
  "dhas d k \<longleftrightarrow> map_of d k \<noteq> None"

abbreviation dset :: "'k \<Rightarrow> 'v \<Rightarrow> ('k \<times> 'v) list \<Rightarrow> ('k \<times> 'v) list" where
  "dset \<equiv> AList.update"

abbreviation dpop :: "'k \<Rightarrow> ('k \<times> 'v) list \<Rightarrow> ('k \<times> 'v) list" where
  "dpop \<equiv> AList.delete"

text \<open>\<open>a.update(b)\<close>, and the display with two unpacked dictionaries.\<close>

definition dmerge :: "('k \<times> 'v) list \<Rightarrow> ('k \<times> 'v) list \<Rightarrow> ('k \<times> 'v) list" where
  "dmerge a b = fold (\<lambda>(k, v) d. dset k v d) b a"

text \<open>\<open>d.setdefault(k, v)\<close>.\<close>

definition setdefault :: "string \<Rightarrow> pyval \<Rightarrow> pydict \<Rightarrow> pydict" where
  "setdefault k v d = (if dhas d k then d else dset k v d)"

text \<open>\<open>dict(x or {})\<close> and \<open>list(x or [])\<close> where \<open>x\<close> may be absent.\<close>

definition dict_or :: "pydict option \<Rightarrow> pydict" where
  "dict_or x = (case x of Some d \<Rightarrow> d | None \<Rightarrow> [])"

definition list_or :: "'a list option \<Rightarrow> 'a list" where
  "list_or x = (case x of Some xs \<Rightarrow> xs | None \<Rightarrow> [])"

fun as_dict :: "pyval \<Rightarrow> pydict" where
  "as_dict (PDict d) = d"
| "as_dict _ = []"

fun as_list :: "pyval \<Rightarrow> pyval list" where
  "as_list (PList xs) = xs"
| "as_list _ = []"

section \<open>Time\<close>

type_synonym instant = int

definition seconds :: "int \<Rightarrow> int" where
  "seconds n = n * 1000000"

section \<open>Tables\<close>

definition tbl_get :: "('r \<Rightarrow> 'k) \<Rightarrow> 'k \<Rightarrow> 'r list \<Rightarrow> 'r option" where
  "tbl_get key k T = find (\<lambda>r. key r = k) T"

definition tbl_upd :: "('r \<Rightarrow> 'k) \<Rightarrow> 'k \<Rightarrow> ('r \<Rightarrow> 'r) \<Rightarrow> 'r list \<Rightarrow> 'r list" where
  "tbl_upd key k f T = map (\<lambda>r. if key r = k then f r else r) T"

abbreviation tbl_wf :: "('r \<Rightarrow> 'k) \<Rightarrow> 'r list \<Rightarrow> bool" where
  "tbl_wf key T \<equiv> distinct (map key T)"

section \<open>Lemmas on strings\<close>

lemma strip_by_Nil [simp]: "strip_by p [] = []"
  by (simp add: strip_by_def lstrip_by_def rstrip_by_def)

lemma dropWhile_id: "xs \<noteq> [] \<Longrightarrow> \<not> p (hd xs) \<Longrightarrow> dropWhile p xs = xs"
  by (cases xs) auto

lemma hd_rstrip_by: "rstrip_by p xs \<noteq> [] \<Longrightarrow> hd (rstrip_by p xs) = hd xs"
proof -
  assume ne: "rstrip_by p xs \<noteq> []"
  obtain ys where "rev xs = ys @ dropWhile p (rev xs)"
    by (metis takeWhile_dropWhile_id)
  then have "xs = rstrip_by p xs @ rev ys"
    unfolding rstrip_by_def by (metis rev_append rev_rev_ident)
  with ne show ?thesis by (metis hd_append2)
qed

lemma last_rstrip_by: "rstrip_by p xs \<noteq> [] \<Longrightarrow> \<not> p (last (rstrip_by p xs))"
  unfolding rstrip_by_def by (metis hd_dropWhile last_rev rev_is_Nil_conv)

lemma hd_strip_by: "strip_by p xs \<noteq> [] \<Longrightarrow> \<not> p (hd (strip_by p xs))"
proof -
  assume "strip_by p xs \<noteq> []"
  then have r: "rstrip_by p (dropWhile p xs) \<noteq> []"
    by (simp add: strip_by_def lstrip_by_def)
  then have "dropWhile p xs \<noteq> []" by (metis dropWhile.simps(1) rev.simps(1) rstrip_by_def)
  then have "\<not> p (hd (dropWhile p xs))" by (metis hd_dropWhile dropWhile_eq_Nil_conv)
  with hd_rstrip_by [OF r] show ?thesis by (simp add: strip_by_def lstrip_by_def)
qed

lemma last_strip_by: "strip_by p xs \<noteq> [] \<Longrightarrow> \<not> p (last (strip_by p xs))"
  by (simp add: strip_by_def last_rstrip_by)

lemma strip_by_id: "xs \<noteq> [] \<Longrightarrow> \<not> p (hd xs) \<Longrightarrow> \<not> p (last xs) \<Longrightarrow> strip_by p xs = xs"
  by (simp add: strip_by_def lstrip_by_def rstrip_by_def dropWhile_id hd_rev)

lemma strip_by_idem [simp]: "strip_by p (strip_by p xs) = strip_by p xs"
proof (cases "strip_by p xs = []")
  case False
  with hd_strip_by last_strip_by show ?thesis by (intro strip_by_id) auto
qed simp

lemma lower_char_idem [simp]: "lower_char (lower_char c) = lower_char c"
  by (auto simp: lower_char_def Let_def of_char_of)

lemma lower_idem [simp]: "lower (lower s) = lower s"
  by (simp add: lower_def)

lemma lower_Nil_iff [simp]: "lower s = [] \<longleftrightarrow> s = []"
  by (simp add: lower_def)

lemma split_on_not_Nil [simp]: "split_on d s \<noteq> []"
  by (induction s) (auto split: list.splits)

lemma clean_idem [simp]: "strip (clean v) = clean v"
  by (simp add: clean_def)

lemma clean_PNone [simp]: "clean PNone = []"
  by (simp add: clean_def str_or_def py_or_def)

lemma clean_PStr [simp]: "clean (PStr s) = strip s"
  by (simp add: clean_def str_or_def py_or_def)

lemma clean_list_strip: "s \<in> set (clean_list vs) \<Longrightarrow> strip s = s \<and> s \<noteq> []"
  by (auto simp: clean_list_def)

lemma or_str_not_Nil [simp]: "d \<noteq> [] \<Longrightarrow> or_str s d \<noteq> []"
  by (simp add: or_str_def)

section \<open>Lemmas on numbers\<close>

lemma code_char_of [simp]: "n < 256 \<Longrightarrow> code (char_of n) = n"
  by (simp add: of_char_of)

lemma is_decimal_char_of: "(n::nat) < 10 \<Longrightarrow> is_decimal (char_of (48 + n))"
  by (simp add: is_decimal_def Let_def)

lemma digits_val_append_digit:
  "digits_val p acc s = Some v \<Longrightarrow> n < 10 \<Longrightarrow>
   digits_val p acc (s @ [char_of (48 + n)]) = Some (10 * v + int n)"
  by (induction p acc s rule: digits_val.induct)
    (auto simp: is_decimal_char_of split: if_splits)

lemma digits_val_nat_str: "digits_val p 0 (nat_str n) = Some (int n)"
proof (induction n rule: nat_str.induct)
  case (1 n)
  show ?case
  proof (cases "n < 10")
    case True
    then show ?thesis by (simp add: nat_str.simps [of n] is_decimal_char_of)
  next
    case False
    then have "digits_val p 0 (nat_str (n div 10)) = Some (int (n div 10))" by (rule 1)
    then have "digits_val p 0 (nat_str (n div 10) @ [char_of (48 + n mod 10)])
      = Some (10 * int (n div 10) + int (n mod 10))"
      by (rule digits_val_append_digit) simp
    with False show ?thesis by (simp add: nat_str.simps [of n] zdiv_int zmod_int)
  qed
qed

lemma nat_str_not_Nil [simp]: "nat_str n \<noteq> []"
  by (subst nat_str.simps) simp

lemma nat_str_decimal: "c \<in> set (nat_str n) \<Longrightarrow> is_decimal c"
proof (induction n rule: nat_str.induct)
  case (1 n)
  then show ?case
    by (cases "n < 10") (auto simp: nat_str.simps [of n] is_decimal_char_of)
qed

lemma is_decimal_cases: "is_decimal c \<Longrightarrow> \<not> int_space c \<and> \<not> is_space c \<and> c \<noteq> CHR ''-'' \<and> c \<noteq> CHR ''+''"
  by (auto simp: is_decimal_def int_space_def is_space_def Let_def)

lemma strip_int_str [simp]: "strip_by int_space (int_str i) = int_str i"
proof -
  have "\<not> int_space (hd (int_str i))" "\<not> int_space (last (int_str i))" "int_str i \<noteq> []"
    using nat_str_decimal [of "hd (nat_str (nat i))" "nat i"]
      nat_str_decimal [of "last (nat_str (nat i))" "nat i"]
      nat_str_decimal [of "last (nat_str (nat (- i)))" "nat (- i)"]
    by (auto simp: int_str_def is_decimal_cases) (simp add: int_space_def)
  then show ?thesis by (simp add: strip_by_id)
qed

lemma parse_int_int_str [simp]: "parse_int (int_str i) = Some i"
proof (cases "i < 0")
  case True
  then show ?thesis
    by (simp add: parse_int_def) (simp add: int_str_def digits_val_nat_str)
next
  case False
  obtain c cs where eq: "nat_str (nat i) = c # cs"
    using nat_str_not_Nil [of "nat i"] by (cases "nat_str (nat i)") auto
  then have "is_decimal c" using nat_str_decimal [of c "nat i"] by simp
  then have "c \<noteq> CHR ''-''" "c \<noteq> CHR ''+''" using is_decimal_cases by auto
  with False eq show ?thesis
    using digits_val_nat_str [of False "nat i"]
    by (simp add: parse_int_def) (simp add: int_str_def)
qed

section \<open>Lemmas on lists\<close>

lemma image_take_drop:
  "distinct (map f xs) \<Longrightarrow> f ` set xs - f ` set (take n xs) = f ` set (drop n xs)"
proof -
  assume d: "distinct (map f xs)"
  have u: "set xs = set (take n xs) \<union> set (drop n xs)"
    by (metis append_take_drop_id set_append)
  have "f ` set (take n xs) \<inter> f ` set (drop n xs) = {}"
    using d by (metis append_take_drop_id distinct_append map_append set_map)
  then show ?thesis unfolding u image_Un by blast
qed

section \<open>Lemmas on values\<close>

lemma Inr_projr: "\<not> isl x \<Longrightarrow> x = Inr (projr x)"
  by (cases x) auto

lemma py_iter_iterable: "iterable v \<longleftrightarrow> (\<exists>xs. py_iter v = Inr xs)"
  by (cases v) (auto simp: iterable_def)

lemma py_iter_cases:
  obtains (ok) xs where "py_iter v = Inr xs" "iterable v"
        | (err) e where "py_iter v = Inl e" "\<not> iterable v"
  by (cases v) (auto simp: iterable_def)

lemma set_dedup_nonempty: "set (dedup_nonempty seen ss) = set ss - set seen - {[]}"
  by (induction seen ss rule: dedup_nonempty.induct) auto

lemma distinct_dedup_nonempty: "distinct (dedup_nonempty seen ss)"
  by (induction seen ss rule: dedup_nonempty.induct) (auto simp: set_dedup_nonempty)

lemma set_sorted_desc [simp]: "set (sorted_desc k xs) = set xs"
  by (simp add: sorted_desc_def)

lemma length_sorted_desc [simp]: "length (sorted_desc k xs) = length xs"
  by (simp add: sorted_desc_def)

lemma sorted_desc_sorted: "sorted_wrt (\<lambda>a b. k b \<le> k a) (sorted_desc k xs)"
proof -
  have "sorted_wrt (\<lambda>a b. k a \<le> k b) (sort_key k (rev xs))"
    using sorted_sort_key [of k "rev xs"] by (simp add: sorted_map)
  then show ?thesis by (simp add: sorted_desc_def sorted_wrt_rev)
qed

lemma sorted_desc_head: "sorted_desc k xs = y # ys \<Longrightarrow> x \<in> set xs \<Longrightarrow> k x \<le> k y"
  using sorted_desc_sorted [of k xs] set_sorted_desc [of k xs] by auto

section \<open>Lemmas on dictionaries\<close>

lemma dget_Cons: "dget ((k, v) # d) k' = (if k = k' then v else dget d k')"
  by (simp add: dget_def)

lemma dget_dset [simp]: "dget (dset k v d) k' = (if k = k' then v else dget d k')"
  by (simp add: dget_def update_conv')

lemma dset_same: "map_of d k = Some v \<Longrightarrow> dset k v d = d"
  by (induction d) auto

lemma dhas_dset [simp]: "dhas (dset k v d) k' \<longleftrightarrow> k = k' \<or> dhas d k'"
  by (auto simp: dhas_def update_conv')

lemma set_dset_subset: "set (dset k v d) \<subseteq> insert (k, v) (set d)"
  by (induction d) auto

lemma set_dpop: "set (dpop k d) = {p \<in> set d. fst p \<noteq> k}"
  by (auto simp: AList.delete_eq)

lemma map_of_dpop [simp]: "map_of (dpop k d) k' = (if k' = k then None else map_of d k')"
  by (simp add: delete_conv')

lemma map_of_dset [simp]: "map_of (dset k v d) k' = (if k' = k then Some v else map_of d k')"
  by (simp add: update_conv')

lemma in_set_dset: "distinct (map fst d) \<Longrightarrow>
   p \<in> set (dset k v d) \<longleftrightarrow> p = (k, v) \<or> (p \<in> set d \<and> fst p \<noteq> k)"
  by (induction d) (auto simp: image_iff)

lemma map_of_dmerge: "distinct (map fst b) \<Longrightarrow>
  map_of (dmerge a b) k = (case map_of b k of Some v \<Rightarrow> Some v | None \<Rightarrow> map_of a k)"
proof (induction b arbitrary: a)
  case (Cons p b)
  obtain k' v where p: "p = (k', v)" by (cases p)
  then have "k' \<notin> dom (map_of b)"
    using Cons.prems by (simp add: dom_map_of_conv_image_fst)
  with Cons p show ?case
    by (auto simp: dmerge_def update_conv' domIff split: option.splits)
qed (simp add: dmerge_def)

lemma dget_dmerge: "distinct (map fst b) \<Longrightarrow>
  dget (dmerge a b) k = (if dhas b k then dget b k else dget a k)"
  by (auto simp: dget_def dhas_def map_of_dmerge split: option.splits)

lemma distinct_dmerge: "distinct (map fst a) \<Longrightarrow> distinct (map fst (dmerge a b))"
proof (induction b arbitrary: a)
  case (Cons p b)
  then show ?case
    by (cases p) (simp add: dmerge_def distinct_update)
qed (simp add: dmerge_def)

lemma dmerge_Nil [simp]: "dmerge a [] = a"
  by (simp add: dmerge_def)

section \<open>Lemmas on tables\<close>

lemma tbl_get_Some: "tbl_get key k T = Some r \<Longrightarrow> r \<in> set T \<and> key r = k"
  by (auto simp: tbl_get_def find_Some_iff)

lemma tbl_get_None: "tbl_get key k T = None \<longleftrightarrow> k \<notin> key ` set T"
  by (auto simp: tbl_get_def find_None_iff)

lemma tbl_get_unique: "tbl_wf key T \<Longrightarrow> r \<in> set T \<Longrightarrow> tbl_get key (key r) T = Some r"
  by (induction T) (auto simp: tbl_get_def)

lemma tbl_upd_absent [simp]: "k \<notin> key ` set T \<Longrightarrow> tbl_upd key k f T = T"
  by (auto simp: tbl_upd_def intro!: map_idI)

lemma tbl_get_append:
  "tbl_get key k (T @ U) = (case tbl_get key k T of Some r \<Rightarrow> Some r | None \<Rightarrow> tbl_get key k U)"
  by (induction T) (auto simp: tbl_get_def)

lemma tbl_get_simps [simp]:
  "tbl_get key k [] = None" "tbl_get key k (r # T) = (if key r = k then Some r else tbl_get key k T)"
  by (simp_all add: tbl_get_def)

lemma tbl_get_upd_alt:
  "(\<And>r. r \<in> set T \<Longrightarrow> key r = k \<Longrightarrow> alt r \<noteq> e \<and> alt (f r) \<noteq> e) \<Longrightarrow>
   tbl_get alt e (tbl_upd key k f T) = tbl_get alt e T"
  by (induction T) (auto simp: tbl_upd_def)

lemma length_tbl_upd [simp]: "length (tbl_upd key k f T) = length T"
  by (simp add: tbl_upd_def)

text \<open>
  The contract of a repository method that looks one row up by its key and changes it: the key
  of the row is kept. Everything a client needs (the row read back, the other rows, the key
  constraint of the table) follows.
\<close>

locale row_op =
  fixes key :: "'r \<Rightarrow> 'k"
    and f :: "'r \<Rightarrow> 'r"
  assumes key_f: "key (f r) = key r"
begin

lemma keys_upd: "map key (tbl_upd key k f T) = map key T"
  by (simp add: tbl_upd_def key_f)

lemma wf_upd: "tbl_wf key T \<Longrightarrow> tbl_wf key (tbl_upd key k f T)"
  by (simp add: keys_upd)

lemma get_upd_same: "tbl_get key k (tbl_upd key k f T) = map_option f (tbl_get key k T)"
  by (induction T) (auto simp: tbl_get_def tbl_upd_def key_f)

lemma get_upd_other: "k' \<noteq> k \<Longrightarrow> tbl_get key k' (tbl_upd key k f T) = tbl_get key k' T"
  by (induction T) (auto simp: tbl_get_def tbl_upd_def key_f)

lemma mem_upd: "r \<in> set (tbl_upd key k f T) \<Longrightarrow>
   (r \<in> set T \<and> key r \<noteq> k) \<or> (\<exists>r0 \<in> set T. key r0 = k \<and> r = f r0)"
  by (auto simp: tbl_upd_def split: if_splits)

lemma upd_all:
  "(\<And>r. r \<in> set T \<Longrightarrow> P r) \<Longrightarrow> (\<And>r. r \<in> set T \<Longrightarrow> P r \<Longrightarrow> P (f r))
   \<Longrightarrow> r \<in> set (tbl_upd key k f T) \<Longrightarrow> P r"
  using mem_upd by blast

end

text \<open>A row update that keeps a property of rows: the property of the row with a given key, once
  established, survives the update of any row.\<close>

locale guarded_row_op = row_op key f
  for key :: "'r \<Rightarrow> 'k" and f :: "'r \<Rightarrow> 'r" +
  fixes P :: "'r \<Rightarrow> bool"
  assumes guard_f: "P r \<Longrightarrow> P (f r)"
begin

lemma get_upd_guard:
  "tbl_get key k0 T = Some r \<Longrightarrow> P r \<Longrightarrow> \<exists>r'. tbl_get key k0 (tbl_upd key k f T) = Some r' \<and> P r'"
  by (cases "k0 = k") (auto simp: get_upd_same get_upd_other guard_f)

end

section \<open>Unique constraints\<close>

text \<open>
  Insertion and replacement of a row under the unique constraints of a table: \<open>clash a b\<close> says
  that two rows cannot both be in it. A violation is the database's IntegrityError.
\<close>

definition insert_row :: "('r \<Rightarrow> 'r \<Rightarrow> bool) \<Rightarrow> string \<Rightarrow> 'r \<Rightarrow> 'r list \<Rightarrow> pyerr + 'r \<times> 'r list" where
  "insert_row clash tbl row T = (if list_ex (clash row) T then Inl (IntegrityError tbl) else Inr (row, T @ [row]))"

definition replace_row ::
  "('r \<Rightarrow> 'k) \<Rightarrow> ('r \<Rightarrow> 'r \<Rightarrow> bool) \<Rightarrow> string \<Rightarrow> 'r \<Rightarrow> 'r \<Rightarrow> 'r list \<Rightarrow> pyerr + 'r \<times> 'r list" where
  "replace_row key clash tbl old new T =
     (if list_ex (\<lambda>r. key r \<noteq> key old \<and> clash new r) T then Inl (IntegrityError tbl)
      else Inr (new, tbl_upd key (key old) (\<lambda>_. new) T))"

abbreviation unique_rows :: "('r \<Rightarrow> 'r \<Rightarrow> bool) \<Rightarrow> 'r list \<Rightarrow> bool" where
  "unique_rows clash T \<equiv> sorted_wrt (\<lambda>a b. \<not> clash a b) T"

text \<open>The contract between a table and its repository: the primary key is one of the
  constraints.\<close>

locale unique_table =
  fixes key :: "'r \<Rightarrow> 'k"
    and clash :: "'r \<Rightarrow> 'r \<Rightarrow> bool"
  assumes clash_sym: "clash a b \<Longrightarrow> clash b a"
    and key_clash: "key a = key b \<Longrightarrow> clash a b"
begin

lemma unique_keys: "unique_rows clash T \<Longrightarrow> tbl_wf key T"
  by (induction T) (auto dest: key_clash)

lemma unique_eq:
  "unique_rows clash T \<Longrightarrow> a \<in> set T \<Longrightarrow> b \<in> set T \<Longrightarrow> clash a b \<Longrightarrow> a = b"
proof (induction T)
  case (Cons x T)
  then show ?case using clash_sym [of a b] by auto
qed simp

lemma get_mem: "unique_rows clash T \<Longrightarrow> r \<in> set T \<Longrightarrow> tbl_get key (key r) T = Some r"
  by (rule tbl_get_unique [OF unique_keys])

lemma unique_map:
  "unique_rows clash T \<Longrightarrow> (\<And>a b. clash (f a) (f b) \<Longrightarrow> clash a b) \<Longrightarrow> unique_rows clash (map f T)"
  by (induction T) auto

lemma insert_ok:
  "insert_row clash tbl row T = Inr (r, T') \<Longrightarrow> unique_rows clash T \<Longrightarrow>
   unique_rows clash T' \<and> r = row \<and> T' = T @ [row] \<and> tbl_get key (key row) T' = Some row"
proof -
  assume ins: "insert_row clash tbl row T = Inr (r, T')" and u: "unique_rows clash T"
  then have T': "T' = T @ [row]" "r = row" and nc: "\<forall>x \<in> set T. \<not> clash row x"
    by (auto simp: insert_row_def list_ex_iff split: if_splits)
  then have "unique_rows clash T'" using u clash_sym by (auto simp: sorted_wrt_append)
  moreover have "key row \<notin> key ` set T" using nc key_clash by force
  ultimately show ?thesis using T' by (auto simp: tbl_get_append tbl_get_None [THEN iffD2])
qed

lemma replace_ok:
  assumes rep: "replace_row key clash tbl old new T = Inr (r, T')" and u: "unique_rows clash T"
    and k: "key new = key old" and old: "old \<in> set T"
  shows "unique_rows clash T' \<and> r = new \<and> tbl_get key (key new) T' = Some new
     \<and> (\<forall>k'. k' \<noteq> key old \<longrightarrow> tbl_get key k' T' = tbl_get key k' T)
     \<and> set T' = insert new {x \<in> set T. key x \<noteq> key old}"
proof -
  from rep have T': "T' = tbl_upd key (key old) (\<lambda>_. new) T" "r = new"
    and nc: "\<And>x. x \<in> set T \<Longrightarrow> key x \<noteq> key old \<Longrightarrow> \<not> clash new x"
    by (auto simp: replace_row_def list_ex_iff split: if_splits)
  have u': "unique_rows clash (tbl_upd key (key old) (\<lambda>_. new) S)"
    if "unique_rows clash S" "set S \<subseteq> set T" for S
    using that
  proof (induction S)
    case (Cons x S)
    have d: "key y \<noteq> key x" if "y \<in> set S" for y
      using Cons.prems(1) key_clash [of x y] that by auto
    have "\<not> clash new y" "\<not> clash y new" if "y \<in> set (x # S)" "key y \<noteq> key old" for y
      using nc [of y] clash_sym that Cons.prems(2) by auto
    with Cons d show ?case by (fastforce simp: tbl_upd_def)
  qed (simp add: tbl_upd_def)
  have g: "tbl_get key k' (tbl_upd key (key old) (\<lambda>_. new) S) =
      (if k' = key old then map_option (\<lambda>_. new) (tbl_get key k' S) else tbl_get key k' S)" for k' S
    using k by (induction S) (auto simp: tbl_upd_def)
  have "tbl_get key (key old) T = Some old" using tbl_get_unique [OF unique_keys [OF u] old] .
  moreover have "set T' = insert new {x \<in> set T. key x \<noteq> key old}"
    using old by (auto simp: T' tbl_upd_def)
  ultimately show ?thesis using u' [OF u] T' g k by simp
qed

end

end
