(* ===== verification/Tool_Risk.thy ===== *)
theory Tool_Risk
  imports Py_Base
begin

text \<open>
  Risk classes of tools and identifiers of endpoint tools: \<^verbatim>\<open>endpoint_tool_sdk/risk.py\<close>
  and \<^verbatim>\<open>endpoint_tool_sdk/tool_ids.py\<close>. The classifier's state is its table of
  configured risks, an association list; the lemmas show that the risk of a bundle of tools is
  the highest risk of its members and that the segments of generated tool identifiers are well
  formed.
\<close>

section \<open>Risk classes\<close>

definition action_risk_rank_table :: "(string \<times> int) list" where
  "action_risk_rank_table =
     [(''read'', 0), (''local_write'', 1), (''external_write'', 2), (''destructive'', 3)]"

text \<open>\<open>_ACTION_RISK_RANK.get(risk, 0)\<close>.\<close>

definition action_risk_rank :: "string \<Rightarrow> int" where
  "action_risk_rank r = (case map_of action_risk_rank_table r of Some n \<Rightarrow> n | None \<Rightarrow> 0)"

definition default_tool_action_risks :: "(string \<times> string) list" where
  "default_tool_action_risks =
     [(''exec_core_cmd'', ''destructive''),
      (''exec_sys_cmd'', ''destructive''),
      (''ask_human'', ''read''),
      (''get_current_system_time'', ''read''),
      (''get_sys_vitals'', ''read''),
      (''get_background_status'', ''read''),
      (''manage_heartbeat_settings'', ''local_write''),
      (''restart_core'', ''destructive''),
      (''emit_progress_notice'', ''local_write''),
      (''list_active_endpoints'', ''read''),
      (''list_endpoint_tool_targets'', ''read''),
      (''send_endpoint_message'', ''external_write''),
      (''remember_knowledge'', ''local_write''),
      (''search_memory'', ''read''),
      (''manage_memories'', ''local_write''),
      (''switch_workspace'', ''local_write''),
      (''search_web'', ''read''),
      (''read_web_page'', ''read''),
      (''research_topic'', ''read''),
      (''inspect_page'', ''read''),
      (''track_source_updates'', ''read''),
      (''search_knowledge'', ''read''),
      (''manage_tasks'', ''local_write''),
      (''manage_scheduled_jobs'', ''local_write''),
      (''list_skills'', ''read''),
      (''load_skill'', ''read''),
      (''create_skill'', ''local_write''),
      (''manage_skill'', ''local_write''),
      (''analyze_workspace'', ''read''),
      (''read_local_documents'', ''read''),
      (''write_local_document'', ''local_write''),
      (''rewrite_local_document'', ''local_write''),
      (''compile_report'', ''read''),
      (''manage_schedule'', ''external_write''),
      (''draft_message'', ''external_write''),
      (''meeting_brief'', ''local_write''),
      (''sync_notes'', ''local_write''),
      (''build_study_plan'', ''read''),
      (''extract_learning_points'', ''read''),
      (''quiz_me'', ''read''),
      (''generate_flashcards'', ''read''),
      (''track_mastery'', ''local_write''),
      (''summarize_text'', ''read''),
      (''organize_notes'', ''read''),
      (''extract_action_items'', ''read'')]"

text \<open>\<open>ToolRiskClassifier.__init__\<close>: the defaults overridden by the configured risks.\<close>

definition risk_classifier_init :: "(string \<times> string) list option \<Rightarrow> (string \<times> string) list" where
  "risk_classifier_init action_risks = dmerge default_tool_action_risks (list_or action_risks)"

definition get_tool_action_risk :: "(string \<times> string) list \<Rightarrow> string \<Rightarrow> string" where
  "get_tool_action_risk tbl tool_name =
     (case map_of tbl tool_name of
        Some r \<Rightarrow> r
      | None \<Rightarrow>
         (let lowered = lower tool_name in
          if list_ex (\<lambda>t. contains t lowered) [''delete'', ''remove'', ''erase''] then ''destructive''
          else if list_ex (\<lambda>t. contains t lowered) [''write'', ''create'', ''append'', ''move'', ''rename'']
          then ''local_write''
          else ''read''))"

text \<open>The loop of \<open>get_action_risk_for_tools\<close>, with the running maximum \<open>highest\<close>.\<close>

fun action_risk_loop :: "(string \<times> string) list \<Rightarrow> string \<Rightarrow> string list \<Rightarrow> string" where
  "action_risk_loop tbl highest [] = highest"
| "action_risk_loop tbl highest (t # ts) =
     (let risk = get_tool_action_risk tbl t in
      action_risk_loop tbl (if action_risk_rank risk > action_risk_rank highest then risk else highest) ts)"

definition get_action_risk_for_tools :: "(string \<times> string) list \<Rightarrow> string list \<Rightarrow> string" where
  "get_action_risk_for_tools tbl tool_names = action_risk_loop tbl ''read'' tool_names"

section \<open>Tool identifiers\<close>

definition build_endpoint_tool_prefix :: "string \<Rightarrow> pyerr + string" where
  "build_endpoint_tool_prefix endpoint_id =
     (let n = strip endpoint_id in
      if n = [] then Inl (ValueError ''endpoint_id is required'') else Inr (''endpoint.'' @ n))"

definition build_endpoint_tool_id :: "string \<Rightarrow> string \<Rightarrow> pyerr + string" where
  "build_endpoint_tool_id endpoint_id tool_key =
     (let k = strip_by (\<lambda>c. c = CHR ''.'') (strip tool_key) in
      if k = [] then build_endpoint_tool_prefix endpoint_id
      else rbind (build_endpoint_tool_prefix endpoint_id) (\<lambda>p. Inr (p @ ''.'' @ k)))"

definition is_ascii_alnum :: "char \<Rightarrow> bool" where
  "is_ascii_alnum c \<longleftrightarrow> (let n = code c in
     (97 \<le> n \<and> n \<le> 122) \<or> (65 \<le> n \<and> n \<le> 90) \<or> (48 \<le> n \<and> n \<le> 57))"

text \<open>\<open>re.sub(r"[^a-zA-Z0-9]+", "_", s)\<close>: every maximal run becomes one underscore.\<close>

fun sub_non_alnum :: "bool \<Rightarrow> string \<Rightarrow> string" where
  "sub_non_alnum in_run [] = []"
| "sub_non_alnum in_run (c # cs) =
     (if is_ascii_alnum c then c # sub_non_alnum False cs
      else if in_run then sub_non_alnum True cs
      else CHR ''_'' # sub_non_alnum True cs)"

abbreviation is_underscore :: "char \<Rightarrow> bool" where
  "is_underscore c \<equiv> c = CHR ''_''"

definition slug_tool_segment :: "string \<Rightarrow> string" where
  "slug_tool_segment value =
     or_str (strip_by is_underscore (sub_non_alnum False (strip value))) ''item''"

definition build_endpoint_mcp_tool_id :: "string \<Rightarrow> string \<Rightarrow> string \<Rightarrow> pyerr + string" where
  "build_endpoint_mcp_tool_id endpoint_id server_name tool_name =
     rbind (build_endpoint_tool_prefix endpoint_id)
       (\<lambda>p. Inr (p @ ''.'' @ ''mcp.'' @ slug_tool_segment server_name @ ''.'' @ slug_tool_segment tool_name))"

section \<open>The risk of a bundle\<close>

lemma action_risk_rank_nonneg [simp]: "0 \<le> action_risk_rank r"
  by (simp add: action_risk_rank_def action_risk_rank_table_def)

lemma action_risk_rank_read [simp]: "action_risk_rank ''read'' = 0"
  by (simp add: action_risk_rank_def action_risk_rank_table_def)

lemma action_risk_loop_rank:
  "action_risk_rank (action_risk_loop tbl h ts) =
     fold max (map (\<lambda>t. action_risk_rank (get_tool_action_risk tbl t)) ts) (action_risk_rank h)"
proof (induction ts arbitrary: h)
  case (Cons t ts)
  let ?r = "get_tool_action_risk tbl t"
  have "action_risk_rank (if action_risk_rank ?r > action_risk_rank h then ?r else h)
    = max (action_risk_rank ?r) (action_risk_rank h)" by auto
  with Cons show ?case by (simp add: Let_def)
qed simp

lemma action_risk_loop_mem:
  "action_risk_loop tbl h ts \<in> insert h (get_tool_action_risk tbl ` set ts)"
proof (induction ts arbitrary: h)
  case (Cons t ts)
  let ?h = "if action_risk_rank (get_tool_action_risk tbl t) > action_risk_rank h
            then get_tool_action_risk tbl t else h"
  from Cons [of ?h] show ?case by (auto simp: Let_def split: if_splits)
qed simp

lemma fold_max_le:
  "a \<le> fold max xs (a::int) \<and> (\<forall>x \<in> set xs. x \<le> fold max xs a)"
proof (induction xs arbitrary: a)
  case (Cons x xs)
  from Cons [of "max x a"] show ?case by auto
qed simp

text \<open>The risk class that a bundle of tools is shown with is never below the class of any tool
  in it, and it is \<open>read\<close> or the class of one of its tools.
\<close>

theorem action_risk_for_tools_highest:
  "list_all (\<lambda>t. action_risk_rank (get_tool_action_risk tbl t)
       \<le> action_risk_rank (get_action_risk_for_tools tbl ts)) ts
   \<and> get_action_risk_for_tools tbl ts \<in> insert ''read'' (get_tool_action_risk tbl ` set ts)"
  using fold_max_le [where a = "action_risk_rank ''read''"
      and xs = "map (\<lambda>t. action_risk_rank (get_tool_action_risk tbl t)) ts"]
    action_risk_loop_mem [of tbl "''read''" ts]
  by (simp add: get_action_risk_for_tools_def action_risk_loop_rank list_all_iff)

section \<open>Slugs\<close>

fun slug_shape :: "string \<Rightarrow> bool" where
  "slug_shape [] = True"
| "slug_shape [c] = (is_ascii_alnum c \<or> is_underscore c)"
| "slug_shape (c # d # cs) =
     ((is_ascii_alnum c \<or> is_underscore c) \<and> (is_underscore c \<longrightarrow> \<not> is_underscore d) \<and> slug_shape (d # cs))"

lemma alnum_not_underscore [simp]: "is_ascii_alnum c \<Longrightarrow> \<not> is_underscore c"
  by (auto simp: is_ascii_alnum_def)

lemma slug_shape_Cons:
  "slug_shape (c # cs) \<longleftrightarrow> (is_ascii_alnum c \<or> is_underscore c) \<and> slug_shape cs
     \<and> (is_underscore c \<longrightarrow> cs = [] \<or> \<not> is_underscore (hd cs))"
  by (cases cs) auto

lemma sub_non_alnum_shape:
  "slug_shape (sub_non_alnum b s) \<and> (b \<longrightarrow> sub_non_alnum b s = [] \<or> \<not> is_underscore (hd (sub_non_alnum b s)))"
proof (induction b s rule: sub_non_alnum.induct)
  case (2 b c cs)
  then show ?case by (auto simp: slug_shape_Cons)
qed simp

lemma slug_shape_appendD: "slug_shape (xs @ ys) \<Longrightarrow> slug_shape xs \<and> slug_shape ys"
  by (induction xs) (auto simp: slug_shape_Cons hd_append split: if_splits)

lemma strip_by_infix: "\<exists>u v. xs = u @ strip_by p xs @ v"
proof -
  have "xs = takeWhile p xs @ dropWhile p xs" by simp
  moreover have "dropWhile p xs = rstrip_by p (dropWhile p xs) @ rev (takeWhile p (rev (dropWhile p xs)))"
    unfolding rstrip_by_def by (metis rev_append rev_rev_ident takeWhile_dropWhile_id)
  ultimately show ?thesis unfolding strip_by_def lstrip_by_def by metis
qed

lemma slug_shape_strip: "slug_shape s \<Longrightarrow> slug_shape (strip_by p s)"
  using strip_by_infix [of s p] slug_shape_appendD by metis

lemma sub_non_alnum_fix:
  "slug_shape s \<Longrightarrow> (b \<Longrightarrow> s = [] \<or> \<not> is_underscore (hd s)) \<Longrightarrow> sub_non_alnum b s = s"
proof (induction b s rule: sub_non_alnum.induct)
  case (2 b c cs)
  then show ?case by (auto simp: slug_shape_Cons)
qed simp

lemma slug_shape_chars: "slug_shape s \<Longrightarrow> c \<in> set s \<Longrightarrow> is_ascii_alnum c \<or> is_underscore c"
  by (induction s) (auto simp: slug_shape_Cons)

lemma slug_char_not_space: "is_ascii_alnum c \<or> is_underscore c \<Longrightarrow> \<not> is_space c"
  by (auto simp: is_ascii_alnum_def is_space_def Let_def)

definition slug_ok :: "string \<Rightarrow> bool" where
  "slug_ok s \<longleftrightarrow> s \<noteq> [] \<and> slug_shape s \<and> \<not> is_underscore (hd s) \<and> \<not> is_underscore (last s)"

lemma slug_ok_slug: "slug_ok (slug_tool_segment v)"
proof -
  let ?s = "strip_by is_underscore (sub_non_alnum False (strip v))"
  have "slug_shape ?s" using sub_non_alnum_shape slug_shape_strip by blast
  moreover have "slug_ok ''item''" by code_simp
  ultimately show ?thesis
    using hd_strip_by [of is_underscore] last_strip_by [of is_underscore]
    by (auto simp: slug_tool_segment_def or_str_def slug_ok_def)
qed

lemma slug_fix: "slug_ok s \<Longrightarrow> slug_tool_segment s = s"
proof -
  assume ok: "slug_ok s"
  then have ne: "s \<noteq> []" and sh: "slug_shape s" by (auto simp: slug_ok_def)
  have "\<not> is_space (hd s)" "\<not> is_space (last s)"
    using ne sh slug_shape_chars slug_char_not_space by auto
  then have "strip s = s" using ne by (simp add: strip_by_id)
  moreover have "sub_non_alnum False s = s" using sh by (rule sub_non_alnum_fix) simp
  moreover have "strip_by is_underscore s = s" using ok by (simp add: slug_ok_def strip_by_id)
  ultimately show ?thesis using ne by (simp add: slug_tool_segment_def or_str_def)
qed

text \<open>A tool-identifier segment is never empty, consists of ASCII letters, digits and single
  underscores with none at either end, and slugging it again changes nothing.
\<close>

theorem slug_tool_segment_well_formed:
  "slug_ok (slug_tool_segment v) \<and> slug_tool_segment (slug_tool_segment v) = slug_tool_segment v"
  using slug_ok_slug slug_fix by blast

end
