(* ===== verification/Tool_Authorization.thy ===== *)
theory Tool_Authorization
  imports Tool_Risk
begin

text \<open>
  The permission policy and the authorization gateway in front of every tool call:
  \<^verbatim>\<open>core/tool_runtime/policy.py\<close> and \<^verbatim>\<open>core/tool_runtime/authorization.py\<close>.

  The gateway's collaborators are values of its record: the map from MCP tools to their servers,
  the risk table, the command safety checker and the mode manager (each may be absent, as in the
  code, and the two that the gateway calls without a guard, the checker and the getter of the
  trusted roots, may raise). The file system (\<open>Path.expanduser().resolve()\<close>) and
  \<open>PureWindowsPath\<close> are the fields of \<open>path_env\<close>. Every exception is an \<open>Inl\<close>
  result. The main lemma is a refinement: \<open>decide\<close> raises exactly where \<open>auth_raises\<close> says,
  and a verdict it returns is the one of the abstract rule \<open>auth_spec\<close>.
\<close>

section \<open>policy.py\<close>

definition is_browser_tool :: "string \<Rightarrow> bool" where
  "is_browser_tool tool_name \<longleftrightarrow> startswith tool_name ''browser_''"

definition get_mcp_timeout_seconds :: "string \<Rightarrow> rat" where
  "get_mcp_timeout_seconds tool_name = (if is_browser_tool tool_name then 30 else 10)"

definition should_expose_mcp_tool :: "string \<Rightarrow> string \<Rightarrow> bool" where
  "should_expose_mcp_tool tool_name server_name =
     (if list_ex (startswith tool_name) [''browser_'', ''tavily-''] then False
      else if list_ex (\<lambda>k. contains k (lower server_name)) [''notion''] then False
      else True)"

text \<open>\<open>_normalized_set\<close>: only membership and emptiness of the result are used.\<close>

fun normalized_set :: "pyval \<Rightarrow> string list" where
  "normalized_set (PList xs) = clean_list xs"
| "normalized_set _ = []"

definition is_tool_allowed :: "(string \<times> string) list \<Rightarrow> string \<Rightarrow> pydict option \<Rightarrow> bool" where
  "is_tool_allowed tool_map tool_name route_context =
     (let ctx = dict_or route_context;
          allowed_tool_names = normalized_set (dget_or ctx ''tool_bundle'' (PList []))
      in if allowed_tool_names \<noteq> [] \<and> tool_name \<in> set allowed_tool_names then True
         else if allowed_tool_names \<noteq> [] \<and> tool_name \<notin> set allowed_tool_names then False
         else
          (let allowed_mcp_servers = normalized_set (dget_or ctx ''mcp_servers'' (PList [])) in
           case map_of tool_map tool_name of
             Some server \<Rightarrow>
               if allowed_mcp_servers \<noteq> [] then strip server \<in> set allowed_mcp_servers else True
           | None \<Rightarrow> True))"

section \<open>authorization.py\<close>

record authorization_decision =
  ad_tool_name :: string
  ad_action_risk :: string
  ad_allowed :: bool
  ad_visibility :: string
  ad_requires_confirmation :: bool
  ad_confirmation_kind :: string
  ad_write_boundary :: string
  ad_write_path :: string
  ad_trusted_root :: "bool option"
  ad_read_only :: bool
  ad_policy_sources :: "string list"
  ad_reason_code :: string
  ad_reason_message :: string
  ad_details :: pydict

text \<open>The dataclass defaults, for the fields every construction site gives.\<close>

definition mk_decision :: "string \<Rightarrow> string \<Rightarrow> bool \<Rightarrow> string \<Rightarrow> bool \<Rightarrow> string list \<Rightarrow> authorization_decision" where
  "mk_decision tool risk ok vis ro sources =
     \<lparr>ad_tool_name = tool, ad_action_risk = risk, ad_allowed = ok, ad_visibility = vis,
      ad_requires_confirmation = False, ad_confirmation_kind = '''',
      ad_write_boundary = ''not_applicable'', ad_write_path = '''', ad_trusted_root = None,
      ad_read_only = ro, ad_policy_sources = sources, ad_reason_code = '''',
      ad_reason_message = '''', ad_details = []\<rparr>"

definition opt_bool :: "bool option \<Rightarrow> pyval" where
  "opt_bool x = (case x of None \<Rightarrow> PNone | Some b \<Rightarrow> PBool b)"

definition strs :: "string list \<Rightarrow> pyval" where
  "strs xs = PList (map PStr xs)"

definition decision_to_dict :: "authorization_decision \<Rightarrow> pydict" where
  "decision_to_dict d =
     [(''tool_name'', PStr (ad_tool_name d)),
      (''allowed'', PBool (ad_allowed d)),
      (''visibility'', PStr (ad_visibility d)),
      (''action_risk'', PStr (ad_action_risk d)),
      (''read_only'', PBool (ad_read_only d)),
      (''requires_confirmation'', PBool (ad_requires_confirmation d)),
      (''confirmation_kind'', PStr (ad_confirmation_kind d)),
      (''write_boundary'', PStr (ad_write_boundary d)),
      (''write_path'', PStr (ad_write_path d)),
      (''trusted_root'', opt_bool (ad_trusted_root d)),
      (''policy_sources'', strs (ad_policy_sources d)),
      (''reason_code'', PStr (ad_reason_code d)),
      (''reason_message'', PStr (ad_reason_message d)),
      (''details'', PDict (ad_details d)),
      (''side_effect_audit'', PDict
        [(''tool_name'', PStr (ad_tool_name d)),
         (''action_risk'', PStr (ad_action_risk d)),
         (''allowed'', PBool (ad_allowed d)),
         (''visibility'', PStr (ad_visibility d)),
         (''read_only'', PBool (ad_read_only d)),
         (''requires_confirmation'', PBool (ad_requires_confirmation d)),
         (''confirmation_kind'', PStr (ad_confirmation_kind d)),
         (''write_boundary'', PStr (ad_write_boundary d)),
         (''write_path'', PStr (ad_write_path d)),
         (''trusted_root'', opt_bool (ad_trusted_root d)),
         (''policy_sources'', strs (ad_policy_sources d))])]"

text \<open>
  The mode manager: whether it has a callable \<open>is_trusted_write_path\<close> (\<open>None\<close> inside is an
  exception, which the gateway swallows) and whether it has \<open>get_trusted_write_roots\<close>, whose
  exception (\<open>Inl\<close>) leaves the gateway. The command safety checker may raise too.
\<close>

record mode_manager =
  mm_is_trusted_write_path :: "(string \<Rightarrow> bool option) option"
  mm_trusted_write_roots :: "(pyerr + string list) option"

record gateway =
  gw_tool_map :: "(string \<times> string) list"
  gw_action_risks :: "(string \<times> string) list"
  gw_mode_manager :: "mode_manager option"
  gw_command_safety_checker :: "(string \<Rightarrow> pyerr + pydict) option"
  gw_local_dispatcher_available :: bool

text \<open>\<open>resolve\<close> is \<open>str(Path(p).expanduser().resolve())\<close>, \<open>None\<close> where it raises.\<close>

record path_env =
  windows_path_str :: "string \<Rightarrow> string"
  resolve_path :: "string \<Rightarrow> string option"

definition set_local_capability_dispatcher_available :: "bool \<Rightarrow> gateway \<Rightarrow> gateway" where
  "set_local_capability_dispatcher_available available gw = gw\<lparr>gw_local_dispatcher_available := available\<rparr>"

definition resolve_authorization_policy :: "pydict \<Rightarrow> pydict" where
  "resolve_authorization_policy ctx =
     (case dget ctx ''authorization_policy'' of
        PDict p \<Rightarrow> p
      | _ \<Rightarrow> (case dget ctx ''capability_set'' of
               PDict c \<Rightarrow> (case dget c ''authorization'' of PDict p \<Rightarrow> p | _ \<Rightarrow> [])
             | _ \<Rightarrow> []))"

definition is_ascii_letter :: "char \<Rightarrow> bool" where
  "is_ascii_letter c \<longleftrightarrow> (let n = code c in (97 \<le> n \<and> n \<le> 122) \<or> (65 \<le> n \<and> n \<le> 90))"

text \<open>\<open>_WINDOWS_ABSOLUTE_PATH_RE\<close>: a drive letter, colon and separator, or two backslashes.\<close>

definition windows_absolute_path :: "string \<Rightarrow> bool" where
  "windows_absolute_path p =
     (case p of
        c1 # c2 # c3 # _ \<Rightarrow>
          (is_ascii_letter c1 \<and> c2 = CHR '':'' \<and> (code c3 = 92 \<or> c3 = CHR ''/'')) \<or> (code c1 = 92 \<and> code c2 = 92)
      | [c1, c2] \<Rightarrow> code c1 = 92 \<and> code c2 = 92
      | _ \<Rightarrow> False)"

definition normalize_path :: "path_env \<Rightarrow> string \<Rightarrow> string" where
  "normalize_path env p =
     (if p = [] then []
      else if windows_absolute_path p then windows_path_str env p
      else case resolve_path env p of Some q \<Rightarrow> q | None \<Rightarrow> p)"

definition is_trusted_write_path :: "gateway \<Rightarrow> string \<Rightarrow> bool" where
  "is_trusted_write_path gw p =
     (if p = [] then False
      else case gw_mode_manager gw of
        None \<Rightarrow> False
      | Some mm \<Rightarrow> (case mm_is_trusted_write_path mm of
            None \<Rightarrow> False
          | Some checker \<Rightarrow> (case checker p of Some b \<Rightarrow> b | None \<Rightarrow> False)))"

definition decide_command ::
  "gateway \<Rightarrow> string \<Rightarrow> pydict \<Rightarrow> string \<Rightarrow> bool \<Rightarrow> string list \<Rightarrow> pyerr + authorization_decision option" where
  "decide_command gw tool_name args risk ro sources =
     (case gw_command_safety_checker gw of
        None \<Rightarrow> Inr None
      | Some checker \<Rightarrow>
         if tool_name \<noteq> ''exec_sys_cmd'' then Inr None
         else
          (let cmd = str_or (dget args ''cmd'') [] in
           rbind (checker cmd) (\<lambda>assessment.
           let status = lower (strip (str_or (dget assessment ''status'') ''safe''));
               reason = strip (str_or (dget assessment ''reason'') []);
               confirmed = truthy (dget_or args ''confirmed'' (PBool False));
               details = [(''tool_name'', PStr tool_name), (''command'', PStr cmd),
                          (''policy_status'', PStr status), (''policy_reason'', PStr reason)]
           in if status = ''blocked'' then
                Inr (Some ((mk_decision tool_name risk False ''visible'' ro sources)
                  \<lparr>ad_reason_code := ''tool_command_blocked'',
                   ad_reason_message := ''Tool call was blocked by the command safety policy.'',
                   ad_details := details\<rparr>))
              else if status = ''needs_confirm'' \<and> \<not> confirmed then
                Inr (Some ((mk_decision tool_name risk False ''visible'' ro sources)
                  \<lparr>ad_requires_confirmation := True, ad_confirmation_kind := ''command_policy'',
                   ad_reason_code := ''tool_confirmation_required'',
                   ad_reason_message := ''Tool call requires explicit confirmation before executing a risky command.'',
                   ad_details := details\<rparr>))
              else
                Inr (Some ((mk_decision tool_name risk True ''visible'' ro sources)
                  \<lparr>ad_requires_confirmation := (status = ''needs_confirm''),
                   ad_confirmation_kind := (if status = ''needs_confirm'' then ''command_policy'' else ''''),
                   ad_details := (if status \<noteq> ''safe'' then details else [])\<rparr>)))))"

definition document_write_tools :: "string list" where
  "document_write_tools = [''write_local_document'', ''rewrite_local_document'']"

definition trusted_write_roots :: "gateway \<Rightarrow> pyerr + string list" where
  "trusted_write_roots gw =
     (case gw_mode_manager gw of
        None \<Rightarrow> Inr []
      | Some mm \<Rightarrow> (case mm_trusted_write_roots mm of None \<Rightarrow> Inr [] | Some roots \<Rightarrow> roots))"

definition decide_write_boundary ::
  "path_env \<Rightarrow> gateway \<Rightarrow> string \<Rightarrow> pydict \<Rightarrow> string \<Rightarrow> bool \<Rightarrow> string list \<Rightarrow> pyerr + authorization_decision option" where
  "decide_write_boundary env gw tool_name args risk ro sources =
     (if tool_name \<notin> set document_write_tools then Inr None
      else
       (let path_value = clean (dget args ''path'');
            preview = truthy (dget_or args ''preview'' (PBool True));
            confirmed = truthy (dget_or args ''confirmed'' (PBool False));
            resolved_path = normalize_path env path_value;
            endpoint_managed = gw_local_dispatcher_available gw;
            trusted_root = (if endpoint_managed then None else Some (is_trusted_write_path gw resolved_path));
            write_boundary = (if preview then ''preview''
                              else if endpoint_managed then ''endpoint_tool_managed''
                              else if trusted_root = Some True then ''trusted_root''
                              else ''untrusted_path'');
            details0 = [(''tool_name'', PStr tool_name), (''path'', PStr resolved_path),
                       (''preview'', PBool preview), (''confirmed'', PBool confirmed),
                       (''trusted_root'', opt_bool trusted_root),
                       (''execution_target'', PStr (if endpoint_managed then ''desktop_endpoint_tool'' else ''core_local_fallback''))];
            details = (if endpoint_managed then dset ''endpoint_enforces_write_roots'' (PBool True) details0 else details0)
        in if \<not> preview \<and> \<not> confirmed then
             Inr (Some ((mk_decision tool_name risk False ''visible'' ro sources)
               \<lparr>ad_requires_confirmation := True, ad_confirmation_kind := ''document_write'',
                ad_write_boundary := write_boundary, ad_write_path := resolved_path,
                ad_trusted_root := trusted_root,
                ad_reason_code := ''tool_confirmation_required'',
                ad_reason_message := ''Tool call requires explicit confirmation before writing a local document.'',
                ad_details := details\<rparr>))
           else if \<not> preview \<and> \<not> endpoint_managed \<and> trusted_root \<noteq> Some True then
             rbind (trusted_write_roots gw) (\<lambda>roots.
              Inr (Some ((mk_decision tool_name risk False ''visible'' ro sources)
               \<lparr>ad_write_boundary := write_boundary, ad_write_path := resolved_path,
                ad_trusted_root := trusted_root,
                ad_reason_code := ''tool_write_boundary_violation'',
                ad_reason_message := ''Tool call was denied because the write target is outside trusted roots.'',
                ad_details := dset ''trusted_write_roots'' (strs roots) details\<rparr>)))
           else
             Inr (Some ((mk_decision tool_name risk True ''visible'' ro sources)
               \<lparr>ad_requires_confirmation := \<not> preview,
                ad_confirmation_kind := (if \<not> preview then ''document_write'' else ''''),
                ad_write_boundary := write_boundary, ad_write_path := resolved_path,
                ad_trusted_root := trusted_root,
                ad_details := (if path_value \<noteq> [] then details else [])\<rparr>))))"

definition decide ::
  "path_env \<Rightarrow> gateway \<Rightarrow> string \<Rightarrow> pydict option \<Rightarrow> pydict option \<Rightarrow> pyerr + authorization_decision" where
  "decide env gw tool_name tool_args route_context =
     (let ctx = dict_or route_context;
          args = dict_or tool_args;
          risk = get_tool_action_risk (gw_action_risks gw) tool_name;
          policy = resolve_authorization_policy ctx
      in rbind (py_iter (dget_or policy ''policy_sources'' (PList []))) (\<lambda>items.
         let sources = clean_list items;
             ro = truthy (dget_or policy ''read_only'' (PBool False))
         in if \<not> is_tool_allowed (gw_tool_map gw) tool_name (Some ctx) then
              rbind (py_iter (dget_or ctx ''tool_bundle'' (PList []))) (\<lambda>bundle.
              rbind (py_iter (dget_or ctx ''mcp_servers'' (PList []))) (\<lambda>servers.
                Inr ((mk_decision tool_name risk False ''denied_by_route'' ro sources)
                  \<lparr>ad_reason_code := ''tool_not_allowed'',
                   ad_reason_message := ''Tool call was denied by the current route policy.'',
                   ad_details := [(''tool_name'', PStr tool_name),
                                  (''current_mode'', dget ctx ''current_mode''),
                                  (''tool_bundle'', PList bundle),
                                  (''mcp_servers'', PList servers)]\<rparr>)))
            else if ro \<and> risk \<noteq> ''read'' then
              Inr ((mk_decision tool_name risk False ''visible'' True sources)
                \<lparr>ad_reason_code := ''tool_readonly_violation'',
                 ad_reason_message := ''Tool call was denied because the current mode or skill is read-only.'',
                 ad_details := [(''tool_name'', PStr tool_name),
                                (''current_mode'', dget ctx ''current_mode''),
                                (''action_risk'', PStr risk),
                                (''policy_sources'', strs sources)]\<rparr>)
            else
              rbind (decide_command gw tool_name args risk ro sources) (\<lambda>command_decision.
              case command_decision of
                Some d \<Rightarrow> Inr d
              | None \<Rightarrow>
                 rbind (decide_write_boundary env gw tool_name args risk ro sources) (\<lambda>write_decision.
                 case write_decision of
                   Some d \<Rightarrow> Inr d
                 | None \<Rightarrow> Inr (mk_decision tool_name risk True ''visible'' ro sources)))))"

definition should_expose_tool :: "path_env \<Rightarrow> gateway \<Rightarrow> string \<Rightarrow> pydict option \<Rightarrow> pyerr + bool" where
  "should_expose_tool env gw tool_name route_context =
     rbind (decide env gw tool_name (Some []) route_context) (\<lambda>d. Inr (ad_allowed d))"

section \<open>The rule the gateway implements\<close>

definition route_read_only :: "pydict \<Rightarrow> bool" where
  "route_read_only ctx = truthy (dget_or (resolve_authorization_policy ctx) ''read_only'' (PBool False))"

text \<open>What the command safety checker says of the call's command, or the exception it raises.\<close>

definition command_status :: "gateway \<Rightarrow> pydict \<Rightarrow> pyerr + string" where
  "command_status gw args =
     (case gw_command_safety_checker gw of
        None \<Rightarrow> Inr ''safe''
      | Some checker \<Rightarrow>
          (case checker (str_or (dget args ''cmd'') []) of
             Inl e \<Rightarrow> Inl e
           | Inr assessment \<Rightarrow> Inr (lower (strip (str_or (dget assessment ''status'') ''safe'')))))"

definition arg_flag :: "pydict \<Rightarrow> string \<Rightarrow> bool \<Rightarrow> bool" where
  "arg_flag args k b = truthy (dget_or args k (PBool b))"

definition auth_spec :: "path_env \<Rightarrow> gateway \<Rightarrow> string \<Rightarrow> pydict \<Rightarrow> pydict \<Rightarrow> bool" where
  "auth_spec env gw tool args ctx \<longleftrightarrow>
     is_tool_allowed (gw_tool_map gw) tool (Some ctx)
   \<and> (route_read_only ctx \<longrightarrow> get_tool_action_risk (gw_action_risks gw) tool = ''read'')
   \<and> (tool = ''exec_sys_cmd'' \<longrightarrow>
        command_status gw args \<noteq> Inr ''blocked''
      \<and> (command_status gw args = Inr ''needs_confirm'' \<longrightarrow> arg_flag args ''confirmed'' False))
   \<and> (tool \<in> set document_write_tools \<longrightarrow> arg_flag args ''preview'' True
        \<or> arg_flag args ''confirmed'' False
          \<and> (gw_local_dispatcher_available gw
             \<or> is_trusted_write_path gw (normalize_path env (clean (dget args ''path'')))))"

text \<open>
  The exceptions that leave the gateway. The policy sources are read first; a call the route
  denies copies the tool bundle and the server list into its details; a call that passes the
  route and the read-only rule asks the command safety checker about a system command, and asks
  the mode manager for its roots when it denies a confirmed write to an untrusted path.
\<close>

definition untrusted_write :: "path_env \<Rightarrow> gateway \<Rightarrow> string \<Rightarrow> pydict \<Rightarrow> bool" where
  "untrusted_write env gw tool args \<longleftrightarrow>
     tool \<in> set document_write_tools \<and> \<not> arg_flag args ''preview'' True
   \<and> arg_flag args ''confirmed'' False \<and> \<not> gw_local_dispatcher_available gw
   \<and> \<not> is_trusted_write_path gw (normalize_path env (clean (dget args ''path'')))"

definition auth_raises :: "path_env \<Rightarrow> gateway \<Rightarrow> string \<Rightarrow> pydict \<Rightarrow> pydict \<Rightarrow> pyerr \<Rightarrow> bool" where
  "auth_raises env gw tool args ctx e \<longleftrightarrow>
     (let sources = dget_or (resolve_authorization_policy ctx) ''policy_sources'' (PList []);
          bundle = dget_or ctx ''tool_bundle'' (PList []);
          servers = dget_or ctx ''mcp_servers'' (PList []);
          routed = is_tool_allowed (gw_tool_map gw) tool (Some ctx);
          mode_ok = (route_read_only ctx \<longrightarrow> get_tool_action_risk (gw_action_risks gw) tool = ''read'')
      in py_iter sources = Inl e
       \<or> iterable sources \<and> \<not> routed
           \<and> (py_iter bundle = Inl e \<or> iterable bundle \<and> py_iter servers = Inl e)
       \<or> iterable sources \<and> routed \<and> mode_ok
           \<and> (tool = ''exec_sys_cmd'' \<and> command_status gw args = Inl e
              \<or> untrusted_write env gw tool args \<and> trusted_write_roots gw = Inl e))"

section \<open>Proofs\<close>

lemma mk_decision_sel [simp]:
  "ad_allowed (mk_decision t r ok v ro s) = ok" "ad_tool_name (mk_decision t r ok v ro s) = t"
  "ad_action_risk (mk_decision t r ok v ro s) = r" "ad_read_only (mk_decision t r ok v ro s) = ro"
  "ad_visibility (mk_decision t r ok v ro s) = v" "ad_reason_code (mk_decision t r ok v ro s) = []"
  "ad_requires_confirmation (mk_decision t r ok v ro s) = False"
  "ad_write_boundary (mk_decision t r ok v ro s) = ''not_applicable''"
  by (simp_all add: mk_decision_def)

lemma decide_command_None:
  "decide_command gw t a r ro s = Inr None \<longleftrightarrow> t \<noteq> ''exec_sys_cmd'' \<or> gw_command_safety_checker gw = None"
  by (auto simp: decide_command_def Let_def rbind_def split: option.splits sum.splits)

lemma decide_command_allowed:
  "decide_command gw t a r ro s = Inr (Some d) \<Longrightarrow>
     t = ''exec_sys_cmd''
   \<and> (\<exists>st. command_status gw a = Inr st)
   \<and> (ad_allowed d \<longleftrightarrow> command_status gw a \<noteq> Inr ''blocked''
        \<and> (command_status gw a = Inr ''needs_confirm'' \<longrightarrow> arg_flag a ''confirmed'' False))
   \<and> (ad_allowed d \<longleftrightarrow> ad_reason_code d = [])"
  by (auto simp: decide_command_def Let_def command_status_def arg_flag_def rbind_def
      split: option.splits if_splits sum.splits)

lemma decide_command_Inl:
  "decide_command gw t a r ro s = Inl e \<longleftrightarrow> t = ''exec_sys_cmd'' \<and> command_status gw a = Inl e"
  by (auto simp: decide_command_def Let_def command_status_def rbind_def
      split: option.splits sum.splits)

lemma decide_write_boundary_None:
  "decide_write_boundary env gw t a r ro s = Inr None \<longleftrightarrow> t \<notin> set document_write_tools"
  by (auto simp: decide_write_boundary_def Let_def rbind_def split: sum.splits)

lemma decide_write_boundary_Inl:
  "decide_write_boundary env gw t a r ro s = Inl e \<longleftrightarrow>
     untrusted_write env gw t a \<and> trusted_write_roots gw = Inl e"
  by (auto simp: decide_write_boundary_def Let_def rbind_def untrusted_write_def arg_flag_def
      split: sum.splits)

text \<open>Every field of an accepted document write that the audit record keeps.\<close>

lemma decide_write_boundary_fields:
  assumes "decide_write_boundary env gw t a r ro s = Inr (Some d)"
  shows "t \<in> set document_write_tools"
    and "ad_allowed d \<longleftrightarrow> arg_flag a ''preview'' True
        \<or> arg_flag a ''confirmed'' False
          \<and> (gw_local_dispatcher_available gw
             \<or> is_trusted_write_path gw (normalize_path env (clean (dget a ''path''))))"
    and "ad_allowed d \<longleftrightarrow> ad_reason_code d = []"
    and "ad_write_path d = normalize_path env (clean (dget a ''path''))"
    and "ad_trusted_root d = (if gw_local_dispatcher_available gw then None
           else Some (is_trusted_write_path gw (ad_write_path d)))"
    and "ad_write_boundary d = (if arg_flag a ''preview'' True then ''preview''
           else if gw_local_dispatcher_available gw then ''endpoint_tool_managed''
           else if is_trusted_write_path gw (ad_write_path d) then ''trusted_root''
           else ''untrusted_path'')"
    and "ad_allowed d \<Longrightarrow> ad_requires_confirmation d \<longleftrightarrow> \<not> arg_flag a ''preview'' True"
  using assms
  by (auto simp: decide_write_boundary_def Let_def arg_flag_def rbind_def split: if_splits sum.splits)

lemma command_status_absent: "gw_command_safety_checker gw = None \<Longrightarrow> command_status gw a = Inr ''safe''"
  by (simp add: command_status_def)

lemma exec_not_document: "''exec_sys_cmd'' \<notin> set document_write_tools"
  by (simp add: document_write_tools_def)

text \<open>The guards in the order of the code, as an elimination rule for a returned decision.\<close>

lemma decide_cases:
  assumes "decide env gw t a c = Inr d"
  obtains (route) "\<not> is_tool_allowed (gw_tool_map gw) t (Some (dict_or c))"
      "iterable (dget_or (dict_or c) ''tool_bundle'' (PList []))"
      "iterable (dget_or (dict_or c) ''mcp_servers'' (PList []))"
      "\<not> ad_allowed d" "ad_reason_code d = ''tool_not_allowed''"
  | (read_only) "is_tool_allowed (gw_tool_map gw) t (Some (dict_or c))"
      "route_read_only (dict_or c)" "get_tool_action_risk (gw_action_risks gw) t \<noteq> ''read''"
      "\<not> ad_allowed d" "ad_reason_code d = ''tool_readonly_violation''"
  | (command) r ro s where "is_tool_allowed (gw_tool_map gw) t (Some (dict_or c))"
      "\<not> (route_read_only (dict_or c) \<and> get_tool_action_risk (gw_action_risks gw) t \<noteq> ''read'')"
      "decide_command gw t (dict_or a) r ro s = Inr (Some d)"
  | (boundary) r ro s where "is_tool_allowed (gw_tool_map gw) t (Some (dict_or c))"
      "\<not> (route_read_only (dict_or c) \<and> get_tool_action_risk (gw_action_risks gw) t \<noteq> ''read'')"
      "decide_command gw t (dict_or a) r ro s = Inr None"
      "decide_write_boundary env gw t (dict_or a) r ro s = Inr (Some d)"
  | (plain) r ro s where "is_tool_allowed (gw_tool_map gw) t (Some (dict_or c))"
      "\<not> (route_read_only (dict_or c) \<and> get_tool_action_risk (gw_action_risks gw) t \<noteq> ''read'')"
      "decide_command gw t (dict_or a) r ro s = Inr None"
      "decide_write_boundary env gw t (dict_or a) r ro s = Inr None"
      "ad_allowed d" "ad_reason_code d = []" "ad_write_boundary d = ''not_applicable''"
  using assms
  by (auto simp: decide_def Let_def rbind_def route_read_only_def py_iter_iterable
      split: sum.splits if_splits option.splits)

lemma decide_allowed_iff:
  assumes "decide env gw t a c = Inr d"
  shows "ad_allowed d \<longleftrightarrow> auth_spec env gw t (dict_or a) (dict_or c)"
  using assms
proof (cases rule: decide_cases)
  case (command r ro s)
  then show ?thesis
    using decide_command_allowed [OF command(3)] exec_not_document by (auto simp: auth_spec_def)
next
  case (boundary r ro s)
  then show ?thesis
    using decide_write_boundary_fields(1,2) [OF boundary(4)] exec_not_document
    by (auto simp: auth_spec_def)
next
  case (plain r ro s)
  then show ?thesis
    using command_status_absent [of gw]
    by (auto simp: auth_spec_def decide_command_None decide_write_boundary_None)
qed (auto simp: auth_spec_def)

text \<open>The exceptions of the gateway, in the order of the code.\<close>

lemma decide_Inl:
  "decide env gw t a c = Inl e \<longleftrightarrow> auth_raises env gw t (dict_or a) (dict_or c) e"
proof (cases "py_iter (dget_or (resolve_authorization_policy (dict_or c)) ''policy_sources'' (PList []))")
  case (Inl x)
  then show ?thesis by (auto simp: decide_def auth_raises_def Let_def rbind_def py_iter_iterable)
next
  case (Inr items)
  let ?risk = "get_tool_action_risk (gw_action_risks gw) t"
  let ?ro = "route_read_only (dict_or c)" and ?s = "clean_list items"
  note defs = decide_def auth_raises_def Let_def rbind_def py_iter_iterable Inr route_read_only_def
  have excl: "\<not> untrusted_write env gw ''exec_sys_cmd'' (dict_or a)"
    using exec_not_document by (simp add: untrusted_write_def)
  show ?thesis
  proof (cases "is_tool_allowed (gw_tool_map gw) t (Some (dict_or c)) \<and> (?ro \<longrightarrow> ?risk = ''read'')")
    case False
    then show ?thesis by (auto simp: defs split: sum.splits)
  next
    case True
    then have raises: "auth_raises env gw t (dict_or a) (dict_or c) e \<longleftrightarrow>
        t = ''exec_sys_cmd'' \<and> command_status gw (dict_or a) = Inl e
      \<or> untrusted_write env gw t (dict_or a) \<and> trusted_write_roots gw = Inl e"
      by (auto simp: defs)
    have run: "decide env gw t a c = rbind (decide_command gw t (dict_or a) ?risk ?ro ?s) (\<lambda>cd.
        case cd of Some d \<Rightarrow> Inr d | None \<Rightarrow>
          rbind (decide_write_boundary env gw t (dict_or a) ?risk ?ro ?s) (\<lambda>wd.
            case wd of Some d \<Rightarrow> Inr d | None \<Rightarrow> Inr (mk_decision t ?risk True ''visible'' ?ro ?s)))"
      using True unfolding decide_def Let_def Inr route_read_only_def rbind_def by auto
    show ?thesis
    proof (cases "decide_command gw t (dict_or a) ?risk ?ro ?s")
      case (Inl x)
      with decide_command_Inl [of gw t "dict_or a" ?risk ?ro ?s] excl show ?thesis
        by (auto simp: raises run rbind_def)
    next
      case cmd: (Inr r)
      then have no_exec: "\<not> (t = ''exec_sys_cmd'' \<and> command_status gw (dict_or a) = Inl e)"
        using decide_command_Inl [of gw t "dict_or a" ?risk ?ro ?s e] by simp
      show ?thesis
      proof (cases r)
        case None
        with cmd no_exec decide_write_boundary_Inl [of env gw t "dict_or a" ?risk ?ro ?s e]
        show ?thesis unfolding raises run
          by (cases "decide_write_boundary env gw t (dict_or a) ?risk ?ro ?s")
            (auto simp: rbind_def split: option.split)
      next
        case (Some d)
        with cmd have t: "t = ''exec_sys_cmd''" using decide_command_allowed by blast
        have "decide env gw t a c = Inr d" unfolding run by (simp add: rbind_def cmd Some)
        with no_exec excl t show ?thesis unfolding raises by simp
      qed
    qed
  qed
qed

text \<open>
  (C1) Refinement of the authorization rule, for every tool, arguments and route context. The
  gateway raises exactly where \<open>auth_raises\<close> says, with that exception: policy sources that
  are not iterable; a tool the route denies with a tool bundle or server list that is not
  iterable; a system command whose safety check raises; a confirmed write to an untrusted path
  when the getter of the trusted roots raises. Otherwise it returns, and its verdict is exactly
  the rule: the route allows the tool, a read-only route admits read tools only, a system command
  is not blocked and is confirmed where it must be, and a document is written only as a preview or
  confirmed and inside a trusted root (or through an endpoint that enforces its own roots).
\<close>

theorem decide_refines_rule:
  "case decide env gw t a c of
     Inl e \<Rightarrow> auth_raises env gw t (dict_or a) (dict_or c) e
   | Inr d \<Rightarrow> (\<nexists>e. auth_raises env gw t (dict_or a) (dict_or c) e)
       \<and> (ad_allowed d \<longleftrightarrow> auth_spec env gw t (dict_or a) (dict_or c))"
  using decide_Inl [of env gw t a c] decide_allowed_iff [of env gw t a c]
  by (auto split: sum.splits)

text \<open>
  (C24) The audit record of a document write that the gateway lets through. The recorded path is
  the normalised path argument. The boundary is a preview exactly for a preview call; otherwise
  the write was explicitly confirmed, and the boundary is the endpoint's own roots exactly when a
  local dispatcher is available, and a trusted root, which the mode manager accepted for that
  path, exactly when none is. The recorded trust flag is absent exactly with a dispatcher.
\<close>

theorem allowed_document_write_is_bounded:
  assumes "decide env gw t a c = Inr d" "t \<in> set document_write_tools" "ad_allowed d"
  shows "ad_write_path d = normalize_path env (clean (dget (dict_or a) ''path''))
   \<and> ad_write_boundary d \<in> {''preview'', ''endpoint_tool_managed'', ''trusted_root''}
   \<and> (ad_write_boundary d = ''preview'' \<longleftrightarrow> arg_flag (dict_or a) ''preview'' True)
   \<and> (ad_write_boundary d = ''endpoint_tool_managed'' \<longleftrightarrow>
        \<not> arg_flag (dict_or a) ''preview'' True \<and> gw_local_dispatcher_available gw)
   \<and> (ad_write_boundary d = ''trusted_root'' \<longrightarrow>
        is_trusted_write_path gw (ad_write_path d) \<and> ad_trusted_root d = Some True)
   \<and> (ad_trusted_root d = None \<longleftrightarrow> gw_local_dispatcher_available gw)
   \<and> (ad_write_boundary d \<noteq> ''preview'' \<longrightarrow>
        arg_flag (dict_or a) ''confirmed'' False \<and> ad_requires_confirmation d)"
  using assms(1)
proof (cases rule: decide_cases)
  case (command r ro s)
  then show ?thesis using decide_command_allowed [OF command(3)] assms(2) exec_not_document by auto
next
  case (boundary r ro s)
  show ?thesis using decide_write_boundary_fields [OF boundary(4)] assms(3) by auto
next
  case (plain r ro s)
  then show ?thesis using assms(2) by (simp add: decide_write_boundary_None)
qed (use assms(3) in auto)

definition example_gateway :: gateway where
  "example_gateway =
     \<lparr>gw_tool_map = [(''notes_search'', ''notes'')],
      gw_action_risks = default_tool_action_risks,
      gw_mode_manager = Some \<lparr>mm_is_trusted_write_path = Some (\<lambda>p. Some (startswith p ''/home/me/'')),
                              mm_trusted_write_roots = Some (Inr [''/home/me''])\<rparr>,
      gw_command_safety_checker = None,
      gw_local_dispatcher_available = False\<rparr>"

definition example_paths :: path_env where
  "example_paths = \<lparr>windows_path_str = id, resolve_path = Some\<rparr>"

definition example_write_args :: pydict where
  "example_write_args =
     [(''path'', PStr ''/home/me/a''), (''preview'', PBool False), (''confirmed'', PBool True)]"

theorem allowed_document_write_is_bounded_witness:
  "case decide example_paths example_gateway ''write_local_document'' (Some example_write_args) None of
     Inl e \<Rightarrow> False
   | Inr d \<Rightarrow> ad_allowed d \<and> ad_write_boundary d = ''trusted_root''
            \<and> is_trusted_write_path example_gateway (ad_write_path d)
            \<and> arg_flag example_write_args ''confirmed'' False"
proof -
  let ?r = "decide example_paths example_gateway ''write_local_document'' (Some example_write_args) None"
  have ok: "case ?r of Inl e \<Rightarrow> False | Inr d \<Rightarrow> ad_allowed d \<and> ad_write_boundary d = ''trusted_root''"
    by code_simp
  then obtain d where d: "?r = Inr d" and al: "ad_allowed d" and b: "ad_write_boundary d = ''trusted_root''"
    by (auto split: sum.splits)
  have "''write_local_document'' \<in> set document_write_tools" by code_simp
  note conc = allowed_document_write_is_bounded [OF d this al]
  have "ad_write_boundary d \<noteq> ''preview''" by (simp add: b)
  then have "is_trusted_write_path example_gateway (ad_write_path d) \<and> arg_flag example_write_args ''confirmed'' False"
    using conc b unfolding dict_or_def option.case by blast
  then show ?thesis using al b by (simp only: d sum.case)
qed

text \<open>The gateway never denies silently: a returned decision is negative exactly when it carries
  a reason code.
\<close>

theorem denied_iff_reason_code:
  "case decide env gw t a c of Inl e \<Rightarrow> True | Inr d \<Rightarrow> (ad_allowed d \<longleftrightarrow> ad_reason_code d = [])"
proof (cases "decide env gw t a c")
  case (Inr d)
  then have "ad_allowed d \<longleftrightarrow> ad_reason_code d = []"
  proof (cases rule: decide_cases)
    case (command r ro s)
    then show ?thesis using decide_command_allowed by blast
  next
    case (boundary r ro s)
    then show ?thesis using decide_write_boundary_fields(3) by blast
  qed auto
  with Inr show ?thesis by simp
qed simp

end
