(* ===== verification/Command_Policy.thy ===== *)
theory Command_Policy
  imports Tool_Authorization
begin

text \<open>
  The command safety policies: \<^verbatim>\<open>tools/command_policy.py\<close> (shared by Core and the
  desktop endpoint) and the legacy check of \<^verbatim>\<open>tools/system_tools.py\<close> that the
  authorization gateway asks about \<open>exec_sys_cmd\<close>.

  The regular-expression engine is the parameter \<open>re_search pattern text\<close> (case-insensitive
  search; \<open>None\<close> is \<open>re.error\<close>, raised when the pattern does not compile). In the pattern
  literals a tilde stands for the backslash; \<open>re_raw\<close> puts it back.
\<close>

type_synonym re_engine = "string \<Rightarrow> string \<Rightarrow> bool option"

definition re_raw :: "string \<Rightarrow> string" where
  "re_raw s = map (\<lambda>c. if c = CHR ''~'' then char_of (92::nat) else c) s"

section \<open>command\_policy.py\<close>

definition default_blacklist_patterns :: "string list" where
  "default_blacklist_patterns = map re_raw
     [''(^|[;&|])~s*(rm|del|erase|rd|rmdir|Remove-Item)~b'',
      ''(^|[;&|])~s*(shutdown|reboot|halt|poweroff|restart-computer|stop-computer)~b'',
      ''~b(format|diskpart|mkfs(?:~.~w+)?|fdisk|parted|dd~s+if=|cipher~s+/w|sdelete)~b'',
      ''(^|[;&|])~s*(reg(?:~.exe)?~s+(add|delete|import|load|unload)|regedit)~b'',
      ''~b(bcdedit|bootrec|wevtutil~s+cl|vssadmin|wbadmin)~b'',
      ''(^|[;&|])~s*(powershell(?:~.exe)?|pwsh)~b.*-(enc|encodedcommand|e)~b'',
      ''~b(Invoke-Expression|iex|Set-ExecutionPolicy|Start-Process)~b'',
      ''~b(curl|wget|Invoke-WebRequest|iwr)~b.*(~||&&|;).*~b(sh|bash|zsh|powershell|pwsh|cmd)(?:~.exe)?~b'',
      ''(^|[;&|])~s*(net~s+(user|localgroup)|sc(?:~.exe)?~s+(config|create|delete|stop|start)|schtasks|crontab)~b'',
      ''(^|[;&|])~s*(systemctl~s+(stop|disable|mask|reboot|poweroff)|service~s+~S+~s+(stop|restart))~b'',
      ''(^|[;&|])~s*(taskkill|Stop-Process|pkill|killall|kill~s+-9)~b'',
      ''~b(chmod~s+777|chown|takeown|icacls|attrib~s+[+-][rhs])~b'',
      ''~b(netsh~b.*~badvfirewall~b|iptables|ufw|route~s+(add|delete|change))~b'',
      ''~bgit~s+(reset~s+--hard|clean~s+-fdx|checkout~s+--)~b'',
      ''~b(docker~s+(rm|rmi|system~s+prune|volume~s+rm)|kubectl~s+delete)~b'']"

definition core_default_whitelist :: "string list" where
  "core_default_whitelist =
     [''dir'', ''echo'', ''hostname'', ''whoami'', ''date'', ''time'', ''ver'', ''where'',
      ''python --version'', ''node --version'', ''npm --version'',
      ''git status'', ''git log'', ''git diff'', ''git branch'',
      ''curl'', ''curl.exe'', ''wget -qO-'', ''wget.exe -qO-'']"

definition core_default_policy :: pydict where
  "core_default_policy =
     [(''mode'', PStr ''whitelist''), (''whitelist'', strs core_default_whitelist),
      (''blacklist_patterns'', PList [])]"

definition shell_control_pattern :: string where
  "shell_control_pattern = re_raw ''(^|~s)&(~s|$)|&&|~|~||[;|<>]''"

definition transfer_write_patterns :: "string list" where
  "transfer_write_patterns = map re_raw
     [''~s(?:-o|--output|--output-dir|-O|--remote-name|--remote-header-name|-J|--config|-K)(?:~s|=|$)'',
      ''~s(?:-T|--upload-file|--form|-F)(?:~s|=|$)'',
      ''~s(?:--data(?:-ascii|-binary|-raw|-urlencode)?|-d)(?:~s|=)*@'',
      ''~s(?:--output-document|--directory-prefix|-P)(?:~s|=|$)'',
      ''~b(?:file|ftp|sftp|scp|smb|gopher|dict|ldap)://'']"

text \<open>\<open>re.sub(r"\s+", " ", command.strip())\<close>.\<close>

definition normalize_command :: "string \<Rightarrow> string" where
  "normalize_command command = join '' '' (split_ws command)"

text \<open>\<open>load_policy_file\<close>: \<open>content\<close> is the decoded file, \<open>None\<close> when reading or decoding
  raised.\<close>

definition load_policy_file :: "pyval option \<Rightarrow> pydict \<Rightarrow> pydict" where
  "load_policy_file content default_policy =
     (case content of Some (PDict d) \<Rightarrow> d | _ \<Rightarrow> default_policy)"

fun whitelist_loop :: "string \<Rightarrow> bool \<Rightarrow> pyval list \<Rightarrow> bool" where
  "whitelist_loop lowered boundary [] = False"
| "whitelist_loop lowered boundary (item # items) =
     (let allowed = lower (normalize_command (str_or item [])) in
      if allowed = [] then whitelist_loop lowered boundary items
      else if lowered = allowed then True
      else if boundary \<and> startswith lowered (allowed @ '' '') then True
      else if \<not> boundary \<and> startswith lowered allowed then True
      else whitelist_loop lowered boundary items)"

definition whitelist_matches :: "string \<Rightarrow> pyval list \<Rightarrow> bool \<Rightarrow> bool" where
  "whitelist_matches command whitelist require_token_boundary =
     whitelist_loop (lower (normalize_command command)) require_token_boundary whitelist"

definition combined_blacklist :: "pydict \<Rightarrow> pyerr + string list" where
  "combined_blacklist policy =
     rbind (py_list_or (dget_or policy ''blacklist_patterns'' (PList []))) (\<lambda>extra.
       Inr (dedup_nonempty [] (map (\<lambda>s. strip s) default_blacklist_patterns @ map clean extra)))"

definition matches_pattern :: "re_engine \<Rightarrow> string \<Rightarrow> string \<Rightarrow> string \<Rightarrow> bool" where
  "matches_pattern re_search pattern command normalized =
     (case re_search pattern command of
        None \<Rightarrow> contains (lower pattern) (lower normalized)
      | Some True \<Rightarrow> True
      | Some False \<Rightarrow>
         (case re_search pattern normalized of
            None \<Rightarrow> contains (lower pattern) (lower normalized)
          | Some b \<Rightarrow> b))"

text \<open>\<open>_TRANSFER_TOOL_RE.match\<close> on a normalized command: its first word.\<close>

definition transfer_tool :: "string \<Rightarrow> bool" where
  "transfer_tool normalized =
     (case split_ws normalized of
        [] \<Rightarrow> False
      | w # _ \<Rightarrow> lower w \<in> set [''curl'', ''curl.exe'', ''wget'', ''wget.exe''])"

definition hard_guard :: "re_engine \<Rightarrow> string \<Rightarrow> string \<Rightarrow> (string \<times> string) option" where
  "hard_guard re_search command normalized =
     (if matches_pattern re_search shell_control_pattern command normalized
      then Some (''blocked'', ''Matched shell control or redirection operator.'')
      else if transfer_tool normalized then
        (case find (\<lambda>p. matches_pattern re_search p command normalized) transfer_write_patterns of
           Some p \<Rightarrow> Some (''blocked'', ''Matched restricted transfer option: '' @ p)
         | None \<Rightarrow> None)
      else None)"

definition assess_shared_command_safety ::
  "re_engine \<Rightarrow> string \<Rightarrow> pydict option \<Rightarrow> string \<Rightarrow> bool \<Rightarrow> bool \<Rightarrow> pyerr + (string \<times> string)" where
  "assess_shared_command_safety re_search command policy blacklist_match_status
       enforce_hard_guards whitelist_requires_boundary =
     (let normalized = normalize_command command;
          resolved = dict_or policy
      in if normalized = [] then Inr (''blocked'', ''Command is required.'')
         else case (if enforce_hard_guards then hard_guard re_search command normalized else None) of
           Some r \<Rightarrow> Inr r
         | None \<Rightarrow>
            if resolved = [] \<or> dget resolved ''mode'' = PStr ''none'' then Inr (''safe'', '''')
            else if lower (strip (str_or (dget resolved ''mode'') ''blacklist'')) = ''whitelist'' then
              rbind (py_list_or (dget_or resolved ''whitelist'' (PList []))) (\<lambda>wl.
                if whitelist_matches normalized wl whitelist_requires_boundary then Inr (''safe'', '''')
                else Inr (''blocked'', ''Command is not in whitelist: '' @ normalized))
            else
              rbind (combined_blacklist resolved) (\<lambda>patterns.
                case find (\<lambda>p. matches_pattern re_search p command normalized) patterns of
                  Some p \<Rightarrow> Inr (blacklist_match_status, ''Matched dangerous rule: '' @ p)
                | None \<Rightarrow> Inr (''safe'', '''')))"

section \<open>system\_tools.py\<close>

text \<open>
  \<open>_check_command_safety\<close>: the status it returns (the reasons are Chinese texts and are not
  modelled). \<open>policy\<close> is the module's \<open>_cmd_policy\<close>.
\<close>

definition check_command_status :: "re_engine \<Rightarrow> pydict option \<Rightarrow> string \<Rightarrow> pyerr + string" where
  "check_command_status re_search policy cmd =
     (case policy of
        None \<Rightarrow> Inr ''safe''
      | Some p \<Rightarrow>
         if dget p ''mode'' = PStr ''none'' then Inr ''safe''
         else
          (let mode = dget_or p ''mode'' (PStr ''blacklist'');
               normalized = normalize_command cmd;
               cmd_lower = lower normalized
           in if mode = PStr ''whitelist'' then
                rbind (py_iter (dget_or p ''whitelist'' (PList []))) (\<lambda>wl.
                  if list_ex (\<lambda>a. startswith cmd_lower (lower (strip (py_str a)))) wl
                  then Inr ''safe'' else Inr ''blocked'')
              else if mode = PStr ''blacklist'' then
                rbind (py_iter (dget_or p ''blacklist_patterns'' (PList []))) (\<lambda>configured.
                  let blacklist = dedup_nonempty [] (map strip (default_blacklist_patterns @ map py_str configured))
                  in if list_ex (\<lambda>q. matches_pattern re_search q cmd normalized) blacklist
                     then Inr ''needs_confirm'' else Inr ''safe'')
              else Inr ''safe''))"

text \<open>\<open>assess_core_command_safety\<close>: the shared policy with the hard guards on.\<close>

definition assess_core_command_safety ::
  "re_engine \<Rightarrow> bool \<Rightarrow> pydict option \<Rightarrow> string \<Rightarrow> pyerr + (string \<times> string)" where
  "assess_core_command_safety re_search enabled core_policy cmd =
     (if \<not> enabled then Inr (''blocked'', ''Core shell execution is disabled by configuration.'')
      else assess_shared_command_safety re_search cmd core_policy ''blocked'' True True)"

section \<open>The whitelist\<close>

lemma whitelist_loop_iff:
  "whitelist_loop lowered b items \<longleftrightarrow>
     (\<exists>item \<in> set items. let allowed = lower (normalize_command (str_or item [])) in
        allowed \<noteq> [] \<and> (lowered = allowed \<or> startswith lowered (if b then allowed @ '' '' else allowed)))"
  by (induction items) (auto simp: Let_def)

lemma find_NoneD: "find P xs = None \<Longrightarrow> x \<in> set xs \<Longrightarrow> \<not> P x"
  by (auto simp: find_None_iff)

definition whitelist_entry_covers :: "string \<Rightarrow> pyval \<Rightarrow> bool" where
  "whitelist_entry_covers lowered item \<longleftrightarrow>
     (let allowed = lower (normalize_command (str_or item [])) in
      allowed \<noteq> [] \<and> (lowered = allowed \<or> startswith lowered (allowed @ '' '')))"

text \<open>
  (C25) What Core executes under a whitelist policy, one whose mode is ``whitelist'' and whose
  configured whitelist is a list: a command that the Core assessment calls safe is not empty,
  triggers no shell control operator, carries no restricted option of a transfer tool, and is an
  entry of the configured whitelist, exactly or followed by a blank.
\<close>

theorem core_command_safe_is_whitelisted:
  assumes "assess_core_command_safety re_search enabled (Some policy) cmd = Inr (''safe'', r)"
    and "dget policy ''mode'' = PStr ''whitelist''"
    and "dget_or policy ''whitelist'' (PList []) = PList wl"
  shows "enabled \<and> normalize_command cmd \<noteq> []
    \<and> \<not> matches_pattern re_search shell_control_pattern cmd (normalize_command cmd)
    \<and> (transfer_tool (normalize_command cmd) \<longrightarrow>
        (\<forall>p \<in> set transfer_write_patterns. \<not> matches_pattern re_search p cmd (normalize_command cmd)))
    \<and> (\<exists>item \<in> set wl. whitelist_entry_covers (lower (normalize_command (normalize_command cmd))) item)"
proof -
  have mode: "lower (strip (str_or (dget policy ''mode'') ''blacklist'')) = ''whitelist''"
    unfolding assms(2) by code_simp
  have "policy \<noteq> []" using assms(2) by (auto simp: dget_def)
  moreover have "py_list_or (dget_or policy ''whitelist'' (PList [])) = Inr wl"
    by (simp add: assms(3) py_list_or_def py_or_def)
  ultimately have "enabled" and ne: "normalize_command cmd \<noteq> []"
    and hg: "hard_guard re_search cmd (normalize_command cmd) = None"
    and wl: "whitelist_matches (normalize_command cmd) wl True"
    using assms(1) mode
    by (auto simp: assess_core_command_safety_def assess_shared_command_safety_def assms(2)
        rbind_def dict_or_def Let_def hard_guard_def split: if_splits option.splits)
  moreover have "\<not> matches_pattern re_search shell_control_pattern cmd (normalize_command cmd)"
    using hg by (auto simp: hard_guard_def split: if_splits)
  moreover have "\<forall>p \<in> set transfer_write_patterns. \<not> matches_pattern re_search p cmd (normalize_command cmd)"
    if "transfer_tool (normalize_command cmd)"
    using hg that by (auto simp: hard_guard_def dest: find_NoneD split: if_splits option.splits)
  moreover have "\<exists>item \<in> set wl. whitelist_entry_covers (lower (normalize_command (normalize_command cmd))) item"
    using wl by (simp add: whitelist_matches_def whitelist_loop_iff whitelist_entry_covers_def)
  ultimately show ?thesis by blast
qed

text \<open>An engine that finds no pattern anywhere, for evaluating the policies on an input.\<close>

definition re_never :: re_engine where
  "re_never pattern text = Some False"

theorem core_command_safe_is_whitelisted_witness:
  "assess_core_command_safety re_never True (Some core_default_policy) ''git  status -s'' = Inr (''safe'', '''')
   \<and> (\<exists>item \<in> set (map PStr core_default_whitelist).
        whitelist_entry_covers (lower (normalize_command (normalize_command ''git  status -s''))) item)"
proof -
  have a: "assess_core_command_safety re_never True (Some core_default_policy) ''git  status -s'' = Inr (''safe'', '''')"
    by code_simp
  have b: "dget core_default_policy ''mode'' = PStr ''whitelist''" by code_simp
  have c: "dget_or core_default_policy ''whitelist'' (PList []) = PList (map PStr core_default_whitelist)"
    by (simp add: dget_or_def core_default_policy_def strs_def)
  show ?thesis using core_command_safe_is_whitelisted [OF a b c] a by blast
qed

section \<open>Exposure of the system command tool\<close>

lemma startswith_Nil: "startswith [] p \<longleftrightarrow> p = []"
  by (auto simp: startswith_def)

lemma normalize_command_Nil [simp]: "normalize_command [] = []"
  by (simp add: normalize_command_def split_ws_def)

lemma check_command_status_empty:
  assumes "dget p ''mode'' = PStr ''whitelist''" "dget_or p ''whitelist'' (PList []) = PList wl"
    and "\<And>a. a \<in> set wl \<Longrightarrow> strip (py_str a) \<noteq> []"
  shows "check_command_status re_search (Some p) [] = Inr ''blocked''"
proof -
  have m: "dget_or p ''mode'' (PStr ''blacklist'') = PStr ''whitelist''"
    using assms(1) by (auto simp: dget_def dget_or_def split: option.splits)
  have "\<not> list_ex (\<lambda>a. startswith [] (lower (strip (py_str a)))) wl"
    using assms(3) by (auto simp: list_ex_iff startswith_Nil)
  then show ?thesis
    using assms(1,2) m by (simp add: check_command_status_def rbind_def lower_def Let_def)
qed

text \<open>Exposure probes the gateway with empty arguments, so under a whitelist policy without blank
  entries the tool \<open>exec_sys_cmd\<close> is never exposed, whatever commands the whitelist allows.
\<close>

theorem whitelist_policy_hides_exec_sys_cmd:
  assumes "gw_command_safety_checker gw = Some checker"
    and "check_command_status re_search (Some p) [] = Inr s" and "checker [] = Inr [(''status'', PStr s)]"
    and "dget p ''mode'' = PStr ''whitelist''" and "dget_or p ''whitelist'' (PList []) = PList wl"
    and "\<And>a. a \<in> set wl \<Longrightarrow> strip (py_str a) \<noteq> []"
  shows "should_expose_tool env gw ''exec_sys_cmd'' c \<noteq> Inr True"
proof -
  have "s = ''blocked''" using check_command_status_empty [OF assms(4-6)] assms(2) by simp
  then have st: "checker [] = Inr [(''status'', PStr ''blocked'')]" using assms(3) by simp
  have "str_or (dget [] ''cmd'') [] = []" by (simp add: dget_def str_or_def py_or_def)
  moreover have "lower (strip (str_or (PStr ''blocked'') ''safe'')) = ''blocked''" by code_simp
  ultimately have "command_status gw [] = Inr ''blocked''"
    by (simp add: command_status_def assms(1) st dget_def)
  then have "\<not> auth_spec env gw ''exec_sys_cmd'' [] (dict_or c)" by (simp add: auth_spec_def)
  then show ?thesis
    using decide_allowed_iff [of env gw "''exec_sys_cmd''" "Some []" c]
    by (auto simp: should_expose_tool_def rbind_def dict_or_def split: sum.splits)
qed

definition example_whitelist_policy :: pydict where
  "example_whitelist_policy = [(''mode'', PStr ''whitelist''), (''whitelist'', PList [PStr ''dir''])]"

theorem whitelist_policy_hides_exec_sys_cmd_witness:
  "should_expose_tool example_paths
     (example_gateway\<lparr>gw_command_safety_checker := Some (\<lambda>cmd.
        rbind (check_command_status re_never (Some example_whitelist_policy) cmd)
          (\<lambda>s. Inr [(''status'', PStr s)]))\<rparr>) ''exec_sys_cmd'' None \<noteq> Inr True"
proof -
  have st: "check_command_status re_never (Some example_whitelist_policy) [] = Inr ''blocked''" by code_simp
  have dir: "strip ''dir'' = ''dir''" by code_simp
  let ?chk = "\<lambda>cmd. rbind (check_command_status re_never (Some example_whitelist_policy) cmd)
          (\<lambda>s. Inr [(''status'', PStr s)])"
  have reply: "?chk [] = Inr [(''status'', PStr ''blocked'')]" by (simp add: st rbind_def)
  have mode: "dget example_whitelist_policy ''mode'' = PStr ''whitelist''"
    and wl: "dget_or example_whitelist_policy ''whitelist'' (PList []) = PList [PStr ''dir'']"
    by (simp_all add: example_whitelist_policy_def dget_def dget_or_def)
  show ?thesis
    by (rule whitelist_policy_hides_exec_sys_cmd [where checker = ?chk, OF _ st reply mode wl])
      (simp_all add: dir)
qed

text \<open>The legacy whitelist compares bare prefixes: with the single entry \<open>dir\<close> it calls a
  command line that continues with a second command safe, for every regular-expression engine;
  the shared policy, which asks for a word boundary, blocks the same line.
\<close>

theorem legacy_whitelist_is_prefix_only:
  "check_command_status re_search (Some example_whitelist_policy) ''dir; rm -rf x'' = Inr ''safe''
   \<and> assess_shared_command_safety re_search ''dir; rm -rf x'' (Some example_whitelist_policy) ''blocked'' False True
     = Inr (''blocked'', ''Command is not in whitelist: dir; rm -rf x'')"
proof -
  have n: "normalize_command ''dir; rm -rf x'' = ''dir; rm -rf x''" by code_simp
  have a: "lower (strip (py_str (PStr ''dir''))) = ''dir''" by code_simp
  have b: "whitelist_matches ''dir; rm -rf x'' [PStr ''dir''] True = False" by code_simp
  have c: "startswith (lower ''dir; rm -rf x'') ''dir''" by code_simp
  have d: "lower (strip (str_or (PStr ''whitelist'') ''blacklist'')) = ''whitelist''" by code_simp
  show ?thesis
    unfolding check_command_status_def assess_shared_command_safety_def n
    using a b c d
    by (simp add: example_whitelist_policy_def dget_def dget_or_def rbind_def dict_or_def
        py_list_or_def py_or_def Let_def)
qed

end
