(* ===== verification/Io_Protocol.thy ===== *)
theory Io_Protocol
  imports Py_Base
begin

text \<open>
  The event data model of \<^verbatim>\<open>core/io_protocol.py\<close>: sources, targets, the event classes
  (the fields a subclass adds are the constructors of \<open>event_variant\<close>) and their rendering as
  dictionaries. Identifiers that the code draws with \<open>uuid4().hex\<close> are arguments.
\<close>

datatype event_type =
    MESSAGE | SIGNAL | CONFIRM_REQUEST | CONFIRM_RESPONSE | HUMAN_INPUT_REQUEST
  | HUMAN_INPUT_RESPONSE | STATUS | REASONING | RUNTIME_STATUS | USAGE | CONTROL | ERROR

fun event_type_value :: "event_type \<Rightarrow> string" where
  "event_type_value MESSAGE = ''message''"
| "event_type_value SIGNAL = ''signal''"
| "event_type_value CONFIRM_REQUEST = ''confirm_request''"
| "event_type_value CONFIRM_RESPONSE = ''confirm_response''"
| "event_type_value HUMAN_INPUT_REQUEST = ''human_input_request''"
| "event_type_value HUMAN_INPUT_RESPONSE = ''human_input_response''"
| "event_type_value STATUS = ''status''"
| "event_type_value REASONING = ''reasoning''"
| "event_type_value RUNTIME_STATUS = ''runtime_status''"
| "event_type_value USAGE = ''usage''"
| "event_type_value CONTROL = ''control''"
| "event_type_value ERROR = ''error''"

datatype target_kind =
    TK_CURRENT_SESSION | TK_CLI | TK_FEISHU | TK_WECHAT | TK_WEB | TK_BROADCAST | TK_INTERNAL

fun target_kind_value :: "target_kind \<Rightarrow> string" where
  "target_kind_value TK_CURRENT_SESSION = ''current_session''"
| "target_kind_value TK_CLI = ''cli''"
| "target_kind_value TK_FEISHU = ''feishu''"
| "target_kind_value TK_WECHAT = ''wechat''"
| "target_kind_value TK_WEB = ''web''"
| "target_kind_value TK_BROADCAST = ''broadcast''"
| "target_kind_value TK_INTERNAL = ''internal''"

record event_source =
  es_kind :: string
  es_id :: string
  es_display_name :: string
  es_metadata :: pydict

record event_target =
  et_kind :: string
  et_id :: string
  et_metadata :: pydict

text \<open>\<open>EventTarget()\<close> with its defaults, and the two factory functions.\<close>

definition default_event_target :: event_target where
  "default_event_target =
     \<lparr>et_kind = target_kind_value TK_CURRENT_SESSION, et_id = '''', et_metadata = []\<rparr>"

definition make_source :: "string \<Rightarrow> string \<Rightarrow> pydict \<Rightarrow> event_source" where
  "make_source kind source_id metadata =
     \<lparr>es_kind = kind, es_id = source_id, es_display_name = '''', es_metadata = metadata\<rparr>"

definition make_target :: "string \<Rightarrow> string \<Rightarrow> pydict \<Rightarrow> event_target" where
  "make_target kind target_id metadata = \<lparr>et_kind = kind, et_id = target_id, et_metadata = metadata\<rparr>"

datatype event_variant =
    PlainEvent
  | ConfirmRequestEvent (cr_request_id: string) (cr_timeout: pyval) (cr_default_decision: bool)
  | ConfirmResponseEvent (cs_request_id: string) (cs_accepted: bool)
  | HumanInputRequestEvent (hr_request_id: string) (hr_question: string) (hr_options: "string list")
      (hr_placeholder: string) (hr_timeout: pyval)
  | HumanInputResponseEvent (hs_request_id: string) (hs_answer_text: string) (hs_selected_option: "string option")

record event =
  ev_session_id :: string
  ev_type :: string
  ev_role :: string
  ev_content :: pyval
  ev_source :: event_source
  ev_target :: event_target
  ev_event_id :: string
  ev_stream_id :: string
  ev_reply_to :: string
  ev_metadata :: pydict
  ev_variant :: event_variant

definition opt_str :: "string option \<Rightarrow> pyval" where
  "opt_str x = (case x of None \<Rightarrow> PNone | Some s \<Rightarrow> PStr s)"

definition event_variant_items :: "event_variant \<Rightarrow> pydict" where
  "event_variant_items x =
     (case x of
        PlainEvent \<Rightarrow> []
      | ConfirmRequestEvent rid timeout dd \<Rightarrow>
          [(''confirm'', PDict [(''request_id'', PStr rid), (''timeout'', timeout), (''default_decision'', PBool dd)])]
      | ConfirmResponseEvent rid accepted \<Rightarrow>
          [(''confirm'', PDict [(''request_id'', PStr rid), (''accepted'', PBool accepted)])]
      | HumanInputRequestEvent rid question options placeholder timeout \<Rightarrow>
          [(''input_request'', PDict [(''request_id'', PStr rid), (''question'', PStr question),
             (''options'', PList (map PStr options)), (''placeholder'', PStr placeholder), (''timeout'', timeout)])]
      | HumanInputResponseEvent rid answer selected \<Rightarrow>
          [(''input_response'', PDict [(''request_id'', PStr rid), (''answer_text'', PStr answer),
             (''selected_option'', opt_str selected)])])"

definition event_to_dict :: "event \<Rightarrow> pydict" where
  "event_to_dict e =
     [(''event_id'', PStr (ev_event_id e)),
      (''session_id'', PStr (ev_session_id e)),
      (''type'', PStr (ev_type e)),
      (''role'', PStr (ev_role e)),
      (''content'', ev_content e),
      (''source'', PDict
        [(''kind'', PStr (es_kind (ev_source e))), (''id'', PStr (es_id (ev_source e))),
         (''display_name'', PStr (es_display_name (ev_source e))),
         (''metadata'', PDict (es_metadata (ev_source e)))]),
      (''target'', PDict
        [(''kind'', PStr (et_kind (ev_target e))), (''id'', PStr (et_id (ev_target e))),
         (''metadata'', PDict (et_metadata (ev_target e)))]),
      (''stream_id'', PStr (ev_stream_id e)),
      (''reply_to'', PStr (ev_reply_to e)),
      (''metadata'', PDict (ev_metadata e))] @ event_variant_items (ev_variant e)"

section \<open>Rendering loses nothing\<close>

lemma map_PStr_eq [simp]: "map PStr xs = map PStr ys \<longleftrightarrow> xs = ys"
  by (metis inj_map_eq_map injI pyval.inject(4))

lemma event_variant_items_inj: "event_variant_items x = event_variant_items y \<Longrightarrow> x = y"
  by (cases x; cases y)
    (auto simp: event_variant_items_def opt_str_def split: option.splits)

text \<open>Two events that render to the same dictionary are equal: \<open>event_to_dict\<close> keeps every
  field of an event, including those of its subclass.
\<close>

theorem event_to_dict_injective: "event_to_dict e = event_to_dict e' \<longleftrightarrow> e = e'"
proof
  assume eq: "event_to_dict e = event_to_dict e'"
  then have "event_variant_items (ev_variant e) = event_variant_items (ev_variant e')" by (simp add: event_to_dict_def)
  then have "ev_variant e = ev_variant e'" by (rule event_variant_items_inj)
  moreover have "ev_source e = ev_source e'" "ev_target e = ev_target e'"
    using eq by (simp_all add: event_to_dict_def)
  ultimately show "e = e'" using eq by (simp add: event_to_dict_def)
qed simp

end
