(* ===== verification/Session_Registry.thy ===== *)
theory Session_Registry
  imports Io_Protocol
begin

text \<open>
  The runtime session registry of \<^verbatim>\<open>core/session_manager.py\<close>: session bindings, default
  output targets, stream ids and the bounded cache of inbound message ids that makes message
  intake idempotent. Dictionaries are association lists in insertion order; \<open>time.time()\<close> and
  \<open>uuid4().hex\<close> are arguments. The lemmas show that the cache is bounded, evicts the oldest
  keys first and answers a repeated delivery with the event id recorded first.
\<close>

record session_binding =
  sb_session_id :: string
  sb_source :: event_source
  sb_default_target :: "event_target option"
  sb_metadata :: pydict

type_synonym inbound_key = "string \<times> string \<times> string"

record session_manager =
  sm_bindings :: "(string \<times> session_binding) list"
  sm_source_to_session :: "(string \<times> string) list"
  sm_stream_to_session :: "(string \<times> string) list"
  sm_inbound_event_ids :: "(inbound_key \<times> string) list"
  sm_inbound_event_order :: "(pyval \<times> inbound_key) list"
  sm_max_inbound_event_keys :: nat

definition session_manager_init :: session_manager where
  "session_manager_init =
     \<lparr>sm_bindings = [], sm_source_to_session = [], sm_stream_to_session = [],
      sm_inbound_event_ids = [], sm_inbound_event_order = [], sm_max_inbound_event_keys = 2048\<rparr>"

definition touch_binding :: "pyval \<Rightarrow> session_binding \<Rightarrow> session_binding" where
  "touch_binding now b = b\<lparr>sb_metadata := dset ''last_active_at'' now (sb_metadata b)\<rparr>"

definition build_source_key :: "event_source \<Rightarrow> string" where
  "build_source_key src = es_kind src @ '':'' @ or_str (es_id src) ''default''"

definition build_inbound_event_key :: "string \<Rightarrow> event_source \<Rightarrow> string \<Rightarrow> inbound_key" where
  "build_inbound_event_key session_id src external_message_id =
     (strip session_id, build_source_key src, strip external_message_id)"

text \<open>The loop of \<open>_prune_inbound_event_ids\<close>: pop the first \<open>n\<close> entries and their keys.\<close>

fun pop_oldest :: "nat \<Rightarrow> (pyval \<times> inbound_key) list \<Rightarrow> (inbound_key \<times> string) list
    \<Rightarrow> (pyval \<times> inbound_key) list \<times> (inbound_key \<times> string) list" where
  "pop_oldest 0 order ids = (order, ids)"
| "pop_oldest (Suc n) [] ids = ([], ids)"
| "pop_oldest (Suc n) ((ts, k) # order) ids = pop_oldest n order (dpop k ids)"

definition prune_inbound_event_ids :: "session_manager \<Rightarrow> session_manager" where
  "prune_inbound_event_ids sm =
     (let overflow = length (sm_inbound_event_order sm) - sm_max_inbound_event_keys sm;
          (order, ids) = pop_oldest overflow (sm_inbound_event_order sm) (sm_inbound_event_ids sm)
      in sm\<lparr>sm_inbound_event_order := order, sm_inbound_event_ids := ids\<rparr>)"

definition build_default_target :: "event_source \<Rightarrow> event_target" where
  "build_default_target src =
     \<lparr>et_kind = (case map_of [(''cli'', target_kind_value TK_CLI), (''web'', target_kind_value TK_WEB),
                    (''feishu'', target_kind_value TK_FEISHU), (''wechat'', target_kind_value TK_WECHAT)]
                  (es_kind src) of Some k \<Rightarrow> k | None \<Rightarrow> target_kind_value TK_INTERNAL),
      et_id = es_id src, et_metadata = es_metadata src\<rparr>"

definition new_binding :: "event_source \<Rightarrow> string \<Rightarrow> event_target option \<Rightarrow> pydict option \<Rightarrow> session_binding" where
  "new_binding src sid default_target metadata =
     \<lparr>sb_session_id = sid, sb_source = src,
      sb_default_target = (case default_target of Some t \<Rightarrow> Some t | None \<Rightarrow> Some (build_default_target src)),
      sb_metadata = dict_or metadata\<rparr>"

definition rebind :: "event_source \<Rightarrow> event_target option \<Rightarrow> pydict option \<Rightarrow> session_binding \<Rightarrow> session_binding" where
  "rebind src default_target metadata b0 =
     (let b1 = b0\<lparr>sb_source := src\<rparr>;
          b2 = (case default_target of Some t \<Rightarrow> b1\<lparr>sb_default_target := Some t\<rparr> | None \<Rightarrow> b1)
      in if dict_or metadata \<noteq> [] then b2\<lparr>sb_metadata := dmerge (sb_metadata b2) (dict_or metadata)\<rparr>
         else if sb_default_target b2 = None then b2\<lparr>sb_default_target := Some (build_default_target src)\<rparr>
         else b2)"

definition bind_runtime_session ::
  "pyval \<Rightarrow> event_source \<Rightarrow> string \<Rightarrow> event_target option \<Rightarrow> pydict option \<Rightarrow> session_manager
   \<Rightarrow> pyerr + (string \<times> session_manager)" where
  "bind_runtime_session now src session_id default_target metadata sm =
     (let sid = strip session_id in
      if sid = [] then Inl (ValueError ''session_id is required for runtime binding'')
      else
       (let key = build_source_key src;
            b0 = (case map_of (sm_bindings sm) sid of
                    None \<Rightarrow> new_binding src sid default_target metadata
                  | Some b \<Rightarrow> rebind src default_target metadata b);
            b1 = (if default_target = None \<and> sb_default_target b0 = None
                  then b0\<lparr>sb_default_target := Some (build_default_target src)\<rparr> else b0);
            b2 = touch_binding now b1
        in Inr (sid, sm\<lparr>sm_bindings := dset sid b2 (sm_bindings sm),
                        sm_source_to_session := dset key sid (sm_source_to_session sm)\<rparr>)))"

definition register_source ::
  "pyval \<Rightarrow> event_source \<Rightarrow> string option \<Rightarrow> event_target option \<Rightarrow> pydict option \<Rightarrow> session_manager
   \<Rightarrow> pyerr + (string \<times> session_manager)" where
  "register_source now src session_id default_target metadata sm =
     bind_runtime_session now src (strip (list_or session_id)) default_target metadata sm"

definition get_or_create_session ::
  "pyval \<Rightarrow> event_source \<Rightarrow> string option \<Rightarrow> session_manager \<Rightarrow> pyerr + (string \<times> session_manager)" where
  "get_or_create_session now src session_id sm =
     bind_runtime_session now src (strip (list_or session_id)) None None sm"

definition get_binding :: "session_manager \<Rightarrow> string \<Rightarrow> session_binding option" where
  "get_binding sm session_id = map_of (sm_bindings sm) session_id"

definition touch_session :: "pyval \<Rightarrow> string \<Rightarrow> session_manager \<Rightarrow> session_manager" where
  "touch_session now session_id sm =
     (case get_binding sm session_id of
        Some b \<Rightarrow> sm\<lparr>sm_bindings := dset session_id (touch_binding now b) (sm_bindings sm)\<rparr>
      | None \<Rightarrow> sm)"

definition get_default_target :: "session_manager \<Rightarrow> string \<Rightarrow> event_target option" where
  "get_default_target sm session_id =
     (case get_binding sm session_id of
        Some b \<Rightarrow> sb_default_target b
      | None \<Rightarrow> Some default_event_target)"

definition set_default_target :: "pyval \<Rightarrow> string \<Rightarrow> event_target \<Rightarrow> session_manager \<Rightarrow> session_manager" where
  "set_default_target now session_id target sm =
     (case get_binding sm session_id of
        Some b \<Rightarrow> sm\<lparr>sm_bindings := dset session_id
                   (touch_binding now (b\<lparr>sb_default_target := Some target\<rparr>)) (sm_bindings sm)\<rparr>
      | None \<Rightarrow> sm)"

text \<open>The loop of \<open>list_default_targets\<close> with its set \<open>seen\<close>; a missing target would raise.\<close>

fun default_targets_loop ::
  "(string \<times> string) list \<Rightarrow> session_binding list \<Rightarrow> pyerr + event_target list" where
  "default_targets_loop seen [] = Inr []"
| "default_targets_loop seen (b # bs) =
     (case sb_default_target b of
        None \<Rightarrow> Inl (AttributeError ''kind'')
      | Some t \<Rightarrow>
         if (et_kind t, et_id t) \<in> set seen then default_targets_loop seen bs
         else rbind (default_targets_loop ((et_kind t, et_id t) # seen) bs) (\<lambda>ts. Inr (t # ts)))"

definition list_default_targets :: "session_manager \<Rightarrow> pyerr + event_target list" where
  "list_default_targets sm = default_targets_loop [] (map snd (sm_bindings sm))"

definition create_stream_id :: "string \<Rightarrow> string \<Rightarrow> session_manager \<Rightarrow> string \<times> session_manager" where
  "create_stream_id stream_id session_id sm =
     (stream_id, sm\<lparr>sm_stream_to_session := dset stream_id session_id (sm_stream_to_session sm)\<rparr>)"

definition resolve_stream_session :: "session_manager \<Rightarrow> string \<Rightarrow> string option" where
  "resolve_stream_session sm stream_id = map_of (sm_stream_to_session sm) stream_id"

definition close_stream :: "string \<Rightarrow> session_manager \<Rightarrow> session_manager" where
  "close_stream stream_id sm = sm\<lparr>sm_stream_to_session := dpop stream_id (sm_stream_to_session sm)\<rparr>"

definition get_recent_inbound_event_id :: "session_manager \<Rightarrow> string \<Rightarrow> event_source \<Rightarrow> string \<Rightarrow> string" where
  "get_recent_inbound_event_id sm session_id src external_message_id =
     (let ext = strip external_message_id in
      if ext = [] then []
      else case map_of (sm_inbound_event_ids sm) (build_inbound_event_key session_id src ext) of
             Some e \<Rightarrow> e | None \<Rightarrow> [])"

definition remember_inbound_event_id ::
  "pyval \<Rightarrow> string \<Rightarrow> event_source \<Rightarrow> string \<Rightarrow> string \<Rightarrow> session_manager \<Rightarrow> string \<times> session_manager" where
  "remember_inbound_event_id now session_id src external_message_id event_id sm =
     (let ext = strip external_message_id; ev = strip event_id in
      if ext = [] \<or> ev = [] then (ev, sm)
      else
       (let key = build_inbound_event_key session_id src ext;
            existing = (case map_of (sm_inbound_event_ids sm) key of Some e \<Rightarrow> e | None \<Rightarrow> [])
        in if existing \<noteq> [] then (existing, touch_session now session_id sm)
           else
            (let sm1 = sm\<lparr>sm_inbound_event_ids := dset key ev (sm_inbound_event_ids sm),
                          sm_inbound_event_order := sm_inbound_event_order sm @ [(now, key)]\<rparr>;
                 sm2 = prune_inbound_event_ids sm1
             in (ev, touch_session now session_id sm2))))"

section \<open>The inbound cache\<close>

definition cache_wf :: "session_manager \<Rightarrow> bool" where
  "cache_wf sm \<longleftrightarrow>
     distinct (map snd (sm_inbound_event_order sm))
   \<and> distinct (map fst (sm_inbound_event_ids sm))
   \<and> set (map snd (sm_inbound_event_order sm)) = set (map fst (sm_inbound_event_ids sm))
   \<and> length (sm_inbound_event_order sm) \<le> sm_max_inbound_event_keys sm
   \<and> [] \<notin> set (map snd (sm_inbound_event_ids sm))"

lemma pop_oldest_order: "fst (pop_oldest n order ids) = drop n order"
  by (induction n order ids rule: pop_oldest.induct) auto

lemma pop_oldest_ids:
  "map_of (snd (pop_oldest n order ids)) k =
     (if k \<in> snd ` set (take n order) then None else map_of ids k)"
  by (induction n order ids rule: pop_oldest.induct) (auto simp: delete_conv')

lemma pop_oldest_distinct: "distinct (map fst ids) \<Longrightarrow> distinct (map fst (snd (pop_oldest n order ids)))"
  by (induction n order ids rule: pop_oldest.induct) (auto simp: distinct_delete)

lemma pop_oldest_values: "set (snd (pop_oldest n order ids)) \<subseteq> set ids"
proof (induction n order ids rule: pop_oldest.induct)
  case (3 n ts k order ids)
  then show ?case by (auto simp: AList.delete_eq)
qed auto

lemma prune_order: "sm_inbound_event_order (prune_inbound_event_ids sm) =
    drop (length (sm_inbound_event_order sm) - sm_max_inbound_event_keys sm) (sm_inbound_event_order sm)"
  by (simp add: prune_inbound_event_ids_def Let_def case_prod_beta pop_oldest_order)

lemma prune_lookup: "map_of (sm_inbound_event_ids (prune_inbound_event_ids sm)) k =
    (if k \<in> snd ` set (take (length (sm_inbound_event_order sm) - sm_max_inbound_event_keys sm) (sm_inbound_event_order sm))
     then None else map_of (sm_inbound_event_ids sm) k)"
  by (simp add: prune_inbound_event_ids_def Let_def case_prod_beta pop_oldest_ids)

lemma dom_prune: "dom (map_of (sm_inbound_event_ids (prune_inbound_event_ids sm))) =
    dom (map_of (sm_inbound_event_ids sm))
    - snd ` set (take (length (sm_inbound_event_order sm) - sm_max_inbound_event_keys sm) (sm_inbound_event_order sm))"
  by (rule set_eqI) (simp add: domIff prune_lookup)

lemma prune_max [simp]: "sm_max_inbound_event_keys (prune_inbound_event_ids sm) = sm_max_inbound_event_keys sm"
  by (simp add: prune_inbound_event_ids_def Let_def case_prod_beta)

lemma touch_session_cache [simp]:
  "sm_inbound_event_ids (touch_session now s sm) = sm_inbound_event_ids sm"
  "sm_inbound_event_order (touch_session now s sm) = sm_inbound_event_order sm"
  "sm_max_inbound_event_keys (touch_session now s sm) = sm_max_inbound_event_keys sm"
  by (simp_all add: touch_session_def split: option.splits)

lemma cache_wf_touch [simp]: "cache_wf (touch_session now s sm) = cache_wf sm"
  by (simp add: cache_wf_def)

lemma cache_wf_prune:
  assumes d: "distinct (map snd (sm_inbound_event_order sm))" "distinct (map fst (sm_inbound_event_ids sm))"
    and keys: "set (map snd (sm_inbound_event_order sm)) = set (map fst (sm_inbound_event_ids sm))"
    and ne: "[] \<notin> set (map snd (sm_inbound_event_ids sm))"
  shows "cache_wf (prune_inbound_event_ids sm)"
proof -
  let ?n = "length (sm_inbound_event_order sm) - sm_max_inbound_event_keys sm"
  let ?o = "sm_inbound_event_order sm"
  let ?p = "prune_inbound_event_ids sm"
  have "dom (map_of (sm_inbound_event_ids ?p)) = snd ` set ?o - snd ` set (take ?n ?o)"
    unfolding dom_prune using keys by (simp add: dom_map_of_conv_image_fst)
  also have "\<dots> = snd ` set (drop ?n ?o)" using d(1) by (rule image_take_drop)
  finally have "fst ` set (sm_inbound_event_ids ?p) = snd ` set (sm_inbound_event_order ?p)"
    by (simp add: dom_map_of_conv_image_fst prune_order)
  moreover have "distinct (map fst (sm_inbound_event_ids ?p))"
    using d(2) by (simp add: prune_inbound_event_ids_def Let_def case_prod_beta pop_oldest_distinct)
  moreover have "distinct (map snd (sm_inbound_event_order ?p))"
    using d(1) by (simp add: prune_order drop_map [symmetric])
  moreover have "[] \<notin> set (map snd (sm_inbound_event_ids ?p))"
    using ne pop_oldest_values [of ?n ?o "sm_inbound_event_ids sm"]
    by (auto simp: prune_inbound_event_ids_def Let_def case_prod_beta)
  ultimately show ?thesis by (simp add: cache_wf_def prune_order)
qed

lemma remember_cases:
  obtains (blank) "strip ext = [] \<or> strip ev = []"
      "remember_inbound_event_id now s src ext ev sm = (strip ev, sm)"
  | (known) e where "strip ext \<noteq> []" "strip ev \<noteq> []"
      "map_of (sm_inbound_event_ids sm) (build_inbound_event_key s src ext) = Some e" "e \<noteq> []"
      "remember_inbound_event_id now s src ext ev sm = (e, touch_session now s sm)"
  | (fresh) "strip ext \<noteq> []" "strip ev \<noteq> []"
      "map_of (sm_inbound_event_ids sm) (build_inbound_event_key s src ext) \<in> {None, Some []}"
      "remember_inbound_event_id now s src ext ev sm =
        (strip ev, touch_session now s (prune_inbound_event_ids
          (sm\<lparr>sm_inbound_event_ids := dset (build_inbound_event_key s src ext) (strip ev) (sm_inbound_event_ids sm),
             sm_inbound_event_order := sm_inbound_event_order sm @ [(now, build_inbound_event_key s src ext)]\<rparr>)))"
  by (cases "strip ext = [] \<or> strip ev = []";
      cases "map_of (sm_inbound_event_ids sm) (build_inbound_event_key s src ext)")
    (auto simp: remember_inbound_event_id_def build_inbound_event_key_def Let_def)

lemma cache_wf_no_blank: "cache_wf sm \<Longrightarrow> map_of (sm_inbound_event_ids sm) k \<noteq> Some []"
  by (force simp: cache_wf_def dest: map_of_SomeD)

lemma cache_wf_dset:
  assumes "cache_wf sm" "k \<notin> fst ` set (sm_inbound_event_ids sm)" "v \<noteq> []"
  shows "cache_wf (prune_inbound_event_ids
     (sm\<lparr>sm_inbound_event_ids := dset k v (sm_inbound_event_ids sm),
        sm_inbound_event_order := sm_inbound_event_order sm @ [(now, k)]\<rparr>))"
proof (rule cache_wf_prune)
  show "[] \<notin> set (map snd (sm_inbound_event_ids (sm\<lparr>sm_inbound_event_ids := dset k v (sm_inbound_event_ids sm),
        sm_inbound_event_order := sm_inbound_event_order sm @ [(now, k)]\<rparr>)))"
    using set_dset_subset [of k v "sm_inbound_event_ids sm"] assms by (auto simp: cache_wf_def)
qed (use assms in \<open>auto simp: cache_wf_def distinct_update dom_update\<close>)

lemma cache_wf_remember:
  "cache_wf sm \<Longrightarrow> cache_wf (snd (remember_inbound_event_id now s src ext ev sm))"
proof (cases rule: remember_cases [of ext ev now s src sm])
  case fresh
  assume wf: "cache_wf sm"
  then have "build_inbound_event_key s src ext \<notin> fst ` set (sm_inbound_event_ids sm)"
    using fresh(3) cache_wf_no_blank by (auto simp: map_of_eq_None_iff)
  from cache_wf_dset [OF wf this fresh(2)] fresh(4) show ?thesis by simp
qed auto

text \<open>The operations as steps of the registry: the runtime calls them in any order.\<close>

inductive registry_step :: "session_manager \<Rightarrow> session_manager \<Rightarrow> bool" where
  bind: "bind_runtime_session now src s t m sm = Inr (sid, sm') \<Longrightarrow> registry_step sm sm'"
| remember: "registry_step sm (snd (remember_inbound_event_id now s src ext ev sm))"
| touch: "registry_step sm (touch_session now s sm)"
| set_target: "registry_step sm (set_default_target now s t sm)"
| open_stream: "registry_step sm (snd (create_stream_id stream s sm))"
| close_stream: "registry_step sm (close_stream stream sm)"

inductive registry_reachable :: "session_manager \<Rightarrow> bool" where
  init: "registry_reachable session_manager_init"
| step: "registry_reachable sm \<Longrightarrow> registry_step sm sm' \<Longrightarrow> registry_reachable sm'"

lemma cache_wf_cong:
  "sm_inbound_event_ids sm' = sm_inbound_event_ids sm \<Longrightarrow> sm_inbound_event_order sm' = sm_inbound_event_order sm
   \<Longrightarrow> sm_max_inbound_event_keys sm' = sm_max_inbound_event_keys sm \<Longrightarrow> cache_wf sm' = cache_wf sm"
  by (simp add: cache_wf_def)

lemma set_default_target_cache [simp]:
  "sm_inbound_event_ids (set_default_target now s t sm) = sm_inbound_event_ids sm"
  "sm_inbound_event_order (set_default_target now s t sm) = sm_inbound_event_order sm"
  "sm_max_inbound_event_keys (set_default_target now s t sm) = sm_max_inbound_event_keys sm"
  by (simp_all add: set_default_target_def split: option.splits)

lemma cache_wf_other:
  "cache_wf (set_default_target now s t sm) = cache_wf sm"
  "cache_wf (snd (create_stream_id stream s sm)) = cache_wf sm"
  "cache_wf (close_stream stream sm) = cache_wf sm"
  by (rule cache_wf_cong; simp add: create_stream_id_def close_stream_def)+

lemma bind_cache:
  "bind_runtime_session now src s t m sm = Inr (sid, sm') \<Longrightarrow>
     sm_inbound_event_ids sm' = sm_inbound_event_ids sm
   \<and> sm_inbound_event_order sm' = sm_inbound_event_order sm
   \<and> sm_max_inbound_event_keys sm' = sm_max_inbound_event_keys sm"
  by (auto simp: bind_runtime_session_def Let_def split: if_splits)

lemma remember_max [simp]:
  "sm_max_inbound_event_keys (snd (remember_inbound_event_id now s src ext ev sm)) = sm_max_inbound_event_keys sm"
  by (cases rule: remember_cases [of ext ev now s src sm]) auto

lemma registry_step_wf: "registry_step sm sm' \<Longrightarrow> cache_wf sm \<Longrightarrow> cache_wf sm'"
proof (induction rule: registry_step.induct)
  case (bind now src s t m sm sid sm')
  then show ?case using bind_cache cache_wf_cong by metis
qed (auto simp: cache_wf_remember cache_wf_other)

lemma registry_step_max: "registry_step sm sm' \<Longrightarrow> sm_max_inbound_event_keys sm' = sm_max_inbound_event_keys sm"
  by (induction rule: registry_step.induct) (auto simp: bind_cache create_stream_id_def close_stream_def)

lemma registry_reachable_wf: "registry_reachable sm \<Longrightarrow> cache_wf sm \<and> sm_max_inbound_event_keys sm = 2048"
proof (induction rule: registry_reachable.induct)
  case init
  show ?case by (simp add: cache_wf_def session_manager_init_def)
next
  case (step sm sm')
  then show ?case using registry_step_wf registry_step_max by metis
qed

text \<open>In every state the registry can reach, the inbound cache holds at most 2048 keys, its order
  list and its dictionary hold the same keys, none twice, and no recorded event id is empty.
\<close>

theorem inbound_cache_bounded:
  assumes "registry_reachable sm"
  shows "length (sm_inbound_event_order sm) \<le> 2048 \<and> distinct (map snd (sm_inbound_event_order sm))
    \<and> set (map snd (sm_inbound_event_order sm)) = dom (map_of (sm_inbound_event_ids sm))
    \<and> (\<forall>k. map_of (sm_inbound_event_ids sm) k \<noteq> Some [])"
proof -
  have "cache_wf sm" "sm_max_inbound_event_keys sm = 2048" using registry_reachable_wf assms by auto
  then show ?thesis
    using cache_wf_no_blank by (auto simp: cache_wf_def dom_map_of_conv_image_fst)
qed

theorem inbound_cache_bounded_witness:
  "length (sm_inbound_event_order (snd (remember_inbound_event_id PNone ''s'' (make_source ''web'' ''u'' []) ''m1'' ''e1''
     session_manager_init))) \<le> 2048"
proof -
  let ?sm = "snd (remember_inbound_event_id PNone ''s'' (make_source ''web'' ''u'' []) ''m1'' ''e1'' session_manager_init)"
  have "registry_reachable ?sm"
    by (rule registry_reachable.step [OF registry_reachable.init registry_step.remember])
  from inbound_cache_bounded [OF this] show ?thesis by blast
qed

section \<open>Idempotent intake\<close>

lemma get_recent_eq:
  "strip ext \<noteq> [] \<Longrightarrow> get_recent_inbound_event_id sm s src ext =
     (case map_of (sm_inbound_event_ids sm) (build_inbound_event_key s src ext) of Some e \<Rightarrow> e | None \<Rightarrow> [])"
  by (simp add: get_recent_inbound_event_id_def build_inbound_event_key_def)

lemma remember_lookup:
  assumes "cache_wf sm" "0 < sm_max_inbound_event_keys sm" "strip ext \<noteq> []" "strip ev \<noteq> []"
  shows "map_of (sm_inbound_event_ids (snd (remember_inbound_event_id now s src ext ev sm)))
      (build_inbound_event_key s src ext) = Some (fst (remember_inbound_event_id now s src ext ev sm))"
proof (cases rule: remember_cases [of ext ev now s src sm])
  case fresh
  let ?k = "build_inbound_event_key s src ext"
  let ?o = "sm_inbound_event_order sm"
  let ?n = "Suc (length ?o) - sm_max_inbound_event_keys sm"
  have "?k \<notin> fst ` set (sm_inbound_event_ids sm)"
    using fresh(3) cache_wf_no_blank [OF assms(1)] by (auto simp: map_of_eq_None_iff)
  then have "?k \<notin> snd ` set ?o" using assms(1) by (auto simp: cache_wf_def)
  moreover have "take ?n (?o @ [(now, ?k)]) = take ?n ?o" using assms(2) by simp
  ultimately have "?k \<notin> snd ` set (take ?n (?o @ [(now, ?k)]))"
    using set_take_subset [of ?n ?o] by auto
  then show ?thesis using fresh(4) by (simp add: prune_lookup update_conv')
qed (use assms in auto)

text \<open>Delivering the same external message twice yields one event: once a message with a
  non-blank external id has been remembered, a later lookup returns the id that call answered,
  and remembering it again, under any other event id, answers that id and leaves the cache as
  it is.
\<close>

theorem inbound_intake_idempotent:
  assumes "registry_reachable sm" "strip ext \<noteq> []" "strip ev \<noteq> []"
    and "remember_inbound_event_id now s src ext ev sm = (e, sm')"
  shows "get_recent_inbound_event_id sm' s src ext = e
    \<and> (\<forall>now' ev'. strip ev' \<noteq> [] \<longrightarrow>
         fst (remember_inbound_event_id now' s src ext ev' sm') = e
       \<and> sm_inbound_event_ids (snd (remember_inbound_event_id now' s src ext ev' sm')) = sm_inbound_event_ids sm')"
proof -
  have wf: "cache_wf sm" "0 < sm_max_inbound_event_keys sm"
    using registry_reachable_wf [OF assms(1)] by auto
  have look: "map_of (sm_inbound_event_ids sm') (build_inbound_event_key s src ext) = Some e"
    using remember_lookup [OF wf assms(2,3), of now s src] assms(4) by simp
  then have "get_recent_inbound_event_id sm' s src ext = e" by (simp add: get_recent_eq assms(2))
  moreover have "cache_wf sm'" using cache_wf_remember [OF wf(1), of now s src ext ev] assms(4) by simp
  then have "e \<noteq> []" using cache_wf_no_blank look by blast
  ultimately show ?thesis
    using look assms(2)
    by (auto simp: remember_inbound_event_id_def build_inbound_event_key_def Let_def)
qed

theorem inbound_intake_idempotent_witness:
  "let src = make_source ''web'' ''u'' [];
       (e, sm') = remember_inbound_event_id PNone ''s'' src '' m1 '' ''e1'' session_manager_init
   in e = ''e1'' \<and> get_recent_inbound_event_id sm' ''s'' src '' m1 '' = e
    \<and> fst (remember_inbound_event_id PNone ''s'' src '' m1 '' ''e2'' sm') = e"
proof -
  let ?src = "make_source ''web'' ''u'' []"
  let ?r = "remember_inbound_event_id PNone ''s'' ?src '' m1 '' ''e1'' session_manager_init"
  have ne: "strip '' m1 '' \<noteq> []" "strip ''e1'' \<noteq> []" "strip ''e2'' \<noteq> []" by code_simp+
  have e1: "fst ?r = ''e1''" by code_simp
  have r: "?r = (fst ?r, snd ?r)" by simp
  from inbound_intake_idempotent [OF registry_reachable.init ne(1,2) r] ne(3) e1 show ?thesis
    by (simp add: case_prod_beta)
qed

section \<open>Bindings\<close>

definition bindings_wf :: "session_manager \<Rightarrow> bool" where
  "bindings_wf sm \<longleftrightarrow> (\<forall>(s, b) \<in> set (sm_bindings sm). sb_default_target b \<noteq> None \<and> sb_session_id b = s \<and> s \<noteq> [])"

lemma touch_binding_sel [simp]:
  "sb_default_target (touch_binding now b) = sb_default_target b"
  "sb_session_id (touch_binding now b) = sb_session_id b" "sb_source (touch_binding now b) = sb_source b"
  by (simp_all add: touch_binding_def)

lemma bind_binding:
  assumes "bind_runtime_session now src s t m sm = Inr (sid, sm')" "bindings_wf sm"
  shows "\<exists>b. get_binding sm' sid = Some b \<and> sb_session_id b = sid \<and> sb_source b = src
     \<and> sb_default_target b =
         (case t of Some t' \<Rightarrow> Some t'
          | None \<Rightarrow> (case get_binding sm sid of Some b0 \<Rightarrow> sb_default_target b0
                    | None \<Rightarrow> Some (build_default_target src)))
     \<and> sb_default_target b \<noteq> None
     \<and> sid \<noteq> [] \<and> sm_bindings sm' = dset sid b (sm_bindings sm)
     \<and> map_of (sm_source_to_session sm') (build_source_key src) = Some sid"
proof (cases "map_of (sm_bindings sm) sid")
  case None
  with assms(1) show ?thesis
    by (auto simp: bind_runtime_session_def get_binding_def Let_def new_binding_def update_conv'
        split: if_splits option.splits)
next
  case (Some b0)
  then have "sb_default_target b0 \<noteq> None \<and> sb_session_id b0 = sid"
    using assms(2) map_of_SomeD by (fastforce simp: bindings_wf_def)
  with Some assms(1) show ?thesis
    by (auto simp: bind_runtime_session_def get_binding_def Let_def rebind_def update_conv'
        split: if_splits option.splits)
qed

end
