(* ===== verification/Event_Bus.thy ===== *)
theory Event_Bus
  imports Io_Protocol
begin

text \<open>
  The event bus of \<^verbatim>\<open>core/event_bus.py\<close>: subscriptions, the shutdown signal and the
  interactive requests (confirmations and questions to a human) that a session waits for.

  An \<open>asyncio.Future\<close> is its state in \<open>eb_futures\<close>, indexed by the request that owns it. A
  coroutine is cut at its \<open>await\<close>: \<open>begin_*\<close> runs up to waiting on the future, \<open>finish_*\<close>
  from the wake-up (a result, or the timeout if the future is still waiting) to the end, its
  \<open>finally\<close> clause included. A callback is a number; the calls that \<open>publish\<close> makes are
  recorded in \<open>eb_calls\<close> (an exception of a callback is logged and ignored by the code, so
  it has no effect on the bus); \<open>asyncio.create_task(self.publish(..))\<close> appends to
  \<open>eb_tasks\<close>.
\<close>

datatype fut = Waiting | Resolved pyval | Cancelled

datatype bus_data = EventData event | DictData pydict

record pending_request =
  pr_request_id :: string
  pr_session_id :: string
  pr_kind :: string
  pr_event :: event

record event_bus =
  eb_subscribers :: "(string \<times> nat list) list"
  eb_shutdown :: bool
  eb_pending_requests :: "(string \<times> pending_request) list"
  eb_pending_by_session :: "(string \<times> string) list"
  eb_futures :: "string \<Rightarrow> fut"
  eb_tasks :: "(string \<times> bus_data) list"
  eb_calls :: "(nat \<times> string \<times> bus_data) list"

definition event_bus_init :: event_bus where
  "event_bus_init =
     \<lparr>eb_subscribers = [], eb_shutdown = False, eb_pending_requests = [], eb_pending_by_session = [],
      eb_futures = (\<lambda>_. Waiting), eb_tasks = [], eb_calls = []\<rparr>"

definition future_done :: "event_bus \<Rightarrow> pending_request \<Rightarrow> bool" where
  "future_done bus p \<longleftrightarrow> eb_futures bus (pr_request_id p) \<noteq> Waiting"

text \<open>\<open>kind\<close> may be absent and an empty \<open>session_id\<close> matches every session.\<close>

definition find_pending_request :: "string option \<Rightarrow> string \<Rightarrow> event_bus \<Rightarrow> pending_request option" where
  "find_pending_request kind session_id bus =
     find (\<lambda>p. (case kind of Some k \<Rightarrow> pr_kind p = k | None \<Rightarrow> True)
             \<and> (session_id = [] \<or> pr_session_id p = session_id) \<and> \<not> future_done bus p)
       (map snd (eb_pending_requests bus))"

definition register_pending_request ::
  "string \<Rightarrow> string \<Rightarrow> string \<Rightarrow> event \<Rightarrow> event_bus \<Rightarrow> pyerr + event_bus" where
  "register_pending_request request_id session_id kind ev bus =
     (let existing_id = (case map_of (eb_pending_by_session bus) session_id of Some r \<Rightarrow> r | None \<Rightarrow> []);
          live = (existing_id \<noteq> [] \<and>
                   (case map_of (eb_pending_requests bus) existing_id of
                      Some p \<Rightarrow> \<not> future_done bus p | None \<Rightarrow> False))
      in if live then
           Inl (RuntimeError (''Another interactive request is already pending for session '' @ session_id))
         else
          (let pending0 = (if existing_id \<noteq> [] then dpop existing_id (eb_pending_requests bus)
                           else eb_pending_requests bus);
               p = \<lparr>pr_request_id = request_id, pr_session_id = session_id, pr_kind = kind, pr_event = ev\<rparr>
           in Inr (bus\<lparr>eb_pending_requests := dset request_id p pending0,
                       eb_pending_by_session := dset session_id request_id (eb_pending_by_session bus)\<rparr>)))"

definition clear_pending_request :: "string \<Rightarrow> event_bus \<Rightarrow> event_bus" where
  "clear_pending_request request_id bus =
     (case map_of (eb_pending_requests bus) request_id of
        None \<Rightarrow> bus
      | Some p \<Rightarrow>
         (let bus1 = bus\<lparr>eb_pending_requests := dpop request_id (eb_pending_requests bus)\<rparr> in
          if map_of (eb_pending_by_session bus) (pr_session_id p) = Some request_id
          then bus1\<lparr>eb_pending_by_session := dpop (pr_session_id p) (eb_pending_by_session bus)\<rparr>
          else bus1))"

definition select_pending :: "string \<Rightarrow> string \<Rightarrow> string \<Rightarrow> event_bus \<Rightarrow> pending_request option" where
  "select_pending kind request_id session_id bus =
     (if request_id \<noteq> [] then map_of (eb_pending_requests bus) request_id
      else if session_id \<noteq> [] then
        (case map_of (eb_pending_by_session bus) session_id of
           Some r \<Rightarrow> if r \<noteq> [] then map_of (eb_pending_requests bus) r else None
         | None \<Rightarrow> None)
      else find_pending_request (Some kind) [] bus)"

definition resolve_pending_request ::
  "string \<Rightarrow> pyval \<Rightarrow> string \<Rightarrow> string \<Rightarrow> string \<Rightarrow> pydict \<Rightarrow> event_bus \<Rightarrow> bool \<times> event_bus" where
  "resolve_pending_request kind value request_id session_id publish_event_type publish_payload bus =
     (case select_pending kind request_id session_id bus of
        None \<Rightarrow> (False, bus)
      | Some p \<Rightarrow>
         if pr_kind p \<noteq> kind then (False, bus)
         else if session_id \<noteq> [] \<and> pr_session_id p \<noteq> session_id then (False, bus)
         else if request_id \<noteq> [] \<and> pr_request_id p \<noteq> request_id then (False, bus)
         else if future_done bus p then (False, clear_pending_request (pr_request_id p) bus)
         else
          (let bus1 = bus\<lparr>eb_futures := (eb_futures bus)(pr_request_id p := Resolved value)\<rparr> in
           (True, if publish_event_type \<noteq> []
                  then bus1\<lparr>eb_tasks := eb_tasks bus1 @ [(publish_event_type, DictData publish_payload)]\<rparr>
                  else bus1)))"

definition request_shutdown :: "event_bus \<Rightarrow> event_bus" where
  "request_shutdown bus = bus\<lparr>eb_shutdown := True\<rparr>"

section \<open>Publishing\<close>

definition subscribers_of :: "string \<Rightarrow> event_bus \<Rightarrow> nat list" where
  "subscribers_of event_type bus =
     (case map_of (eb_subscribers bus) event_type of Some cs \<Rightarrow> cs | None \<Rightarrow> [])"

definition subscribe :: "string \<Rightarrow> nat \<Rightarrow> event_bus \<Rightarrow> event_bus" where
  "subscribe event_type callback bus =
     bus\<lparr>eb_subscribers := dset event_type (subscribers_of event_type bus @ [callback]) (eb_subscribers bus)\<rparr>"

definition publish :: "string \<Rightarrow> bus_data \<Rightarrow> event_bus \<Rightarrow> event_bus" where
  "publish event_type data bus =
     bus\<lparr>eb_calls := eb_calls bus @ map (\<lambda>c. (c, event_type, data)) (subscribers_of event_type bus)\<rparr>"

text \<open>The scheduler runs the oldest task.\<close>

definition run_task :: "event_bus \<Rightarrow> event_bus" where
  "run_task bus = (case eb_tasks bus of
       [] \<Rightarrow> bus | (t, d) # ts \<Rightarrow> publish t d (bus\<lparr>eb_tasks := ts\<rparr>))"

section \<open>Confirmations\<close>

definition or_source :: "event_source option \<Rightarrow> string \<Rightarrow> event_source" where
  "or_source src what = (case src of Some s \<Rightarrow> s | None \<Rightarrow> make_source ''system'' what [])"

definition or_target :: "event_target option \<Rightarrow> event_target" where
  "or_target t = (case t of Some t' \<Rightarrow> t' | None \<Rightarrow> default_event_target)"

definition confirm_event ::
  "string \<Rightarrow> string \<Rightarrow> string \<Rightarrow> pyval \<Rightarrow> string \<Rightarrow> event_source option \<Rightarrow> event_target option \<Rightarrow> pydict option \<Rightarrow> event" where
  "confirm_event event_id request_id prompt timeout session_id src target metadata =
     \<lparr>ev_session_id = session_id, ev_type = event_type_value CONFIRM_REQUEST, ev_role = ''system'',
      ev_content = PStr prompt, ev_source = or_source src ''confirm'', ev_target = or_target target,
      ev_event_id = event_id, ev_stream_id = '''', ev_reply_to = '''', ev_metadata = dict_or metadata,
      ev_variant = ConfirmRequestEvent request_id timeout False\<rparr>"

definition begin_confirmation ::
  "string \<Rightarrow> string \<Rightarrow> string \<Rightarrow> pyval \<Rightarrow> string \<Rightarrow> event_source option \<Rightarrow> event_target option \<Rightarrow> pydict option
   \<Rightarrow> event_bus \<Rightarrow> pyerr + event_bus" where
  "begin_confirmation event_id request_id prompt timeout session_id src target metadata bus =
     (let ev = confirm_event event_id request_id prompt timeout session_id src target metadata in
      rbind (register_pending_request request_id session_id ''confirm'' ev
               (bus\<lparr>eb_futures := (eb_futures bus)(request_id := Waiting)\<rparr>))
        (\<lambda>bus1. Inr (publish (event_type_value CONFIRM_REQUEST) (EventData ev) bus1)))"

text \<open>\<open>wait_for\<close> cancels a future that is still waiting at the timeout.\<close>

definition finish_confirmation :: "string \<Rightarrow> event_bus \<Rightarrow> pyval \<times> event_bus" where
  "finish_confirmation request_id bus =
     (case eb_futures bus request_id of
        Resolved v \<Rightarrow> (v, clear_pending_request request_id bus)
      | _ \<Rightarrow> (PBool False, clear_pending_request request_id
               (bus\<lparr>eb_futures := (eb_futures bus)(request_id := Cancelled)\<rparr>)))"

definition resolve_confirmation ::
  "bool \<Rightarrow> string \<Rightarrow> string \<Rightarrow> string \<Rightarrow> string \<Rightarrow> string \<Rightarrow> event_bus \<Rightarrow> bool \<times> event_bus" where
  "resolve_confirmation accepted request_id session_id endpoint_id approval_id reason bus =
     (let found = find_pending_request (Some ''confirm'') session_id bus;
          pending = (if request_id \<noteq> [] \<and> found = None
                     then map_of (eb_pending_requests bus) request_id else found)
      in case pending of
           None \<Rightarrow> (False, bus)
         | Some p \<Rightarrow>
            if pr_kind p \<noteq> ''confirm'' then (False, bus)
            else resolve_pending_request ''confirm'' (PBool accepted)
                   (or_str request_id (pr_request_id p)) (or_str session_id (pr_session_id p))
                   (event_type_value CONFIRM_RESPONSE)
                   [(''accepted'', PBool accepted), (''request_id'', PStr (pr_request_id p)),
                    (''session_id'', PStr (pr_session_id p)), (''endpoint_id'', PStr (strip endpoint_id)),
                    (''approval_id'', PStr (strip approval_id)), (''reason'', PStr (strip reason))]
                   bus)"

definition submit_confirmation_response ::
  "bool \<Rightarrow> string \<Rightarrow> string \<Rightarrow> string \<Rightarrow> string \<Rightarrow> string \<Rightarrow> event_bus \<Rightarrow> bool \<times> event_bus" where
  "submit_confirmation_response accepted request_id session_id endpoint_id approval_id reason bus =
     resolve_confirmation accepted request_id session_id endpoint_id approval_id reason bus"

definition has_pending_confirmation :: "event_bus \<Rightarrow> bool" where
  "has_pending_confirmation bus \<longleftrightarrow> find_pending_request (Some ''confirm'') [] bus \<noteq> None"

definition pending_request_id :: "event_bus \<Rightarrow> string" where
  "pending_request_id bus =
     (case find_pending_request (Some ''confirm'') [] bus of Some p \<Rightarrow> pr_request_id p | None \<Rightarrow> [])"

definition pending_confirmation_session_id :: "event_bus \<Rightarrow> string" where
  "pending_confirmation_session_id bus =
     (case find_pending_request (Some ''confirm'') [] bus of Some p \<Rightarrow> pr_session_id p | None \<Rightarrow> [])"

section \<open>Questions to a human\<close>

definition human_input_event ::
  "string \<Rightarrow> string \<Rightarrow> string \<Rightarrow> string list option \<Rightarrow> string \<Rightarrow> pyval \<Rightarrow> string
   \<Rightarrow> event_source option \<Rightarrow> event_target option \<Rightarrow> event" where
  "human_input_event event_id request_id question options placeholder timeout session_id src target =
     \<lparr>ev_session_id = session_id, ev_type = event_type_value HUMAN_INPUT_REQUEST, ev_role = ''system'',
      ev_content = PStr question, ev_source = or_source src ''human_input'', ev_target = or_target target,
      ev_event_id = event_id, ev_stream_id = '''', ev_reply_to = '''', ev_metadata = [],
      ev_variant = HumanInputRequestEvent request_id question
        (filter (\<lambda>s. s \<noteq> []) (map strip (list_or options))) (strip placeholder) timeout\<rparr>"

definition begin_human_input ::
  "string \<Rightarrow> string \<Rightarrow> string \<Rightarrow> string list option \<Rightarrow> string \<Rightarrow> pyval \<Rightarrow> string
   \<Rightarrow> event_source option \<Rightarrow> event_target option \<Rightarrow> event_bus \<Rightarrow> pyerr + event_bus" where
  "begin_human_input event_id request_id question options placeholder timeout session_id src target bus =
     (let ev = human_input_event event_id request_id question options placeholder timeout session_id src target in
      rbind (register_pending_request request_id session_id ''human_input'' ev
               (bus\<lparr>eb_futures := (eb_futures bus)(request_id := Waiting)\<rparr>))
        (\<lambda>bus1. Inr (publish (event_type_value HUMAN_INPUT_REQUEST) (EventData ev) bus1)))"

definition finish_human_input :: "string \<Rightarrow> event_bus \<Rightarrow> pydict \<times> event_bus" where
  "finish_human_input request_id bus =
     (case eb_futures bus request_id of
        Resolved v \<Rightarrow> (as_dict v, clear_pending_request request_id bus)
      | _ \<Rightarrow> ([(''answered'', PBool False), (''timed_out'', PBool True), (''selected_option'', PNone),
               (''answer_text'', PStr ''''), (''request_id'', PStr request_id)],
              clear_pending_request request_id
                (bus\<lparr>eb_futures := (eb_futures bus)(request_id := Cancelled)\<rparr>)))"

text \<open>\<open>_match_option_from_text\<close>: \<open>int\<close> raises on text that \<open>isdigit\<close> accepts but that is
  not decimal.\<close>

definition match_option_from_text :: "string \<Rightarrow> string list \<Rightarrow> pyerr + string option" where
  "match_option_from_text text options =
     (let stripped = strip text;
          by_text = find (\<lambda>opt. casefold stripped = casefold (strip opt)) options
      in if stripped = [] \<or> options = [] then Inr None
         else if isdigit stripped then
           (case parse_int stripped of
              None \<Rightarrow> Inl (ValueError ''invalid literal for int()'')
            | Some n \<Rightarrow> if 0 \<le> n - 1 \<and> n - 1 < int (length options) then Inr (Some (options ! nat (n - 1)))
                       else Inr by_text)
         else Inr by_text)"

definition is_human_input_event :: "event \<Rightarrow> bool" where
  "is_human_input_event ev = (case ev_variant ev of HumanInputRequestEvent _ _ _ _ _ \<Rightarrow> True | _ \<Rightarrow> False)"

definition event_request_id :: "event \<Rightarrow> string" where
  "event_request_id ev = (case ev_variant ev of
       HumanInputRequestEvent r _ _ _ _ \<Rightarrow> r | ConfirmRequestEvent r _ _ \<Rightarrow> r | _ \<Rightarrow> [])"

definition event_options :: "event \<Rightarrow> string list" where
  "event_options ev = (case ev_variant ev of HumanInputRequestEvent _ _ opts _ _ \<Rightarrow> opts | _ \<Rightarrow> [])"

definition get_pending_human_input_request :: "string \<Rightarrow> event_bus \<Rightarrow> event option" where
  "get_pending_human_input_request session_id bus =
     (case find_pending_request (Some ''human_input'') session_id bus of
        Some p \<Rightarrow> if is_human_input_event (pr_event p) then Some (pr_event p) else None
      | None \<Rightarrow> None)"

definition has_pending_human_input :: "event_bus \<Rightarrow> bool" where
  "has_pending_human_input bus \<longleftrightarrow> find_pending_request (Some ''human_input'') [] bus \<noteq> None"

definition normalize_human_input_text :: "string \<Rightarrow> string \<Rightarrow> event_bus \<Rightarrow> pyerr + pydict option" where
  "normalize_human_input_text text session_id bus =
     (case get_pending_human_input_request session_id bus of
        None \<Rightarrow> Inr None
      | Some ev \<Rightarrow>
         (let raw_text = strip text in
          rbind (match_option_from_text raw_text (event_options ev)) (\<lambda>selected.
            Inr (Some [(''request_id'', PStr (event_request_id ev)),
                       (''answer_text'', PStr (case selected of Some opt \<Rightarrow> or_str opt raw_text | None \<Rightarrow> raw_text)),
                       (''selected_option'', opt_str selected),
                       (''session_id'', PStr (ev_session_id ev))]))))"

definition select_human_input :: "string \<Rightarrow> string \<Rightarrow> event_bus \<Rightarrow> event option" where
  "select_human_input request_id session_id bus =
     (let pending = get_pending_human_input_request session_id bus in
      if request_id \<noteq> [] \<and> (case pending of None \<Rightarrow> True | Some ev \<Rightarrow> event_request_id ev \<noteq> request_id)
      then (case map_of (eb_pending_requests bus) request_id of
              None \<Rightarrow> None
            | Some p \<Rightarrow> if pr_kind p = ''human_input'' \<and> is_human_input_event (pr_event p)
                       then Some (pr_event p) else None)
      else pending)"

definition normalize_selection :: "string option \<Rightarrow> string \<Rightarrow> string list \<Rightarrow> pyerr + string option" where
  "normalize_selection selected_option answer_text options =
     rbind (case selected_option of
              None \<Rightarrow> Inr None
            | Some opt \<Rightarrow> rbind (match_option_from_text opt options) (\<lambda>m.
                case m of
                  Some x \<Rightarrow> Inr (Some x)
                | None \<Rightarrow> if strip opt \<in> set options then Inr (Some (strip opt)) else Inr None))
       (\<lambda>sel. case sel of Some x \<Rightarrow> Inr (Some x) | None \<Rightarrow> match_option_from_text answer_text options)"

definition final_answer :: "string option \<Rightarrow> string \<Rightarrow> string" where
  "final_answer selected answer_text =
     (let sel = (case selected of Some x \<Rightarrow> x | None \<Rightarrow> []);
          a0 = strip answer_text;
          a1 = (if sel \<noteq> [] \<and> a0 = [] then sel else a0)
      in if sel \<noteq> [] \<and> isdigit a1 then sel else a1)"

definition submit_human_input_response ::
  "string \<Rightarrow> string \<Rightarrow> string \<Rightarrow> string option \<Rightarrow> event_bus \<Rightarrow> pyerr + bool \<times> event_bus" where
  "submit_human_input_response answer_text request_id session_id selected_option bus =
     (case select_human_input request_id session_id bus of
        None \<Rightarrow> Inr (False, bus)
      | Some ev \<Rightarrow>
         rbind (normalize_selection selected_option answer_text (event_options ev)) (\<lambda>selected.
           let payload = [(''answered'', PBool True), (''timed_out'', PBool False),
                          (''selected_option'', opt_str selected),
                          (''answer_text'', PStr (final_answer selected answer_text)),
                          (''request_id'', PStr (event_request_id ev)),
                          (''session_id'', PStr (ev_session_id ev))]
           in Inr (resolve_pending_request ''human_input'' (PDict payload)
                (or_str request_id (event_request_id ev)) (or_str session_id (ev_session_id ev))
                (event_type_value HUMAN_INPUT_RESPONSE) payload bus)))"

section \<open>Reachable buses\<close>

text \<open>
  One step of the program on the bus: a coroutine starts to wait or wakes up, a response comes
  in, a queued task runs, a module subscribes. Request identifiers are drawn with \<open>uuid4\<close>, so
  a new one names no request that the bus holds.
\<close>

inductive bus_step :: "event_bus \<Rightarrow> event_bus \<Rightarrow> bool" where
  subscribe: "bus_step bus (subscribe t c bus)"
| shutdown: "bus_step bus (request_shutdown bus)"
| publish: "bus_step bus (publish t d bus)"
| task: "bus_step bus (run_task bus)"
| begin_confirm: "rid \<noteq> [] \<Longrightarrow> rid \<notin> fst ` set (eb_pending_requests bus) \<Longrightarrow>
    begin_confirmation eid rid prompt tmo sid src tgt md bus = Inr bus' \<Longrightarrow> bus_step bus bus'"
| begin_human: "rid \<noteq> [] \<Longrightarrow> rid \<notin> fst ` set (eb_pending_requests bus) \<Longrightarrow>
    begin_human_input eid rid question opts ph tmo sid src tgt bus = Inr bus' \<Longrightarrow> bus_step bus bus'"
| end_confirm: "bus_step bus (snd (finish_confirmation rid bus))"
| end_human: "bus_step bus (snd (finish_human_input rid bus))"
| answer_confirm: "bus_step bus (snd (submit_confirmation_response acc rid sid ep ap reason bus))"
| answer_human: "submit_human_input_response ans rid sid sel bus = Inr (b, bus') \<Longrightarrow> bus_step bus bus'"

inductive bus_reachable :: "event_bus \<Rightarrow> bool" where
  init: "bus_reachable event_bus_init"
| step: "bus_reachable bus \<Longrightarrow> bus_step bus bus' \<Longrightarrow> bus_reachable bus'"

text \<open>The bus indexes every request under its own id, and the index by session names every
  request that is still waited for and nothing that the bus does not hold.\<close>

definition bus_wf :: "event_bus \<Rightarrow> bool" where
  "bus_wf bus \<longleftrightarrow>
     distinct (map fst (eb_pending_requests bus)) \<and>
     (\<forall>(k, p) \<in> set (eb_pending_requests bus). pr_request_id p = k \<and> k \<noteq> [] \<and>
        (\<not> future_done bus p \<longrightarrow> map_of (eb_pending_by_session bus) (pr_session_id p) = Some k)) \<and>
     (\<forall>s r. map_of (eb_pending_by_session bus) s = Some r \<longrightarrow>
        (\<exists>p. map_of (eb_pending_requests bus) r = Some p \<and> pr_session_id p = s))"

definition live_requests :: "event_bus \<Rightarrow> pending_request list" where
  "live_requests bus = filter (\<lambda>p. \<not> future_done bus p) (map snd (eb_pending_requests bus))"

text \<open>Only the three fields of the requests matter for \<open>bus_wf\<close>.\<close>

lemma bus_wf_cong:
  "eb_pending_requests bus' = eb_pending_requests bus \<Longrightarrow> eb_pending_by_session bus' = eb_pending_by_session bus
   \<Longrightarrow> eb_futures bus' = eb_futures bus \<Longrightarrow> bus_wf bus' = bus_wf bus"
  by (simp add: bus_wf_def future_done_def)

lemma publish_sel [simp]:
  "eb_pending_requests (publish t d bus) = eb_pending_requests bus"
  "eb_pending_by_session (publish t d bus) = eb_pending_by_session bus"
  "eb_futures (publish t d bus) = eb_futures bus"
  by (simp_all add: publish_def)

lemma bus_wf_settle:
  "bus_wf bus \<Longrightarrow> f \<noteq> Waiting \<Longrightarrow> bus_wf (bus\<lparr>eb_futures := (eb_futures bus)(rid := f)\<rparr>)"
  by (fastforce simp: bus_wf_def future_done_def)

lemma bus_wfD:
  assumes "bus_wf bus"
  shows "distinct (map fst (eb_pending_requests bus))"
    and "(k, p) \<in> set (eb_pending_requests bus) \<Longrightarrow> pr_request_id p = k \<and> k \<noteq> []"
    and "(k, p) \<in> set (eb_pending_requests bus) \<Longrightarrow> eb_futures bus k = Waiting
       \<Longrightarrow> map_of (eb_pending_by_session bus) (pr_session_id p) = Some k"
    and "map_of (eb_pending_by_session bus) s = Some r
       \<Longrightarrow> \<exists>p. map_of (eb_pending_requests bus) r = Some p \<and> pr_session_id p = s"
  using assms by (auto simp: bus_wf_def future_done_def)

lemma bus_wfI:
  assumes "distinct (map fst (eb_pending_requests bus))"
    and "\<And>k p. (k, p) \<in> set (eb_pending_requests bus) \<Longrightarrow> pr_request_id p = k \<and> k \<noteq> []"
    and "\<And>k p. (k, p) \<in> set (eb_pending_requests bus) \<Longrightarrow> eb_futures bus k = Waiting
       \<Longrightarrow> map_of (eb_pending_by_session bus) (pr_session_id p) = Some k"
    and "\<And>s r. map_of (eb_pending_by_session bus) s = Some r
       \<Longrightarrow> \<exists>p. map_of (eb_pending_requests bus) r = Some p \<and> pr_session_id p = s"
  shows "bus_wf bus"
  using assms unfolding bus_wf_def future_done_def by blast

lemma clear_pending_request_sel:
  "eb_pending_requests (clear_pending_request rid bus) = dpop rid (eb_pending_requests bus)"
  "eb_futures (clear_pending_request rid bus) = eb_futures bus"
  "bus_wf bus \<Longrightarrow> map_of (eb_pending_by_session (clear_pending_request rid bus)) s =
     (if map_of (eb_pending_by_session bus) s = Some rid then None else map_of (eb_pending_by_session bus) s)"
proof -
  show "eb_pending_requests (clear_pending_request rid bus) = dpop rid (eb_pending_requests bus)"
    by (auto simp: clear_pending_request_def Let_def map_of_eq_None_iff delete_id split: option.split)
  show "eb_futures (clear_pending_request rid bus) = eb_futures bus"
    by (simp add: clear_pending_request_def Let_def split: option.split)
  assume "bus_wf bus"
  then show "map_of (eb_pending_by_session (clear_pending_request rid bus)) s =
     (if map_of (eb_pending_by_session bus) s = Some rid then None else map_of (eb_pending_by_session bus) s)"
    using bus_wfD(4) [of bus s rid]
    by (auto simp: clear_pending_request_def Let_def split: option.split)
qed

lemma bus_wf_clear:
  assumes wf: "bus_wf bus"
  shows "bus_wf (clear_pending_request rid bus)"
proof (rule bus_wfI, unfold clear_pending_request_sel(1,2) clear_pending_request_sel(3) [OF wf])
  note D = bus_wfD [OF wf]
  show "distinct (map fst (dpop rid (eb_pending_requests bus)))" using D(1) by (rule distinct_delete)
  show "pr_request_id p = k \<and> k \<noteq> []" if "(k, p) \<in> set (dpop rid (eb_pending_requests bus))" for k p
    using that D(2) [of k p] by (simp add: set_dpop)
  show "(if map_of (eb_pending_by_session bus) (pr_session_id p) = Some rid then None
      else map_of (eb_pending_by_session bus) (pr_session_id p)) = Some k"
    if "(k, p) \<in> set (dpop rid (eb_pending_requests bus))" "eb_futures bus k = Waiting" for k p
    using that D(3) [of k p] by (simp add: set_dpop)
  show "\<exists>p. map_of (dpop rid (eb_pending_requests bus)) r = Some p \<and> pr_session_id p = s"
    if "(if map_of (eb_pending_by_session bus) s = Some rid then None
      else map_of (eb_pending_by_session bus) s) = Some r" for s r
    using that D(4) [of s r] by (auto split: if_splits)
qed

lemma bus_wf_resolve: "bus_wf bus \<Longrightarrow> bus_wf (snd (resolve_pending_request k v rid sid t pl bus))"
  by (auto simp: resolve_pending_request_def Let_def bus_wf_clear bus_wf_settle
      bus_wf_cong [of "bus\<lparr>eb_futures := F, eb_tasks := T\<rparr>" "bus\<lparr>eb_futures := F\<rparr>" for F T]
      split: option.split)

lemma register_Inr:
  assumes "register_pending_request rid sid kind ev bus = Inr bus'"
  defines "old \<equiv> (case map_of (eb_pending_by_session bus) sid of Some r \<Rightarrow> r | None \<Rightarrow> [])"
  shows "eb_pending_requests bus' =
       dset rid \<lparr>pr_request_id = rid, pr_session_id = sid, pr_kind = kind, pr_event = ev\<rparr>
         (if old \<noteq> [] then dpop old (eb_pending_requests bus) else eb_pending_requests bus)"
    and "eb_pending_by_session bus' = dset sid rid (eb_pending_by_session bus)"
    and "eb_futures bus' = eb_futures bus"
    and "old \<noteq> [] \<Longrightarrow> map_of (eb_pending_requests bus) old = Some p \<Longrightarrow> future_done bus p"
  using assms unfolding register_pending_request_def Let_def
  by (auto split: if_splits option.splits)

lemma bus_wf_register:
  assumes wf: "bus_wf bus" and rid: "rid \<noteq> []" "rid \<notin> fst ` set (eb_pending_requests bus)"
    and reg: "register_pending_request rid sid kind ev (bus\<lparr>eb_futures := (eb_futures bus)(rid := Waiting)\<rparr>) = Inr bus'"
  shows "bus_wf bus'"
proof -
  let ?P = "eb_pending_requests bus"
  let ?p = "\<lparr>pr_request_id = rid, pr_session_id = sid, pr_kind = kind, pr_event = ev\<rparr>"
  define old where "old = (case map_of (eb_pending_by_session bus) sid of Some r \<Rightarrow> r | None \<Rightarrow> [])"
  define Q where "Q = (if old \<noteq> [] then dpop old ?P else ?P)"
  have P': "eb_pending_requests bus' = dset rid ?p Q"
    and S': "eb_pending_by_session bus' = dset sid rid (eb_pending_by_session bus)"
    and F': "eb_futures bus' = (eb_futures bus)(rid := Waiting)"
    using register_Inr [OF reg] by (simp_all add: Q_def old_def)
  note D = bus_wfD [OF wf]
  have d0: "distinct (map fst Q)" using D(1) by (simp add: Q_def distinct_delete)
  have Q: "(k, p) \<in> set ?P" "k \<noteq> rid" "k \<noteq> old" if "(k, p) \<in> set Q" for k p
    using that rid(2) D(2) by (force simp: Q_def set_dpop image_iff split: if_splits)+
  have sid: "map_of (eb_pending_by_session bus) s = Some k \<Longrightarrow> k \<noteq> old \<Longrightarrow> s \<noteq> sid" for s k
    by (auto simp: old_def)
  show ?thesis
  proof (rule bus_wfI)
    show "distinct (map fst (eb_pending_requests bus'))"
      unfolding P' using d0 by (rule distinct_update)
    show "pr_request_id p = k \<and> k \<noteq> []" if "(k, p) \<in> set (eb_pending_requests bus')" for k p
      using that Q(1) D(2) rid(1) unfolding P' in_set_dset [OF d0] by auto
    show "map_of (eb_pending_by_session bus') (pr_session_id p) = Some k"
      if "(k, p) \<in> set (eb_pending_requests bus')" "eb_futures bus' k = Waiting" for k p
    proof (cases "(k, p) = (rid, ?p)")
      case False
      with that(1) have kp: "(k, p) \<in> set Q" unfolding P' in_set_dset [OF d0] by blast
      with that(2) Q(2) have "eb_futures bus k = Waiting" by (auto simp: F')
      with Q(1) [OF kp] D(3) have "map_of (eb_pending_by_session bus) (pr_session_id p) = Some k" by blast
      with sid Q(3) [OF kp] show ?thesis by (simp add: S')
    qed (simp add: S')
    show "\<exists>p. map_of (eb_pending_requests bus') r = Some p \<and> pr_session_id p = s"
      if "map_of (eb_pending_by_session bus') s = Some r" for s r
    proof (cases "s = sid")
      case False
      with that D(4) obtain p where p: "map_of ?P r = Some p" "pr_session_id p = s" by (auto simp: S')
      then have "r \<noteq> rid" using rid(2) by (metis map_of_eq_None_iff option.simps(3))
      moreover have "r \<noteq> old"
      proof
        assume "r = old"
        then have "map_of (eb_pending_by_session bus) sid = Some r"
          using D(2) [OF map_of_SomeD [OF p(1)]] by (auto simp: old_def split: option.splits)
        then show False using D(4) [of sid r] p False by auto
      qed
      ultimately show ?thesis using p by (simp add: P' Q_def)
    qed (use that in \<open>simp add: S' P'\<close>)
  qed
qed

text \<open>Registering a request drops none that is waited for: the request it replaces is done.\<close>

lemma register_live:
  assumes wf: "bus_wf bus" and rid: "rid \<notin> fst ` set (eb_pending_requests bus)"
    and reg: "register_pending_request rid sid kind ev (bus\<lparr>eb_futures := (eb_futures bus)(rid := Waiting)\<rparr>) = Inr bus'"
  shows "set (live_requests bus') =
     insert \<lparr>pr_request_id = rid, pr_session_id = sid, pr_kind = kind, pr_event = ev\<rparr> (set (live_requests bus))"
proof -
  let ?P = "eb_pending_requests bus"
  let ?p = "\<lparr>pr_request_id = rid, pr_session_id = sid, pr_kind = kind, pr_event = ev\<rparr>"
  define old where "old = (case map_of (eb_pending_by_session bus) sid of Some r \<Rightarrow> r | None \<Rightarrow> [])"
  define Q where "Q = (if old \<noteq> [] then dpop old ?P else ?P)"
  have P': "eb_pending_requests bus' = dset rid ?p Q" and F': "eb_futures bus' = (eb_futures bus)(rid := Waiting)"
    using register_Inr [OF reg] by (simp_all add: Q_def old_def)
  note D = bus_wfD [OF wf]
  have d0: "distinct (map fst Q)" using D(1) by (simp add: Q_def distinct_delete)
  have live: "p \<in> set (live_requests b) \<longleftrightarrow> (\<exists>k. (k, p) \<in> set (eb_pending_requests b) \<and> eb_futures b (pr_request_id p) = Waiting)"
    for p b by (force simp: live_requests_def future_done_def)
  have sub: "(k, p) \<in> set Q \<Longrightarrow> (k, p) \<in> set ?P" for k p by (auto simp: Q_def set_dpop split: if_splits)
  have neq: "(k, p) \<in> set ?P \<Longrightarrow> k \<noteq> rid" for k p using rid by (force simp: image_iff)
  have keep: "(k, p) \<in> set Q" if "(k, p) \<in> set ?P" "eb_futures bus k = Waiting" for k p
  proof (cases "k = old")
    case True
    have "map_of ?P k = Some p" using that(1) D(1) by simp
    moreover have "pr_request_id p = k" "k \<noteq> []" "k \<noteq> rid" using D(2) neq that(1) by blast+
    ultimately have "future_done (bus\<lparr>eb_futures := (eb_futures bus)(rid := Waiting)\<rparr>) p"
      using register_Inr(4) [OF reg, of p] True by (simp add: old_def)
    with that(2) \<open>pr_request_id p = k\<close> show ?thesis by (simp add: future_done_def split: if_splits)
  qed (use that in \<open>simp add: Q_def set_dpop\<close>)
  show ?thesis
  proof (intro set_eqI iffI)
    fix p
    assume "p \<in> set (live_requests bus')"
    then obtain k where k: "(k, p) \<in> set (eb_pending_requests bus')" "eb_futures bus' (pr_request_id p) = Waiting"
      by (auto simp: live)
    show "p \<in> insert ?p (set (live_requests bus))"
    proof (cases "p = ?p")
      case False
      with k(1) have kQ: "(k, p) \<in> set ?P" unfolding P' in_set_dset [OF d0] using sub by blast
      with k(2) D(2) neq have "eb_futures bus (pr_request_id p) = Waiting" by (auto simp: F' split: if_splits)
      with kQ show ?thesis by (auto simp: live)
    qed simp
  next
    fix p
    assume "p \<in> insert ?p (set (live_requests bus))"
    then consider "p = ?p" | k where "(k, p) \<in> set ?P" "eb_futures bus (pr_request_id p) = Waiting"
      by (auto simp: live)
    then show "p \<in> set (live_requests bus')"
    proof cases
      case 1
      have "(rid, ?p) \<in> set (eb_pending_requests bus')" unfolding P' in_set_dset [OF d0] by simp
      with 1 show ?thesis unfolding live F' by auto
    next
      case 2
      have "pr_request_id p = k" "k \<noteq> rid" using D(2) neq 2(1) by blast+
      with keep [OF 2(1)] 2 have "(k, p) \<in> set (eb_pending_requests bus')" "eb_futures bus' (pr_request_id p) = Waiting"
        unfolding P' in_set_dset [OF d0] by (auto simp: F')
      then show ?thesis unfolding live by blast
    qed
  qed
qed

lemma bus_wf_finish:
  "bus_wf bus \<Longrightarrow> bus_wf (snd (finish_confirmation rid bus))"
  "bus_wf bus \<Longrightarrow> bus_wf (snd (finish_human_input rid bus))"
  by (auto simp: finish_confirmation_def finish_human_input_def bus_wf_clear bus_wf_settle split: fut.split)

lemma bus_wf_frame:
  "bus_wf (subscribe t c bus) = bus_wf bus" "bus_wf (request_shutdown bus) = bus_wf bus"
  by (simp_all add: subscribe_def request_shutdown_def bus_wf_def future_done_def)

lemma bus_wf_step: "bus_step bus bus' \<Longrightarrow> bus_wf bus \<Longrightarrow> bus_wf bus'"
proof (induction rule: bus_step.induct)
  case (task bus)
  then show ?case
    by (auto simp: run_task_def bus_wf_def future_done_def split: list.split)
next
  case (begin_confirm rid bus eid prompt tmo sid src tgt md bus')
  then show ?case
    by (auto simp: begin_confirmation_def Let_def rbind_def bus_wf_cong [OF publish_sel]
        intro: bus_wf_register split: sum.splits)
next
  case (begin_human rid bus eid question opts ph tmo sid src tgt bus')
  then show ?case
    by (auto simp: begin_human_input_def Let_def rbind_def bus_wf_cong [OF publish_sel]
        intro: bus_wf_register split: sum.splits)
next
  case (answer_confirm bus acc rid sid ep ap reason)
  then show ?case
    by (auto simp: submit_confirmation_response_def resolve_confirmation_def Let_def bus_wf_resolve split: option.split)
next
  case (answer_human ans rid sid sel bus b bus')
  then show ?case
    using bus_wf_resolve [of bus]
    by (auto simp: submit_human_input_response_def rbind_def Let_def split: option.splits sum.splits)
      (metis snd_conv)+
qed (simp_all add: bus_wf_finish bus_wf_cong [OF publish_sel] bus_wf_frame)

lemma bus_reachable_wf: "bus_reachable bus \<Longrightarrow> bus_wf bus"
  by (induction rule: bus_reachable.induct)
    (simp add: bus_wf_def event_bus_init_def, rule bus_wf_step)

lemma live_request_indexed:
  assumes "bus_wf bus" "p \<in> set (live_requests bus)"
  shows "map_of (eb_pending_requests bus) (pr_request_id p) = Some p"
    and "map_of (eb_pending_by_session bus) (pr_session_id p) = Some (pr_request_id p)"
    and "pr_request_id p \<noteq> []"
proof -
  from assms(2) obtain k where k: "(k, p) \<in> set (eb_pending_requests bus)" "\<not> future_done bus p"
    by (auto simp: live_requests_def)
  with assms(1) have "pr_request_id p = k" "k \<noteq> []" "map_of (eb_pending_by_session bus) (pr_session_id p) = Some k"
    unfolding bus_wf_def by blast+
  with k(1) assms(1) show "map_of (eb_pending_requests bus) (pr_request_id p) = Some p"
    and "map_of (eb_pending_by_session bus) (pr_session_id p) = Some (pr_request_id p)"
    and "pr_request_id p \<noteq> []"
    by (auto simp: bus_wf_def intro: map_of_is_SomeI)
qed

lemma live_request_unique:
  "bus_wf bus \<Longrightarrow> p \<in> set (live_requests bus) \<Longrightarrow> q \<in> set (live_requests bus) \<Longrightarrow>
   pr_session_id p = pr_session_id q \<Longrightarrow> p = q"
  by (metis live_request_indexed(1,2) option.inject)

text \<open>A search finds the live request of a session whenever it has the kind asked for.\<close>

lemma find_pending_session:
  assumes "bus_wf bus" "p \<in> set (live_requests bus)" "pr_kind p = kind" "pr_session_id p = sid"
    and "sid \<noteq> []"
  shows "find_pending_request (Some kind) sid bus = Some p"
proof (cases "find_pending_request (Some kind) sid bus")
  case None
  with assms show ?thesis
    by (auto simp: find_pending_request_def live_requests_def find_None_iff)
next
  case (Some q)
  then have "q \<in> set (live_requests bus)" "pr_session_id q = sid"
    using assms(5) by (auto simp: find_pending_request_def live_requests_def find_Some_iff)
  with Some live_request_unique [OF assms(1) _ assms(2)] assms(4) show ?thesis by simp
qed

lemma live_requests_distinct: "bus_wf bus \<Longrightarrow> distinct (live_requests bus)"
proof -
  assume wf: "bus_wf bus"
  then have "map (pr_request_id \<circ> snd) (eb_pending_requests bus) = map fst (eb_pending_requests bus)"
    using bus_wfD(2) by fastforce
  then have "distinct (map pr_request_id (map snd (eb_pending_requests bus)))"
    using bus_wfD(1) [OF wf] by (metis map_map)
  then show ?thesis unfolding live_requests_def by (metis distinct_filter distinct_map)
qed

section \<open>Properties\<close>

text \<open>
  (C23) Interactive requests of a session exclude each other: in every reachable bus a session
  waits for at most one request, and the index by session leads to it.
\<close>

theorem one_interactive_request_per_session:
  assumes "bus_reachable bus"
  shows "length (filter (\<lambda>p. pr_session_id p = s) (live_requests bus)) \<le> 1
    \<and> (\<forall>p \<in> set (live_requests bus). pr_session_id p = s \<longrightarrow>
         map_of (eb_pending_by_session bus) s = Some (pr_request_id p)
       \<and> map_of (eb_pending_requests bus) (pr_request_id p) = Some p)"
proof -
  have wf: "bus_wf bus" using assms by (rule bus_reachable_wf)
  let ?L = "filter (\<lambda>p. pr_session_id p = s) (live_requests bus)"
  have "length ?L \<le> 1"
  proof (rule ccontr)
    assume "\<not> length ?L \<le> 1"
    then obtain p q r where L: "?L = p # q # r"
      by (cases ?L; cases "tl ?L") auto
    have "distinct ?L" using live_requests_distinct [OF wf] by simp
    with L have "p \<noteq> q" by simp
    moreover have "p \<in> set ?L" "q \<in> set ?L" unfolding L by simp_all
    ultimately show False using live_request_unique [OF wf] by auto
  qed
  with live_request_indexed [OF wf] show ?thesis by auto
qed

lemma begin_confirmation_eq:
  "begin_confirmation eid rid prompt tmo sid src tgt md bus =
     (let ev = confirm_event eid rid prompt tmo sid src tgt md in
      case register_pending_request rid sid ''confirm'' ev
             (bus\<lparr>eb_futures := (eb_futures bus)(rid := Waiting)\<rparr>) of
        Inl e \<Rightarrow> Inl e
      | Inr bus1 \<Rightarrow> Inr (publish (event_type_value CONFIRM_REQUEST) (EventData ev) bus1))"
  unfolding begin_confirmation_def Let_def rbind_def by (rule refl)

lemma begin_confirmation_Inr:
  assumes "begin_confirmation eid rid prompt tmo sid src tgt md bus = Inr bus'"
  shows "map_of (eb_pending_requests bus') rid = Some \<lparr>pr_request_id = rid, pr_session_id = sid,
     pr_kind = ''confirm'', pr_event = confirm_event eid rid prompt tmo sid src tgt md\<rparr>"
    and "eb_futures bus' rid = Waiting"
  using assms register_Inr(1,3)
  by (auto simp: begin_confirmation_eq Let_def split: sum.splits)

text \<open>The guard of \<open>_register_pending_request\<close> in terms of the requests that are waited for.\<close>

lemma register_rejects_iff:
  assumes wf: "bus_wf bus" and rid: "rid \<notin> fst ` set (eb_pending_requests bus)"
  shows "(\<exists>e. register_pending_request rid sid kind ev (bus\<lparr>eb_futures := (eb_futures bus)(rid := Waiting)\<rparr>) = Inl e)
    \<longleftrightarrow> (\<exists>p \<in> set (live_requests bus). pr_session_id p = sid)" (is "?L \<longleftrightarrow> ?R")
proof
  assume ?L
  then obtain r p where r: "map_of (eb_pending_by_session bus) sid = Some r"
    "map_of (eb_pending_requests bus) r = Some p" "\<not> future_done (bus\<lparr>eb_futures := (eb_futures bus)(rid := Waiting)\<rparr>) p"
    by (auto simp: register_pending_request_def Let_def split: if_splits option.splits)
  have "(r, p) \<in> set (eb_pending_requests bus)" using r(2) by (rule map_of_SomeD)
  moreover from this have "pr_request_id p \<noteq> rid" using rid bus_wfD(2) [OF wf] by (force simp: image_iff)
  ultimately have "p \<in> set (live_requests bus)"
    using r(3) by (force simp: live_requests_def future_done_def)
  moreover have "pr_session_id p = sid" using bus_wfD(4) [OF wf r(1)] r(2) by simp
  ultimately show ?R by blast
next
  assume ?R
  then obtain p where p: "p \<in> set (live_requests bus)" "pr_session_id p = sid" by blast
  note I = live_request_indexed [OF wf p(1)]
  have "pr_request_id p \<noteq> rid" using I(1) rid by (metis map_of_eq_None_iff option.simps(3))
  with p I show ?L
    by (auto simp: register_pending_request_def Let_def future_done_def live_requests_def)
qed

text \<open>Starting a confirmation on a session raises RuntimeError exactly when that session
  already waits for an interactive request; otherwise the bus waits for the new request and
  for every request it waited for before.
\<close>

theorem begin_confirmation_exclusive:
  assumes "bus_reachable bus" "rid \<notin> fst ` set (eb_pending_requests bus)" "rid \<noteq> []"
  shows "case begin_confirmation eid rid prompt tmo sid src tgt md bus of
      Inl e \<Rightarrow> e = RuntimeError (''Another interactive request is already pending for session '' @ sid)
             \<and> (\<exists>p \<in> set (live_requests bus). pr_session_id p = sid)
    | Inr bus' \<Rightarrow> (\<forall>p \<in> set (live_requests bus). pr_session_id p \<noteq> sid)
             \<and> set (live_requests bus') = insert \<lparr>pr_request_id = rid, pr_session_id = sid,
                 pr_kind = ''confirm'', pr_event = confirm_event eid rid prompt tmo sid src tgt md\<rparr>
                 (set (live_requests bus))"
proof -
  have wf: "bus_wf bus" using assms(1) by (rule bus_reachable_wf)
  let ?b = "bus\<lparr>eb_futures := (eb_futures bus)(rid := Waiting)\<rparr>"
  let ?ev = "confirm_event eid rid prompt tmo sid src tgt md"
  note iff = register_rejects_iff [OF wf assms(2), of sid "''confirm''" ?ev]
  show ?thesis
  proof (cases "register_pending_request rid sid ''confirm'' ?ev ?b")
    case (Inl e)
    then have "e = RuntimeError (''Another interactive request is already pending for session '' @ sid)"
      by (auto simp: register_pending_request_def Let_def split: if_splits)
    with Inl iff show ?thesis by (auto simp: begin_confirmation_eq Let_def)
  next
    case (Inr bus1)
    have none: "\<forall>p \<in> set (live_requests bus). pr_session_id p \<noteq> sid" using iff Inr by auto
    have "set (live_requests bus1) = insert \<lparr>pr_request_id = rid, pr_session_id = sid,
        pr_kind = ''confirm'', pr_event = ?ev\<rparr> (set (live_requests bus))"
      using register_live [OF wf assms(2) Inr] .
    with Inr none show ?thesis
      by (simp add: begin_confirmation_eq Let_def live_requests_def future_done_def)
  qed
qed

text \<open>Two sessions that wait for a confirmation each, reached from the empty bus.\<close>

definition example_bus1 :: event_bus where
  "example_bus1 = projr (begin_confirmation ''e1'' ''r1'' ''run?'' (PInt 30) ''A'' None None None event_bus_init)"

definition example_bus2 :: event_bus where
  "example_bus2 = projr (begin_confirmation ''e2'' ''r2'' ''write?'' (PInt 30) ''B'' None None None example_bus1)"



lemma example_buses:
  "bus_reachable example_bus1" "bus_reachable example_bus2"
  "begin_confirmation ''e2'' ''r2'' ''write?'' (PInt 30) ''B'' None None None example_bus1 = Inr example_bus2"
proof -
  have "\<not> isl (begin_confirmation ''e1'' ''r1'' ''run?'' (PInt 30) ''A'' None None None event_bus_init)"
    "''r1'' \<notin> fst ` set (eb_pending_requests event_bus_init)" by code_simp+
  then show r1: "bus_reachable example_bus1"
    using bus_step.begin_confirm [of "''r1''"] bus_reachable.init bus_reachable.step
    by (metis Inr_projr example_bus1_def list.distinct(1))
  have "\<not> isl (begin_confirmation ''e2'' ''r2'' ''write?'' (PInt 30) ''B'' None None None example_bus1)" by code_simp
  then show b2: "begin_confirmation ''e2'' ''r2'' ''write?'' (PInt 30) ''B'' None None None example_bus1 = Inr example_bus2"
    by (simp only: example_bus2_def) (rule Inr_projr)
  have "''r2'' \<notin> fst ` set (eb_pending_requests example_bus1)" by code_simp
  then show "bus_reachable example_bus2"
    using bus_step.begin_confirm [of "''r2''"] b2 r1 bus_reachable.step by blast
qed

theorem one_interactive_request_per_session_witness:
  "map pr_request_id (live_requests example_bus2) = [''r1'', ''r2'']
   \<and> length (filter (\<lambda>p. pr_session_id p = ''B'') (live_requests example_bus2)) \<le> 1"
proof (intro conjI)
  show "map pr_request_id (live_requests example_bus2) = [''r1'', ''r2'']" by code_simp
qed (use one_interactive_request_per_session [OF example_buses(2)] in blast)

theorem begin_confirmation_exclusive_witness:
  "begin_confirmation ''e3'' ''r3'' ''again?'' (PInt 30) ''A'' None None None example_bus2
     = Inl (RuntimeError (''Another interactive request is already pending for session '' @ ''A''))"
proof -
  have f: "''r3'' \<notin> fst ` set (eb_pending_requests example_bus2)" by code_simp
  have "isl (begin_confirmation ''e3'' ''r3'' ''again?'' (PInt 30) ''A'' None None None example_bus2)" by code_simp
  then show ?thesis
    using begin_confirmation_exclusive [OF example_buses(2) f, where eid = "''e3''" and prompt = "''again?''"
        and tmo = "PInt 30" and sid = "''A''" and src = None and tgt = None and md = None]
    by (cases "begin_confirmation ''e3'' ''r3'' ''again?'' (PInt 30) ''A'' None None None example_bus2") auto
qed

text \<open>A confirmation is answered by the response to it and by nothing else: after a session
  has started to wait under request \<open>rid\<close>, a response that names the request and the session is
  accepted and the waiting coroutine returns the decision of the user, the request being gone
  from the bus; without a response the coroutine times out and returns False.
\<close>

theorem confirmation_round_trip:
  assumes "bus_reachable bus" "rid \<noteq> []" "sid \<noteq> []" "rid \<notin> fst ` set (eb_pending_requests bus)"
    and "begin_confirmation eid rid prompt tmo sid src tgt md bus = Inr bus1"
  shows "(\<exists>bus2. submit_confirmation_response accepted rid sid ep ap reason bus1 = (True, bus2)
      \<and> fst (finish_confirmation rid bus2) = PBool accepted
      \<and> map_of (eb_pending_requests (snd (finish_confirmation rid bus2))) rid = None)
    \<and> fst (finish_confirmation rid bus1) = PBool False
    \<and> map_of (eb_pending_requests (snd (finish_confirmation rid bus1))) rid = None"
proof -
  let ?p = "\<lparr>pr_request_id = rid, pr_session_id = sid, pr_kind = ''confirm'',
     pr_event = confirm_event eid rid prompt tmo sid src tgt md\<rparr>"
  note I = begin_confirmation_Inr [OF assms(5)]
  have "bus_reachable bus1"
    using bus_step.begin_confirm [OF assms(2,4,5)] assms(1) bus_reachable.step by blast
  then have wf: "bus_wf bus1" by (rule bus_reachable_wf)
  have "?p \<in> set (live_requests bus1)"
    using I map_of_SomeD [OF I(1)] by (force simp: live_requests_def future_done_def)
  then have f: "find_pending_request (Some ''confirm'') sid bus1 = Some ?p"
    using find_pending_session [OF wf] assms(3) by simp
  have "\<not> future_done bus1 ?p" using I(2) by (simp add: future_done_def)
  with f I assms(2,3) show ?thesis
    by (simp add: submit_confirmation_response_def resolve_confirmation_def resolve_pending_request_def
        select_pending_def or_str_def finish_confirmation_def clear_pending_request_sel)
qed

theorem confirmation_round_trip_witness:
  "\<exists>bus2. submit_confirmation_response True ''r2'' ''B'' [] [] [] example_bus2 = (True, bus2)
      \<and> fst (finish_confirmation ''r2'' bus2) = PBool True"
proof -
  have "''r2'' \<notin> fst ` set (eb_pending_requests example_bus1)" by code_simp
  from confirmation_round_trip [OF example_buses(1) _ _ this example_buses(3), of True "[]" "[]" "[]"]
  show ?thesis by auto
qed

text \<open>A confirmation that names a request but no session is lost when another session has an
  older confirmation open: \<open>resolve_confirmation\<close> takes the session of the oldest one, which
  contradicts the request named, and answers False, leaving the bus unchanged.
\<close>

theorem confirmation_by_request_id_lost:
  assumes "find_pending_request (Some ''confirm'') [] bus = Some oldest"
    and "map_of (eb_pending_requests bus) rid = Some p" "rid \<noteq> []"
    and "pr_session_id oldest \<noteq> []" "pr_session_id p \<noteq> pr_session_id oldest"
  shows "submit_confirmation_response accepted rid [] ep ap reason bus = (False, bus)"
proof -
  have "pr_kind oldest = ''confirm''"
    using assms(1) by (auto simp: find_pending_request_def find_Some_iff)
  with assms show ?thesis
    by (simp add: submit_confirmation_response_def resolve_confirmation_def resolve_pending_request_def
        select_pending_def or_str_def)
qed

theorem confirmation_by_request_id_lost_witness:
  "map pr_request_id (live_requests example_bus2) = [''r1'', ''r2'']
   \<and> fst (submit_confirmation_response True ''r2'' [] [] [] [] example_bus2) = False"
proof -
  have o: "find_pending_request (Some ''confirm'') [] example_bus2
      = Some (hd (live_requests example_bus2))"
    "map_of (eb_pending_requests example_bus2) ''r2'' = Some (live_requests example_bus2 ! 1)"
    "pr_session_id (hd (live_requests example_bus2)) \<noteq> []"
    "pr_session_id (live_requests example_bus2 ! 1) \<noteq> pr_session_id (hd (live_requests example_bus2))"
    by code_simp+
  have "map pr_request_id (live_requests example_bus2) = [''r1'', ''r2'']" by code_simp
  with confirmation_by_request_id_lost [OF o(1,2) _ o(3,4)] show ?thesis by simp
qed

text \<open>The option that a reply selects is one of the options offered. Reading a reply fails
  exactly when options were offered and it consists of digits in the sense of \<open>str.isdigit\<close>
  that \<open>int\<close> cannot read, such as a superscript two.
\<close>

theorem match_option_from_text_sound:
  "(match_option_from_text text options = Inl (ValueError ''invalid literal for int()'')
     \<longleftrightarrow> options \<noteq> [] \<and> isdigit (strip text) \<and> parse_int (strip text) = None)
   \<and> (case match_option_from_text text options of
        Inl e \<Rightarrow> e = ValueError ''invalid literal for int()''
      | Inr None \<Rightarrow> True
      | Inr (Some opt) \<Rightarrow> opt \<in> set options)"
  by (auto simp: match_option_from_text_def Let_def find_Some_iff isdigit_def nat_less_iff
      intro!: nth_mem split: option.split)

end
