(* ===== verification/Schedule_Time.thy ===== *)
theory Schedule_Time
  imports Py_Base
begin

text \<open>
  Fire times of schedules, \<^verbatim>\<open>core/services/schedule_time.py\<close>: times of day, cron fields
  and the search for the next fire time.

  A local time is a wall clock (microseconds since 1970-01-01 00:00 local) with its \<open>fold\<close>;
  a time zone is what \<open>zoneinfo\<close> reads from its database: an initial offset and the UTC
  instants at which the offset changes. Conversions follow \<open>zoneinfo\<close>: the fold chooses
  between the two readings of a repeated hour, adding a \<open>timedelta\<close> works on the wall clock
  and resets the fold. The zone database and \<open>datetime.fromisoformat\<close> are arguments
  (\<open>clock_env\<close>). The end of the calendar in the year 9999 is not modelled.
\<close>

section \<open>Calendar and zones\<close>

definition day_us :: int where "day_us = 86400000000"
definition minute_us :: int where "minute_us = 60000000"

text \<open>The Gregorian date of a day number (day 0 is 1970-01-01), as (year, month, day).\<close>

definition civil_from_days :: "int \<Rightarrow> int \<times> int \<times> int" where
  "civil_from_days z0 =
     (let z = z0 + 719468;
          era = z div 146097;
          doe = z mod 146097;
          yoe = (doe - doe div 1460 + doe div 36524 - doe div 146096) div 365;
          doy = doe - (365 * yoe + yoe div 4 - yoe div 100);
          mp = (5 * doy + 2) div 153;
          d = doy - (153 * mp + 2) div 5 + 1;
          m = (if mp < 10 then mp + 3 else mp - 9);
          y = yoe + era * 400
      in (if m \<le> 2 then y + 1 else y, m, d))"

definition wall_minute :: "int \<Rightarrow> int" where "wall_minute w = w div minute_us mod 60"
definition wall_hour :: "int \<Rightarrow> int" where "wall_hour w = w div (60 * minute_us) mod 24"
definition wall_day :: "int \<Rightarrow> int" where "wall_day w = snd (snd (civil_from_days (w div day_us)))"
definition wall_month :: "int \<Rightarrow> int" where "wall_month w = fst (snd (civil_from_days (w div day_us)))"
definition weekday :: "int \<Rightarrow> int" where "weekday w = (w div day_us + 3) mod 7"

record zone =
  z_offset0 :: int
  z_transitions :: "(instant \<times> int) list"

definition utc_zone :: zone where
  "utc_zone = \<lparr>z_offset0 = 0, z_transitions = []\<rparr>"

text \<open>The offset before a transition and at its end, along the list.\<close>

fun zone_offset :: "int \<Rightarrow> (instant \<times> int) list \<Rightarrow> instant \<Rightarrow> int" where
  "zone_offset off [] t = off"
| "zone_offset off ((u, off') # ts) t = (if t < u then off else zone_offset off' ts t)"

fun zone_fold :: "int \<Rightarrow> (instant \<times> int) list \<Rightarrow> instant \<Rightarrow> bool" where
  "zone_fold off [] t = False"
| "zone_fold off ((u, off') # ts) t =
     (if t < u then False
      else if (case ts of [] \<Rightarrow> True | (u', _) # _ \<Rightarrow> t < u') then t - u < off - off'
      else zone_fold off' ts t)"

text \<open>\<open>value.astimezone(tz)\<close>: wall clock and fold.\<close>

definition to_local :: "zone \<Rightarrow> instant \<Rightarrow> int \<times> bool" where
  "to_local z t = (t + zone_offset (z_offset0 z) (z_transitions z) t, zone_fold (z_offset0 z) (z_transitions z) t)"

text \<open>The offset of a wall clock: with fold 0 a transition takes effect at the larger of the
  two readings, with fold 1 at the smaller.\<close>

fun wall_offset :: "bool \<Rightarrow> int \<Rightarrow> (instant \<times> int) list \<Rightarrow> int \<Rightarrow> int" where
  "wall_offset fd off [] w = off"
| "wall_offset fd off ((u, off') # ts) w =
     (if w < u + (if fd then min off off' else max off off') then off else wall_offset fd off' ts w)"

text \<open>\<open>value.astimezone(timezone.utc)\<close>.\<close>

definition to_utc :: "zone \<Rightarrow> int \<Rightarrow> bool \<Rightarrow> instant" where
  "to_utc z w fd = w - wall_offset fd (z_offset0 z) (z_transitions z) w"

record clock_env =
  ce_zones :: "string \<Rightarrow> zone option"
  ce_fromisoformat :: "string \<Rightarrow> (int \<times> int option) option"

section \<open>Parsing\<close>

definition parse_timezone :: "clock_env \<Rightarrow> string \<Rightarrow> zone" where
  "parse_timezone env value =
     (let name = or_str (strip (or_str value ''UTC'')) ''UTC'' in
      case ce_zones env name of Some z \<Rightarrow> z | None \<Rightarrow> utc_zone)"

text \<open>\<open>_parse_time_of_day\<close>: hour and minute, clamped.\<close>

definition parse_time_of_day :: "string \<Rightarrow> int \<times> int" where
  "parse_time_of_day value =
     (let text = or_str (strip (or_str value ''08:00'')) ''08:00'';
          parts = split_on (CHR '':'') text;
          hm = (case parse_int (hd parts) of
                  None \<Rightarrow> None
                | Some h \<Rightarrow> if 1 < length parts
                           then (case parse_int (parts ! 1) of Some m \<Rightarrow> Some (h, m) | None \<Rightarrow> None)
                           else Some (h, 0));
          (hour, minute) = (case hm of Some p \<Rightarrow> p | None \<Rightarrow> (8, 0))
      in (max 0 (min hour 23), max 0 (min minute 59)))"

text \<open>\<open>value not in (None, "")\<close>.\<close>

definition given :: "pyval \<Rightarrow> bool" where
  "given v \<longleftrightarrow> v \<noteq> PNone \<and> v \<noteq> PStr []"

definition time_of_day_value :: "pydict option \<Rightarrow> string option" where
  "time_of_day_value config =
     (let payload = dict_or config in
      case find (\<lambda>k. given (dget payload k)) [''time_of_day'', ''at'', ''time'', ''daily_time'', ''run_time''] of
        Some k \<Rightarrow> Some (strip (py_str (dget payload k)))
      | None \<Rightarrow>
          if dhas payload ''hour'' \<or> dhas payload ''minute''
          then Some (py_str (dget_or payload ''hour'' (PInt 0)) @ '':'' @ py_str (dget_or payload ''minute'' (PInt 0)))
          else None)"

definition canonical_time_of_day :: "pyval \<Rightarrow> string \<Rightarrow> string" where
  "canonical_time_of_day value dflt =
     (let (h, m) = parse_time_of_day (if given value then py_str value else dflt) in pad2 h @ '':'' @ pad2 m)"

definition normalize_daily_trigger_config :: "pydict option \<Rightarrow> pydict option \<Rightarrow> string \<Rightarrow> pydict" where
  "normalize_daily_trigger_config trigger_config fallback_config default_time_of_day =
     (let value = (case time_of_day_value trigger_config of
                     Some s \<Rightarrow> PStr s
                   | None \<Rightarrow> (case time_of_day_value fallback_config of Some s \<Rightarrow> PStr s | None \<Rightarrow> PNone))
      in [(''type'', PStr ''daily''), (''time_of_day'', PStr (canonical_time_of_day value default_time_of_day))])"

definition parse_iso_datetime :: "clock_env \<Rightarrow> string \<Rightarrow> zone \<Rightarrow> instant option" where
  "parse_iso_datetime env value z =
     (let text = strip value in
      if text = [] then None
      else case ce_fromisoformat env (concat (map (\<lambda>c. if c = CHR ''Z'' then ''+00:00'' else [c]) text)) of
             None \<Rightarrow> None
           | Some (w, Some off) \<Rightarrow> Some (w - off)
           | Some (w, None) \<Rightarrow> Some (to_utc z w False))"

section \<open>Cron\<close>

text \<open>\<open>token.split(c, 1)\<close> of a token that contains \<open>c\<close>.\<close>

definition split_once :: "char \<Rightarrow> string \<Rightarrow> string \<times> string" where
  "split_once c s = (takeWhile (\<lambda>x. x \<noteq> c) s, tl (dropWhile (\<lambda>x. x \<noteq> c) s))"

definition token_range :: "int \<Rightarrow> int \<Rightarrow> string \<Rightarrow> (int \<times> int) option" where
  "token_range min_value max_value token =
     (if token = ''*'' then Some (min_value, max_value)
      else if CHR ''-'' \<in> set token then
        (let (raw_start, raw_end) = split_once (CHR ''-'') token in
         case (parse_int raw_start, parse_int raw_end) of
           (Some a, Some b) \<Rightarrow> Some (a, b) | _ \<Rightarrow> None)
      else case parse_int token of Some a \<Rightarrow> Some (a, a) | None \<Rightarrow> None)"

definition part_matches :: "int \<Rightarrow> int \<Rightarrow> int \<Rightarrow> string \<Rightarrow> bool" where
  "part_matches value min_value max_value part =
     (let token0 = strip part in
      token0 \<noteq> [] \<and>
      (let (token, step) =
             (if CHR ''/'' \<in> set token0
              then (let (tok, raw) = split_once (CHR ''/'') token0
                    in (tok, case parse_int raw of Some n \<Rightarrow> max n 1 | None \<Rightarrow> 1))
              else (token0, 1))
       in case token_range min_value max_value token of
            None \<Rightarrow> False
          | Some (a, b) \<Rightarrow> let start = max a min_value; last = min b max_value
                          in start \<le> value \<and> value \<le> last \<and> (value - start) mod step = 0))"

definition field_matches :: "int \<Rightarrow> string \<Rightarrow> int \<Rightarrow> int \<Rightarrow> bool" where
  "field_matches value expression min_value max_value =
     (let text = strip (or_str expression ''*'') in
      text = [] \<or> text = ''*'' \<or> list_ex (part_matches value min_value max_value) (split_on (CHR '','') text))"

definition cron_matches :: "string list \<Rightarrow> int \<Rightarrow> bool" where
  "cron_matches parts w =
     (let dow = (weekday w + 1) mod 7;
          cron_dow_match = (field_matches dow (parts ! 4) 0 7 \<or> (dow = 0 \<and> field_matches 7 (parts ! 4) 0 7))
      in field_matches (wall_minute w) (parts ! 0) 0 59 \<and> field_matches (wall_hour w) (parts ! 1) 0 23
         \<and> field_matches (wall_day w) (parts ! 2) 1 31 \<and> field_matches (wall_month w) (parts ! 3) 1 12
         \<and> cron_dow_match)"

text \<open>The loop of \<open>_cron_next_after\<close> over the minutes up to \<open>stop\<close>.\<close>

function cron_loop :: "string list \<Rightarrow> int \<Rightarrow> int \<Rightarrow> int option" where
  "cron_loop parts local stop =
     (if local \<le> stop then if cron_matches parts local then Some local else cron_loop parts (local + minute_us) stop
      else None)"
  by pat_completeness auto
termination
  by (relation "measure (\<lambda>(_, local, stop). nat (stop - local + 1))") (auto simp: minute_us_def)

declare cron_loop.simps [simp del]

definition truncate_minute :: "int \<Rightarrow> int" where
  "truncate_minute w = w div minute_us * minute_us"

definition cron_next_after :: "string \<Rightarrow> instant \<Rightarrow> zone \<Rightarrow> instant option" where
  "cron_next_after expression after z =
     (let parts = split_ws (strip expression) in
      if length parts \<noteq> 5 then None
      else let local = truncate_minute (fst (to_local z after)) + minute_us
           in map_option (\<lambda>w. to_utc z w False) (cron_loop parts local (local + 366 * day_us)))"

section \<open>The next fire time\<close>

definition replace_time :: "int \<Rightarrow> int \<Rightarrow> int \<Rightarrow> int" where
  "replace_time w hour minute = w div day_us * day_us + (hour * 60 + minute) * minute_us"

text \<open>The candidate of a daily schedule and its fold: \<open>replace\<close> keeps the fold, adding a day
  resets it.\<close>

definition daily_candidate :: "int \<times> int \<Rightarrow> int \<times> bool \<Rightarrow> int \<times> bool" where
  "daily_candidate target local_now =
     (let (w, fd) = local_now; c = replace_time w (fst target) (snd target)
      in if c \<le> w then (c + day_us, False) else (c, fd))"

definition compute_next_fire_at ::
  "clock_env \<Rightarrow> string \<Rightarrow> pydict option \<Rightarrow> string \<Rightarrow> instant \<Rightarrow> instant option" where
  "compute_next_fire_at env trigger_type trigger_config timezone_name now =
     (let config = dict_or trigger_config;
          kind0 = (if trigger_type \<noteq> [] then trigger_type else str_or (dget config ''type'') ''interval'');
          kind = or_str (lower (strip kind0)) ''interval'';
          z = parse_timezone env timezone_name
      in if kind = ''interval'' then
           (let interval_seconds = (case py_int (py_or (dget config ''interval_seconds'') (PInt 0)) of
                                      Inr n \<Rightarrow> n | Inl _ \<Rightarrow> 0)
            in if interval_seconds > 0 then Some (now + seconds interval_seconds) else None)
         else if kind = ''daily'' then
           (let target = parse_time_of_day (or_str (case time_of_day_value (Some config) of Some s \<Rightarrow> s | None \<Rightarrow> []) ''08:00'');
                (c, fd) = daily_candidate target (to_local z now)
            in Some (to_utc z c fd))
         else if kind = ''one_shot'' then
           (case parse_iso_datetime env (py_str (py_or (dget config ''run_at'') (py_or (dget config ''at'') (PStr [])))) z of
              None \<Rightarrow> None
            | Some run_at \<Rightarrow> if run_at \<le> now then None else Some run_at)
         else if kind = ''cron'' then
           cron_next_after (strip (py_str (py_or (dget config ''expression'') (py_or (dget config ''cron'') (PStr []))))) now z
         else None)"

section \<open>Cron search\<close>

lemma minute_us_pos [simp]: "0 < minute_us" "minute_us \<noteq> 0"
  by (simp_all add: minute_us_def)

lemma day_us_pos [simp]: "0 < day_us" "day_us \<noteq> 0"
  by (simp_all add: day_us_def)

text \<open>The loop returns the first matching minute, and \<open>None\<close> only when there is none.\<close>

lemma cron_loop_Some:
  "cron_loop parts l s = Some w \<Longrightarrow>
   \<exists>k::nat. w = l + int k * minute_us \<and> w \<le> s \<and> cron_matches parts w
     \<and> (\<forall>j<k. \<not> cron_matches parts (l + int j * minute_us))"
proof (induction parts l s rule: cron_loop.induct)
  case (1 parts l s)
  show ?case
  proof (cases "l \<le> s \<and> \<not> cron_matches parts l")
    case True
    then have "cron_loop parts (l + minute_us) s = Some w"
      using "1.prems" by (simp add: cron_loop.simps [of parts l])
    with "1.IH" True obtain k where k: "w = l + minute_us + int k * minute_us" "w \<le> s" "cron_matches parts w"
      "\<forall>j<k. \<not> cron_matches parts (l + minute_us + int j * minute_us)" by blast
    have "\<not> cron_matches parts (l + int j * minute_us)" if "j < Suc k" for j
      using that k(4) True by (cases j) (auto simp: algebra_simps)
    with k show ?thesis by (intro exI [of _ "Suc k"]) (auto simp: algebra_simps)
  next
    case False
    with "1.prems" show ?thesis
      by (intro exI [of _ 0]) (auto simp: cron_loop.simps [of parts l] split: if_splits)
  qed
qed

lemma cron_loop_None:
  "cron_loop parts l s = None \<Longrightarrow> l + int k * minute_us \<le> s \<Longrightarrow> \<not> cron_matches parts (l + int k * minute_us)"
proof (induction parts l s arbitrary: k rule: cron_loop.induct)
  case (1 parts l s)
  have "0 \<le> int k * minute_us" by (simp add: less_imp_le)
  then have le: "l \<le> s" using "1.prems"(2) by linarith
  with "1.prems"(1) have nm: "\<not> cron_matches parts l" and rec: "cron_loop parts (l + minute_us) s = None"
    by (auto simp: cron_loop.simps [of parts l] split: if_splits)
  show ?case
  proof (cases k)
    case (Suc j)
    with "1.IH" [OF le nm rec, of j] "1.prems"(2) show ?thesis by (simp add: algebra_simps)
  qed (use nm in simp)
qed

text \<open>The minutes that the search visits, in order.\<close>

definition cron_minute :: "zone \<Rightarrow> instant \<Rightarrow> nat \<Rightarrow> int" where
  "cron_minute z after k = truncate_minute (fst (to_local z after)) + minute_us + int k * minute_us"

text \<open>
  (C27) The cron search is exact on its horizon: with five fields, the time it returns is the
  first whole minute after the current one that all fields match, and it returns nothing only
  if no minute of the next 366 days matches.
\<close>

theorem cron_next_after_first_match:
  assumes "length (split_ws (strip expression)) = 5"
  shows "case cron_next_after expression after z of
      None \<Rightarrow> \<forall>k \<le> 366 * 1440. \<not> cron_matches (split_ws (strip expression)) (cron_minute z after k)
    | Some t \<Rightarrow> \<exists>k \<le> 366 * 1440. t = to_utc z (cron_minute z after k) False
        \<and> cron_matches (split_ws (strip expression)) (cron_minute z after k)
        \<and> (\<forall>j<k. \<not> cron_matches (split_ws (strip expression)) (cron_minute z after j))"
proof -
  let ?p = "split_ws (strip expression)"
  let ?l = "truncate_minute (fst (to_local z after)) + minute_us"
  let ?s = "?l + 366 * day_us"
  have in_range: "cron_minute z after k \<le> ?s \<longleftrightarrow> k \<le> 366 * 1440" for k
    by (auto simp: cron_minute_def minute_us_def day_us_def)
  show ?thesis
  proof (cases "cron_loop ?p ?l ?s")
    case None
    have "\<not> cron_matches ?p (cron_minute z after k)" if "k \<le> 366 * 1440" for k
      using cron_loop_None [OF None, of k] in_range [of k] that unfolding cron_minute_def by blast
    then show ?thesis by (simp add: cron_next_after_def Let_def assms(1) None)
  next
    case (Some w)
    from cron_loop_Some [OF Some] obtain k where k: "w = cron_minute z after k" "w \<le> ?s"
      "cron_matches ?p w" "\<forall>j<k. \<not> cron_matches ?p (cron_minute z after j)"
      unfolding cron_minute_def by blast
    moreover have "k \<le> 366 * 1440" using k(1,2) in_range by simp
    ultimately show ?thesis by (auto simp: cron_next_after_def Let_def assms(1) Some)
  qed
qed

theorem cron_next_after_first_match_witness:
  "length (split_ws (strip ''30 8 * * 1'')) = 5
   \<and> (\<exists>k \<le> 366 * 1440. cron_next_after ''30 8 * * 1'' 0 utc_zone
        = Some (to_utc utc_zone (cron_minute utc_zone 0 k) False))"
proof -
  have l: "length (split_ws (strip ''30 8 * * 1'')) = 5" by code_simp
  let ?w = "4 * day_us + 510 * minute_us"
  have m: "cron_matches (split_ws (strip ''30 8 * * 1'')) ?w" by code_simp
  have i: "cron_minute utc_zone 0 6269 = ?w" by code_simp
  have "cron_next_after ''30 8 * * 1'' 0 utc_zone \<noteq> None"
  proof
    assume "cron_next_after ''30 8 * * 1'' 0 utc_zone = None"
    with cron_next_after_first_match [OF l, of utc_zone 0] m i
    show False by (auto dest: spec [of _ 6269])
  qed
  then obtain t where "cron_next_after ''30 8 * * 1'' 0 utc_zone = Some t" by blast
  with cron_next_after_first_match [OF l, of utc_zone 0] l show ?thesis by auto
qed

section \<open>Zones without transitions\<close>

lemma fixed_zone:
  "z_transitions z = [] \<Longrightarrow> to_local z t = (t + z_offset0 z, False)"
  "z_transitions z = [] \<Longrightarrow> to_utc z w fd = w - z_offset0 z"
  by (simp_all add: to_local_def to_utc_def)

lemma truncate_minute_next: "w < truncate_minute w + minute_us"
  unfolding truncate_minute_def
  using div_mult_mod_eq [of w minute_us] pos_mod_bound [OF minute_us_pos(1), of w] by linarith

lemma cron_next_future:
  assumes "z_transitions z = []" "cron_next_after e after z = Some t"
  shows "after < t"
proof -
  let ?l = "truncate_minute (fst (to_local z after)) + minute_us"
  from assms(2) obtain parts s w where "cron_loop parts ?l s = Some w" "t = to_utc z w False"
    by (auto simp: cron_next_after_def Let_def split: if_splits)
  with cron_loop_Some obtain k :: nat where "t = ?l + int k * minute_us - z_offset0 z"
    using fixed_zone(2) [OF assms(1)] by blast
  moreover have "after + z_offset0 z < ?l" using truncate_minute_next fixed_zone(1) [OF assms(1)] by simp
  moreover have "0 \<le> int k * minute_us" by (simp add: less_imp_le)
  ultimately show ?thesis by linarith
qed

text \<open>The candidate of a daily schedule is the next time the wall clock shows the target.\<close>

lemma replace_time_bounds:
  assumes "0 \<le> h" "h \<le> 23" "0 \<le> m" "m \<le> 59"
  shows "w < replace_time w h m + day_us" "replace_time w h m \<le> w + day_us"
    "replace_time w h m mod day_us = (h * 60 + m) * minute_us"
proof -
  have b: "0 \<le> (h * 60 + m) * minute_us" "(h * 60 + m) * minute_us < day_us"
    using assms by (simp_all add: minute_us_def day_us_def)
  have w: "w = w div day_us * day_us + w mod day_us" "0 \<le> w mod day_us" "w mod day_us < day_us"
    by simp_all
  from b w show "w < replace_time w h m + day_us" "replace_time w h m \<le> w + day_us"
    unfolding replace_time_def by linarith+
  from b show "replace_time w h m mod day_us = (h * 60 + m) * minute_us"
    unfolding replace_time_def by simp
qed

lemma parse_time_of_day_range:
  "0 \<le> fst (parse_time_of_day v)" "fst (parse_time_of_day v) \<le> 23"
  "0 \<le> snd (parse_time_of_day v)" "snd (parse_time_of_day v) \<le> 59"
  by (simp_all add: parse_time_of_day_def Let_def case_prod_beta)

text \<open>In every zone, a daily schedule picks the next time the wall clock shows the configured
  time of day: strictly after the current wall clock and at most 24 hours later.
\<close>

theorem daily_candidate_next_occurrence:
  "w < fst (daily_candidate (parse_time_of_day v) (w, fd))
   \<and> fst (daily_candidate (parse_time_of_day v) (w, fd)) \<le> w + day_us
   \<and> fst (daily_candidate (parse_time_of_day v) (w, fd)) mod day_us
     = (fst (parse_time_of_day v) * 60 + snd (parse_time_of_day v)) * minute_us"
  using replace_time_bounds [OF parse_time_of_day_range, of w v]
  by (auto simp: daily_candidate_def Let_def)

lemma daily_candidate_later: "w < fst (daily_candidate (parse_time_of_day v) (w, fd))"
  using replace_time_bounds [OF parse_time_of_day_range, of w v] by (auto simp: daily_candidate_def Let_def)

lemma future_fire:
  assumes "z_transitions (parse_timezone env tz) = []"
    and "compute_next_fire_at env trigger_type trigger_config tz now = Some t"
  shows "now < t"
proof -
  let ?z = "parse_timezone env tz"
  have daily: "now < to_utc ?z (fst (daily_candidate (parse_time_of_day v) (to_local ?z now))) fd" for v fd
    using daily_candidate_later [of "now + z_offset0 ?z" v False] by (simp add: fixed_zone [OF assms(1)])
  show ?thesis
    using assms(2) cron_next_future [OF assms(1)]
    by (auto simp: compute_next_fire_at_def Let_def seconds_def daily case_prod_beta split: if_splits option.splits)
qed

text \<open>In a zone without offset changes every fire time that the scheduler computes lies in the
  future, for interval, daily, one-shot and cron schedules.
\<close>

theorem next_fire_at_in_future:
  assumes "z_transitions (parse_timezone env tz) = []"
    and "compute_next_fire_at env trigger_type trigger_config tz now = Some t"
  shows "now < t"
  using assms by (rule future_fire)

definition example_clock :: clock_env where
  "example_clock = \<lparr>ce_zones = (\<lambda>name.
     if name = ''Europe/Berlin'' then
       Some \<lparr>z_offset0 = seconds 3600,
             z_transitions = [(seconds 1743296400, seconds 7200), (seconds 1761440400, seconds 3600)]\<rparr>
     else None), ce_fromisoformat = (\<lambda>_. None)\<rparr>"

theorem next_fire_at_in_future_witness:
  "compute_next_fire_at example_clock ''daily'' (Some [(''at'', PStr ''9:30'')]) ''UTC'' (seconds 86400)
     = Some (seconds (86400 + 34200)) \<and> seconds 86400 < seconds (86400 + 34200)"
proof -
  have z: "z_transitions (parse_timezone example_clock ''UTC'') = []" by code_simp
  have r: "compute_next_fire_at example_clock ''daily'' (Some [(''at'', PStr ''9:30'')]) ''UTC'' (seconds 86400)
     = Some (seconds (86400 + 34200))" by code_simp
  from next_fire_at_in_future [OF z r] r show ?thesis by blast
qed

text \<open>In the repeated hour of a zone that leaves summer time, the cron search returns a time in
  the past: at 02:10 after the change (01:10 UTC) an every-minute schedule in Europe/Berlin is
  next due at 00:11 UTC, almost an hour earlier, because adding a minute resets the fold.
\<close>

theorem cron_next_in_past_in_repeated_hour:
  "compute_next_fire_at example_clock ''cron'' (Some [(''expression'', PStr ''* * * * *'')]) ''Europe/Berlin''
       (seconds 1761441000) = Some (seconds 1761437460)
   \<and> seconds 1761437460 < seconds 1761441000"
  by code_simp

section \<open>Times of day\<close>

lemma split_on_none: "d \<notin> set s \<Longrightarrow> split_on d s = [s]"
  by (induction s) auto

lemma split_on_append: "d \<notin> set s \<Longrightarrow> split_on d (s @ d # t) = s # split_on d t"
  by (induction s) auto

lemma pad2_decimal: "0 \<le> i \<Longrightarrow> c \<in> set (pad2 i) \<Longrightarrow> is_decimal c"
  by (auto simp: pad2_def int_str_def nat_str_decimal is_decimal_def [of "CHR ''0''"] split: if_splits)

lemma pad2_not_Nil [simp]: "pad2 i \<noteq> []"
  by (simp add: pad2_def int_str_def)

lemma parse_int_pad2: "0 \<le> i \<Longrightarrow> i < 60 \<Longrightarrow> parse_int (pad2 i) = Some i"
proof (cases "i < 10")
  case True
  assume "0 \<le> i"
  with True have "i \<in> set [0..9]" by auto
  moreover have "list_all (\<lambda>i. parse_int (pad2 i) = Some i) [0..9]" by code_simp
  ultimately show ?thesis by (simp only: list_all_iff)
qed (simp add: pad2_def)

lemma decimal_not_special: "is_decimal c \<Longrightarrow> c \<noteq> CHR '':'' \<and> \<not> is_space c"
  by (auto simp: is_decimal_def is_space_def Let_def)

lemma strip_time:
  assumes "0 \<le> h" "0 \<le> m"
  shows "strip (pad2 h @ '':'' @ pad2 m) = pad2 h @ '':'' @ pad2 m"
proof -
  let ?s = "pad2 h @ '':'' @ pad2 m"
  have "hd ?s \<in> set (pad2 h)" "last ?s \<in> set (pad2 m)" by simp_all
  then have "\<not> is_space (hd ?s)" "\<not> is_space (last ?s)"
    using pad2_decimal assms decimal_not_special by blast+
  then show ?thesis by (intro strip_by_id) simp_all
qed

lemma parse_time_of_day_pad2:
  assumes "0 \<le> h" "h \<le> 23" "0 \<le> m" "m \<le> 59"
  shows "parse_time_of_day (pad2 h @ '':'' @ pad2 m) = (h, m)"
proof -
  let ?s = "pad2 h @ '':'' @ pad2 m"
  have nc: "CHR '':'' \<notin> set (pad2 h)" "CHR '':'' \<notin> set (pad2 m)"
    using pad2_decimal assms decimal_not_special by blast+
  then have sp: "split_on (CHR '':'') ?s = [pad2 h, pad2 m]"
    by (simp add: split_on_append split_on_none)
  have "strip ?s = ?s" using strip_time assms by blast
  with sp assms show ?thesis
    by (simp add: parse_time_of_day_def or_str_def parse_int_pad2)
qed



text \<open>The stored form of a daily trigger is canonical: normalising it again, with any fallback
  and default, gives it back, and its time of day reads back as a valid hour and minute.
\<close>

theorem normalize_daily_trigger_config_idempotent:
  "normalize_daily_trigger_config (Some (normalize_daily_trigger_config c f d)) f' d'
     = normalize_daily_trigger_config c f d"
proof -
  define v where "v = (case time_of_day_value c of
                     Some s \<Rightarrow> PStr s
                   | None \<Rightarrow> (case time_of_day_value f of Some s \<Rightarrow> PStr s | None \<Rightarrow> PNone))"
  define hm where "hm = parse_time_of_day (if given v then py_str v else d)"
  let ?s = "pad2 (fst hm) @ '':'' @ pad2 (snd hm)"
  have b: "0 \<le> fst hm" "fst hm \<le> 23" "0 \<le> snd hm" "snd hm \<le> 59"
    unfolding hm_def by (rule parse_time_of_day_range)+
  have n: "normalize_daily_trigger_config c f d = [(''type'', PStr ''daily''), (''time_of_day'', PStr ?s)]"
    by (simp add: normalize_daily_trigger_config_def v_def [symmetric] canonical_time_of_day_def hm_def [symmetric]
        case_prod_beta)
  have "time_of_day_value (Some (normalize_daily_trigger_config c f d)) = Some ?s"
    unfolding n by (simp add: time_of_day_value_def dict_or_def dget_def given_def strip_time [OF b(1,3), simplified])
  then have "normalize_daily_trigger_config (Some (normalize_daily_trigger_config c f d)) f' d'
      = [(''type'', PStr ''daily''), (''time_of_day'', PStr ?s)]"
    using parse_time_of_day_pad2 [OF b]
    by (simp add: normalize_daily_trigger_config_def [of "Some _"] canonical_time_of_day_def given_def case_prod_beta)
  then show ?thesis by (simp only: n)
qed

end
