(* ===== verification/Scheduler.thy ===== *)
theory Scheduler
  imports Schedule_Time "HOL-Library.List_Lexorder" "HOL-Library.Char_ord" "HOL-Library.Product_Lexorder"
begin

text \<open>
  Scheduled jobs: the tables of \<^verbatim>\<open>core/db/models/scheduler.py\<close>, the repositories of
  \<^verbatim>\<open>core/db/repositories/scheduler.py\<close> and the service of
  \<^verbatim>\<open>core/services/scheduler_service.py\<close>.

  The database is the list of rows of each table in insertion order, with the unique constraints
  of the tables checked on insertion. A service call is one transaction: it returns \<open>Inl\<close> of the
  exception and leaves no change, or \<open>Inr\<close> of its result and the new database. \<open>utcnow()\<close> and
  the identifiers drawn with \<open>uuid4\<close> are arguments; text columns are ordered by code point. The
  audit columns \<open>created_at\<close> and \<open>updated_at\<close> are left out.
\<close>

section \<open>Tables\<close>

record scheduled_job =
  sj_id :: nat
  sj_job_id :: string
  sj_workspace_id :: "nat option"
  sj_kind :: string
  sj_singleton_key :: "string option"
  sj_name :: string
  sj_enabled :: bool
  sj_deletable :: bool
  sj_editable_fields :: "string list"
  sj_trigger_type :: string
  sj_trigger_config :: pydict
  sj_timezone :: string
  sj_action_ref :: string
  sj_run_template :: pydict
  sj_execution_policy :: pydict
  sj_delivery_policy :: pydict
  sj_concurrency_policy :: pydict
  sj_misfire_policy :: pydict
  sj_next_fire_at :: "instant option"
  sj_last_fire_at :: "instant option"
  sj_lease_owner :: string
  sj_lease_until_at :: "instant option"
  sj_meta :: pydict

record scheduled_job_run =
  jr_id :: nat
  jr_job_run_id :: string
  jr_job_id :: nat
  jr_run_id :: "nat option"
  jr_scheduled_at :: instant
  jr_started_at :: "instant option"
  jr_finished_at :: "instant option"
  jr_status :: string
  jr_error :: pydict
  jr_meta :: pydict

type_synonym jobs = "scheduled_job list"

section \<open>Repository\<close>

definition get_by_job_id :: "string \<Rightarrow> jobs \<Rightarrow> scheduled_job option" where
  "get_by_job_id job_id db = tbl_get sj_job_id job_id db"

definition create_job_row :: "scheduled_job \<Rightarrow> jobs \<Rightarrow> pyerr + scheduled_job \<times> jobs" where
  "create_job_row row db =
     (if list_ex (\<lambda>r. sj_job_id r = sj_job_id row \<or> sj_id r = sj_id row) db
       \<or> (sj_singleton_key row \<noteq> None \<and> list_ex (\<lambda>r. sj_singleton_key r = sj_singleton_key row) db)
      then Inl (IntegrityError ''scheduled_jobs'')
      else Inr (row, db @ [row]))"

definition heartbeat_editable :: "string list" where
  "heartbeat_editable = [''enabled'', ''trigger_config.interval_seconds'']"

definition interval_config :: "int \<Rightarrow> pydict" where
  "interval_config n = [(''type'', PStr ''interval''), (''interval_seconds'', PInt n)]"

definition heartbeat_row :: "nat \<Rightarrow> int \<Rightarrow> scheduled_job" where
  "heartbeat_row new_id interval_seconds =
     \<lparr>sj_id = new_id, sj_job_id = ''system.heartbeat'', sj_workspace_id = None, sj_kind = ''system_heartbeat'',
      sj_singleton_key = Some ''core.system.heartbeat'', sj_name = ''System heartbeat'', sj_enabled = True,
      sj_deletable = False, sj_editable_fields = heartbeat_editable, sj_trigger_type = ''interval'',
      sj_trigger_config = interval_config (if interval_seconds = 0 then 600 else interval_seconds),
      sj_timezone = ''UTC'', sj_action_ref = ''core.workflow.heartbeat'',
      sj_run_template = [(''trigger_type'', PStr ''system_heartbeat''), (''origin_actor_id'', PStr ''system.heartbeat'')],
      sj_execution_policy = [(''limits'', PDict [(''max_runtime_seconds'', PInt 120)])],
      sj_delivery_policy = [(''targets'', PList [PDict [(''endpoint_id'', PStr ''core.inbox''), (''required'', PBool True)]])],
      sj_concurrency_policy = [(''mode'', PStr ''skip_if_running'')], sj_misfire_policy = [(''mode'', PStr ''run_once'')],
      sj_next_fire_at = None, sj_last_fire_at = None, sj_lease_owner = [], sj_lease_until_at = None, sj_meta = []\<rparr>"

definition heartbeat_repair :: "int \<Rightarrow> scheduled_job \<Rightarrow> scheduled_job" where
  "heartbeat_repair interval_seconds row =
     row\<lparr>sj_kind := ''system_heartbeat'', sj_singleton_key := Some ''core.system.heartbeat'', sj_deletable := False,
         sj_editable_fields := heartbeat_editable, sj_action_ref := ''core.workflow.heartbeat'',
         sj_trigger_config := (if sj_trigger_config row = []
           then interval_config (if interval_seconds = 0 then 600 else interval_seconds) else sj_trigger_config row)\<rparr>"

definition ensure_heartbeat_row :: "nat \<Rightarrow> int \<Rightarrow> jobs \<Rightarrow> pyerr + scheduled_job \<times> jobs" where
  "ensure_heartbeat_row new_id interval_seconds db =
     (case get_by_job_id ''system.heartbeat'' db of
        None \<Rightarrow> create_job_row (heartbeat_row new_id interval_seconds) db
      | Some row \<Rightarrow>
          if list_ex (\<lambda>r. sj_job_id r \<noteq> ''system.heartbeat'' \<and> sj_singleton_key r = Some ''core.system.heartbeat'') db
          then Inl (IntegrityError ''scheduled_jobs'')
          else Inr (heartbeat_repair interval_seconds row,
                    tbl_upd sj_job_id ''system.heartbeat'' (heartbeat_repair interval_seconds) db))"

definition normalized_limit :: "int \<Rightarrow> nat" where
  "normalized_limit limit = nat (max 1 (if limit = 0 then 50 else limit))"

definition list_all_jobs :: "jobs \<Rightarrow> jobs" where
  "list_all_jobs db = sort_key sj_job_id db"

definition due_key :: "scheduled_job \<Rightarrow> instant \<times> string" where
  "due_key r = (the (sj_next_fire_at r), sj_job_id r)"

definition is_due :: "instant \<Rightarrow> scheduled_job \<Rightarrow> bool" where
  "is_due now r \<longleftrightarrow> sj_enabled r \<and> (case sj_next_fire_at r of Some t \<Rightarrow> t \<le> now | None \<Rightarrow> False)"

definition list_due :: "instant \<Rightarrow> int \<Rightarrow> jobs \<Rightarrow> jobs" where
  "list_due now limit db = take (normalized_limit limit) (sort_key due_key (filter (is_due now) db))"

definition list_missing_next_fire_at :: "int \<Rightarrow> jobs \<Rightarrow> jobs" where
  "list_missing_next_fire_at limit db =
     take (normalized_limit limit) (sort_key sj_job_id (filter (\<lambda>r. sj_enabled r \<and> sj_next_fire_at r = None) db))"

definition next_fire_at :: "jobs \<Rightarrow> instant option" where
  "next_fire_at db =
     (case sort_key due_key (filter (\<lambda>r. sj_enabled r \<and> sj_next_fire_at r \<noteq> None) db) of
        [] \<Rightarrow> None | r # _ \<Rightarrow> sj_next_fire_at r)"

record job_updates =
  ju_name :: "string option"
  ju_enabled :: "bool option"
  ju_trigger_type :: "string option"
  ju_trigger_config :: "pydict option"
  ju_timezone :: "string option"
  ju_action_ref :: "string option"
  ju_run_template :: "pydict option"
  ju_execution_policy :: "pydict option"
  ju_delivery_policy :: "pydict option"
  ju_concurrency_policy :: "pydict option"
  ju_misfire_policy :: "pydict option"
  ju_metadata :: "pydict option"
  ju_next_fire_at :: "instant option"
  ju_last_fire_at :: "instant option"
  ju_lease_owner :: "string option"
  ju_lease_until_at :: "instant option"

definition no_updates :: job_updates where
  "no_updates = \<lparr>ju_name = None, ju_enabled = None, ju_trigger_type = None, ju_trigger_config = None,
     ju_timezone = None, ju_action_ref = None, ju_run_template = None, ju_execution_policy = None,
     ju_delivery_policy = None, ju_concurrency_policy = None, ju_misfire_policy = None, ju_metadata = None,
     ju_next_fire_at = None, ju_last_fire_at = None, ju_lease_owner = None, ju_lease_until_at = None\<rparr>"

definition upd_or :: "'a option \<Rightarrow> 'a \<Rightarrow> 'a" where
  "upd_or x old = (case x of Some v \<Rightarrow> v | None \<Rightarrow> old)"

text \<open>The fields of a job that an update of a system job may not name.\<close>

definition disallowed_system_update :: "job_updates \<Rightarrow> bool" where
  "disallowed_system_update u \<longleftrightarrow>
     ju_name u \<noteq> None \<or> ju_trigger_type u \<noteq> None \<or> ju_timezone u \<noteq> None \<or> ju_action_ref u \<noteq> None
   \<or> ju_run_template u \<noteq> None \<or> ju_execution_policy u \<noteq> None \<or> ju_delivery_policy u \<noteq> None
   \<or> ju_concurrency_policy u \<noteq> None \<or> ju_misfire_policy u \<noteq> None \<or> ju_metadata u \<noteq> None"

definition system_trigger_config :: "pydict \<Rightarrow> pyerr + pydict" where
  "system_trigger_config requested =
     (if list_ex (\<lambda>k. k \<noteq> ''type'' \<and> k \<noteq> ''interval_seconds'') (map fst requested)
       \<or> or_str (strip (str_or (dget requested ''type'') ''interval'')) ''interval'' \<noteq> ''interval''
       \<or> \<not> dhas requested ''interval_seconds''
      then Inl (ValueError ''system.heartbeat trigger_config may only set interval_seconds.'')
      else rbind (py_int (py_or (dget requested ''interval_seconds'') (PInt 0))) (\<lambda>n.
        if n \<le> 0 then Inl (ValueError ''system.heartbeat interval_seconds must be positive.'')
        else Inr (interval_config n)))"

definition update_system_row :: "job_updates \<Rightarrow> scheduled_job \<Rightarrow> pyerr + scheduled_job" where
  "update_system_row u row =
     (if disallowed_system_update u
      then Inl (ValueError ''system.heartbeat only allows enabled and interval_seconds updates.'')
      else let row1 = row\<lparr>sj_enabled := upd_or (ju_enabled u) (sj_enabled row)\<rparr> in
           case ju_trigger_config u of
             None \<Rightarrow> Inr row1
           | Some requested \<Rightarrow> rbind (system_trigger_config requested) (\<lambda>cfg. Inr (row1\<lparr>sj_trigger_config := cfg\<rparr>)))"

definition update_user_row :: "job_updates \<Rightarrow> scheduled_job \<Rightarrow> scheduled_job" where
  "update_user_row u row =
     row\<lparr>sj_name := upd_or (ju_name u) (sj_name row),
         sj_enabled := upd_or (ju_enabled u) (sj_enabled row),
         sj_trigger_type := (case ju_trigger_type u of Some t \<Rightarrow> or_str t (sj_trigger_type row) | None \<Rightarrow> sj_trigger_type row),
         sj_trigger_config := upd_or (ju_trigger_config u) (sj_trigger_config row),
         sj_timezone := upd_or (ju_timezone u) (sj_timezone row),
         sj_action_ref := upd_or (ju_action_ref u) (sj_action_ref row),
         sj_run_template := upd_or (ju_run_template u) (sj_run_template row),
         sj_execution_policy := upd_or (ju_execution_policy u) (sj_execution_policy row),
         sj_delivery_policy := upd_or (ju_delivery_policy u) (sj_delivery_policy row),
         sj_concurrency_policy := upd_or (ju_concurrency_policy u) (sj_concurrency_policy row),
         sj_misfire_policy := upd_or (ju_misfire_policy u) (sj_misfire_policy row),
         sj_meta := upd_or (ju_metadata u) (sj_meta row),
         sj_next_fire_at := (case ju_next_fire_at u of Some t \<Rightarrow> Some t | None \<Rightarrow> sj_next_fire_at row),
         sj_last_fire_at := (case ju_last_fire_at u of Some t \<Rightarrow> Some t | None \<Rightarrow> sj_last_fire_at row),
         sj_lease_owner := upd_or (ju_lease_owner u) (sj_lease_owner row),
         sj_lease_until_at := (case ju_lease_until_at u of Some t \<Rightarrow> Some t | None \<Rightarrow> sj_lease_until_at row)\<rparr>"

definition update_row :: "job_updates \<Rightarrow> scheduled_job \<Rightarrow> pyerr + scheduled_job" where
  "update_row u row = (if \<not> sj_deletable row then update_system_row u row else Inr (update_user_row u row))"

text \<open>The row after the update: unchanged where the update raises, in which case the
  transaction does not commit.\<close>

definition updated_row :: "job_updates \<Rightarrow> scheduled_job \<Rightarrow> scheduled_job" where
  "updated_row u row = (case update_row u row of Inr row' \<Rightarrow> row' | Inl _ \<Rightarrow> row)"

definition repo_update :: "string \<Rightarrow> job_updates \<Rightarrow> jobs \<Rightarrow> pyerr + scheduled_job option \<times> jobs" where
  "repo_update job_id u db =
     (case get_by_job_id job_id db of
        None \<Rightarrow> Inr (None, db)
      | Some row \<Rightarrow> rbind (update_row u row) (\<lambda>row'. Inr (Some row', tbl_upd sj_job_id job_id (updated_row u) db)))"

text \<open>The repository methods that look a job up, change it and return it.\<close>

definition change_job :: "string \<Rightarrow> (scheduled_job \<Rightarrow> scheduled_job) \<Rightarrow> jobs \<Rightarrow> scheduled_job option \<times> jobs" where
  "change_job job_id f db = (map_option f (get_by_job_id job_id db), tbl_upd sj_job_id job_id f db)"

definition set_enabled :: "string \<Rightarrow> bool \<Rightarrow> jobs \<Rightarrow> scheduled_job option \<times> jobs" where
  "set_enabled job_id enabled = change_job job_id (\<lambda>row. row\<lparr>sj_enabled := enabled\<rparr>)"

definition interval_row :: "int \<Rightarrow> scheduled_job \<Rightarrow> scheduled_job" where
  "interval_row n row =
     row\<lparr>sj_trigger_config := dset ''interval_seconds'' (PInt n) (dset ''type'' (PStr ''interval'') (sj_trigger_config row))\<rparr>"

definition repo_update_interval :: "string \<Rightarrow> int \<Rightarrow> jobs \<Rightarrow> scheduled_job option \<times> jobs" where
  "repo_update_interval job_id n = change_job job_id (interval_row n)"

definition delete_job :: "string \<Rightarrow> jobs \<Rightarrow> pyerr + bool \<times> jobs" where
  "delete_job job_id db =
     (case get_by_job_id job_id db of
        None \<Rightarrow> Inr (False, db)
      | Some row \<Rightarrow>
          if \<not> sj_deletable row then Inl (ValueError (''scheduled job is not deletable: '' @ job_id))
          else Inr (True, filter (\<lambda>r. sj_job_id r \<noteq> job_id) db))"

definition set_next_fire_at :: "string \<Rightarrow> instant option \<Rightarrow> jobs \<Rightarrow> scheduled_job option \<times> jobs" where
  "set_next_fire_at job_id t = change_job job_id (\<lambda>row. row\<lparr>sj_next_fire_at := t\<rparr>)"

definition leased :: "instant \<Rightarrow> scheduled_job \<Rightarrow> bool" where
  "leased now row \<longleftrightarrow>
     (case sj_lease_until_at row of Some t \<Rightarrow> now < t | None \<Rightarrow> False) \<and> sj_lease_owner row \<noteq> []"

definition lease_row :: "instant \<Rightarrow> string \<Rightarrow> int \<Rightarrow> scheduled_job \<Rightarrow> scheduled_job" where
  "lease_row now owner lease_seconds row =
     row\<lparr>sj_lease_owner := owner,
         sj_lease_until_at := Some (now + seconds (max (if lease_seconds = 0 then 300 else lease_seconds) 1))\<rparr>"

definition acquire_due_lease ::
  "string \<Rightarrow> instant \<Rightarrow> string \<Rightarrow> int \<Rightarrow> jobs \<Rightarrow> scheduled_job option \<times> jobs" where
  "acquire_due_lease job_id now lease_owner lease_seconds db =
     (case get_by_job_id job_id db of
        None \<Rightarrow> (None, db)
      | Some row \<Rightarrow>
          if \<not> is_due now row \<or> leased now row then (None, db)
          else (Some (lease_row now lease_owner lease_seconds row),
                tbl_upd sj_job_id job_id (lease_row now lease_owner lease_seconds) db))"

definition fired_row :: "instant \<Rightarrow> instant option \<Rightarrow> scheduled_job \<Rightarrow> scheduled_job" where
  "fired_row fired_at nxt row =
     row\<lparr>sj_last_fire_at := Some fired_at, sj_next_fire_at := nxt, sj_lease_owner := [], sj_lease_until_at := None\<rparr>"

definition repo_mark_fired :: "string \<Rightarrow> instant \<Rightarrow> instant option \<Rightarrow> jobs \<Rightarrow> scheduled_job option \<times> jobs" where
  "repo_mark_fired job_id fired_at nxt = change_job job_id (fired_row fired_at nxt)"

definition release_row :: "scheduled_job \<Rightarrow> scheduled_job" where
  "release_row row = row\<lparr>sj_lease_owner := [], sj_lease_until_at := None\<rparr>"

definition release_lease :: "string \<Rightarrow> jobs \<Rightarrow> scheduled_job option \<times> jobs" where
  "release_lease job_id = change_job job_id release_row"

text \<open>Runs of a job.\<close>

definition create_job_run ::
  "nat \<Rightarrow> string \<Rightarrow> nat \<Rightarrow> instant \<Rightarrow> nat option \<Rightarrow> string \<Rightarrow> pydict \<Rightarrow> scheduled_job_run list
   \<Rightarrow> pyerr + scheduled_job_run \<times> scheduled_job_run list" where
  "create_job_run new_id job_run_id job_id scheduled_at run_id status metadata runs =
     (if list_ex (\<lambda>r. jr_id r = new_id \<or> jr_job_run_id r = job_run_id) runs then Inl (IntegrityError ''scheduled_job_runs'')
      else let row = \<lparr>jr_id = new_id, jr_job_run_id = job_run_id, jr_job_id = job_id, jr_run_id = run_id,
                      jr_scheduled_at = scheduled_at, jr_started_at = None, jr_finished_at = None,
                      jr_status = status, jr_error = [], jr_meta = metadata\<rparr>
           in Inr (row, runs @ [row]))"

definition run_status_row ::
  "instant \<Rightarrow> string \<Rightarrow> pydict option \<Rightarrow> pydict \<Rightarrow> scheduled_job_run \<Rightarrow> scheduled_job_run" where
  "run_status_row now status error metadata row =
     (let st = or_str status (jr_status row) in
      row\<lparr>jr_status := st,
          jr_started_at := (if st = ''running'' \<and> jr_started_at row = None then Some now else jr_started_at row),
          jr_finished_at := (if st \<in> {''succeeded'', ''failed'', ''cancelled''} then Some now else jr_finished_at row),
          jr_error := (case error of Some e \<Rightarrow> e | None \<Rightarrow> jr_error row),
          jr_meta := dmerge (jr_meta row) metadata\<rparr>)"

text \<open>The run is looked up by its primary key first (\<open>ref\<close>, when the argument is one) and by
  \<open>job_run_id\<close> (the text of the argument) otherwise.\<close>

definition find_job_run :: "nat option \<Rightarrow> string \<Rightarrow> scheduled_job_run list \<Rightarrow> scheduled_job_run option" where
  "find_job_run ref text runs =
     (case (case ref of Some i \<Rightarrow> tbl_get jr_id i runs | None \<Rightarrow> None) of
        Some row \<Rightarrow> Some row | None \<Rightarrow> tbl_get jr_job_run_id text runs)"

definition update_run_status ::
  "instant \<Rightarrow> nat option \<Rightarrow> string \<Rightarrow> string \<Rightarrow> pydict option \<Rightarrow> pydict \<Rightarrow> scheduled_job_run list
   \<Rightarrow> scheduled_job_run option \<times> scheduled_job_run list" where
  "update_run_status now ref text status error metadata runs =
     (case find_job_run ref text runs of
        None \<Rightarrow> (None, runs)
      | Some row \<Rightarrow> (Some (run_status_row now status error metadata row),
                    tbl_upd jr_id (jr_id row) (run_status_row now status error metadata) runs))"

section \<open>Service\<close>

definition normalize_trigger_config :: "string \<Rightarrow> pydict option \<Rightarrow> pydict option \<Rightarrow> pydict" where
  "normalize_trigger_config trigger_type trigger_config fallback_config =
     (let config = dict_or trigger_config;
          kind = lower (strip (if trigger_type \<noteq> [] then trigger_type else str_or (dget config ''type'') []))
      in if kind = ''daily'' then normalize_daily_trigger_config (Some config) fallback_config ''08:00'' else config)"

definition job_editable_fields :: "string list" where
  "job_editable_fields = [''name'', ''enabled'', ''trigger_config'', ''timezone'', ''action_ref'', ''run_template'',
     ''execution_policy'', ''delivery_policy'', ''concurrency_policy'', ''misfire_policy'', ''metadata'']"

text \<open>\<open>request\<close> carries the arguments that are stored as they are.\<close>

definition create_job ::
  "clock_env \<Rightarrow> instant \<Rightarrow> nat \<Rightarrow> string \<Rightarrow> string \<Rightarrow> string \<Rightarrow> scheduled_job \<Rightarrow> jobs
   \<Rightarrow> pyerr + scheduled_job \<times> jobs" where
  "create_job env now new_id uuid job_id trigger_type request db =
     (let tt = or_str (strip (or_str trigger_type ''interval'')) ''interval'';
          cfg = normalize_trigger_config tt (Some (sj_trigger_config request)) None
      in create_job_row (request\<lparr>sj_id := new_id, sj_job_id := or_str job_id (''job_'' @ uuid), sj_deletable := True,
           sj_editable_fields := job_editable_fields, sj_trigger_type := tt, sj_trigger_config := cfg,
           sj_next_fire_at := compute_next_fire_at env tt (Some cfg) (sj_timezone request) now,
           sj_last_fire_at := None, sj_lease_owner := [], sj_lease_until_at := None\<rparr>) db)"

definition refresh_row :: "clock_env \<Rightarrow> instant \<Rightarrow> scheduled_job \<Rightarrow> scheduled_job" where
  "refresh_row env now row =
     row\<lparr>sj_next_fire_at := compute_next_fire_at env (sj_trigger_type row) (Some (sj_trigger_config row)) (sj_timezone row) now\<rparr>"

definition ensure_missing_next_fire_times :: "clock_env \<Rightarrow> instant \<Rightarrow> int \<Rightarrow> jobs \<Rightarrow> nat \<times> jobs" where
  "ensure_missing_next_fire_times env now limit db =
     (let rows = list_missing_next_fire_at limit db
      in (length rows, fold (\<lambda>row. tbl_upd sj_job_id (sj_job_id row) (refresh_row env now)) rows db))"

definition refresh_missing :: "clock_env \<Rightarrow> instant \<Rightarrow> scheduled_job \<Rightarrow> scheduled_job" where
  "refresh_missing env now row = (if sj_next_fire_at row = None then refresh_row env now row else row)"

definition ensure_system_heartbeat ::
  "clock_env \<Rightarrow> instant \<Rightarrow> nat \<Rightarrow> int \<Rightarrow> jobs \<Rightarrow> pyerr + scheduled_job \<times> jobs" where
  "ensure_system_heartbeat env now new_id interval_seconds db =
     rbind (ensure_heartbeat_row new_id interval_seconds db) (\<lambda>(row, db1).
       Inr (refresh_missing env now row, tbl_upd sj_job_id (sj_job_id row) (refresh_missing env now) db1))"

definition update_interval :: "clock_env \<Rightarrow> instant \<Rightarrow> string \<Rightarrow> int \<Rightarrow> jobs \<Rightarrow> pyerr + scheduled_job option \<times> jobs" where
  "update_interval env now job_id n db =
     (if n \<le> 0 then Inl (ValueError ''interval_seconds must be positive'')
      else Inr (change_job job_id (\<lambda>row. refresh_row env now (interval_row n row)) db))"

text \<open>\<open>update_job\<close>; \<open>passed\<close> are the names of the keyword arguments of the call, whose values
  are in \<open>updates\<close> (an argument passed as None is in \<open>passed\<close> only).\<close>

definition update_job ::
  "clock_env \<Rightarrow> instant \<Rightarrow> string \<Rightarrow> string list \<Rightarrow> job_updates \<Rightarrow> jobs \<Rightarrow> pyerr + scheduled_job option \<times> jobs" where
  "update_job env now job_id passed updates db =
     (let should_recompute = list_ex (\<lambda>k. k \<in> set passed) [''trigger_type'', ''trigger_config'', ''timezone''] in
      case get_by_job_id job_id db of
        None \<Rightarrow> Inr (None, db)
      | Some row \<Rightarrow>
         (let ntt = strip (or_str (case ju_trigger_type updates of Some t \<Rightarrow> t | None \<Rightarrow> []) (sj_trigger_type row));
              cfg = normalize_trigger_config ntt
                      (if ''trigger_config'' \<in> set passed then ju_trigger_config updates else Some (sj_trigger_config row))
                      (Some (sj_trigger_config row));
              updates1 = (if ''trigger_type'' \<in> set passed \<or> ''trigger_config'' \<in> set passed
                          then updates\<lparr>ju_trigger_config := Some cfg\<rparr> else updates)
          in rbind (repo_update job_id updates1 db) (\<lambda>(_, db1).
               Inr (change_job job_id (\<lambda>r. if should_recompute then refresh_row env now r else r) db1))))"

definition ensure_next_fire_at :: "clock_env \<Rightarrow> instant \<Rightarrow> string \<Rightarrow> jobs \<Rightarrow> scheduled_job option \<times> jobs" where
  "ensure_next_fire_at env now job_id = change_job job_id (refresh_missing env now)"

definition mark_fired :: "clock_env \<Rightarrow> instant \<Rightarrow> string \<Rightarrow> jobs \<Rightarrow> scheduled_job option \<times> jobs" where
  "mark_fired env fired job_id db =
     (case get_by_job_id job_id db of
        None \<Rightarrow> (None, db)
      | Some row \<Rightarrow> repo_mark_fired job_id fired
          (compute_next_fire_at env (sj_trigger_type row) (Some (sj_trigger_config row)) (sj_timezone row) fired) db)"

section \<open>Row updates\<close>

definition heartbeat_guard :: "scheduled_job \<Rightarrow> bool" where
  "heartbeat_guard r \<longleftrightarrow> \<not> sj_deletable r \<and> sj_trigger_type r = ''interval''
     \<and> (\<exists>n>0. dget (sj_trigger_config r) ''interval_seconds'' = PInt n)"

lemma system_trigger_config_Inr:
  "system_trigger_config req = Inr cfg \<Longrightarrow> \<exists>n>0. cfg = interval_config n"
  by (auto simp: system_trigger_config_def rbind_def not_le split: if_splits sum.splits)

lemma interval_config_dget [simp]: "dget (interval_config n) ''interval_seconds'' = PInt n"
  by (simp add: interval_config_def dget_def)

lemma updated_row_job_id [simp]: "sj_job_id (updated_row u r) = sj_job_id r"
  by (auto simp: updated_row_def update_row_def update_system_row_def update_user_row_def rbind_def Let_def
      split: sum.split option.split)

lemma updated_row_guard: "heartbeat_guard r \<Longrightarrow> heartbeat_guard (updated_row u r)"
  by (auto simp: heartbeat_guard_def updated_row_def update_row_def update_system_row_def rbind_def Let_def
      dest: system_trigger_config_Inr split: sum.split option.split)

lemma heartbeat_repair_guard: "heartbeat_guard r \<Longrightarrow> heartbeat_guard (heartbeat_repair n r)"
  by (auto simp: heartbeat_guard_def heartbeat_repair_def dget_def)

interpretation enable: guarded_row_op sj_job_id "\<lambda>row. row\<lparr>sj_enabled := b\<rparr>" heartbeat_guard for b
  by unfold_locales (simp_all add: heartbeat_guard_def)

interpretation next_fire: guarded_row_op sj_job_id "\<lambda>row. row\<lparr>sj_next_fire_at := t\<rparr>" heartbeat_guard for t
  by unfold_locales (simp_all add: heartbeat_guard_def)

interpretation lease: guarded_row_op sj_job_id "lease_row now owner secs" heartbeat_guard for now owner secs
  by unfold_locales (simp_all add: heartbeat_guard_def lease_row_def)

interpretation fired: guarded_row_op sj_job_id "fired_row fired_at nxt" heartbeat_guard for fired_at nxt
  by unfold_locales (simp_all add: heartbeat_guard_def fired_row_def)

interpretation release: guarded_row_op sj_job_id release_row heartbeat_guard
  by unfold_locales (simp_all add: heartbeat_guard_def release_row_def)

interpretation refresh: guarded_row_op sj_job_id "refresh_row env now" heartbeat_guard for env now
  by unfold_locales (simp_all add: heartbeat_guard_def refresh_row_def)

interpretation missing: guarded_row_op sj_job_id "refresh_missing env now" heartbeat_guard for env now
  by unfold_locales (simp_all add: heartbeat_guard_def refresh_missing_def refresh_row_def)

interpretation repair: guarded_row_op sj_job_id "heartbeat_repair n" heartbeat_guard for n
  by unfold_locales (simp_all add: heartbeat_repair_guard, simp add: heartbeat_repair_def)

interpretation upd: guarded_row_op sj_job_id "updated_row u" heartbeat_guard for u
  by unfold_locales (simp_all add: updated_row_guard)

interpretation recompute:
  guarded_row_op sj_job_id "\<lambda>r. if b then refresh_row env now r else r" heartbeat_guard for b env now
  by unfold_locales (simp_all add: refresh.key_f refresh.guard_f)

text \<open>Setting the interval keeps the guard for a positive interval only.\<close>

lemma interval_guard:
  assumes "0 < n"
  shows "guarded_row_op sj_job_id (\<lambda>row. refresh_row env now (interval_row n row)) heartbeat_guard"
  by unfold_locales (use assms in \<open>auto simp: heartbeat_guard_def interval_row_def refresh_row_def\<close>)

section \<open>Reachable job tables\<close>

inductive jobs_step :: "clock_env \<Rightarrow> jobs \<Rightarrow> jobs \<Rightarrow> bool" for env where
  create: "create_job env now i uuid j tt req db = Inr (r, db') \<Longrightarrow> jobs_step env db db'"
| heartbeat: "ensure_system_heartbeat env now i n db = Inr (r, db') \<Longrightarrow> jobs_step env db db'"
| enable: "jobs_step env db (snd (set_enabled j b db))"
| interval: "update_interval env now j n db = Inr (r, db') \<Longrightarrow> jobs_step env db db'"
| update: "update_job env now j passed u db = Inr (r, db') \<Longrightarrow> jobs_step env db db'"
| delete: "delete_job j db = Inr (b, db') \<Longrightarrow> jobs_step env db db'"
| missing: "jobs_step env db (snd (ensure_missing_next_fire_times env now count db))"
| ensure: "jobs_step env db (snd (ensure_next_fire_at env now j db))"
| set_next: "jobs_step env db (snd (set_next_fire_at j t db))"
| acquire: "jobs_step env db (snd (acquire_due_lease j now own secs db))"
| fired: "jobs_step env db (snd (mark_fired env fat j db))"
| release: "jobs_step env db (snd (release_lease j db))"

abbreviation jobs_steps :: "clock_env \<Rightarrow> jobs \<Rightarrow> jobs \<Rightarrow> bool" where
  "jobs_steps env \<equiv> (jobs_step env)\<^sup>*\<^sup>*"

definition heartbeat_ok :: "jobs \<Rightarrow> bool" where
  "heartbeat_ok db \<longleftrightarrow> tbl_wf sj_job_id db
     \<and> (\<exists>r. get_by_job_id ''system.heartbeat'' db = Some r \<and> heartbeat_guard r)"

lemma heartbeat_ok_upd:
  assumes "guarded_row_op sj_job_id f heartbeat_guard" "heartbeat_ok db"
  shows "heartbeat_ok (tbl_upd sj_job_id j f db)"
  using assms(2) guarded_row_op.get_upd_guard [OF assms(1)]
    row_op.wf_upd [OF guarded_row_op.axioms(1) [OF assms(1)]]
  unfolding heartbeat_ok_def get_by_job_id_def by blast

lemma heartbeat_ok_append:
  "heartbeat_ok db \<Longrightarrow> sj_job_id r \<notin> sj_job_id ` set db \<Longrightarrow> heartbeat_ok (db @ [r])"
  by (auto simp: heartbeat_ok_def get_by_job_id_def tbl_get_append)

lemma create_job_row_Inr:
  "create_job_row r db = Inr (r', db') \<Longrightarrow> r' = r \<and> db' = db @ [r] \<and> sj_job_id r \<notin> sj_job_id ` set db"
  by (auto simp: create_job_row_def list_ex_iff split: if_splits)

lemma heartbeat_ok_fold:
  "(\<And>x. guarded_row_op sj_job_id (f x) heartbeat_guard) \<Longrightarrow> heartbeat_ok db
   \<Longrightarrow> heartbeat_ok (fold (\<lambda>x. tbl_upd sj_job_id (k x) (f x)) xs db)"
  by (induction xs arbitrary: db) (auto intro: heartbeat_ok_upd)

lemma heartbeat_ok_step: "jobs_step env db db' \<Longrightarrow> heartbeat_ok db \<Longrightarrow> heartbeat_ok db'"
proof (induction rule: jobs_step.induct)
  case (create now i uuid j tt req db r db')
  then show ?case
    by (auto simp: create_job_def Let_def dest!: create_job_row_Inr intro!: heartbeat_ok_append)
next
  case (heartbeat now i n db r db')
  then obtain r0 where "get_by_job_id ''system.heartbeat'' db = Some r0" by (auto simp: heartbeat_ok_def)
  with heartbeat have "db' = tbl_upd sj_job_id (sj_job_id (heartbeat_repair n r0)) (refresh_missing env now)
      (tbl_upd sj_job_id ''system.heartbeat'' (heartbeat_repair n) db)"
    by (auto simp: ensure_system_heartbeat_def ensure_heartbeat_row_def rbind_def split: if_splits)
  with heartbeat show ?case
    by (simp add: heartbeat_ok_upd missing.guarded_row_op_axioms repair.guarded_row_op_axioms)
next
  case (interval now j n db r db')
  then show ?case
    by (auto simp: update_interval_def change_job_def intro!: heartbeat_ok_upd interval_guard split: if_splits)
next
  case (update now j passed u db r db')
  then show ?case
    by (auto simp: update_job_def repo_update_def rbind_def change_job_def Let_def
        intro!: heartbeat_ok_upd recompute.guarded_row_op_axioms refresh.guarded_row_op_axioms
          recompute.guarded_row_op_axioms [of False, simplified] upd.guarded_row_op_axioms
        split: option.splits sum.splits if_splits)
next
  case (delete j db b db')
  have "get_by_job_id ''system.heartbeat'' (filter (\<lambda>r. sj_job_id r \<noteq> j) db) = get_by_job_id ''system.heartbeat'' db"
    if "j \<noteq> ''system.heartbeat''"
    using that by (induction db) (auto simp: get_by_job_id_def tbl_get_def)
  with delete show ?case
    by (cases "j = ''system.heartbeat''")
      (auto simp: delete_job_def heartbeat_ok_def heartbeat_guard_def distinct_map_filter split: option.splits if_splits)
next
  case (missing db now count)
  then show ?case
    using heartbeat_ok_fold [where f = "\<lambda>_. refresh_row env now"] refresh.guarded_row_op_axioms
    by (simp add: ensure_missing_next_fire_times_def Let_def)
next
  case (fired db fat j)
  then show ?case
    by (auto simp: mark_fired_def repo_mark_fired_def change_job_def
        intro!: heartbeat_ok_upd fired.guarded_row_op_axioms split: option.split)
next
  case (acquire db j now own secs)
  then show ?case
    by (auto simp: acquire_due_lease_def intro!: heartbeat_ok_upd lease.guarded_row_op_axioms split: option.split)
qed (auto simp: set_enabled_def ensure_next_fire_at_def set_next_fire_at_def release_lease_def change_job_def
    intro!: heartbeat_ok_upd enable.guarded_row_op_axioms missing.guarded_row_op_axioms
      next_fire.guarded_row_op_axioms release.guarded_row_op_axioms)

lemma heartbeat_ok_steps: "jobs_steps env db db' \<Longrightarrow> heartbeat_ok db \<Longrightarrow> heartbeat_ok db'"
  by (induction rule: rtranclp_induct) (auto intro: heartbeat_ok_step)

lemma heartbeat_ok_created:
  assumes "ensure_system_heartbeat env now i n db = Inr (r, db')" "0 < n" "tbl_wf sj_job_id db"
    and "''system.heartbeat'' \<notin> sj_job_id ` set db"
  shows "heartbeat_ok db'"
proof -
  have "get_by_job_id ''system.heartbeat'' db = None"
    using assms(4) by (simp add: get_by_job_id_def tbl_get_None)
  with assms(1) obtain r0 where r0: "r0 = heartbeat_row i n"
    "db' = tbl_upd sj_job_id (sj_job_id r0) (refresh_missing env now) (db @ [r0])"
    "sj_job_id r0 \<notin> sj_job_id ` set db"
    by (auto simp: ensure_system_heartbeat_def ensure_heartbeat_row_def rbind_def
        dest!: create_job_row_Inr split: sum.splits)
  have "heartbeat_guard r0" "sj_job_id r0 = ''system.heartbeat''"
    using assms(2) by (auto simp: r0(1) heartbeat_row_def heartbeat_guard_def)
  then have "heartbeat_ok (db @ [r0])"
    using assms(3,4) by (auto simp: heartbeat_ok_def get_by_job_id_def tbl_get_append tbl_get_None [THEN iffD2])
  then show ?thesis unfolding r0(2) by (rule heartbeat_ok_upd [OF missing.guarded_row_op_axioms])
qed

section \<open>The system heartbeat\<close>

lemma interval_next_fire:
  assumes "dget cfg ''interval_seconds'' = PInt n" "0 < n"
  shows "compute_next_fire_at env ''interval'' (Some cfg) tz now = Some (now + seconds n)"
proof -
  have "or_str (lower (strip ''interval'')) ''interval'' = ''interval''" by code_simp
  with assms show ?thesis by (simp add: compute_next_fire_at_def dict_or_def py_or_def)
qed

lemma fired_lookup:
  assumes "get_by_job_id j db = Some r"
  shows "get_by_job_id j (snd (mark_fired env t j db)) =
    Some (fired_row t (compute_next_fire_at env (sj_trigger_type r) (Some (sj_trigger_config r)) (sj_timezone r) t) r)"
    and "fst (mark_fired env t j db) = get_by_job_id j (snd (mark_fired env t j db))"
  using assms fired.get_upd_same
  by (simp_all add: mark_fired_def repo_mark_fired_def change_job_def get_by_job_id_def)

text \<open>
  (C22) The heartbeat cannot be lost: once \<open>ensure_system_heartbeat\<close> has created it with a
  positive interval, then after any sequence of scheduler operations the job still exists,
  deleting it raises ValueError, it is an interval job with a positive interval of \<open>k\<close> seconds,
  and firing it at any time schedules it \<open>k\<close> seconds later and frees its lease.
\<close>

theorem heartbeat_survives_every_operation:
  assumes "ensure_system_heartbeat env now i n db0 = Inr (r0, db1)" "0 < n"
    and "tbl_wf sj_job_id db0" "''system.heartbeat'' \<notin> sj_job_id ` set db0"
    and "jobs_steps env db1 db"
  shows "\<exists>r k. get_by_job_id ''system.heartbeat'' db = Some r \<and> sj_trigger_type r = ''interval''
    \<and> dget (sj_trigger_config r) ''interval_seconds'' = PInt k \<and> 0 < k
    \<and> delete_job ''system.heartbeat'' db = Inl (ValueError (''scheduled job is not deletable: '' @ ''system.heartbeat''))
    \<and> (\<forall>t. fst (mark_fired env t ''system.heartbeat'' db) = Some (fired_row t (Some (t + seconds k)) r))"
proof -
  have "heartbeat_ok db"
    using heartbeat_ok_created [OF assms(1-4)] heartbeat_ok_steps [OF assms(5)] by blast
  then obtain r k where r: "get_by_job_id ''system.heartbeat'' db = Some r" "\<not> sj_deletable r"
    "sj_trigger_type r = ''interval''" "dget (sj_trigger_config r) ''interval_seconds'' = PInt k" "0 < k"
    by (auto simp: heartbeat_ok_def heartbeat_guard_def)
  then have "fst (mark_fired env t ''system.heartbeat'' db) = Some (fired_row t (Some (t + seconds k)) r)" for t
    using fired_lookup [OF r(1)] by (simp add: interval_next_fire)
  with r show ?thesis by (simp add: delete_job_def)
qed

definition example_jobs :: jobs where
  "example_jobs = snd (projr (ensure_system_heartbeat example_clock 0 1 600 []))"

lemma example_jobs_eq:
  "ensure_system_heartbeat example_clock 0 1 600 [] =
     Inr (fst (projr (ensure_system_heartbeat example_clock 0 1 600 [])), example_jobs)"
  by code_simp

theorem heartbeat_survives_every_operation_witness:
  "\<exists>r k. get_by_job_id ''system.heartbeat'' (snd (set_enabled ''system.heartbeat'' False example_jobs)) = Some r
    \<and> dget (sj_trigger_config r) ''interval_seconds'' = PInt k \<and> 0 < k"
proof -
  have "jobs_steps example_clock example_jobs (snd (set_enabled ''system.heartbeat'' False example_jobs))"
    by (intro r_into_rtranclp jobs_step.enable)
  from heartbeat_survives_every_operation [OF example_jobs_eq _ _ _ this] show ?thesis by auto
qed

section \<open>Leases\<close>

text \<open>How long a lease lasts, and that a job is held under a lease.\<close>

definition lease_length :: "int \<Rightarrow> int" where
  "lease_length secs = seconds (max (if secs = 0 then 300 else secs) 1)"

definition held :: "string \<Rightarrow> string \<Rightarrow> instant \<Rightarrow> jobs \<Rightarrow> bool" where
  "held j own until db \<longleftrightarrow>
     (\<exists>r. get_by_job_id j db = Some r \<and> sj_lease_owner r = own \<and> sj_lease_until_at r = Some until)"

text \<open>
  The scheduler operations while a lease of the job \<open>j\<close> lasts, by whatever process: all of
  them, with any arguments, but for those that end a lease. Firing, releasing and deleting are of
  other jobs, and an update of \<open>j\<close> names no lease field.
\<close>

inductive lease_step :: "clock_env \<Rightarrow> string \<Rightarrow> instant \<Rightarrow> jobs \<Rightarrow> jobs \<Rightarrow> bool" for env j until where
  create: "create_job env now i uuid k tt req db = Inr (r, db') \<Longrightarrow> lease_step env j until db db'"
| heartbeat: "ensure_system_heartbeat env now i n db = Inr (r, db') \<Longrightarrow> lease_step env j until db db'"
| enable: "lease_step env j until db (snd (set_enabled k b db))"
| interval: "update_interval env now k n db = Inr (r, db') \<Longrightarrow> lease_step env j until db db'"
| update: "update_job env now k passed u db = Inr (r, db') \<Longrightarrow>
    k \<noteq> j \<or> ju_lease_owner u = None \<and> ju_lease_until_at u = None \<Longrightarrow> lease_step env j until db db'"
| delete: "delete_job k db = Inr (b, db') \<Longrightarrow> k \<noteq> j \<Longrightarrow> lease_step env j until db db'"
| missing: "lease_step env j until db (snd (ensure_missing_next_fire_times env now count db))"
| ensure: "lease_step env j until db (snd (ensure_next_fire_at env now k db))"
| set_next: "lease_step env j until db (snd (set_next_fire_at k t db))"
| acquire: "now < until \<Longrightarrow> lease_step env j until db (snd (acquire_due_lease k now own secs db))"
| fired: "k \<noteq> j \<Longrightarrow> lease_step env j until db (snd (mark_fired env fat k db))"
| release: "k \<noteq> j \<Longrightarrow> lease_step env j until db (snd (release_lease k db))"

lemma held_upd:
  assumes "held j own until db" and "\<And>r. sj_job_id (f r) = sj_job_id r"
    and "k = j \<Longrightarrow> (\<And>r. sj_lease_owner (f r) = sj_lease_owner r \<and> sj_lease_until_at (f r) = sj_lease_until_at r)"
  shows "held j own until (tbl_upd sj_job_id k f db)"
proof -
  have op: "row_op sj_job_id f" by unfold_locales (rule assms(2))
  show ?thesis
  proof (cases "k = j")
    case True
    then show ?thesis using assms(1,3) row_op.get_upd_same [OF op] by (fastforce simp: held_def get_by_job_id_def)
  next
    case False
    then show ?thesis using assms(1) row_op.get_upd_other [OF op] by (auto simp: held_def get_by_job_id_def)
  qed
qed

lemma held_append: "held j own until db \<Longrightarrow> held j own until (db @ [r])"
  by (auto simp: held_def get_by_job_id_def tbl_get_append)

lemma held_refresh [simp]:
  "sj_lease_owner (refresh_row env now r) = sj_lease_owner r"
  "sj_lease_until_at (refresh_row env now r) = sj_lease_until_at r"
  "sj_lease_owner (refresh_missing env now r) = sj_lease_owner r"
  "sj_lease_until_at (refresh_missing env now r) = sj_lease_until_at r"
  by (simp_all add: refresh_row_def refresh_missing_def)

lemma held_fold:
  "(\<And>x r. sj_job_id (f x r) = sj_job_id r \<and> sj_lease_owner (f x r) = sj_lease_owner r
      \<and> sj_lease_until_at (f x r) = sj_lease_until_at r) \<Longrightarrow> held j own until db
   \<Longrightarrow> held j own until (fold (\<lambda>x. tbl_upd sj_job_id (k x) (f x)) xs db)"
  by (induction xs arbitrary: db) (simp_all add: held_upd)

lemma updated_row_lease:
  assumes "ju_lease_owner u = None" "ju_lease_until_at u = None"
  shows "sj_lease_owner (updated_row u r) = sj_lease_owner r \<and> sj_lease_until_at (updated_row u r) = sj_lease_until_at r"
  using assms
  by (auto simp: updated_row_def update_row_def update_system_row_def update_user_row_def rbind_def Let_def upd_or_def
      split: sum.split option.split)

lemma held_change_job:
  assumes "held j own until db" and "\<And>r. sj_job_id (f r) = sj_job_id r"
    and "k = j \<Longrightarrow> (\<And>r. sj_lease_owner (f r) = sj_lease_owner r \<and> sj_lease_until_at (f r) = sj_lease_until_at r)"
  shows "held j own until (snd (change_job k f db))"
  using held_upd [OF assms] by (simp add: change_job_def)

lemma held_acquire:
  assumes "held j own until db" "now < until" "own \<noteq> []"
  shows "held j own until (snd (acquire_due_lease k now own' secs db))"
    and "acquire_due_lease j now own' secs db = (None, db)"
proof -
  show same: "acquire_due_lease j now own' secs db = (None, db)"
    using assms by (auto simp: held_def acquire_due_lease_def leased_def)
  show "held j own until (snd (acquire_due_lease k now own' secs db))"
  proof (cases "k = j")
    case True
    then show ?thesis using same assms(1) by simp
  next
    case False
    have "held j own until (tbl_upd sj_job_id k (lease_row now own' secs) db)"
      by (rule held_upd [OF assms(1)]) (use False in \<open>simp_all add: lease_row_def\<close>)
    then show ?thesis using assms(1) by (simp add: acquire_due_lease_def split: option.split)
  qed
qed

lemma held_update:
  assumes "update_job env now k passed u db = Inr (r, db')" "held j own until db"
    and "k \<noteq> j \<or> ju_lease_owner u = None \<and> ju_lease_until_at u = None"
  shows "held j own until db'"
proof (cases "get_by_job_id k db")
  case None
  then show ?thesis using assms(1,2) by (simp add: update_job_def)
next
  case (Some row)
  define u1 where "u1 = (if ''trigger_type'' \<in> set passed \<or> ''trigger_config'' \<in> set passed
    then u\<lparr>ju_trigger_config := Some (normalize_trigger_config
        (strip (or_str (case ju_trigger_type u of Some t \<Rightarrow> t | None \<Rightarrow> []) (sj_trigger_type row)))
        (if ''trigger_config'' \<in> set passed then ju_trigger_config u else Some (sj_trigger_config row))
        (Some (sj_trigger_config row)))\<rparr> else u)"
  define b where "b = list_ex (\<lambda>k. k \<in> set passed) [''trigger_type'', ''trigger_config'', ''timezone'']"
  have u1: "ju_lease_owner u1 = ju_lease_owner u" "ju_lease_until_at u1 = ju_lease_until_at u"
    by (simp_all add: u1_def)
  have db': "db' = snd (change_job k (\<lambda>r. if b then refresh_row env now r else r) (tbl_upd sj_job_id k (updated_row u1) db))"
    using assms(1)
    unfolding update_job_def Let_def Some option.case u1_def [symmetric] b_def [symmetric] repo_update_def rbind_def
    by (auto split: sum.splits)
  have "held j own until (tbl_upd sj_job_id k (updated_row u1) db)"
    by (rule held_upd [OF assms(2)]) (use assms(3) u1 updated_row_lease [of u1] in auto)
  then show ?thesis unfolding db' by (rule held_change_job) (simp_all add: refresh.key_f)
qed

lemma held_step: "lease_step env j until db db' \<Longrightarrow> held j own until db \<Longrightarrow> own \<noteq> [] \<Longrightarrow> held j own until db'"
proof (induction rule: lease_step.induct)
  case (create now i uuid k tt req db r db')
  then show ?case by (auto simp: create_job_def Let_def dest!: create_job_row_Inr intro: held_append)
next
  case (heartbeat now i n db r db')
  then obtain r0 db1 where db1: "ensure_heartbeat_row i n db = Inr (r0, db1)"
    "db' = tbl_upd sj_job_id (sj_job_id r0) (refresh_missing env now) db1"
    by (auto simp: ensure_system_heartbeat_def rbind_def split: sum.splits)
  have "held j own until (tbl_upd sj_job_id ''system.heartbeat'' (heartbeat_repair n) db)"
    by (rule held_upd [OF heartbeat(2)]) (simp_all add: heartbeat_repair_def)
  then have "held j own until db1"
    using db1(1) heartbeat(2) held_append
    by (auto simp: ensure_heartbeat_row_def dest!: create_job_row_Inr split: option.splits if_splits)
  then show ?case unfolding db1(2) by (rule held_upd) (simp_all add: missing.key_f)
next
  case (interval now k n db r db')
  have "db' = snd (change_job k (\<lambda>row. refresh_row env now (interval_row n row)) db)"
    using interval(1) by (auto simp: update_interval_def split: if_splits)
  then show ?case using held_change_job [OF interval(2)] by (simp add: interval_row_def refresh.key_f)
next
  case (update now k passed u db r db')
  show ?case by (rule held_update [OF update(1,3,2)])
next
  case (delete k db b db')
  have "get_by_job_id j (filter (\<lambda>r. sj_job_id r \<noteq> k) db) = get_by_job_id j db"
    using delete(2) by (induction db) (auto simp: get_by_job_id_def tbl_get_def)
  with delete show ?case by (auto simp: delete_job_def held_def split: option.splits if_splits)
next
  case (missing db now count)
  then show ?case by (simp add: ensure_missing_next_fire_times_def Let_def held_fold refresh.key_f)
next
  case (acquire now db k own' secs)
  then show ?case by (intro held_acquire(1))
next
  case (fired k db fat)
  show ?case unfolding mark_fired_def repo_mark_fired_def
    by (cases "get_by_job_id k db") (use fired in \<open>auto simp: fired.key_f intro: held_change_job\<close>)
qed (auto simp: set_enabled_def ensure_next_fire_at_def set_next_fire_at_def release_lease_def missing.key_f release.key_f
    intro!: held_change_job)

lemma held_steps:
  "(lease_step env j until)\<^sup>*\<^sup>* db db' \<Longrightarrow> held j own until db \<Longrightarrow> own \<noteq> [] \<Longrightarrow> held j own until db'"
  by (induction rule: rtranclp_induct) (auto intro: held_step)

text \<open>
  (C7) Leases are exclusive: once a job has been leased at the time \<open>t\<close> by an owner with a
  non-empty name, every later attempt to lease it, by anyone and before the lease ends, is
  refused and changes nothing, whatever scheduler operations run in between, attempts to lease
  included, as long as none of them fires, releases or deletes this job or updates its lease
  fields; the lease itself stays what it was.
\<close>

theorem lease_is_exclusive:
  assumes "acquire_due_lease j t own secs db = (Some r, db0)" "own \<noteq> []"
    and "(lease_step env j (t + lease_length secs))\<^sup>*\<^sup>* db0 db1" "now < t + lease_length secs"
  shows "acquire_due_lease j now own' secs' db1 = (None, db1)
    \<and> (\<exists>r1. get_by_job_id j db1 = Some r1 \<and> sj_lease_owner r1 = own
         \<and> sj_lease_until_at r1 = Some (t + lease_length secs))"
proof -
  have "held j own (t + lease_length secs) db0"
    using assms(1)
    by (auto simp: acquire_due_lease_def held_def get_by_job_id_def lease.get_upd_same lease_row_def lease_length_def
        split: option.splits if_splits)
  from held_steps [OF assms(3) this assms(2)] have held: "held j own (t + lease_length secs) db1" .
  then show ?thesis using held_acquire(2) [OF held assms(4,2)] by (simp add: held_def)
qed

theorem lease_is_exclusive_witness:
  "fst (acquire_due_lease ''system.heartbeat'' (seconds 700) ''b'' 300
     (snd (set_enabled ''system.heartbeat'' True
       (snd (acquire_due_lease ''system.heartbeat'' (seconds 600) ''a'' 300 example_jobs))))) = None
   \<and> fst (acquire_due_lease ''system.heartbeat'' (seconds 600) ''a'' 300 example_jobs) \<noteq> None"
proof -
  let ?db0 = "snd (acquire_due_lease ''system.heartbeat'' (seconds 600) ''a'' 300 example_jobs)"
  let ?db1 = "snd (set_enabled ''system.heartbeat'' True ?db0)"
  have got: "fst (acquire_due_lease ''system.heartbeat'' (seconds 600) ''a'' 300 example_jobs) \<noteq> None" by code_simp
  then obtain r where r: "acquire_due_lease ''system.heartbeat'' (seconds 600) ''a'' 300 example_jobs = (Some r, ?db0)"
    by (metis not_None_eq prod.collapse)
  have "(lease_step example_clock ''system.heartbeat'' (seconds 600 + lease_length 300))\<^sup>*\<^sup>* ?db0 ?db1"
    by (rule r_into_rtranclp) (rule lease_step.enable)
  from lease_is_exclusive [OF r _ this, of "seconds 700" "''b''" 300]
  have "fst (acquire_due_lease ''system.heartbeat'' (seconds 700) ''b'' 300 ?db1) = None"
    by (simp add: seconds_def lease_length_def)
  with got show ?thesis by blast
qed

section \<open>Due jobs\<close>

text \<open>The due list is right: it holds due jobs only, in the order of their fire times (ties by
  job id), as many as the limit allows, and a due job that is left out for the limit is not
  earlier than any job listed.
\<close>

theorem list_due_sound_complete:
  "list_all (is_due now) (list_due now limit db)
   \<and> sorted (map due_key (list_due now limit db))
   \<and> length (list_due now limit db) = min (normalized_limit limit) (length (filter (is_due now) db))
   \<and> (\<forall>r \<in> set db. is_due now r \<longrightarrow> r \<notin> set (list_due now limit db) \<longrightarrow>
        (\<forall>q \<in> set (list_due now limit db). due_key q \<le> due_key r))"
proof -
  let ?s = "sort_key due_key (filter (is_due now) db)"
  have s: "sorted (map due_key ?s)" "set ?s = set (filter (is_due now) db)" by simp_all
  have "due_key q \<le> due_key r" if "r \<in> set ?s" "r \<notin> set (take k ?s)" "q \<in> set (take k ?s)" for r q k
  proof -
    have "r \<in> set (drop k ?s)" using that(1,2) by (metis Un_iff append_take_drop_id set_append)
    moreover have "sorted (map due_key (take k ?s) @ map due_key (drop k ?s))"
      using s(1) by (metis append_take_drop_id map_append)
    ultimately show ?thesis using that(3) by (auto simp: sorted_append)
  qed
  moreover have "list_all (is_due now) (take k ?s)" for k
    using s(2) set_take_subset [of k ?s] by (auto simp: list_all_iff)
  moreover have "sorted (map due_key (take k ?s))" for k
    using sorted_wrt_take [OF s(1), of k] by (simp only: take_map)
  ultimately show ?thesis by (auto simp: list_due_def)
qed

theorem list_due_sound_complete_witness:
  "map sj_job_id (list_due (seconds 600) 1 example_jobs) = [''system.heartbeat'']
   \<and> sorted (map due_key (list_due (seconds 600) 1 example_jobs))"
proof
  show "map sj_job_id (list_due (seconds 600) 1 example_jobs) = [''system.heartbeat'']" by code_simp
qed (use list_due_sound_complete in blast)

text \<open>Firing makes progress: in a zone without offset changes, a job that was fired at a time
  is no longer due at that time and its lease is free, so it is not picked up twice.
\<close>

theorem fired_job_not_due_again:
  assumes "get_by_job_id j db = Some r" "z_transitions (parse_timezone env (sj_timezone r)) = []"
  shows "\<exists>r'. fst (mark_fired env t j db) = Some r' \<and> get_by_job_id j (snd (mark_fired env t j db)) = Some r'
     \<and> \<not> is_due t r' \<and> \<not> leased t' r' \<and> sj_last_fire_at r' = Some t
     \<and> fst (acquire_due_lease j t own secs (snd (mark_fired env t j db))) = None"
proof -
  let ?n = "compute_next_fire_at env (sj_trigger_type r) (Some (sj_trigger_config r)) (sj_timezone r) t"
  have "t < u" if "?n = Some u" for u
    using that assms(2) by (rule future_fire [rotated])
  then have "\<not> is_due t (fired_row t ?n r)"
    by (auto simp: is_due_def fired_row_def split: option.split)
  then show ?thesis
    using fired_lookup [OF assms(1)]
    by (auto simp: acquire_due_lease_def leased_def fired_row_def split: option.split)
qed

theorem fired_job_not_due_again_witness:
  "\<exists>r'. fst (mark_fired example_clock (seconds 600) ''system.heartbeat'' example_jobs) = Some r'
     \<and> \<not> is_due (seconds 600) r'"
proof -
  have g: "get_by_job_id ''system.heartbeat'' example_jobs = Some (hd example_jobs)"
    and z: "z_transitions (parse_timezone example_clock (sj_timezone (hd example_jobs))) = []" by code_simp+
  from fired_job_not_due_again [OF g z] show ?thesis by blast
qed

text \<open>Changing the interval of a daily job changes nothing about when it fires: the call stores
  \<open>interval\<close> in the trigger configuration but the job stays daily, so the fire time it computes
  is the one of the old configuration, whatever the interval.
\<close>

theorem update_interval_ignored_for_daily_job:
  assumes "get_by_job_id j db = Some r" "sj_trigger_type r = ''daily''" "0 < n"
  shows "\<exists>r' db'. update_interval env now j n db = Inr (Some r', db')
     \<and> dget (sj_trigger_config r') ''type'' = PStr ''interval''
     \<and> sj_next_fire_at r' = sj_next_fire_at (refresh_row env now r)"
proof -
  have k: "or_str (lower (strip ''daily'')) ''interval'' = ''daily''" by code_simp
  have "time_of_day_value (Some (sj_trigger_config (interval_row n r))) = time_of_day_value (Some (sj_trigger_config r))"
    by (simp add: time_of_day_value_def dict_or_def interval_row_def dget_or_def Let_def)
  then show ?thesis
    using assms k by (simp add: update_interval_def change_job_def refresh_row_def compute_next_fire_at_def
        dict_or_def interval_row_def)
qed

definition example_daily_jobs :: jobs where
  "example_daily_jobs = [(heartbeat_row 1 600)\<lparr>sj_job_id := ''d'', sj_trigger_type := ''daily'',
     sj_trigger_config := [(''type'', PStr ''daily''), (''time_of_day'', PStr ''09:00'')]\<rparr>]"

theorem update_interval_ignored_for_daily_job_witness:
  "\<exists>r' db'. update_interval example_clock 0 ''d'' 60 example_daily_jobs = Inr (Some r', db')
     \<and> dget (sj_trigger_config r') ''type'' = PStr ''interval''"
proof -
  have g: "get_by_job_id ''d'' example_daily_jobs = Some (hd example_daily_jobs)"
    and d: "sj_trigger_type (hd example_daily_jobs) = ''daily''" by code_simp+
  from update_interval_ignored_for_daily_job [OF g d, of 60 example_clock 0] show ?thesis by auto
qed

end
