(* ===== verification/Endpoint_Store.thy ===== *)
theory Endpoint_Store
  imports Py_Base "HOL-Library.List_Lexorder" "HOL-Library.Char_ord" "HOL-Library.Product_Lexorder"
begin

text \<open>
  The endpoint tables (\<^verbatim>\<open>core/db/models/endpoint.py\<close>) and the repositories on them
  (\<^verbatim>\<open>core/db/repositories/endpoint.py\<close>, less the outbox and the delivery attempts, which
  are in \<open>Outbox\<close>): endpoints, connections, capabilities, workspace memberships of endpoints and
  of addresses, addresses, thread bindings and delivery preferences.

  A table is the list of its rows in the order of creation. Primary keys (UUIDs) are strings,
  drawn by the caller. \<open>now\<close> is \<open>utcnow()\<close> and \<open>now_iso\<close> its text. The sessions of
  \<^verbatim>\<open>core/db/engine.py\<close> do not flush before a query, so a query inside an operation sees the
  table as it was, while the objects it returns carry the changes made so far: \<open>mb_disable\<close>
  below shows this. The endpoint and the address memberships are two classes with the same
  methods; one set of definitions, with the owner's primary key in \<open>mb_owner\<close>, models both.
\<close>

type_synonym row_id = string

section \<open>Endpoints\<close>

record endpoint =
  ep_id :: row_id
  ep_endpoint_id :: string
  ep_endpoint_type :: string
  ep_provider_type :: string
  ep_transport_type :: string
  ep_owner_actor_id :: "row_id option"
  ep_workspace_scope :: "string list"
  ep_status :: string
  ep_labels :: "pyval list"
  ep_priority :: int
  ep_meta :: pydict

definition ep_clash :: "endpoint \<Rightarrow> endpoint \<Rightarrow> bool" where
  "ep_clash a b \<longleftrightarrow> ep_id a = ep_id b \<or> ep_endpoint_id a = ep_endpoint_id b"

definition get_by_endpoint_id :: "string \<Rightarrow> endpoint list \<Rightarrow> endpoint option" where
  "get_by_endpoint_id endpoint_id T = tbl_get ep_endpoint_id endpoint_id T"

definition get_endpoint_by_id :: "row_id \<Rightarrow> endpoint list \<Rightarrow> endpoint option" where
  "get_endpoint_by_id i T = tbl_get ep_id i T"

text \<open>\<open>request\<close> carries the arguments of \<open>upsert\<close>; \<open>metadata\<close> is None when it is not passed.\<close>

definition endpoint_upsert ::
  "row_id \<Rightarrow> endpoint \<Rightarrow> pydict option \<Rightarrow> endpoint list \<Rightarrow> pyerr + endpoint \<times> endpoint list" where
  "endpoint_upsert new_id request metadata T =
     (let prio = (if ep_priority request = 0 then 100 else ep_priority request) in
      case get_by_endpoint_id (ep_endpoint_id request) T of
        None \<Rightarrow> insert_row ep_clash ''endpoints''
          (request\<lparr>ep_id := new_id, ep_priority := prio, ep_meta := dict_or metadata\<rparr>) T
      | Some row \<Rightarrow> replace_row ep_id ep_clash ''endpoints'' row
          (row\<lparr>ep_endpoint_type := ep_endpoint_type request, ep_provider_type := ep_provider_type request,
               ep_transport_type := ep_transport_type request, ep_owner_actor_id := ep_owner_actor_id request,
               ep_workspace_scope := ep_workspace_scope request, ep_status := ep_status request,
               ep_labels := ep_labels request, ep_priority := prio,
               ep_meta := (case metadata of Some m \<Rightarrow> dmerge (ep_meta row) m | None \<Rightarrow> ep_meta row)\<rparr>) T)"

definition list_endpoints :: "endpoint list \<Rightarrow> endpoint list" where
  "list_endpoints T = sort_key ep_endpoint_id T"

definition endpoint_set_status :: "string \<Rightarrow> string \<Rightarrow> endpoint list \<Rightarrow> endpoint option \<times> endpoint list" where
  "endpoint_set_status endpoint_id status T =
     (map_option (\<lambda>row. row\<lparr>ep_status := status\<rparr>) (get_by_endpoint_id endpoint_id T),
      tbl_upd ep_endpoint_id endpoint_id (\<lambda>row. row\<lparr>ep_status := status\<rparr>) T)"

definition heartbeat_endpoint_row :: "string \<Rightarrow> string \<Rightarrow> pydict option \<Rightarrow> pydict option \<Rightarrow> endpoint \<Rightarrow> endpoint" where
  "heartbeat_endpoint_row now_iso status metrics payload row =
     (let st = or_str (strip status) (ep_status row);
          hb = PDict [(''status'', PStr st), (''metrics'', PDict (dict_or metrics)),
                      (''payload'', PDict (dict_or payload)), (''last_seen_at'', PStr now_iso)]
      in row\<lparr>ep_status := st,
             ep_meta := dset ''heartbeat_metrics'' (PDict (dict_or metrics)) (dset ''heartbeat'' hb (ep_meta row))\<rparr>)"

definition endpoint_update_heartbeat ::
  "string \<Rightarrow> string \<Rightarrow> string \<Rightarrow> pydict option \<Rightarrow> pydict option \<Rightarrow> endpoint list \<Rightarrow> endpoint option \<times> endpoint list" where
  "endpoint_update_heartbeat now_iso endpoint_id status metrics payload T =
     (map_option (heartbeat_endpoint_row now_iso status metrics payload) (get_by_endpoint_id endpoint_id T),
      tbl_upd ep_endpoint_id endpoint_id (heartbeat_endpoint_row now_iso status metrics payload) T)"

text \<open>\<open>latency\<close> is the floating-point update of the latency entries of the statistics (the
  identity when no latency is passed).\<close>

definition routing_stats :: "string \<Rightarrow> bool \<Rightarrow> (pydict \<Rightarrow> pydict) \<Rightarrow> pydict \<Rightarrow> pyerr + pydict" where
  "routing_stats now_iso success latency stats =
     rbind (py_int (py_or (dget stats ''success_count'') (PInt 0))) (\<lambda>s.
     rbind (py_int (py_or (dget stats ''failure_count'') (PInt 0))) (\<lambda>f.
       let stats1 = dset (if success then ''last_success_at'' else ''last_failure_at'') (PStr now_iso) stats
       in Inr (latency (dset ''failure_count'' (PInt (if success then f else f + 1))
                 (dset ''success_count'' (PInt (if success then s + 1 else s)) stats1)))))"

text \<open>\<open>dict(x or {})\<close>.\<close>

definition py_dict_or :: "pyval \<Rightarrow> pyerr + pydict" where
  "py_dict_or v = (case py_or v (PDict []) of
       PDict d \<Rightarrow> Inr d
     | PStr _ \<Rightarrow> Inl (ValueError ''dictionary update sequence'')
     | PList _ \<Rightarrow> Inl (ValueError ''dictionary update sequence'')
     | _ \<Rightarrow> Inl (TypeError ''object is not iterable''))"

definition record_routing_result ::
  "string \<Rightarrow> row_id \<Rightarrow> bool \<Rightarrow> (pydict \<Rightarrow> pydict) \<Rightarrow> endpoint list \<Rightarrow> pyerr + endpoint option \<times> endpoint list" where
  "record_routing_result now_iso row_id success latency T =
     (case get_endpoint_by_id row_id T of
        None \<Rightarrow> Inr (None, T)
      | Some row \<Rightarrow>
          rbind (py_dict_or (dget (ep_meta row) ''routing_stats'')) (\<lambda>stats0.
          rbind (routing_stats now_iso success latency stats0) (\<lambda>stats.
            let row' = row\<lparr>ep_meta := dset ''routing_stats'' (PDict stats) (ep_meta row)\<rparr>
            in Inr (Some row', tbl_upd ep_id row_id (\<lambda>_. row') T))))"

section \<open>Connections\<close>

record connection =
  cn_id :: row_id
  cn_connection_id :: string
  cn_endpoint_id :: row_id
  cn_transport :: string
  cn_protocol_version :: string
  cn_status :: string
  cn_last_seen_at :: "instant option"
  cn_remote_addr :: string
  cn_subscriptions :: "pyval list"
  cn_capability_snapshot :: pydict
  cn_meta :: pydict

definition cn_clash :: "connection \<Rightarrow> connection \<Rightarrow> bool" where
  "cn_clash a b \<longleftrightarrow> cn_id a = cn_id b \<or> cn_connection_id a = cn_connection_id b"

definition get_by_connection_id :: "string \<Rightarrow> connection list \<Rightarrow> connection option" where
  "get_by_connection_id connection_id T = tbl_get cn_connection_id connection_id T"

text \<open>The idiom \<open>list(x or old or [])\<close>.\<close>

definition or_list :: "'a list \<Rightarrow> 'a list \<Rightarrow> 'a list" where
  "or_list x old = (if x = [] then old else x)"

definition connection_upsert ::
  "instant \<Rightarrow> row_id \<Rightarrow> connection \<Rightarrow> connection list \<Rightarrow> pyerr + connection \<times> connection list" where
  "connection_upsert now new_id request T =
     (case get_by_connection_id (cn_connection_id request) T of
        None \<Rightarrow> insert_row cn_clash ''endpoint_connections'' (request\<lparr>cn_id := new_id, cn_last_seen_at := Some now\<rparr>) T
      | Some row \<Rightarrow> replace_row cn_id cn_clash ''endpoint_connections'' row
          (row\<lparr>cn_endpoint_id := cn_endpoint_id request, cn_transport := cn_transport request,
               cn_protocol_version := cn_protocol_version request, cn_status := cn_status request,
               cn_last_seen_at := Some now, cn_remote_addr := cn_remote_addr request,
               cn_subscriptions := or_list (cn_subscriptions request) (cn_subscriptions row),
               cn_capability_snapshot := or_list (cn_capability_snapshot request) (cn_capability_snapshot row),
               cn_meta := or_list (cn_meta request) (cn_meta row)\<rparr>) T)"

definition connection_update_heartbeat ::
  "instant \<Rightarrow> string \<Rightarrow> string \<Rightarrow> pydict option \<Rightarrow> connection list \<Rightarrow> connection option \<times> connection list" where
  "connection_update_heartbeat now connection_id status metadata T =
     (let f = (\<lambda>row. row\<lparr>cn_status := status, cn_last_seen_at := Some now,
                 cn_meta := (case metadata of Some m \<Rightarrow> dmerge (cn_meta row) m | None \<Rightarrow> cn_meta row)\<rparr>)
      in (map_option f (get_by_connection_id connection_id T), tbl_upd cn_connection_id connection_id f T))"

definition mark_disconnected :: "instant \<Rightarrow> string \<Rightarrow> connection list \<Rightarrow> connection option \<times> connection list" where
  "mark_disconnected now connection_id T =
     (let f = (\<lambda>row. row\<lparr>cn_status := ''disconnected'', cn_last_seen_at := Some now\<rparr>)
      in (map_option f (get_by_connection_id connection_id T), tbl_upd cn_connection_id connection_id f T))"

section \<open>Capabilities\<close>

record capability =
  cp_id :: row_id
  cp_capability_id :: string
  cp_endpoint_id :: row_id
  cp_tool_key :: string
  cp_schema :: pydict
  cp_risk_level :: string
  cp_requires_confirmation :: bool
  cp_enabled :: bool
  cp_constraints :: pydict
  cp_meta :: pydict

definition cp_clash :: "capability \<Rightarrow> capability \<Rightarrow> bool" where
  "cp_clash a b \<longleftrightarrow> cp_id a = cp_id b \<or> cp_capability_id a = cp_capability_id b
     \<or> (cp_endpoint_id a = cp_endpoint_id b \<and> cp_tool_key a = cp_tool_key b)"

definition get_capability :: "row_id \<Rightarrow> string \<Rightarrow> capability list \<Rightarrow> capability option" where
  "get_capability endpoint_id tool_key T = tbl_get (\<lambda>r. (cp_endpoint_id r, cp_tool_key r)) (endpoint_id, tool_key) T"

definition capability_upsert :: "row_id \<Rightarrow> capability \<Rightarrow> capability list \<Rightarrow> pyerr + capability \<times> capability list" where
  "capability_upsert new_id request T =
     (case get_capability (cp_endpoint_id request) (cp_tool_key request) T of
        None \<Rightarrow> insert_row cp_clash ''endpoint_capabilities'' (request\<lparr>cp_id := new_id\<rparr>) T
      | Some row \<Rightarrow> replace_row cp_id cp_clash ''endpoint_capabilities'' row
          (row\<lparr>cp_capability_id := cp_capability_id request, cp_schema := cp_schema request,
               cp_risk_level := cp_risk_level request, cp_requires_confirmation := cp_requires_confirmation request,
               cp_enabled := cp_enabled request, cp_constraints := cp_constraints request,
               cp_meta := or_list (cp_meta request) (cp_meta row)\<rparr>) T)"

definition get_by_capability_id :: "string \<Rightarrow> capability list \<Rightarrow> capability option" where
  "get_by_capability_id capability_id T = tbl_get cp_capability_id capability_id T"

definition list_capabilities_for_endpoint :: "row_id \<Rightarrow> capability list \<Rightarrow> capability list" where
  "list_capabilities_for_endpoint endpoint_id T = sort_key cp_tool_key (filter (\<lambda>r. cp_endpoint_id r = endpoint_id) T)"

definition list_enabled_for_tool :: "string \<Rightarrow> capability list \<Rightarrow> capability list" where
  "list_enabled_for_tool tool_key T = filter (\<lambda>r. cp_tool_key r = tool_key \<and> cp_enabled r) T"

definition capability_missing :: "string list \<Rightarrow> capability \<Rightarrow> bool" where
  "capability_missing active r \<longleftrightarrow> strip (cp_tool_key r) \<notin> set active \<and> cp_enabled r"

definition disable_missing_for_endpoint :: "row_id \<Rightarrow> string list \<Rightarrow> capability list \<Rightarrow> nat \<times> capability list" where
  "disable_missing_for_endpoint endpoint_id active T =
     (length (filter (capability_missing active) (list_capabilities_for_endpoint endpoint_id T)),
      map (\<lambda>r. if cp_endpoint_id r = endpoint_id \<and> capability_missing active r then r\<lparr>cp_enabled := False\<rparr> else r) T)"

section \<open>Workspace memberships\<close>

record membership =
  mb_id :: row_id
  mb_membership_id :: string
  mb_owner :: row_id
  mb_workspace_id :: row_id
  mb_membership_role :: string
  mb_is_primary :: bool
  mb_enabled :: bool
  mb_source :: string
  mb_meta :: pydict

definition mb_clash :: "membership \<Rightarrow> membership \<Rightarrow> bool" where
  "mb_clash a b \<longleftrightarrow> mb_id a = mb_id b \<or> mb_membership_id a = mb_membership_id b
     \<or> (mb_owner a = mb_owner b \<and> mb_workspace_id a = mb_workspace_id b)"

definition mb_get :: "row_id \<Rightarrow> row_id \<Rightarrow> membership list \<Rightarrow> membership option" where
  "mb_get own ws T = tbl_get (\<lambda>r. (mb_owner r, mb_workspace_id r)) (own, ws) T"

definition clear_other_primary :: "row_id \<Rightarrow> row_id \<Rightarrow> membership list \<Rightarrow> membership list" where
  "clear_other_primary own keep T =
     map (\<lambda>r. if mb_owner r = own \<and> mb_workspace_id r \<noteq> keep then r\<lparr>mb_is_primary := False\<rparr> else r) T"

text \<open>\<open>prefix\<close> is \<open>ewm\<close> for endpoints and \<open>eawm\<close> for addresses.\<close>

definition new_membership ::
  "string \<Rightarrow> row_id \<Rightarrow> row_id \<Rightarrow> row_id \<Rightarrow> string \<Rightarrow> string \<Rightarrow> bool \<Rightarrow> bool \<Rightarrow> string \<Rightarrow> pydict option \<Rightarrow> membership" where
  "new_membership prefix new_id own ws membership_id role is_primary enabled src metadata =
     \<lparr>mb_id = new_id, mb_membership_id = strip (or_str membership_id (prefix @ ''.'' @ own @ ''.'' @ ws)),
      mb_owner = own, mb_workspace_id = ws, mb_membership_role = or_str (strip (or_str role ''member'')) ''member'',
      mb_is_primary = is_primary, mb_enabled = enabled, mb_source = or_str (strip (or_str src ''core'')) ''core'',
      mb_meta = dict_or metadata\<rparr>"

definition updated_membership ::
  "string \<Rightarrow> bool \<Rightarrow> bool \<Rightarrow> string \<Rightarrow> pydict option \<Rightarrow> membership \<Rightarrow> membership" where
  "updated_membership role is_primary enabled src metadata row =
     row\<lparr>mb_membership_role := or_str (strip (or_str role (or_str (mb_membership_role row) ''member''))) ''member'',
         mb_enabled := enabled,
         mb_source := or_str (strip (or_str src (or_str (mb_source row) ''core''))) ''core'',
         mb_meta := (case metadata of Some m \<Rightarrow> dmerge (mb_meta row) m | None \<Rightarrow> mb_meta row),
         mb_is_primary := (is_primary \<or> mb_is_primary row)\<rparr>"

definition mb_upsert ::
  "string \<Rightarrow> row_id \<Rightarrow> row_id \<Rightarrow> row_id \<Rightarrow> string \<Rightarrow> string \<Rightarrow> bool \<Rightarrow> bool \<Rightarrow> string \<Rightarrow> pydict option
   \<Rightarrow> membership list \<Rightarrow> pyerr + membership \<times> membership list" where
  "mb_upsert prefix new_id own ws membership_id role is_primary enabled src metadata T =
     rbind (case mb_get own ws T of
              None \<Rightarrow> insert_row mb_clash ''workspace_memberships''
                (new_membership prefix new_id own ws membership_id role is_primary enabled src metadata) T
            | Some row \<Rightarrow> replace_row mb_id mb_clash ''workspace_memberships'' row
                (updated_membership role is_primary enabled src metadata row) T)
       (\<lambda>(row, T1). Inr (row, if is_primary then clear_other_primary own ws T1 else T1))"

text \<open>\<open>is_primary\<close> descending, then the order of creation.\<close>

definition list_for_owner :: "row_id \<Rightarrow> bool \<Rightarrow> membership list \<Rightarrow> membership list" where
  "list_for_owner own include_disabled T =
     sort_key (\<lambda>r. \<not> mb_is_primary r) (filter (\<lambda>r. mb_owner r = own \<and> (include_disabled \<or> mb_enabled r)) T)"

definition list_for_workspace :: "row_id \<Rightarrow> bool \<Rightarrow> membership list \<Rightarrow> membership list" where
  "list_for_workspace ws include_disabled T =
     filter (\<lambda>r. mb_workspace_id r = ws \<and> (include_disabled \<or> mb_enabled r)) T"

definition mb_set_primary :: "row_id \<Rightarrow> row_id \<Rightarrow> membership list \<Rightarrow> membership option \<times> membership list" where
  "mb_set_primary own ws T =
     (case mb_get own ws T of
        None \<Rightarrow> (None, T)
      | Some row \<Rightarrow>
         (let row' = row\<lparr>mb_enabled := True, mb_is_primary := True\<rparr>
          in (Some row', clear_other_primary own ws (tbl_upd mb_id (mb_id row) (\<lambda>_. row') T))))"

text \<open>
  \<open>_promote_first_enabled\<close>: the rows are selected and ordered by the table as it is in the
  database (\<open>stored\<close>), their attributes are those of the session (\<open>session\<close>), which holds
  changes that are not flushed yet.
\<close>

definition promote_first_enabled :: "row_id \<Rightarrow> membership list \<Rightarrow> membership list \<Rightarrow> membership list" where
  "promote_first_enabled own stored session =
     (let ids = map mb_id (list_for_owner own False stored)
      in case ids of
           [] \<Rightarrow> session
         | i # _ \<Rightarrow>
            if list_ex (\<lambda>r. mb_id r \<in> set ids \<and> mb_is_primary r) session then session
            else tbl_upd mb_id i (\<lambda>r. r\<lparr>mb_is_primary := True\<rparr>) session)"

definition mb_disable :: "row_id \<Rightarrow> row_id \<Rightarrow> membership list \<Rightarrow> bool \<times> membership list" where
  "mb_disable own ws T =
     (case mb_get own ws T of
        None \<Rightarrow> (False, T)
      | Some row \<Rightarrow>
          if \<not> mb_enabled row then (False, T)
          else (let T1 = tbl_upd mb_id (mb_id row) (\<lambda>r. r\<lparr>mb_enabled := False, mb_is_primary := False\<rparr>) T
                in (True, if mb_is_primary row then promote_first_enabled own T T1 else T1)))"

text \<open>The second class, for addresses.\<close>

definition address_membership_upsert ::
  "row_id \<Rightarrow> row_id \<Rightarrow> row_id \<Rightarrow> string \<Rightarrow> string \<Rightarrow> bool \<Rightarrow> bool \<Rightarrow> string \<Rightarrow> pydict option
   \<Rightarrow> membership list \<Rightarrow> pyerr + membership \<times> membership list" where
  "address_membership_upsert = mb_upsert ''eawm''"

definition endpoint_membership_upsert ::
  "row_id \<Rightarrow> row_id \<Rightarrow> row_id \<Rightarrow> string \<Rightarrow> string \<Rightarrow> bool \<Rightarrow> bool \<Rightarrow> string \<Rightarrow> pydict option
   \<Rightarrow> membership list \<Rightarrow> pyerr + membership \<times> membership list" where
  "endpoint_membership_upsert = mb_upsert ''ewm''"

definition address_membership_set_primary :: "row_id \<Rightarrow> row_id \<Rightarrow> membership list \<Rightarrow> membership option \<times> membership list" where
  "address_membership_set_primary = mb_set_primary"

definition address_membership_disable :: "row_id \<Rightarrow> row_id \<Rightarrow> membership list \<Rightarrow> bool \<times> membership list" where
  "address_membership_disable = mb_disable"

definition list_for_address :: "row_id \<Rightarrow> bool \<Rightarrow> membership list \<Rightarrow> membership list" where
  "list_for_address = list_for_owner"

section \<open>Addresses\<close>

record address =
  ad_id :: row_id
  ad_address_id :: string
  ad_endpoint_id :: row_id
  ad_provider_type :: string
  ad_address_type :: string
  ad_external_ref :: string
  ad_display_name :: string
  ad_workspace_scope :: "string list"
  ad_status :: string
  ad_capabilities :: "pyval list"
  ad_last_seen_at :: "instant option"
  ad_last_verified_at :: "instant option"
  ad_meta :: pydict

definition ad_clash :: "address \<Rightarrow> address \<Rightarrow> bool" where
  "ad_clash a b \<longleftrightarrow> ad_id a = ad_id b \<or> ad_address_id a = ad_address_id b
     \<or> (ad_endpoint_id a = ad_endpoint_id b \<and> ad_address_type a = ad_address_type b \<and> ad_external_ref a = ad_external_ref b)"

definition get_by_address_id :: "string \<Rightarrow> address list \<Rightarrow> address option" where
  "get_by_address_id address_id T = tbl_get ad_address_id (strip address_id) T"

definition get_address_by_id :: "row_id \<Rightarrow> address list \<Rightarrow> address option" where
  "get_address_by_id i T = tbl_get ad_id i T"

definition find_address :: "string \<Rightarrow> row_id \<Rightarrow> string \<Rightarrow> string \<Rightarrow> address list \<Rightarrow> address option" where
  "find_address address_id endpoint_id atype ref T =
     (let by_id = (if address_id \<noteq> [] then get_by_address_id address_id T else None) in
      case by_id of
        Some row \<Rightarrow> Some row
      | None \<Rightarrow> tbl_get (\<lambda>r. (ad_endpoint_id r, ad_address_type r, ad_external_ref r)) (endpoint_id, atype, ref) T)"

text \<open>\<open>request\<close> carries the arguments, the ones that are stripped still raw.\<close>

definition new_address :: "row_id \<Rightarrow> address \<Rightarrow> address" where
  "new_address new_id request =
     (let provider = strip (ad_provider_type request);
          atype = or_str (strip (or_str (ad_address_type request) ''direct'')) ''direct'';
          ref = strip (ad_external_ref request)
      in request\<lparr>ad_id := new_id,
           ad_address_id := or_str (strip (ad_address_id request)) (''addr.'' @ provider @ ''.'' @ atype @ ''.'' @ ref),
           ad_provider_type := provider, ad_address_type := atype, ad_external_ref := ref,
           ad_display_name := strip (ad_display_name request),
           ad_status := or_str (strip (or_str (ad_status request) ''unknown'')) ''unknown''\<rparr>)"

definition updated_address :: "address \<Rightarrow> address \<Rightarrow> address" where
  "updated_address request row =
     row\<lparr>ad_provider_type := strip (or_str (ad_provider_type request) (ad_provider_type row)),
         ad_address_type := or_str (strip (or_str (ad_address_type request) ''direct'')) ''direct'',
         ad_external_ref := or_str (strip (ad_external_ref request)) (ad_external_ref row),
         ad_display_name := strip (or_str (ad_display_name request) (ad_display_name row)),
         ad_workspace_scope := or_list (ad_workspace_scope request) (ad_workspace_scope row),
         ad_status := or_str (strip (or_str (ad_status request) (or_str (ad_status row) ''unknown''))) ''unknown'',
         ad_capabilities := or_list (ad_capabilities request) (ad_capabilities row),
         ad_last_seen_at := (case ad_last_seen_at request of Some t \<Rightarrow> Some t | None \<Rightarrow> ad_last_seen_at row),
         ad_last_verified_at := (case ad_last_verified_at request of Some t \<Rightarrow> Some t | None \<Rightarrow> ad_last_verified_at row),
         ad_meta := or_list (ad_meta request) (ad_meta row)\<rparr>"

definition address_upsert :: "row_id \<Rightarrow> address \<Rightarrow> address list \<Rightarrow> pyerr + address \<times> address list" where
  "address_upsert new_id request T =
     (case find_address (strip (ad_address_id request)) (ad_endpoint_id request)
             (or_str (strip (or_str (ad_address_type request) ''direct'')) ''direct'') (strip (ad_external_ref request)) T of
        None \<Rightarrow> insert_row ad_clash ''endpoint_addresses'' (new_address new_id request) T
      | Some row \<Rightarrow> replace_row ad_id ad_clash ''endpoint_addresses'' row (updated_address request row) T)"

text \<open>\<open>one_or_none\<close> on columns that are not unique.\<close>

definition get_by_endpoint_external_ref :: "row_id \<Rightarrow> string \<Rightarrow> address list \<Rightarrow> pyerr + address option" where
  "get_by_endpoint_external_ref endpoint_id external_ref T =
     (case filter (\<lambda>r. ad_endpoint_id r = endpoint_id \<and> ad_external_ref r = strip external_ref) T of
        [] \<Rightarrow> Inr None | [r] \<Rightarrow> Inr (Some r) | _ \<Rightarrow> Inl MultipleResultsFound)"

definition list_addresses :: "string \<Rightarrow> string \<Rightarrow> string \<Rightarrow> string \<Rightarrow> address list \<Rightarrow> address list" where
  "list_addresses provider_type address_type workspace_id status T =
     (let rows = sort_key (\<lambda>r. (ad_provider_type r, ad_display_name r))
            (filter (\<lambda>r. (provider_type = [] \<or> ad_provider_type r = provider_type)
               \<and> (address_type = [] \<or> ad_address_type r = address_type) \<and> (status = [] \<or> ad_status r = status)) T)
      in if workspace_id = [] then rows
         else filter (\<lambda>r. ad_workspace_scope r = [] \<or> workspace_id \<in> set (ad_workspace_scope r)
                \<or> ''*'' \<in> set (ad_workspace_scope r)) rows)"

definition address_delete :: "string \<Rightarrow> address list \<Rightarrow> bool \<times> address list" where
  "address_delete address_id T =
     (case get_by_address_id address_id T of
        None \<Rightarrow> (False, T)
      | Some row \<Rightarrow> (True, tbl_upd ad_id (ad_id row) (\<lambda>r. r\<lparr>ad_status := ''unavailable'', ad_capabilities := []\<rparr>) T))"

section \<open>Thread bindings and delivery preferences\<close>

record thread_binding =
  tb_id :: row_id
  tb_binding_id :: string
  tb_endpoint_id :: row_id
  tb_thread_id :: row_id
  tb_workspace_id :: row_id
  tb_address_id :: "row_id option"
  tb_thread_strategy :: string
  tb_conversation_key :: string
  tb_display_name :: string
  tb_status :: string
  tb_meta :: pydict

definition tb_clash :: "thread_binding \<Rightarrow> thread_binding \<Rightarrow> bool" where
  "tb_clash a b \<longleftrightarrow> tb_id a = tb_id b \<or> tb_binding_id a = tb_binding_id b
     \<or> (tb_endpoint_id a = tb_endpoint_id b \<and> tb_thread_strategy a = tb_thread_strategy b
        \<and> tb_conversation_key a = tb_conversation_key b)"

definition get_by_endpoint_strategy_key :: "row_id \<Rightarrow> string \<Rightarrow> string \<Rightarrow> thread_binding list \<Rightarrow> thread_binding option" where
  "get_by_endpoint_strategy_key endpoint_id strategy key T =
     tbl_get (\<lambda>r. (tb_endpoint_id r, tb_thread_strategy r, tb_conversation_key r)) (endpoint_id, strip strategy, strip key) T"

definition get_by_binding_id :: "string \<Rightarrow> thread_binding list \<Rightarrow> thread_binding option" where
  "get_by_binding_id binding_id T = tbl_get tb_binding_id (strip binding_id) T"

definition binding_upsert ::
  "row_id \<Rightarrow> thread_binding \<Rightarrow> thread_binding list \<Rightarrow> pyerr + thread_binding \<times> thread_binding list" where
  "binding_upsert new_id request T =
     (let strategy = strip (tb_thread_strategy request); key = strip (tb_conversation_key request) in
      case get_by_endpoint_strategy_key (tb_endpoint_id request) strategy key T of
        None \<Rightarrow> insert_row tb_clash ''endpoint_thread_bindings''
          (request\<lparr>tb_id := new_id,
             tb_binding_id := or_str (strip (tb_binding_id request)) (''etb.'' @ tb_endpoint_id request @ ''.'' @ strategy @ ''.'' @ key),
             tb_thread_strategy := strategy, tb_conversation_key := key,
             tb_display_name := strip (tb_display_name request),
             tb_status := or_str (strip (or_str (tb_status request) ''active'')) ''active''\<rparr>) T
      | Some row \<Rightarrow> replace_row tb_id tb_clash ''endpoint_thread_bindings'' row
          (row\<lparr>tb_thread_id := tb_thread_id request, tb_workspace_id := tb_workspace_id request,
               tb_address_id := tb_address_id request,
               tb_display_name := strip (or_str (tb_display_name request) (tb_display_name row)),
               tb_status := or_str (strip (or_str (tb_status request) (or_str (tb_status row) ''active''))) ''active'',
               tb_meta := or_list (tb_meta request) (tb_meta row)\<rparr>) T)"

record delivery_preference =
  dp_id :: row_id
  dp_preference_id :: string
  dp_actor_id :: row_id
  dp_provider_type :: string
  dp_address_id :: row_id
  dp_alias :: string
  dp_is_default :: bool
  dp_verified :: bool
  dp_meta :: pydict

definition dp_clash :: "delivery_preference \<Rightarrow> delivery_preference \<Rightarrow> bool" where
  "dp_clash a b \<longleftrightarrow> dp_id a = dp_id b \<or> dp_preference_id a = dp_preference_id b
     \<or> (dp_actor_id a = dp_actor_id b \<and> dp_provider_type a = dp_provider_type b \<and> dp_alias a = dp_alias b)"

definition preference_upsert ::
  "row_id \<Rightarrow> delivery_preference \<Rightarrow> delivery_preference list \<Rightarrow> pyerr + delivery_preference \<times> delivery_preference list" where
  "preference_upsert new_id request T =
     (let provider = strip (dp_provider_type request);
          alias = or_str (strip (or_str (dp_alias request) ''me'')) ''me''
      in case tbl_get (\<lambda>r. (dp_actor_id r, dp_provider_type r, dp_alias r)) (dp_actor_id request, provider, alias) T of
           None \<Rightarrow> insert_row dp_clash ''actor_delivery_preferences''
             (request\<lparr>dp_id := new_id,
                dp_preference_id := or_str (strip (dp_preference_id request))
                  (''pref.'' @ dp_actor_id request @ ''.'' @ provider @ ''.'' @ alias),
                dp_provider_type := provider, dp_alias := alias\<rparr>) T
         | Some row \<Rightarrow> replace_row dp_id dp_clash ''actor_delivery_preferences'' row
             (row\<lparr>dp_address_id := dp_address_id request, dp_is_default := dp_is_default request,
                  dp_verified := dp_verified request, dp_meta := or_list (dp_meta request) (dp_meta row)\<rparr>) T)"

definition list_for_actor :: "row_id \<Rightarrow> string \<Rightarrow> string \<Rightarrow> delivery_preference list \<Rightarrow> delivery_preference list" where
  "list_for_actor actor provider alias T =
     sort_key (\<lambda>r. (dp_provider_type r, dp_alias r))
       (filter (\<lambda>r. dp_actor_id r = actor \<and> (provider = [] \<or> dp_provider_type r = strip provider)
          \<and> (alias = [] \<or> dp_alias r = strip alias)) T)"

definition get_default :: "row_id \<Rightarrow> string \<Rightarrow> string \<Rightarrow> delivery_preference list \<Rightarrow> delivery_preference option" where
  "get_default actor provider alias T =
     (let rows = list_for_actor actor provider (or_str alias ''me'') T
      in case find dp_is_default rows of
           Some r \<Rightarrow> Some r
         | None \<Rightarrow> (case rows of [] \<Rightarrow> None | r # _ \<Rightarrow> Some r))"

section \<open>The tables keep their unique constraints\<close>

interpretation ep: unique_table ep_id ep_clash
  by unfold_locales (auto simp: ep_clash_def)

interpretation ep_public: unique_table ep_endpoint_id ep_clash
  by unfold_locales (auto simp: ep_clash_def)

interpretation cn: unique_table cn_id cn_clash
  by unfold_locales (auto simp: cn_clash_def)

interpretation cp: unique_table cp_id cp_clash
  by unfold_locales (auto simp: cp_clash_def)

interpretation cp_tool: unique_table "\<lambda>r. (cp_endpoint_id r, cp_tool_key r)" cp_clash
  by unfold_locales (auto simp: cp_clash_def)

interpretation mb: unique_table mb_id mb_clash
  by unfold_locales (auto simp: mb_clash_def)

interpretation mb_pair: unique_table "\<lambda>r. (mb_owner r, mb_workspace_id r)" mb_clash
  by unfold_locales (auto simp: mb_clash_def)

interpretation ad: unique_table ad_id ad_clash
  by unfold_locales (auto simp: ad_clash_def)

interpretation tb: unique_table tb_id tb_clash
  by unfold_locales (auto simp: tb_clash_def)

interpretation tb_key:
  unique_table "\<lambda>r. (tb_endpoint_id r, tb_thread_strategy r, tb_conversation_key r)" tb_clash
  by unfold_locales (auto simp: tb_clash_def)

interpretation dp: unique_table dp_id dp_clash
  by unfold_locales (auto simp: dp_clash_def)

lemma get_by_endpoint_idD: "get_by_endpoint_id e T = Some r \<Longrightarrow> r \<in> set T \<and> ep_endpoint_id r = e"
  unfolding get_by_endpoint_id_def by (rule tbl_get_Some)

text \<open>Registering an endpoint is an upsert: the row returned is what a lookup by the public id
  finds afterwards, it carries the type, provider, transport, scope and status registered, it
  keeps its primary key and the metadata entries that were not passed if the endpoint was known,
  every other endpoint is as before, and the unique constraints still hold.
\<close>

theorem endpoint_upsert_read_back:
  assumes "unique_rows ep_clash T" and "endpoint_upsert new_id req md T = Inr (r, T')"
  shows "unique_rows ep_clash T' \<and> get_by_endpoint_id (ep_endpoint_id req) T' = Some r
     \<and> ep_status r = ep_status req \<and> ep_provider_type r = ep_provider_type req
     \<and> ep_workspace_scope r = ep_workspace_scope req
     \<and> (case get_by_endpoint_id (ep_endpoint_id req) T of
          None \<Rightarrow> ep_id r = new_id \<and> ep_meta r = dict_or md
        | Some old \<Rightarrow> ep_id r = ep_id old \<and> ep_meta r = dmerge (ep_meta old) (dict_or md))
     \<and> (\<forall>e. e \<noteq> ep_endpoint_id req \<longrightarrow> get_by_endpoint_id e T' = get_by_endpoint_id e T)"
proof (cases "get_by_endpoint_id (ep_endpoint_id req) T")
  case None
  with assms(2) have ins: "insert_row ep_clash ''endpoints'' (req\<lparr>ep_id := new_id,
      ep_priority := (if ep_priority req = 0 then 100 else ep_priority req), ep_meta := dict_or md\<rparr>) T = Inr (r, T')"
    by (simp add: endpoint_upsert_def)
  from ep.insert_ok [OF ins assms(1)] ep_public.insert_ok [OF ins assms(1)] None show ?thesis
    by (auto simp: get_by_endpoint_id_def tbl_get_append split: option.split)
next
  case (Some old)
  have old: "old \<in> set T" "ep_endpoint_id old = ep_endpoint_id req" using get_by_endpoint_idD [OF Some] by simp_all
  from Some assms(2) obtain new where rep: "replace_row ep_id ep_clash ''endpoints'' old new T = Inr (r, T')"
    and new: "ep_id new = ep_id old" "ep_endpoint_id new = ep_endpoint_id old" "ep_status new = ep_status req"
      "ep_provider_type new = ep_provider_type req" "ep_workspace_scope new = ep_workspace_scope req"
      "ep_meta new = dmerge (ep_meta old) (dict_or md)"
    by (auto simp: endpoint_upsert_def Let_def dict_or_def split: option.splits)
  have R: "unique_rows ep_clash T'" "r = new" "set T' = insert new {x \<in> set T. ep_id x \<noteq> ep_id old}"
    using ep.replace_ok [OF rep assms(1) new(1)] old by auto
  have T': "T' = tbl_upd ep_id (ep_id old) (\<lambda>_. new) T"
    using rep by (auto simp: replace_row_def split: if_splits)
  have "get_by_endpoint_id (ep_endpoint_id req) T' = Some r"
    using ep_public.get_mem [OF R(1), of new] R(2,3) new(2) old by (simp add: get_by_endpoint_id_def)
  moreover have "get_by_endpoint_id e T' = get_by_endpoint_id e T" if "e \<noteq> ep_endpoint_id req" for e
  proof -
    have "ep_endpoint_id x = ep_endpoint_id req" if "x \<in> set T" "ep_id x = ep_id old" for x
      using ep.unique_eq [OF assms(1) that(1), of old] old that(2) by (auto simp: ep_clash_def)
    then show ?thesis unfolding T' get_by_endpoint_id_def
      using \<open>e \<noteq> _\<close> new(2) old(2) by (intro tbl_get_upd_alt) auto
  qed
  ultimately show ?thesis using R(1,2) new Some by simp
qed

definition example_endpoint :: endpoint where
  "example_endpoint = \<lparr>ep_id = [], ep_endpoint_id = ''desk'', ep_endpoint_type = ''desktop'', ep_provider_type = ''desktop'',
     ep_transport_type = ''websocket'', ep_owner_actor_id = None, ep_workspace_scope = [''personal''], ep_status = ''active'',
     ep_labels = [], ep_priority = 0, ep_meta = []\<rparr>"

theorem endpoint_upsert_read_back_witness:
  "\<exists>T'. endpoint_upsert ''u1'' example_endpoint None [] = Inr (example_endpoint\<lparr>ep_id := ''u1'', ep_priority := 100\<rparr>, T')
     \<and> get_by_endpoint_id ''desk'' T' = Some (example_endpoint\<lparr>ep_id := ''u1'', ep_priority := 100\<rparr>)"
proof -
  have u: "unique_rows ep_clash []" by simp
  have e: "endpoint_upsert ''u1'' example_endpoint None [] =
      Inr (example_endpoint\<lparr>ep_id := ''u1'', ep_priority := 100\<rparr>, [example_endpoint\<lparr>ep_id := ''u1'', ep_priority := 100\<rparr>])"
    by code_simp
  have d: "ep_endpoint_id example_endpoint = ''desk''" by code_simp
  from endpoint_upsert_read_back [OF u e] e d show ?thesis by auto
qed

section \<open>Primary memberships\<close>

definition single_primary :: "membership list \<Rightarrow> bool" where
  "single_primary T \<longleftrightarrow> (\<forall>a \<in> set T. \<forall>b \<in> set T.
     mb_owner a = mb_owner b \<longrightarrow> mb_is_primary a \<longrightarrow> mb_is_primary b \<longrightarrow> mb_id a = mb_id b)"

definition mb_ok :: "membership list \<Rightarrow> bool" where
  "mb_ok T \<longleftrightarrow> unique_rows mb_clash T \<and> single_primary T"

inductive mb_step :: "membership list \<Rightarrow> membership list \<Rightarrow> bool" where
  upsert: "mb_upsert prefix i own ws mid role prim en src md T = Inr (r, T') \<Longrightarrow> mb_step T T'"
| set_primary: "mb_step T (snd (mb_set_primary own ws T))"
| disable: "mb_step T (snd (mb_disable own ws T))"

inductive mb_reachable :: "membership list \<Rightarrow> bool" where
  empty: "mb_reachable []"
| step: "mb_reachable T \<Longrightarrow> mb_step T T' \<Longrightarrow> mb_reachable T'"

lemma mb_getD: "mb_get own ws T = Some r \<Longrightarrow> r \<in> set T \<and> mb_owner r = own \<and> mb_workspace_id r = ws"
  unfolding mb_get_def by (drule tbl_get_Some) simp

lemma unique_clear: "unique_rows mb_clash T \<Longrightarrow> unique_rows mb_clash (clear_other_primary own ws T)"
  unfolding clear_other_primary_def by (rule mb.unique_map) (auto simp: mb_clash_def split: if_splits)

lemma clear_memE:
  assumes "r \<in> set (clear_other_primary own ws T)"
  obtains r0 where "r0 \<in> set T" "mb_id r = mb_id r0" "mb_owner r = mb_owner r0" "mb_workspace_id r = mb_workspace_id r0"
    "mb_is_primary r \<longleftrightarrow> mb_is_primary r0 \<and> (mb_owner r0 = own \<longrightarrow> mb_workspace_id r0 = ws)"
  using assms that unfolding clear_other_primary_def by (auto split: if_splits)

text \<open>Clearing the other primaries restores the invariant for the owner, provided it holds for
  the other owners.\<close>

lemma single_primary_clear:
  assumes u: "unique_rows mb_clash T"
    and o: "\<And>a b. a \<in> set T \<Longrightarrow> b \<in> set T \<Longrightarrow> mb_owner a = mb_owner b \<Longrightarrow> mb_owner a \<noteq> own \<Longrightarrow>
       mb_is_primary a \<Longrightarrow> mb_is_primary b \<Longrightarrow> mb_id a = mb_id b"
  shows "single_primary (clear_other_primary own ws T)"
  unfolding single_primary_def
proof (intro ballI impI)
  fix a b
  assume ab: "a \<in> set (clear_other_primary own ws T)" "b \<in> set (clear_other_primary own ws T)"
    "mb_owner a = mb_owner b" "mb_is_primary a" "mb_is_primary b"
  obtain a0 b0 where z: "a0 \<in> set T" "mb_id a = mb_id a0" "mb_owner a = mb_owner a0" "mb_is_primary a0"
      "mb_owner a0 = own \<Longrightarrow> mb_workspace_id a0 = ws"
      "b0 \<in> set T" "mb_id b = mb_id b0" "mb_owner b = mb_owner b0" "mb_is_primary b0"
      "mb_owner b0 = own \<Longrightarrow> mb_workspace_id b0 = ws"
    using ab by (auto elim!: clear_memE)
  show "mb_id a = mb_id b"
  proof (cases "mb_owner a0 = own")
    case True
    then have "mb_clash a0 b0" using z ab(3) by (auto simp: mb_clash_def)
    then show ?thesis using mb.unique_eq [OF u z(1,6)] z by simp
  next
    case False
    then show ?thesis using o [OF z(1,6)] z ab(3) by simp
  qed
qed

text \<open>Changing one row, whose owner is kept.\<close>

lemma single_primary_change:
  assumes s: "single_primary T" and T': "set T' = insert new {x \<in> set T. mb_id x \<noteq> mb_id old}" and old: "old \<in> set T"
    and new: "mb_id new = mb_id old" "mb_owner new = mb_owner old" "mb_is_primary new \<longrightarrow> mb_is_primary old"
  shows "single_primary T'"
  unfolding single_primary_def
proof (intro ballI impI)
  fix a b
  assume ab: "a \<in> set T'" "b \<in> set T'" "mb_owner a = mb_owner b" "mb_is_primary a" "mb_is_primary b"
  define f where "f x = (if x = new then old else x)" for x
  have f: "f x \<in> set T \<and> mb_id (f x) = mb_id x \<and> mb_owner (f x) = mb_owner x \<and> (mb_is_primary x \<longrightarrow> mb_is_primary (f x))"
    if "x \<in> set T'" for x
    using that old new by (auto simp: f_def T')
  have "mb_id (f a) = mb_id (f b)"
    using s f [OF ab(1)] f [OF ab(2)] ab(3-5) unfolding single_primary_def by metis
  then show "mb_id a = mb_id b" using f [OF ab(1)] f [OF ab(2)] by simp
qed

lemma single_primary_sub:
  "single_primary T \<Longrightarrow> set T' \<subseteq> insert new (set T) \<Longrightarrow> \<not> mb_is_primary new \<Longrightarrow> single_primary T'"
  unfolding single_primary_def by blast

text \<open>The table between the write of the row and \<open>_clear_other_primary\<close>.\<close>

lemma upsert_base:
  assumes u: "unique_rows mb_clash T" and s: "single_primary T"
    and new: "(case mb_get own ws T of
        None \<Rightarrow> insert_row mb_clash tn (new_membership prefix i own ws mid role prim en src md) T
      | Some row \<Rightarrow> replace_row mb_id mb_clash tn row (updated_membership role prim en src md row) T)
      = Inr (r, T1)"
  shows "unique_rows mb_clash T1 \<and> (\<exists>n. set T1 \<subseteq> insert n (set T) \<and> mb_owner n = own) \<and> (prim \<or> single_primary T1)"
proof (cases "mb_get own ws T")
  case None
  let ?n = "new_membership prefix i own ws mid role prim en src md"
  have I: "unique_rows mb_clash T1" "T1 = T @ [?n]" using mb.insert_ok [of tn ?n T r T1] u new None by auto
  have n: "mb_owner ?n = own" "mb_is_primary ?n = prim" by (simp_all add: new_membership_def)
  have "prim \<or> single_primary T1" using single_primary_sub [OF s, of T1 ?n] I(2) n by auto
  with I n show ?thesis by auto
next
  case (Some row)
  let ?n = "updated_membership role prim en src md row"
  have row: "row \<in> set T" "mb_owner row = own" using mb_getD [OF Some] by simp_all
  have n: "mb_id ?n = mb_id row" "mb_owner ?n = own" "mb_is_primary ?n \<longleftrightarrow> prim \<or> mb_is_primary row"
    using row by (simp_all add: updated_membership_def)
  have I: "unique_rows mb_clash T1" "set T1 = insert ?n {x \<in> set T. mb_id x \<noteq> mb_id row}"
    using mb.replace_ok [of tn row ?n T r T1] u new Some row n by auto
  have "prim \<or> single_primary T1" using single_primary_change [OF s I(2) row(1)] n row(2) by auto
  moreover have "set T1 \<subseteq> insert ?n (set T)" using I(2) by auto
  ultimately show ?thesis using I(1) n(2) by blast
qed

lemma mb_ok_upsert:
  assumes ok: "mb_ok T" and up: "mb_upsert prefix i own ws mid role prim en src md T = Inr (r, T')"
  shows "mb_ok T'"
proof -
  have u: "unique_rows mb_clash T" and s: "single_primary T" using ok by (auto simp: mb_ok_def)
  from up obtain T1 where T1: "T' = (if prim then clear_other_primary own ws T1 else T1)" and
    new: "(case mb_get own ws T of
        None \<Rightarrow> insert_row mb_clash ''workspace_memberships'' (new_membership prefix i own ws mid role prim en src md) T
      | Some row \<Rightarrow> replace_row mb_id mb_clash ''workspace_memberships'' row (updated_membership role prim en src md row) T)
      = Inr (r, T1)"
    by (auto simp: mb_upsert_def rbind_def split: sum.splits)
  note B = upsert_base [OF u s new]
  show ?thesis
  proof (cases prim)
    case True
    from B obtain n where n: "set T1 \<subseteq> insert n (set T)" "mb_owner n = own" by blast
    have o: "mb_id a = mb_id b" if "a \<in> set T1" "b \<in> set T1" "mb_owner a = mb_owner b" "mb_owner a \<noteq> own"
      "mb_is_primary a" "mb_is_primary b" for a b
    proof -
      have "a \<in> set T" "b \<in> set T" using that(1-4) n by auto
      with s that(3,5,6) show ?thesis unfolding single_primary_def by blast
    qed
    have "single_primary (clear_other_primary own ws T1)"
      using B by (intro single_primary_clear [OF _ o]) simp
    with True T1 unique_clear [of T1] B show ?thesis by (simp add: mb_ok_def)
  next
    case False
    with T1 B show ?thesis by (simp add: mb_ok_def)
  qed
qed

lemma mb_ok_set_primary: "mb_ok T \<Longrightarrow> mb_ok (snd (mb_set_primary own ws T))"
proof (cases "mb_get own ws T")
  case (Some row)
  assume ok: "mb_ok T"
  then have u: "unique_rows mb_clash T" and s: "single_primary T" by (auto simp: mb_ok_def)
  have row: "row \<in> set T" "mb_owner row = own" using mb_getD [OF Some] by simp_all
  define f where "f = (\<lambda>r. if mb_id r = mb_id row then row\<lparr>mb_enabled := True, mb_is_primary := True\<rparr> else r)"
  let ?T1 = "map f T"
  have fr: "x \<in> set T \<Longrightarrow> mb_id x = mb_id row \<Longrightarrow> x = row" for x
    using mb.unique_eq [OF u _ row(1), of x] by (simp add: mb_clash_def)
  then have eq: "map f T = map (\<lambda>x. if mb_id x = mb_id row then x\<lparr>mb_enabled := True, mb_is_primary := True\<rparr> else x) T"
    by (auto simp: f_def)
  have u1: "unique_rows mb_clash ?T1"
    unfolding eq by (rule mb.unique_map [OF u]) (auto simp: mb_clash_def split: if_splits)
  have o: "mb_id a = mb_id b" if "a \<in> set ?T1" "b \<in> set ?T1" "mb_owner a = mb_owner b" "mb_owner a \<noteq> own"
      "mb_is_primary a" "mb_is_primary b" for a b
  proof -
    have "a \<in> set T" "b \<in> set T" using that(1-4) row(2) by (auto simp: f_def split: if_splits)
    with s that(3,5,6) show ?thesis unfolding single_primary_def by blast
  qed
  have "single_primary (clear_other_primary own ws ?T1)" by (rule single_primary_clear [OF u1 o])
  then show ?thesis
    using Some unique_clear [OF u1] by (simp add: mb_set_primary_def mb_ok_def Let_def tbl_upd_def f_def)
qed (simp add: mb_set_primary_def)

lemma unique_upd:
  "unique_rows mb_clash T \<Longrightarrow> (\<And>r. mb_id (f r) = mb_id r \<and> mb_membership_id (f r) = mb_membership_id r
      \<and> mb_owner (f r) = mb_owner r \<and> mb_workspace_id (f r) = mb_workspace_id r)
   \<Longrightarrow> unique_rows mb_clash (tbl_upd mb_id k f T)"
  unfolding tbl_upd_def by (rule mb.unique_map) (auto simp: mb_clash_def split: if_splits)

text \<open>The first row that \<open>_promote_first_enabled\<close> reads is the primary one, if it is enabled.\<close>

lemma list_for_owner_head:
  assumes "mb_ok T" "row \<in> set T" "mb_enabled row" "mb_is_primary row"
  shows "\<exists>rs. list_for_owner (mb_owner row) False T = row # rs"
proof -
  let ?L = "list_for_owner (mb_owner row) False T"
  have m: "row \<in> set ?L" using assms by (simp add: list_for_owner_def)
  then obtain h rs where L: "?L = h # rs" by (cases ?L) auto
  have srt: "sorted (map (\<lambda>r. \<not> mb_is_primary r) ?L)" by (simp add: list_for_owner_def)
  have "mb_is_primary h"
    using srt m assms(4) unfolding L by (auto simp: le_bool_def)
  moreover have "h \<in> set ?L" unfolding L by simp
  then have "h \<in> set T" "mb_owner h = mb_owner row" by (auto simp: list_for_owner_def)
  ultimately have "mb_id h = mb_id row" using assms unfolding mb_ok_def single_primary_def by blast
  then have "h = row" using mb.unique_eq [of T h row] \<open>h \<in> set T\<close> assms(1,2) by (simp add: mb_clash_def mb_ok_def)
  with L show ?thesis by blast
qed

text \<open>So disabling a primary membership promotes the row that is being disabled.\<close>

lemma disable_primary:
  assumes ok: "mb_ok T" and row: "row \<in> set T" "mb_enabled row" "mb_is_primary row"
  shows "mb_disable (mb_owner row) (mb_workspace_id row) T =
    (True, tbl_upd mb_id (mb_id row) (\<lambda>r. r\<lparr>mb_enabled := False, mb_is_primary := True\<rparr>) T)"
proof -
  have u: "unique_rows mb_clash T" using ok by (simp add: mb_ok_def)
  have g: "mb_get (mb_owner row) (mb_workspace_id row) T = Some row"
    using mb_pair.get_mem [OF u row(1)] by (simp add: mb_get_def)
  obtain rs where L: "list_for_owner (mb_owner row) False T = row # rs"
    using list_for_owner_head [OF ok row] by blast
  let ?T1 = "tbl_upd mb_id (mb_id row) (\<lambda>r. r\<lparr>mb_enabled := False, mb_is_primary := False\<rparr>) T"
  have "\<not> mb_is_primary r" if r: "r \<in> set ?T1" "mb_id r \<in> mb_id ` set (row # rs)" for r
  proof
    assume p: "mb_is_primary r"
    then have rT: "r \<in> set T" "mb_id r \<noteq> mb_id row" using r(1) by (auto simp: tbl_upd_def split: if_splits)
    obtain q where "q \<in> set (list_for_owner (mb_owner row) False T)" "mb_id q = mb_id r"
      using r(2) unfolding L by (metis imageE)
    then have q: "q \<in> set T" "mb_owner q = mb_owner row" "mb_id q = mb_id r" by (auto simp: list_for_owner_def)
    then have "r = q" using mb.unique_eq [OF u rT(1) q(1)] by (simp add: mb_clash_def)
    then have "mb_id r = mb_id row" using ok p row q rT(1) unfolding mb_ok_def single_primary_def by blast
    with rT show False by blast
  qed
  then have "\<not> list_ex (\<lambda>r. mb_id r \<in> set (map mb_id (row # rs)) \<and> mb_is_primary r) ?T1"
    by (auto simp: list_ex_iff)
  then have "promote_first_enabled (mb_owner row) T ?T1 = tbl_upd mb_id (mb_id row) (\<lambda>r. r\<lparr>mb_is_primary := True\<rparr>) ?T1"
    unfolding promote_first_enabled_def L Let_def by simp
  moreover have "tbl_upd mb_id (mb_id row) (\<lambda>r. r\<lparr>mb_is_primary := True\<rparr>) ?T1 =
      tbl_upd mb_id (mb_id row) (\<lambda>r. r\<lparr>mb_enabled := False, mb_is_primary := True\<rparr>) T"
    by (auto simp: tbl_upd_def)
  ultimately show ?thesis using g row by (simp add: mb_disable_def)
qed

lemma mb_ok_disable: "mb_ok T \<Longrightarrow> mb_ok (snd (mb_disable own ws T))"
proof (cases "mb_get own ws T")
  case (Some row)
  assume ok: "mb_ok T"
  have row: "row \<in> set T" "mb_owner row = own" "mb_workspace_id row = ws" using mb_getD [OF Some] by simp_all
  have keep: "mb_ok (tbl_upd mb_id (mb_id row) (\<lambda>r. r\<lparr>mb_enabled := False, mb_is_primary := b\<rparr>) T)"
    if "b \<longrightarrow> mb_is_primary row" for b
  proof -
    let ?f = "\<lambda>r. r\<lparr>mb_enabled := False, mb_is_primary := b\<rparr>"
    have u: "unique_rows mb_clash T" using ok by (simp add: mb_ok_def)
    have "x = row" if "x \<in> set T" "mb_id x = mb_id row" for x
      using mb.unique_eq [OF u that(1) row(1)] that(2) by (simp add: mb_clash_def)
    then have S: "set (tbl_upd mb_id (mb_id row) ?f T) = insert (?f row) {x \<in> set T. mb_id x \<noteq> mb_id row}"
      using row(1) by (auto simp: tbl_upd_def)
    have "single_primary T" using ok by (simp add: mb_ok_def)
    then have "single_primary (tbl_upd mb_id (mb_id row) ?f T)"
      using single_primary_change [OF _ S row(1)] that by simp
    then show ?thesis using unique_upd [OF u, of ?f] by (simp add: mb_ok_def)
  qed
  show ?thesis
  proof (cases "mb_enabled row \<and> mb_is_primary row")
    case True
    then show ?thesis using disable_primary [OF ok row(1)] row keep [of True] by simp
  next
    case False
    then show ?thesis using ok Some keep [of False] by (auto simp: mb_disable_def Let_def)
  qed
qed (simp add: mb_disable_def)

lemma mb_reachable_ok: "mb_reachable T \<Longrightarrow> mb_ok T"
proof (induction rule: mb_reachable.induct)
  case empty
  then show ?case by (simp add: mb_ok_def single_primary_def)
next
  case (step T T')
  from step(2,3) show ?case
    by (cases rule: mb_step.cases) (auto intro: mb_ok_upsert mb_ok_set_primary mb_ok_disable)
qed

text \<open>
  (C26) An owner (an endpoint or an address) never has two primary workspaces: in every table that
  the membership operations build from the empty one, at most one membership of an owner is
  primary, and no two memberships share an owner and a workspace.
\<close>

theorem at_most_one_primary_membership:
  assumes "mb_reachable T"
  shows "length (filter (\<lambda>r. mb_owner r = own \<and> mb_is_primary r) T) \<le> 1
     \<and> distinct (map (\<lambda>r. (mb_owner r, mb_workspace_id r)) T)"
proof -
  have ok: "mb_ok T" using assms by (rule mb_reachable_ok)
  then have u: "unique_rows mb_clash T" by (simp add: mb_ok_def)
  let ?P = "filter (\<lambda>r. mb_owner r = own \<and> mb_is_primary r) T"
  have "length ?P \<le> 1"
  proof (rule ccontr)
    assume "\<not> length ?P \<le> 1"
    then obtain a b c where P: "?P = a # b # c" by (cases ?P; cases "tl ?P") auto
    have "distinct (map mb_id ?P)" using mb.unique_keys [OF u] by (simp add: distinct_map_filter)
    then have "mb_id a \<noteq> mb_id b" unfolding P by simp
    moreover have "a \<in> set ?P" "b \<in> set ?P" unfolding P by simp_all
    ultimately show False using ok unfolding mb_ok_def single_primary_def by auto
  qed
  then show ?thesis using mb_pair.unique_keys [OF u] by simp
qed

definition example_memberships :: "membership list" where
  "example_memberships =
     (case endpoint_membership_upsert ''m1'' ''e'' ''w1'' [] [] True True [] None [] of
        Inl _ \<Rightarrow> []
      | Inr (_, T) \<Rightarrow> snd (projr (endpoint_membership_upsert ''m2'' ''e'' ''w2'' [] [] False True [] None T)))"

lemma example_memberships_eq:
  "example_memberships =
     [new_membership ''ewm'' ''m1'' ''e'' ''w1'' [] [] True True [] None,
      new_membership ''ewm'' ''m2'' ''e'' ''w2'' [] [] False True [] None]"
  by code_simp

lemma example_memberships_reachable: "mb_reachable example_memberships"
proof -
  let ?m1 = "new_membership ''ewm'' ''m1'' ''e'' ''w1'' [] [] True True [] None"
  have a: "mb_upsert ''ewm'' ''m1'' ''e'' ''w1'' [] [] True True [] None [] = Inr (?m1, [?m1])" by code_simp
  have b: "mb_upsert ''ewm'' ''m2'' ''e'' ''w2'' [] [] False True [] None [?m1]
      = Inr (new_membership ''ewm'' ''m2'' ''e'' ''w2'' [] [] False True [] None, example_memberships)" by code_simp
  show ?thesis
    using mb_reachable.empty mb_step.upsert [OF a] mb_step.upsert [OF b] mb_reachable.step by blast
qed

theorem at_most_one_primary_membership_witness:
  "map mb_is_primary example_memberships = [True, False]
   \<and> length (filter (\<lambda>r. mb_owner r = ''e'' \<and> mb_is_primary r) example_memberships) \<le> 1"
proof
  show "map mb_is_primary example_memberships = [True, False]" by code_simp
qed (use at_most_one_primary_membership [OF example_memberships_reachable] in blast)

text \<open>Disabling the primary membership of an owner does not promote another one: because the
  session does not flush before \<open>_promote_first_enabled\<close> queries the table, the query still
  returns the membership being disabled as the first row, so that row stays marked primary while
  disabled, and the owner has no enabled primary membership, even if other enabled ones exist.
\<close>

theorem disabling_primary_promotes_nothing:
  assumes "mb_reachable T" "mb_get own ws T = Some row" "mb_enabled row" "mb_is_primary row"
  shows "fst (mb_disable own ws T) = True
     \<and> mb_get own ws (snd (mb_disable own ws T)) = Some (row\<lparr>mb_enabled := False\<rparr>)
     \<and> list_all (\<lambda>r. mb_owner r = own \<and> mb_enabled r \<longrightarrow> \<not> mb_is_primary r) (snd (mb_disable own ws T))"
proof -
  have ok: "mb_ok T" using assms(1) by (rule mb_reachable_ok)
  then have u: "unique_rows mb_clash T" by (simp add: mb_ok_def)
  have row: "row \<in> set T" "mb_owner row = own" "mb_workspace_id row = ws" using mb_getD [OF assms(2)] by simp_all
  let ?f = "\<lambda>r. r\<lparr>mb_enabled := False, mb_is_primary := True\<rparr>"
  have D: "mb_disable own ws T = (True, tbl_upd mb_id (mb_id row) ?f T)"
    using disable_primary [OF ok row(1) assms(3,4)] row by simp
  have m: "?f row \<in> set (tbl_upd mb_id (mb_id row) ?f T)" using row(1) by (auto simp: tbl_upd_def)
  have "?f row = row\<lparr>mb_enabled := False\<rparr>" using assms(4) by (cases row) simp
  then have g: "mb_get own ws (tbl_upd mb_id (mb_id row) ?f T) = Some (row\<lparr>mb_enabled := False\<rparr>)"
    using mb_pair.get_mem [OF unique_upd [OF u] m] row by (simp add: mb_get_def)
  have "\<not> mb_is_primary r" if "r \<in> set (tbl_upd mb_id (mb_id row) ?f T)" "mb_owner r = own" "mb_enabled r" for r
  proof
    assume p: "mb_is_primary r"
    have "r \<in> set T" "mb_id r \<noteq> mb_id row" using that by (auto simp: tbl_upd_def split: if_splits)
    then show False using ok row assms(4) p that(2) unfolding mb_ok_def single_primary_def by metis
  qed
  with D g show ?thesis by (auto simp: list_all_iff)
qed

theorem disabling_primary_promotes_nothing_witness:
  "fst (mb_disable ''e'' ''w1'' example_memberships) = True
   \<and> map (\<lambda>r. (mb_enabled r, mb_is_primary r)) (snd (mb_disable ''e'' ''w1'' example_memberships))
     = [(False, True), (True, False)]"
proof -
  have g: "mb_get ''e'' ''w1'' example_memberships = Some (hd example_memberships)"
    "mb_enabled (hd example_memberships)" "mb_is_primary (hd example_memberships)" by code_simp+
  have "map (\<lambda>r. (mb_enabled r, mb_is_primary r)) (snd (mb_disable ''e'' ''w1'' example_memberships))
     = [(False, True), (True, False)]" by code_simp
  then show ?thesis using disabling_primary_promotes_nothing [OF example_memberships_reachable g] by blast
qed

section \<open>Capabilities and addresses\<close>

text \<open>Synchronising the capabilities of an endpoint disables exactly the stale ones: afterwards an
  enabled capability of the endpoint has a tool key among the active ones, the capabilities of
  other endpoints and the active ones are untouched, and the count returned is the number of
  rows that were switched off.
\<close>

theorem disable_missing_exact:
  "\<not> list_ex (\<lambda>r. cp_endpoint_id r = e \<and> cp_enabled r \<and> strip (cp_tool_key r) \<notin> set active)
     (snd (disable_missing_for_endpoint e active T))
   \<and> list_all2 (\<lambda>r r'. r' = (if cp_endpoint_id r = e \<and> strip (cp_tool_key r) \<notin> set active
                             then r\<lparr>cp_enabled := False\<rparr> else r))
     T (snd (disable_missing_for_endpoint e active T))
   \<and> fst (disable_missing_for_endpoint e active T)
     = length (filter (\<lambda>(r, r'). cp_enabled r \<and> \<not> cp_enabled r') (zip T (snd (disable_missing_for_endpoint e active T))))"
proof -
  have "(if cp_endpoint_id r = e \<and> capability_missing active r then r\<lparr>cp_enabled := False\<rparr> else r)
      = (if cp_endpoint_id r = e \<and> strip (cp_tool_key r) \<notin> set active then r\<lparr>cp_enabled := False\<rparr> else r)" for r
    by (cases r) (auto simp: capability_missing_def)
  moreover have "length (filter P (sort_key k xs)) = length (filter P xs)" for P and k :: "capability \<Rightarrow> string" and xs
    by (simp add: filter_sort)
  moreover have "length (filter (capability_missing active) (filter (\<lambda>r. cp_endpoint_id r = e) T))
     = length (filter (\<lambda>(r, r'). cp_enabled r \<and> \<not> cp_enabled r')
         (zip T (map (\<lambda>r. if cp_endpoint_id r = e \<and> capability_missing active r then r\<lparr>cp_enabled := False\<rparr> else r) T)))"
    by (induction T) (auto simp: capability_missing_def)
  moreover have "\<not> list_ex (\<lambda>r. cp_endpoint_id r = e \<and> cp_enabled r \<and> strip (cp_tool_key r) \<notin> set active)
     (map (\<lambda>r. if cp_endpoint_id r = e \<and> capability_missing active r then r\<lparr>cp_enabled := False\<rparr> else r) T)"
    by (induction T) (auto simp: capability_missing_def)
  ultimately show ?thesis
    by (simp add: disable_missing_for_endpoint_def list_capabilities_for_endpoint_def list_all2_map2 list.rel_refl)
qed

definition example_address :: "string \<Rightarrow> address" where
  "example_address atype = \<lparr>ad_id = [], ad_address_id = [], ad_endpoint_id = ''e'', ad_provider_type = ''wechat'',
     ad_address_type = atype, ad_external_ref = ''u42'', ad_display_name = [], ad_workspace_scope = [],
     ad_status = ''sendable'', ad_capabilities = [], ad_last_seen_at = None, ad_last_verified_at = None, ad_meta = []\<rparr>"

text \<open>The lookup of an address by endpoint and external reference fails on data that the
  repository accepts: after registering the same reference as a direct and as a group address,
  which the unique constraint on (endpoint, type, reference) allows, it raises
  MultipleResultsFound.
\<close>

theorem external_ref_lookup_ambiguous:
  "case address_upsert ''a1'' (example_address ''direct'') [] of
     Inr (_, T1) \<Rightarrow>
       (case address_upsert ''a2'' (example_address ''group'') T1 of
          Inr (_, T2) \<Rightarrow> unique_rows ad_clash T2 \<and> get_by_endpoint_external_ref ''e'' ''u42'' T2 = Inl MultipleResultsFound
        | Inl _ \<Rightarrow> False)
   | Inl _ \<Rightarrow> False"
  by code_simp

end
