(* ===== verification/Outbox.thy ===== *)
theory Outbox
  imports Endpoint_Store
begin

text \<open>
  The outbox and the delivery attempts: the tables of \<^verbatim>\<open>core/db/models/endpoint.py\<close>, the
  repositories of \<^verbatim>\<open>core/db/repositories/endpoint.py\<close>, their services in
  \<^verbatim>\<open>core/services/endpoint_service.py\<close> and the queue interface of
  \<^verbatim>\<open>core/services/delivery_queue.py\<close>, whose protocol class is the locale
  \<open>delivery_queue\<close> and whose database backend is its interpretation.

  Row ids and the identifiers built on \<open>uuid4\<close> are drawn by the caller; a new row is appended
  (a collision of two drawn identifiers is not modelled). Rows that are not available yet have
  the largest sort key, as \<open>NULLS LAST\<close> is the default order of the database.
\<close>

section \<open>The outbox\<close>

record outbox =
  ob_id :: row_id
  ob_outbox_id :: string
  ob_target_endpoint_id :: row_id
  ob_target_address_id :: "row_id option"
  ob_message_type :: string
  ob_payload :: pydict
  ob_status :: string
  ob_available_at :: "instant option"
  ob_attempt_count :: int
  ob_last_error :: string
  ob_meta :: pydict

definition outbox_create ::
  "row_id \<Rightarrow> string \<Rightarrow> row_id \<Rightarrow> row_id option \<Rightarrow> string \<Rightarrow> pydict \<Rightarrow> string \<Rightarrow> instant option \<Rightarrow> pydict
   \<Rightarrow> outbox list \<Rightarrow> outbox \<times> outbox list" where
  "outbox_create new_id outbox_id target address message_type payload status available_at metadata T =
     (let row = \<lparr>ob_id = new_id, ob_outbox_id = outbox_id, ob_target_endpoint_id = target,
                 ob_target_address_id = address, ob_message_type = message_type, ob_payload = payload,
                 ob_status = status, ob_available_at = available_at, ob_attempt_count = 0, ob_last_error = [],
                 ob_meta = metadata\<rparr>
      in (row, T @ [row]))"

definition get_outbox_by_id :: "row_id \<Rightarrow> outbox list \<Rightarrow> outbox option" where
  "get_outbox_by_id i T = tbl_get ob_id i T"

definition get_by_outbox_id :: "string \<Rightarrow> outbox list \<Rightarrow> outbox option" where
  "get_by_outbox_id outbox_id T = tbl_get ob_outbox_id (strip outbox_id) T"

definition outbox_due :: "instant \<Rightarrow> row_id option \<Rightarrow> outbox \<Rightarrow> bool" where
  "outbox_due now target r \<longleftrightarrow>
     (ob_status r = ''pending'' \<or> ob_status r = ''retry'')
   \<and> (case target of None \<Rightarrow> True | Some t \<Rightarrow> ob_target_endpoint_id r = t)
   \<and> (case ob_available_at r of None \<Rightarrow> True | Some t \<Rightarrow> t \<le> now)"

definition outbox_key :: "outbox \<Rightarrow> bool \<times> instant" where
  "outbox_key r = (case ob_available_at r of None \<Rightarrow> (True, 0) | Some t \<Rightarrow> (False, t))"

definition outbox_limit :: "int \<Rightarrow> nat" where
  "outbox_limit limit = nat (max 1 (min (if limit = 0 then 50 else limit) 500))"

definition outbox_list_due :: "instant \<Rightarrow> row_id option \<Rightarrow> int \<Rightarrow> outbox list \<Rightarrow> outbox list" where
  "outbox_list_due now target limit T =
     take (outbox_limit limit) (sort_key outbox_key (filter (outbox_due now target) T))"

definition inflight_row :: "outbox \<Rightarrow> outbox" where
  "inflight_row r = r\<lparr>ob_status := ''sending'', ob_attempt_count := ob_attempt_count r + 1\<rparr>"

definition sent_row :: "outbox \<Rightarrow> outbox" where
  "sent_row r = r\<lparr>ob_status := ''sent'', ob_last_error := []\<rparr>"

definition or_int :: "int \<Rightarrow> int \<Rightarrow> int" where
  "or_int n d = (if n = 0 then d else n)"

definition retry_delay :: "int \<Rightarrow> int \<Rightarrow> int \<Rightarrow> int" where
  "retry_delay base_delay max_delay attempts =
     min (max 1 (or_int max_delay 300)) (max 1 (or_int base_delay 2) * 2 ^ nat (max 0 (attempts - 1)))"

definition failed_row :: "instant \<Rightarrow> string \<Rightarrow> int \<Rightarrow> int \<Rightarrow> int \<Rightarrow> outbox \<Rightarrow> outbox" where
  "failed_row now error max_attempts base_delay max_delay r =
     (if max 1 (or_int max_attempts 1) \<le> ob_attempt_count r
      then r\<lparr>ob_last_error := error, ob_status := ''dead_letter'', ob_available_at := None\<rparr>
      else r\<lparr>ob_last_error := error, ob_status := ''retry'',
             ob_available_at := Some (now + seconds (retry_delay base_delay max_delay (ob_attempt_count r)))\<rparr>)"

definition change_outbox :: "row_id \<Rightarrow> (outbox \<Rightarrow> outbox) \<Rightarrow> outbox list \<Rightarrow> outbox option \<times> outbox list" where
  "change_outbox i f T = (map_option f (get_outbox_by_id i T), tbl_upd ob_id i f T)"

definition mark_inflight :: "row_id \<Rightarrow> outbox list \<Rightarrow> outbox option \<times> outbox list" where
  "mark_inflight i = change_outbox i inflight_row"

definition mark_sent :: "row_id \<Rightarrow> outbox list \<Rightarrow> outbox option \<times> outbox list" where
  "mark_sent i = change_outbox i sent_row"

definition reschedule_failure ::
  "instant \<Rightarrow> row_id \<Rightarrow> string \<Rightarrow> int \<Rightarrow> int \<Rightarrow> int \<Rightarrow> outbox list \<Rightarrow> outbox option \<times> outbox list" where
  "reschedule_failure now i error max_attempts base_delay max_delay =
     change_outbox i (failed_row now error max_attempts base_delay max_delay)"

text \<open>\<open>EndpointOutboxService.enqueue\<close>, which the database backend calls; \<open>uuid\<close> is the text of
  the identifier it draws.\<close>

definition enqueue ::
  "row_id \<Rightarrow> string \<Rightarrow> row_id \<Rightarrow> row_id option \<Rightarrow> string \<Rightarrow> pydict \<Rightarrow> pydict \<Rightarrow> outbox list \<Rightarrow> outbox \<times> outbox list" where
  "enqueue new_id uuid target address message_type payload metadata T =
     outbox_create new_id (''outbox_'' @ uuid) target address message_type payload ''pending'' None metadata T"

section \<open>Delivery attempts\<close>

record attempt =
  da_id :: row_id
  da_delivery_id :: string
  da_outbox_id :: "row_id option"
  da_target_endpoint_id :: row_id
  da_target_address_id :: "row_id option"
  da_message_type :: string
  da_status :: string
  da_payload :: pydict
  da_error :: pydict
  da_meta :: pydict

text \<open>\<open>DeliveryAttemptService.record\<close>: \<open>uuid\<close> is used when no delivery id is passed.\<close>

definition record_attempt :: "string \<Rightarrow> attempt \<Rightarrow> attempt list \<Rightarrow> attempt \<times> attempt list" where
  "record_attempt uuid request A =
     (let row = request\<lparr>da_delivery_id := strip (or_str (da_delivery_id request) (''delivery_'' @ uuid))\<rparr>
      in (row, A @ [row]))"

definition get_by_delivery_id :: "string \<Rightarrow> attempt list \<Rightarrow> attempt option" where
  "get_by_delivery_id delivery_id A = tbl_get da_delivery_id (strip delivery_id) A"

definition result_row :: "string \<Rightarrow> pydict option \<Rightarrow> pydict \<Rightarrow> row_id option \<Rightarrow> attempt \<Rightarrow> attempt" where
  "result_row status error metadata outbox_id row =
     row\<lparr>da_status := or_str (strip (or_str status (or_str (da_status row) ''pending''))) ''pending'',
         da_error := (case error of Some e \<Rightarrow> e | None \<Rightarrow> da_error row),
         da_meta := dmerge (da_meta row) metadata,
         da_outbox_id := (case outbox_id of Some i \<Rightarrow> Some i | None \<Rightarrow> da_outbox_id row)\<rparr>"

definition update_result ::
  "string \<Rightarrow> string \<Rightarrow> pydict option \<Rightarrow> pydict \<Rightarrow> row_id option \<Rightarrow> attempt list \<Rightarrow> attempt option \<times> attempt list" where
  "update_result delivery_id status error metadata outbox_id A =
     (map_option (result_row status error metadata outbox_id) (get_by_delivery_id delivery_id A),
      tbl_upd da_delivery_id (strip delivery_id) (result_row status error metadata outbox_id) A)"

section \<open>Row updates\<close>

text \<open>A row that may still be sent has attempts left; \<open>n\<close> is the bound on attempts.\<close>

definition attempts_ok :: "int \<Rightarrow> outbox \<Rightarrow> bool" where
  "attempts_ok n r \<longleftrightarrow> 0 \<le> ob_attempt_count r
     \<and> (ob_status r = ''pending'' \<or> ob_status r = ''retry'' \<longrightarrow> ob_attempt_count r < n)"

interpretation inflight: guarded_row_op ob_id inflight_row "attempts_ok n" for n
  by unfold_locales (auto simp: inflight_row_def attempts_ok_def)

interpretation sent: guarded_row_op ob_id sent_row "attempts_ok n" for n
  by unfold_locales (auto simp: sent_row_def attempts_ok_def)

interpretation failed: row_op ob_id "failed_row now error maxa base maxd" for now error maxa base maxd
  by unfold_locales (simp add: failed_row_def)

interpretation failed_guard: guarded_row_op ob_id "failed_row now error n base maxd" "attempts_ok (max 1 (or_int n 1))"
  for now error n base maxd
  by unfold_locales (auto simp: failed_row_def attempts_ok_def)

interpretation result: row_op da_delivery_id "result_row status error metadata outbox_id" for status error metadata outbox_id
  by unfold_locales (simp add: result_row_def)

section \<open>The queue interface\<close>

text \<open>
  The protocol \<open>DeliveryQueueBackend\<close>: what \<open>DeliveryService\<close> relies on. \<open>items\<close> are the entries
  of the queue, \<open>pick now t q\<close> the entries of target \<open>t\<close> that are due, and \<open>tried\<close> the number of
  times an entry was marked in flight.
\<close>

locale delivery_queue =
  fixes items :: "'q \<Rightarrow> 'i set"
    and ident :: "'i \<Rightarrow> 'k"
    and due :: "instant \<Rightarrow> 'i \<Rightarrow> bool"
    and tried :: "'i \<Rightarrow> int"
    and begin_send :: "'k \<Rightarrow> 'q \<Rightarrow> 'q"
    and succeed :: "'k \<Rightarrow> 'q \<Rightarrow> 'q"
    and fail :: "instant \<Rightarrow> 'k \<Rightarrow> 'q \<Rightarrow> 'q"
    and bound :: int
  assumes begin_items: "x \<in> items (begin_send k q) \<Longrightarrow>
      (x \<in> items q \<and> ident x \<noteq> k) \<or> (\<exists>y \<in> items q. ident y = k \<and> ident x = k \<and> tried x = tried y + 1 \<and> \<not> due now x)"
    and succeed_items: "x \<in> items (succeed k q) \<Longrightarrow>
      (x \<in> items q \<and> ident x \<noteq> k) \<or> (\<exists>y \<in> items q. ident y = k \<and> ident x = k \<and> tried x = tried y \<and> \<not> due now x)"
    and fail_items: "x \<in> items (fail t k q) \<Longrightarrow>
      (x \<in> items q \<and> ident x \<noteq> k)
      \<or> (\<exists>y \<in> items q. ident y = k \<and> ident x = k \<and> tried x = tried y \<and> \<not> due t x
           \<and> (due now x \<longrightarrow> tried x < bound))"
begin

text \<open>What a client may send once more has attempts left, through any send that follows the
  protocol.\<close>

definition budget_ok :: "'q \<Rightarrow> bool" where
  "budget_ok q \<longleftrightarrow> (\<forall>x \<in> items q. tried x \<le> bound \<and> (\<forall>now. due now x \<longrightarrow> tried x < bound))"

lemma begin_budget:
  assumes "budget_ok q" and "\<And>y. y \<in> items q \<Longrightarrow> ident y = k \<Longrightarrow> tried y < bound"
  shows "budget_ok (begin_send k q)"
  using assms begin_items unfolding budget_ok_def by (metis add.commute zless_imp_add1_zle)

lemma succeed_budget: "budget_ok q \<Longrightarrow> budget_ok (succeed k q)"
  using succeed_items unfolding budget_ok_def by metis

lemma fail_budget: "budget_ok q \<Longrightarrow> budget_ok (fail t k q)"
  using fail_items unfolding budget_ok_def by metis

lemma settled_not_due:
  "x \<in> items (succeed k q) \<Longrightarrow> ident x = k \<Longrightarrow> \<not> due now x"
  "x \<in> items (fail t k q) \<Longrightarrow> ident x = k \<Longrightarrow> \<not> due t x"
  using succeed_items [of x k q now] fail_items [of x t k q] by blast+

end

lemma retry_delay_bounds:
  "1 \<le> retry_delay base maxd k" "retry_delay base maxd k \<le> max 1 (or_int maxd 300)"
proof -
  have "(1::int) \<le> 2 ^ nat (max 0 (k - 1))" by simp
  moreover have "1 \<le> max 1 (or_int base 2)" by simp
  ultimately have "1 * 1 \<le> max 1 (or_int base 2) * 2 ^ nat (max 0 (k - 1))" by (intro mult_mono) simp_all
  then show "1 \<le> retry_delay base maxd k" by (simp add: retry_delay_def)
qed (simp add: retry_delay_def)

lemma retry_delay_mono: "j \<le> k \<Longrightarrow> retry_delay base maxd j \<le> retry_delay base maxd k"
  unfolding retry_delay_def
  by (intro min.mono order.refl mult_left_mono power_increasing nat_mono max.mono) auto

lemma outbox_due_simps:
  "\<not> outbox_due now t (inflight_row r)" "\<not> outbox_due now t (sent_row r)"
  "\<not> outbox_due now t (failed_row now error n base maxd r)"
  using retry_delay_bounds(1) [of base maxd "ob_attempt_count r"]
  by (auto simp: outbox_due_def inflight_row_def sent_row_def failed_row_def seconds_def)

interpretation db_queue: delivery_queue set ob_id "\<lambda>now. outbox_due now None" ob_attempt_count
  "\<lambda>k T. snd (mark_inflight k T)" "\<lambda>k T. snd (mark_sent k T)"
  "\<lambda>t k T. snd (reschedule_failure t k error n base maxd T)" "max 1 (or_int n 1)"
  for error n base maxd
proof unfold_locales
  fix x k q now
  assume "x \<in> set (snd (mark_inflight k q))"
  then show "(x \<in> set q \<and> ob_id x \<noteq> k) \<or> (\<exists>y \<in> set q. ob_id y = k \<and> ob_id x = k
      \<and> ob_attempt_count x = ob_attempt_count y + 1 \<and> \<not> outbox_due now None x)"
    using inflight.mem_upd [of x k q] outbox_due_simps(1)
    by (auto simp: mark_inflight_def change_outbox_def inflight_row_def)
next
  fix x k q now
  assume "x \<in> set (snd (mark_sent k q))"
  then show "(x \<in> set q \<and> ob_id x \<noteq> k) \<or> (\<exists>y \<in> set q. ob_id y = k \<and> ob_id x = k
      \<and> ob_attempt_count x = ob_attempt_count y \<and> \<not> outbox_due now None x)"
    using sent.mem_upd [of x k q] outbox_due_simps(2)
    by (auto simp: mark_sent_def change_outbox_def sent_row_def)
next
  fix x t k q now
  assume "x \<in> set (snd (reschedule_failure t k error n base maxd q))"
  then have "(x \<in> set q \<and> ob_id x \<noteq> k) \<or> (\<exists>y \<in> set q. ob_id y = k \<and> x = failed_row t error n base maxd y)"
    using failed.mem_upd [of x k t error n base maxd q] by (simp add: reschedule_failure_def change_outbox_def)
  moreover have "outbox_due now None (failed_row t error n base maxd y) \<longrightarrow> ob_attempt_count y < max 1 (or_int n 1)" for y
    by (auto simp: failed_row_def outbox_due_def)
  moreover have "ob_attempt_count (failed_row t error n base maxd y) = ob_attempt_count y" for y
    by (simp add: failed_row_def)
  ultimately show "(x \<in> set q \<and> ob_id x \<noteq> k) \<or> (\<exists>y \<in> set q. ob_id y = k \<and> ob_id x = k
      \<and> ob_attempt_count x = ob_attempt_count y \<and> \<not> outbox_due t None x
      \<and> (outbox_due now None x \<longrightarrow> ob_attempt_count x < max 1 (or_int n 1)))"
    using failed.key_f outbox_due_simps(3) by auto
qed

end
