(* ===== verification/Delivery.thy ===== *)
theory Delivery
  imports Outbox
begin

text \<open>
  Delivery to endpoints: \<^verbatim>\<open>core/services/delivery_service.py\<close> and
  \<^verbatim>\<open>core/delivery_formatting.py\<close>.

  The transport (a coroutine of the gateway) is an argument: a reply to a frame, or an exception.
  In \<open>drain_endpoint_outbox\<close> the transport, the clock and the drawn identifiers depend on the
  number of the call (\<open>drain_env\<close>). \<open>markdown_to_plain_text\<close>, a cascade of regular expressions
  on the text, is the argument \<open>plain\<close>. Every call of a service is a transaction of its own.
  A drain waits for the transport between its transactions, so other drains and deliveries may
  run there: \<open>drain_start\<close>, \<open>drain_take\<close> and \<open>drain_reply\<close> are its pieces, and the step relation
  \<open>delivery_step\<close> interleaves them.
\<close>

section \<open>Formatting\<close>

definition coerce_bool :: "pyval \<Rightarrow> bool \<Rightarrow> bool" where
  "coerce_bool value dflt =
     (case value of
        PBool b \<Rightarrow> b
      | PNone \<Rightarrow> dflt
      | _ \<Rightarrow> (let text = lower (strip (py_str value)) in
             if text \<in> {''1'', ''true'', ''yes'', ''on''} then True
             else if text \<in> {''0'', ''false'', ''no'', ''off''} then False
             else dflt))"

definition metadata_supports_markdown :: "pydict \<Rightarrow> string \<Rightarrow> bool \<Rightarrow> bool" where
  "metadata_supports_markdown metadata provider_type dflt =
     (if dhas metadata ''supports_markdown'' then coerce_bool (dget metadata ''supports_markdown'') dflt
      else if is_dict (dget metadata ''provider'') \<and> dhas (as_dict (dget metadata ''provider'')) ''supports_markdown''
        then coerce_bool (dget (as_dict (dget metadata ''provider'')) ''supports_markdown'') dflt
      else let normalized = lower (strip (if provider_type \<noteq> [] then provider_type
                                          else str_or (dget metadata ''provider_type'') []))
           in if normalized \<in> {''feishu'', ''wechat'', ''meetwechat'', ''wechatbot''} then False else dflt)"

definition delivery_target_supports_markdown :: "endpoint \<Rightarrow> address option \<Rightarrow> bool" where
  "delivery_target_supports_markdown ep addr =
     (let endpoint_default = metadata_supports_markdown (ep_meta ep) (ep_provider_type ep) True in
      case addr of
        None \<Rightarrow> endpoint_default
      | Some a \<Rightarrow> metadata_supports_markdown (ad_meta a) (or_str (ad_provider_type a) (ep_provider_type ep)) endpoint_default)"

fun plain_text_fields :: "(string \<Rightarrow> string) \<Rightarrow> pyval \<Rightarrow> pyval"
and plain_text_items :: "(string \<Rightarrow> string) \<Rightarrow> pyval list \<Rightarrow> pyval list"
and plain_text_dict :: "(string \<Rightarrow> string) \<Rightarrow> (string \<times> pyval) list \<Rightarrow> (string \<times> pyval) list" where
  "plain_text_fields plain (PDict d) = PDict (plain_text_dict plain d)"
| "plain_text_fields plain (PList xs) = PList (plain_text_items plain xs)"
| "plain_text_fields plain v = v"
| "plain_text_items plain [] = []"
| "plain_text_items plain (x # xs) = plain_text_fields plain x # plain_text_items plain xs"
| "plain_text_dict plain [] = []"
| "plain_text_dict plain ((k, v) # d) =
     (k, if k \<in> {''content'', ''text'', ''delta''} \<and> (case v of PStr _ \<Rightarrow> True | _ \<Rightarrow> False)
         then PStr (plain (py_str v)) else plain_text_fields plain v) # plain_text_dict plain d"

definition format_delivery_payload_for_endpoint :: "(string \<Rightarrow> string) \<Rightarrow> pydict \<Rightarrow> bool \<Rightarrow> pydict" where
  "format_delivery_payload_for_endpoint plain payload supports_markdown =
     (if supports_markdown then payload else plain_text_dict plain payload)"

section \<open>Sending\<close>

datatype transport_reply = Reply bool | Raised string string

record delivery_db =
  dv_outbox :: "outbox list"
  dv_attempts :: "attempt list"

definition is_ack_success :: "string \<Rightarrow> bool" where
  "is_ack_success status \<longleftrightarrow>
     lower (strip status) \<in> {''ok'', ''sent'', ''delivered'', ''succeeded'', ''success''}"

definition queueable_policy :: "string \<Rightarrow> bool" where
  "queueable_policy policy \<longleftrightarrow> strip policy \<in> {''store_and_retry'', ''store_in_outbox'', ''queue_until_online''}"

definition delivery_id_from_frame :: "pydict \<Rightarrow> string" where
  "delivery_id_from_frame frame =
     (let payload = as_dict (dget frame ''payload'')
      in strip (py_str (py_or (dget payload ''delivery_id'') (py_or (dget frame ''delivery_id'') (PStr [])))))"

definition address_payload :: "address option \<Rightarrow> pydict" where
  "address_payload addr =
     (case addr of
        None \<Rightarrow> []
      | Some a \<Rightarrow> [(''target_address_id'', PStr (ad_address_id a)), (''target_provider_type'', PStr (ad_provider_type a)),
                   (''target_address_type'', PStr (ad_address_type a)), (''target_external_ref'', PStr (ad_external_ref a))])"

definition delivery_frame ::
  "(string \<Rightarrow> string) \<Rightarrow> string \<Rightarrow> endpoint \<Rightarrow> address option \<Rightarrow> string \<Rightarrow> pydict \<Rightarrow> pydict" where
  "delivery_frame plain delivery_id ep addr message_type payload =
     (let enriched = format_delivery_payload_for_endpoint plain (dmerge payload (address_payload addr))
            (delivery_target_supports_markdown ep addr)
      in [(''schema'', PStr ''meetyou.endpoint.ws.v4''), (''type'', PStr (''delivery.'' @ message_type)),
          (''target_endpoint_id'', PStr (ep_endpoint_id ep)), (''delivery_id'', PStr delivery_id),
          (''payload'', PDict (dset ''delivery_id'' (PStr delivery_id) enriched))])"

text \<open>The identifiers that one delivery draws.\<close>

record drawn_ids =
  di_delivery :: string
  di_outbox_row :: row_id
  di_outbox :: string
  di_attempt_row :: row_id

record delivery_result =
  dr_sent :: bool
  dr_status :: string
  dr_frame :: pydict

text \<open>The exception of the transport, with its message and the name of its type.\<close>

datatype transport_error = TransportRaised string string

definition deliver ::
  "(string \<Rightarrow> string) \<Rightarrow> (string \<Rightarrow> pydict \<Rightarrow> transport_reply) option \<Rightarrow> drawn_ids \<Rightarrow> endpoint \<Rightarrow> address option
   \<Rightarrow> string \<Rightarrow> pydict \<Rightarrow> string \<Rightarrow> delivery_db \<Rightarrow> (transport_error + delivery_result) \<times> delivery_db" where
  "deliver plain transport ids ep addr message_type payload offline_policy db =
     (let delivery_id = ''delivery_'' @ di_delivery ids;
          frame = delivery_frame plain delivery_id ep addr message_type payload;
          address_row = map_option ad_id addr;
          meta = [(''offline_policy'', PStr offline_policy)]
      in case (case transport of
                 None \<Rightarrow> Inr False
               | Some tr \<Rightarrow> (case tr (ep_endpoint_id ep) frame of
                               Reply b \<Rightarrow> Inr b | Raised msg ty \<Rightarrow> Inl (TransportRaised msg ty))) of
           Inl e \<Rightarrow> (Inl e, db)
         | Inr sent \<Rightarrow>
            (let status = (if sent \<and> addr \<noteq> None then ''dispatched'' else if sent then ''sent'' else ''queued'');
                 (queued, db1) = (if \<not> sent \<and> queueable_policy offline_policy
                   then (let (row, T) = enqueue (di_outbox_row ids) (di_outbox ids) (ep_id ep) address_row
                                          message_type frame meta (dv_outbox db)
                         in (Some (ob_id row), db\<lparr>dv_outbox := T\<rparr>))
                   else (None, db));
                 (_, A) = record_attempt (di_delivery ids)
                   \<lparr>da_id = di_attempt_row ids, da_delivery_id = delivery_id, da_outbox_id = queued,
                    da_target_endpoint_id = ep_id ep, da_target_address_id = address_row,
                    da_message_type = message_type, da_status = status, da_payload = frame, da_error = [],
                    da_meta = meta\<rparr> (dv_attempts db1)
             in (Inr \<lparr>dr_sent = sent, dr_status = status, dr_frame = frame\<rparr>, db1\<lparr>dv_attempts := A\<rparr>)))"

definition deliver_to_address ::
  "(string \<Rightarrow> string) \<Rightarrow> (string \<Rightarrow> pydict \<Rightarrow> transport_reply) option \<Rightarrow> drawn_ids \<Rightarrow> endpoint \<Rightarrow> address
   \<Rightarrow> string \<Rightarrow> pydict \<Rightarrow> string \<Rightarrow> delivery_db \<Rightarrow> (transport_error + delivery_result) \<times> delivery_db" where
  "deliver_to_address plain transport ids ep addr = deliver plain transport ids ep (Some addr)"

section \<open>Acknowledgements\<close>

datatype ack_result =
    DeliveryIdRequired
  | DeliveryNotFound string
  | Acknowledged (ack_status: string) (ack_delivery_id: string) (ack_queued: bool) (ack_attempt_status: string)

definition attempt_status_of :: "attempt option \<Rightarrow> string" where
  "attempt_status_of row = (case row of Some r \<Rightarrow> da_status r | None \<Rightarrow> [])"

definition ack_success :: "string \<Rightarrow> pydict \<Rightarrow> attempt \<Rightarrow> delivery_db \<Rightarrow> ack_result \<times> delivery_db" where
  "ack_success delivery_id result_meta att db =
     (let T = (case da_outbox_id att of Some i \<Rightarrow> snd (mark_sent i (dv_outbox db)) | None \<Rightarrow> dv_outbox db);
          (row, A) = update_result delivery_id ''delivered'' (Some []) result_meta None (dv_attempts db)
      in (Acknowledged ''delivered'' delivery_id False (attempt_status_of row), db\<lparr>dv_outbox := T, dv_attempts := A\<rparr>))"

definition ack_failure ::
  "instant \<Rightarrow> drawn_ids \<Rightarrow> string \<Rightarrow> pydict \<Rightarrow> pydict \<Rightarrow> attempt \<Rightarrow> delivery_db \<Rightarrow> ack_result \<times> delivery_db" where
  "ack_failure now ids delivery_id error_payload result_meta att db =
     (let policy = str_or (dget (da_meta att) ''offline_policy'') ''store_and_retry'';
          (queued, outbox_id, next_status, T) =
            (if queueable_policy policy then
               (case da_outbox_id att of
                  None \<Rightarrow>
                    (let (row, T) = enqueue (di_outbox_row ids) (di_outbox ids) (da_target_endpoint_id att)
                           (da_target_address_id att) (or_str (da_message_type att) ''message'') (da_payload att)
                           (dset ''queued_from_delivery_result'' (PBool True) (da_meta att)) (dv_outbox db)
                     in (True, Some (ob_id row), ''retry'', T))
                | Some i \<Rightarrow>
                    (let (row, T) = reschedule_failure now i (str_or (dget error_payload ''message'') []) 5 2 300 (dv_outbox db)
                     in (row \<noteq> None, Some i, or_str (case row of Some r \<Rightarrow> ob_status r | None \<Rightarrow> []) ''retry'', T)))
             else (False, da_outbox_id att, ''failed'', dv_outbox db));
          (row, A) = update_result delivery_id next_status (Some error_payload) result_meta outbox_id (dv_attempts db)
      in (Acknowledged next_status delivery_id queued (attempt_status_of row), db\<lparr>dv_outbox := T, dv_attempts := A\<rparr>))"

definition handle_delivery_result ::
  "instant \<Rightarrow> drawn_ids \<Rightarrow> string \<Rightarrow> string \<Rightarrow> pydict option \<Rightarrow> pydict option \<Rightarrow> delivery_db \<Rightarrow> ack_result \<times> delivery_db" where
  "handle_delivery_result now ids delivery_id status error metadata db =
     (let d = strip delivery_id in
      if d = [] then (DeliveryIdRequired, db)
      else case get_by_delivery_id d (dv_attempts db) of
             None \<Rightarrow> (DeliveryNotFound d, db)
           | Some att \<Rightarrow>
              (let result_meta = dset ''source'' (PStr ''endpoint_delivery_result'') (dict_or metadata) in
               if is_ack_success status then ack_success d result_meta att db
               else ack_failure now ids d
                      (if dict_or error = [] then [(''message'', PStr (or_str status ''delivery failed'')),
                                                   (''type'', PStr ''endpoint_delivery_failed'')]
                       else dict_or error) result_meta att db))"

section \<open>Draining the outbox\<close>

record drain_env =
  dn_transport :: "nat \<Rightarrow> string \<Rightarrow> pydict \<Rightarrow> transport_reply"
  dn_clock :: "nat \<Rightarrow> instant"
  dn_uuid :: "nat \<Rightarrow> string"

record drain_counts =
  dc_drained :: nat
  dc_sent :: nat
  dc_failed :: nat
  dc_dead_letter :: nat

definition note_attempt ::
  "string \<Rightarrow> outbox \<Rightarrow> pydict \<Rightarrow> string \<Rightarrow> string \<Rightarrow> pydict option \<Rightarrow> attempt list \<Rightarrow> attempt list" where
  "note_attempt uuid row frame known_status new_status error A =
     (let delivery_id = delivery_id_from_frame frame; meta = [(''source'', PStr ''outbox_drain'')]
      in if delivery_id \<noteq> [] then snd (update_result delivery_id known_status error meta (Some (ob_id row)) A)
         else snd (record_attempt uuid \<lparr>da_id = uuid, da_delivery_id = [], da_outbox_id = Some (ob_id row),
                da_target_endpoint_id = ob_target_endpoint_id row, da_target_address_id = ob_target_address_id row,
                da_message_type = ob_message_type row, da_status = new_status, da_payload = frame,
                da_error = dict_or error, da_meta = meta\<rparr> A))"

text \<open>
  The body of the loop, for the \<open>k\<close>th row, cut at its \<open>await\<close>: the row is marked in flight, the
  transport answers, and \<open>drain_finish\<close> books the answer.
\<close>

definition inflight_frame :: "outbox \<Rightarrow> outbox \<Rightarrow> pydict" where
  "inflight_frame inflight row = (if ob_payload inflight \<noteq> [] then ob_payload inflight else ob_payload row)"

definition drain_finish ::
  "drain_env \<Rightarrow> int \<Rightarrow> int \<Rightarrow> int \<Rightarrow> nat \<Rightarrow> outbox \<Rightarrow> outbox \<Rightarrow> transport_reply \<Rightarrow> drain_counts \<times> delivery_db
   \<Rightarrow> drain_counts \<times> delivery_db" where
  "drain_finish env max_attempts base_delay max_delay k row inflight reply cdb =
     (let (c, db) = cdb; c1 = c\<lparr>dc_drained := dc_drained c + 1\<rparr>; frame = inflight_frame inflight row in
      if reply = Reply True then
        (c1\<lparr>dc_sent := dc_sent c1 + 1\<rparr>,
         db\<lparr>dv_outbox := snd (mark_sent (ob_id inflight) (dv_outbox db)),
            dv_attempts := note_attempt (dn_uuid env k) inflight frame ''dispatched'' ''sent'' None (dv_attempts db)\<rparr>)
      else
       (let error_payload = (case reply of
              Raised msg ty \<Rightarrow> [(''message'', PStr msg), (''type'', PStr ty)]
            | Reply _ \<Rightarrow> [(''message'', PStr ''endpoint transport unavailable''), (''type'', PStr ''delivery_unavailable'')]);
            (updated, T2) = reschedule_failure (dn_clock env k) (ob_id inflight)
              (str_or (dget error_payload ''message'') []) max_attempts base_delay max_delay (dv_outbox db);
            status = or_str (case updated of Some r \<Rightarrow> ob_status r | None \<Rightarrow> []) ''retry''
        in (if status = ''dead_letter'' then c1\<lparr>dc_dead_letter := dc_dead_letter c1 + 1\<rparr>
            else c1\<lparr>dc_failed := dc_failed c1 + 1\<rparr>,
            db\<lparr>dv_outbox := T2,
               dv_attempts := note_attempt (dn_uuid env k) inflight frame status status (Some error_payload) (dv_attempts db)\<rparr>)))"

definition drain_row ::
  "drain_env \<Rightarrow> string \<Rightarrow> int \<Rightarrow> int \<Rightarrow> int \<Rightarrow> nat \<Rightarrow> outbox \<Rightarrow> drain_counts \<times> delivery_db \<Rightarrow> drain_counts \<times> delivery_db" where
  "drain_row env endpoint_id max_attempts base_delay max_delay k row cdb =
     (let (c, db) = cdb; (got, T1) = mark_inflight (ob_id row) (dv_outbox db) in
      case got of
        None \<Rightarrow> (c, db)
      | Some inflight \<Rightarrow>
          drain_finish env max_attempts base_delay max_delay k row inflight
            (dn_transport env k endpoint_id (inflight_frame inflight row)) (c, db\<lparr>dv_outbox := T1\<rparr>))"

fun drain_loop ::
  "drain_env \<Rightarrow> string \<Rightarrow> int \<Rightarrow> int \<Rightarrow> int \<Rightarrow> nat \<Rightarrow> outbox list \<Rightarrow> drain_counts \<times> delivery_db \<Rightarrow> drain_counts \<times> delivery_db" where
  "drain_loop env endpoint_id ma bd md k [] cdb = cdb"
| "drain_loop env endpoint_id ma bd md k (row # rows) cdb =
     drain_loop env endpoint_id ma bd md (Suc k) rows (drain_row env endpoint_id ma bd md k row cdb)"

definition no_counts :: drain_counts where
  "no_counts = \<lparr>dc_drained = 0, dc_sent = 0, dc_failed = 0, dc_dead_letter = 0\<rparr>"

definition drain_endpoint_outbox ::
  "drain_env option \<Rightarrow> instant \<Rightarrow> endpoint \<Rightarrow> int \<Rightarrow> int \<Rightarrow> int \<Rightarrow> int \<Rightarrow> delivery_db \<Rightarrow> drain_counts \<times> delivery_db" where
  "drain_endpoint_outbox env now ep limit max_attempts base_delay max_delay db =
     (case env of
        None \<Rightarrow> (no_counts, db)
      | Some e \<Rightarrow> drain_loop e (ep_endpoint_id ep) max_attempts base_delay max_delay 0
                   (outbox_list_due now (Some (ep_id ep)) limit (dv_outbox db)) (no_counts, db))"

section \<open>Outcome of a delivery\<close>

text \<open>What the transport answers to the frame of a delivery; without a transport nothing is taken.\<close>

definition transport_answer ::
  "(string \<Rightarrow> pydict \<Rightarrow> transport_reply) option \<Rightarrow> endpoint \<Rightarrow> pydict \<Rightarrow> transport_reply" where
  "transport_answer transport ep frame =
     (case transport of None \<Rightarrow> Reply False | Some tr \<Rightarrow> tr (ep_endpoint_id ep) frame)"

text \<open>
  (C16) The outcome of a delivery is decided by the transport's answer to its frame. Where the
  transport raises, the delivery raises that exception and the outbox and the attempts are what
  they were. Otherwise it returns whether the frame was taken, and records exactly one attempt
  under its delivery id; the message is put into the outbox exactly when the transport did not
  take it and the policy allows queueing, as one pending row that holds the frame, is linked from
  the attempt and is due at once.
\<close>

theorem deliver_outcome:
  "let frame = delivery_frame plain (''delivery_'' @ di_delivery ids) ep addr mt payload in
   case transport_answer transport ep frame of
     Raised msg ty \<Rightarrow> deliver plain transport ids ep addr mt payload policy db = (Inl (TransportRaised msg ty), db)
   | Reply taken \<Rightarrow>
       \<exists>res db' att. deliver plain transport ids ep addr mt payload policy db = (Inr res, db')
     \<and> dr_frame res = frame \<and> dr_sent res = taken
     \<and> dr_status res = (if \<not> taken then ''queued'' else if addr = None then ''sent'' else ''dispatched'')
     \<and> dv_attempts db' = dv_attempts db @ [att] \<and> da_delivery_id att = strip (''delivery_'' @ di_delivery ids)
     \<and> da_status att = dr_status res \<and> da_payload att = frame
     \<and> (if \<not> taken \<and> queueable_policy policy
        then \<exists>row. dv_outbox db' = dv_outbox db @ [row] \<and> da_outbox_id att = Some (ob_id row)
             \<and> ob_payload row = frame \<and> ob_attempt_count row = 0
             \<and> (\<forall>now. outbox_due now (Some (ep_id ep)) row)
        else dv_outbox db' = dv_outbox db \<and> da_outbox_id att = None)"
  by (cases "queueable_policy policy")
    (auto simp: deliver_def transport_answer_def Let_def enqueue_def outbox_create_def record_attempt_def or_str_def
      outbox_due_def split: option.split transport_reply.split)

text \<open>Under a policy that does not queue, a message the transport did not take is dropped, yet
  the result and the recorded attempt say \<open>queued\<close>.
\<close>

theorem dropped_delivery_reported_queued:
  assumes "\<not> queueable_policy policy"
    and "transport_answer transport ep (delivery_frame plain (''delivery_'' @ di_delivery ids) ep addr mt payload) = Reply False"
  shows "\<exists>res db'. deliver plain transport ids ep addr mt payload policy db = (Inr res, db')
     \<and> dv_outbox db' = dv_outbox db \<and> dr_status res = ''queued''
     \<and> da_status (last (dv_attempts db')) = ''queued''"
proof (cases transport)
  case None
  with assms(1) show ?thesis by (simp add: deliver_def transport_answer_def Let_def record_attempt_def)
next
  case (Some tr)
  with assms show ?thesis by (simp add: deliver_def transport_answer_def Let_def record_attempt_def)
qed

theorem dropped_delivery_reported_queued_witness:
  "\<exists>res db'. deliver id None \<lparr>di_delivery = ''d1'', di_outbox_row = ''o1'', di_outbox = ''x'', di_attempt_row = ''a1''\<rparr>
       example_endpoint None ''message'' [] ''drop'' \<lparr>dv_outbox = [], dv_attempts = []\<rparr> = (Inr res, db')
     \<and> dv_outbox db' = [] \<and> dr_status res = ''queued''"
proof -
  have q: "\<not> queueable_policy ''drop''" by code_simp
  show ?thesis
    using dropped_delivery_reported_queued [OF q, of None] by (fastforce simp: transport_answer_def)
qed

section \<open>Accounting of a drain\<close>

definition counts_ok :: "drain_counts \<Rightarrow> bool" where
  "counts_ok c \<longleftrightarrow> dc_drained c = dc_sent c + dc_failed c + dc_dead_letter c"

lemma drain_row_counts:
  assumes "counts_ok c"
  shows "counts_ok (fst (drain_row env e ma bd md k row (c, db)))"
    and "dc_drained (fst (drain_row env e ma bd md k row (c, db))) \<le> Suc (dc_drained c)"
  using assms by (auto simp: drain_row_def drain_finish_def Let_def counts_ok_def case_prod_beta split: option.split)

lemma drain_loop_counts:
  "counts_ok (fst cdb) \<Longrightarrow> counts_ok (fst (drain_loop env e ma bd md k rows cdb))
     \<and> dc_drained (fst (drain_loop env e ma bd md k rows cdb)) \<le> length rows + dc_drained (fst cdb)"
proof (induction rows arbitrary: k cdb)
  case (Cons row rows)
  obtain c db where "cdb = (c, db)" by (cases cdb)
  with Cons.prems Cons.IH [of "drain_row env e ma bd md k row cdb" "Suc k"] drain_row_counts [of c env e ma bd md k row db]
  show ?case by fastforce
qed simp

text \<open>The counts that a drain returns add up: every row taken from the outbox is counted once as
  sent, failed or dead-lettered, and no more rows are taken than the limit allows.
\<close>

theorem drain_counts_add_up:
  "let c = fst (drain_endpoint_outbox env now ep limit ma bd md db)
   in dc_drained c = dc_sent c + dc_failed c + dc_dead_letter c \<and> dc_drained c \<le> outbox_limit limit"
proof (cases env)
  case None
  then show ?thesis by (simp add: drain_endpoint_outbox_def no_counts_def)
next
  case (Some e)
  let ?rows = "outbox_list_due now (Some (ep_id ep)) limit (dv_outbox db)"
  have "length ?rows \<le> outbox_limit limit" by (simp add: outbox_list_due_def)
  moreover have "counts_ok no_counts" by (simp add: counts_ok_def no_counts_def)
  ultimately show ?thesis
    using drain_loop_counts [of "(no_counts, db)" e "ep_endpoint_id ep" ma bd md 0 ?rows] Some
    by (simp add: drain_endpoint_outbox_def counts_ok_def no_counts_def Let_def)
qed

section \<open>Attempts are bounded\<close>

text \<open>
  The service with its drains cut where they await the transport, so that deliveries,
  acknowledgements and other drains run in between. A running drain has the rows it listed and
  has not taken yet, and the row it is sending, as listed and as marked in flight.
\<close>

record drain_run =
  dg_env :: drain_env
  dg_target :: row_id
  dg_rows :: "outbox list"
  dg_sending :: "(outbox \<times> outbox) option"
  dg_index :: nat
  dg_counts :: drain_counts

record delivery_state =
  ds_db :: delivery_db
  ds_drains :: "drain_run list"

definition drain_start :: "drain_env \<Rightarrow> instant \<Rightarrow> endpoint \<Rightarrow> int \<Rightarrow> delivery_db \<Rightarrow> drain_run" where
  "drain_start env now ep limit db =
     \<lparr>dg_env = env, dg_target = ep_id ep, dg_rows = outbox_list_due now (Some (ep_id ep)) limit (dv_outbox db),
      dg_sending = None, dg_index = 0, dg_counts = no_counts\<rparr>"

definition drain_take :: "drain_run \<Rightarrow> delivery_db \<Rightarrow> drain_run \<times> delivery_db" where
  "drain_take d db =
     (case dg_rows d of
        [] \<Rightarrow> (d, db)
      | row # rows \<Rightarrow>
         (let (got, T1) = mark_inflight (ob_id row) (dv_outbox db) in
          case got of
            None \<Rightarrow> (d\<lparr>dg_rows := rows, dg_index := Suc (dg_index d)\<rparr>, db)
          | Some inflight \<Rightarrow> (d\<lparr>dg_rows := rows, dg_sending := Some (row, inflight)\<rparr>, db\<lparr>dv_outbox := T1\<rparr>)))"

definition drain_reply ::
  "int \<Rightarrow> int \<Rightarrow> int \<Rightarrow> transport_reply \<Rightarrow> drain_run \<Rightarrow> delivery_db \<Rightarrow> drain_run \<times> delivery_db" where
  "drain_reply max_attempts base_delay max_delay reply d db =
     (case dg_sending d of
        None \<Rightarrow> (d, db)
      | Some (row, inflight) \<Rightarrow>
         (let (c, db1) = drain_finish (dg_env d) max_attempts base_delay max_delay (dg_index d) row inflight reply
                           (dg_counts d, db)
          in (d\<lparr>dg_sending := None, dg_index := Suc (dg_index d), dg_counts := c\<rparr>, db1)))"

text \<open>Without interruption the two halves are the body of the loop.\<close>

lemma drain_row_halves:
  assumes "dg_rows d = row # rows" "dg_sending d = None"
  shows "case drain_take d db of (d1, db1) \<Rightarrow>
      drain_row (dg_env d) e ma bd md (dg_index d) row (dg_counts d, db) =
        (case dg_sending d1 of
           None \<Rightarrow> (dg_counts d1, db1)
         | Some (row', inflight) \<Rightarrow>
            (case drain_reply ma bd md (dn_transport (dg_env d) (dg_index d) e (inflight_frame inflight row')) d1 db1 of
               (d2, db2) \<Rightarrow> (dg_counts d2, db2)))"
  using assms by (simp add: drain_take_def drain_row_def drain_reply_def case_prod_beta Let_def split: option.split)

text \<open>
  One step of the service with the default limits, where at most \<open>n\<close> drains of an endpoint run
  at once. New rows have fresh ids; the transport answers a drain whatever it likes; a drain ends
  when it is done, or is cancelled where it awaits.
\<close>

inductive delivery_step :: "nat \<Rightarrow> delivery_state \<Rightarrow> delivery_state \<Rightarrow> bool" for n where
  deliver: "di_outbox_row ids \<notin> ob_id ` set (dv_outbox (ds_db s)) \<Longrightarrow>
     deliver plain transport ids ep addr mt payload policy (ds_db s) = (res, db') \<Longrightarrow>
     delivery_step n s (s\<lparr>ds_db := db'\<rparr>)"
| ack: "di_outbox_row ids \<notin> ob_id ` set (dv_outbox (ds_db s)) \<Longrightarrow>
     delivery_step n s (s\<lparr>ds_db := snd (handle_delivery_result now ids d status error md (ds_db s))\<rparr>)"
| start: "length (filter (\<lambda>d. dg_target d = ep_id ep) (ds_drains s)) < n \<Longrightarrow>
     delivery_step n s (s\<lparr>ds_drains := ds_drains s @ [drain_start env now ep lmt (ds_db s)]\<rparr>)"
| take_row: "k < length (ds_drains s) \<Longrightarrow> drain_take (ds_drains s ! k) (ds_db s) = (d', db') \<Longrightarrow>
     delivery_step n s (s\<lparr>ds_db := db', ds_drains := (ds_drains s)[k := d']\<rparr>)"
| reply: "k < length (ds_drains s) \<Longrightarrow> drain_reply 5 2 300 answer (ds_drains s ! k) (ds_db s) = (d', db') \<Longrightarrow>
     delivery_step n s (s\<lparr>ds_db := db', ds_drains := (ds_drains s)[k := d']\<rparr>)"
| stop: "ds_drains s = ds1 @ d # ds2 \<Longrightarrow> delivery_step n s (s\<lparr>ds_drains := ds1 @ ds2\<rparr>)"

inductive delivery_reachable :: "nat \<Rightarrow> delivery_state \<Rightarrow> bool" for n where
  init: "delivery_reachable n \<lparr>ds_db = \<lparr>dv_outbox = [], dv_attempts = []\<rparr>, ds_drains = []\<rparr>"
| step: "delivery_reachable n s \<Longrightarrow> delivery_step n s s' \<Longrightarrow> delivery_reachable n s'"

text \<open>
  The invariant: what is due has attempts left, and the attempts of a row together with the
  drains that have listed it and not taken it yet are bounded.
\<close>

definition listed :: "outbox \<Rightarrow> drain_run \<Rightarrow> bool" where
  "listed r d \<longleftrightarrow> dg_target d = ob_target_endpoint_id r \<and> ob_id r \<in> ob_id ` set (dg_rows d)"

definition waiting :: "outbox \<Rightarrow> drain_run list \<Rightarrow> nat" where
  "waiting r ds = length (filter (listed r) ds)"

definition row_ok :: "nat \<Rightarrow> drain_run list \<Rightarrow> outbox \<Rightarrow> bool" where
  "row_ok n ds r \<longleftrightarrow> attempts_ok 5 r \<and> ob_attempt_count r + int (waiting r ds) \<le> 4 + int n"

definition drain_ok :: "outbox list \<Rightarrow> drain_run \<Rightarrow> bool" where
  "drain_ok T d \<longleftrightarrow> distinct (map ob_id (dg_rows d))
     \<and> (\<forall>row \<in> set (dg_rows d). \<exists>r \<in> set T. ob_id r = ob_id row \<and> ob_target_endpoint_id r = dg_target d)"

lemma drain_okD:
  "drain_ok T d \<Longrightarrow> row \<in> set (dg_rows d) \<Longrightarrow> \<exists>r \<in> set T. ob_id r = ob_id row \<and> ob_target_endpoint_id r = dg_target d"
  by (simp add: drain_ok_def)

definition delivery_ok :: "nat \<Rightarrow> delivery_state \<Rightarrow> bool" where
  "delivery_ok n s \<longleftrightarrow> tbl_wf ob_id (dv_outbox (ds_db s))
     \<and> list_all (row_ok n (ds_drains s)) (dv_outbox (ds_db s))
     \<and> list_all (drain_ok (dv_outbox (ds_db s))) (ds_drains s)"

text \<open>The operations on the outbox that leave the count of attempts alone, and new rows.\<close>

inductive quiet_change :: "outbox list \<Rightarrow> outbox list \<Rightarrow> bool" where
  same: "quiet_change T T"
| sent: "quiet_change T (snd (mark_sent i T))"
| failed: "quiet_change T (snd (reschedule_failure now i err 5 2 300 T))"
| new: "i \<notin> ob_id ` set T \<Longrightarrow> quiet_change T (snd (enqueue i u t a m p md T))"

lemma delivery_ok_upd:
  assumes ok: "delivery_ok n s" and key: "\<And>r. ob_id (f r) = ob_id r"
    and same: "\<And>r. ob_target_endpoint_id (f r) = ob_target_endpoint_id r \<and> ob_attempt_count (f r) = ob_attempt_count r"
    and guard: "\<And>r. attempts_ok 5 r \<Longrightarrow> attempts_ok 5 (f r)"
  shows "delivery_ok n (s\<lparr>ds_db := (ds_db s)\<lparr>dv_outbox := tbl_upd ob_id i f (dv_outbox (ds_db s)), dv_attempts := A\<rparr>\<rparr>)"
proof -
  have op: "row_op ob_id f" by unfold_locales (rule key)
  let ?T = "dv_outbox (ds_db s)"
  have "listed (f r) = listed r" for r by (simp add: fun_eq_iff listed_def key same)
  then have row: "row_ok n (ds_drains s) (f r)" if "row_ok n (ds_drains s) r" for r
    using that same guard by (simp add: row_ok_def waiting_def)
  have "list_all (row_ok n (ds_drains s)) (tbl_upd ob_id i f ?T)"
    using ok row_op.upd_all [OF op, of ?T "row_ok n (ds_drains s)"] row by (auto simp: delivery_ok_def list_all_iff)
  moreover have "drain_ok (tbl_upd ob_id i f ?T) d" if d: "drain_ok ?T d" for d
    unfolding drain_ok_def
  proof (intro conjI ballI)
    fix row assume "row \<in> set (dg_rows d)"
    then obtain r where r: "r \<in> set ?T" "ob_id r = ob_id row" "ob_target_endpoint_id r = dg_target d"
      using d unfolding drain_ok_def by blast
    let ?r = "if ob_id r = i then f r else r"
    have "?r \<in> set (tbl_upd ob_id i f ?T)" unfolding tbl_upd_def set_map by (rule imageI) (rule r(1))
    moreover have "ob_id ?r = ob_id row" "ob_target_endpoint_id ?r = dg_target d" using r(2,3) key same by simp_all
    ultimately show "\<exists>r \<in> set (tbl_upd ob_id i f ?T). ob_id r = ob_id row \<and> ob_target_endpoint_id r = dg_target d" by blast
  qed (use d in \<open>simp add: drain_ok_def\<close>)
  ultimately show ?thesis
    using ok row_op.wf_upd [OF op] by (auto simp: delivery_ok_def list_all_iff)
qed

lemma delivery_ok_new:
  assumes ok: "delivery_ok n s" and fresh: "ob_id r \<notin> ob_id ` set (dv_outbox (ds_db s))"
    and r: "ob_attempt_count r = 0"
  shows "delivery_ok n (s\<lparr>ds_db := (ds_db s)\<lparr>dv_outbox := dv_outbox (ds_db s) @ [r], dv_attempts := A\<rparr>\<rparr>)"
proof -
  have "\<not> listed r d" if "d \<in> set (ds_drains s)" for d
  proof
    assume "listed r d"
    then obtain row where row: "row \<in> set (dg_rows d)" "ob_id r = ob_id row" by (auto simp: listed_def)
    have "drain_ok (dv_outbox (ds_db s)) d" using ok that by (simp add: delivery_ok_def list_all_iff)
    then obtain r2 where "r2 \<in> set (dv_outbox (ds_db s))" "ob_id r2 = ob_id row" using row(1) unfolding drain_ok_def by blast
    then show False using fresh row(2) by (metis imageI)
  qed
  then have "waiting r (ds_drains s) = 0" by (simp add: waiting_def filter_empty_conv)
  then have "row_ok n (ds_drains s) r" using r by (simp add: row_ok_def attempts_ok_def)
  then show ?thesis using ok fresh by (auto simp: delivery_ok_def list_all_iff drain_ok_def)
qed

lemma delivery_ok_quiet:
  assumes "delivery_ok n s" "quiet_change (dv_outbox (ds_db s)) (dv_outbox db')"
  shows "delivery_ok n (s\<lparr>ds_db := db'\<rparr>)"
proof -
  have "delivery_ok n (s\<lparr>ds_db := (ds_db s)\<lparr>dv_outbox := dv_outbox db', dv_attempts := dv_attempts db'\<rparr>\<rparr>)"
    using assms(2)
  proof cases
    case same
    then show ?thesis using assms(1) by (simp add: delivery_ok_def)
  next
    case (sent i)
    then show ?thesis
      using delivery_ok_upd [OF assms(1), where f = sent_row and i = i and A = "dv_attempts db'"] sent.key_f sent.guard_f
      by (simp add: mark_sent_def change_outbox_def sent_row_def)
  next
    case (failed now i err)
    then show ?thesis
      using delivery_ok_upd [OF assms(1), where f = "failed_row now err 5 2 300" and i = i and A = "dv_attempts db'"] failed.key_f failed_guard.guard_f [of 5]
      by (simp add: reschedule_failure_def change_outbox_def failed_row_def or_int_def)
  next
    case (new i u t a m p md)
    then show ?thesis
      using delivery_ok_new [OF assms(1)] by (simp add: enqueue_def outbox_create_def Let_def)
  qed
  then show ?thesis by (simp add: delivery_ok_def)
qed

lemma quiet_deliver:
  assumes "deliver plain transport ids ep addr mt payload policy db = (res, db')"
    and "di_outbox_row ids \<notin> ob_id ` set (dv_outbox db)"
  shows "quiet_change (dv_outbox db) (dv_outbox db')"
proof -
  have "dv_outbox db' = dv_outbox db
    \<or> dv_outbox db' = snd (enqueue (di_outbox_row ids) (di_outbox ids) (ep_id ep) (map_option ad_id addr) mt
         (delivery_frame plain (''delivery_'' @ di_delivery ids) ep addr mt payload) [(''offline_policy'', PStr policy)] (dv_outbox db))"
    using assms(1)
    by (cases transport)
      (auto simp: deliver_def Let_def case_prod_beta split: transport_reply.splits if_splits)
  then show ?thesis using quiet_change.new [OF assms(2)] quiet_change.same by metis
qed

lemma quiet_ack:
  assumes "di_outbox_row ids \<notin> ob_id ` set (dv_outbox db)"
  shows "quiet_change (dv_outbox db) (dv_outbox (snd (handle_delivery_result now ids d status error md db)))"
proof -
  note quiet = quiet_change.same quiet_change.sent quiet_change.failed quiet_change.new [OF assms]
  have "quiet_change (dv_outbox db) (dv_outbox (snd (ack_success d' rm att db)))" for d' rm att
    by (cases "da_outbox_id att") (simp_all add: ack_success_def Let_def case_prod_beta quiet)
  moreover have "quiet_change (dv_outbox db) (dv_outbox (snd (ack_failure now ids d' ep rm att db)))" for d' ep rm att
    by (cases "da_outbox_id att") (simp_all add: ack_failure_def Let_def case_prod_beta quiet)
  ultimately show ?thesis
    by (simp add: handle_delivery_result_def Let_def quiet_change.same split: option.split)
qed

lemma drain_finish_outbox:
  "dv_outbox (snd (drain_finish env ma bd md k row inr reply (c, db))) =
     (if reply = Reply True then snd (mark_sent (ob_id inr) (dv_outbox db))
      else snd (reschedule_failure (dn_clock env k) (ob_id inr)
        (str_or (dget (case reply of Raised msg ty \<Rightarrow> [(''message'', PStr msg), (''type'', PStr ty)]
            | Reply _ \<Rightarrow> [(''message'', PStr ''endpoint transport unavailable''), (''type'', PStr ''delivery_unavailable'')])
          ''message'') []) ma bd md (dv_outbox db)))"
  by (simp add: drain_finish_def Let_def case_prod_beta)

lemma quiet_reply:
  assumes "drain_reply 5 2 300 answer d db = (d', db')"
  shows "quiet_change (dv_outbox db) (dv_outbox db')" "dg_rows d' = dg_rows d" "dg_target d' = dg_target d"
proof -
  show "dg_rows d' = dg_rows d" "dg_target d' = dg_target d"
    using assms by (auto simp: drain_reply_def Let_def case_prod_beta split: option.splits)
  show "quiet_change (dv_outbox db) (dv_outbox db')"
  proof (cases "dg_sending d")
    case None
    then show ?thesis using assms by (simp add: drain_reply_def quiet_change.same)
  next
    case (Some p)
    then have "dv_outbox db' = dv_outbox (snd (drain_finish (dg_env d) 5 2 300 (dg_index d) (fst p) (snd p) answer (dg_counts d, db)))"
      using assms by (auto simp: drain_reply_def Let_def case_prod_beta)
    then show ?thesis by (auto simp: drain_finish_outbox intro: quiet_change.intros)
  qed
qed

text \<open>Running drains with the same rows wait for the same.\<close>

lemma waiting_update:
  assumes "k < length ds"
  shows "int (waiting r (ds[k := d'])) = int (waiting r ds) - of_bool (listed r (ds ! k)) + of_bool (listed r d')"
proof -
  have split: "ds = take k ds @ ds ! k # drop (Suc k) ds" using assms by (rule id_take_nth_drop)
  have "ds[k := d'] = take k ds @ d' # drop (Suc k) ds" using assms by (rule upd_conv_take_nth_drop)
  moreover have "waiting r ds = waiting r (take k ds) + of_bool (listed r (ds ! k)) + waiting r (drop (Suc k) ds)"
    by (subst (1) split) (simp add: waiting_def)
  ultimately show ?thesis by (simp add: waiting_def)
qed

lemma delivery_ok_same_rows:
  assumes "delivery_ok n s" "k < length (ds_drains s)"
    and "dg_rows d' = dg_rows (ds_drains s ! k)" "dg_target d' = dg_target (ds_drains s ! k)"
  shows "delivery_ok n (s\<lparr>ds_drains := (ds_drains s)[k := d']\<rparr>)"
proof -
  have "listed r d' = listed r (ds_drains s ! k)" for r using assms(3,4) by (simp add: listed_def)
  then have w: "waiting r ((ds_drains s)[k := d']) = waiting r (ds_drains s)" for r
    using waiting_update [OF assms(2), of r d'] by simp
  have "drain_ok (dv_outbox (ds_db s)) d'"
    using assms by (simp add: delivery_ok_def list_all_iff drain_ok_def)
  then show ?thesis
    using assms(1) set_update_subset_insert [of "ds_drains s" k d'] w
    by (auto simp: delivery_ok_def list_all_iff row_ok_def)
qed

lemma due_rows:
  assumes "row \<in> set (outbox_list_due now tgt lmt T)"
  shows "row \<in> set T \<and> outbox_due now tgt row"
  using assms by (auto simp: outbox_list_due_def dest: in_set_takeD)

lemma distinct_due: "tbl_wf ob_id T \<Longrightarrow> distinct (map ob_id (outbox_list_due now tgt lmt T))"
proof -
  assume "tbl_wf ob_id T"
  then have "distinct (map ob_id (sort_key outbox_key (filter (outbox_due now tgt) T)))"
    by (auto simp: distinct_map inj_on_def)
  then show ?thesis unfolding outbox_list_due_def by (metis distinct_take take_map)
qed

lemma same_id: "tbl_wf ob_id T \<Longrightarrow> a \<in> set T \<Longrightarrow> b \<in> set T \<Longrightarrow> ob_id a = ob_id b \<Longrightarrow> a = b"
  by (auto simp: distinct_map inj_on_def)

lemma delivery_ok_start:
  assumes ok: "delivery_ok n s" and few: "length (filter (\<lambda>d. dg_target d = ep_id ep) (ds_drains s)) < n"
  shows "delivery_ok n (s\<lparr>ds_drains := ds_drains s @ [drain_start env now ep lmt (ds_db s)]\<rparr>)"
proof -
  let ?T = "dv_outbox (ds_db s)" and ?d = "drain_start env now ep lmt (ds_db s)"
  have wf: "tbl_wf ob_id ?T" using ok by (simp add: delivery_ok_def)
  have d: "dg_rows ?d = outbox_list_due now (Some (ep_id ep)) lmt ?T" "dg_target ?d = ep_id ep"
    by (simp_all add: drain_start_def)
  have "drain_ok ?T ?d"
    using distinct_due [OF wf] due_rows by (fastforce simp: drain_ok_def d outbox_due_def)
  moreover have "row_ok n (ds_drains s @ [?d]) r" if r: "r \<in> set ?T" for r
  proof (cases "listed r ?d")
    case False
    then show ?thesis using ok r by (simp add: delivery_ok_def list_all_iff row_ok_def waiting_def)
  next
    case True
    then obtain row where row: "row \<in> set (outbox_list_due now (Some (ep_id ep)) lmt ?T)" "ob_id r = ob_id row"
      "ep_id ep = ob_target_endpoint_id r"
      by (auto simp: listed_def d)
    have "row = r" using same_id [OF wf _ r] due_rows [OF row(1)] row(2) by simp
    then have "outbox_due now (Some (ep_id ep)) r" using due_rows [OF row(1)] by simp
    moreover have "attempts_ok 5 r" using ok r by (simp add: delivery_ok_def list_all_iff row_ok_def)
    ultimately have four: "ob_attempt_count r \<le> 4" by (auto simp: attempts_ok_def outbox_due_def)
    have "filter (listed r) (ds_drains s) =
        filter (\<lambda>d. ob_id r \<in> ob_id ` set (dg_rows d)) (filter (\<lambda>d. dg_target d = ep_id ep) (ds_drains s))"
      unfolding filter_filter listed_def row(3) ..
    then have "waiting r (ds_drains s) \<le> length (filter (\<lambda>d. dg_target d = ep_id ep) (ds_drains s))"
      unfolding waiting_def by (simp only: length_filter_le)
    then have "waiting r (ds_drains s @ [?d]) \<le> n" using few True by (simp add: waiting_def)
    with four show ?thesis using \<open>attempts_ok 5 r\<close> by (simp add: row_ok_def)
  qed
  ultimately show ?thesis using ok by (simp add: delivery_ok_def list_all_iff)
qed

lemma delivery_ok_stop:
  assumes "delivery_ok n s" "ds_drains s = ds1 @ d # ds2"
  shows "delivery_ok n (s\<lparr>ds_drains := ds1 @ ds2\<rparr>)"
proof -
  have "waiting r (ds1 @ ds2) \<le> waiting r (ds_drains s)" for r using assms(2) by (simp add: waiting_def)
  then have "row_ok n (ds1 @ ds2) r" if "row_ok n (ds_drains s) r" for r
    using that unfolding row_ok_def by (metis add_left_mono of_nat_mono order_trans)
  then show ?thesis using assms by (simp add: delivery_ok_def list_all_iff)
qed

text \<open>Taking a row moves it from the rows that wait to the attempts.\<close>

lemma delivery_ok_take:
  assumes ok: "delivery_ok n s" and k: "k < length (ds_drains s)"
    and take_row: "drain_take (ds_drains s ! k) (ds_db s) = (d', db')"
  shows "delivery_ok n (s\<lparr>ds_db := db', ds_drains := (ds_drains s)[k := d']\<rparr>)"
proof (cases "dg_rows (ds_drains s ! k)")
  case Nil
  then show ?thesis using take_row ok by (auto simp: drain_take_def)
next
  case (Cons row rows)
  let ?d = "ds_drains s ! k" and ?T = "dv_outbox (ds_db s)"
  have wf: "tbl_wf ob_id ?T" using ok by (simp add: delivery_ok_def)
  have d_ok: "drain_ok ?T ?d" using ok k by (simp add: delivery_ok_def list_all_iff)
  then obtain r0 where r0: "r0 \<in> set ?T" "ob_id r0 = ob_id row" "ob_target_endpoint_id r0 = dg_target ?d"
    using Cons unfolding drain_ok_def by auto
  have got: "get_outbox_by_id (ob_id row) ?T = Some r0"
    using tbl_get_unique [OF wf r0(1)] r0(2) by (simp add: get_outbox_by_id_def)
  have new: "dg_rows d' = rows" "dg_target d' = dg_target ?d" "dv_outbox db' = tbl_upd ob_id (ob_id row) inflight_row ?T"
    using take_row got by (auto simp: drain_take_def Cons mark_inflight_def change_outbox_def)
  have dist: "ob_id row \<notin> ob_id ` set rows" "distinct (map ob_id rows)" using d_ok Cons by (auto simp: drain_ok_def)
  let ?ds = "(ds_drains s)[k := d']"
  have w: "int (waiting r ?ds) = int (waiting r (ds_drains s)) - of_bool (ob_id r = ob_id row \<and> dg_target ?d = ob_target_endpoint_id r)" for r
    using waiting_update [OF k, of r d'] dist(1) by (auto simp: listed_def new(1,2) Cons)
  have "row_ok n ?ds r" if r: "r \<in> set (tbl_upd ob_id (ob_id row) inflight_row ?T)" for r
  proof -
    from inflight.mem_upd [OF r] consider "r \<in> set ?T" "ob_id r \<noteq> ob_id row" | "r = inflight_row r0"
      using same_id [OF wf _ r0(1)] r0(2) by metis
    then show ?thesis
    proof cases
      case 1
      then show ?thesis using ok w [of r] by (simp add: delivery_ok_def list_all_iff row_ok_def)
    next
      case 2
      have "listed (inflight_row r0) = listed r0" by (simp add: fun_eq_iff listed_def inflight_row_def)
      then have "waiting (inflight_row r0) ?ds = waiting r0 ?ds" by (simp add: waiting_def)
      moreover have "int (waiting r0 ?ds) = int (waiting r0 (ds_drains s)) - 1" using w [of r0] r0(2,3) by simp
      moreover have "row_ok n (ds_drains s) r0" using ok r0(1) by (simp add: delivery_ok_def list_all_iff)
      ultimately show ?thesis unfolding 2 row_ok_def using inflight.guard_f [of 5 r0] by (simp add: inflight_row_def)
    qed
  qed
  moreover have "drain_ok (dv_outbox db') d" if d: "drain_ok ?T d" for d
  proof -
    have "\<exists>r \<in> set (dv_outbox db'). ob_id r = ob_id q \<and> ob_target_endpoint_id r = dg_target d" if q: "q \<in> set (dg_rows d)" for q
    proof -
      obtain r where r: "r \<in> set ?T" "ob_id r = ob_id q" "ob_target_endpoint_id r = dg_target d"
        using drain_okD [OF d q] by blast
      let ?r = "if ob_id r = ob_id row then inflight_row r else r"
      have "?r \<in> set (dv_outbox db')" unfolding new(3) tbl_upd_def set_map by (rule imageI) (rule r(1))
      moreover have "ob_id ?r = ob_id q" "ob_target_endpoint_id ?r = dg_target d" using r(2,3) by (simp_all add: inflight_row_def)
      ultimately show ?thesis by blast
    qed
    then show ?thesis using d by (simp add: drain_ok_def)
  qed
  moreover have "drain_ok ?T d'" using d_ok dist(2) by (simp add: drain_ok_def new(1,2) Cons)
  moreover have "list_all (drain_ok ?T) ?ds"
  proof -
    have "list_all (drain_ok ?T) (ds_drains s)" using ok by (simp add: delivery_ok_def)
    then show ?thesis
      using \<open>drain_ok ?T d'\<close> set_update_subset_insert [of "ds_drains s" k d'] unfolding list_all_iff by blast
  qed
  ultimately show ?thesis using inflight.wf_upd [OF wf] by (simp add: delivery_ok_def list_all_iff new(3))
qed

lemma delivery_ok_step: "delivery_step n s s' \<Longrightarrow> delivery_ok n s \<Longrightarrow> delivery_ok n s'"
proof (induction rule: delivery_step.induct)
  case (deliver ids s plain transport ep addr mt payload policy res db')
  show ?case by (rule delivery_ok_quiet [OF deliver(3) quiet_deliver [OF deliver(2,1)]])
next
  case (ack ids s now d status error md)
  show ?case by (rule delivery_ok_quiet [OF ack(2) quiet_ack [OF ack(1)]])
next
  case (start ep s env now lmt)
  show ?case by (rule delivery_ok_start [OF start(2,1)])
next
  case (take_row k s d' db')
  show ?case by (rule delivery_ok_take [OF take_row(3,1,2)])
next
  case (reply k s answer d' db')
  note q = quiet_reply [OF reply(2)]
  have "delivery_ok n (s\<lparr>ds_db := db'\<rparr>)" by (rule delivery_ok_quiet [OF reply(3) q(1)])
  from delivery_ok_same_rows [OF this, of k d'] reply(1) q(2,3) show ?case by simp
next
  case (stop s ds1 d ds2)
  show ?case by (rule delivery_ok_stop [OF stop(2,1)])
qed

lemma delivery_reachable_ok: "delivery_reachable n s \<Longrightarrow> delivery_ok n s"
  by (induction rule: delivery_reachable.induct) (simp add: delivery_ok_def, rule delivery_ok_step)

text \<open>
  (C9) A message is taken from the outbox a bounded number of times, also when drains overlap: in
  every state that deliveries, acknowledgements and the steps of drains with the default limits
  lead to, where at most \<open>n\<close> drains of an endpoint run at once, no row has more than \<open>4 + n\<close>
  attempts, five where drains of an endpoint do not overlap, and a row that is waiting to be
  sent has fewer than five.
\<close>

theorem outbox_attempts_bounded:
  assumes "delivery_reachable n s" "r \<in> set (dv_outbox (ds_db s))"
  shows "0 \<le> ob_attempt_count r \<and> ob_attempt_count r \<le> 4 + int n
    \<and> (outbox_due now tgt r \<longrightarrow> ob_attempt_count r < 5)"
  using delivery_reachable_ok [OF assms(1)] assms(2)
  by (auto simp: delivery_ok_def list_all_iff row_ok_def attempts_ok_def outbox_due_def)

definition example_ids :: drawn_ids where
  "example_ids = \<lparr>di_delivery = ''d1'', di_outbox_row = ''o1'', di_outbox = ''x1'', di_attempt_row = ''a1''\<rparr>"

definition example_queue :: delivery_db where
  "example_queue = snd (deliver id None example_ids example_endpoint None ''message'' [] ''store_and_retry''
     \<lparr>dv_outbox = [], dv_attempts = []\<rparr>)"

text \<open>One message, a drain that lists it, takes it and has it refused.\<close>

definition refusing_transport :: drain_env where
  "refusing_transport = \<lparr>dn_transport = (\<lambda>_ _ _. Reply False), dn_clock = (\<lambda>_. 0), dn_uuid = (\<lambda>k. ''u'' @ nat_str k)\<rparr>"

definition example_taken :: "drain_run \<times> delivery_db" where
  "example_taken = drain_take (drain_start refusing_transport 0 example_endpoint 50 example_queue) example_queue"

definition example_refused :: "drain_run \<times> delivery_db" where
  "example_refused = drain_reply 5 2 300 (Reply False) (fst example_taken) (snd example_taken)"

lemma example_refused_reachable: "delivery_reachable 1 \<lparr>ds_db = snd example_refused, ds_drains = [fst example_refused]\<rparr>"
proof -
  let ?d0 = "drain_start refusing_transport 0 example_endpoint 50 example_queue"
  have d: "deliver id None example_ids example_endpoint None ''message'' [] ''store_and_retry'' \<lparr>dv_outbox = [], dv_attempts = []\<rparr>
     = (fst (deliver id None example_ids example_endpoint None ''message'' [] ''store_and_retry''
          \<lparr>dv_outbox = [], dv_attempts = []\<rparr>), example_queue)" by (simp add: example_queue_def)
  have "delivery_reachable 1 \<lparr>ds_db = example_queue, ds_drains = []\<rparr>"
    using delivery_reachable.step [OF delivery_reachable.init delivery_step.deliver [OF _ _]] d by fastforce
  from delivery_reachable.step [OF this delivery_step.start [where env = refusing_transport and now = 0 and ep = example_endpoint and lmt = 50]]
  have "delivery_reachable 1 \<lparr>ds_db = example_queue, ds_drains = [?d0]\<rparr>" by simp
  from delivery_reachable.step [OF this delivery_step.take_row [where k = 0 and d' = "fst example_taken" and db' = "snd example_taken"]]
  have "delivery_reachable 1 \<lparr>ds_db = snd example_taken, ds_drains = [fst example_taken]\<rparr>" by (simp add: example_taken_def)
  from delivery_reachable.step [OF this delivery_step.reply [where k = 0 and answer = "Reply False" and d' = "fst example_refused" and db' = "snd example_refused"]]
  show ?thesis by (simp add: example_refused_def)
qed

theorem outbox_attempts_bounded_witness:
  "map (\<lambda>r. (ob_status r, ob_attempt_count r)) (dv_outbox (snd example_refused)) = [(''retry'', 1)]
   \<and> ob_attempt_count (hd (dv_outbox (snd example_refused))) \<le> 5"
proof
  have m: "hd (dv_outbox (snd example_refused)) \<in> set (dv_outbox (snd example_refused))" by code_simp
  show "ob_attempt_count (hd (dv_outbox (snd example_refused))) \<le> 5"
    using outbox_attempts_bounded [OF example_refused_reachable, of "hd (dv_outbox (snd example_refused))"] m by simp
qed code_simp

text \<open>A failed send backs off exponentially within its bounds: the row is retried after
  \<open>base * 2^(attempts - 1)\<close> seconds, at least one second and at most the maximum, never sooner
  than after an earlier failure, and it goes to the dead letters exactly when its attempts are
  used up, after which it is never due again.
\<close>

theorem reschedule_backoff:
  "let r' = failed_row now error n base maxd r; delay = retry_delay base maxd (ob_attempt_count r)
   in 1 \<le> delay \<and> delay \<le> max 1 (or_int maxd 300)
    \<and> retry_delay base maxd (ob_attempt_count r - 1) \<le> delay
    \<and> (if ob_attempt_count r < max 1 (or_int n 1)
       then ob_status r' = ''retry'' \<and> ob_available_at r' = Some (now + seconds delay)
          \<and> (outbox_due t None r' \<longleftrightarrow> now + seconds delay \<le> t)
       else ob_status r' = ''dead_letter'' \<and> \<not> outbox_due t None r')"
  using retry_delay_bounds [of base maxd "ob_attempt_count r"]
    retry_delay_mono [of "ob_attempt_count r - 1" "ob_attempt_count r" base maxd]
  by (auto simp: failed_row_def outbox_due_def Let_def)

section \<open>Interleaved drains\<close>

text \<open>Two pending messages of one endpoint, and a transport that takes everything.\<close>

definition two_messages :: delivery_db where
  "two_messages = \<lparr>dv_outbox =
     snd (enqueue ''o2'' ''x2'' [] None ''message'' [(''n'', PInt 2)] []
       (snd (enqueue ''o1'' ''x1'' [] None ''message'' [(''n'', PInt 1)] [] []))), dv_attempts = []\<rparr>"

definition taking_transport :: drain_env where
  "taking_transport = \<lparr>dn_transport = (\<lambda>_ _ _. Reply True), dn_clock = (\<lambda>_. 0), dn_uuid = (\<lambda>k. ''u'' @ nat_str k)\<rparr>"

text \<open>
  The first drain has listed both messages and awaits the transport for the first one; a second
  drain of the endpoint runs meanwhile; then the first one goes on.
\<close>

definition interleaved_drains :: "drain_counts \<times> drain_counts \<times> delivery_db" where
  "interleaved_drains =
     (let rows = outbox_list_due 0 (Some []) 50 (dv_outbox two_messages);
          (got, T1) = mark_inflight ''o1'' (dv_outbox two_messages);
          (c2, db2) = drain_endpoint_outbox (Some taking_transport) 0 example_endpoint 50 5 2 300
                        (two_messages\<lparr>dv_outbox := T1\<rparr>);
          cdb3 = drain_finish taking_transport 5 2 300 0 (rows ! 0) (the got) (Reply True) (no_counts, db2);
          (c1, db4) = drain_row taking_transport (ep_endpoint_id example_endpoint) 5 2 300 1 (rows ! 1) cdb3
      in (c1, c2, db4))"

text \<open>Two drains of the same endpoint that overlap at the transport's \<open>await\<close> send a message
  twice: the second drain sends the second message, and the first one, working on the rows it
  listed before, marks it in flight again without looking at its status and sends it once more,
  so that three sends are counted for two messages.
\<close>

theorem interleaved_drains_send_twice:
  "case interleaved_drains of (c1, c2, db) \<Rightarrow>
     dc_sent c1 = 2 \<and> dc_sent c2 = 1
     \<and> map (\<lambda>r. (ob_id r, ob_status r, ob_attempt_count r)) (dv_outbox db)
       = [(''o1'', ''sent'', 1), (''o2'', ''sent'', 2)]"
  by code_simp

text \<open>A failure report that arrives after the delivery was acknowledged re-opens it: the attempt's
  status is not looked at, so a message with attempts left goes back to \<open>retry\<close> and will be sent
  again.
\<close>

theorem late_failure_reopens_delivered:
  assumes "get_by_delivery_id d (dv_attempts db) = Some att" "strip d = d" "d \<noteq> []"
    and "da_outbox_id att = Some i" "get_outbox_by_id i (dv_outbox db) = Some row" "ob_attempt_count row < 5"
    and "queueable_policy (str_or (dget (da_meta att) ''offline_policy'') ''store_and_retry'')"
    and "is_ack_success ok_status" "\<not> is_ack_success bad_status"
  shows "case handle_delivery_result t1 ids d ok_status None None db of (ack1, db1) \<Rightarrow>
      ack_status ack1 = ''delivered''
      \<and> (case handle_delivery_result t2 ids d bad_status None None db1 of (ack2, db2) \<Rightarrow>
           ack_status ack2 = ''retry''
         \<and> map_option ob_status (get_outbox_by_id i (dv_outbox db2)) = Some ''retry'')"
proof -
  define rm where "rm = [(''source'', PStr ''endpoint_delivery_result'')]"
  let ?att = "result_row ''delivered'' (Some []) rm None att"
  obtain ack1 db1 where h1: "handle_delivery_result t1 ids d ok_status None None db = (ack1, db1)"
    by (cases "handle_delivery_result t1 ids d ok_status None None db")
  have db1: "ack_status ack1 = ''delivered''" "dv_outbox db1 = tbl_upd ob_id i sent_row (dv_outbox db)"
    "dv_attempts db1 = tbl_upd da_delivery_id d (result_row ''delivered'' (Some []) rm None) (dv_attempts db)"
    using h1 assms(1-4,8)
    by (auto simp: handle_delivery_result_def ack_success_def Let_def case_prod_beta update_result_def mark_sent_def
        change_outbox_def dict_or_def rm_def)
  have a1: "get_by_delivery_id d (dv_attempts db1) = Some ?att"
    using assms(1,2) by (simp add: db1(3) get_by_delivery_id_def result.get_upd_same)
  have o1: "get_outbox_by_id i (dv_outbox db1) = Some (sent_row row)"
    using assms(5) by (simp add: db1(2) get_outbox_by_id_def sent.get_upd_same)
  have meta: "dget (da_meta ?att) ''offline_policy'' = dget (da_meta att) ''offline_policy''"
    by (simp add: result_row_def rm_def dget_dmerge dhas_def)
  have oid: "da_outbox_id ?att = Some i" using assms(4) by (simp add: result_row_def)
  obtain ack2 db2 where h2: "handle_delivery_result t2 ids d bad_status None None db1 = (ack2, db2)"
    by (cases "handle_delivery_result t2 ids d bad_status None None db1")
  have st: "ob_status (failed_row t2 err 5 2 300 (sent_row row)) = ''retry''" for err
    using assms(6) by (simp add: failed_row_def sent_row_def or_int_def)
  have "ack_status ack2 = ''retry'' \<and> map_option ob_status (get_outbox_by_id i (dv_outbox db2)) = Some ''retry''"
    using h2 a1 o1 meta oid assms(2,3,7,9) st failed.get_upd_same
    by (auto simp: handle_delivery_result_def ack_failure_def Let_def case_prod_beta reschedule_failure_def
        change_outbox_def get_outbox_by_id_def or_str_def)
  with h1 h2 db1(1) show ?thesis by simp
qed

theorem late_failure_reopens_delivered_witness:
  "case handle_delivery_result 0 example_ids ''delivery_d1'' ''ok'' None None example_queue of (ack1, db1) \<Rightarrow>
      ack_status ack1 = ''delivered''
      \<and> (case handle_delivery_result 0 example_ids ''delivery_d1'' ''error'' None None db1 of (ack2, db2) \<Rightarrow>
           ack_status ack2 = ''retry''
         \<and> map_option ob_status (get_outbox_by_id ''o1'' (dv_outbox db2)) = Some ''retry'')"
proof -
  let ?att = "hd (dv_attempts example_queue)"
  let ?row = "hd (dv_outbox example_queue)"
  have "get_by_delivery_id ''delivery_d1'' (dv_attempts example_queue) = Some ?att" "strip ''delivery_d1'' = ''delivery_d1''"
    "''delivery_d1'' \<noteq> []" "da_outbox_id ?att = Some ''o1''"
    "get_outbox_by_id ''o1'' (dv_outbox example_queue) = Some ?row" "ob_attempt_count ?row < 5"
    "queueable_policy (str_or (dget (da_meta ?att) ''offline_policy'') ''store_and_retry'')"
    "is_ack_success ''ok''" "\<not> is_ack_success ''error''" by code_simp+
  from late_failure_reopens_delivered [OF this] show ?thesis .
qed

end
