(* ===== verification/Py_Float.thy ===== *)
theory Py_Float
  imports Py_Base
begin

text \<open>
  Arithmetic of Python floats on finite values: a double is the rational number it stands for,
  and the result of an operation is rounded to the nearest double, ties to even, with 53 bits of
  precision. Overflow, subnormal numbers, infinities and NaN are left out: the modelled code
  adds and multiplies moderate numbers.
\<close>

definition round_half_even :: "rat \<Rightarrow> int" where
  "round_half_even x =
     (let f = \<lfloor>x\<rfloor>; d = x - of_int f
      in if d < 1 / 2 then f else if 1 / 2 < d then f + 1 else if even f then f else f + 1)"

text \<open>\<open>int.bit_length\<close> of a number that is not negative.\<close>

function bit_length :: "int \<Rightarrow> int" where
  "bit_length n = (if n \<le> 0 then 0 else 1 + bit_length (n div 2))"
  by pat_completeness auto
termination
  by (relation "measure nat") auto

declare bit_length.simps [simp del]

text \<open>\<open>2 ^ e\<close> for an exponent of either sign.\<close>

definition pow2 :: "int \<Rightarrow> rat" where
  "pow2 e = (if 0 \<le> e then 2 ^ nat e else 1 / 2 ^ nat (- e))"

text \<open>The exponent of a rational that is not 0: the greatest \<open>e\<close> with \<open>2 ^ e \<le> \<bar>r\<bar>\<close>.\<close>

definition binary_exponent :: "rat \<Rightarrow> int" where
  "binary_exponent r =
     (let (p, q) = quotient_of \<bar>r\<bar>; e = bit_length p - bit_length q
      in if pow2 e \<le> \<bar>r\<bar> then e else e - 1)"

definition fl :: "rat \<Rightarrow> rat" where
  "fl r = (if r = 0 then 0
           else let u = pow2 (binary_exponent r - 52) in of_int (round_half_even (r / u)) * u)"

definition fadd :: "rat \<Rightarrow> rat \<Rightarrow> rat" where "fadd a b = fl (a + b)"
definition fsub :: "rat \<Rightarrow> rat \<Rightarrow> rat" where "fsub a b = fl (a - b)"
definition fmul :: "rat \<Rightarrow> rat \<Rightarrow> rat" where "fmul a b = fl (a * b)"
definition fdiv :: "rat \<Rightarrow> rat \<Rightarrow> rat" where "fdiv a b = fl (a / b)"

text \<open>\<open>float(x)\<close>; \<open>float_of_text\<close> reads a string (None is ValueError).\<close>

fun py_float :: "(string \<Rightarrow> rat option) \<Rightarrow> pyval \<Rightarrow> rat option" where
  "py_float float_of_text (PInt i) = Some (fl (of_int i))"
| "py_float float_of_text (PBool b) = Some (if b then 1 else 0)"
| "py_float float_of_text (PFloat r _) = Some r"
| "py_float float_of_text (PStr s) = float_of_text s"
| "py_float float_of_text _ = None"

section \<open>Integers are exact\<close>

lemma bit_length_le: "n < 2 ^ k \<Longrightarrow> bit_length n \<le> int k"
proof (induction k arbitrary: n)
  case 0
  then show ?case by (simp add: bit_length.simps)
next
  case (Suc k)
  then have "bit_length (n div 2) \<le> int k" by simp
  then show ?case by (subst bit_length.simps) simp
qed

lemma bit_length_1 [simp]: "bit_length 1 = 1"
  by (simp add: bit_length.simps)

lemma round_half_even_int [simp]: "round_half_even (of_int i) = i"
  by (simp add: round_half_even_def Let_def)

lemma fl_0 [simp]: "fl 0 = 0"
  by (simp add: fl_def)

text \<open>An integer of at most 53 bits is a double.\<close>

lemma fl_of_int: "\<bar>i\<bar> < 2 ^ 53 \<Longrightarrow> fl (of_int i) = of_int i"
proof (cases "i = 0")
  case False
  assume i: "\<bar>i\<bar> < 2 ^ 53"
  have "quotient_of \<bar>of_int i\<bar> = (\<bar>i\<bar>, 1)"
    using quotient_of_int [of "\<bar>i\<bar>"] by (simp add: of_int_def Rat.of_int_def flip: of_int_abs)
  then have "binary_exponent (of_int i) \<le> 52"
    using bit_length_le [OF i] by (auto simp: binary_exponent_def Let_def)
  then obtain k where "binary_exponent (of_int i) - 52 = - int k"
    by (metis add.inverse_inverse diff_le_0_iff_le neg_0_le_iff_le nonneg_int_cases)
  then have u: "pow2 (binary_exponent (of_int i) - 52) = 1 / 2 ^ k" by (simp add: pow2_def)
  have "round_half_even (of_int i * 2 ^ k) = i * 2 ^ k" using round_half_even_int [of "i * 2 ^ k"] by simp
  then show ?thesis using False unfolding fl_def u Let_def by simp
qed simp

lemma fl_numeral [simp]: "\<bar>numeral n\<bar> < (2 ^ 53 :: int) \<Longrightarrow> fl (numeral n) = numeral n"
  using fl_of_int [of "numeral n"] by simp

end
