(* ===== verification/Workspace_Policy.thy ===== *)
theory Workspace_Policy
  imports Endpoint_Store
begin

text \<open>
  Workspaces and their governance metadata: \<^verbatim>\<open>core/public_contract.py\<close>, the table of
  \<^verbatim>\<open>core/db/models/workspace.py\<close>, the repository \<^verbatim>\<open>core/db/repositories/workspace.py\<close> and the
  service \<^verbatim>\<open>core/services/workspace_service.py\<close>. The governance metadata says which tools a
  workspace allows and where its tool calls are preferably routed; \<open>Tool_Router\<close> consults both.

  An optional text argument of the service is a \<open>string option\<close>; a service call is one
  transaction on the list of workspaces.
\<close>

section \<open>Public names\<close>

definition public_assistant_modes :: "string list" where
  "public_assistant_modes = [''general'', ''automation'', ''research'', ''danxi'']"

definition public_mode_aliases :: "(string \<times> string) list" where
  "public_mode_aliases =
     [(''normal'', ''general''), (''auto'', ''general''), (''documents'', ''general''),
      (''research'', ''research''), (''study'', ''general''), (''general'', ''general''),
      (''office'', ''automation''), (''automation'', ''automation''), (''danxi'', ''danxi'')]"

definition public_to_internal_mode :: "(string \<times> string) list" where
  "public_to_internal_mode =
     [(''general'', ''general''), (''automation'', ''automation''), (''research'', ''research''), (''danxi'', ''danxi'')]"

definition internal_assistant_modes :: "string list" where
  "internal_assistant_modes = ''auto'' # public_assistant_modes"

definition resolve_alias :: "(string \<times> string) list \<Rightarrow> string \<Rightarrow> string" where
  "resolve_alias table s = (case map_of table s of Some t \<Rightarrow> t | None \<Rightarrow> s)"

definition to_public_assistant_mode :: "pyval \<Rightarrow> string \<Rightarrow> string" where
  "to_public_assistant_mode v fallback =
     (let normalized = resolve_alias public_mode_aliases (lower (clean v))
      in if normalized \<in> set public_assistant_modes then normalized else fallback)"

definition to_internal_assistant_mode :: "pyval \<Rightarrow> string \<Rightarrow> string" where
  "to_internal_assistant_mode v fallback =
     (let fb = lower (clean (PStr fallback));
          fallback_internal =
            (if fb = [] then []
             else if fb \<in> set internal_assistant_modes then fb
             else resolve_alias public_to_internal_mode (to_public_assistant_mode (PStr fallback) ''general''));
          normalized = lower (clean v)
      in if normalized = [] then fallback_internal
         else case map_of public_mode_aliases normalized of
           Some pm \<Rightarrow>
             if pm \<in> set public_assistant_modes
             then (case map_of public_to_internal_mode pm of Some m \<Rightarrow> m | None \<Rightarrow> fallback_internal)
             else if normalized \<in> set internal_assistant_modes then normalized else fallback_internal
         | None \<Rightarrow> if normalized \<in> set internal_assistant_modes then normalized else fallback_internal)"

definition execution_targets :: "string list" where
  "execution_targets = [''core.local'', ''endpoint'', ''workspace_any_endpoint'', ''prefer_endpoint_fallback_core'']"

definition execution_target_aliases :: "(string \<times> string) list" where
  "execution_target_aliases = [(''assistant'', ''core.local''), (''core'', ''core.local'')]"

definition normalize_execution_target :: "pyval \<Rightarrow> string \<Rightarrow> string" where
  "normalize_execution_target v fallback =
     (let normalized = resolve_alias execution_target_aliases (lower (clean v))
      in if normalized \<in> set execution_targets then normalized else fallback)"

definition requires_endpoint_target :: "pyval \<Rightarrow> bool" where
  "requires_endpoint_target v \<longleftrightarrow> normalize_execution_target v ''core.local'' = ''endpoint''"

section \<open>Governance metadata\<close>

definition normalize_memory_ranking_policy :: "pyval \<Rightarrow> string" where
  "normalize_memory_ranking_policy v =
     (let normalized = lower (clean v) in if normalized \<noteq> ''workspace_first'' then ''workspace_first'' else normalized)"

definition normalize_routing_policy :: "pyval \<Rightarrow> string" where
  "normalize_routing_policy v =
     (let normalized = lower (clean v)
      in if normalized \<notin> {''balanced'', ''prefer_origin_endpoint'', ''strict_preferred_endpoint''} then ''balanced''
         else normalized)"

definition normalize_string_list :: "pyval \<Rightarrow> string list" where
  "normalize_string_list v = (case v of PList xs \<Rightarrow> dedup_nonempty [] (map clean xs) | _ \<Rightarrow> [])"

abbreviation strings :: "string list \<Rightarrow> pyval" where
  "strings ss \<equiv> PList (map PStr ss)"

definition routing_override :: "pydict \<Rightarrow> pyval" where
  "routing_override d = PDict
     [(''preferred_target_endpoint_ids'', strings (normalize_string_list (dget d ''preferred_target_endpoint_ids''))),
      (''preferred_endpoint_provider_types'', strings (normalize_string_list (dget d ''preferred_endpoint_provider_types''))),
      (''tool_target_routing_policy'', PStr (normalize_routing_policy (dget d ''tool_target_routing_policy'')))]"

fun overrides_loop :: "pydict \<Rightarrow> pydict \<Rightarrow> pydict" where
  "overrides_loop result [] = result"
| "overrides_loop result ((raw_key, raw) # items) =
     (let tool_key = strip raw_key in
      case raw of
        PDict d \<Rightarrow> overrides_loop (if tool_key = [] then result else dset tool_key (routing_override d) result) items
      | _ \<Rightarrow> overrides_loop result items)"

definition normalize_tool_routing_overrides :: "pyval \<Rightarrow> pydict" where
  "normalize_tool_routing_overrides v = (case v of PDict d \<Rightarrow> overrides_loop [] d | _ \<Rightarrow> [])"

definition governed_keys :: "string list" where
  "governed_keys = [''tool_policy'', ''allowed_tool_ids'', ''preferred_target_endpoint_ids'',
     ''preferred_endpoint_provider_types'', ''preferred_source_profiles'', ''tool_target_routing_policy'',
     ''memory_ranking_policy'', ''tool_routing_overrides'']"

definition effective_tool_policy :: "pydict \<Rightarrow> string" where
  "effective_tool_policy raw =
     (let tool_policy = lower (clean (dget raw ''tool_policy''))
      in if tool_policy \<notin> {''allow_all'', ''allowlist''}
         then (if normalize_string_list (dget raw ''allowed_tool_ids'') \<noteq> [] then ''allowlist'' else ''allow_all'')
         else tool_policy)"

definition governance_entries :: "pydict \<Rightarrow> pydict" where
  "governance_entries raw =
     [(''tool_policy'', PStr (effective_tool_policy raw)),
      (''allowed_tool_ids'', strings (normalize_string_list (dget raw ''allowed_tool_ids''))),
      (''preferred_target_endpoint_ids'', strings (normalize_string_list (dget raw ''preferred_target_endpoint_ids''))),
      (''preferred_endpoint_provider_types'', strings (normalize_string_list (dget raw ''preferred_endpoint_provider_types''))),
      (''preferred_source_profiles'', strings (normalize_string_list (dget raw ''preferred_source_profiles''))),
      (''tool_target_routing_policy'', PStr (normalize_routing_policy (dget raw ''tool_target_routing_policy''))),
      (''memory_ranking_policy'', PStr (normalize_memory_ranking_policy (dget raw ''memory_ranking_policy''))),
      (''tool_routing_overrides'', PDict (normalize_tool_routing_overrides (dget raw ''tool_routing_overrides'')))]"

definition normalize_governance_metadata :: "pydict option \<Rightarrow> pydict" where
  "normalize_governance_metadata metadata =
     (let raw = dict_or metadata
      in filter (\<lambda>(k, _). k \<notin> set governed_keys) raw @ governance_entries raw)"

section \<open>The table\<close>

record workspace =
  ws_id :: row_id
  ws_workspace_id :: string
  ws_principal_id :: row_id
  ws_title :: string
  ws_description :: string
  ws_status :: string
  ws_base_mode :: string
  ws_prompt_overlay :: string
  ws_default_execution_target :: string
  ws_meta :: pydict

definition ws_clash :: "workspace \<Rightarrow> workspace \<Rightarrow> bool" where
  "ws_clash a b \<longleftrightarrow> ws_id a = ws_id b \<or> ws_workspace_id a = ws_workspace_id b"

definition workspace_create ::
  "row_id \<Rightarrow> string \<Rightarrow> row_id \<Rightarrow> string \<Rightarrow> string \<Rightarrow> string \<Rightarrow> string \<Rightarrow> string \<Rightarrow> pydict option
   \<Rightarrow> workspace list \<Rightarrow> pyerr + workspace \<times> workspace list" where
  "workspace_create new_id workspace_id principal_id title description base_mode prompt_overlay target metadata T =
     insert_row ws_clash ''workspaces''
       \<lparr>ws_id = new_id, ws_workspace_id = workspace_id, ws_principal_id = principal_id, ws_title = title,
        ws_description = description, ws_status = ''active'', ws_base_mode = base_mode,
        ws_prompt_overlay = prompt_overlay, ws_default_execution_target = target,
        ws_meta = dict_or metadata\<rparr> T"

definition get_by_workspace_id :: "string \<Rightarrow> workspace list \<Rightarrow> workspace option" where
  "get_by_workspace_id workspace_id T = tbl_get ws_workspace_id workspace_id T"

definition get_workspace_by_id :: "row_id \<Rightarrow> workspace list \<Rightarrow> workspace option" where
  "get_workspace_by_id i T = tbl_get ws_id i T"

definition list_workspaces :: "bool \<Rightarrow> workspace list \<Rightarrow> workspace list" where
  "list_workspaces include_archived T =
     sort_key ws_workspace_id (filter (\<lambda>w. include_archived \<or> ws_status w \<noteq> ''archived'') T)"

definition opt_or :: "'a option \<Rightarrow> 'a \<Rightarrow> 'a" where
  "opt_or x d = (case x of Some v \<Rightarrow> v | None \<Rightarrow> d)"

definition profile_row ::
  "string option \<Rightarrow> string option \<Rightarrow> string option \<Rightarrow> string option \<Rightarrow> string option \<Rightarrow> string option \<Rightarrow> pydict option
   \<Rightarrow> workspace \<Rightarrow> workspace" where
  "profile_row title description status base_mode prompt_overlay target metadata w =
     w\<lparr>ws_title := opt_or title (ws_title w), ws_description := opt_or description (ws_description w),
       ws_status := opt_or status (ws_status w), ws_base_mode := opt_or base_mode (ws_base_mode w),
       ws_prompt_overlay := opt_or prompt_overlay (ws_prompt_overlay w),
       ws_default_execution_target := opt_or target (ws_default_execution_target w),
       ws_meta := (case metadata of Some m \<Rightarrow> dmerge (ws_meta w) m | None \<Rightarrow> ws_meta w)\<rparr>"

definition change_workspace :: "string \<Rightarrow> (workspace \<Rightarrow> workspace) \<Rightarrow> workspace list \<Rightarrow> workspace option \<times> workspace list" where
  "change_workspace workspace_id f T =
     (map_option f (get_by_workspace_id workspace_id T), tbl_upd ws_workspace_id workspace_id f T)"

definition update_profile ::
  "string \<Rightarrow> string option \<Rightarrow> string option \<Rightarrow> string option \<Rightarrow> string option \<Rightarrow> string option \<Rightarrow> string option
   \<Rightarrow> pydict option \<Rightarrow> workspace list \<Rightarrow> workspace option \<times> workspace list" where
  "update_profile workspace_id title description status base_mode prompt_overlay target metadata =
     change_workspace workspace_id (profile_row title description status base_mode prompt_overlay target metadata)"

section \<open>The service\<close>

record governance_view =
  gv_description :: string
  gv_prompt_overlay :: string
  gv_default_execution_target :: string
  gv_tool_policy :: string
  gv_allowed_tool_ids :: "string list"
  gv_preferred_target_endpoint_ids :: "string list"
  gv_preferred_endpoint_provider_types :: "string list"
  gv_preferred_source_profiles :: "string list"
  gv_tool_target_routing_policy :: string
  gv_memory_ranking_policy :: string
  gv_tool_routing_overrides :: pydict

text \<open>The strings of a list value.\<close>

definition str_items :: "pyval \<Rightarrow> string list" where
  "str_items v = map py_str (as_list v)"

definition get_governance_view :: "workspace \<Rightarrow> governance_view" where
  "get_governance_view w =
     (let m = normalize_governance_metadata (Some (ws_meta w)) in
      \<lparr>gv_description = ws_description w, gv_prompt_overlay = ws_prompt_overlay w,
       gv_default_execution_target = normalize_execution_target (PStr (ws_default_execution_target w)) ''core.local'',
       gv_tool_policy = str_or (dget m ''tool_policy'') ''allow_all'',
       gv_allowed_tool_ids = str_items (dget m ''allowed_tool_ids''),
       gv_preferred_target_endpoint_ids = str_items (dget m ''preferred_target_endpoint_ids''),
       gv_preferred_endpoint_provider_types = str_items (dget m ''preferred_endpoint_provider_types''),
       gv_preferred_source_profiles = str_items (dget m ''preferred_source_profiles''),
       gv_tool_target_routing_policy = str_or (dget m ''tool_target_routing_policy'') ''balanced'',
       gv_memory_ranking_policy = str_or (dget m ''memory_ranking_policy'') ''workspace_first'',
       gv_tool_routing_overrides = as_dict (dget m ''tool_routing_overrides'')\<rparr>)"

record target_preferences =
  tp_endpoint_ids :: "string list"
  tp_provider_types :: "string list"
  tp_routing_policy :: string
  tp_source :: string

fun override_for :: "pydict \<Rightarrow> string list \<Rightarrow> (string \<times> pydict) option" where
  "override_for overrides [] = None"
| "override_for overrides (key # keys) =
     (if key = [] then override_for overrides keys
      else case dget overrides key of PDict d \<Rightarrow> Some (key, d) | _ \<Rightarrow> override_for overrides keys)"

definition get_effective_tool_target_preferences :: "workspace \<Rightarrow> string \<Rightarrow> string \<Rightarrow> string \<Rightarrow> target_preferences" where
  "get_effective_tool_target_preferences w tool_key abstract_tool_key concrete_tool_id =
     (let g = get_governance_view w in
      case override_for (gv_tool_routing_overrides g) [strip tool_key, strip abstract_tool_key, strip concrete_tool_id] of
        Some (key, d) \<Rightarrow>
          \<lparr>tp_endpoint_ids = or_list (str_items (dget d ''preferred_target_endpoint_ids'')) (gv_preferred_target_endpoint_ids g),
           tp_provider_types = or_list (str_items (dget d ''preferred_endpoint_provider_types'')) (gv_preferred_endpoint_provider_types g),
           tp_routing_policy = str_or (dget d ''tool_target_routing_policy'') (or_str (gv_tool_target_routing_policy g) ''balanced''),
           tp_source = key\<rparr>
      | None \<Rightarrow>
          \<lparr>tp_endpoint_ids = gv_preferred_target_endpoint_ids g,
           tp_provider_types = gv_preferred_endpoint_provider_types g,
           tp_routing_policy = or_str (gv_tool_target_routing_policy g) ''balanced'',
           tp_source = ''workspace_default''\<rparr>)"

definition tool_allowed :: "workspace \<Rightarrow> string \<Rightarrow> bool" where
  "tool_allowed w tool_id =
     (let t = strip tool_id; g = get_governance_view w
      in if t = [] then True
         else if gv_tool_policy g \<noteq> ''allowlist'' then True
         else t \<in> set (gv_allowed_tool_ids g))"

definition ensured_row ::
  "string \<Rightarrow> string \<Rightarrow> string \<Rightarrow> string \<Rightarrow> pydict option \<Rightarrow> workspace \<Rightarrow> workspace" where
  "ensured_row description base_mode prompt_overlay target metadata w =
     w\<lparr>ws_description := or_str (strip description) (ws_description w),
       ws_base_mode := or_str (to_public_assistant_mode (PStr base_mode) ''general'') (ws_base_mode w),
       ws_prompt_overlay := or_str (strip prompt_overlay) (ws_prompt_overlay w),
       ws_default_execution_target :=
         or_str (normalize_execution_target (PStr target) ''core.local'') (ws_default_execution_target w),
       ws_meta := (case metadata of
           Some m \<Rightarrow> if m = [] then ws_meta w else normalize_governance_metadata (Some (dmerge (ws_meta w) m))
         | None \<Rightarrow> ws_meta w)\<rparr>"

definition ensure_workspace ::
  "row_id \<Rightarrow> string \<Rightarrow> row_id \<Rightarrow> string \<Rightarrow> string \<Rightarrow> string \<Rightarrow> string \<Rightarrow> string \<Rightarrow> pydict option
   \<Rightarrow> workspace list \<Rightarrow> pyerr + workspace \<times> workspace list" where
  "ensure_workspace new_id workspace_id principal_id title description base_mode prompt_overlay target metadata T =
     (case get_by_workspace_id workspace_id T of
        Some w \<Rightarrow>
          (let f = ensured_row description base_mode prompt_overlay target metadata
           in Inr (f w, tbl_upd ws_workspace_id workspace_id f T))
      | None \<Rightarrow>
          workspace_create new_id workspace_id principal_id title (strip description)
            (to_public_assistant_mode (PStr base_mode) ''general'') (strip prompt_overlay)
            (normalize_execution_target (PStr target) ''core.local'')
            (Some (normalize_governance_metadata metadata)) T)"

definition update_workspace ::
  "string \<Rightarrow> string option \<Rightarrow> string option \<Rightarrow> string option \<Rightarrow> string option \<Rightarrow> string option \<Rightarrow> string option
   \<Rightarrow> pydict option \<Rightarrow> workspace list \<Rightarrow> workspace option \<times> workspace list" where
  "update_workspace workspace_id title description status base_mode prompt_overlay target metadata =
     update_profile workspace_id (map_option (\<lambda>s. strip s) title) (map_option (\<lambda>s. strip s) description)
       (map_option (\<lambda>s. strip s) status)
       (map_option (\<lambda>s. to_public_assistant_mode (PStr s) ''general'') base_mode)
       (map_option (\<lambda>s. strip s) prompt_overlay)
       (map_option (\<lambda>s. normalize_execution_target (PStr s) ''core.local'') target)
       (map_option (\<lambda>m. normalize_governance_metadata (Some m)) metadata)"

definition archive_workspace :: "string \<Rightarrow> workspace list \<Rightarrow> pyerr + workspace option \<times> workspace list" where
  "archive_workspace workspace_id T =
     (let normalized = strip workspace_id
      in if normalized = ''personal'' then Inl (ValueError ''personal workspace cannot be archived.'')
         else Inr (change_workspace normalized (\<lambda>w. w\<lparr>ws_status := ''archived''\<rparr>) T))"

definition restore_workspace :: "string \<Rightarrow> workspace list \<Rightarrow> workspace option \<times> workspace list" where
  "restore_workspace workspace_id = change_workspace (strip workspace_id) (\<lambda>w. w\<lparr>ws_status := ''active''\<rparr>)"

section \<open>Normal forms\<close>

lemma py_str_PStr [simp]: "py_str \<circ> PStr = id"
  by auto

lemma str_items_strings [simp]: "str_items (strings ss) = ss"
  by (simp add: str_items_def)

lemma dedup_nonempty_id:
  "distinct ss \<Longrightarrow> [] \<notin> set ss \<Longrightarrow> set ss \<inter> set seen = {} \<Longrightarrow> dedup_nonempty seen ss = ss"
  by (induction seen ss rule: dedup_nonempty.induct) auto

lemma normalize_string_list_facts:
  "distinct (normalize_string_list v)" "[] \<notin> set (normalize_string_list v)"
  "s \<in> set (normalize_string_list v) \<Longrightarrow> strip s = s"
  by (auto simp: normalize_string_list_def distinct_dedup_nonempty set_dedup_nonempty split: pyval.splits)

lemma normalize_string_list_strings [simp]:
  "normalize_string_list (strings (normalize_string_list v)) = normalize_string_list v"
proof -
  have "map clean (map PStr (normalize_string_list v)) = normalize_string_list v"
    by (auto intro!: map_idI simp: normalize_string_list_facts)
  then show ?thesis
    by (simp add: normalize_string_list_def [of "strings _"] dedup_nonempty_id normalize_string_list_facts del: map_map)
qed

lemma normalize_routing_policy_values:
  "normalize_routing_policy v \<in> {''balanced'', ''prefer_origin_endpoint'', ''strict_preferred_endpoint''}"
  by (auto simp: normalize_routing_policy_def Let_def)

lemma normalize_routing_policy_idem [simp]:
  "normalize_routing_policy (PStr (normalize_routing_policy v)) = normalize_routing_policy v"
proof -
  have "normalize_routing_policy (PStr ''balanced'') = ''balanced''"
    "normalize_routing_policy (PStr ''prefer_origin_endpoint'') = ''prefer_origin_endpoint''"
    "normalize_routing_policy (PStr ''strict_preferred_endpoint'') = ''strict_preferred_endpoint''"
    by code_simp+
  then show ?thesis using normalize_routing_policy_values [of v] by auto
qed

lemma normalize_memory_ranking_policy_const [simp]: "normalize_memory_ranking_policy v = ''workspace_first''"
  by (simp add: normalize_memory_ranking_policy_def Let_def)

lemma routing_override_idem [simp]:
  "routing_override d = PDict e \<Longrightarrow> routing_override e = PDict e"
  by (auto simp: routing_override_def dget_Cons)

section \<open>Routing overrides\<close>

text \<open>A table of overrides in normal form.\<close>

definition overrides_ok :: "pydict \<Rightarrow> bool" where
  "overrides_ok d \<longleftrightarrow> distinct (map fst d) \<and>
     list_all (\<lambda>(k, v). k \<noteq> [] \<and> strip k = k \<and> (case v of PDict e \<Rightarrow> routing_override e = PDict e | _ \<Rightarrow> False)) d"

lemma dset_new: "k \<notin> fst ` set d \<Longrightarrow> dset k v d = d @ [(k, v)]"
  by (induction d) auto

lemma overrides_ok_dset:
  "overrides_ok r \<Longrightarrow> k \<noteq> [] \<Longrightarrow> strip k = k \<Longrightarrow> overrides_ok (dset k (routing_override d) r)"
proof -
  assume r: "overrides_ok r" and k: "k \<noteq> []" "strip k = k"
  obtain e where e: "routing_override d = PDict e" by (simp add: routing_override_def)
  have "distinct (map fst (dset k (PDict e) r))" using r by (simp add: overrides_ok_def distinct_update)
  moreover have "p \<in> set (dset k (PDict e) r) \<Longrightarrow> p = (k, PDict e) \<or> p \<in> set r" for p
    using set_dset_subset [of k "PDict e" r] by auto
  ultimately show ?thesis
    using r k routing_override_idem [OF e] unfolding e overrides_ok_def list_all_iff by fastforce
qed

lemma overrides_loop_ok: "overrides_ok r \<Longrightarrow> overrides_ok (overrides_loop r d)"
proof (induction r d rule: overrides_loop.induct)
  case (2 result raw_key raw items)
  have "strip (strip raw_key) = strip raw_key" by simp
  then show ?case using 2 overrides_ok_dset [of result "strip raw_key"]
    by (cases raw) (auto simp: Let_def)
qed simp

lemma overrides_loop_id:
  "overrides_ok (r @ d) \<Longrightarrow> overrides_loop r d = r @ d"
proof (induction d arbitrary: r)
  case (Cons p d)
  then obtain k e where p: "p = (k, PDict e)" and e: "routing_override e = PDict e"
    and k: "k \<noteq> []" "strip k = k"
    by (cases p) (auto simp: overrides_ok_def split: pyval.splits)
  have "k \<notin> fst ` set r" using Cons.prems p by (auto simp: overrides_ok_def)
  then show ?case using Cons.IH [of "r @ [p]"] Cons.prems p e k by (simp add: dset_new)
qed simp

lemma normalize_tool_routing_overrides_idem [simp]:
  "normalize_tool_routing_overrides (PDict (normalize_tool_routing_overrides v)) = normalize_tool_routing_overrides v"
proof -
  have "overrides_ok (normalize_tool_routing_overrides v)"
    by (cases v) (auto simp: normalize_tool_routing_overrides_def intro!: overrides_loop_ok, auto simp: overrides_ok_def)
  then show ?thesis
    by (simp add: normalize_tool_routing_overrides_def [of "PDict _"] overrides_loop_id)
qed

section \<open>Properties of the governance metadata\<close>

lemma dget_append: "dget (d @ e) k = (if dhas d k then dget d k else dget e k)"
  by (simp add: dget_def dhas_def map_add_def split: option.splits)

lemma dhas_filter: "dhas (filter (\<lambda>(k, _). k \<notin> K) d) k \<longleftrightarrow> k \<notin> K \<and> dhas d k"
  by (induction d) (auto simp: dhas_def)

lemma dget_normalized:
  "k \<in> set governed_keys \<Longrightarrow> dget (normalize_governance_metadata m) k = dget (governance_entries (dict_or m)) k"
  by (simp add: normalize_governance_metadata_def Let_def dget_append dhas_filter)

lemma effective_tool_policy_values: "effective_tool_policy raw \<in> {''allow_all'', ''allowlist''}"
  by (auto simp: effective_tool_policy_def Let_def)

lemma dget_governance_entries:
  "dget (governance_entries raw) ''tool_policy'' = PStr (effective_tool_policy raw)"
  "dget (governance_entries raw) ''allowed_tool_ids'' = strings (normalize_string_list (dget raw ''allowed_tool_ids''))"
  "dget (governance_entries raw) ''preferred_target_endpoint_ids'' =
     strings (normalize_string_list (dget raw ''preferred_target_endpoint_ids''))"
  "dget (governance_entries raw) ''preferred_endpoint_provider_types'' =
     strings (normalize_string_list (dget raw ''preferred_endpoint_provider_types''))"
  "dget (governance_entries raw) ''preferred_source_profiles'' =
     strings (normalize_string_list (dget raw ''preferred_source_profiles''))"
  "dget (governance_entries raw) ''tool_target_routing_policy'' =
     PStr (normalize_routing_policy (dget raw ''tool_target_routing_policy''))"
  "dget (governance_entries raw) ''memory_ranking_policy'' = PStr ''workspace_first''"
  "dget (governance_entries raw) ''tool_routing_overrides'' =
     PDict (normalize_tool_routing_overrides (dget raw ''tool_routing_overrides''))"
  by (simp_all add: governance_entries_def dget_Cons)

lemma effective_tool_policy_normalized [simp]:
  "effective_tool_policy (normalize_governance_metadata m) = effective_tool_policy (dict_or m)"
proof -
  have "lower (clean (PStr ''allow_all'')) = ''allow_all''" "lower (clean (PStr ''allowlist'')) = ''allowlist''"
    by code_simp+
  then show ?thesis using effective_tool_policy_values [of "dict_or m"]
    by (auto simp: effective_tool_policy_def [of "normalize_governance_metadata m"] dget_normalized
        dget_governance_entries governed_keys_def)
qed

lemma governance_entries_normalized [simp]:
  "governance_entries (normalize_governance_metadata m) = governance_entries (dict_or m)"
  by (simp add: governance_entries_def [of "normalize_governance_metadata m"] dget_normalized governed_keys_def
      dget_governance_entries) (simp add: governance_entries_def)

text \<open>Normalising the governance metadata of a workspace is idempotent: what \<open>ensure_workspace\<close> and
  \<open>update_workspace\<close> store is read back by \<open>get_governance_view\<close>, which normalises again,
  without any change.\<close>

theorem normalize_governance_metadata_idempotent:
  "normalize_governance_metadata (Some (normalize_governance_metadata m)) = normalize_governance_metadata m"
proof -
  have "filter (\<lambda>(k, _). k \<notin> set governed_keys) (governance_entries d) = []" for d
    by (simp add: governance_entries_def governed_keys_def)
  then show ?thesis
    by (simp add: normalize_governance_metadata_def [of "Some _"] Let_def dict_or_def [of "Some _"])
      (simp add: normalize_governance_metadata_def Let_def)
qed

lemma tool_allowed_iff:
  "tool_allowed w t \<longleftrightarrow> strip t = [] \<or> effective_tool_policy (ws_meta w) \<noteq> ''allowlist''
     \<or> strip t \<in> set (normalize_string_list (dget (ws_meta w) ''allowed_tool_ids''))"
proof -
  have "str_or (PStr (effective_tool_policy d)) ''allow_all'' = effective_tool_policy d" for d
    using effective_tool_policy_values [of d] by (auto simp: str_or_def py_or_def)
  then show ?thesis
    by (auto simp: tool_allowed_def get_governance_view_def Let_def dget_normalized governed_keys_def
        dget_governance_entries dict_or_def)
qed

definition same_tool_rules :: "pydict \<Rightarrow> pydict \<Rightarrow> bool" where
  "same_tool_rules d e \<longleftrightarrow> dget d ''tool_policy'' = dget e ''tool_policy'' \<and> dget d ''allowed_tool_ids'' = dget e ''allowed_tool_ids''"

lemma effective_tool_policy_cong: "same_tool_rules d e \<Longrightarrow> effective_tool_policy d = effective_tool_policy e"
  by (simp add: effective_tool_policy_def same_tool_rules_def)

lemma tool_rules_normalized:
  "same_tool_rules d e \<Longrightarrow> tool_allowed (w\<lparr>ws_meta := normalize_governance_metadata (Some d)\<rparr>) t = tool_allowed (w\<lparr>ws_meta := e\<rparr>) t"
  by (simp add: tool_allowed_iff effective_tool_policy_cong [of d e] dget_normalized governed_keys_def
      dget_governance_entries dict_or_def) (simp add: same_tool_rules_def)

text \<open>Re-registering a workspace keeps its tool policy: when the metadata passed to
  \<open>ensure_workspace\<close> for an existing workspace mention neither the tool policy nor the allowed
  tools, every tool is allowed afterwards exactly when it was allowed before, whatever else the
  call changes.\<close>

theorem ensure_workspace_keeps_tool_policy:
  assumes "get_by_workspace_id wid T = Some w"
    and "ensure_workspace new_id wid prin title descr mode prompt target (Some m) T = Inr (w', T')"
    and "distinct (map fst m)" "\<not> dhas m ''tool_policy''" "\<not> dhas m ''allowed_tool_ids''"
  shows "tool_allowed w' t = tool_allowed w t"
proof -
  have m: "same_tool_rules (dmerge (ws_meta w) m) (ws_meta w)"
    using assms(3-5) by (simp add: same_tool_rules_def dget_dmerge)
  have "ws_meta w' = (if m = [] then ws_meta w else normalize_governance_metadata (Some (dmerge (ws_meta w) m)))"
    using assms(1,2) by (auto simp: ensure_workspace_def Let_def ensured_row_def)
  then have "tool_allowed w' t = tool_allowed (w\<lparr>ws_meta := ws_meta w'\<rparr>) t"
    by (simp add: tool_allowed_iff)
  also have "\<dots> = tool_allowed (w\<lparr>ws_meta := ws_meta w\<rparr>) t"
    using tool_rules_normalized [OF m, of w t] \<open>ws_meta w' = _\<close> by auto
  finally show ?thesis by simp
qed


definition example_workspace :: workspace where
  "example_workspace =
     \<lparr>ws_id = ''w1'', ws_workspace_id = ''lab'', ws_principal_id = ''p1'', ws_title = ''Lab'', ws_description = [],
      ws_status = ''active'', ws_base_mode = ''general'', ws_prompt_overlay = [],
      ws_default_execution_target = ''core.local'',
      ws_meta = [(''tool_policy'', PStr ''allowlist''), (''allowed_tool_ids'', PList [PStr ''file.read''])]\<rparr>"

theorem ensure_workspace_keeps_tool_policy_witness:
  "tool_allowed (ensured_row ''new'' ''office'' [] ''core'' (Some [(''owner'', PStr ''x'')]) example_workspace) ''shell.run''
     = tool_allowed example_workspace ''shell.run''"
proof -
  have g: "get_by_workspace_id ''lab'' [example_workspace] = Some example_workspace"
    by (simp add: get_by_workspace_id_def example_workspace_def)
  have e: "ensure_workspace ''w2'' ''lab'' ''p1'' ''Lab'' ''new'' ''office'' [] ''core'' (Some [(''owner'', PStr ''x'')]) [example_workspace]
      = Inr (ensured_row ''new'' ''office'' [] ''core'' (Some [(''owner'', PStr ''x'')]) example_workspace,
             tbl_upd ws_workspace_id ''lab''
               (ensured_row ''new'' ''office'' [] ''core'' (Some [(''owner'', PStr ''x'')])) [example_workspace])"
    by (simp add: ensure_workspace_def g Let_def)
  show ?thesis
    by (rule ensure_workspace_keeps_tool_policy [OF g e]) (simp_all add: dhas_def)
qed

lemma distinct_governance: "distinct (map fst m) \<Longrightarrow> distinct (map fst (normalize_governance_metadata (Some m)))"
proof -
  assume "distinct (map fst m)"
  then have "distinct (map fst (filter (\<lambda>(k, _). k \<notin> set governed_keys) m))"
    by (induction m) auto
  moreover have "map fst (governance_entries m) = governed_keys" "distinct governed_keys"
    by (simp_all add: governance_entries_def governed_keys_def)
  ultimately show ?thesis
    by (auto simp: normalize_governance_metadata_def Let_def dict_or_def image_iff
        dest!: arg_cong [where f = set])
qed

lemma dhas_normalized: "k \<in> set governed_keys \<Longrightarrow> dhas (normalize_governance_metadata m) k"
proof -
  assume k: "k \<in> set governed_keys"
  have "map fst (governance_entries (dict_or m)) = governed_keys"
    by (simp add: governance_entries_def governed_keys_def)
  with k have "k \<in> fst ` set (governance_entries (dict_or m))" by (metis set_map)
  then show ?thesis
    by (simp add: dhas_def normalize_governance_metadata_def Let_def map_of_eq_None_iff image_Un)
qed

text \<open>Updating the metadata of a workspace replaces its tool policy: \<open>update_workspace\<close> normalises
  the partial metadata it is given before it merges them into the stored ones, so an update that
  mentions neither the policy nor the allowed tools writes \<open>allow_all\<close> and an empty list over
  them. After it every tool is allowed, even in a workspace that had an allowlist.\<close>

theorem update_workspace_drops_allowlist:
  assumes "update_workspace wid title descr status mode prompt target (Some m) T = (Some w', T')"
    and "distinct (map fst m)" "\<not> dhas m ''tool_policy''" "\<not> dhas m ''allowed_tool_ids''"
  shows "tool_allowed w' t"
proof -
  have "\<exists>old. ws_meta w' = dmerge old (normalize_governance_metadata (Some m))"
    using assms(1) by (auto simp: update_workspace_def update_profile_def change_workspace_def profile_row_def)
  then obtain old where "ws_meta w' = dmerge old (normalize_governance_metadata (Some m))" ..
  then have d: "dget (ws_meta w') k = dget (normalize_governance_metadata (Some m)) k" if "k \<in> set governed_keys" for k
    using that by (simp add: dget_dmerge distinct_governance [OF assms(2)] dhas_normalized)
  have "effective_tool_policy m = ''allow_all''"
  proof -
    have "dget m ''tool_policy'' = PNone" "dget m ''allowed_tool_ids'' = PNone"
      using assms(3,4) by (auto simp: dget_def dhas_def split: option.splits)
    then show ?thesis by (simp add: effective_tool_policy_def Let_def normalize_string_list_def lower_def)
  qed
  moreover have "same_tool_rules (ws_meta w') (normalize_governance_metadata (Some m))"
    using d by (simp add: same_tool_rules_def governed_keys_def)
  ultimately have "effective_tool_policy (ws_meta w') = ''allow_all''"
    using effective_tool_policy_normalized [of "Some m"] by (simp add: effective_tool_policy_cong dict_or_def)
  then show ?thesis by (simp add: tool_allowed_iff)
qed

theorem update_workspace_drops_allowlist_witness:
  "\<not> tool_allowed example_workspace ''shell.run''
   \<and> tool_allowed (profile_row None None None None None None
        (Some (normalize_governance_metadata (Some [(''owner'', PStr ''x'')]))) example_workspace) ''shell.run''"
proof
  show "\<not> tool_allowed example_workspace ''shell.run''" by code_simp
  have "update_workspace ''lab'' None None None None None None (Some [(''owner'', PStr ''x'')]) [example_workspace]
    = (Some (profile_row None None None None None None
        (Some (normalize_governance_metadata (Some [(''owner'', PStr ''x'')]))) example_workspace),
       tbl_upd ws_workspace_id ''lab'' (profile_row None None None None None None
        (Some (normalize_governance_metadata (Some [(''owner'', PStr ''x'')])))) [example_workspace])"
    by (simp add: update_workspace_def update_profile_def change_workspace_def get_by_workspace_id_def example_workspace_def)
  from update_workspace_drops_allowlist [OF this]
  show "tool_allowed (profile_row None None None None None None
        (Some (normalize_governance_metadata (Some [(''owner'', PStr ''x'')]))) example_workspace) ''shell.run''"
    by (simp add: dhas_def)
qed

end
