(* ===== verification/Tool_Router.thy ===== *)
theory Tool_Router
  imports Py_Float Workspace_Policy
begin

text \<open>
  Where a tool call runs: the resolution half of \<^verbatim>\<open>core/services/tool_router_service.py\<close>. A call
  goes to the core, to the endpoint it names, or to the endpoint with the best score among
  those that offer the tool; resolutions are cached for five seconds. The dispatch half is in
  \<open>Tool_Dispatch\<close>.

  The router reads the endpoint, capability and workspace tables and asks a getter for the
  endpoints that are connected at the moment; \<open>routing_world\<close> holds what it reads. The clock is
  \<open>time.monotonic()\<close> in microseconds. Scores are floats with the arithmetic of \<open>Py_Float\<close>;
  \<open>float_of_text\<close> reads a metric that is given as text. The decision that is logged with the
  operation is kept, less the rounding of its numbers to three decimals.
\<close>

section \<open>Data\<close>

record router_error =
  re_code :: string
  re_message :: string
  re_details :: pydict
  re_retryable :: bool

definition router_err :: "string \<Rightarrow> string \<Rightarrow> pydict \<Rightarrow> bool \<Rightarrow> router_error" where
  "router_err c message details retryable =
     \<lparr>re_code = c, re_message = message, re_details = details, re_retryable = retryable\<rparr>"

record score_breakdown =
  sb_online_status :: rat
  sb_workspace_match :: rat
  sb_preference :: rat
  sb_risk :: rat
  sb_priority :: rat
  sb_load :: rat
  sb_success_rate :: rat
  sb_latency :: rat
  sb_trust :: rat
  sb_cost :: rat

definition sb_total :: "score_breakdown \<Rightarrow> rat" where
  "sb_total b = fadd (fadd (fadd (fadd (fadd (fadd (fadd (fadd (fadd (sb_online_status b) (sb_workspace_match b))
     (sb_preference b)) (sb_risk b)) (sb_priority b)) (sb_load b)) (sb_success_rate b)) (sb_latency b))
     (sb_trust b)) (sb_cost b)"

record routing_policy =
  rp_online_weight :: rat
  rp_db_online_weight :: rat
  rp_workspace_exact_weight :: rat
  rp_workspace_wildcard_weight :: rat
  rp_workspace_open_weight :: rat
  rp_preferred_endpoint_weight :: rat
  rp_preferred_provider_weight :: rat
  rp_low_risk_weight :: rat
  rp_priority_weight :: rat
  rp_load_weight :: rat
  rp_success_weight :: rat
  rp_latency_weight :: rat
  rp_trust_weight :: rat
  rp_cost_weight :: rat

definition default_routing_policy :: routing_policy where
  "default_routing_policy =
     \<lparr>rp_online_weight = 100, rp_db_online_weight = 35, rp_workspace_exact_weight = 28,
      rp_workspace_wildcard_weight = 14, rp_workspace_open_weight = 8, rp_preferred_endpoint_weight = 45,
      rp_preferred_provider_weight = 24, rp_low_risk_weight = 14, rp_priority_weight = 16, rp_load_weight = 20,
      rp_success_weight = 18, rp_latency_weight = 12, rp_trust_weight = 12, rp_cost_weight = 8\<rparr>"

record candidate =
  cd_endpoint :: endpoint
  cd_capability :: capability
  cd_target_type :: string
  cd_breakdown :: score_breakdown
  cd_rejected_reasons :: "string list"

definition cd_score :: "candidate \<Rightarrow> rat" where
  "cd_score c = sb_total (cd_breakdown c)"

datatype routing_decision =
    Explicit_endpoint string string
  | Scored (dec_tool: string) (dec_selected: candidate) (dec_candidate_count: nat) (dec_rejected: "candidate list")
  | Offline_policy string string nat

record execution_target =
  et_target_id :: string
  et_target_type :: string
  et_endpoint :: "endpoint option"
  et_endpoint_capability :: "capability option"
  et_offline_policy :: string
  et_routing_decision :: "routing_decision option"

type_synonym cache_key = "string \<times> string \<times> string \<times> string \<times> bool"
type_synonym resolution_cache = "(cache_key \<times> instant \<times> execution_target) list"

record routing_world =
  rw_endpoints :: "endpoint list"
  rw_capabilities :: "capability list"
  rw_workspaces :: "workspace list"
  rw_connected_getter :: "(pyerr + pyval list) option"
  rw_core_tools :: "string list"

section \<open>Scores\<close>

definition float_metric :: "(string \<Rightarrow> rat option) \<Rightarrow> pydict \<Rightarrow> string \<Rightarrow> rat \<Rightarrow> rat" where
  "float_metric ft metrics key dflt =
     (let v = dget metrics key
      in if truthy v then (case py_float ft v of Some r \<Rightarrow> r | None \<Rightarrow> dflt) else dflt)"

definition score_load :: "(string \<Rightarrow> rat option) \<Rightarrow> pydict \<Rightarrow> routing_policy \<Rightarrow> rat" where
  "score_load ft metrics policy =
     (if metrics = [] then 0
      else
       (let active_calls = float_metric ft metrics ''active_calls'' 0;
            cpu_percent = float_metric ft metrics ''cpu_percent'' 0;
            memory_percent = float_metric ft metrics ''memory_percent'' 0;
            penalty = fadd (fadd (fmul active_calls 5) (fdiv (max 0 (fsub cpu_percent 60)) 5))
                           (fdiv (max 0 (fsub memory_percent 70)) 5)
        in max (- rp_load_weight policy) (fsub (rp_load_weight policy) penalty)))"

definition score_success_rate :: "(string \<Rightarrow> rat option) \<Rightarrow> pydict \<Rightarrow> routing_policy \<Rightarrow> rat" where
  "score_success_rate ft stats policy =
     (let successes = float_metric ft stats ''success_count'' 0;
          failures = float_metric ft stats ''failure_count'' 0;
          total = fadd successes failures
      in if total \<le> 0 then 0
         else fmul (fmul (fsub (fdiv successes total) (1 / 2)) 2) (rp_success_weight policy))"

definition score_latency :: "(string \<Rightarrow> rat option) \<Rightarrow> pydict \<Rightarrow> routing_policy \<Rightarrow> rat" where
  "score_latency ft stats policy =
     (let avg_latency_ms = float_metric ft stats ''average_latency_ms'' (- 1)
      in if avg_latency_ms < 0 then 0
         else
          (let bounded = max 0 (min avg_latency_ms 30000)
           in max (- rp_latency_weight policy) (fmul (rp_latency_weight policy) (fsub 1 (fdiv bounded 15000)))))"

definition external_provider_types :: "string list" where
  "external_provider_types = [''external'', ''webhook'', ''feishu'', ''wechatbot'', ''email'']"

definition score_trust :: "string \<Rightarrow> string \<Rightarrow> routing_policy \<Rightarrow> rat" where
  "score_trust provider_type tool_key policy =
     (let t = strip tool_key;
          local_tool = list_ex (startswith t) [''file.'', ''shell.'', ''workspace.'', ''utility.''];
          delivery_tool = list_ex (startswith t) [''message.'', ''notice.'', ''email.'', ''delivery.'']
      in if provider_type \<in> {''desktop'', ''edge''} \<and> local_tool then rp_trust_weight policy
         else if provider_type \<in> set external_provider_types \<and> delivery_tool then rp_trust_weight policy
         else if provider_type \<in> set external_provider_types \<and> local_tool then - rp_trust_weight policy
         else 0)"

definition score_cost :: "pydict \<Rightarrow> routing_policy \<Rightarrow> rat" where
  "score_cost meta policy =
     (let cost_level = lower (strip (py_str (py_or (dget meta ''cost_level'') (py_or (dget meta ''cost'') (PStr [])))))
      in if cost_level \<in> {''free'', ''low'', ''local''} then rp_cost_weight policy
         else if cost_level \<in> {''high'', ''expensive''} then - rp_cost_weight policy
         else 0)"

definition risk_score :: "string \<Rightarrow> routing_policy \<Rightarrow> rat" where
  "risk_score risk_level policy =
     (let w = rp_low_risk_weight policy in
      case map_of [(''read'', w), (''low'', w), (''network'', fmul w (fl (65 / 100))), (''write'', fmul w (fl (45 / 100))),
                   (''system'', fmul w (fl (2 / 10))), (''high'', 0)] risk_level of
        Some r \<Rightarrow> r
      | None \<Rightarrow> fmul w (fl (35 / 100)))"

definition priority_score :: "int \<Rightarrow> routing_policy \<Rightarrow> rat" where
  "priority_score prio policy =
     (let w = rp_priority_weight policy
      in max (- w) (min w (fmul (fdiv (of_int (100 - prio)) 100) w)))"

definition or_100 :: "int \<Rightarrow> int" where
  "or_100 p = (if p = 0 then 100 else p)"

definition heartbeat_metrics :: "pydict \<Rightarrow> pydict" where
  "heartbeat_metrics meta =
     (case dget meta ''heartbeat_metrics'' of
        PDict m \<Rightarrow> m
      | _ \<Rightarrow> as_dict (dget (as_dict (dget meta ''heartbeat'')) ''metrics''))"

section \<open>Candidates\<close>

definition queueing :: "string \<Rightarrow> bool" where
  "queueing offline_policy \<longleftrightarrow> offline_policy \<in> {''queue_until_online'', ''store_in_outbox''}"

definition is_db_online :: "endpoint \<Rightarrow> bool" where
  "is_db_online ep \<longleftrightarrow> lower (strip (ep_status ep)) \<in> {''ready'', ''online'', ''active''}"

definition connected_endpoint_ids :: "(pyerr + pyval list) option \<Rightarrow> string list option" where
  "connected_endpoint_ids getter =
     (case getter of
        Some (Inr values) \<Rightarrow> Some (filter (\<lambda>s. s \<noteq> []) (map clean values))
      | _ \<Rightarrow> None)"

definition endpoint_can_dispatch :: "routing_world \<Rightarrow> endpoint \<Rightarrow> string \<Rightarrow> bool" where
  "endpoint_can_dispatch w ep offline_policy \<longleftrightarrow>
     (case connected_endpoint_ids (rw_connected_getter w) of
        Some ids \<Rightarrow> strip (ep_endpoint_id ep) \<in> set ids \<or> queueing offline_policy
      | None \<Rightarrow> is_db_online ep \<or> queueing offline_policy)"

definition workspace_preferences :: "workspace option \<Rightarrow> string \<Rightarrow> target_preferences" where
  "workspace_preferences ws tool_key =
     (case ws of
        None \<Rightarrow> \<lparr>tp_endpoint_ids = [], tp_provider_types = [], tp_routing_policy = ''balanced'', tp_source = ''none''\<rparr>
      | Some w \<Rightarrow> get_effective_tool_target_preferences w tool_key [] [])"

definition target_type_of :: "string \<Rightarrow> string" where
  "target_type_of provider_type = (if provider_type \<in> set external_provider_types then ''external'' else ''endpoint'')"

definition nonempty_strips :: "string list \<Rightarrow> string list" where
  "nonempty_strips ss = filter (\<lambda>s. s \<noteq> []) (map (\<lambda>s. strip s) ss)"

text \<open>The score for being online, with the reason of a rejection.\<close>

definition online_score :: "routing_policy \<Rightarrow> string list option \<Rightarrow> endpoint \<Rightarrow> string \<Rightarrow> rat \<times> string list" where
  "online_score policy conn ep offline_policy =
     (case conn of
        Some ids \<Rightarrow>
          if strip (ep_endpoint_id ep) \<in> set ids then (rp_online_weight policy, [])
          else if queueing offline_policy then (0, [])
          else (0, [''endpoint_disconnected''])
      | None \<Rightarrow>
          if is_db_online ep then (rp_db_online_weight policy, [])
          else if queueing offline_policy then (0, [])
          else (0, [''endpoint_not_online'']))"

definition workspace_score :: "routing_policy \<Rightarrow> string \<Rightarrow> string list \<Rightarrow> rat \<times> string list" where
  "workspace_score policy workspace_id scope =
     (if workspace_id = [] then (0, [])
      else if scope = [] then (rp_workspace_open_weight policy, [])
      else if workspace_id \<in> set scope then (rp_workspace_exact_weight policy, [])
      else if ''*'' \<in> set scope then (rp_workspace_wildcard_weight policy, [])
      else (0, [''workspace_mismatch'']))"

definition preference_score :: "routing_policy \<Rightarrow> target_preferences \<Rightarrow> string \<Rightarrow> string \<Rightarrow> rat \<times> string list" where
  "preference_score policy prefs endpoint_id provider_type =
     (let ids = nonempty_strips (tp_endpoint_ids prefs);
          types = nonempty_strips (tp_provider_types prefs);
          strict = or_str (strip (or_str (tp_routing_policy prefs) ''balanced'')) ''balanced'' = ''strict_preferred_endpoint'';
          p0 = (if endpoint_id \<in> set ids then fadd 0 (rp_preferred_endpoint_weight policy) else 0);
          p1 = (if provider_type \<in> set types then fadd p0 (rp_preferred_provider_weight policy) else p0);
          r0 = (if strict \<and> ids \<noteq> [] \<and> endpoint_id \<notin> set ids then [''strict_preferred_endpoint_mismatch''] else []);
          r1 = (if strict \<and> ids = [] \<and> types \<noteq> [] \<and> provider_type \<notin> set types
                then [''strict_preferred_provider_mismatch''] else [])
      in (p1, r0 @ r1))"

definition score_endpoint_candidate ::
  "(string \<Rightarrow> rat option) \<Rightarrow> routing_policy \<Rightarrow> endpoint \<Rightarrow> capability \<Rightarrow> string \<Rightarrow> workspace option \<Rightarrow> target_preferences
   \<Rightarrow> string list option \<Rightarrow> bool \<Rightarrow> string \<Rightarrow> candidate" where
  "score_endpoint_candidate ft policy ep cap tool_key ws prefs conn confirmed offline_policy =
     (let endpoint_id = strip (ep_endpoint_id ep);
          provider_type = strip (ep_provider_type ep);
          scope = nonempty_strips (ep_workspace_scope ep);
          workspace_id = (case ws of Some w \<Rightarrow> strip (ws_workspace_id w) | None \<Rightarrow> []);
          (online, r1) = online_score policy conn ep offline_policy;
          (wmatch, r2) = workspace_score policy workspace_id scope;
          (pref, r3) = preference_score policy prefs endpoint_id provider_type;
          risk_level = lower (strip (or_str (cp_risk_level cap) (str_or (dget (cp_meta cap) ''risk_level'') ''read'')));
          r4 = (if cp_requires_confirmation cap \<and> \<not> confirmed then [''confirmation_required''] else []);
          stats = as_dict (dget (ep_meta ep) ''routing_stats'')
      in \<lparr>cd_endpoint = ep, cd_capability = cap, cd_target_type = target_type_of provider_type,
          cd_breakdown =
            \<lparr>sb_online_status = online, sb_workspace_match = wmatch, sb_preference = pref,
             sb_risk = risk_score risk_level policy,
             sb_priority = priority_score (or_100 (ep_priority ep)) policy,
             sb_load = score_load ft (heartbeat_metrics (ep_meta ep)) policy,
             sb_success_rate = score_success_rate ft stats policy,
             sb_latency = score_latency ft stats policy,
             sb_trust = score_trust provider_type tool_key policy,
             sb_cost = score_cost (ep_meta ep) policy\<rparr>,
          cd_rejected_reasons = r1 @ r2 @ r3 @ r4\<rparr>)"

text \<open>The key of the sort: score, then the smaller priority number, then the endpoint's name.\<close>

definition candidate_key :: "candidate \<Rightarrow> rat \<times> int \<times> string" where
  "candidate_key c = (cd_score c, - or_100 (ep_priority (cd_endpoint c)), ep_endpoint_id (cd_endpoint c))"

definition candidates_for ::
  "(string \<Rightarrow> rat option) \<Rightarrow> routing_world \<Rightarrow> string \<Rightarrow> workspace option \<Rightarrow> capability list \<Rightarrow> bool \<Rightarrow> string \<Rightarrow> candidate list" where
  "candidates_for ft w tool_key ws caps confirmed offline_policy =
     (let prefs = workspace_preferences ws tool_key;
          conn = connected_endpoint_ids (rw_connected_getter w)
      in concat (map (\<lambda>cap. case get_endpoint_by_id (cp_endpoint_id cap) (rw_endpoints w) of
             None \<Rightarrow> []
           | Some ep \<Rightarrow> [score_endpoint_candidate ft default_routing_policy ep cap tool_key ws prefs conn
                         confirmed offline_policy]) caps))"

definition select_best_endpoint_candidate ::
  "(string \<Rightarrow> rat option) \<Rightarrow> routing_world \<Rightarrow> string \<Rightarrow> workspace option \<Rightarrow> capability list \<Rightarrow> bool \<Rightarrow> string
   \<Rightarrow> candidate option \<times> candidate list" where
  "select_best_endpoint_candidate ft w tool_key ws caps confirmed offline_policy =
     (let all = candidates_for ft w tool_key ws caps confirmed offline_policy;
          rejected = filter (\<lambda>c. cd_rejected_reasons c \<noteq> []) all
      in case sorted_desc candidate_key (filter (\<lambda>c. cd_rejected_reasons c = []) all) of
           [] \<Rightarrow> (None, rejected)
         | best # rest \<Rightarrow> (Some best, rejected @ rest))"

section \<open>Resolution\<close>

definition requested_endpoint :: "string \<Rightarrow> pydict option \<Rightarrow> string" where
  "requested_endpoint endpoint_id execution_target =
     (let requested = dict_or execution_target
      in strip (py_str (py_or (PStr endpoint_id)
           (py_or (dget requested ''endpoint_id'') (py_or (dget requested ''execution_target_id'') (PStr []))))))"

definition core_target :: "endpoint option \<Rightarrow> capability option \<Rightarrow> execution_target" where
  "core_target ep cap =
     \<lparr>et_target_id = ''core.local'', et_target_type = ''core'', et_endpoint = ep, et_endpoint_capability = cap,
      et_offline_policy = ''fail_fast'', et_routing_decision = None\<rparr>"

definition resolve_explicit :: "routing_world \<Rightarrow> string \<Rightarrow> string \<Rightarrow> string \<Rightarrow> router_error + execution_target" where
  "resolve_explicit w tool requested offline_policy =
     (case get_by_endpoint_id requested (rw_endpoints w) of
        None \<Rightarrow> Inl (router_err ''execution_target_not_found'' (''Execution target not found: '' @ requested) [] True)
      | Some ep \<Rightarrow>
         (let cap = find (\<lambda>c. cp_tool_key c = tool \<and> cp_enabled c) (list_capabilities_for_endpoint (ep_id ep) (rw_capabilities w));
              details = [(''endpoint_id'', PStr requested), (''tool_key'', PStr tool)];
              ttype = target_type_of (strip (ep_provider_type ep))
          in if requested = ''core.local'' then Inr (core_target (Some ep) cap)
             else if cap = None then
               Inl (router_err ''endpoint_capability_not_found''
                      (''Endpoint cannot execute tool: '' @ requested @ '' -> '' @ tool) details False)
             else if ttype = ''endpoint'' \<and> \<not> endpoint_can_dispatch w ep offline_policy then
               Inl (router_err ''target_endpoint_unavailable'' (''Endpoint is unavailable: '' @ requested) details True)
             else Inr \<lparr>et_target_id = requested, et_target_type = ttype, et_endpoint = Some ep,
                       et_endpoint_capability = cap, et_offline_policy = offline_policy,
                       et_routing_decision = Some (Explicit_endpoint requested tool)\<rparr>))"

definition resolve_scored ::
  "(string \<Rightarrow> rat option) \<Rightarrow> routing_world \<Rightarrow> string \<Rightarrow> workspace option \<Rightarrow> string \<Rightarrow> bool
   \<Rightarrow> router_error + execution_target" where
  "resolve_scored ft w tool ws offline_policy confirmed =
     (let caps = list_enabled_for_tool tool (rw_capabilities w);
          unavailable = Inl (router_err ''execution_target_unavailable''
                               (''No execution target can run tool: '' @ tool) [] True)
      in case select_best_endpoint_candidate ft w tool ws caps confirmed offline_policy of
           (Some c, rejected) \<Rightarrow>
             Inr \<lparr>et_target_id = ep_endpoint_id (cd_endpoint c), et_target_type = cd_target_type c,
                  et_endpoint = Some (cd_endpoint c), et_endpoint_capability = Some (cd_capability c),
                  et_offline_policy = offline_policy,
                  et_routing_decision = Some (Scored tool c (length rejected + 1) (take 8 rejected))\<rparr>
         | (None, rejected) \<Rightarrow>
             (if queueing offline_policy then
               (case caps of
                  [] \<Rightarrow> unavailable
                | cap # _ \<Rightarrow>
                   (case get_endpoint_by_id (cp_endpoint_id cap) (rw_endpoints w) of
                      None \<Rightarrow> unavailable
                    | Some ep \<Rightarrow>
                        Inr \<lparr>et_target_id = ep_endpoint_id ep, et_target_type = ''endpoint'', et_endpoint = Some ep,
                             et_endpoint_capability = Some cap, et_offline_policy = offline_policy,
                             et_routing_decision = Some (Offline_policy (ep_endpoint_id ep) tool (length caps))\<rparr>))
              else unavailable))"

definition resolve_execution_target_uncached ::
  "(string \<Rightarrow> rat option) \<Rightarrow> routing_world \<Rightarrow> string \<Rightarrow> string \<Rightarrow> pydict option \<Rightarrow> string \<Rightarrow> string \<Rightarrow> bool
   \<Rightarrow> router_error + execution_target" where
  "resolve_execution_target_uncached ft w tool_key workspace_id execution_target endpoint_id offline_policy confirmed =
     (let tool = strip tool_key;
          requested = requested_endpoint endpoint_id execution_target;
          ws = (if workspace_id = [] then None else get_by_workspace_id workspace_id (rw_workspaces w))
      in if tool = [] then Inl (router_err ''tool_key_required'' ''Tool key is required'' [] False)
         else if (case ws of Some s \<Rightarrow> \<not> tool_allowed s tool | None \<Rightarrow> False) then
           Inl (router_err ''workspace_tool_not_allowed'' (''Workspace does not allow tool: '' @ tool)
                  [(''workspace_id'', PStr workspace_id), (''tool_key'', PStr tool)] False)
         else if requested \<noteq> [] then resolve_explicit w tool requested offline_policy
         else if tool \<in> set (rw_core_tools w) \<or> startswith tool ''core.'' then
           Inr (core_target (get_by_endpoint_id ''core.local'' (rw_endpoints w)) None)
         else resolve_scored ft w tool ws offline_policy confirmed)"

section \<open>The resolution cache\<close>

definition resolution_cache_key :: "string \<Rightarrow> string \<Rightarrow> pydict option \<Rightarrow> string \<Rightarrow> string \<Rightarrow> bool \<Rightarrow> cache_key" where
  "resolution_cache_key tool_key workspace_id execution_target endpoint_id offline_policy confirmed =
     (strip tool_key, strip workspace_id, requested_endpoint endpoint_id execution_target,
      or_str (strip (or_str offline_policy ''fail_fast'')) ''fail_fast'', confirmed)"

definition get_cached_resolution :: "instant \<Rightarrow> cache_key \<Rightarrow> resolution_cache \<Rightarrow> execution_target option \<times> resolution_cache" where
  "get_cached_resolution now key cache =
     (case map_of cache key of
        None \<Rightarrow> (None, cache)
      | Some (expires_at, target) \<Rightarrow> if expires_at \<le> now then (None, dpop key cache) else (Some target, cache))"

definition cache_ttl :: int where
  "cache_ttl = seconds 5"

definition cache_resolution :: "instant \<Rightarrow> cache_key \<Rightarrow> execution_target \<Rightarrow> resolution_cache \<Rightarrow> resolution_cache" where
  "cache_resolution now key target cache = dset key (now + cache_ttl, target) cache"

definition invalidated :: "string \<Rightarrow> string \<Rightarrow> string \<Rightarrow> cache_key \<times> instant \<times> execution_target \<Rightarrow> bool" where
  "invalidated endpoint_id tool_key workspace_id entry \<longleftrightarrow>
     (case entry of ((key_tool, key_workspace, key_endpoint, _, _), _, target) \<Rightarrow>
        \<not> (tool_key \<noteq> [] \<and> key_tool \<noteq> tool_key)
      \<and> \<not> (workspace_id \<noteq> [] \<and> key_workspace \<noteq> workspace_id)
      \<and> \<not> (endpoint_id \<noteq> [] \<and> key_endpoint \<noteq> endpoint_id \<and> et_target_id target \<noteq> endpoint_id))"

definition invalidate_cache :: "string \<Rightarrow> string \<Rightarrow> string \<Rightarrow> resolution_cache \<Rightarrow> resolution_cache" where
  "invalidate_cache endpoint_id tool_key workspace_id cache =
     (let e = strip endpoint_id; t = strip tool_key; s = strip workspace_id
      in if e = [] \<and> t = [] \<and> s = [] then [] else filter (\<lambda>x. \<not> invalidated e t s x) cache)"

text \<open>\<open>now\<close> is the clock when the cache is read and \<open>later\<close> when the result is stored.\<close>

definition resolve_execution_target ::
  "(string \<Rightarrow> rat option) \<Rightarrow> instant \<Rightarrow> instant \<Rightarrow> routing_world \<Rightarrow> string \<Rightarrow> string \<Rightarrow> pydict option \<Rightarrow> string \<Rightarrow> string \<Rightarrow> bool
   \<Rightarrow> resolution_cache \<Rightarrow> (router_error + execution_target) \<times> resolution_cache" where
  "resolve_execution_target ft now later w tool_key workspace_id execution_target endpoint_id offline_policy confirmed cache =
     (let key = resolution_cache_key tool_key workspace_id execution_target endpoint_id offline_policy confirmed
      in case get_cached_resolution now key cache of
           (Some target, cache1) \<Rightarrow> (Inr target, cache1)
         | (None, cache1) \<Rightarrow>
            (case resolve_execution_target_uncached ft w tool_key workspace_id execution_target endpoint_id offline_policy confirmed of
               Inl e \<Rightarrow> (Inl e, cache1)
             | Inr target \<Rightarrow> (Inr target, cache_resolution later key target cache1)))"

definition resolve_request ::
  "(string \<Rightarrow> rat option) \<Rightarrow> routing_world \<Rightarrow> instant \<times> instant \<times> pydict \<Rightarrow> resolution_cache
   \<Rightarrow> (router_error + execution_target) \<times> resolution_cache" where
  "resolve_request ft w request cache =
     (case request of (now, later, payload) \<Rightarrow>
        resolve_execution_target ft now later w (clean (dget payload ''tool_key'')) (clean (dget payload ''workspace_id''))
          (case dget payload ''execution_target'' of PDict d \<Rightarrow> Some d | _ \<Rightarrow> None)
          (strip (py_str (py_or (dget payload ''endpoint_id'') (py_or (dget payload ''target_endpoint_id'') (PStr [])))))
          (str_or (dget payload ''offline_policy'') ''fail_fast'')
          (truthy (dget_or payload ''confirmed'' (PBool False))) cache)"

fun resolve_execution_targets ::
  "(string \<Rightarrow> rat option) \<Rightarrow> routing_world \<Rightarrow> (instant \<times> instant \<times> pydict) list \<Rightarrow> resolution_cache
   \<Rightarrow> (router_error + execution_target) list \<times> resolution_cache" where
  "resolve_execution_targets ft w [] cache = ([], cache)"
| "resolve_execution_targets ft w (r # rs) cache =
     (let (x, cache1) = resolve_request ft w r cache;
          (xs, cache2) = resolve_execution_targets ft w rs cache1
      in (x # xs, cache2))"


section \<open>Eligible candidates\<close>

text \<open>The conditions on a target, independent of scores: the endpoint can be reached under the
  policy, the workspace is in its scope, a strict preference is met and a confirmation that the
  capability requires was given.\<close>

definition in_scope :: "workspace option \<Rightarrow> endpoint \<Rightarrow> bool" where
  "in_scope ws ep \<longleftrightarrow>
     (let scope = nonempty_strips (ep_workspace_scope ep);
          workspace_id = (case ws of Some w \<Rightarrow> strip (ws_workspace_id w) | None \<Rightarrow> [])
      in workspace_id = [] \<or> scope = [] \<or> workspace_id \<in> set scope \<or> ''*'' \<in> set scope)"

definition meets_strict_preference :: "target_preferences \<Rightarrow> endpoint \<Rightarrow> bool" where
  "meets_strict_preference prefs ep \<longleftrightarrow>
     (let ids = nonempty_strips (tp_endpoint_ids prefs);
          types = nonempty_strips (tp_provider_types prefs);
          strict = or_str (strip (or_str (tp_routing_policy prefs) ''balanced'')) ''balanced'' = ''strict_preferred_endpoint''
      in if \<not> strict then True
         else if ids \<noteq> [] then strip (ep_endpoint_id ep) \<in> set ids
         else types = [] \<or> strip (ep_provider_type ep) \<in> set types)"

definition eligible :: "routing_world \<Rightarrow> string \<Rightarrow> workspace option \<Rightarrow> bool \<Rightarrow> string \<Rightarrow> endpoint \<Rightarrow> capability \<Rightarrow> bool" where
  "eligible w tool_key ws confirmed offline_policy ep cap \<longleftrightarrow>
     endpoint_can_dispatch w ep offline_policy \<and> in_scope ws ep
   \<and> meets_strict_preference (workspace_preferences ws tool_key) ep
   \<and> (if cp_requires_confirmation cap then confirmed else True)"

lemma online_score_reasons:
  "snd (online_score policy (connected_endpoint_ids (rw_connected_getter w)) ep pol) = [] \<longleftrightarrow> endpoint_can_dispatch w ep pol"
  by (auto simp: online_score_def endpoint_can_dispatch_def split: option.splits)

lemma preference_score_reasons:
  "snd (preference_score policy prefs (strip (ep_endpoint_id ep)) (strip (ep_provider_type ep))) = []
   \<longleftrightarrow> meets_strict_preference prefs ep"
  by (auto simp: preference_score_def meets_strict_preference_def Let_def)

lemma candidate_accepted_iff:
  "cd_rejected_reasons (score_endpoint_candidate ft policy ep cap tool ws (workspace_preferences ws tool)
      (connected_endpoint_ids (rw_connected_getter w)) confirmed pol) = []
   \<longleftrightarrow> eligible w tool ws confirmed pol ep cap"
proof -
  have "snd (workspace_score policy (case ws of Some w \<Rightarrow> strip (ws_workspace_id w) | None \<Rightarrow> [])
      (nonempty_strips (ep_workspace_scope ep))) = [] \<longleftrightarrow> in_scope ws ep"
    by (auto simp: workspace_score_def in_scope_def Let_def)
  then show ?thesis
    using online_score_reasons [of policy w ep pol] preference_score_reasons [of policy "workspace_preferences ws tool" ep]
    by (auto simp: score_endpoint_candidate_def Let_def eligible_def split: prod.splits)
qed

lemma candidate_parts [simp]:
  "cd_endpoint (score_endpoint_candidate ft policy ep cap tool ws prefs conn confirmed pol) = ep"
  "cd_capability (score_endpoint_candidate ft policy ep cap tool ws prefs conn confirmed pol) = cap"
  "cd_target_type (score_endpoint_candidate ft policy ep cap tool ws prefs conn confirmed pol)
     = target_type_of (strip (ep_provider_type ep))"
  by (simp_all add: score_endpoint_candidate_def Let_def split: prod.splits)

lemma candidates_for_iff:
  "c \<in> set (candidates_for ft w tool ws caps confirmed pol) \<longleftrightarrow>
   (\<exists>cap ep. cap \<in> set caps \<and> get_endpoint_by_id (cp_endpoint_id cap) (rw_endpoints w) = Some ep
      \<and> c = score_endpoint_candidate ft default_routing_policy ep cap tool ws (workspace_preferences ws tool)
              (connected_endpoint_ids (rw_connected_getter w)) confirmed pol)"
  by (auto simp: candidates_for_def Let_def split: option.splits) metis+

lemma select_best_None:
  "select_best_endpoint_candidate ft w tool ws caps confirmed pol = (None, rejected) \<Longrightarrow>
   filter (\<lambda>c. cd_rejected_reasons c = []) (candidates_for ft w tool ws caps confirmed pol) = []"
proof -
  let ?ok = "filter (\<lambda>c. cd_rejected_reasons c = []) (candidates_for ft w tool ws caps confirmed pol)"
  assume "select_best_endpoint_candidate ft w tool ws caps confirmed pol = (None, rejected)"
  then have "sorted_desc candidate_key ?ok = []"
    unfolding select_best_endpoint_candidate_def Let_def by (cases "sorted_desc candidate_key ?ok") auto
  then show ?thesis by (metis length_0_conv length_sorted_desc)
qed

lemma select_best_Some:
  assumes "select_best_endpoint_candidate ft w tool ws caps confirmed pol = (Some best, rejected)"
  obtains rest where
    "sorted_desc candidate_key (filter (\<lambda>c. cd_rejected_reasons c = []) (candidates_for ft w tool ws caps confirmed pol))
       = best # rest"
    "rejected = filter (\<lambda>c. cd_rejected_reasons c \<noteq> []) (candidates_for ft w tool ws caps confirmed pol) @ rest"
proof -
  let ?s = "sorted_desc candidate_key (filter (\<lambda>c. cd_rejected_reasons c = []) (candidates_for ft w tool ws caps confirmed pol))"
  have "\<exists>rest. ?s = best # rest
    \<and> rejected = filter (\<lambda>c. cd_rejected_reasons c \<noteq> []) (candidates_for ft w tool ws caps confirmed pol) @ rest"
    using assms unfolding select_best_endpoint_candidate_def Let_def by (cases ?s) auto
  then show thesis using that by auto
qed


section \<open>Properties of the resolution\<close>

lemma accepted_candidate:
  assumes "select_best_endpoint_candidate ft w tool ws caps confirmed pol = (Some best, rejected)"
  obtains cap ep where "cap \<in> set caps" "get_endpoint_by_id (cp_endpoint_id cap) (rw_endpoints w) = Some ep"
    "eligible w tool ws confirmed pol ep cap" "cd_endpoint best = ep" "cd_capability best = cap"
    "cd_target_type best = target_type_of (strip (ep_provider_type ep))"
proof -
  obtain rest where "sorted_desc candidate_key (filter (\<lambda>c. cd_rejected_reasons c = [])
      (candidates_for ft w tool ws caps confirmed pol)) = best # rest"
    using select_best_Some [OF assms] by metis
  then have "best \<in> set (filter (\<lambda>c. cd_rejected_reasons c = []) (candidates_for ft w tool ws caps confirmed pol))"
    by (metis list.set_intros(1) set_sorted_desc)
  then obtain cap ep where c: "cap \<in> set caps" "get_endpoint_by_id (cp_endpoint_id cap) (rw_endpoints w) = Some ep"
    "best = score_endpoint_candidate ft default_routing_policy ep cap tool ws (workspace_preferences ws tool)
       (connected_endpoint_ids (rw_connected_getter w)) confirmed pol" "cd_rejected_reasons best = []"
    by (auto simp: candidates_for_iff)
  show thesis
    by (rule that [of cap ep]) (use c candidate_accepted_iff in auto)
qed

lemma resolve_explicit_target:
  assumes "resolve_explicit w tool requested pol = Inr t"
  shows "if et_target_type t = ''core'' then et_target_id t = ''core.local'' \<and> requested = ''core.local''
    else \<exists>ep cap. et_endpoint t = Some ep \<and> et_target_id t = ep_endpoint_id ep
      \<and> et_endpoint_capability t = Some cap \<and> cap \<in> set (rw_capabilities w) \<and> cp_enabled cap
      \<and> cp_tool_key cap = tool \<and> cp_endpoint_id cap = ep_id ep
      \<and> et_target_id t = requested \<and> (endpoint_can_dispatch w ep pol \<or> et_target_type t \<noteq> ''endpoint'')"
proof -
  obtain ep where ep: "get_by_endpoint_id requested (rw_endpoints w) = Some ep"
    using assms by (auto simp: resolve_explicit_def split: option.splits)
  have name: "ep_endpoint_id ep = requested" using tbl_get_Some [OF ep [unfolded get_by_endpoint_id_def]] by simp
  let ?cap = "find (\<lambda>c. cp_tool_key c = tool \<and> cp_enabled c) (list_capabilities_for_endpoint (ep_id ep) (rw_capabilities w))"
  show ?thesis
  proof (cases "requested = ''core.local''")
    case True
    then show ?thesis using assms ep by (auto simp: resolve_explicit_def core_target_def Let_def)
  next
    case False
    then obtain cap where cap: "?cap = Some cap"
      using assms ep by (auto simp: resolve_explicit_def Let_def split: if_splits)
    then have "cap \<in> set (list_capabilities_for_endpoint (ep_id ep) (rw_capabilities w))" "cp_tool_key cap = tool" "cp_enabled cap"
      unfolding find_Some_iff by (blast intro: nth_mem)+
    then have c: "cap \<in> set (rw_capabilities w)" "cp_enabled cap" "cp_tool_key cap = tool" "cp_endpoint_id cap = ep_id ep"
      by (simp_all add: list_capabilities_for_endpoint_def)
    show ?thesis using assms ep False cap c name
      by (auto simp: resolve_explicit_def Let_def target_type_of_def split: if_splits)
  qed
qed

lemma resolve_scored_target:
  assumes "resolve_scored ft w tool ws pol confirmed = Inr t"
  obtains ep cap where "et_endpoint t = Some ep" "et_endpoint_capability t = Some cap"
    "cap \<in> set (list_enabled_for_tool tool (rw_capabilities w))"
    "get_endpoint_by_id (cp_endpoint_id cap) (rw_endpoints w) = Some ep" "et_target_id t = ep_endpoint_id ep"
    "et_target_type t \<noteq> ''core''"
    "eligible w tool ws confirmed pol ep cap \<or> queueing pol \<and>
       (\<nexists>c e. c \<in> set (list_enabled_for_tool tool (rw_capabilities w))
          \<and> get_endpoint_by_id (cp_endpoint_id c) (rw_endpoints w) = Some e \<and> eligible w tool ws confirmed pol e c)"
proof -
  let ?caps = "list_enabled_for_tool tool (rw_capabilities w)"
  obtain sel rejected where sel: "select_best_endpoint_candidate ft w tool ws ?caps confirmed pol = (sel, rejected)"
    by fastforce
  show thesis
  proof (cases sel)
    case (Some best)
    then have sel': "select_best_endpoint_candidate ft w tool ws ?caps confirmed pol = (Some best, rejected)"
      using sel by simp
    from accepted_candidate [OF sel'] obtain cap ep where "cap \<in> set ?caps"
      "get_endpoint_by_id (cp_endpoint_id cap) (rw_endpoints w) = Some ep" "eligible w tool ws confirmed pol ep cap"
      "cd_endpoint best = ep" "cd_capability best = cap" "cd_target_type best = target_type_of (strip (ep_provider_type ep))"
      by metis
    then show thesis
      using assms sel' by (intro that [of ep cap]) (auto simp: resolve_scored_def Let_def target_type_of_def split: if_splits)
  next
    case None
    then have none: "filter (\<lambda>c. cd_rejected_reasons c = []) (candidates_for ft w tool ws ?caps confirmed pol) = []"
      using select_best_None sel by simp
    have free: "\<not> eligible w tool ws confirmed pol e c"
      if "c \<in> set ?caps" "get_endpoint_by_id (cp_endpoint_id c) (rw_endpoints w) = Some e" for c e
    proof -
      have "score_endpoint_candidate ft default_routing_policy e c tool ws (workspace_preferences ws tool)
          (connected_endpoint_ids (rw_connected_getter w)) confirmed pol \<in> set (candidates_for ft w tool ws ?caps confirmed pol)"
        using that unfolding candidates_for_iff by blast
      then show ?thesis using none candidate_accepted_iff unfolding filter_empty_conv by blast
    qed
    obtain cap rest where caps: "?caps = cap # rest" "queueing pol"
      using assms sel None by (auto simp: resolve_scored_def Let_def split: if_splits list.splits)
    then obtain ep where ep: "get_endpoint_by_id (cp_endpoint_id cap) (rw_endpoints w) = Some ep"
      using assms sel None by (auto simp: resolve_scored_def Let_def split: option.splits)
    show thesis
      by (rule that [of ep cap]) (use assms sel None caps ep free in \<open>auto simp: resolve_scored_def Let_def\<close>)
  qed
qed

text \<open>The workspace of a call, where the call names one that exists.\<close>

definition call_workspace :: "routing_world \<Rightarrow> string \<Rightarrow> workspace option" where
  "call_workspace w wid = (if wid = [] then None else get_by_workspace_id wid (rw_workspaces w))"


definition router_endpoint :: "string \<Rightarrow> string list \<Rightarrow> endpoint" where
  "router_endpoint name scope =
     \<lparr>ep_id = ''row-'' @ name, ep_endpoint_id = name, ep_endpoint_type = ''desktop'', ep_provider_type = ''desktop'',
      ep_transport_type = ''websocket'', ep_owner_actor_id = None, ep_workspace_scope = scope, ep_status = ''ready'',
      ep_labels = [], ep_priority = 100, ep_meta = []\<rparr>"

definition router_capability :: "string \<Rightarrow> string \<Rightarrow> capability" where
  "router_capability name tool =
     \<lparr>cp_id = ''cap-'' @ name, cp_capability_id = ''endpoint.'' @ name, cp_endpoint_id = ''row-'' @ name, cp_tool_key = tool,
      cp_schema = [], cp_risk_level = ''read'', cp_requires_confirmation = False, cp_enabled = True, cp_constraints = [],
      cp_meta = []\<rparr>"

definition example_world :: routing_world where
  "example_world =
     \<lparr>rw_endpoints = [router_endpoint ''home'' [''kitchen''], router_endpoint ''desk'' [''lab'']],
      rw_capabilities = [router_capability ''home'' ''file.read'', router_capability ''desk'' ''file.read''],
      rw_workspaces = [example_workspace], rw_connected_getter = Some (Inr [PStr ''home'', PStr ''desk'']),
      rw_core_tools = []\<rparr>"

definition no_float_text :: "string \<Rightarrow> rat option" where
  "no_float_text s = None"


text \<open>The best candidate wins: among the candidates that no rule rejects, the selected one has the
  greatest score, ties being broken by the smaller priority number and then by the endpoint's
  name; all other candidates are reported as rejected.\<close>

theorem best_candidate_selected:
  assumes "select_best_endpoint_candidate ft w tool ws caps confirmed pol = (Some best, rejected)"
  shows "best \<in> set (candidates_for ft w tool ws caps confirmed pol) \<and> cd_rejected_reasons best = []
    \<and> list_all (\<lambda>c. cd_rejected_reasons c \<noteq> [] \<or> candidate_key c \<le> candidate_key best)
        (candidates_for ft w tool ws caps confirmed pol)
    \<and> length rejected + 1 = length (candidates_for ft w tool ws caps confirmed pol)"
proof -
  let ?all = "candidates_for ft w tool ws caps confirmed pol"
  obtain rest where s: "sorted_desc candidate_key (filter (\<lambda>c. cd_rejected_reasons c = []) ?all) = best # rest"
    and r: "rejected = filter (\<lambda>c. cd_rejected_reasons c \<noteq> []) ?all @ rest"
    using select_best_Some [OF assms] by metis
  have "best \<in> set (filter (\<lambda>c. cd_rejected_reasons c = []) ?all)"
    by (metis s list.set_intros(1) set_sorted_desc)
  moreover have "candidate_key c \<le> candidate_key best" if "c \<in> set ?all" "cd_rejected_reasons c = []" for c
    using sorted_desc_head [OF s] that by simp
  moreover have "length rest + 1 = length (filter (\<lambda>c. cd_rejected_reasons c = []) ?all)"
    using arg_cong [OF s, of length] by simp
  then have "length rejected + 1 = length ?all"
    using sum_length_filter_compl [of "\<lambda>c. cd_rejected_reasons c = []" ?all] by (simp add: r)
  ultimately show ?thesis by (auto simp: list_all_iff)
qed

text \<open>A queueing policy overrides every rejection: as soon as one enabled capability for the tool has
  its endpoint, resolution under \<open>queue_until_online\<close> or \<open>store_in_outbox\<close> never fails. When all
  candidates are rejected, the first capability is taken all the same, whatever it was rejected
  for: a workspace outside the endpoint's scope, a strict preference for another endpoint, a
  missing confirmation.\<close>

theorem queueing_overrides_rejections:
  assumes "queueing pol" and "list_enabled_for_tool tool (rw_capabilities w) = cap # caps"
    and "get_endpoint_by_id (cp_endpoint_id cap) (rw_endpoints w) = Some ep"
    and "list_all (\<lambda>c. cd_rejected_reasons c \<noteq> []) (candidates_for ft w tool ws (cap # caps) confirmed pol)"
  shows "case resolve_scored ft w tool ws pol confirmed of
      Inr t \<Rightarrow> et_endpoint t = Some ep \<and> et_endpoint_capability t = Some cap \<and> et_target_id t = ep_endpoint_id ep
    | Inl _ \<Rightarrow> False"
proof -
  let ?s = "select_best_endpoint_candidate ft w tool ws (cap # caps) confirmed pol"
  have "filter (\<lambda>c. cd_rejected_reasons c = []) (candidates_for ft w tool ws (cap # caps) confirmed pol) = []"
    using assms(4) by (auto simp: filter_empty_conv list_all_iff)
  then have "fst ?s = None" by (simp add: select_best_endpoint_candidate_def Let_def sorted_desc_def)
  then obtain rejected where "?s = (None, rejected)" by (cases ?s) auto
  then show ?thesis using assms(1-3) by (simp add: resolve_scored_def Let_def)
qed

section \<open>Properties of the cache\<close>

lemma resolve_uncached_twice:
  assumes res: "resolve_execution_target ft now later w tool wid et eid pol conf cache = (Inr t, cache')"
    and miss: "fst (get_cached_resolution now (resolution_cache_key tool wid et eid pol conf) cache) = None"
    and soon: "now' < later + cache_ttl"
  shows "resolve_execution_target ft now' later' w' tool wid et eid pol conf cache' = (Inr t, cache')"
proof -
  let ?key = "resolution_cache_key tool wid et eid pol conf"
  obtain cache1 where g: "get_cached_resolution now ?key cache = (None, cache1)"
    using miss by (cases "get_cached_resolution now ?key cache") auto
  have "cache' = cache_resolution later ?key t cache1"
    using res by (auto simp: resolve_execution_target_def Let_def g split: sum.splits)
  then have "map_of cache' ?key = Some (later + cache_ttl, t)" by (simp add: cache_resolution_def)
  then have "get_cached_resolution now' ?key cache' = (Some t, cache')"
    using soon by (simp add: get_cached_resolution_def)
  then show ?thesis by (simp add: resolve_execution_target_def Let_def)
qed

text \<open>A resolution outlives the rules it was made under: for five seconds after it was computed the
  same request is answered from the cache without looking at the endpoints, the capabilities or
  the workspace, so a tool that has just been taken from the allowlist of the workspace, or an
  endpoint that has just disconnected, is still used. After five seconds it is computed anew.\<close>

theorem cached_resolution_ignores_changes:
  assumes res: "resolve_execution_target ft now later w tool wid et eid pol conf cache = (Inr t, cache')"
    and miss: "fst (get_cached_resolution now (resolution_cache_key tool wid et eid pol conf) cache) = None"
  shows "fst (resolve_execution_target ft now' later' w' tool wid et eid pol conf cache') =
    (if now' < later + cache_ttl then Inr t
     else resolve_execution_target_uncached ft w' tool wid et eid pol conf)"
proof (cases "now' < later + cache_ttl")
  case True
  then show ?thesis using resolve_uncached_twice [OF res miss] by simp
next
  case False
  let ?key = "resolution_cache_key tool wid et eid pol conf"
  obtain cache1 where g: "get_cached_resolution now ?key cache = (None, cache1)"
    using miss by (cases "get_cached_resolution now ?key cache") auto
  have "cache' = cache_resolution later ?key t cache1"
    using res by (auto simp: resolve_execution_target_def Let_def g split: sum.splits)
  then have "get_cached_resolution now' ?key cache' = (None, dpop ?key cache')"
    using False by (simp add: get_cached_resolution_def cache_resolution_def)
  then show ?thesis using False by (simp add: resolve_execution_target_def Let_def split: sum.splits)
qed

section \<open>Properties of the score\<close>

text \<open>The load score has no upper bound: it is clamped from below only, and the number of active
  calls is what the endpoint reports in its heartbeat. An endpoint that reports a negative
  number of active calls gets five points for each, beyond the weight of twenty that a full
  load score is meant to have.\<close>

theorem load_score_unbounded:
  assumes "0 \<le> n" and "n < 2 ^ 50"
  shows "score_load ft [(''active_calls'', PInt (- n))] default_routing_policy = of_int (20 + 5 * n)"
proof -
  have f: "fl (of_int (- n)) = of_int (- n)" "fl (of_int (- 5 * n)) = of_int (- 5 * n)" "fl (of_int (20 + 5 * n)) = of_int (20 + 5 * n)"
    using assms by (intro fl_of_int; simp)+
  have a: "float_metric ft [(''active_calls'', PInt (- n))] ''active_calls'' 0 = of_int (- n)"
    using f(1) by (simp add: float_metric_def dget_def)
  have z: "float_metric ft [(''active_calls'', PInt (- n))] ''cpu_percent'' 0 = 0"
    "float_metric ft [(''active_calls'', PInt (- n))] ''memory_percent'' 0 = 0"
    by (simp_all add: float_metric_def dget_def)
  have c: "fdiv (max 0 (fsub 0 60)) 5 = 0" "fdiv (max 0 (fsub 0 70)) 5 = 0"
    using fl_of_int [of "- 60"] fl_of_int [of "- 70"] by (simp_all add: fdiv_def fsub_def)
  have m: "fmul (of_int (- n)) 5 = of_int (- 5 * n)" using f(2) by (simp add: fmul_def mult.commute)
  have p: "fadd (fadd (of_int (- 5 * n)) 0) 0 = of_int (- 5 * n)" using f(2) by (simp add: fadd_def)
  have s: "fsub 20 (of_int (- 5 * n)) = of_int (20 + 5 * n)" using f(3) by (simp add: fsub_def)
  have "score_load ft [(''active_calls'', PInt (- n))] default_routing_policy
      = max (- 20) (fsub 20 (fadd (fadd (fmul (of_int (- n)) 5) 0) 0))"
    by (simp add: score_load_def a z c Let_def default_routing_policy_def)
  also have "\<dots> = max (- 20) (of_int (20 + 5 * n))" by (simp only: m p s)
  finally show ?thesis using assms(1) by simp
qed

theorem load_score_unbounded_witness:
  "score_load no_float_text [(''active_calls'', PInt (- 1000))] default_routing_policy = 5020"
  using load_score_unbounded [of 1000 no_float_text] by simp

end
