(* ===== verification/Operations.thy ===== *)
theory Operations
  imports Endpoint_Store
begin

text \<open>
  Operations and their calls: the tables of \<^verbatim>\<open>core/db/models/operation.py\<close>, the repositories
  \<^verbatim>\<open>core/db/repositories/operation.py\<close> and \<^verbatim>\<open>operation_call.py\<close>, and the services
  \<^verbatim>\<open>core/services/operation_service.py\<close> and \<^verbatim>\<open>operation_call_service.py\<close>. An operation is a piece
  of work a user asked for; a call is its dispatch to one endpoint. The call service moves the
  status of both rows in one transaction.

  Identifiers drawn with \<open>uuid4\<close> are arguments (\<open>new_id\<close> the primary key, \<open>uuid\<close> the hexadecimal
  text). The unique constraints of both tables and the foreign key from a call to its operation
  are checked on insertion; the rows of other tables a row refers to are taken to exist.
\<close>

section \<open>Tables\<close>

record operation =
  op_id :: row_id
  op_operation_id :: string
  op_thread_id :: "row_id option"
  op_workspace_id :: row_id
  op_requested_by_actor_id :: "row_id option"
  op_requested_by_run_id :: "row_id option"
  op_requested_by_session_id :: "row_id option"
  op_operation_type :: string
  op_execution_target :: string
  op_execution_target_type :: string
  op_execution_target_id :: string
  op_target_endpoint_id :: "row_id option"
  op_status :: string
  op_title :: string
  op_summary :: string
  op_result_summary :: string
  op_meta :: pydict

record operation_call =
  oc_id :: row_id
  oc_call_id :: string
  oc_operation_id :: row_id
  oc_capability_id :: "row_id option"
  oc_endpoint_capability_id :: "row_id option"
  oc_target_endpoint_id :: "row_id option"
  oc_execution_target_id :: string
  oc_status :: string
  oc_arguments :: pydict
  oc_result :: pydict
  oc_error :: pydict

record operation_db =
  od_operations :: "operation list"
  od_calls :: "operation_call list"

definition op_clash :: "operation \<Rightarrow> operation \<Rightarrow> bool" where
  "op_clash a b \<longleftrightarrow> op_id a = op_id b \<or> op_operation_id a = op_operation_id b"

definition oc_clash :: "operation_call \<Rightarrow> operation_call \<Rightarrow> bool" where
  "oc_clash a b \<longleftrightarrow> oc_id a = oc_id b \<or> oc_call_id a = oc_call_id b"

section \<open>Repositories\<close>

text \<open>\<open>request\<close> carries the arguments of \<open>create\<close>.\<close>

definition operation_create :: "operation \<Rightarrow> operation list \<Rightarrow> pyerr + operation \<times> operation list" where
  "operation_create request T =
     insert_row op_clash ''operations'' (request\<lparr>op_summary := [], op_result_summary := []\<rparr>) T"

definition get_by_operation_id :: "string \<Rightarrow> operation list \<Rightarrow> operation option" where
  "get_by_operation_id operation_id T = tbl_get op_operation_id operation_id T"

definition get_operation_by_id :: "row_id \<Rightarrow> operation list \<Rightarrow> operation option" where
  "get_operation_by_id i T = tbl_get op_id i T"

definition operation_status_row :: "string \<Rightarrow> string option \<Rightarrow> pydict option \<Rightarrow> operation \<Rightarrow> operation" where
  "operation_status_row status result_summary metadata r =
     r\<lparr>op_status := status,
       op_result_summary := (case result_summary of Some s \<Rightarrow> s | None \<Rightarrow> op_result_summary r),
       op_meta := (case metadata of Some m \<Rightarrow> dmerge (op_meta r) m | None \<Rightarrow> op_meta r)\<rparr>"

definition operation_update_status ::
  "row_id \<Rightarrow> string \<Rightarrow> string option \<Rightarrow> pydict option \<Rightarrow> operation list \<Rightarrow> operation option \<times> operation list" where
  "operation_update_status i status result_summary metadata T =
     (map_option (operation_status_row status result_summary metadata) (get_operation_by_id i T),
      tbl_upd op_id i (operation_status_row status result_summary metadata) T)"

definition call_create :: "operation_call \<Rightarrow> operation_db \<Rightarrow> pyerr + operation_call \<times> operation_db" where
  "call_create request db =
     (if get_operation_by_id (oc_operation_id request) (od_operations db) = None
      then Inl (IntegrityError ''operation_calls'')
      else rbind (insert_row oc_clash ''operation_calls'' request (od_calls db)) (\<lambda>(row, T).
             Inr (row, db\<lparr>od_calls := T\<rparr>)))"

definition get_by_call_id :: "string \<Rightarrow> operation_call list \<Rightarrow> operation_call option" where
  "get_by_call_id call_id T = tbl_get oc_call_id call_id T"

definition call_status_row :: "string \<Rightarrow> pydict option \<Rightarrow> pydict option \<Rightarrow> operation_call \<Rightarrow> operation_call" where
  "call_status_row status result error r =
     r\<lparr>oc_status := status,
       oc_result := (case result of Some d \<Rightarrow> d | None \<Rightarrow> oc_result r),
       oc_error := (case error of Some d \<Rightarrow> d | None \<Rightarrow> oc_error r)\<rparr>"

definition call_update_status ::
  "string \<Rightarrow> string \<Rightarrow> pydict option \<Rightarrow> pydict option \<Rightarrow> operation_call list \<Rightarrow> operation_call option \<times> operation_call list" where
  "call_update_status call_id status result error T =
     (map_option (call_status_row status result error) (get_by_call_id call_id T),
      tbl_upd oc_call_id call_id (call_status_row status result error) T)"

section \<open>Services\<close>

definition create_operation :: "row_id \<Rightarrow> string \<Rightarrow> operation \<Rightarrow> operation_db \<Rightarrow> pyerr + operation \<times> operation_db" where
  "create_operation new_id uuid request db =
     rbind (operation_create (request\<lparr>op_id := new_id, op_operation_id := ''op_'' @ uuid\<rparr>) (od_operations db))
       (\<lambda>(row, T). Inr (row, db\<lparr>od_operations := T\<rparr>))"

text \<open>\<open>tool_id\<close> is the older name of \<open>capability_id\<close>.\<close>

definition create_call ::
  "row_id \<Rightarrow> string \<Rightarrow> row_id option \<Rightarrow> operation_call \<Rightarrow> operation_db \<Rightarrow> pyerr + operation_call \<times> operation_db" where
  "create_call new_id uuid tool_id request db =
     call_create (request\<lparr>oc_id := new_id, oc_call_id := ''call_'' @ uuid,
       oc_capability_id := (case oc_capability_id request of Some c \<Rightarrow> Some c | None \<Rightarrow> tool_id),
       oc_result := [], oc_error := []\<rparr>) db"

text \<open>A mark: the status of the call, and of its operation when the call exists.\<close>

definition mark_call ::
  "string \<Rightarrow> string \<Rightarrow> pydict option \<Rightarrow> pydict option \<Rightarrow> string \<Rightarrow> string option \<Rightarrow> pydict option
   \<Rightarrow> operation_db \<Rightarrow> operation_call option \<times> operation_db" where
  "mark_call call_id call_st result error op_st summary metadata db =
     (case call_update_status call_id call_st result error (od_calls db) of
        (None, T) \<Rightarrow> (None, db\<lparr>od_calls := T\<rparr>)
      | (Some row, T) \<Rightarrow>
          (Some row, db\<lparr>od_calls := T,
             od_operations := snd (operation_update_status (oc_operation_id row) op_st summary metadata (od_operations db))\<rparr>))"

definition mark_dispatched :: "string \<Rightarrow> operation_db \<Rightarrow> operation_call option \<times> operation_db" where
  "mark_dispatched call_id = mark_call call_id ''dispatched'' None None ''dispatching'' None None"

definition mark_accepted :: "string \<Rightarrow> operation_db \<Rightarrow> operation_call option \<times> operation_db" where
  "mark_accepted call_id = mark_call call_id ''running'' None None ''running'' None None"

definition mark_progress :: "string \<Rightarrow> string \<Rightarrow> pydict option \<Rightarrow> operation_db \<Rightarrow> operation_call option \<times> operation_db" where
  "mark_progress call_id detail metadata db =
     (case get_by_call_id call_id (od_calls db) of
        None \<Rightarrow> (None, db)
      | Some _ \<Rightarrow> mark_call call_id ''running'' None None ''running'' None
          (Some [(''last_progress'', PDict (dmerge [(''detail'', PStr detail)] (dict_or metadata)))]) db)"

definition mark_succeeded :: "string \<Rightarrow> pydict option \<Rightarrow> operation_db \<Rightarrow> operation_call option \<times> operation_db" where
  "mark_succeeded call_id result =
     (let r = dict_or result;
          summary = py_str (py_or (dget r ''summary'') (py_or (dget r ''message'') (PStr [])))
      in mark_call call_id ''succeeded'' (Some r) None ''succeeded'' (Some summary) (Some [(''result'', PDict r)]))"

definition mark_failed :: "string \<Rightarrow> pydict option \<Rightarrow> operation_db \<Rightarrow> operation_call option \<times> operation_db" where
  "mark_failed call_id error =
     (let e = dict_or error
      in mark_call call_id ''failed'' None (Some e) ''failed'' (Some (str_or (dget e ''message'') []))
           (Some [(''error'', PDict e)]))"

definition mark_cancelled :: "string \<Rightarrow> pydict option \<Rightarrow> operation_db \<Rightarrow> operation_call option \<times> operation_db" where
  "mark_cancelled call_id error =
     (let e = dict_or error
      in mark_call call_id ''cancelled'' None (Some e) ''cancelled''
           (Some (str_or (dget e ''message'') ''Tool call cancelled'')) (Some [(''error'', PDict e)]))"


section \<open>Interfaces\<close>

interpretation op_table: unique_table op_id op_clash
  by unfold_locales (auto simp: op_clash_def)

interpretation oc_table: unique_table oc_id oc_clash
  by unfold_locales (auto simp: oc_clash_def)

interpretation oc_calls: unique_table oc_call_id oc_clash
  by unfold_locales (auto simp: oc_clash_def)

interpretation call_row: row_op oc_call_id "call_status_row status result error"
  by unfold_locales (simp add: call_status_row_def)

interpretation operation_row: row_op op_id "operation_status_row status summary metadata"
  by unfold_locales (simp add: operation_status_row_def)

lemma call_status_row_simps [simp]:
  "oc_status (call_status_row st r e c) = st" "oc_call_id (call_status_row st r e c) = oc_call_id c"
  "oc_id (call_status_row st r e c) = oc_id c" "oc_operation_id (call_status_row st r e c) = oc_operation_id c"
  by (simp_all add: call_status_row_def)

lemma operation_status_row_simps [simp]:
  "op_status (operation_status_row st s m r) = st" "op_id (operation_status_row st s m r) = op_id r"
  "op_operation_id (operation_status_row st s m r) = op_operation_id r"
  by (simp_all add: operation_status_row_def)

section \<open>The status of a call and of its operation\<close>

text \<open>The status an operation has while its call has a given status.\<close>

definition operation_status_of :: "string \<Rightarrow> string" where
  "operation_status_of s = (if s = ''dispatched'' then ''dispatching'' else s)"

lemma mark_call_unknown:
  "get_by_call_id cid (od_calls db) = None \<Longrightarrow> mark_call cid cst r e ost s m db = (None, db)"
proof -
  assume n: "get_by_call_id cid (od_calls db) = None"
  then have "cid \<notin> oc_call_id ` set (od_calls db)" by (simp add: get_by_call_id_def tbl_get_None)
  with n show ?thesis by (cases db) (simp add: mark_call_def call_update_status_def)
qed

lemma mark_call_known:
  "get_by_call_id cid (od_calls db) = Some c \<Longrightarrow>
   mark_call cid cst r e ost s m db =
     (Some (call_status_row cst r e c),
      \<lparr>od_operations = tbl_upd op_id (oc_operation_id c) (operation_status_row ost s m) (od_operations db),
       od_calls = tbl_upd oc_call_id cid (call_status_row cst r e) (od_calls db)\<rparr>)"
  by (cases db) (simp add: mark_call_def call_update_status_def operation_update_status_def)

text \<open>The marks of the service; each is a \<open>mark_call\<close> whose two statuses agree.\<close>

inductive call_mark :: "string \<Rightarrow> operation_db \<Rightarrow> operation_db \<Rightarrow> bool" where
  dispatched: "call_mark cid db (snd (mark_dispatched cid db))"
| accepted: "call_mark cid db (snd (mark_accepted cid db))"
| progress: "call_mark cid db (snd (mark_progress cid detail metadata db))"
| succeeded: "call_mark cid db (snd (mark_succeeded cid result db))"
| failed: "call_mark cid db (snd (mark_failed cid error db))"
| cancelled: "call_mark cid db (snd (mark_cancelled cid error db))"

lemma call_mark_cases_known:
  assumes "call_mark cid db db'" and "get_by_call_id cid (od_calls db) = Some c"
  obtains cst r e s m where "db' = snd (mark_call cid cst r e (operation_status_of cst) s m db)"
  using assms(1)
proof cases
  case dispatched
  then show ?thesis by (intro that [of "''dispatched''"]) (simp add: mark_dispatched_def operation_status_of_def)
next
  case accepted
  then show ?thesis by (intro that [of "''running''"]) (simp add: mark_accepted_def operation_status_of_def)
next
  case (progress detail metadata)
  then show ?thesis
    by (intro that [of "''running''"]) (simp add: mark_progress_def assms(2) operation_status_of_def)
next
  case (succeeded result)
  then show ?thesis
    by (intro that [of "''succeeded''"]) (simp add: mark_succeeded_def Let_def operation_status_of_def)
next
  case (failed error)
  then show ?thesis
    by (intro that [of "''failed''"]) (simp add: mark_failed_def Let_def operation_status_of_def)
next
  case (cancelled error)
  then show ?thesis
    by (intro that [of "''cancelled''"]) (simp add: mark_cancelled_def Let_def operation_status_of_def)
qed

lemma call_mark_unknown:
  "call_mark cid db db' \<Longrightarrow> get_by_call_id cid (od_calls db) = None \<Longrightarrow> db' = db"
  by (cases rule: call_mark.cases)
    (auto simp: mark_dispatched_def mark_accepted_def mark_progress_def mark_succeeded_def mark_failed_def
       mark_cancelled_def Let_def mark_call_unknown)

text \<open>How the router opens a call: a new operation with one call, both queued.\<close>

definition open_call ::
  "row_id \<Rightarrow> string \<Rightarrow> operation \<Rightarrow> row_id \<Rightarrow> string \<Rightarrow> operation_call \<Rightarrow> operation_db
   \<Rightarrow> pyerr + (operation \<times> operation_call) \<times> operation_db" where
  "open_call op_new op_uuid op_req call_new call_uuid call_req db =
     rbind (create_operation op_new op_uuid (op_req\<lparr>op_status := ''queued''\<rparr>) db) (\<lambda>(opn, db1).
     rbind (create_call call_new call_uuid None (call_req\<lparr>oc_operation_id := op_id opn, oc_status := ''queued''\<rparr>) db1)
       (\<lambda>(call, db2). Inr ((opn, call), db2)))"

inductive calls_reachable :: "operation_db \<Rightarrow> bool" where
  start: "calls_reachable \<lparr>od_operations = [], od_calls = []\<rparr>"
| opened: "calls_reachable db \<Longrightarrow> open_call i u orq j v crq db = Inr (x, db') \<Longrightarrow> calls_reachable db'"
| operation: "calls_reachable db \<Longrightarrow> create_operation i u orq db = Inr (opn, db') \<Longrightarrow> calls_reachable db'"
| marked: "calls_reachable db \<Longrightarrow> call_mark cid db db' \<Longrightarrow> calls_reachable db'"

definition in_step :: "operation_db \<Rightarrow> operation_call \<Rightarrow> bool" where
  "in_step db c \<longleftrightarrow> (case get_operation_by_id (oc_operation_id c) (od_operations db) of
      Some r \<Rightarrow> op_status r = operation_status_of (oc_status c) | None \<Rightarrow> False)"

definition calls_ok :: "operation_db \<Rightarrow> bool" where
  "calls_ok db \<longleftrightarrow> unique_rows op_clash (od_operations db) \<and> unique_rows oc_clash (od_calls db)
     \<and> distinct (map oc_operation_id (od_calls db)) \<and> list_all (in_step db) (od_calls db)"

lemma unique_operation_upd:
  "unique_rows op_clash T \<Longrightarrow> unique_rows op_clash (tbl_upd op_id i (operation_status_row st s m) T)"
  unfolding tbl_upd_def by (rule op_table.unique_map) (auto simp: op_clash_def split: if_splits)

lemma unique_call_upd:
  "unique_rows oc_clash T \<Longrightarrow> unique_rows oc_clash (tbl_upd oc_call_id i (call_status_row st r e) T)"
  unfolding tbl_upd_def by (rule oc_table.unique_map) (auto simp: oc_clash_def split: if_splits)

lemma calls_ok_mark:
  assumes ok: "calls_ok db" and c: "get_by_call_id cid (od_calls db) = Some c"
  shows "calls_ok (snd (mark_call cid cst r e (operation_status_of cst) s m db))" (is "calls_ok ?db'")
proof -
  have mem: "c \<in> set (od_calls db)" "oc_call_id c = cid" using tbl_get_Some [OF c [unfolded get_by_call_id_def]] by auto
  have u: "unique_rows op_clash (od_operations ?db')" "unique_rows oc_clash (od_calls ?db')"
    using ok by (simp_all add: calls_ok_def mark_call_known [OF c] unique_operation_upd unique_call_upd)
  have d: "map oc_operation_id (od_calls ?db') = map oc_operation_id (od_calls db)"
    by (simp add: mark_call_known [OF c] tbl_upd_def)
  have "in_step ?db' x'" if mem': "x' \<in> set (od_calls ?db')" for x'
  proof -
    obtain x where x: "x \<in> set (od_calls db)" "x' = (if oc_call_id x = cid then call_status_row cst r e x else x)"
      using mem' by (auto simp: mark_call_known [OF c] tbl_upd_def)
    have step: "in_step db x" using ok x(1) by (simp add: calls_ok_def list_all_iff)
    show ?thesis
    proof (cases "oc_call_id x = cid")
      case True
      then have "x = c"
        using oc_calls.unique_eq [of "od_calls db" x c] ok x(1) mem by (simp add: calls_ok_def oc_clash_def)
      then show ?thesis using step True x(2)
        by (auto simp: in_step_def mark_call_known [OF c] get_operation_by_id_def operation_row.get_upd_same split: option.splits)
    next
      case False
      then have "oc_operation_id x \<noteq> oc_operation_id c"
        using ok x(1) mem by (auto simp: calls_ok_def distinct_map inj_on_def)
      then show ?thesis using step False x(2)
        by (auto simp: in_step_def mark_call_known [OF c] get_operation_by_id_def operation_row.get_upd_other)
    qed
  qed
  then show ?thesis using ok u d by (simp add: calls_ok_def list_all_iff)
qed


lemma open_call_Inr:
  assumes ok: "calls_ok db" and o: "open_call i u orq j v crq db = Inr ((opn, call), db')"
  shows "od_operations db' = od_operations db @ [opn]" "od_calls db' = od_calls db @ [call]"
    "oc_operation_id call = op_id opn" "oc_status call = ''queued''" "op_status opn = ''queued''"
    "oc_call_id call = ''call_'' @ v" "op_id opn = i"
    "unique_rows op_clash (od_operations db')" "unique_rows oc_clash (od_calls db')"
    "get_operation_by_id (op_id opn) (od_operations db) = None"
proof -
  obtain T db1 where 1: "operation_create (orq\<lparr>op_status := ''queued'', op_id := i, op_operation_id := ''op_'' @ u\<rparr>)
      (od_operations db) = Inr (opn, T)" "db1 = db\<lparr>od_operations := T\<rparr>"
    and 2: "create_call j v None (crq\<lparr>oc_operation_id := op_id opn, oc_status := ''queued''\<rparr>) db1 = Inr (call, db')"
    using o by (auto simp: open_call_def create_operation_def rbind_def split: sum.splits)
  have u: "unique_rows op_clash (od_operations db)" "unique_rows oc_clash (od_calls db)"
    using ok by (simp_all add: calls_ok_def)
  have T: "T = od_operations db @ [opn]" "unique_rows op_clash T" "op_id opn = i" "op_status opn = ''queued''"
    using op_table.insert_ok [OF 1(1) [unfolded operation_create_def] u(1)] by auto
  obtain U where c: "insert_row oc_clash ''operation_calls'' call (od_calls db) = Inr (call, U)"
    "db' = db1\<lparr>od_calls := U\<rparr>" and f: "oc_operation_id call = op_id opn" "oc_status call = ''queued''"
    "oc_call_id call = ''call_'' @ v"
    using 2 by (auto simp: create_call_def call_create_def rbind_def 1(2) insert_row_def split: if_splits)
  have U: "U = od_calls db @ [call]" "unique_rows oc_clash U" using oc_table.insert_ok [OF c(1) u(2)] by auto
  have "op_id opn \<notin> op_id ` set (od_operations db)"
    using op_table.unique_keys [OF T(2)] by (auto simp: T(1))
  then show "get_operation_by_id (op_id opn) (od_operations db) = None"
    by (simp add: get_operation_by_id_def tbl_get_None)
  show "od_operations db' = od_operations db @ [opn]" "od_calls db' = od_calls db @ [call]"
    "oc_operation_id call = op_id opn" "oc_status call = ''queued''" "op_status opn = ''queued''"
    "oc_call_id call = ''call_'' @ v" "op_id opn = i"
    "unique_rows op_clash (od_operations db')" "unique_rows oc_clash (od_calls db')"
    using T U c(2) f 1(2) by simp_all
qed

lemma calls_ok_open:
  assumes ok: "calls_ok db" and o: "open_call i u orq j v crq db = Inr ((opn, call), db')"
  shows "calls_ok db'"
proof -
  note f = open_call_Inr [OF ok o]
  have keep: "in_step db' c" if "in_step db c" for c
    using that by (auto simp: in_step_def f(1) get_operation_by_id_def tbl_get_append split: option.splits)
  have new: "oc_operation_id call \<notin> oc_operation_id ` set (od_calls db)"
  proof
    assume "oc_operation_id call \<in> oc_operation_id ` set (od_calls db)"
    then obtain c where "c \<in> set (od_calls db)" "oc_operation_id c = op_id opn" using f(3) by auto
    then show False using ok f(10) by (auto simp: calls_ok_def list_all_iff in_step_def split: option.splits)
  qed
  have "in_step db' call"
    using f(10) by (simp add: in_step_def f(1,3,4,5) get_operation_by_id_def tbl_get_append operation_status_of_def)
  with keep new ok f show ?thesis by (auto simp: calls_ok_def list_all_iff)
qed

lemma in_step_iff:
  "in_step db c \<longleftrightarrow> map_option op_status (get_operation_by_id (oc_operation_id c) (od_operations db))
     = Some (operation_status_of (oc_status c))"
  by (auto simp: in_step_def split: option.splits)

lemma calls_ok_operation:
  assumes ok: "calls_ok db" and o: "create_operation i u orq db = Inr (opn, db')"
  shows "calls_ok db'"
proof -
  obtain T where 1: "insert_row op_clash ''operations''
      (orq\<lparr>op_id := i, op_operation_id := ''op_'' @ u, op_summary := [], op_result_summary := []\<rparr>) (od_operations db) = Inr (opn, T)"
    and db': "db' = db\<lparr>od_operations := T\<rparr>"
    using o by (auto simp: create_operation_def operation_create_def rbind_def split: sum.splits)
  have T: "T = od_operations db @ [opn]" "unique_rows op_clash T"
    using op_table.insert_ok [OF 1] ok by (auto simp: calls_ok_def)
  have "in_step db' c" if "in_step db c" for c
    using that by (auto simp: in_step_def db' T get_operation_by_id_def tbl_get_append split: option.splits)
  then show ?thesis using ok T by (auto simp: calls_ok_def db' list_all_iff)
qed

lemma calls_ok_reachable: "calls_reachable db \<Longrightarrow> calls_ok db"
proof (induction rule: calls_reachable.induct)
  case start
  show ?case by (simp add: calls_ok_def)
next
  case (opened db i u orq j v crq x db')
  then show ?case using calls_ok_open by (cases x) blast
next
  case (operation db i u orq opn db')
  then show ?case using calls_ok_operation by blast
next
  case (marked db cid db')
  show ?case
  proof (cases "get_by_call_id cid (od_calls db)")
    case None
    then show ?thesis using call_mark_unknown [OF marked(2)] marked(3) by simp
  next
    case (Some c)
    obtain cst r e s m where "db' = snd (mark_call cid cst r e (operation_status_of cst) s m db)"
      using call_mark_cases_known [OF marked(2) Some] .
    then show ?thesis using calls_ok_mark [OF marked(3) Some] by simp
  qed
qed


section \<open>Properties\<close>

definition example_operation :: operation where
  "example_operation =
     \<lparr>op_id = [], op_operation_id = [], op_thread_id = None, op_workspace_id = ''w1'', op_requested_by_actor_id = None,
      op_requested_by_run_id = None, op_requested_by_session_id = None, op_operation_type = ''tool_call'',
      op_execution_target = ''desk'', op_execution_target_type = ''endpoint'', op_execution_target_id = ''desk'',
      op_target_endpoint_id = Some ''e1'', op_status = ''queued'', op_title = [], op_summary = [],
      op_result_summary = [], op_meta = []\<rparr>"

definition example_call :: operation_call where
  "example_call =
     \<lparr>oc_id = [], oc_call_id = [], oc_operation_id = [], oc_capability_id = None, oc_endpoint_capability_id = None,
      oc_target_endpoint_id = Some ''e1'', oc_execution_target_id = ''desk'', oc_status = ''queued'',
      oc_arguments = [], oc_result = [], oc_error = []\<rparr>"

definition example_calls :: operation_db where
  "example_calls = snd (projr (open_call ''o1'' ''1'' example_operation ''c1'' ''1'' example_call
     \<lparr>od_operations = [], od_calls = []\<rparr>))"

lemma example_calls_reachable: "calls_reachable example_calls"
proof -
  let ?r = "open_call ''o1'' ''1'' example_operation ''c1'' ''1'' example_call \<lparr>od_operations = [], od_calls = []\<rparr>"
  have "\<not> isl ?r" by code_simp
  then have "?r = Inr (fst (projr ?r), example_calls)" unfolding example_calls_def by (simp add: Inr_projr)
  then show ?thesis by (rule calls_reachable.opened [OF calls_reachable.start])
qed

text \<open>A finished call is opened again by a late frame: \<open>mark_progress\<close> does not look at the status of
  the call, so progress that arrives after the call has succeeded, failed or been cancelled puts
  the call and its operation back to running, with the old result or error still in the row.\<close>

theorem late_progress_reopens_call:
  assumes "get_by_call_id cid (od_calls db) = Some c"
    and "get_operation_by_id (oc_operation_id c) (od_operations db) = Some r"
  shows "case mark_progress cid detail metadata db of
      (Some c', db') \<Rightarrow> oc_status c' = ''running'' \<and> oc_result c' = oc_result c \<and> oc_error c' = oc_error c
        \<and> map_option op_status (get_operation_by_id (oc_operation_id c) (od_operations db')) = Some ''running''
        \<and> map_option op_result_summary (get_operation_by_id (oc_operation_id c) (od_operations db'))
            = Some (op_result_summary r)
    | (None, _) \<Rightarrow> False"
  using assms
  by (simp add: mark_progress_def mark_call_known get_operation_by_id_def operation_row.get_upd_same)
    (simp add: call_status_row_def operation_status_row_def)

theorem late_progress_reopens_call_witness:
  "let db = snd (mark_succeeded ''call_1'' (Some [(''summary'', PStr ''done'')]) example_calls)
   in map_option oc_status (get_by_call_id ''call_1'' (od_calls db)) = Some ''succeeded''
    \<and> map_option oc_status (fst (mark_progress ''call_1'' [] None db)) = Some ''running''"
proof -
  let ?db = "snd (mark_succeeded ''call_1'' (Some [(''summary'', PStr ''done'')]) example_calls)"
  obtain c r where c: "get_by_call_id ''call_1'' (od_calls ?db) = Some c" "oc_status c = ''succeeded''"
    "get_operation_by_id (oc_operation_id c) (od_operations ?db) = Some r"
  proof -
    have "(case get_by_call_id ''call_1'' (od_calls ?db) of Some c \<Rightarrow> oc_status c = ''succeeded'' \<and>
        get_operation_by_id (oc_operation_id c) (od_operations ?db) \<noteq> None | None \<Rightarrow> False)"
      by code_simp
    then show thesis using that by (auto split: option.splits)
  qed
  show ?thesis
    using late_progress_reopens_call [OF c(1,3), of "[]" None] c(1,2) by (auto simp: Let_def split: option.splits prod.splits)
qed


section \<open>Identifiers of calls\<close>

lemma mark_call_ids: "map oc_call_id (od_calls (snd (mark_call cid cst r e ost s m db))) = map oc_call_id (od_calls db)"
  by (cases "get_by_call_id cid (od_calls db)") (simp_all add: mark_call_unknown mark_call_known call_row.keys_upd)

lemma call_mark_ids: "call_mark cid db db' \<Longrightarrow> map oc_call_id (od_calls db') = map oc_call_id (od_calls db)"
proof (cases "get_by_call_id cid (od_calls db)")
  case (Some c)
  assume "call_mark cid db db'"
  then show ?thesis using call_mark_cases_known [OF _ Some] mark_call_ids by metis
next
  case None
  assume "call_mark cid db db'"
  from call_mark_unknown [OF this None] show ?thesis by simp
qed

lemma get_by_call_id_None: "get_by_call_id cid T = None \<longleftrightarrow> cid \<notin> set (map oc_call_id T)"
  by (simp add: get_by_call_id_def tbl_get_None)

end
