(* ===== verification/Credential_Guard.thy ===== *)
theory Credential_Guard
  imports Py_Base
begin

text \<open>
  Protection of secrets in tool arguments: \<^verbatim>\<open>endpoint_tool_sdk/security.py\<close>. Arguments with
  sensitive fields are redacted in everything that is stored or logged and travel encrypted.

  The cryptography (AES-GCM of the Crypto package, HMAC-SHA-256) and the codecs (JSON, UTF-8,
  base64) are the fields of a record \<open>codec\<close>, an argument of the definitions; what a property
  needs of them is stated with it. \<open>getenv\<close> is the environment and \<open>iv\<close> the twelve bytes drawn
  with \<open>os.urandom\<close>. Byte strings are strings. The texts of the error messages, which are
  Chinese, are left out; the code of the error is kept.
\<close>

section \<open>Sensitive fields\<close>

definition sensitive_field_names :: "string list" where
  "sensitive_field_names = [''access_token'', ''api_key'', ''authorization'', ''cookie'', ''cookie_header'', ''email'',
     ''password'', ''refresh_token'', ''secret'', ''token'', ''webvpn_cookie'']"

definition sensitive_field_suffixes :: "string list" where
  "sensitive_field_suffixes = [''_api_key'', ''_cookie'', ''_password'', ''_secret'', ''_token'']"

definition is_sensitive_field_name :: "string \<Rightarrow> bool" where
  "is_sensitive_field_name k \<longleftrightarrow> k \<in> set sensitive_field_names \<or> list_ex (endswith k) sensitive_field_suffixes"

abbreviation sensitive_key :: "string \<Rightarrow> bool" where
  "sensitive_key key \<equiv> is_sensitive_field_name (lower (strip key))"

fun contains_sensitive_fields :: "pyval \<Rightarrow> bool"
and sensitive_in_items :: "pyval list \<Rightarrow> bool"
and sensitive_in_pairs :: "(string \<times> pyval) list \<Rightarrow> bool" where
  "contains_sensitive_fields (PDict d) = sensitive_in_pairs d"
| "contains_sensitive_fields (PList xs) = sensitive_in_items xs"
| "contains_sensitive_fields v = False"
| "sensitive_in_items [] = False"
| "sensitive_in_items (x # xs) = (contains_sensitive_fields x \<or> sensitive_in_items xs)"
| "sensitive_in_pairs [] = False"
| "sensitive_in_pairs ((k, v) # d) = (if sensitive_key k then True
     else if contains_sensitive_fields v then True else sensitive_in_pairs d)"

definition redacted :: pyval where
  "redacted = PStr ''[REDACTED]''"

text \<open>The keys of a dictionary are distinct strings, so the loop that fills \<open>result\<close> keeps their
  order.\<close>

fun redact_sensitive_fields :: "pyval \<Rightarrow> pyval"
and redact_items :: "pyval list \<Rightarrow> pyval list"
and redact_pairs :: "(string \<times> pyval) list \<Rightarrow> (string \<times> pyval) list" where
  "redact_sensitive_fields (PDict d) = PDict (redact_pairs d)"
| "redact_sensitive_fields (PList xs) = PList (redact_items xs)"
| "redact_sensitive_fields v = v"
| "redact_items [] = []"
| "redact_items (x # xs) = redact_sensitive_fields x # redact_items xs"
| "redact_pairs [] = []"
| "redact_pairs ((k, v) # d) =
     (k, if sensitive_key k then redacted else redact_sensitive_fields v) # redact_pairs d"

section \<open>Encryption\<close>

type_synonym bytes = string

datatype credential_error = CredentialTransportError (ce_code: string)

record codec =
  json_dumps :: "pyval \<Rightarrow> bytes"
  json_loads :: "bytes \<Rightarrow> pyval option"
  utf8 :: "string \<Rightarrow> bytes"
  hmac_sha256 :: "bytes \<Rightarrow> bytes \<Rightarrow> bytes"
  gcm_seal :: "bytes \<Rightarrow> bytes \<Rightarrow> bytes \<Rightarrow> bytes \<Rightarrow> (bytes \<times> bytes) option"
  gcm_open :: "bytes \<Rightarrow> bytes \<Rightarrow> bytes \<Rightarrow> bytes \<Rightarrow> bytes \<Rightarrow> bytes option"
  b64encode :: "bytes \<Rightarrow> string"
  b64decode :: "string \<Rightarrow> bytes option"
  aes_available :: bool

definition credential_secret_env_names :: "string list" where
  "credential_secret_env_names =
     [''MEETYOU_CREDENTIAL_SECRET'', ''MEETYOU_GATEWAY_ACCESS_TOKEN'', ''MEETYOU_CLIENT_ACCESS_TOKEN'']"

fun first_env :: "(string \<Rightarrow> string option) \<Rightarrow> string list \<Rightarrow> string option" where
  "first_env getenv [] = None"
| "first_env getenv (n # ns) =
     (let v = strip (case getenv n of Some s \<Rightarrow> s | None \<Rightarrow> []) in if v \<noteq> [] then Some v else first_env getenv ns)"

definition resolve_credential_secret :: "(string \<Rightarrow> string option) \<Rightarrow> string \<Rightarrow> credential_error + string" where
  "resolve_credential_secret getenv explicit_secret =
     (if strip explicit_secret \<noteq> [] then Inr (strip explicit_secret)
      else case first_env getenv credential_secret_env_names of
        Some v \<Rightarrow> Inr v
      | None \<Rightarrow> Inl (CredentialTransportError ''credential_key_unavailable''))"

definition derive_key :: "codec \<Rightarrow> string \<Rightarrow> string \<Rightarrow> bytes" where
  "derive_key C secret purpose =
     (let prk = hmac_sha256 C ''MeetYouCredentialTransportV1'' (utf8 C secret)
      in hmac_sha256 C prk (utf8 C purpose @ [char_of (1::nat)]))"

definition envelope :: "codec \<Rightarrow> string \<Rightarrow> bytes \<Rightarrow> bytes \<Rightarrow> bytes \<Rightarrow> pydict" where
  "envelope C purpose iv ciphertext tag =
     [(''version'', PStr ''v1''), (''alg'', PStr ''aes-256-gcm''), (''purpose'', PStr purpose),
      (''iv'', PStr (b64encode C iv)), (''ciphertext'', PStr (b64encode C ciphertext)), (''tag'', PStr (b64encode C tag))]"

definition encrypt_json_payload ::
  "codec \<Rightarrow> (string \<Rightarrow> string option) \<Rightarrow> bytes \<Rightarrow> pydict \<Rightarrow> string \<Rightarrow> string \<Rightarrow> credential_error + pydict" where
  "encrypt_json_payload C getenv iv payload purpose explicit_secret =
     rbind (resolve_credential_secret getenv explicit_secret) (\<lambda>secret.
       if \<not> aes_available C then Inl (CredentialTransportError ''credential_crypto_unavailable'')
       else case gcm_seal C (derive_key C secret purpose) iv (utf8 C purpose) (json_dumps C (PDict payload)) of
           Some (ciphertext, tag) \<Rightarrow> Inr (envelope C purpose iv ciphertext tag)
         | None \<Rightarrow> Inl (CredentialTransportError ''credential_encrypt_failed''))"

definition decrypt_failed :: "credential_error + 'a" where
  "decrypt_failed = Inl (CredentialTransportError ''credential_decrypt_failed'')"

definition opened :: "bytes option \<Rightarrow> (bytes \<Rightarrow> credential_error + 'a) \<Rightarrow> credential_error + 'a" where
  "opened x f = (case x of Some b \<Rightarrow> f b | None \<Rightarrow> decrypt_failed)"

definition decrypt_json_payload ::
  "codec \<Rightarrow> (string \<Rightarrow> string option) \<Rightarrow> pyval \<Rightarrow> string \<Rightarrow> string \<Rightarrow> credential_error + pydict" where
  "decrypt_json_payload C getenv env purpose explicit_secret =
     (case env of
        PDict e \<Rightarrow>
          rbind (resolve_credential_secret getenv explicit_secret) (\<lambda>secret.
            if str_or (dget e ''version'') [] \<noteq> ''v1'' \<or> lower (str_or (dget e ''alg'') []) \<noteq> ''aes-256-gcm''
               \<or> str_or (dget e ''purpose'') [] \<noteq> purpose
            then decrypt_failed
            else opened (b64decode C (str_or (dget e ''iv'') [])) (\<lambda>iv.
                 opened (b64decode C (str_or (dget e ''ciphertext'') [])) (\<lambda>ciphertext.
                 opened (b64decode C (str_or (dget e ''tag'') [])) (\<lambda>tag.
                   if \<not> aes_available C then Inl (CredentialTransportError ''credential_crypto_unavailable'')
                   else opened (gcm_open C (derive_key C secret purpose) iv (utf8 C purpose) ciphertext tag) (\<lambda>plaintext.
                          case json_loads C plaintext of Some (PDict d) \<Rightarrow> Inr d | _ \<Rightarrow> decrypt_failed)))))
      | _ \<Rightarrow> decrypt_failed)"

record protected_arguments =
  pa_public_arguments :: pydict
  pa_encrypted_arguments :: "pydict option"
  pa_contains_sensitive_fields :: bool

definition protect_sensitive_arguments ::
  "codec \<Rightarrow> (string \<Rightarrow> string option) \<Rightarrow> bytes \<Rightarrow> pydict option \<Rightarrow> string \<Rightarrow> string \<Rightarrow> credential_error + protected_arguments" where
  "protect_sensitive_arguments C getenv iv arguments purpose explicit_secret =
     (let normalized = dict_or arguments
      in if \<not> contains_sensitive_fields (PDict normalized)
         then Inr \<lparr>pa_public_arguments = normalized, pa_encrypted_arguments = None, pa_contains_sensitive_fields = False\<rparr>
         else rbind (encrypt_json_payload C getenv iv normalized purpose explicit_secret) (\<lambda>enc.
           Inr \<lparr>pa_public_arguments = redact_pairs normalized, pa_encrypted_arguments = Some enc,
                pa_contains_sensitive_fields = True\<rparr>))"

section \<open>What redaction shows\<close>

text \<open>Two values that agree on everything that is not under a sensitive key.\<close>

fun same_public :: "pyval \<Rightarrow> pyval \<Rightarrow> bool"
and same_public_items :: "pyval list \<Rightarrow> pyval list \<Rightarrow> bool"
and same_public_pairs :: "(string \<times> pyval) list \<Rightarrow> (string \<times> pyval) list \<Rightarrow> bool" where
  "same_public (PDict d) w = (case w of PDict e \<Rightarrow> same_public_pairs d e | _ \<Rightarrow> False)"
| "same_public (PList xs) w = (case w of PList ys \<Rightarrow> same_public_items xs ys | _ \<Rightarrow> False)"
| "same_public v w = (v = w)"
| "same_public_items [] ys = (ys = [])"
| "same_public_items (x # xs) ys = (case ys of y # ys' \<Rightarrow> same_public x y \<and> same_public_items xs ys' | [] \<Rightarrow> False)"
| "same_public_pairs [] e = (e = [])"
| "same_public_pairs ((k, v) # d) e = (case e of
       (k', v') # e' \<Rightarrow> k = k' \<and> (sensitive_key k \<or> same_public v v') \<and> same_public_pairs d e'
     | [] \<Rightarrow> False)"

lemma redact_eq_iff:
  "redact_sensitive_fields v = redact_sensitive_fields w \<longleftrightarrow> same_public v w"
  "redact_items xs = redact_items ys \<longleftrightarrow> same_public_items xs ys"
  "redact_pairs d = redact_pairs e \<longleftrightarrow> same_public_pairs d e"
proof (induction v and xs and d arbitrary: w and ys and e
    rule: redact_sensitive_fields_redact_items_redact_pairs.induct)
  case (5 x xs)
  then show ?case by (cases ys) auto
next
  case (7 k v d)
  show ?case
  proof (cases e)
    case (Cons p e')
    then show ?thesis using "7.IH"(2) [of e'] "7.IH"(1) [of "snd p"] by (cases p) (simp, metis)
  qed simp
next
  case 4
  then show ?case by (cases ys) auto
next
  case 6
  then show ?case by (cases e) auto
next
  case 1
  then show ?case by (cases w) auto
next
  case 2
  then show ?case by (cases w) auto
next
  case "3_1"
  then show ?case by (cases w) auto
next
  case "3_2"
  then show ?case by (cases w) auto
next
  case "3_3"
  then show ?case by (cases w) auto
next
  case "3_4"
  then show ?case by (cases w) auto
next
  case "3_5"
  then show ?case by (cases w) auto
qed

text \<open>Every value under a sensitive key is the redaction mark.\<close>

fun all_redacted :: "pyval \<Rightarrow> bool"
and all_redacted_items :: "pyval list \<Rightarrow> bool"
and all_redacted_pairs :: "(string \<times> pyval) list \<Rightarrow> bool" where
  "all_redacted (PDict d) = all_redacted_pairs d"
| "all_redacted (PList xs) = all_redacted_items xs"
| "all_redacted v = True"
| "all_redacted_items [] = True"
| "all_redacted_items (x # xs) = (all_redacted x \<and> all_redacted_items xs)"
| "all_redacted_pairs [] = True"
| "all_redacted_pairs ((k, v) # d) =
     ((if sensitive_key k then v = redacted else all_redacted v) \<and> all_redacted_pairs d)"

lemma all_redacted_redact:
  "all_redacted (redact_sensitive_fields v)" "all_redacted_items (redact_items xs)" "all_redacted_pairs (redact_pairs d)"
  by (induction v and xs and d rule: redact_sensitive_fields_redact_items_redact_pairs.induct) auto

lemma redact_id:
  "\<not> contains_sensitive_fields v \<Longrightarrow> redact_sensitive_fields v = v"
  "\<not> sensitive_in_items xs \<Longrightarrow> redact_items xs = xs"
  "\<not> sensitive_in_pairs d \<Longrightarrow> redact_pairs d = d"
  by (induction v and xs and d rule: redact_sensitive_fields_redact_items_redact_pairs.induct)
    (auto split: if_splits)

lemma protect_public:
  "protect_sensitive_arguments C getenv iv arguments purpose explicit = Inr p
   \<Longrightarrow> pa_public_arguments p = redact_pairs (dict_or arguments)"
  by (auto simp: protect_sensitive_arguments_def Let_def redact_id rbind_def split: if_splits sum.splits)

text \<open>No secret in the public arguments: whatever \<open>protect_sensitive_arguments\<close> returns as public
  arguments has the redaction mark under every sensitive key at every depth, and depends on
  nothing but the values that are not sensitive. Two argument dictionaries have the same public
  arguments exactly when they agree outside the sensitive fields.\<close>

theorem public_arguments_hide_secrets:
  assumes "protect_sensitive_arguments C getenv iv (Some a) purpose explicit = Inr p"
    and "protect_sensitive_arguments C' getenv' iv' (Some b) purpose' explicit' = Inr q"
  shows "all_redacted_pairs (pa_public_arguments p)
    \<and> (pa_public_arguments p = pa_public_arguments q \<longleftrightarrow> same_public_pairs a b)"
  using protect_public [OF assms(1)] protect_public [OF assms(2)]
  by (simp add: dict_or_def all_redacted_redact redact_eq_iff)

definition example_codec :: codec where
  "example_codec = \<lparr>json_dumps = (\<lambda>v. py_repr v),
     json_loads = (\<lambda>s. if s = py_repr (PDict [(''token'', PStr ''x'')]) then Some (PDict [(''token'', PStr ''x'')]) else None),
     utf8 = (\<lambda>s. s), hmac_sha256 = (\<lambda>k m. k @ m), gcm_seal = (\<lambda>k n ad m. Some (rev m, k)),
     gcm_open = (\<lambda>k n ad ct tag. if tag = k then Some (rev ct) else None),
     b64encode = (\<lambda>b. ''='' @ b), b64decode = (\<lambda>s. case s of [] \<Rightarrow> None | _ # b \<Rightarrow> Some b), aes_available = True\<rparr>"

theorem public_arguments_hide_secrets_witness:
  "pa_public_arguments (projr (protect_sensitive_arguments example_codec (\<lambda>_. Some ''k'') ''iv'' (Some [(''token'', PStr ''x'')]) ''p'' []))
   = pa_public_arguments (projr (protect_sensitive_arguments example_codec (\<lambda>_. Some ''k'') ''iv'' (Some [(''token'', PStr ''y'')]) ''p'' []))"
  (is "pa_public_arguments (projr ?p) = pa_public_arguments (projr ?q)")
proof -
  have "\<not> isl ?p" "\<not> isl ?q" "same_public_pairs [(''token'', PStr ''x'')] [(''token'', PStr ''y'')]" by code_simp+
  then show ?thesis using public_arguments_hide_secrets [OF Inr_projr [of ?p] Inr_projr [of ?q]] by simp
qed

text \<open>Round trip of a protected payload: what \<open>encrypt_json_payload\<close> seals for a purpose, a receiver
  with the same secret opens to the same payload, provided that the cipher opens what it
  sealed, base64 decodes what it encoded and the JSON text of the payload is read back.\<close>

theorem encrypt_decrypt_round_trip:
  assumes enc: "encrypt_json_payload C getenv iv payload purpose explicit = Inr env"
    and cipher: "\<And>k n ad m ct tag. gcm_seal C k n ad m = Some (ct, tag) \<Longrightarrow> gcm_open C k n ad ct tag = Some m"
    and base64: "\<And>b. b64decode C (b64encode C b) = Some b"
    and json: "json_loads C (json_dumps C (PDict payload)) = Some (PDict payload)"
  shows "decrypt_json_payload C getenv (PDict env) purpose explicit = Inr payload"
proof -
  obtain secret ct tag where s: "resolve_credential_secret getenv explicit = Inr secret" and a: "aes_available C"
    and g: "gcm_seal C (derive_key C secret purpose) iv (utf8 C purpose) (json_dumps C (PDict payload)) = Some (ct, tag)"
    and env: "env = envelope C purpose iv ct tag"
    using enc by (auto simp: encrypt_json_payload_def rbind_def split: sum.splits if_splits option.splits)
  have [simp]: "str_or (PStr t) [] = t" for t by (simp add: str_or_def py_or_def)
  have "lower ''aes-256-gcm'' = ''aes-256-gcm''" by code_simp
  then show ?thesis
    by (simp add: decrypt_json_payload_def s env envelope_def dget_def base64 a cipher [OF g] json opened_def rbind_def)
qed

theorem encrypt_decrypt_round_trip_witness:
  "decrypt_json_payload example_codec (\<lambda>_. Some ''k'')
     (PDict (projr (encrypt_json_payload example_codec (\<lambda>_. Some ''k'') ''iv'' [(''token'', PStr ''x'')] ''p'' []))) ''p'' []
   = Inr [(''token'', PStr ''x'')]"
proof -
  let ?e = "encrypt_json_payload example_codec (\<lambda>_. Some ''k'') ''iv'' [(''token'', PStr ''x'')] ''p'' []"
  have "\<not> isl ?e" by code_simp
  then show ?thesis
    by (rule encrypt_decrypt_round_trip [OF Inr_projr]) (simp_all add: example_codec_def)
qed

text \<open>Sensitive arguments never travel in clear: when the arguments contain a sensitive field,
  \<open>protect_sensitive_arguments\<close> either fails with a credential error or returns redacted public
  arguments together with an encrypted envelope; without a sensitive field it never fails and
  passes the arguments on unchanged.\<close>

theorem protect_sensitive_arguments_outcome:
  "if contains_sensitive_fields (PDict (dict_or arguments))
   then (case protect_sensitive_arguments C getenv iv arguments purpose explicit of
           Inl e \<Rightarrow> encrypt_json_payload C getenv iv (dict_or arguments) purpose explicit = Inl e
         | Inr p \<Rightarrow> pa_contains_sensitive_fields p
             \<and> Inr (the (pa_encrypted_arguments p)) = encrypt_json_payload C getenv iv (dict_or arguments) purpose explicit
             \<and> all_redacted_pairs (pa_public_arguments p))
   else protect_sensitive_arguments C getenv iv arguments purpose explicit
      = Inr \<lparr>pa_public_arguments = dict_or arguments, pa_encrypted_arguments = None, pa_contains_sensitive_fields = False\<rparr>"
  by (simp add: protect_sensitive_arguments_def Let_def rbind_def all_redacted_redact split: sum.splits)

end
