(* ===== verification/Tool_Dispatch.thy ===== *)
theory Tool_Dispatch
  imports Tool_Router Operations Credential_Guard
begin

text \<open>
  The dispatch of tool calls: the second half of \<^verbatim>\<open>core/services/tool_router_service.py\<close> (the
  core executor, \<open>route_tool_call\<close>, \<open>_dispatch_target\<close>, \<open>dispatch_tool_call\<close> and the
  notifications that the gateway sends on the frames of an endpoint).

  \<open>_dispatch_target\<close> is a coroutine. It is cut at its suspension points, so that everything
  between two of them is one definition and other coroutines run in between: \<open>dispatch_begin\<close> up
  to the call of a transport, \<open>dispatch_sent\<close> or \<open>dispatch_external\<close> when the transport has
  answered, and \<open>dispatch_wake\<close> when the future is done or the time is over. The lock of the
  router is never held across a suspension, so taking it does not suspend. A running dispatch
  is an entry of \<open>ds_tasks\<close>; its future is an entry of \<open>ds_pending\<close> under the call's id.

  Transports and tool handlers are external: their answers are arguments. \<open>now_iso\<close> and \<open>latency\<close>
  are as in \<open>record_routing_result\<close>, and \<open>ids\<close> holds the identifiers a dispatch draws.
\<close>

section \<open>The core executor\<close>

text \<open>What a handler returns: a tool result that is not ok, a tool result with content, any other
  value, or an exception.\<close>

datatype handler_result =
    Tool_failed string string pydict bool
  | Tool_content pyval pyval
  | Plain pyval
  | Handler_raised pyerr

datatype outcome =
    Tool_result pydict
  | Operation_result string string string pydict
  | Waiting_for_endpoint string string
  | Router_failure router_error
  | Crashed pyerr

definition core_execute :: "(string \<times> (pydict \<Rightarrow> handler_result)) list \<Rightarrow> string \<Rightarrow> pydict option \<Rightarrow> outcome" where
  "core_execute handlers tool_key arguments =
     (case map_of handlers (strip tool_key) of
        None \<Rightarrow> Router_failure (router_err ''core_tool_not_found'' (''Core tool is not registered: '' @ tool_key) [] False)
      | Some handler \<Rightarrow>
         (case handler (dict_or arguments) of
            Tool_failed c m details retryable \<Rightarrow>
              Router_failure (router_err (or_str c ''core_tool_failed'') (or_str m (''Core tool failed: '' @ tool_key))
                details retryable)
          | Tool_content data txt \<Rightarrow>
             (case data of
                PDict d \<Rightarrow> Tool_result d
              | PNone \<Rightarrow> Tool_result (if clean txt \<noteq> [] then [(''content'', PStr (clean txt))] else [])
              | _ \<Rightarrow> Tool_result [(''result'', data)])
          | Plain v \<Rightarrow> (case py_dict_or v of Inr d \<Rightarrow> Tool_result d | Inl e \<Rightarrow> Crashed e)
          | Handler_raised e \<Rightarrow> Crashed e))"

definition register_core_tool ::
  "string \<Rightarrow> (pydict \<Rightarrow> handler_result) \<Rightarrow> (string \<times> (pydict \<Rightarrow> handler_result)) list \<Rightarrow> resolution_cache
   \<Rightarrow> (string \<times> (pydict \<Rightarrow> handler_result)) list \<times> resolution_cache" where
  "register_core_tool tool_key handler handlers cache =
     (dset (strip tool_key) handler handlers, invalidate_cache [] tool_key [] cache)"

section \<open>State\<close>

datatype future = Pending | Result pydict | Failure router_error

datatype phase = Sending | External | Waiting

record dispatch_task =
  dt_operation_id :: string
  dt_target :: execution_target
  dt_phase :: phase
  dt_timeout_seconds :: int
  dt_return_operation :: bool

record dispatch_state =
  ds_db :: operation_db
  ds_endpoints :: "endpoint list"
  ds_pending :: "(string \<times> future) list"
  ds_tasks :: "(string \<times> dispatch_task) list"

record dispatch_ids =
  di_op_row :: row_id
  di_op :: string
  di_call_row :: row_id
  di_call :: string
  di_iv :: bytes

record dispatch_request =
  rq_target :: execution_target
  rq_tool_key :: string
  rq_arguments :: "pydict option"
  rq_workspace_id :: string
  rq_thread_row_id :: "row_id option"
  rq_actor_id :: "row_id option"
  rq_run_id :: "row_id option"
  rq_title :: string
  rq_timeout_seconds :: int
  rq_confirmed :: bool
  rq_return_operation :: bool

record dispatch_env =
  de_codec :: codec
  de_getenv :: "string \<Rightarrow> string option"
  de_workspaces :: "workspace list"
  de_endpoint_transport :: bool
  de_external_transport :: bool

section \<open>Dispatch\<close>

definition opt_text :: "string option \<Rightarrow> string" where
  "opt_text x = (case x of Some s \<Rightarrow> s | None \<Rightarrow> [])"

definition encrypted_value :: "pydict option \<Rightarrow> pyval" where
  "encrypted_value x = (case x of Some d \<Rightarrow> PDict d | None \<Rightarrow> PNone)"

text \<open>The metadata of the operation; the routing decision, which is logged with it, is left out.\<close>

definition dispatch_operation :: "dispatch_request \<Rightarrow> workspace \<Rightarrow> protected_arguments \<Rightarrow> operation" where
  "dispatch_operation rq ws protected =
     (let t = rq_target rq in
      \<lparr>op_id = [], op_operation_id = [], op_thread_id = rq_thread_row_id rq, op_workspace_id = ws_id ws,
       op_requested_by_actor_id = rq_actor_id rq, op_requested_by_run_id = rq_run_id rq,
       op_requested_by_session_id = None, op_operation_type = ''tool_call'',
       op_execution_target = et_target_id t, op_execution_target_type = et_target_type t,
       op_execution_target_id = et_target_id t, op_target_endpoint_id = map_option ep_id (et_endpoint t),
       op_status = ''queued'', op_title = or_str (rq_title rq) (''Tool: '' @ rq_tool_key rq), op_summary = [],
       op_result_summary = [],
       op_meta = [(''tool_key'', PStr (rq_tool_key rq)), (''execution_target_id'', PStr (et_target_id t)),
                  (''target_endpoint_id'', PStr (et_target_id t)),
                  (''arguments'', PDict (pa_public_arguments protected)),
                  (''arguments_encrypted'', PBool (pa_encrypted_arguments protected \<noteq> None
                      \<and> pa_encrypted_arguments protected \<noteq> Some []))]\<rparr>)"

definition dispatch_call :: "dispatch_request \<Rightarrow> operation \<Rightarrow> protected_arguments \<Rightarrow> operation_call" where
  "dispatch_call rq opn protected =
     (let t = rq_target rq in
      \<lparr>oc_id = [], oc_call_id = [], oc_operation_id = op_id opn, oc_capability_id = None,
       oc_endpoint_capability_id = map_option cp_id (et_endpoint_capability t),
       oc_target_endpoint_id = map_option ep_id (et_endpoint t), oc_execution_target_id = et_target_id t,
       oc_status = ''queued'', oc_arguments = pa_public_arguments protected, oc_result = [], oc_error = []\<rparr>)"

definition dispatch_frame :: "dispatch_request \<Rightarrow> workspace \<Rightarrow> operation \<Rightarrow> operation_call \<Rightarrow> protected_arguments \<Rightarrow> pydict" where
  "dispatch_frame rq ws opn call protected =
     (let t = rq_target rq in
      [(''schema'', PStr ''meetyou.endpoint.ws.v4''), (''type'', PStr ''tool.call.request''),
       (''endpoint_id'', PStr (et_target_id t)), (''message_id'', PStr (''dispatch-'' @ oc_call_id call)),
       (''payload'', PDict
          [(''operation_id'', PStr (op_operation_id opn)), (''call_id'', PStr (oc_call_id call)),
           (''workspace_id'', PStr (ws_workspace_id ws)), (''tool_key'', PStr (strip (rq_tool_key rq))),
           (''capability_id'', PStr (case et_endpoint_capability t of Some c \<Rightarrow> cp_capability_id c | None \<Rightarrow> [])),
           (''arguments'', PDict (pa_public_arguments protected)),
           (''encrypted_arguments'', encrypted_value (pa_encrypted_arguments protected)),
           (''timeout_seconds'', PInt (rq_timeout_seconds rq)),
           (''audit_context'', PDict
              [(''requested_by_actor_id'', PStr (opt_text (rq_actor_id rq))),
               (''requested_by_run_id'', PStr (opt_text (rq_run_id rq))),
               (''execution_target_id'', PStr (et_target_id t))])])])"

definition record_endpoint_routing_result ::
  "string \<Rightarrow> (pydict \<Rightarrow> pydict) \<Rightarrow> operation_call option \<Rightarrow> bool \<Rightarrow> endpoint list \<Rightarrow> pyerr + endpoint list" where
  "record_endpoint_routing_result now_iso latency call_row success eps =
     (case call_row of
        None \<Rightarrow> Inr eps
      | Some row \<Rightarrow>
         (case oc_target_endpoint_id row of
            None \<Rightarrow> Inr eps
          | Some i \<Rightarrow> rbind (record_routing_result now_iso i success latency eps) (\<lambda>(_, T). Inr T)))"

text \<open>\<open>mark_failed\<close>, the routing statistics, and then the end of the dispatch with an outcome.\<close>

definition fail_call ::
  "string \<Rightarrow> (pydict \<Rightarrow> pydict) \<Rightarrow> string \<Rightarrow> string \<Rightarrow> outcome \<Rightarrow> dispatch_state \<Rightarrow> outcome \<times> dispatch_state" where
  "fail_call now_iso latency call_id err_code result s =
     (let (row, db) = mark_failed call_id (Some [(''code'', PStr err_code)]) (ds_db s);
          s1 = s\<lparr>ds_db := db\<rparr>
      in case record_endpoint_routing_result now_iso latency row False (ds_endpoints s) of
           Inl e \<Rightarrow> (Crashed e, s1)
         | Inr T \<Rightarrow> (result, s1\<lparr>ds_endpoints := T\<rparr>))"

definition unconfirmed :: "dispatch_request \<Rightarrow> bool" where
  "unconfirmed rq \<longleftrightarrow>
     (case et_endpoint_capability (rq_target rq) of Some c \<Rightarrow> cp_requires_confirmation c | None \<Rightarrow> False)
   \<and> \<not> rq_confirmed rq"

definition new_task :: "dispatch_request \<Rightarrow> operation \<Rightarrow> dispatch_task" where
  "new_task rq opn =
     \<lparr>dt_operation_id = op_operation_id opn, dt_target = rq_target rq,
      dt_phase = (if et_target_type (rq_target rq) = ''external'' then External else Sending),
      dt_timeout_seconds = rq_timeout_seconds rq, dt_return_operation = rq_return_operation rq\<rparr>"

text \<open>\<open>Inl\<close> is the end of the dispatch, \<open>Inr\<close> the frame it hands to a transport.\<close>

definition dispatch_begin ::
  "string \<Rightarrow> (pydict \<Rightarrow> pydict) \<Rightarrow> dispatch_env \<Rightarrow> dispatch_ids \<Rightarrow> dispatch_request \<Rightarrow> dispatch_state
   \<Rightarrow> (outcome + pydict) \<times> dispatch_state" where
  "dispatch_begin now_iso latency env ids rq s =
     (let t = rq_target rq; fail = (\<lambda>e. (Inl (Router_failure e), s)) in
      case get_by_workspace_id (rq_workspace_id rq) (de_workspaces env) of
        None \<Rightarrow> fail (router_err ''workspace_not_found'' (''Workspace not found: '' @ rq_workspace_id rq) [] False)
      | Some ws \<Rightarrow>
      if unconfirmed rq then
        fail (router_err ''tool_confirmation_required'' ''Tool call requires explicit confirmation before dispatch.''
          [(''endpoint_id'', PStr (et_target_id t)), (''tool_key'', PStr (rq_tool_key rq)),
           (''risk_level'', PStr (case et_endpoint_capability t of Some c \<Rightarrow> cp_risk_level c | None \<Rightarrow> []))] False)
      else
      case protect_sensitive_arguments (de_codec env) (de_getenv env) (di_iv ids) (rq_arguments rq)
             ''endpoint.tool.arguments.v4'' [] of
        Inl e \<Rightarrow> fail (router_err (ce_code e) [] [] False)
      | Inr protected \<Rightarrow>
      case create_operation (di_op_row ids) (di_op ids) (dispatch_operation rq ws protected) (ds_db s) of
        Inl e \<Rightarrow> (Inl (Crashed e), s)
      | Inr (opn, db1) \<Rightarrow>
      case create_call (di_call_row ids) (di_call ids) None (dispatch_call rq opn protected) db1 of
        Inl e \<Rightarrow> (Inl (Crashed e), s\<lparr>ds_db := db1\<rparr>)
      | Inr (call, db2) \<Rightarrow>
       (let s2 = s\<lparr>ds_db := db2\<rparr>;
            cid = oc_call_id call;
            frame = dispatch_frame rq ws opn call protected;
            task = new_task rq opn
        in if et_target_type t = ''external'' then
             (if \<not> de_external_transport env then
                apfst Inl (fail_call now_iso latency cid ''external_executor_unavailable''
                   (Router_failure (router_err ''external_executor_unavailable'' ''External executor is unavailable'' [] True)) s2)
              else (Inr frame, s2\<lparr>ds_tasks := dset cid task (ds_tasks s)\<rparr>))
           else if \<not> de_endpoint_transport env then
             apfst Inl (fail_call now_iso latency cid ''endpoint_transport_unavailable''
                (Router_failure (router_err ''endpoint_transport_unavailable'' ''Endpoint transport is unavailable'' [] True)) s2)
           else (Inr frame, s2\<lparr>ds_pending := dset cid Pending (ds_pending s), ds_tasks := dset cid task (ds_tasks s)\<rparr>)))"

definition end_task :: "string \<Rightarrow> dispatch_state \<Rightarrow> dispatch_state" where
  "end_task cid s = s\<lparr>ds_tasks := dpop cid (ds_tasks s)\<rparr>"

definition pop_pending :: "string \<Rightarrow> dispatch_state \<Rightarrow> dispatch_state" where
  "pop_pending cid s = s\<lparr>ds_pending := dpop cid (ds_pending s)\<rparr>"

definition success_outcome :: "dispatch_task \<Rightarrow> string \<Rightarrow> pydict \<Rightarrow> outcome" where
  "success_outcome task cid result =
     (if dt_return_operation task then Operation_result (dt_operation_id task) cid (et_target_id (dt_target task)) result
      else Tool_result result)"

text \<open>The external transport has answered with a result or raised.\<close>

definition dispatch_external ::
  "string \<Rightarrow> (pydict \<Rightarrow> pydict) \<Rightarrow> string \<Rightarrow> dispatch_task \<Rightarrow> pyerr + pydict \<Rightarrow> dispatch_state \<Rightarrow> outcome \<times> dispatch_state" where
  "dispatch_external now_iso latency cid task reply s =
     (case reply of
        Inl e \<Rightarrow> fail_call now_iso latency cid ''external_executor_failed'' (Crashed e) (end_task cid s)
      | Inr result \<Rightarrow>
         (let s1 = end_task cid s;
              (row, db) = mark_succeeded cid (Some result) (ds_db s1);
              s2 = s1\<lparr>ds_db := db\<rparr>
          in case record_endpoint_routing_result now_iso latency row True (ds_endpoints s1) of
               Inl e \<Rightarrow> (Crashed e, s2)
             | Inr T \<Rightarrow> (success_outcome task cid result, s2\<lparr>ds_endpoints := T\<rparr>)))"

text \<open>The endpoint transport has answered: whether the frame was sent, or an exception. The result
  \<open>None\<close> says that the dispatch goes on.\<close>

definition dispatch_sent ::
  "string \<Rightarrow> (pydict \<Rightarrow> pydict) \<Rightarrow> string \<Rightarrow> dispatch_task \<Rightarrow> pyerr + bool \<Rightarrow> dispatch_state \<Rightarrow> outcome option \<times> dispatch_state" where
  "dispatch_sent now_iso latency cid task reply s =
     (case reply of
        Inl e \<Rightarrow> (Some (Crashed e), end_task cid s)
      | Inr False \<Rightarrow>
         (let s1 = pop_pending cid (end_task cid s)
          in apfst Some (if queueing (et_offline_policy (dt_target task))
                then fail_call now_iso latency cid ''waiting_for_endpoint''
                       (Waiting_for_endpoint (dt_operation_id task) cid) s1
                else fail_call now_iso latency cid ''target_endpoint_unavailable''
                       (Router_failure (router_err ''target_endpoint_unavailable''
                          (''Endpoint is unavailable: '' @ et_target_id (dt_target task)) [] True)) s1))
      | Inr True \<Rightarrow>
          (None, s\<lparr>ds_db := snd (mark_dispatched cid (ds_db s)),
                  ds_tasks := dset cid (task\<lparr>dt_phase := Waiting\<rparr>) (ds_tasks s)\<rparr>))"

text \<open>The future is done, or the time is over.\<close>

definition dispatch_wake ::
  "string \<Rightarrow> (pydict \<Rightarrow> pydict) \<Rightarrow> string \<Rightarrow> dispatch_task \<Rightarrow> dispatch_state \<Rightarrow> outcome \<times> dispatch_state" where
  "dispatch_wake now_iso latency cid task s =
     (let s1 = pop_pending cid (end_task cid s) in
      case map_of (ds_pending s) cid of
        Some (Result d) \<Rightarrow> (success_outcome task cid d, s1)
      | Some (Failure e) \<Rightarrow> (Router_failure e, s1)
      | _ \<Rightarrow> fail_call now_iso latency cid ''endpoint_tool_timeout''
               (Router_failure (router_err ''endpoint_tool_timeout''
                  (''Endpoint tool call timed out after '' @ int_str (dt_timeout_seconds task) @ '' seconds'') [] True)) s1)"

section \<open>Routing and dispatch together\<close>

text \<open>The core's tools are the handlers that are registered; the workspaces of the resolution and of
  the dispatch are the same table.\<close>

definition route_tool_call ::
  "(string \<Rightarrow> rat option) \<Rightarrow> instant \<Rightarrow> instant \<Rightarrow> string \<Rightarrow> (pydict \<Rightarrow> pydict) \<Rightarrow> dispatch_env \<Rightarrow> routing_world
   \<Rightarrow> (string \<times> (pydict \<Rightarrow> handler_result)) list \<Rightarrow> dispatch_ids \<Rightarrow> pydict option \<Rightarrow> string \<Rightarrow> string \<Rightarrow> dispatch_request
   \<Rightarrow> resolution_cache \<Rightarrow> dispatch_state \<Rightarrow> (outcome + pydict) \<times> resolution_cache \<times> dispatch_state" where
  "route_tool_call ft now later now_iso latency env w handlers ids execution_target endpoint_id offline_policy rq cache s =
     (let world = w\<lparr>rw_core_tools := map fst handlers, rw_endpoints := ds_endpoints s, rw_workspaces := de_workspaces env\<rparr>
      in case resolve_execution_target ft now later world (rq_tool_key rq) (rq_workspace_id rq) execution_target
                endpoint_id offline_policy (rq_confirmed rq) cache of
           (Inl e, cache1) \<Rightarrow> (Inl (Router_failure e), cache1, s)
         | (Inr t, cache1) \<Rightarrow>
             if et_target_type t = ''core''
             then (Inl (core_execute handlers (rq_tool_key rq) (rq_arguments rq)), cache1, s)
             else (let (r, s1) = dispatch_begin now_iso latency env ids (rq\<lparr>rq_target := t\<rparr>) s in (r, cache1, s1)))"

text \<open>The workspace of a call: the active one of its session, else the one of the session's thread.
  \<open>session\<close> is the row of the session with its thread and its active workspace, and
  \<open>thread_workspace\<close> the workspace of a thread.\<close>

definition session_workspace ::
  "(row_id option \<Rightarrow> row_id option) \<Rightarrow> workspace list \<Rightarrow> row_id option \<times> row_id option \<Rightarrow> string \<Rightarrow> string" where
  "session_workspace thread_workspace T session workspace_id =
     (case session of (thread, active) \<Rightarrow>
        let find_ws = (\<lambda>i. case i of Some r \<Rightarrow> get_workspace_by_id r T | None \<Rightarrow> None);
            ws = (case find_ws active of Some x \<Rightarrow> Some x | None \<Rightarrow> find_ws (thread_workspace thread))
        in or_str (case ws of Some x \<Rightarrow> ws_workspace_id x | None \<Rightarrow> []) workspace_id)"

text \<open>The reading of the keyword arguments: the workspace, the thread, the endpoint named, the time
  allowed and the flags, or the error before anything is routed.\<close>

record call_arguments =
  ca_workspace_id :: string
  ca_thread_row_id :: "row_id option"
  ca_endpoint_id :: string
  ca_tool_key :: string
  ca_arguments :: pydict
  ca_title :: string
  ca_timeout_seconds :: int
  ca_confirmed :: bool
  ca_offline_policy :: string
  ca_return_operation :: bool

definition read_call_arguments ::
  "(string \<Rightarrow> (row_id option \<times> row_id option) option) \<Rightarrow> (row_id option \<Rightarrow> row_id option) \<Rightarrow> workspace list
   \<Rightarrow> row_id option \<Rightarrow> pydict \<Rightarrow> outcome + call_arguments" where
  "read_call_arguments get_session thread_workspace T thread_row_id kwargs =
     (let session_id = clean (dget kwargs ''session_id'');
          session = (if session_id = [] then None else get_session session_id);
          thread = (case session of Some (t, _) \<Rightarrow> t | None \<Rightarrow> thread_row_id);
          given = clean (dget kwargs ''workspace_id'');
          workspace_id = (case session of Some x \<Rightarrow> session_workspace thread_workspace T x given | None \<Rightarrow> given)
      in if workspace_id = [] then
           Inl (Router_failure (router_err ''workspace_required'' ''ToolRouter dispatch requires workspace_id or session_id'' [] False))
         else case py_int (py_or (dget kwargs ''timeout_seconds'') (PInt 120)) of
           Inl e \<Rightarrow> Inl (Crashed e)
         | Inr timeout \<Rightarrow> Inr
            \<lparr>ca_workspace_id = workspace_id, ca_thread_row_id = thread,
             ca_endpoint_id = strip (py_str (py_or (dget kwargs ''endpoint_id'') (py_or (dget kwargs ''target_endpoint_id'')
                (py_or (dget kwargs ''target_id'') (PStr []))))),
             ca_tool_key = clean (dget kwargs ''tool_key''), ca_arguments = as_dict (dget kwargs ''arguments''),
             ca_title = str_or (dget kwargs ''title'') [], ca_timeout_seconds = timeout,
             ca_confirmed = truthy (dget_or kwargs ''confirmed'' (PBool False)),
             ca_offline_policy = str_or (dget kwargs ''offline_policy'') ''fail_fast'',
             ca_return_operation = truthy (dget_or kwargs ''return_operation'' (PBool False))\<rparr>)"

definition dispatch_tool_call ::
  "(string \<Rightarrow> (row_id option \<times> row_id option) option) \<Rightarrow> (row_id option \<Rightarrow> row_id option) \<Rightarrow> (string \<Rightarrow> rat option)
   \<Rightarrow> instant \<Rightarrow> instant \<Rightarrow> string \<Rightarrow> (pydict \<Rightarrow> pydict) \<Rightarrow> dispatch_env \<Rightarrow> routing_world
   \<Rightarrow> (string \<times> (pydict \<Rightarrow> handler_result)) list \<Rightarrow> dispatch_ids \<Rightarrow> row_id option \<Rightarrow> row_id option \<Rightarrow> row_id option \<Rightarrow> pydict
   \<Rightarrow> resolution_cache \<Rightarrow> dispatch_state \<Rightarrow> (outcome + pydict) \<times> resolution_cache \<times> dispatch_state" where
  "dispatch_tool_call get_session thread_workspace ft now later now_iso latency env w handlers ids thread_row_id actor run kwargs cache s =
     (case read_call_arguments get_session thread_workspace (de_workspaces env) thread_row_id kwargs of
        Inl r \<Rightarrow> (Inl r, cache, s)
      | Inr a \<Rightarrow>
          route_tool_call ft now later now_iso latency env w handlers ids None (ca_endpoint_id a) (ca_offline_policy a)
            \<lparr>rq_target = core_target None None, rq_tool_key = ca_tool_key a, rq_arguments = Some (ca_arguments a),
             rq_workspace_id = ca_workspace_id a, rq_thread_row_id = ca_thread_row_id a, rq_actor_id = actor, rq_run_id = run,
             rq_title = ca_title a, rq_timeout_seconds = ca_timeout_seconds a, rq_confirmed = ca_confirmed a,
             rq_return_operation = ca_return_operation a\<rparr> cache s)"

section \<open>Notifications\<close>

definition settle :: "string \<Rightarrow> future \<Rightarrow> dispatch_state \<Rightarrow> dispatch_state" where
  "settle cid f s =
     (if map_of (ds_pending s) cid = Some Pending then s\<lparr>ds_pending := dset cid f (ds_pending s)\<rparr> else s)"

definition notify ::
  "string \<Rightarrow> (pydict \<Rightarrow> pydict) \<Rightarrow> string \<Rightarrow> bool \<Rightarrow> future \<Rightarrow> (operation_db \<Rightarrow> operation_call option \<times> operation_db)
   \<Rightarrow> dispatch_state \<Rightarrow> (pyerr + operation_call option) \<times> dispatch_state" where
  "notify now_iso latency cid success f mark s =
     (let (row, db) = mark (ds_db s); s1 = s\<lparr>ds_db := db\<rparr>
      in case record_endpoint_routing_result now_iso latency row success (ds_endpoints s) of
           Inl e \<Rightarrow> (Inl e, s1)
         | Inr T \<Rightarrow> (Inr row, settle cid f (s1\<lparr>ds_endpoints := T\<rparr>)))"

definition notify_call_result ::
  "string \<Rightarrow> (pydict \<Rightarrow> pydict) \<Rightarrow> string \<Rightarrow> pydict \<Rightarrow> dispatch_state \<Rightarrow> (pyerr + operation_call option) \<times> dispatch_state" where
  "notify_call_result now_iso latency cid result =
     notify now_iso latency cid True (Result result) (mark_succeeded cid (Some result))"

definition error_of :: "pydict \<Rightarrow> string \<Rightarrow> string \<Rightarrow> router_error" where
  "error_of d c m = router_err (str_or (dget d ''code'') c) (str_or (dget d ''message'') m) d
     (truthy (dget_or d ''retryable'' (PBool False)))"

definition notify_call_error ::
  "string \<Rightarrow> (pydict \<Rightarrow> pydict) \<Rightarrow> string \<Rightarrow> pydict \<Rightarrow> dispatch_state \<Rightarrow> (pyerr + operation_call option) \<times> dispatch_state" where
  "notify_call_error now_iso latency cid err =
     notify now_iso latency cid False (Failure (error_of err ''endpoint_tool_failed'' ''Endpoint tool call failed''))
       (mark_failed cid (Some err))"

definition notify_call_cancelled ::
  "string \<Rightarrow> (pydict \<Rightarrow> pydict) \<Rightarrow> string \<Rightarrow> pydict option \<Rightarrow> dispatch_state \<Rightarrow> (pyerr + operation_call option) \<times> dispatch_state" where
  "notify_call_cancelled now_iso latency cid err =
     (let payload = setdefault ''retryable'' (PBool False) (setdefault ''message'' (PStr ''Endpoint tool call cancelled'')
                      (setdefault ''code'' (PStr ''endpoint_tool_cancelled'') (dict_or err)))
      in notify now_iso latency cid False (Failure (error_of payload ''endpoint_tool_cancelled'' ''Endpoint tool call cancelled''))
           (mark_cancelled cid (Some payload)))"


section \<open>The machine\<close>

inductive dispatch_step :: "dispatch_state \<Rightarrow> dispatch_state \<Rightarrow> bool" where
  opened: "dispatch_step s (snd (dispatch_begin now_iso latency env ids rq s))"
| sent: "map_of (ds_tasks s) cid = Some task \<Longrightarrow> dt_phase task = Sending \<Longrightarrow>
    dispatch_step s (snd (dispatch_sent now_iso latency cid task reply s))"
| external: "map_of (ds_tasks s) cid = Some task \<Longrightarrow> dt_phase task = External \<Longrightarrow>
    dispatch_step s (snd (dispatch_external now_iso latency cid task ext_reply s))"
| wake: "map_of (ds_tasks s) cid = Some task \<Longrightarrow> dt_phase task = Waiting \<Longrightarrow>
    dispatch_step s (snd (dispatch_wake now_iso latency cid task s))"
| result: "dispatch_step s (snd (notify_call_result now_iso latency cid d s))"
| error: "dispatch_step s (snd (notify_call_error now_iso latency cid d s))"
| cancelled: "dispatch_step s (snd (notify_call_cancelled now_iso latency cid opt s))"
| accepted: "dispatch_step s (s\<lparr>ds_db := snd (mark_accepted cid (ds_db s))\<rparr>)"
| progress: "dispatch_step s (s\<lparr>ds_db := snd (mark_progress cid detail opt (ds_db s))\<rparr>)"

inductive dispatch_reachable :: "dispatch_state \<Rightarrow> bool" where
  start: "dispatch_reachable \<lparr>ds_db = \<lparr>od_operations = [], od_calls = []\<rparr>, ds_endpoints = eps, ds_pending = [], ds_tasks = []\<rparr>"
| step: "dispatch_reachable s \<Longrightarrow> dispatch_step s s' \<Longrightarrow> dispatch_reachable s'"

lemma fail_call_frame:
  "ds_pending (snd (fail_call n l cid ec r s)) = ds_pending s"
  "ds_tasks (snd (fail_call n l cid ec r s)) = ds_tasks s"
  "ds_db (snd (fail_call n l cid ec r s)) = snd (mark_failed cid (Some [(''code'', PStr ec)]) (ds_db s))"
  by (simp_all add: fail_call_def Let_def split: prod.splits sum.splits)

lemma end_pop_simps [simp]:
  "ds_db (end_task cid s) = ds_db s" "ds_pending (end_task cid s) = ds_pending s"
  "ds_tasks (end_task cid s) = dpop cid (ds_tasks s)" "ds_endpoints (end_task cid s) = ds_endpoints s"
  "ds_db (pop_pending cid s) = ds_db s" "ds_pending (pop_pending cid s) = dpop cid (ds_pending s)"
  "ds_tasks (pop_pending cid s) = ds_tasks s" "ds_endpoints (pop_pending cid s) = ds_endpoints s"
  by (simp_all add: end_task_def pop_pending_def)

lemma notify_frame:
  "ds_tasks (snd (notify n l cid b f mark s)) = ds_tasks s"
  "ds_db (snd (notify n l cid b f mark s)) = snd (mark (ds_db s))"
  "ds_pending (snd (notify n l cid b f mark s)) = ds_pending s
   \<or> map_of (ds_pending s) cid = Some Pending \<and> ds_pending (snd (notify n l cid b f mark s)) = dset cid f (ds_pending s)"
  by (auto simp: notify_def settle_def Let_def split: prod.splits sum.splits)

lemma external_frame:
  "ds_tasks (snd (dispatch_external n l cid task reply s)) = dpop cid (ds_tasks s)"
  "ds_pending (snd (dispatch_external n l cid task reply s)) = ds_pending s"
  by (auto simp: dispatch_external_def Let_def fail_call_frame split: prod.splits sum.splits)

lemma wake_frame:
  "ds_tasks (snd (dispatch_wake n l cid task s)) = dpop cid (ds_tasks s)"
  "ds_pending (snd (dispatch_wake n l cid task s)) = dpop cid (ds_pending s)"
  by (auto simp: dispatch_wake_def Let_def fail_call_frame split: option.splits future.splits)

lemma sent_cases:
  obtains (ended) "ds_tasks (snd (dispatch_sent n l cid task reply s)) = dpop cid (ds_tasks s)"
      "ds_pending (snd (dispatch_sent n l cid task reply s)) = ds_pending s
       \<or> ds_pending (snd (dispatch_sent n l cid task reply s)) = dpop cid (ds_pending s)"
  | (sent) "ds_tasks (snd (dispatch_sent n l cid task reply s)) = dset cid (task\<lparr>dt_phase := Waiting\<rparr>) (ds_tasks s)"
      "ds_pending (snd (dispatch_sent n l cid task reply s)) = ds_pending s" "reply = Inr True"
proof (cases reply)
  case (Inl e)
  then show ?thesis using ended by (simp add: dispatch_sent_def)
next
  case (Inr b)
  then show ?thesis
    using ended sent by (cases b) (auto simp: dispatch_sent_def Let_def fail_call_frame split: prod.splits if_splits)
qed

text \<open>What \<open>dispatch_begin\<close> does to the state: nothing, an operation alone, or an operation with a
  call, which then fails at once or becomes a task.\<close>

lemma begin_cases:
  obtains (refused) "snd (dispatch_begin n l env ids rq s) = s"
  | (operation) ws protected opn db1 where
      "create_operation (di_op_row ids) (di_op ids) (dispatch_operation rq ws protected) (ds_db s) = Inr (opn, db1)"
      "snd (dispatch_begin n l env ids rq s) = s\<lparr>ds_db := db1\<rparr>"
  | (failed) ws protected opn db1 call db2 ec r where
      "create_operation (di_op_row ids) (di_op ids) (dispatch_operation rq ws protected) (ds_db s) = Inr (opn, db1)"
      "create_call (di_call_row ids) (di_call ids) None (dispatch_call rq opn protected) db1 = Inr (call, db2)"
      "snd (dispatch_begin n l env ids rq s) = snd (fail_call n l (oc_call_id call) ec r (s\<lparr>ds_db := db2\<rparr>))"
  | (started) ws protected opn db1 call db2 task P where
      "create_operation (di_op_row ids) (di_op ids) (dispatch_operation rq ws protected) (ds_db s) = Inr (opn, db1)"
      "create_call (di_call_row ids) (di_call ids) None (dispatch_call rq opn protected) db1 = Inr (call, db2)"
      "snd (dispatch_begin n l env ids rq s) =
         s\<lparr>ds_db := db2, ds_pending := P, ds_tasks := dset (oc_call_id call) task (ds_tasks s)\<rparr>"
      "(dt_phase task = External \<and> P = ds_pending s) \<or> (dt_phase task = Sending \<and> P = dset (oc_call_id call) Pending (ds_pending s))"
proof -
  let ?needs = "unconfirmed rq"
  let ?p = "protect_sensitive_arguments (de_codec env) (de_getenv env) (di_iv ids) (rq_arguments rq) ''endpoint.tool.arguments.v4'' []"
  consider "get_by_workspace_id (rq_workspace_id rq) (de_workspaces env) = None"
    | ws where "get_by_workspace_id (rq_workspace_id rq) (de_workspaces env) = Some ws" "?needs"
    | ws e where "get_by_workspace_id (rq_workspace_id rq) (de_workspaces env) = Some ws" "\<not> ?needs" "?p = Inl e"
    | ws protected where "get_by_workspace_id (rq_workspace_id rq) (de_workspaces env) = Some ws" "?p = Inr protected" "\<not> ?needs"
    by (cases "get_by_workspace_id (rq_workspace_id rq) (de_workspaces env)"; cases ?needs; cases ?p) blast+
  then show thesis
  proof cases
    case (4 ws protected)
    note c = 4
    show thesis
    proof (cases "create_operation (di_op_row ids) (di_op ids) (dispatch_operation rq ws protected) (ds_db s)")
      case (Inl e)
      then show thesis using c by (intro refused) (simp add: dispatch_begin_def Let_def)
    next
      case (Inr x)
      obtain opn db1 where x: "x = (opn, db1)" by (cases x)
      show thesis
      proof (cases "create_call (di_call_row ids) (di_call ids) None (dispatch_call rq opn protected) db1")
        case (Inl e)
        then show thesis using c Inr x by (intro operation [of ws protected opn db1]) (simp_all add: dispatch_begin_def Let_def)
      next
        case call: (Inr y)
        obtain cl db2 where y: "y = (cl, db2)" by (cases y)
        note b = c Inr x call y
        let ?ext = "et_target_type (rq_target rq) = ''external''"
        show thesis
        proof (cases "if ?ext then de_external_transport env else de_endpoint_transport env")
          case False
          then show thesis using b
            by (cases ?ext) (intro failed [of ws protected opn db1 cl db2]; simp add: dispatch_begin_def Let_def)+
        next
          case True
          show thesis
          proof (cases ?ext)
            case True
            then show thesis using b \<open>if ?ext then _ else _\<close>
              by (intro started [of ws protected opn db1 cl db2 "new_task rq opn" "ds_pending s"])
                (simp_all add: dispatch_begin_def Let_def new_task_def)
          next
            case False
            then show thesis using b \<open>if ?ext then _ else _\<close>
              by (intro started [of ws protected opn db1 cl db2 "new_task rq opn" "dset (oc_call_id cl) Pending (ds_pending s)"])
                (simp_all add: dispatch_begin_def Let_def new_task_def)
          qed
        qed
      qed
    qed
  qed (rule refused, simp add: dispatch_begin_def Let_def)+
qed


section \<open>Every step works on the calls\<close>

lemma open_call_dispatch:
  assumes "create_operation (di_op_row ids) (di_op ids) (dispatch_operation rq ws protected) db = Inr (opn, db1)"
    and "create_call (di_call_row ids) (di_call ids) None (dispatch_call rq opn protected) db1 = Inr (call, db2)"
  shows "open_call (di_op_row ids) (di_op ids) (dispatch_operation rq ws protected) (di_call_row ids) (di_call ids)
     (dispatch_call rq opn protected) db = Inr ((opn, call), db2)"
proof -
  have "(dispatch_operation rq ws protected)\<lparr>op_status := ''queued''\<rparr> = dispatch_operation rq ws protected"
    "(dispatch_call rq opn protected)\<lparr>oc_operation_id := op_id opn, oc_status := ''queued''\<rparr> = dispatch_call rq opn protected"
    by (simp_all add: dispatch_operation_def dispatch_call_def Let_def)
  then show ?thesis using assms by (simp add: open_call_def rbind_def)
qed

definition db_step :: "operation_db \<Rightarrow> operation_db \<Rightarrow> bool" where
  "db_step db db' \<longleftrightarrow> db' = db \<or> (\<exists>cid. call_mark cid db db')"

lemma db_stepI: "call_mark cid db db' \<Longrightarrow> db_step db db'"
  by (auto simp: db_step_def)

lemma notify_db:
  "db_step (ds_db s) (ds_db (snd (notify_call_result n l cid d s)))"
  "db_step (ds_db s) (ds_db (snd (notify_call_error n l cid d s)))"
  "db_step (ds_db s) (ds_db (snd (notify_call_cancelled n l cid x s)))"
  by (simp_all add: notify_call_result_def notify_call_error_def notify_call_cancelled_def Let_def notify_frame
      db_stepI [OF call_mark.succeeded] db_stepI [OF call_mark.failed] db_stepI [OF call_mark.cancelled])

lemma task_db:
  "db_step (ds_db s) (ds_db (snd (dispatch_sent n l cid task reply s)))"
  "db_step (ds_db s) (ds_db (snd (dispatch_external n l cid task xreply s)))"
  "db_step (ds_db s) (ds_db (snd (dispatch_wake n l cid task s)))"
proof -
  show "db_step (ds_db s) (ds_db (snd (dispatch_sent n l cid task reply s)))"
    by (auto simp: dispatch_sent_def Let_def fail_call_frame db_stepI [OF call_mark.failed] db_stepI [OF call_mark.dispatched]
        split: sum.splits bool.splits) (simp add: db_step_def)
  show "db_step (ds_db s) (ds_db (snd (dispatch_external n l cid task xreply s)))"
  proof (cases xreply)
    case (Inr d)
    obtain row db where m: "mark_succeeded cid (Some d) (ds_db s) = (row, db)" by fastforce
    then have "call_mark cid (ds_db s) db" using call_mark.succeeded [of cid "ds_db s" "Some d"] by simp
    then show ?thesis
      by (auto simp: dispatch_external_def Let_def Inr m split: sum.splits intro: db_stepI)
  qed (simp add: dispatch_external_def fail_call_frame db_stepI [OF call_mark.failed])
  show "db_step (ds_db s) (ds_db (snd (dispatch_wake n l cid task s)))"
    by (auto simp: dispatch_wake_def Let_def fail_call_frame db_stepI [OF call_mark.failed]
        split: option.splits future.splits) (simp_all add: db_step_def)
qed

lemma calls_reachable_db_step: "calls_reachable db \<Longrightarrow> db_step db db' \<Longrightarrow> calls_reachable db'"
  by (auto simp: db_step_def intro: calls_reachable.marked)

lemma begin_calls_reachable:
  assumes r: "calls_reachable (ds_db s)"
  shows "calls_reachable (ds_db (snd (dispatch_begin n l env ids rq s)))"
proof (cases rule: begin_cases [of n l env ids rq s])
  case (failed ws protected opn db1 call db2 ec x)
  have "calls_reachable db2" by (rule calls_reachable.opened [OF r open_call_dispatch [OF failed(1,2)]])
  then show ?thesis using calls_reachable.marked [OF _ call_mark.failed] by (simp add: failed(3) fail_call_frame)
next
  case (started ws protected opn db1 call db2 task P)
  show ?thesis using calls_reachable.opened [OF r open_call_dispatch [OF started(1,2)]] by (simp add: started(3))
next
  case (operation ws protected opn db1)
  show ?thesis using calls_reachable.operation [OF r operation(1)] by (simp add: operation(2))
qed (simp add: r)

lemma dispatch_step_calls: "dispatch_step s s' \<Longrightarrow> calls_reachable (ds_db s) \<Longrightarrow> calls_reachable (ds_db s')"
proof (induction rule: dispatch_step.induct)
  case (accepted s cid)
  then show ?case using calls_reachable.marked [OF _ call_mark.accepted] by simp
next
  case (progress s cid detail opt)
  then show ?case using calls_reachable.marked [OF _ call_mark.progress] by simp
qed (auto intro: calls_reachable_db_step notify_db task_db begin_calls_reachable)

lemma dispatch_calls_ok: "dispatch_reachable s \<Longrightarrow> calls_ok (ds_db s)"
proof -
  assume "dispatch_reachable s"
  then have "calls_reachable (ds_db s)"
    by (induction rule: dispatch_reachable.induct) (auto intro: calls_reachable.start dispatch_step_calls)
  then show ?thesis by (rule calls_ok_reachable)
qed

text \<open>(C2)
  The status of an operation follows the status of its call. Whatever dispatches run at the same
  time and however their transports, timeouts, results, errors, cancellations and progress
  frames interleave, the operation of every call exists and has the status that belongs to the
  status of the call.\<close>

theorem operation_follows_call:
  assumes "dispatch_reachable s" and "get_by_call_id cid (od_calls (ds_db s)) = Some c"
  shows "map_option op_status (get_operation_by_id (oc_operation_id c) (od_operations (ds_db s)))
    = Some (operation_status_of (oc_status c))"
proof -
  have "c \<in> set (od_calls (ds_db s))" using tbl_get_Some [OF assms(2) [unfolded get_by_call_id_def]] by simp
  then have "in_step (ds_db s) c" using dispatch_calls_ok [OF assms(1)] by (simp add: calls_ok_def list_all_iff)
  then show ?thesis by (simp add: in_step_iff)
qed


definition example_ids :: "string \<Rightarrow> dispatch_ids" where
  "example_ids n = \<lparr>di_op_row = ''op-row-'' @ n, di_op = n, di_call_row = ''call-row-'' @ n, di_call = n, di_iv = ''iv''\<rparr>"

definition example_env :: dispatch_env where
  "example_env = \<lparr>de_codec = example_codec, de_getenv = (\<lambda>_. Some ''k''), de_workspaces = [example_workspace],
     de_endpoint_transport = True, de_external_transport = False\<rparr>"

definition example_target :: execution_target where
  "example_target =
     \<lparr>et_target_id = ''desk'', et_target_type = ''endpoint'', et_endpoint = Some (router_endpoint ''desk'' [''lab'']),
      et_endpoint_capability = Some (router_capability ''desk'' ''file.read''), et_offline_policy = ''fail_fast'',
      et_routing_decision = None\<rparr>"

definition example_request :: dispatch_request where
  "example_request =
     \<lparr>rq_target = example_target, rq_tool_key = ''file.read'',
      rq_arguments = Some [(''path'', PStr ''a.txt''), (''token'', PStr ''x'')],
      rq_workspace_id = ''lab'', rq_thread_row_id = None, rq_actor_id = None, rq_run_id = None, rq_title = [],
      rq_timeout_seconds = 120, rq_confirmed = False, rq_return_operation = False\<rparr>"

definition initial_state :: dispatch_state where
  "initial_state = \<lparr>ds_db = \<lparr>od_operations = [], od_calls = []\<rparr>, ds_endpoints = [router_endpoint ''desk'' [''lab'']],
     ds_pending = [], ds_tasks = []\<rparr>"

definition state_sending :: dispatch_state where
  "state_sending = snd (dispatch_begin ''t0'' id example_env (example_ids ''1'') example_request initial_state)"

definition sending_task :: dispatch_task where
  "sending_task = \<lparr>dt_operation_id = ''op_1'', dt_target = example_target, dt_phase = Sending,
     dt_timeout_seconds = 120, dt_return_operation = False\<rparr>"

definition state_waiting :: dispatch_state where
  "state_waiting = snd (dispatch_sent ''t1'' id ''call_1'' sending_task (Inr True) state_sending)"

lemma state_sending_facts:
  "map_of (ds_tasks state_sending) ''call_1'' = Some sending_task"
  "map_of (ds_pending state_sending) ''call_1'' = Some Pending"
  "dispatch_reachable state_sending"
proof -
  show "map_of (ds_tasks state_sending) ''call_1'' = Some sending_task" by code_simp
  show "map_of (ds_pending state_sending) ''call_1'' = Some Pending" by code_simp
  show "dispatch_reachable state_sending"
    unfolding state_sending_def
    by (rule dispatch_reachable.step [OF _ dispatch_step.opened]) (simp add: initial_state_def dispatch_reachable.start)
qed

lemma state_waiting_facts:
  "map_of (ds_tasks state_waiting) ''call_1'' = Some (sending_task\<lparr>dt_phase := Waiting\<rparr>)"
  "map_of (ds_pending state_waiting) ''call_1'' = Some Pending"
  "dispatch_reachable state_waiting"
proof -
  show "map_of (ds_tasks state_waiting) ''call_1'' = Some (sending_task\<lparr>dt_phase := Waiting\<rparr>)"
    "map_of (ds_pending state_waiting) ''call_1'' = Some Pending"
    using state_sending_facts(2) by (simp_all add: state_waiting_def dispatch_sent_def)
  show "dispatch_reachable state_waiting"
    unfolding state_waiting_def
    by (rule dispatch_reachable.step [OF state_sending_facts(3) dispatch_step.sent [OF state_sending_facts(1)]])
      (simp add: sending_task_def)
qed

theorem operation_follows_call_witness:
  "map_option oc_status (get_by_call_id ''call_1'' (od_calls (ds_db state_waiting))) = Some ''dispatched''
   \<and> map_option op_status (get_operation_by_id ''op-row-1'' (od_operations (ds_db state_waiting))) = Some ''dispatching''"
proof -
  have e: "map_option (\<lambda>c. (oc_operation_id c, oc_status c)) (get_by_call_id ''call_1'' (od_calls (ds_db state_waiting)))
      = Some (''op-row-1'', ''dispatched'')"
    by code_simp
  then obtain c where c: "get_by_call_id ''call_1'' (od_calls (ds_db state_waiting)) = Some c"
    "oc_operation_id c = ''op-row-1''" "oc_status c = ''dispatched''" by auto
  show ?thesis
    using operation_follows_call [OF state_waiting_facts(3) c(1)] by (simp add: c operation_status_of_def)
qed

section \<open>Futures\<close>

definition futures_ok :: "dispatch_state \<Rightarrow> bool" where
  "futures_ok s \<longleftrightarrow>
     (\<forall>cid. map_of (ds_pending s) cid \<noteq> None \<or> map_of (ds_tasks s) cid \<noteq> None
        \<longrightarrow> get_by_call_id cid (od_calls (ds_db s)) \<noteq> None)
   \<and> (\<forall>cid task. map_of (ds_tasks s) cid = Some task \<longrightarrow> dt_phase task \<noteq> External \<longrightarrow> map_of (ds_pending s) cid \<noteq> None)"

text \<open>The calls only grow, and a new call has a new identifier.\<close>

lemma db_step_ids: "db_step db db' \<Longrightarrow> map oc_call_id (od_calls db') = map oc_call_id (od_calls db)"
  by (auto simp: db_step_def call_mark_ids)

lemma begin_effect:
  assumes "calls_ok (ds_db s)"
  obtains (none) "ds_pending (snd (dispatch_begin n l env ids rq s)) = ds_pending s"
      "ds_tasks (snd (dispatch_begin n l env ids rq s)) = ds_tasks s"
      "set (map oc_call_id (od_calls (ds_db s))) \<subseteq> set (map oc_call_id (od_calls (ds_db (snd (dispatch_begin n l env ids rq s)))))"
  | (new) cid task where "cid \<notin> set (map oc_call_id (od_calls (ds_db s)))"
      "map oc_call_id (od_calls (ds_db (snd (dispatch_begin n l env ids rq s)))) = map oc_call_id (od_calls (ds_db s)) @ [cid]"
      "ds_tasks (snd (dispatch_begin n l env ids rq s)) = dset cid task (ds_tasks s)"
      "ds_pending (snd (dispatch_begin n l env ids rq s)) =
         (if dt_phase task = External then ds_pending s else dset cid Pending (ds_pending s))"
proof (cases rule: begin_cases [of n l env ids rq s])
  case refused
  then show ?thesis by (intro none) simp_all
next
  case (operation ws protected opn db1)
  then have "od_calls db1 = od_calls (ds_db s)" by (auto simp: create_operation_def rbind_def split: sum.splits)
  with operation show ?thesis by (intro none) simp_all
next
  case (failed ws protected opn db1 call db2 ec r)
  have "od_calls db2 = od_calls (ds_db s) @ [call]"
    using open_call_Inr(2) [OF assms open_call_dispatch [OF failed(1,2)]] .
  moreover have "map oc_call_id (od_calls (snd (mark_failed cid x db2))) = map oc_call_id (od_calls db2)" for cid x
    using call_mark_ids [OF call_mark.failed] .
  ultimately have "set (map oc_call_id (od_calls (ds_db s))) \<subseteq> set (map oc_call_id (od_calls (snd (mark_failed cid x db2))))" for cid x
    by (metis map_append set_append Un_upper1)
  then show ?thesis by (intro none) (simp_all add: failed(3) fail_call_frame)
next
  case (started ws protected opn db1 call db2 task P)
  note o = open_call_Inr [OF assms open_call_dispatch [OF started(1,2)]]
  have "oc_call_id call \<notin> set (map oc_call_id (od_calls (ds_db s)))"
    using oc_calls.unique_keys [OF o(9)] by (auto simp: o(2))
  then show ?thesis
    by (rule new [of "oc_call_id call" task]) (use started(3,4) o(2) in auto)
qed


text \<open>What a step can do to the tasks and futures of the calls that exist before it.\<close>

lemma step_effect:
  assumes st: "dispatch_step s s'" and ok: "calls_ok (ds_db s)"
  obtains (keep) "ds_tasks s' = ds_tasks s" "ds_pending s' = ds_pending s"
      "set (map oc_call_id (od_calls (ds_db s))) \<subseteq> set (map oc_call_id (od_calls (ds_db s')))"
  | (new) cid task where "cid \<notin> set (map oc_call_id (od_calls (ds_db s)))"
      "map oc_call_id (od_calls (ds_db s')) = map oc_call_id (od_calls (ds_db s)) @ [cid]"
      "ds_tasks s' = dset cid task (ds_tasks s)"
      "ds_pending s' = (if dt_phase task = External then ds_pending s else dset cid Pending (ds_pending s))"
  | (ended) cid where "ds_tasks s' = dpop cid (ds_tasks s)" "ds_pending s' = ds_pending s \<or> ds_pending s' = dpop cid (ds_pending s)"
      "map oc_call_id (od_calls (ds_db s')) = map oc_call_id (od_calls (ds_db s))"
  | (waits) cid task where "map_of (ds_tasks s) cid = Some task" "dt_phase task = Sending"
      "ds_tasks s' = dset cid (task\<lparr>dt_phase := Waiting\<rparr>) (ds_tasks s)" "ds_pending s' = ds_pending s"
      "map oc_call_id (od_calls (ds_db s')) = map oc_call_id (od_calls (ds_db s))"
  | (settled) cid f where "ds_tasks s' = ds_tasks s" "map_of (ds_pending s) cid = Some Pending" "ds_pending s' = dset cid f (ds_pending s)"
      "map oc_call_id (od_calls (ds_db s')) = map oc_call_id (od_calls (ds_db s))"
  using st
proof cases
  case (opened n l env ids rq)
  then show ?thesis
    using begin_effect [OF ok, of n l env ids rq] keep new by metis
next
  case (sent cid task n l reply)
  show ?thesis
  proof (cases rule: sent_cases [of n l cid task reply s])
    case ended
    then show ?thesis using that(3) sent(1) db_step_ids [OF task_db(1)] by metis
  next
    case sent': sent
    then show ?thesis using waits [of cid task] sent db_step_ids [OF task_db(1)] by metis
  qed
next
  case (external cid task n l reply)
  then show ?thesis using ended [of cid] external_frame [of n l cid task reply s] db_step_ids [OF task_db(2)] by metis
next
  case (wake cid task n l)
  then show ?thesis using ended [of cid] wake_frame [of n l cid task s] db_step_ids [OF task_db(3)] by metis
next
  case (result n l cid d)
  have i: "map oc_call_id (od_calls (ds_db s')) = map oc_call_id (od_calls (ds_db s))"
    using db_step_ids [OF notify_db(1)] result by metis
  show ?thesis
    using notify_frame(1,3) [of n l cid True "Result d" "mark_succeeded cid (Some d)" s] result i
      keep settled [of cid "Result d"] by (auto simp: notify_call_result_def)
next
  case (error n l cid d)
  have i: "map oc_call_id (od_calls (ds_db s')) = map oc_call_id (od_calls (ds_db s))"
    using db_step_ids [OF notify_db(2)] error by metis
  obtain f where s': "s' = snd (notify n l cid False f (mark_failed cid (Some d)) s)"
    using error by (simp add: notify_call_error_def)
  show ?thesis
    using notify_frame(1,3) [of n l cid False f "mark_failed cid (Some d)" s] s' i keep settled [of cid f] by auto
next
  case (cancelled n l cid opt)
  have i: "map oc_call_id (od_calls (ds_db s')) = map oc_call_id (od_calls (ds_db s))"
    using db_step_ids [OF notify_db(3)] cancelled by metis
  obtain f x where s': "s' = snd (notify n l cid False f (mark_cancelled cid x) s)"
    using cancelled by (simp add: notify_call_cancelled_def Let_def)
  show ?thesis
    using notify_frame(1,3) [of n l cid False f "mark_cancelled cid x" s] s' i keep settled [of cid f] by auto
next
  case (accepted cid)
  then show ?thesis using keep call_mark_ids [OF call_mark.accepted [where cid = cid and db = "ds_db s"]] by (simp del: set_map)
next
  case (progress cid detail opt)
  then show ?thesis using keep call_mark_ids [OF call_mark.progress [where cid = cid and db = "ds_db s" and detail = detail and metadata = opt]]
    by (simp del: set_map)
qed


lemma futures_ok_step:
  assumes st: "dispatch_step s s'" and ok: "calls_ok (ds_db s)" and f: "futures_ok s"
  shows "futures_ok s'"
  using st ok
proof (cases rule: step_effect)
  case keep
  then show ?thesis using f unfolding futures_ok_def get_by_call_id_None by auto
next
  case (new cid task)
  then show ?thesis using f unfolding futures_ok_def get_by_call_id_None by auto
next
  case (ended cid)
  then show ?thesis using f unfolding futures_ok_def get_by_call_id_None by (auto split: if_splits)
next
  case (waits cid task)
  then show ?thesis using f unfolding futures_ok_def get_by_call_id_None by (auto split: if_splits)
next
  case (settled cid fut)
  then show ?thesis using f unfolding futures_ok_def get_by_call_id_None by (auto split: if_splits)
qed

lemma dispatch_futures_ok: "dispatch_reachable s \<Longrightarrow> futures_ok s"
proof (induction rule: dispatch_reachable.induct)
  case (start eps)
  show ?case by (simp add: futures_ok_def)
next
  case (step s s')
  then show ?case using futures_ok_step dispatch_calls_ok by blast
qed

text \<open>No dispatch waits in vain: in every reachable state a dispatch that has handed its frame to the
  endpoint transport has its future registered under the identifier of its call, and the call
  is in the table, so the frame that answers the call finds both.\<close>

theorem waiting_dispatch_has_future:
  assumes "dispatch_reachable s" and "map_of (ds_tasks s) cid = Some task" and "dt_phase task \<noteq> External"
  shows "map_of (ds_pending s) cid \<noteq> None \<and> get_by_call_id cid (od_calls (ds_db s)) \<noteq> None"
  using dispatch_futures_ok [OF assms(1)] assms(2,3) by (auto simp: futures_ok_def)

theorem waiting_dispatch_has_future_witness:
  "map_of (ds_pending state_waiting) ''call_1'' \<noteq> None \<and> get_by_call_id ''call_1'' (od_calls (ds_db state_waiting)) \<noteq> None"
  by (rule waiting_dispatch_has_future [OF state_waiting_facts(3,1)]) simp

section \<open>The first answer wins\<close>

text \<open>A future that is done stays as it is until its dispatch ends.\<close>

definition settled_as :: "string \<Rightarrow> future \<Rightarrow> dispatch_state \<Rightarrow> bool" where
  "settled_as cid f s \<longleftrightarrow> cid \<in> set (map oc_call_id (od_calls (ds_db s)))
     \<and> (map_of (ds_tasks s) cid = None \<or> map_of (ds_pending s) cid = Some f)"

lemma settled_as_step:
  assumes st: "dispatch_step s s'" and ok: "calls_ok (ds_db s)" and f: "settled_as cid f s" "f \<noteq> Pending"
  shows "settled_as cid f s'"
  using st ok
proof (cases rule: step_effect)
  case (ended cid')
  then show ?thesis using f unfolding settled_as_def by (auto split: if_splits)
next
  case (waits cid' task)
  then show ?thesis using f unfolding settled_as_def by (auto split: if_splits)
next
  case (settled cid' fut)
  then show ?thesis using f unfolding settled_as_def by (auto split: if_splits)
next
  case (new cid' task)
  then show ?thesis using f unfolding settled_as_def by (auto split: if_splits)
next
  case keep
  then show ?thesis using f unfolding settled_as_def by auto
qed

lemma settled_as_steps:
  assumes "dispatch_step\<^sup>*\<^sup>* s s'" "dispatch_reachable s" "settled_as cid f s" "f \<noteq> Pending"
  shows "settled_as cid f s'"
proof -
  have "dispatch_reachable s' \<and> settled_as cid f s'"
    using assms by (induction rule: rtranclp_induct)
      (auto intro: dispatch_reachable.step settled_as_step dispatch_calls_ok)
  then show ?thesis ..
qed

text \<open>(C3)
  The caller gets the first answer: once a result for a call whose future is open has been
  accepted, then, whatever other dispatches do and whatever errors, cancellations or second
  results arrive for the same call before the waiting dispatch runs again, it ends with
  exactly that result.\<close>

theorem first_answer_wins:
  assumes "dispatch_reachable s" and "map_of (ds_tasks s) cid = Some task0"
    and "map_of (ds_pending s) cid = Some Pending"
    and "notify_call_result now_iso latency cid r s = (Inr row, s1)"
    and "dispatch_step\<^sup>*\<^sup>* s1 s2" and "map_of (ds_tasks s2) cid = Some task"
  shows "fst (dispatch_wake now_iso2 latency2 cid task s2) = success_outcome task cid r"
proof -
  have r1: "dispatch_reachable s1"
    using dispatch_reachable.step [OF assms(1) dispatch_step.result [of s now_iso latency cid r]] assms(4) by simp
  have ids: "map oc_call_id (od_calls (ds_db s1)) = map oc_call_id (od_calls (ds_db s))"
    using db_step_ids [OF notify_db(1)] assms(4) by (metis snd_conv)
  have "get_by_call_id cid (od_calls (ds_db s)) \<noteq> None"
    using dispatch_futures_ok [OF assms(1)] assms(3) by (auto simp: futures_ok_def)
  then have c: "cid \<in> set (map oc_call_id (od_calls (ds_db s1)))" by (simp only: ids get_by_call_id_None not_not)
  have "map_of (ds_pending s1) cid = Some (Result r)"
    using assms(3,4) by (auto simp: notify_call_result_def notify_def settle_def Let_def split: prod.splits sum.splits)
  then have "settled_as cid (Result r) s1" using c by (simp add: settled_as_def)
  then have "settled_as cid (Result r) s2" using settled_as_steps [OF assms(5) r1] by blast
  then show ?thesis using assms(6) by (simp add: settled_as_def dispatch_wake_def Let_def)
qed


definition answered_state :: dispatch_state where
  "answered_state = snd (notify_call_result ''t2'' id ''call_1'' [(''text'', PStr ''hello'')] state_waiting)"

definition crossed_state :: dispatch_state where
  "crossed_state = snd (notify_call_error ''t3'' id ''call_1'' [(''code'', PStr ''late'')] answered_state)"

theorem first_answer_wins_witness:
  "fst (dispatch_wake ''t4'' id ''call_1'' (sending_task\<lparr>dt_phase := Waiting\<rparr>) crossed_state)
     = Tool_result [(''text'', PStr ''hello'')]"
proof -
  let ?n = "notify_call_result ''t2'' id ''call_1'' [(''text'', PStr ''hello'')] state_waiting"
  have "\<not> isl (fst ?n)" by code_simp
  then have n: "?n = (Inr (projr (fst ?n)), answered_state)"
    unfolding answered_state_def using Inr_projr [of "fst ?n"] by (metis prod.collapse)
  have s: "dispatch_step\<^sup>*\<^sup>* answered_state crossed_state"
    unfolding crossed_state_def by (rule r_into_rtranclp, rule dispatch_step.error)
  have t: "map_of (ds_tasks crossed_state) ''call_1'' = Some (sending_task\<lparr>dt_phase := Waiting\<rparr>)"
    using state_waiting_facts(1)
    by (simp add: crossed_state_def answered_state_def notify_call_error_def notify_call_result_def notify_frame)
  show ?thesis
    using first_answer_wins [OF state_waiting_facts(3,1,2) n s t, of "''t4''" id]
    by (simp add: success_outcome_def sending_task_def)
qed

section \<open>Answers that cross the bookkeeping\<close>

lemma notify_result_operation:
  assumes "get_by_call_id cid (od_calls (ds_db s)) = Some c" and "notify_call_result n l cid r s = (Inr row, s1)"
    and "get_operation_by_id (oc_operation_id c) (od_operations (ds_db s)) = Some opn"
  shows "\<exists>opn1. get_operation_by_id (oc_operation_id c) (od_operations (ds_db s1)) = Some opn1 \<and> op_status opn1 = ''succeeded''"
    and "\<And>c1. get_by_call_id cid (od_calls (ds_db s1)) = Some c1 \<Longrightarrow> oc_operation_id c1 = oc_operation_id c"
proof -
  have db: "ds_db s1 = snd (mark_succeeded cid (Some r) (ds_db s))"
    using assms(2) notify_frame(2) by (metis notify_call_result_def snd_conv)
  show "\<exists>opn1. get_operation_by_id (oc_operation_id c) (od_operations (ds_db s1)) = Some opn1 \<and> op_status opn1 = ''succeeded''"
    using assms(1,3) unfolding db
    by (simp add: mark_succeeded_def Let_def mark_call_known)
      (simp add: get_operation_by_id_def operation_row.get_upd_same operation_status_row_def Let_def)
  show "\<And>c1. get_by_call_id cid (od_calls (ds_db s1)) = Some c1 \<Longrightarrow> oc_operation_id c1 = oc_operation_id c"
    using assms(1) unfolding db
    by (simp add: mark_succeeded_def Let_def mark_call_known)
      (auto simp: get_by_call_id_def call_row.get_upd_same call_status_row_def)
qed

lemma notify_result_call:
  assumes "get_by_call_id cid (od_calls (ds_db s)) = Some c" and "notify_call_result n l cid r s = (Inr row, s1)"
  shows "\<exists>c1. get_by_call_id cid (od_calls (ds_db s1)) = Some c1 \<and> oc_status c1 = ''succeeded'' \<and> oc_result c1 = r
    \<and> oc_error c1 = oc_error c"
proof -
  have "ds_db s1 = snd (mark_succeeded cid (Some r) (ds_db s))"
    using assms(2) notify_frame(2) by (metis notify_call_result_def snd_conv)
  then show ?thesis
    using assms(1) by (simp add: mark_succeeded_def Let_def mark_call_known)
      (simp add: get_by_call_id_def call_row.get_upd_same call_status_row_def dict_or_def)
qed

text \<open>(C37)
  A fast endpoint leaves its call open for ever: \<open>_dispatch_target\<close> marks the call dispatched after
  the transport has returned, without looking at its status. If the result arrives while the
  frame is still being sent, the call and its operation have succeeded; they go back to
  dispatched and dispatching, and stay so when the waiting dispatch takes the result and returns
  it to the caller.\<close>

theorem early_result_overwritten:
  assumes call: "get_by_call_id cid (od_calls (ds_db s)) = Some c"
    and opn: "get_operation_by_id (oc_operation_id c) (od_operations (ds_db s)) = Some opn"
    and pending: "map_of (ds_pending s) cid = Some Pending"
    and result: "notify_call_result n l cid r s = (Inr row, s1)"
    and sent: "dispatch_sent n' l' cid task (Inr True) s1 = (None, s2)"
  shows "let call_st = \<lambda>s. map_option oc_status (get_by_call_id cid (od_calls (ds_db s)));
             op_st = \<lambda>s. map_option op_status (get_operation_by_id (oc_operation_id c) (od_operations (ds_db s)));
             s3 = snd (dispatch_wake n'' l'' cid task s2)
         in call_st s1 = Some ''succeeded'' \<and> op_st s1 = Some ''succeeded''
          \<and> call_st s3 = Some ''dispatched'' \<and> op_st s3 = Some ''dispatching''
          \<and> fst (dispatch_wake n'' l'' cid task s2) = success_outcome task cid r"
proof -
  obtain c1 where c1: "get_by_call_id cid (od_calls (ds_db s1)) = Some c1" "oc_status c1 = ''succeeded''"
    using notify_result_call [OF call result] by blast
  obtain opn1 where o1: "get_operation_by_id (oc_operation_id c) (od_operations (ds_db s1)) = Some opn1" "op_status opn1 = ''succeeded''"
    using notify_result_operation(1) [OF call result opn] by blast
  have oid: "oc_operation_id c1 = oc_operation_id c" by (rule notify_result_operation(2) [OF call result opn c1(1)])
  have p: "map_of (ds_pending s1) cid = Some (Result r)"
    using pending result by (auto simp: notify_call_result_def notify_def settle_def Let_def split: prod.splits sum.splits)
  have s2: "s2 = s1\<lparr>ds_db := snd (mark_dispatched cid (ds_db s1)), ds_tasks := dset cid (task\<lparr>dt_phase := Waiting\<rparr>) (ds_tasks s1)\<rparr>"
    using sent by (simp add: dispatch_sent_def)
  have "map_option oc_status (get_by_call_id cid (od_calls (ds_db s2))) = Some ''dispatched''"
    using c1(1) by (simp add: s2 mark_dispatched_def mark_call_known) (simp add: get_by_call_id_def call_row.get_upd_same)
  moreover have "map_option op_status (get_operation_by_id (oc_operation_id c) (od_operations (ds_db s2))) = Some ''dispatching''"
    using c1(1) o1(1) by (simp add: s2 mark_dispatched_def mark_call_known oid)
      (simp add: get_operation_by_id_def operation_row.get_upd_same operation_status_row_def Let_def)
  ultimately show ?thesis using c1 o1 p by (simp add: s2 dispatch_wake_def Let_def)
qed

theorem early_result_overwritten_witness:
  "let s1 = snd (notify_call_result ''t1'' id ''call_1'' [(''text'', PStr ''hello'')] state_sending);
       s2 = snd (dispatch_sent ''t2'' id ''call_1'' sending_task (Inr True) s1);
       s3 = snd (dispatch_wake ''t3'' id ''call_1'' sending_task s2)
   in map_option oc_status (get_by_call_id ''call_1'' (od_calls (ds_db s3))) = Some ''dispatched''
    \<and> map_option op_status (get_operation_by_id ''op-row-1'' (od_operations (ds_db s3))) = Some ''dispatching''
    \<and> fst (dispatch_wake ''t3'' id ''call_1'' sending_task s2) = Tool_result [(''text'', PStr ''hello'')]"
proof -
  let ?n = "notify_call_result ''t1'' id ''call_1'' [(''text'', PStr ''hello'')] state_sending"
  have "\<not> isl (fst ?n)" by code_simp
  then have n: "?n = (Inr (projr (fst ?n)), snd ?n)" using Inr_projr [of "fst ?n"] by (metis prod.collapse)
  have e: "map_option oc_operation_id (get_by_call_id ''call_1'' (od_calls (ds_db state_sending))) = Some ''op-row-1''"
    "get_operation_by_id ''op-row-1'' (od_operations (ds_db state_sending)) \<noteq> None" by code_simp+
  then obtain c opn where c: "get_by_call_id ''call_1'' (od_calls (ds_db state_sending)) = Some c" "oc_operation_id c = ''op-row-1''"
    and o: "get_operation_by_id (oc_operation_id c) (od_operations (ds_db state_sending)) = Some opn" by auto
  have d: "dispatch_sent ''t2'' id ''call_1'' sending_task (Inr True) (snd ?n)
      = (None, snd (dispatch_sent ''t2'' id ''call_1'' sending_task (Inr True) (snd ?n)))"
    by (simp add: dispatch_sent_def)
  show ?thesis
    using early_result_overwritten [OF c(1) o state_sending_facts(2) n d, of "''t3''" id]
    by (simp add: Let_def success_outcome_def sending_task_def c(2))
qed

text \<open>A failed dispatch turns into a success behind the caller's back: when the time of a dispatch is
  over its call is marked failed and the caller gets the timeout error, but a result that
  arrives later is accepted and marks the call succeeded, the error of the timeout staying in
  the row beside the result.\<close>

theorem late_result_after_timeout:
  assumes call: "get_by_call_id cid (od_calls (ds_db s)) = Some c"
    and pending: "map_of (ds_pending s) cid = Some Pending"
    and timeout: "dispatch_wake n l cid task s = (Router_failure e, s1)"
    and result: "notify_call_result n' l' cid r s1 = (Inr row, s2)"
  shows "re_code e = ''endpoint_tool_timeout''
    \<and> map_option oc_status (get_by_call_id cid (od_calls (ds_db s1))) = Some ''failed''
    \<and> map_option (\<lambda>c. (oc_status c, oc_result c, oc_error c)) (get_by_call_id cid (od_calls (ds_db s2)))
        = Some (''succeeded'', r, [(''code'', PStr ''endpoint_tool_timeout'')])"
proof -
  have e: "re_code e = ''endpoint_tool_timeout''"
    using pending timeout
    by (auto simp: dispatch_wake_def Let_def fail_call_def router_err_def split: prod.splits sum.splits)
  have "ds_db s1 = snd (mark_failed cid (Some [(''code'', PStr ''endpoint_tool_timeout'')]) (ds_db s))"
    using pending arg_cong [OF timeout, of "\<lambda>x. ds_db (snd x)"] by (simp add: dispatch_wake_def Let_def fail_call_frame)
  then obtain c1 where c1: "get_by_call_id cid (od_calls (ds_db s1)) = Some c1" "oc_status c1 = ''failed''"
    "oc_error c1 = [(''code'', PStr ''endpoint_tool_timeout'')]"
    using call by (simp add: mark_failed_def Let_def mark_call_known)
      (simp add: get_by_call_id_def call_row.get_upd_same call_status_row_def dict_or_def)
  then show ?thesis using e notify_result_call [OF c1(1) result] by auto
qed


theorem late_result_after_timeout_witness:
  "let s1 = snd (dispatch_wake ''t2'' id ''call_1'' sending_task state_waiting);
       s2 = snd (notify_call_result ''t3'' id ''call_1'' [(''text'', PStr ''hello'')] s1)
   in map_option oc_status (get_by_call_id ''call_1'' (od_calls (ds_db s1))) = Some ''failed''
    \<and> map_option oc_status (get_by_call_id ''call_1'' (od_calls (ds_db s2))) = Some ''succeeded''"
proof -
  let ?w = "dispatch_wake ''t2'' id ''call_1'' sending_task state_waiting"
  let ?n = "notify_call_result ''t3'' id ''call_1'' [(''text'', PStr ''hello'')] (snd ?w)"
  have "case fst ?w of Router_failure e \<Rightarrow> True | _ \<Rightarrow> False" by code_simp
  then obtain e where "fst ?w = Router_failure e" by (cases "fst ?w") simp_all
  then have w: "?w = (Router_failure e, snd ?w)" by (metis prod.collapse)
  have "\<not> isl (fst ?n)" by code_simp
  then have n: "?n = (Inr (projr (fst ?n)), snd ?n)" using Inr_projr [of "fst ?n"] by (metis prod.collapse)
  have "get_by_call_id ''call_1'' (od_calls (ds_db state_waiting)) \<noteq> None"
    using dispatch_futures_ok [OF state_waiting_facts(3)] state_waiting_facts(2) by (auto simp: futures_ok_def)
  then obtain c where c: "get_by_call_id ''call_1'' (od_calls (ds_db state_waiting)) = Some c" by blast
  show ?thesis
    using late_result_after_timeout [OF c state_waiting_facts(2) w n] by (auto simp: Let_def)
qed

text \<open>A transport that raises leaves its dispatch behind: the exception of the endpoint transport is
  not caught, so the caller gets it, but the future stays registered and the call and its
  operation stay queued. Of the three ways a transport can answer it is the only one that leaves
  a future without a dispatch.\<close>

theorem transport_answers:
  assumes "map_of (ds_pending s) cid = Some Pending"
  shows "case dispatch_sent n l cid task reply s of (r, s') \<Rightarrow>
    (case reply of
       Inl e \<Rightarrow> r = Some (Crashed e) \<and> ds_db s' = ds_db s \<and> map_of (ds_tasks s') cid = None
         \<and> map_of (ds_pending s') cid = Some Pending
     | Inr False \<Rightarrow> r \<noteq> None \<and> map_of (ds_tasks s') cid = None \<and> map_of (ds_pending s') cid = None
     | Inr True \<Rightarrow> r = None \<and> map_of (ds_tasks s') cid = Some (task\<lparr>dt_phase := Waiting\<rparr>)
         \<and> map_of (ds_pending s') cid = Some Pending)"
proof (cases reply)
  case (Inl e)
  then show ?thesis using assms by (simp add: dispatch_sent_def)
next
  case (Inr b)
  then show ?thesis using assms
    by (cases b) (auto simp: dispatch_sent_def Let_def split_beta fail_call_frame)
qed

theorem transport_answers_witness:
  "case dispatch_sent ''t1'' id ''call_1'' sending_task (Inl (RuntimeError ''closed'')) state_sending of (r, s') \<Rightarrow>
     r = Some (Crashed (RuntimeError ''closed'')) \<and> map_of (ds_tasks s') ''call_1'' = None
     \<and> map_of (ds_pending s') ''call_1'' = Some Pending"
  using transport_answers [OF state_sending_facts(2),
      where n = "''t1''" and l = id and task = sending_task and reply = "Inl (RuntimeError ''closed'')"]
  by (simp add: split_beta)

section \<open>No secret leaves in clear\<close>

lemma protect_encrypted:
  assumes "protect_sensitive_arguments C getenv iv a purpose x = Inr p"
  shows "all_redacted_pairs (pa_public_arguments p) \<and> all_redacted (encrypted_value (pa_encrypted_arguments p))"
proof -
  have k: "\<not> sensitive_key ''version''" "\<not> sensitive_key ''alg''" "\<not> sensitive_key ''purpose''" "\<not> sensitive_key ''iv''"
    "\<not> sensitive_key ''ciphertext''" "\<not> sensitive_key ''tag''"
    by code_simp+
  have "all_redacted_pairs (pa_public_arguments p)" using protect_public [OF assms] by (simp add: all_redacted_redact)
  moreover have "pa_encrypted_arguments p = None \<or> (\<exists>i c t. pa_encrypted_arguments p = Some (envelope C purpose i c t))"
    using assms by (auto simp: protect_sensitive_arguments_def encrypt_json_payload_def rbind_def Let_def
        split: if_splits sum.splits option.splits) blast
  ultimately show ?thesis using k by (auto simp: encrypted_value_def envelope_def)
qed

text \<open>(C11)
  A dispatch never shows a secret: whenever a dispatch hands a frame to a transport, every
  sensitive field anywhere in that frame is redacted, and so are the arguments in the rows of
  the new operation and the new call. The values travel in the encrypted envelope only.\<close>

theorem dispatch_hides_secrets:
  assumes "calls_ok (ds_db s)" and "dispatch_begin n l env ids rq s = (Inr frame, s')"
  shows "all_redacted_pairs frame
    \<and> (\<exists>opn call. od_operations (ds_db s') = od_operations (ds_db s) @ [opn] \<and> od_calls (ds_db s') = od_calls (ds_db s) @ [call]
        \<and> all_redacted_pairs (op_meta opn) \<and> all_redacted_pairs (oc_arguments call))"
proof -
  have k: "\<not> sensitive_key ''schema''" "\<not> sensitive_key ''type''" "\<not> sensitive_key ''endpoint_id''" "\<not> sensitive_key ''message_id''"
    "\<not> sensitive_key ''payload''" "\<not> sensitive_key ''operation_id''" "\<not> sensitive_key ''call_id''" "\<not> sensitive_key ''workspace_id''"
    "\<not> sensitive_key ''tool_key''" "\<not> sensitive_key ''capability_id''" "\<not> sensitive_key ''arguments''"
    "\<not> sensitive_key ''encrypted_arguments''" "\<not> sensitive_key ''timeout_seconds''" "\<not> sensitive_key ''audit_context''"
    "\<not> sensitive_key ''requested_by_actor_id''" "\<not> sensitive_key ''requested_by_run_id''" "\<not> sensitive_key ''execution_target_id''"
    "\<not> sensitive_key ''target_endpoint_id''" "\<not> sensitive_key ''arguments_encrypted''"
    by code_simp+
  obtain ws p opn db1 call db2 where
    p: "protect_sensitive_arguments (de_codec env) (de_getenv env) (di_iv ids) (rq_arguments rq) ''endpoint.tool.arguments.v4'' [] = Inr p"
    and o: "create_operation (di_op_row ids) (di_op ids) (dispatch_operation rq ws p) (ds_db s) = Inr (opn, db1)"
    and c: "create_call (di_call_row ids) (di_call ids) None (dispatch_call rq opn p) db1 = Inr (call, db2)"
    and f: "frame = dispatch_frame rq ws opn call p" "ds_db s' = db2"
    using assms(2)
    by (auto simp: dispatch_begin_def Let_def apfst_def map_prod_def split: option.splits if_splits sum.splits prod.splits)
  note r = protect_encrypted [OF p]
  note x = open_call_Inr(1,2) [OF assms(1) open_call_dispatch [OF o c]]
  have "op_meta opn = op_meta (dispatch_operation rq ws p)"
    using o by (auto simp: create_operation_def operation_create_def insert_row_def rbind_def split: if_splits)
  then have m: "all_redacted_pairs (op_meta opn)" using r k by (simp add: dispatch_operation_def Let_def)
  have "oc_arguments call = pa_public_arguments p"
    using c by (auto simp: create_call_def call_create_def insert_row_def rbind_def dispatch_call_def Let_def split: if_splits)
  then show ?thesis using r k m x by (simp add: f dispatch_frame_def Let_def)
qed

theorem dispatch_hides_secrets_witness:
  "case fst (dispatch_begin ''t0'' id example_env (example_ids ''1'') example_request initial_state) of
     Inr frame \<Rightarrow> all_redacted_pairs frame | Inl _ \<Rightarrow> False"
proof -
  let ?b = "dispatch_begin ''t0'' id example_env (example_ids ''1'') example_request initial_state"
  have ok: "calls_ok (ds_db initial_state)" by (simp add: calls_ok_def initial_state_def)
  have "\<not> isl (fst ?b)" by code_simp
  then have "?b = (Inr (projr (fst ?b)), snd ?b)" using Inr_projr [of "fst ?b"] by (metis prod.collapse)
  from dispatch_hides_secrets [OF ok this] show ?thesis using \<open>\<not> isl (fst ?b)\<close> by (cases "fst ?b") auto
qed


section \<open>Guards on the way to an endpoint\<close>

lemma begin_frame_confirmed: "dispatch_begin n l env ids rq s = (Inr frame, s') \<Longrightarrow> \<not> unconfirmed rq"
  by (auto simp: dispatch_begin_def Let_def split: option.splits if_splits)

lemma begin_frame_workspace:
  "dispatch_begin n l env ids rq s = (Inr frame, s') \<Longrightarrow> \<exists>ws. get_by_workspace_id (rq_workspace_id rq) (de_workspaces env) = Some ws"
  by (auto simp: dispatch_begin_def Let_def split: option.splits)

text \<open>What reaches an endpoint has passed the guards: when \<open>route_tool_call\<close> hands a frame to a
  transport, the target it resolved has no capability that requires a confirmation unless the
  call is confirmed, and the workspace of the call exists. If the target was not taken from the
  cache, that workspace allows the tool.\<close>

theorem routed_frame_passed_guards:
  assumes "route_tool_call ft now later n l env w handlers ids target eid pol rq cache s = (Inr frame, cache', s')"
  shows "\<exists>t ws. fst (resolve_execution_target ft now later
        (w\<lparr>rw_core_tools := map fst handlers, rw_endpoints := ds_endpoints s, rw_workspaces := de_workspaces env\<rparr>)
        (rq_tool_key rq) (rq_workspace_id rq) target eid pol (rq_confirmed rq) cache) = Inr t
    \<and> et_target_type t \<noteq> ''core''
    \<and> (case et_endpoint_capability t of Some c \<Rightarrow> (if cp_requires_confirmation c then rq_confirmed rq else True) | None \<Rightarrow> True)
    \<and> get_by_workspace_id (rq_workspace_id rq) (de_workspaces env) = Some ws
    \<and> (if rq_workspace_id rq \<noteq> [] \<and> cache = [] then tool_allowed ws (strip (rq_tool_key rq)) else True)"
proof -
  let ?w = "w\<lparr>rw_core_tools := map fst handlers, rw_endpoints := ds_endpoints s, rw_workspaces := de_workspaces env\<rparr>"
  let ?r = "resolve_execution_target ft now later ?w (rq_tool_key rq) (rq_workspace_id rq) target eid pol (rq_confirmed rq) cache"
  obtain t where t: "fst ?r = Inr t" "et_target_type t \<noteq> ''core''"
    "dispatch_begin n l env ids (rq\<lparr>rq_target := t\<rparr>) s = (Inr frame, s')"
    using assms by (auto simp: route_tool_call_def Let_def split: prod.splits sum.splits if_splits)
  have c: "\<not> unconfirmed (rq\<lparr>rq_target := t\<rparr>)" using begin_frame_confirmed [OF t(3)] .
  obtain ws where ws: "get_by_workspace_id (rq_workspace_id rq) (de_workspaces env) = Some ws"
    using begin_frame_workspace [OF t(3)] by auto
  have "tool_allowed ws (strip (rq_tool_key rq))" if "rq_workspace_id rq \<noteq> []" "cache = []"
  proof -
    have "resolve_execution_target_uncached ft ?w (rq_tool_key rq) (rq_workspace_id rq) target eid pol (rq_confirmed rq) = Inr t"
      using t(1) that(2) by (auto simp: resolve_execution_target_def get_cached_resolution_def Let_def split: sum.splits)
    then show ?thesis using that(1) ws
      by (auto simp: resolve_execution_target_uncached_def Let_def split: if_splits)
  qed
  then show ?thesis using t c ws by (auto simp: unconfirmed_def split: option.splits)
qed

theorem routed_frame_passed_guards_witness:
  "\<not> isl (fst (route_tool_call no_float_text 0 0 ''t0'' id example_env example_world [] (example_ids ''1'') None [] ''fail_fast''
      example_request [] initial_state))
   \<and> tool_allowed example_workspace ''file.read''"
proof -
  let ?r = "route_tool_call no_float_text 0 0 ''t0'' id example_env example_world [] (example_ids ''1'') None [] ''fail_fast''
      example_request [] initial_state"
  have e: "\<not> isl (fst ?r)" by code_simp
  then have "?r = (Inr (projr (fst ?r)), fst (snd ?r), snd (snd ?r))" using Inr_projr [of "fst ?r"] by (metis prod.collapse)
  from routed_frame_passed_guards [OF this]
  obtain ws where ws: "get_by_workspace_id (rq_workspace_id example_request) (de_workspaces example_env) = Some ws"
    "tool_allowed ws (strip (rq_tool_key example_request))"
    by (auto simp: example_request_def)
  have "get_by_workspace_id (rq_workspace_id example_request) (de_workspaces example_env) = Some example_workspace"
    "strip (rq_tool_key example_request) = ''file.read''"
    by code_simp+
  then show ?thesis using e ws by simp
qed

end
