(* ===== verification/Background_Jobs.thy ===== *)
theory Background_Jobs
  imports Py_Base
begin

text \<open>
  Records of background jobs: \<^verbatim>\<open>core/background_jobs.py\<close>. Whatever a job wrote to its status
  file, \<open>normalize_job_record\<close> turns into a record of a fixed shape whose fields have their types
  and whose statuses are among the known ones.

  The record, its failure and its delivery are Isabelle records, and \<open>job_record_to_dict\<close> is the
  dictionary the code builds. \<open>now\<close> is the text of \<open>utcnow_iso()\<close>. \<open>dt_to_iso\<close> and \<open>iso_to_dt\<close>
  convert between datetimes and texts; the datetime parser of the standard library is a
  parameter there.
\<close>

section \<open>Values\<close>

definition job_status_values :: "string list" where
  "job_status_values = [''idle'', ''queued'', ''running'', ''succeeded'', ''failed'', ''retry_waiting'',
     ''awaiting_delivery'', ''completed'', ''stalled'', ''not_applicable'']"

definition job_failure_category_values :: "string list" where
  "job_failure_category_values = [''retryable'', ''non_retryable'', ''manual_intervention'', ''delivery'']"

definition job_delivery_state_values :: "string list" where
  "job_delivery_state_values = [''not_applicable'', ''pending'', ''delivered'', ''pending_redelivery'', ''suppressed'', ''failed'']"

definition normalize_text :: "pyval \<Rightarrow> string" where
  "normalize_text v = join '' '' (split_ws (strip (str_or v [])))"

text \<open>\<open>parse\<close> is \<open>datetime.fromisoformat\<close>: the local time and its offset from UTC in microseconds,
  the offset missing for a naive time.\<close>

definition iso_to_dt :: "(string \<Rightarrow> (int \<times> int option) option) \<Rightarrow> pyval \<Rightarrow> instant option" where
  "iso_to_dt parse v =
     (let txt = normalize_text v;
          txt1 = (if endswith txt ''Z'' then butlast txt @ ''+00:00'' else txt)
      in if txt = [] then None
         else case parse txt1 of
           None \<Rightarrow> None
         | Some (local, None) \<Rightarrow> Some local
         | Some (local, Some offset) \<Rightarrow> Some (local - offset))"

section \<open>Failures\<close>

record job_failure =
  jf_category :: string
  jf_retryable :: bool
  jf_code :: string
  jf_message :: string
  jf_at :: string
  jf_details :: pydict

definition failure_payload ::
  "string \<Rightarrow> pyval \<Rightarrow> pyval \<Rightarrow> pyval \<Rightarrow> pyval \<Rightarrow> pyval \<Rightarrow> pyval \<Rightarrow> job_failure" where
  "failure_payload now category retryable err_code message when details =
     (let c0 = or_str (lower (normalize_text category)) ''retryable'';
          c = (if c0 \<notin> set job_failure_category_values then ''retryable'' else c0)
      in \<lparr>jf_category = c,
          jf_retryable = (if retryable = PNone then c \<in> {''retryable'', ''delivery''} else truthy retryable),
          jf_code = or_str (normalize_text err_code) ''job_failure'', jf_message = normalize_text message,
          jf_at = or_str (normalize_text when) now, jf_details = as_dict details\<rparr>)"

definition normalize_failure :: "string \<Rightarrow> pyval \<Rightarrow> job_failure option" where
  "normalize_failure now payload =
     (case payload of
        PDict d \<Rightarrow>
          if normalize_text (dget d ''message'') = [] \<and> normalize_text (dget d ''code'') = []
             \<and> normalize_text (dget d ''category'') = [] then None
          else Some (failure_payload now (dget d ''category'') (dget d ''retryable'')
                 (py_or (dget d ''code'') (PStr ''job_failure'')) (dget d ''message'') (dget d ''at'') (dget d ''details''))
      | _ \<Rightarrow> None)"

definition failure_to_dict :: "job_failure \<Rightarrow> pydict" where
  "failure_to_dict f =
     [(''category'', PStr (jf_category f)), (''retryable'', PBool (jf_retryable f)), (''code'', PStr (jf_code f)),
      (''message'', PStr (jf_message f)), (''at'', PStr (jf_at f)), (''details'', PDict (jf_details f))]"

section \<open>Deliveries\<close>

record job_delivery =
  jd_state :: string
  jd_delivered :: bool
  jd_channel :: string
  jd_message :: string
  jd_event_id :: "string option"
  jd_source_event_id :: "string option"
  jd_at :: string
  jd_details :: pydict

definition text_or_none :: "string \<Rightarrow> string option" where
  "text_or_none s = (if s = [] then None else Some s)"

definition delivery_payload ::
  "string \<Rightarrow> pyval \<Rightarrow> pyval \<Rightarrow> pyval \<Rightarrow> pyval \<Rightarrow> pyval \<Rightarrow> pyval \<Rightarrow> pyval \<Rightarrow> pyval \<Rightarrow> job_delivery" where
  "delivery_payload now state delivered channel message event_id source_event_id when details =
     (let s0 = or_str (lower (normalize_text state)) ''not_applicable'';
          s = (if s0 \<notin> set job_delivery_state_values then ''not_applicable'' else s0)
      in \<lparr>jd_state = s, jd_delivered = (if delivered = PNone then s = ''delivered'' else truthy delivered),
          jd_channel = normalize_text channel, jd_message = normalize_text message,
          jd_event_id = text_or_none (normalize_text event_id),
          jd_source_event_id = text_or_none (normalize_text source_event_id),
          jd_at = or_str (normalize_text when) now, jd_details = as_dict details\<rparr>)"

definition default_delivery :: "string \<Rightarrow> job_delivery" where
  "default_delivery now =
     delivery_payload now (PStr ''not_applicable'') PNone (PStr []) (PStr []) (PStr []) (PStr []) PNone PNone"

definition normalize_delivery :: "string \<Rightarrow> pyval \<Rightarrow> job_delivery" where
  "normalize_delivery now payload =
     (case payload of
        PDict d \<Rightarrow> delivery_payload now (dget d ''state'') (dget d ''delivered'') (dget d ''channel'') (dget d ''message'')
           (dget d ''event_id'') (dget d ''source_event_id'') (dget d ''at'') (dget d ''details'')
      | _ \<Rightarrow> default_delivery now)"

definition opt_str :: "string option \<Rightarrow> pyval" where
  "opt_str x = (case x of Some s \<Rightarrow> PStr s | None \<Rightarrow> PNone)"

definition delivery_to_dict :: "job_delivery \<Rightarrow> pydict" where
  "delivery_to_dict d =
     [(''state'', PStr (jd_state d)), (''delivered'', PBool (jd_delivered d)), (''channel'', PStr (jd_channel d)),
      (''message'', PStr (jd_message d)), (''event_id'', opt_str (jd_event_id d)),
      (''source_event_id'', opt_str (jd_source_event_id d)), (''at'', PStr (jd_at d)), (''details'', PDict (jd_details d))]"

section \<open>Job records\<close>

record job_record =
  jb_name :: string
  jb_kind :: string
  jb_status :: string
  jb_attempt_count :: int
  jb_retry_count :: int
  jb_max_retries :: int
  jb_next_retry_at :: "string option"
  jb_last_started_at :: "string option"
  jb_last_finished_at :: "string option"
  jb_last_success_at :: "string option"
  jb_last_runtime_source :: string
  jb_status_source :: string
  jb_last_result :: pydict
  jb_last_failure :: "job_failure option"
  jb_last_delivery :: job_delivery
  jb_metadata :: pydict

definition default_job_record :: "string \<Rightarrow> string \<Rightarrow> string \<Rightarrow> int \<Rightarrow> string \<Rightarrow> job_record" where
  "default_job_record now kind name max_retries status_source =
     \<lparr>jb_name = normalize_text (PStr name), jb_kind = normalize_text (PStr kind), jb_status = ''idle'',
      jb_attempt_count = 0, jb_retry_count = 0, jb_max_retries = max max_retries 0, jb_next_retry_at = None,
      jb_last_started_at = None, jb_last_finished_at = None, jb_last_success_at = None,
      jb_last_runtime_source = normalize_text (PStr status_source), jb_status_source = normalize_text (PStr status_source),
      jb_last_result = [], jb_last_failure = None, jb_last_delivery = default_delivery now, jb_metadata = []\<rparr>"

text \<open>The idiom \<open>max(int(d.get(k, default) or 0), 0)\<close>.\<close>

definition count_field :: "pydict \<Rightarrow> string \<Rightarrow> int \<Rightarrow> pyerr + int" where
  "count_field d k dflt = rbind (py_int (py_or (dget_or d k (PInt dflt)) (PInt 0))) (\<lambda>n. Inr (max n 0))"

definition text_field :: "pydict \<Rightarrow> string \<Rightarrow> string option" where
  "text_field d k = text_or_none (normalize_text (dget d k))"

definition normalize_job_record ::
  "string \<Rightarrow> pyval \<Rightarrow> string \<Rightarrow> string \<Rightarrow> int \<Rightarrow> string \<Rightarrow> pyerr + job_record" where
  "normalize_job_record now payload kind name max_retries status_source =
     (let base = default_job_record now kind name max_retries status_source in
      case payload of
        PDict m \<Rightarrow>
          (let st0 = or_str (lower (normalize_text (dget m ''status''))) (jb_status base);
               st = (if st0 \<notin> set job_status_values then jb_status base else st0)
           in rbind (count_field m ''attempt_count'' 0) (\<lambda>attempts.
              rbind (count_field m ''retry_count'' 0) (\<lambda>retries.
              rbind (count_field m ''max_retries'' (jb_max_retries base)) (\<lambda>maxr.
                Inr \<lparr>jb_name = or_str (normalize_text (dget m ''name'')) (jb_name base),
                     jb_kind = or_str (normalize_text (dget m ''kind'')) (jb_kind base), jb_status = st,
                     jb_attempt_count = attempts, jb_retry_count = retries, jb_max_retries = maxr,
                     jb_next_retry_at = text_field m ''next_retry_at'', jb_last_started_at = text_field m ''last_started_at'',
                     jb_last_finished_at = text_field m ''last_finished_at'', jb_last_success_at = text_field m ''last_success_at'',
                     jb_last_runtime_source = or_str (normalize_text (dget m ''last_runtime_source'')) (jb_last_runtime_source base),
                     jb_status_source = or_str (normalize_text (dget m ''status_source'')) (jb_status_source base),
                     jb_last_result = as_dict (dget m ''last_result''),
                     jb_last_failure = normalize_failure now (dget m ''last_failure''),
                     jb_last_delivery = normalize_delivery now (dget m ''last_delivery''),
                     jb_metadata = as_dict (dget m ''metadata'')\<rparr>))))
      | _ \<Rightarrow> Inr base)"

definition job_record_to_dict :: "job_record \<Rightarrow> pydict" where
  "job_record_to_dict r =
     [(''name'', PStr (jb_name r)), (''kind'', PStr (jb_kind r)), (''status'', PStr (jb_status r)),
      (''attempt_count'', PInt (jb_attempt_count r)), (''retry_count'', PInt (jb_retry_count r)),
      (''max_retries'', PInt (jb_max_retries r)), (''next_retry_at'', opt_str (jb_next_retry_at r)),
      (''last_started_at'', opt_str (jb_last_started_at r)), (''last_finished_at'', opt_str (jb_last_finished_at r)),
      (''last_success_at'', opt_str (jb_last_success_at r)), (''last_runtime_source'', PStr (jb_last_runtime_source r)),
      (''status_source'', PStr (jb_status_source r)), (''last_result'', PDict (jb_last_result r)),
      (''last_failure'', (case jb_last_failure r of Some f \<Rightarrow> PDict (failure_to_dict f) | None \<Rightarrow> PNone)),
      (''last_delivery'', PDict (delivery_to_dict (jb_last_delivery r))), (''metadata'', PDict (jb_metadata r))]"

section \<open>Normal text\<close>

definition raw_words :: "string \<Rightarrow> string list" where
  "raw_words s = foldr (\<lambda>c ws. if is_space c then [] # ws
     else case ws of w # ws' \<Rightarrow> (c # w) # ws' | [] \<Rightarrow> [[c]]) s [[]]"

lemma split_ws_raw: "split_ws s = filter (\<lambda>w. w \<noteq> []) (raw_words s)"
  by (simp add: split_ws_def raw_words_def)

lemma raw_words_simps [simp]:
  "raw_words [] = [[]]"
  "raw_words (c # s) = (if is_space c then [] # raw_words s
     else case raw_words s of w # ws \<Rightarrow> (c # w) # ws | [] \<Rightarrow> [[c]])"
  by (simp_all add: raw_words_def)

definition word :: "string \<Rightarrow> bool" where
  "word w \<longleftrightarrow> w \<noteq> [] \<and> list_all (\<lambda>c. \<not> is_space c) w"

lemma raw_words_no_space: "w \<in> set (raw_words s) \<Longrightarrow> list_all (\<lambda>c. \<not> is_space c) w"
  by (induction s arbitrary: w) (auto split: if_splits list.splits)

lemma split_ws_words: "list_all word (split_ws s)"
  using raw_words_no_space by (auto simp: split_ws_raw word_def list_all_iff)

lemma raw_words_word: "list_all (\<lambda>c. \<not> is_space c) w \<Longrightarrow> raw_words (w @ CHR '' '' # s) = w # raw_words s"
  by (induction w) (auto simp: is_space_def)

lemma raw_words_last: "list_all (\<lambda>c. \<not> is_space c) w \<Longrightarrow> raw_words w = [w]"
  by (induction w) auto

lemma raw_words_join: "list_all word ws \<Longrightarrow> ws \<noteq> [] \<Longrightarrow> raw_words (join '' '' ws) = ws"
  by (induction "'' ''" ws rule: join.induct) (auto simp: word_def raw_words_word raw_words_last)

lemma split_ws_join: "list_all word ws \<Longrightarrow> split_ws (join '' '' ws) = ws"
proof (cases "ws = []")
  case False
  assume w: "list_all word ws"
  then have "filter (\<lambda>w. w \<noteq> []) ws = ws" by (auto simp: list_all_iff word_def filter_id_conv)
  then show ?thesis using raw_words_join [OF w False] by (simp add: split_ws_raw)
qed (simp add: split_ws_def)

lemma join_ends:
  "list_all word ws \<Longrightarrow> ws \<noteq> [] \<Longrightarrow>
   join '' '' ws \<noteq> [] \<and> hd (join '' '' ws) = hd (hd ws) \<and> last (join '' '' ws) = last (last ws)"
  by (induction "'' ''" ws rule: join.induct) (auto simp: word_def)

lemma strip_join: "list_all word ws \<Longrightarrow> strip (join '' '' ws) = join '' '' ws"
proof (cases "ws = []")
  case False
  assume w: "list_all word ws"
  have "word (hd ws)" "word (last ws)" using w False by (auto simp: list_all_iff)
  then have "\<not> is_space (hd (hd ws))" "\<not> is_space (last (last ws))" by (auto simp: word_def list_all_iff)
  then show ?thesis using join_ends [OF w False] by (intro strip_by_id) auto
qed simp

definition normal_text :: "string \<Rightarrow> bool" where
  "normal_text s \<longleftrightarrow> normalize_text (PStr s) = s"

lemma normal_text_normalize [simp]: "normal_text (normalize_text v)"
proof -
  have "str_or (PStr t) [] = t" for t by (simp add: str_or_def py_or_def)
  then show ?thesis
    by (simp add: normal_text_def normalize_text_def [of "PStr _"])
      (simp add: normalize_text_def strip_join split_ws_words split_ws_join)
qed

lemma normalize_text_normal [simp]: "normal_text s \<Longrightarrow> normalize_text (PStr s) = s"
  by (simp add: normal_text_def)

lemma normalize_text_None [simp]: "normalize_text PNone = []"
  by (simp add: normalize_text_def str_or_def py_or_def split_ws_def)


section \<open>The shape of a record\<close>

definition failure_ok :: "job_failure \<Rightarrow> bool" where
  "failure_ok f \<longleftrightarrow> jf_category f \<in> set job_failure_category_values \<and> jf_code f \<noteq> []
     \<and> normal_text (jf_code f) \<and> normal_text (jf_message f) \<and> normal_text (jf_at f) \<and> jf_at f \<noteq> []"

definition delivery_ok :: "job_delivery \<Rightarrow> bool" where
  "delivery_ok d \<longleftrightarrow> jd_state d \<in> set job_delivery_state_values \<and> normal_text (jd_channel d) \<and> normal_text (jd_message d)
     \<and> pred_option (\<lambda>s. s \<noteq> [] \<and> normal_text s) (jd_event_id d)
     \<and> pred_option (\<lambda>s. s \<noteq> [] \<and> normal_text s) (jd_source_event_id d) \<and> normal_text (jd_at d) \<and> jd_at d \<noteq> []"

definition job_record_ok :: "job_record \<Rightarrow> bool" where
  "job_record_ok r \<longleftrightarrow> jb_status r \<in> set job_status_values
     \<and> list_all normal_text [jb_name r, jb_kind r, jb_last_runtime_source r, jb_status_source r]
     \<and> list_all (pred_option (\<lambda>s. s \<noteq> [] \<and> normal_text s))
         [jb_next_retry_at r, jb_last_started_at r, jb_last_finished_at r, jb_last_success_at r]
     \<and> 0 \<le> jb_attempt_count r \<and> 0 \<le> jb_retry_count r \<and> 0 \<le> jb_max_retries r
     \<and> pred_option failure_ok (jb_last_failure r) \<and> delivery_ok (jb_last_delivery r)"

lemma text_or_none_ok [simp]: "pred_option (\<lambda>s. s \<noteq> [] \<and> normal_text s) (text_or_none (normalize_text v))"
  by (simp add: text_or_none_def)

lemma text_field_ok [simp]: "pred_option (\<lambda>s. s \<noteq> [] \<and> normal_text s) (text_field d k)"
  by (simp add: text_field_def)

lemma normal_or_str [simp]: "normal_text s \<Longrightarrow> normal_text t \<Longrightarrow> normal_text (or_str s t)"
  by (simp add: or_str_def)

lemma normal_constants [simp]: "normal_text ''job_failure''"
  by code_simp

lemma failure_payload_ok: "normal_text now \<Longrightarrow> now \<noteq> [] \<Longrightarrow> failure_ok (failure_payload now c r e m t d)"
  by (auto simp: failure_ok_def failure_payload_def Let_def job_failure_category_values_def)

lemma delivery_payload_ok: "normal_text now \<Longrightarrow> now \<noteq> [] \<Longrightarrow> delivery_ok (delivery_payload now s b c m e f t d)"
  by (auto simp: delivery_ok_def delivery_payload_def Let_def job_delivery_state_values_def)

lemma normalize_failure_ok: "normal_text now \<Longrightarrow> now \<noteq> [] \<Longrightarrow> pred_option failure_ok (normalize_failure now v)"
  by (cases v) (auto simp: normalize_failure_def failure_payload_ok)

lemma normalize_delivery_ok: "normal_text now \<Longrightarrow> now \<noteq> [] \<Longrightarrow> delivery_ok (normalize_delivery now v)"
  by (cases v) (auto simp: normalize_delivery_def default_delivery_def delivery_payload_ok)

lemma count_field_Inr: "count_field d k n = Inr c \<Longrightarrow> 0 \<le> c"
  by (auto simp: count_field_def rbind_def split: sum.splits)

lemma job_record_shape:
  assumes "normalize_job_record now payload kind name maxr src = Inr r" and now: "normal_text now" "now \<noteq> []"
  shows "job_record_ok r"
proof (cases payload)
  case (PDict m)
  let ?st = "or_str (lower (normalize_text (dget m ''status''))) ''idle''"
  have "(if ?st \<notin> set job_status_values then ''idle'' else ?st) \<in> set job_status_values"
    by (simp add: job_status_values_def)
  then show ?thesis
    using assms(1) now
    by (auto simp: normalize_job_record_def PDict Let_def rbind_def default_job_record_def job_record_ok_def
        normalize_failure_ok normalize_delivery_ok split: sum.splits dest: count_field_Inr simp del: if_split_mem2)
qed (use assms in \<open>auto simp: normalize_job_record_def default_job_record_def job_record_ok_def job_status_values_def
        default_delivery_def delivery_payload_ok\<close>)

text \<open>(C29)
  A job's status file cannot break the shape of its record: whatever value is read,
  \<open>normalize_job_record\<close> either raises, which happens only when one of the three counters is not
  a number, or returns a record whose status, failure category and delivery state are among
  the known ones, whose counters are not negative and whose texts are in normal form.\<close>

theorem normalize_job_record_well_typed:
  assumes "normal_text now" and "now \<noteq> []"
  shows "case normalize_job_record now payload kind name maxr src of
      Inr r \<Rightarrow> job_record_ok r
    | Inl e \<Rightarrow> \<exists>m k. payload = PDict m \<and> k \<in> {''attempt_count'', ''retry_count'', ''max_retries''} \<and> py_int (dget m k) = Inl e"
proof (cases "normalize_job_record now payload kind name maxr src")
  case (Inr r)
  then show ?thesis using job_record_shape assms by simp
next
  case (Inl e)
  then obtain m where m: "payload = PDict m" by (cases payload) (auto simp: normalize_job_record_def)
  have count: "count_field m k n = Inl e \<Longrightarrow> py_int (dget m k) = Inl e" for k n
    by (auto simp: count_field_def rbind_def dget_or_def dget_def py_or_def split: sum.splits option.splits if_splits)
  show ?thesis using Inl
    by (auto simp: m normalize_job_record_def Let_def rbind_def split: sum.splits dest!: count)
qed

theorem normalize_job_record_well_typed_witness:
  "job_record_ok (projr (normalize_job_record ''2026-01-01T00:00:00Z''
     (PDict [(''status'', PStr '' Done ''), (''attempt_count'', PStr ''-3''), (''last_failure'', PDict [(''message'', PStr ''x'')])])
     ''sync'' ''Sync'' 2 ''file''))"
proof -
  let ?r = "normalize_job_record ''2026-01-01T00:00:00Z''
     (PDict [(''status'', PStr '' Done ''), (''attempt_count'', PStr ''-3''), (''last_failure'', PDict [(''message'', PStr ''x'')])])
     ''sync'' ''Sync'' 2 ''file''"
  have "\<not> isl ?r" "normal_text ''2026-01-01T00:00:00Z''" by code_simp+
  then show ?thesis
    using normalize_job_record_well_typed [of "''2026-01-01T00:00:00Z''"] Inr_projr [of ?r]
    by (metis (no_types, lifting) list.discI sum.case(2))
qed

section \<open>Records read back\<close>

lemma values_normal:
  "s \<in> set job_status_values \<union> set job_failure_category_values \<union> set job_delivery_state_values \<Longrightarrow>
   normal_text s \<and> lower s = s \<and> s \<noteq> []"
proof -
  have "list_all (\<lambda>s. normal_text s \<and> lower s = s \<and> s \<noteq> [])
    (job_status_values @ job_failure_category_values @ job_delivery_state_values)"
    by code_simp
  then show "s \<in> set job_status_values \<union> set job_failure_category_values \<union> set job_delivery_state_values \<Longrightarrow> ?thesis"
    by (auto simp: list_all_iff)
qed

declare dget_Cons [simp]

lemma normalize_text_opt_str:
  "pred_option (\<lambda>s. s \<noteq> [] \<and> normal_text s) x \<Longrightarrow> text_or_none (normalize_text (opt_str x)) = x"
  by (cases x) (auto simp: opt_str_def text_or_none_def)

lemma failure_read_back: "failure_ok f \<Longrightarrow> normalize_failure now (PDict (failure_to_dict f)) = Some f"
proof -
  assume f: "failure_ok f"
  then have c: "normal_text (jf_category f)" "lower (jf_category f) = jf_category f" "jf_category f \<noteq> []"
    using values_normal [of "jf_category f"] by (auto simp: failure_ok_def)
  have "py_or (PStr (jf_code f)) d = PStr (jf_code f)" for d using f by (simp add: py_or_def failure_ok_def)
  with f c show ?thesis
    by (cases f) (simp add: normalize_failure_def failure_to_dict_def failure_payload_def failure_ok_def or_str_def Let_def)
qed

lemma delivery_read_back: "delivery_ok d \<Longrightarrow> normalize_delivery now (PDict (delivery_to_dict d)) = d"
proof -
  assume d: "delivery_ok d"
  then have c: "normal_text (jd_state d)" "lower (jd_state d) = jd_state d" "jd_state d \<noteq> []"
    using values_normal [of "jd_state d"] by (auto simp: delivery_ok_def)
  with d show ?thesis
    by (cases d) (simp add: normalize_delivery_def delivery_to_dict_def delivery_payload_def delivery_ok_def or_str_def
        Let_def normalize_text_opt_str)
qed

lemma count_read_back: "map_of d k = Some (PInt n) \<Longrightarrow> 0 \<le> n \<Longrightarrow> count_field d k x = Inr n"
  by (simp add: count_field_def rbind_def dget_or_def py_or_def)

lemma or_str_again [simp]: "or_str (or_str s d) d = or_str s d" "or_str d d = d"
  by (simp_all add: or_str_def)

lemma or_str_ex [simp]: "\<exists>a. d = or_str a d"
  by (rule exI [of _ d]) simp

lemma names_read_back:
  assumes "normalize_job_record now payload kind name maxr src = Inr r"
  shows "or_str (jb_name r) (normalize_text (PStr name)) = jb_name r"
    "or_str (jb_kind r) (normalize_text (PStr kind)) = jb_kind r"
    "or_str (jb_last_runtime_source r) (normalize_text (PStr src)) = jb_last_runtime_source r"
    "or_str (jb_status_source r) (normalize_text (PStr src)) = jb_status_source r"
proof -
  have "\<exists>a b c d. jb_name r = or_str a (normalize_text (PStr name)) \<and> jb_kind r = or_str b (normalize_text (PStr kind))
     \<and> jb_last_runtime_source r = or_str c (normalize_text (PStr src)) \<and> jb_status_source r = or_str d (normalize_text (PStr src))"
  proof (cases payload)
    case (PDict m)
    then show ?thesis using assms
      by (simp add: normalize_job_record_def Let_def rbind_def default_job_record_def split: sum.splits) fastforce
  qed (use assms in \<open>auto simp: normalize_job_record_def default_job_record_def\<close>)
  then show "or_str (jb_name r) (normalize_text (PStr name)) = jb_name r"
    "or_str (jb_kind r) (normalize_text (PStr kind)) = jb_kind r"
    "or_str (jb_last_runtime_source r) (normalize_text (PStr src)) = jb_last_runtime_source r"
    "or_str (jb_status_source r) (normalize_text (PStr src)) = jb_status_source r"
    by force+
qed

text \<open>A normalised record is stored and read back unchanged: normalising the dictionary of a
  record that \<open>normalize_job_record\<close> produced, at any later time, gives the same record.\<close>

theorem normalize_job_record_read_back:
  assumes r: "normalize_job_record now payload kind name maxr src = Inr r"
    and now: "normal_text now" "now \<noteq> []"
  shows "normalize_job_record later (PDict (job_record_to_dict r)) kind name maxr src = Inr r"
proof -
  have ok: "job_record_ok r" using job_record_shape [OF r now] .
  have st: "normal_text (jb_status r)" "lower (jb_status r) = jb_status r" "jb_status r \<noteq> []"
    "jb_status r \<in> set job_status_values"
    using values_normal [of "jb_status r"] ok by (auto simp: job_record_ok_def)
  note names = names_read_back [OF r]
  have counts: "count_field (job_record_to_dict r) ''attempt_count'' x = Inr (jb_attempt_count r)"
    "count_field (job_record_to_dict r) ''retry_count'' x = Inr (jb_retry_count r)"
    "count_field (job_record_to_dict r) ''max_retries'' x = Inr (jb_max_retries r)" for x
    using ok by (simp_all add: count_read_back job_record_to_dict_def job_record_ok_def)
  have f: "normalize_failure later (dget (job_record_to_dict r) ''last_failure'') = jb_last_failure r"
    using ok failure_read_back
    by (cases "jb_last_failure r") (auto simp: job_record_to_dict_def job_record_ok_def normalize_failure_def)
  have d: "normalize_delivery later (dget (job_record_to_dict r) ''last_delivery'') = jb_last_delivery r"
    using ok delivery_read_back by (simp add: job_record_to_dict_def job_record_ok_def)
  have t: "text_field (job_record_to_dict r) ''next_retry_at'' = jb_next_retry_at r"
    "text_field (job_record_to_dict r) ''last_started_at'' = jb_last_started_at r"
    "text_field (job_record_to_dict r) ''last_finished_at'' = jb_last_finished_at r"
    "text_field (job_record_to_dict r) ''last_success_at'' = jb_last_success_at r"
    using ok by (simp_all add: text_field_def job_record_to_dict_def job_record_ok_def normalize_text_opt_str)
  have g: "normalize_text (dget (job_record_to_dict r) ''name'') = jb_name r"
    "normalize_text (dget (job_record_to_dict r) ''kind'') = jb_kind r"
    "normalize_text (dget (job_record_to_dict r) ''status'') = jb_status r"
    "normalize_text (dget (job_record_to_dict r) ''last_runtime_source'') = jb_last_runtime_source r"
    "normalize_text (dget (job_record_to_dict r) ''status_source'') = jb_status_source r"
    "as_dict (dget (job_record_to_dict r) ''last_result'') = jb_last_result r"
    "as_dict (dget (job_record_to_dict r) ''metadata'') = jb_metadata r"
    using ok st by (simp_all add: job_record_to_dict_def job_record_ok_def)
  show ?thesis
    by (simp add: normalize_job_record_def Let_def counts rbind_def f d t g st(2,3) default_job_record_def names)
      (simp add: or_str_def st)
qed


definition example_job :: "pyerr + job_record" where
  "example_job = normalize_job_record ''t0'' (PDict [(''status'', PStr ''RUNNING''), (''attempt_count'', PFloat (5 / 2) ''2.5'')])
     ''sync'' ''Sync  job'' 2 ''file''"

end
