(* ===== verification/Endpoint_Registry.thy ===== *)
theory Endpoint_Registry
  imports Endpoint_Store
begin

text \<open>
  Registration of endpoints and their capabilities: the predicates, \<open>EndpointRegistryService\<close>
  and \<open>EndpointCapabilityService\<close> of \<^verbatim>\<open>core/services/endpoint_service.py\<close>. The methods of these
  services that only open a transaction and call one repository method are that method
  (\<open>Endpoint_Store\<close>); here are the ones with a logic of their own: the retirement of the
  endpoints that acceptance checks leave behind, and the replacement of the capabilities of an
  endpoint by the snapshot it sends.

  An exception rolls the transaction back, so an operation that raises is a value \<open>Inl\<close> and
  has no new tables.
\<close>

section \<open>Kinds of endpoints\<close>

definition hidden_endpoint_statuses :: "string list" where
  "hidden_endpoint_statuses = [''archived'', ''retired'']"

definition core_internal_endpoint_ids :: "string list" where
  "core_internal_endpoint_ids = [''core.local'', ''core.scheduler'', ''core.inbox'', ''core.notification'']"

definition presentation_endpoint_types :: "string list" where
  "presentation_endpoint_types = [''desktop_ui'', ''edge_ui'']"

definition string_list :: "pyval list \<Rightarrow> string list" where
  "string_list values = dedup_nonempty [] (map clean values)"

definition tidy :: "string \<Rightarrow> string" where
  "tidy s = lower (strip s)"

definition is_acceptance_probe_endpoint :: "endpoint \<Rightarrow> bool" where
  "is_acceptance_probe_endpoint e =
     (let eid = tidy (ep_endpoint_id e); etype = tidy (ep_endpoint_type e);
          provider = as_dict (dget (ep_meta e) ''provider'');
          provider_id = lower (clean (dget provider ''provider_id''));
          transport = lower (clean (dget provider ''transport_profile''));
          name = lower (clean (py_or (dget provider ''display_name'') (dget (ep_meta e) ''display_name'')))
      in ((startswith eid ''desktop.v4check-'' \<or> startswith eid ''edge.v4check-'')
            \<and> (endswith eid ''.ui'' \<or> endswith eid ''.executor''))
         \<or> (startswith provider_id ''v4check-'' \<and> transport = ''acceptance_ws'')
         \<or> (name = ''v4 acceptance endpoint'' \<and> etype \<in> {''desktop_ui'', ''desktop_executor'', ''edge_executor''}))"

definition endpoint_hidden_from_operator :: "endpoint \<Rightarrow> bool" where
  "endpoint_hidden_from_operator e \<longleftrightarrow>
     tidy (ep_status e) \<in> set hidden_endpoint_statuses \<or> truthy (dget (ep_meta e) ''operator_hidden'')
     \<or> is_acceptance_probe_endpoint e"

definition endpoint_is_core_internal :: "endpoint \<Rightarrow> bool" where
  "endpoint_is_core_internal e \<longleftrightarrow>
     tidy (ep_provider_type e) = ''core'' \<or> tidy (ep_endpoint_id e) \<in> set core_internal_endpoint_ids
     \<or> startswith (tidy (ep_endpoint_type e)) ''core_''"

definition endpoint_is_presentation_role :: "endpoint \<Rightarrow> bool" where
  "endpoint_is_presentation_role e \<longleftrightarrow>
     tidy (ep_provider_type e) \<in> {''desktop'', ''edge''}
     \<and> (endswith (tidy (ep_endpoint_id e)) ''.ui'' \<or> tidy (ep_endpoint_type e) \<in> set presentation_endpoint_types)"

section \<open>Retirement of acceptance endpoints\<close>

definition already_retired :: "endpoint \<Rightarrow> bool" where
  "already_retired e \<longleftrightarrow> truthy (dget (ep_meta e) ''operator_hidden'') \<and> ep_status e = ''archived''"

definition retired_row :: "string \<Rightarrow> endpoint \<Rightarrow> endpoint" where
  "retired_row retired_at e =
     e\<lparr>ep_status := ''archived'',
       ep_meta := setdefault ''retired_at'' (PStr retired_at)
         (dset ''operator_hidden_reason'' (PStr ''v4_acceptance_probe'')
           (dset ''operator_hidden'' (PBool True) (ep_meta e)))\<rparr>"

text \<open>The loop over the endpoints: the count, the endpoints and the capabilities.\<close>

definition retire_step ::
  "string \<Rightarrow> endpoint \<Rightarrow> nat \<times> endpoint list \<times> capability list \<Rightarrow> nat \<times> endpoint list \<times> capability list" where
  "retire_step retired_at e s =
     (case s of (retired, E, C) \<Rightarrow>
        if \<not> is_acceptance_probe_endpoint e then s
        else (if already_retired e then retired else Suc retired,
              tbl_upd ep_id (ep_id e) (retired_row retired_at) E,
              map (\<lambda>c. if cp_endpoint_id c = ep_id e then c\<lparr>cp_enabled := False\<rparr> else c) C))"

definition retire_acceptance_probe_endpoints ::
  "string \<Rightarrow> endpoint list \<Rightarrow> capability list \<Rightarrow> nat \<times> endpoint list \<times> capability list" where
  "retire_acceptance_probe_endpoints retired_at E C = fold (retire_step retired_at) (list_endpoints E) (0, E, C)"

section \<open>Snapshots of capabilities\<close>

text \<open>\<open>upsert_capability\<close>; \<open>request\<close> carries the arguments of the repository method.\<close>

definition upsert_capability ::
  "row_id \<Rightarrow> capability \<Rightarrow> capability list \<Rightarrow> pyerr + capability \<times> capability list" where
  "upsert_capability new_id request T =
     (let tool_key = strip (cp_tool_key request)
      in capability_upsert new_id (request\<lparr>cp_tool_key := tool_key,
           cp_capability_id := or_str (cp_capability_id request) (''endpoint.'' @ cp_endpoint_id request @ ''.'' @ tool_key)\<rparr>) T)"

definition item_tool_key :: "pydict \<Rightarrow> string" where
  "item_tool_key item = clean (py_or (dget item ''tool_key'') (dget item ''name''))"

definition item_capability_id :: "string \<Rightarrow> pydict \<Rightarrow> string" where
  "item_capability_id public_id item =
     (let raw0 = clean (py_or (dget item ''capability_id'') (dget item ''tool_id''));
          raw = (if raw0 \<noteq> [] \<and> \<not> startswith raw0 ''endpoint.'' then [] else raw0)
      in or_str raw (''endpoint.'' @ public_id @ ''.'' @ item_tool_key item))"

definition item_input_schema :: "pydict \<Rightarrow> pydict" where
  "item_input_schema item =
     (case dget item ''input_schema'' of PDict s \<Rightarrow> s | _ \<Rightarrow> as_dict (dget item ''schema''))"

definition item_metadata :: "pydict \<Rightarrow> pydict" where
  "item_metadata item =
     dset ''output_schema'' (PDict (as_dict (dget item ''output_schema'')))
       (dset ''input_schema'' (PDict (item_input_schema item))
         (filter (\<lambda>(k, _). k \<notin> {''schema'', ''input_schema'', ''output_schema'', ''constraints''}) item))"

definition item_capability :: "row_id \<Rightarrow> string \<Rightarrow> pydict \<Rightarrow> capability" where
  "item_capability row public_id item =
     \<lparr>cp_id = [], cp_capability_id = item_capability_id public_id item, cp_endpoint_id = row,
      cp_tool_key = item_tool_key item, cp_schema = item_input_schema item,
      cp_risk_level = str_or (dget item ''risk_level'') ''read'',
      cp_requires_confirmation = truthy (dget_or item ''requires_confirmation'' (PBool False)),
      cp_enabled = truthy (dget_or item ''enabled'' (PBool True)),
      cp_constraints = as_dict (dget item ''constraints''), cp_meta = item_metadata item\<rparr>"

text \<open>The loop over the items: the count, the set of active tool keys and the table.
  \<open>ids\<close> draws the primary keys.\<close>

fun snapshot_loop ::
  "(nat \<Rightarrow> row_id) \<Rightarrow> row_id \<Rightarrow> string \<Rightarrow> pydict list \<Rightarrow> nat \<times> string list \<times> capability list
   \<Rightarrow> pyerr + nat \<times> string list \<times> capability list" where
  "snapshot_loop ids row public_id [] s = Inr s"
| "snapshot_loop ids row public_id (item # items) (count, active, T) =
     (if item_tool_key item = [] then snapshot_loop ids row public_id items (count, active, T)
      else rbind (capability_upsert (ids count) (item_capability row public_id item) T) (\<lambda>(_, T').
             snapshot_loop ids row public_id items (Suc count, item_tool_key item # active, T')))"

definition replace_snapshot ::
  "(nat \<Rightarrow> row_id) \<Rightarrow> row_id \<Rightarrow> string \<Rightarrow> pydict list \<Rightarrow> capability list \<Rightarrow> pyerr + nat \<times> capability list" where
  "replace_snapshot ids row public_id items T =
     rbind (snapshot_loop ids row public_id items (0, [], T)) (\<lambda>(count, active, T').
       Inr (count, snd (disable_missing_for_endpoint row active T')))"

section \<open>Retirement happens once\<close>

lemma retired_row_simps [simp]:
  "ep_id (retired_row t e) = ep_id e" "ep_endpoint_id (retired_row t e) = ep_endpoint_id e"
  "ep_status (retired_row t e) = ''archived''" "already_retired (retired_row t e)"
  "is_acceptance_probe_endpoint (retired_row t e) = is_acceptance_probe_endpoint e"
  by (simp_all add: retired_row_def already_retired_def setdefault_def is_acceptance_probe_endpoint_def)

lemma retired_row_again [simp]: "retired_row t' (retired_row t e) = retired_row t e"
proof -
  define m where "m = ep_meta (retired_row t e)"
  have v: "map_of m ''operator_hidden'' = Some (PBool True)"
      "map_of m ''operator_hidden_reason'' = Some (PStr ''v4_acceptance_probe'')" "dhas m ''retired_at''"
    by (simp_all add: m_def retired_row_def setdefault_def dhas_def)
  have "setdefault ''retired_at'' (PStr t') (dset ''operator_hidden_reason'' (PStr ''v4_acceptance_probe'')
      (dset ''operator_hidden'' (PBool True) m)) = m"
    using v by (simp add: dset_same setdefault_def)
  then have "retired_row t' (retired_row t e) = (retired_row t e)\<lparr>ep_status := ''archived'', ep_meta := m\<rparr>"
    unfolding m_def by (subst retired_row_def) simp
  also have "\<dots> = retired_row t e" by (simp add: m_def retired_row_def)
  finally show ?thesis .
qed

definition retired_in :: "string \<Rightarrow> row_id set \<Rightarrow> endpoint \<Rightarrow> endpoint" where
  "retired_in t I e = (if ep_id e \<in> I then retired_row t e else e)"

definition disabled_in :: "row_id set \<Rightarrow> capability \<Rightarrow> capability" where
  "disabled_in I c = (if cp_endpoint_id c \<in> I then c\<lparr>cp_enabled := False\<rparr> else c)"

abbreviation probe_ids :: "endpoint list \<Rightarrow> row_id set" where
  "probe_ids E \<equiv> ep_id ` {e \<in> set E. is_acceptance_probe_endpoint e}"

lemma retire_fold:
  "tbl_wf ep_id xs \<Longrightarrow> fold (retire_step t) xs (n, E, C) =
     (n + length (filter (\<lambda>e. is_acceptance_probe_endpoint e \<and> \<not> already_retired e) xs),
      map (retired_in t (probe_ids xs)) E, map (disabled_in (probe_ids xs)) C)"
proof (induction xs arbitrary: n E C)
  case Nil
  then show ?case by (simp add: retired_in_def disabled_in_def)
next
  case (Cons x xs)
  show ?case
  proof (cases "is_acceptance_probe_endpoint x")
    case True
    have I: "probe_ids (x # xs) = insert (ep_id x) (probe_ids xs)" "ep_id x \<notin> probe_ids xs"
      using True Cons.prems by auto
    have "retired_in t (probe_ids xs) (if ep_id e = ep_id x then retired_row t e else e)
        = retired_in t (probe_ids (x # xs)) e" for e
      unfolding retired_in_def I(1) using I(2) by simp
    moreover have "disabled_in (probe_ids xs) (if cp_endpoint_id c = ep_id x then c\<lparr>cp_enabled := False\<rparr> else c)
        = disabled_in (probe_ids (x # xs)) c" for c
      unfolding disabled_in_def I(1) using I(2) by simp
    ultimately show ?thesis using Cons True by (simp add: retire_step_def tbl_upd_def)
  next
    case False
    then have "probe_ids (x # xs) = probe_ids xs" by auto
    with False Cons show ?thesis by (simp add: retire_step_def)
  qed
qed

lemma retire_eq:
  assumes "tbl_wf ep_id E"
  shows "retire_acceptance_probe_endpoints t E C =
     (length (filter (\<lambda>e. is_acceptance_probe_endpoint e \<and> \<not> already_retired e) E),
      map (\<lambda>e. if is_acceptance_probe_endpoint e then retired_row t e else e) E,
      map (disabled_in (probe_ids E)) C)"
proof -
  have "ep_id e \<in> probe_ids E \<longleftrightarrow> is_acceptance_probe_endpoint e" if "e \<in> set E" for e
    using assms that by (auto simp: distinct_map dest: inj_onD)
  then have "map (retired_in t (probe_ids E)) E = map (\<lambda>e. if is_acceptance_probe_endpoint e then retired_row t e else e) E"
    by (simp add: retired_in_def cong: if_cong)
  moreover have "tbl_wf ep_id (list_endpoints E)"
    using assms by (simp add: list_endpoints_def distinct_map)
  moreover have "length (filter P (list_endpoints E)) = length (filter P E)" for P
    by (simp add: list_endpoints_def filter_sort)
  moreover have "set (list_endpoints E) = set E" by (simp add: list_endpoints_def)
  ultimately show ?thesis by (simp add: retire_acceptance_probe_endpoints_def retire_fold)
qed

text \<open>Retiring the endpoints of acceptance checks is idempotent and complete: after one run every such
  endpoint is archived and hidden from the operator and has no enabled capability, no other row
  has changed, and a second run, at any later time, counts nothing and changes nothing, the time
  of retirement included.
\<close>

theorem retire_acceptance_probes_idempotent:
  assumes "tbl_wf ep_id E"
  shows "case retire_acceptance_probe_endpoints t E C of (n, E', C') \<Rightarrow>
     retire_acceptance_probe_endpoints t' E' C' = (0, E', C')
     \<and> list_all2 (\<lambda>e e'. if is_acceptance_probe_endpoint e then ep_status e' = ''archived'' \<and> endpoint_hidden_from_operator e'
          else e' = e) E E'
     \<and> list_all2 (\<lambda>c c'. if cp_endpoint_id c \<in> probe_ids E then \<not> cp_enabled c' else c' = c) C C'"
proof -
  let ?r = "\<lambda>t e. if is_acceptance_probe_endpoint e then retired_row t e else e"
  have k: "map ep_id (map (?r t) E) = map ep_id E" by (simp add: if_distrib cong: if_cong)
  then have wf: "tbl_wf ep_id (map (?r t) E)" using assms by (simp only:)
  have p: "is_acceptance_probe_endpoint (?r t e) = is_acceptance_probe_endpoint e" "ep_id (?r t e) = ep_id e" for e by simp_all
  have "{e \<in> set (map (?r t) E). is_acceptance_probe_endpoint e} = ?r t ` {e \<in> set E. is_acceptance_probe_endpoint e}"
    unfolding set_map using p(1) by blast
  then have I: "probe_ids (map (?r t) E) = probe_ids E" by (simp only: image_image p(2))
  have "disabled_in J (disabled_in J c) = disabled_in J c" for J c by (simp add: disabled_in_def)
  moreover have "?r t' (?r t e) = ?r t e" for e by simp
  moreover have "filter (\<lambda>e. is_acceptance_probe_endpoint e \<and> \<not> already_retired e) (map (?r t) E) = []"
    by (auto simp: filter_empty_conv)
  ultimately have "retire_acceptance_probe_endpoints t' (map (?r t) E) (map (disabled_in (probe_ids E)) C)
      = (0, map (?r t) E, map (disabled_in (probe_ids E)) C)"
    unfolding retire_eq [OF wf] I by simp
  then show ?thesis unfolding retire_eq [OF assms]
    by (auto simp: list_all2_conv_all_nth disabled_in_def endpoint_hidden_from_operator_def)
qed

definition example_probe :: endpoint where
  "example_probe = \<lparr>ep_id = ''e1'', ep_endpoint_id = '' Desktop.v4check-7.UI'', ep_endpoint_type = ''desktop_ui'', ep_provider_type = ''desktop'',
     ep_transport_type = ''websocket'', ep_owner_actor_id = None, ep_workspace_scope = [], ep_status = ''ready'',
     ep_labels = [], ep_priority = 0, ep_meta = []\<rparr>"

theorem retire_acceptance_probes_idempotent_witness:
  "case retire_acceptance_probe_endpoints ''t1'' [example_probe] [] of (n, E', C') \<Rightarrow>
     n = 1 \<and> retire_acceptance_probe_endpoints ''t2'' E' C' = (0, E', C')"
proof -
  have "tbl_wf ep_id [example_probe]" "fst (retire_acceptance_probe_endpoints ''t1'' [example_probe] []) = 1" by code_simp+
  with retire_acceptance_probes_idempotent [where E = "[example_probe]" and t = "''t1''" and C = "[]" and t' = "''t2''"]
  show ?thesis by (auto split: prod.splits)
qed

section \<open>What a snapshot leaves enabled\<close>

definition snapshot_item :: "pydict list \<Rightarrow> string \<Rightarrow> pydict option" where
  "snapshot_item items k = tbl_get item_tool_key k (rev items)"

definition item_enabled :: "pydict \<Rightarrow> bool" where
  "item_enabled item = truthy (dget_or item ''enabled'' (PBool True))"

lemma snapshot_item_Cons:
  "snapshot_item (item # items) k =
     (case snapshot_item items k of Some i \<Rightarrow> Some i | None \<Rightarrow> if item_tool_key item = k then Some item else None)"
  by (simp add: snapshot_item_def tbl_get_append split: option.split)

lemma strip_item_tool_key [simp]: "strip (item_tool_key item) = item_tool_key item"
  by (simp add: item_tool_key_def)

lemma get_capabilityD:
  "get_capability e k T = Some r \<Longrightarrow> r \<in> set T \<and> cp_endpoint_id r = e \<and> cp_tool_key r = k"
  unfolding get_capability_def by (drule tbl_get_Some) simp

text \<open>An upsert of a capability changes the row of its endpoint and tool and no other.\<close>

lemma capability_upsert_effect:
  assumes up: "capability_upsert new_id req T = Inr (r, T')" and u: "unique_rows cp_clash T"
  shows "unique_rows cp_clash T'"
    and "get_capability (cp_endpoint_id req) (cp_tool_key req) T' = Some r" "cp_enabled r = cp_enabled req"
    and "(e, k) \<noteq> (cp_endpoint_id req, cp_tool_key req) \<Longrightarrow> get_capability e k T' = get_capability e k T"
    and "filter (\<lambda>c. cp_endpoint_id c \<noteq> cp_endpoint_id req) T' = filter (\<lambda>c. cp_endpoint_id c \<noteq> cp_endpoint_id req) T"
proof -
  let ?key = "\<lambda>r. (cp_endpoint_id r, cp_tool_key r)"
  have "unique_rows cp_clash T' \<and> get_capability (cp_endpoint_id req) (cp_tool_key req) T' = Some r
    \<and> cp_enabled r = cp_enabled req
    \<and> ((e, k) \<noteq> (cp_endpoint_id req, cp_tool_key req) \<longrightarrow> get_capability e k T' = get_capability e k T)
    \<and> filter (\<lambda>c. cp_endpoint_id c \<noteq> cp_endpoint_id req) T' = filter (\<lambda>c. cp_endpoint_id c \<noteq> cp_endpoint_id req) T"
  proof (cases "get_capability (cp_endpoint_id req) (cp_tool_key req) T")
    case None
    with up have ins: "insert_row cp_clash ''endpoint_capabilities'' (req\<lparr>cp_id := new_id\<rparr>) T = Inr (r, T')"
      by (simp add: capability_upsert_def)
    from cp.insert_ok [OF ins u] None show ?thesis
      by (auto simp: get_capability_def tbl_get_append split: option.split)
  next
    case (Some old)
    have old: "old \<in> set T" "cp_endpoint_id old = cp_endpoint_id req" "cp_tool_key old = cp_tool_key req"
      using get_capabilityD [OF Some] by simp_all
    from Some up obtain new where rep: "replace_row cp_id cp_clash ''endpoint_capabilities'' old new T = Inr (r, T')"
      and new: "cp_id new = cp_id old" "?key new = ?key old" "cp_enabled new = cp_enabled req"
      by (auto simp: capability_upsert_def)
    have R: "unique_rows cp_clash T'" "r = new" "set T' = insert new {x \<in> set T. cp_id x \<noteq> cp_id old}"
      using cp.replace_ok [OF rep u new(1) old(1)] by simp_all
    have T': "T' = tbl_upd cp_id (cp_id old) (\<lambda>_. new) T"
      using rep by (auto simp: replace_row_def split: if_splits)
    have same: "x = old" if "x \<in> set T" "cp_id x = cp_id old" for x
      using cp.unique_eq [OF u that(1) old(1)] that(2) by (simp add: cp_clash_def)
    have "get_capability (cp_endpoint_id req) (cp_tool_key req) T' = Some r"
      using cp_tool.get_mem [OF R(1), of new] R new old by (simp add: get_capability_def)
    moreover have "get_capability e k T' = get_capability e k T" if "(e, k) \<noteq> (cp_endpoint_id req, cp_tool_key req)"
      unfolding T' get_capability_def using same new(2) old that by (intro tbl_get_upd_alt) auto
    moreover have "filter (\<lambda>c. cp_endpoint_id c \<noteq> cp_endpoint_id req) (tbl_upd cp_id (cp_id old) (\<lambda>_. new) S)
        = filter (\<lambda>c. cp_endpoint_id c \<noteq> cp_endpoint_id req) S" if "set S \<subseteq> set T" for S
      using that same new(2) old by (induction S) (auto simp: tbl_upd_def)
    ultimately show ?thesis using R new(3) unfolding T' by simp
  qed
  then show "unique_rows cp_clash T'" "get_capability (cp_endpoint_id req) (cp_tool_key req) T' = Some r"
    "cp_enabled r = cp_enabled req"
    "(e, k) \<noteq> (cp_endpoint_id req, cp_tool_key req) \<Longrightarrow> get_capability e k T' = get_capability e k T"
    "filter (\<lambda>c. cp_endpoint_id c \<noteq> cp_endpoint_id req) T' = filter (\<lambda>c. cp_endpoint_id c \<noteq> cp_endpoint_id req) T"
    by blast+
qed

lemma snapshot_loop_effect:
  assumes "snapshot_loop ids row pub items (n, active, T) = Inr (n', active', T')" and "unique_rows cp_clash T"
  shows "unique_rows cp_clash T'
    \<and> filter (\<lambda>c. cp_endpoint_id c \<noteq> row) T' = filter (\<lambda>c. cp_endpoint_id c \<noteq> row) T
    \<and> n' = n + length (filter (\<lambda>item. item_tool_key item \<noteq> []) items)
    \<and> set active' = set active \<union> (item_tool_key ` set items - {[]})
    \<and> map_option cp_enabled (get_capability row k T') =
        (if k = [] then map_option cp_enabled (get_capability row k T)
         else case snapshot_item items k of Some i \<Rightarrow> Some (item_enabled i) | None \<Rightarrow> map_option cp_enabled (get_capability row k T))"
  using assms
proof (induction items arbitrary: n active T)
  case Nil
  then show ?case by (simp add: snapshot_item_def)
next
  case (Cons item items)
  show ?case
  proof (cases "item_tool_key item = []")
    case True
    with Cons.prems have "snapshot_loop ids row pub items (n, active, T) = Inr (n', active', T')" by simp
    from Cons.IH [OF this Cons.prems(2)] True show ?thesis
      by (auto simp: snapshot_item_Cons split: option.split)
  next
    case False
    let ?req = "item_capability row pub item"
    from False Cons.prems(1) obtain r T1 where up: "capability_upsert (ids n) ?req T = Inr (r, T1)"
      and rest: "snapshot_loop ids row pub items (Suc n, item_tool_key item # active, T1) = Inr (n', active', T')"
      by (auto simp: rbind_def split: sum.splits)
    have req: "cp_endpoint_id ?req = row" "cp_tool_key ?req = item_tool_key item" "cp_enabled ?req = item_enabled item"
      by (simp_all add: item_capability_def item_enabled_def)
    note eff = capability_upsert_effect [OF up Cons.prems(2), unfolded req]
    from Cons.IH [OF rest eff(1)] eff(2,3,5) eff(4) [of row k] False show ?thesis
      by (auto simp: snapshot_item_Cons split: option.split)
  qed
qed

text \<open>A snapshot is what counts: after \<open>replace_snapshot\<close> a tool of the endpoint is enabled exactly when
  the snapshot names it and the last item that names it is enabled, the capabilities of all other
  endpoints are untouched, the unique constraints hold, and the count returned is the number of
  items with a tool key.
\<close>

theorem replace_snapshot_exact:
  assumes u: "unique_rows cp_clash T" and r: "replace_snapshot ids row pub items T = Inr (n, T')"
  shows "unique_rows cp_clash T'
    \<and> filter (\<lambda>c. cp_endpoint_id c \<noteq> row) T' = filter (\<lambda>c. cp_endpoint_id c \<noteq> row) T
    \<and> n = length (filter (\<lambda>item. item_tool_key item \<noteq> []) items)
    \<and> (k \<noteq> [] \<and> strip k = k \<longrightarrow>
        (case get_capability row k T' of Some c \<Rightarrow> cp_enabled c | None \<Rightarrow> False)
          = (case snapshot_item items k of Some item \<Rightarrow> item_enabled item | None \<Rightarrow> False))"
proof -
  obtain active T1 where loop: "snapshot_loop ids row pub items (0, [], T) = Inr (n, active, T1)"
    and T': "T' = snd (disable_missing_for_endpoint row active T1)"
    using r by (auto simp: replace_snapshot_def rbind_def split: sum.splits)
  note eff = snapshot_loop_effect [OF loop u]
  let ?f = "\<lambda>c. if cp_endpoint_id c = row \<and> capability_missing active c then c\<lparr>cp_enabled := False\<rparr> else c"
  have T'_eq: "T' = map ?f T1" by (simp add: T' disable_missing_for_endpoint_def)
  have u': "unique_rows cp_clash T'"
    unfolding T'_eq by (rule cp.unique_map) (use eff in \<open>auto simp: cp_clash_def split: if_splits\<close>)
  have other: "filter (\<lambda>c. cp_endpoint_id c \<noteq> row) (map ?f S) = filter (\<lambda>c. cp_endpoint_id c \<noteq> row) S" for S
    by (induction S) auto
  have get: "get_capability row k (map ?f S) = map_option ?f (get_capability row k S)" for S
    by (induction S) (auto simp: get_capability_def)
  have "(case get_capability row k T' of Some c \<Rightarrow> cp_enabled c | None \<Rightarrow> False)
      = (case snapshot_item items k of Some item \<Rightarrow> item_enabled item | None \<Rightarrow> False)"
    if k: "k \<noteq> []" "strip k = k"
  proof (cases "snapshot_item items k")
    case None
    then have "k \<notin> item_tool_key ` set items" by (simp add: snapshot_item_def tbl_get_None)
    then have "k \<notin> set active" using eff by auto
    then have "\<not> cp_enabled (?f c)" if "get_capability row k T1 = Some c" for c
      using get_capabilityD [OF that] k by (auto simp: capability_missing_def)
    with None show ?thesis unfolding T'_eq get by (simp split: option.split)
  next
    case (Some item)
    then have "k \<in> set active" using eff k tbl_get_Some [of item_tool_key k "rev items" item] by (auto simp: snapshot_item_def)
    moreover have "map_option cp_enabled (get_capability row k T1) = Some (item_enabled item)" using eff Some k by simp
    then obtain c where "get_capability row k T1 = Some c" "cp_enabled c = item_enabled item" by auto
    ultimately show ?thesis using Some k get_capabilityD unfolding T'_eq get by (auto simp: capability_missing_def)
  qed
  with u' other eff T'_eq show ?thesis by simp
qed

definition example_snapshot :: "pyerr + nat \<times> capability list" where
  "example_snapshot =
     rbind (replace_snapshot (\<lambda>n. ''a'' @ nat_str n) ''e'' ''desk'' [[(''tool_key'', PStr ''old'')]] [])
       (\<lambda>(_, T). replace_snapshot (\<lambda>n. ''b'' @ nat_str n) ''e'' ''desk''
          [[(''name'', PStr '' new '')], [(''description'', PStr ''no key'')]] T)"

theorem replace_snapshot_exact_witness:
  "map (\<lambda>c. (cp_capability_id c, cp_enabled c)) (snd (projr example_snapshot))
     = [(''endpoint.desk.old'', False), (''endpoint.desk.new'', True)]
   \<and> fst (projr example_snapshot) = length (filter (\<lambda>item. item_tool_key item \<noteq> [])
        [[(''name'', PStr '' new '')], [(''description'', PStr ''no key'')]])"
proof
  show "map (\<lambda>c. (cp_capability_id c, cp_enabled c)) (snd (projr example_snapshot))
     = [(''endpoint.desk.old'', False), (''endpoint.desk.new'', True)]" by code_simp
next
  let ?items = "[[(''name'', PStr '' new '')], [(''description'', PStr ''no key'')]]"
  let ?old = "replace_snapshot (\<lambda>n. ''a'' @ nat_str n) ''e'' ''desk'' [[(''tool_key'', PStr ''old'')]] []"
  have e: "\<not> isl ?old" "\<not> isl example_snapshot" "unique_rows cp_clash (snd (projr ?old))" by code_simp+
  from Inr_projr [OF e(1)] have "example_snapshot
      = replace_snapshot (\<lambda>n. ''b'' @ nat_str n) ''e'' ''desk'' ?items (snd (projr ?old))"
    unfolding example_snapshot_def by (metis (no_types, lifting) rbind_def sum.case(2) case_prod_beta)
  with Inr_projr [OF e(2)] have "replace_snapshot (\<lambda>n. ''b'' @ nat_str n) ''e'' ''desk'' ?items (snd (projr ?old))
      = Inr (fst (projr example_snapshot), snd (projr example_snapshot))" by simp
  from replace_snapshot_exact [OF e(3) this]
  show "fst (projr example_snapshot) = length (filter (\<lambda>item. item_tool_key item \<noteq> []) ?items)" by simp
qed

end
