(* ===== verification/Endpoint_Membership.thy ===== *)
theory Endpoint_Membership
  imports Workspace_Policy Endpoint_Registry
begin

text \<open>
  Workspaces of endpoints and of addresses: \<open>EndpointWorkspaceMembershipService\<close> and
  \<open>EndpointAddressWorkspaceMembershipService\<close> of \<^verbatim>\<open>core/services/endpoint_service.py\<close>. The
  memberships decide where an endpoint may be used; the services copy them into the endpoint's
  (or address's) \<open>workspace_scope\<close> and metadata, which the tool router reads.

  The tables the services work on are the fields of \<open>member_store\<close>; \<open>ids\<close> draws the primary
  keys of new memberships. An operation that raises leaves the tables as they were, since its
  transaction is rolled back.
\<close>

record member_store =
  ms_workspaces :: "workspace list"
  ms_endpoints :: "endpoint list"
  ms_addresses :: "address list"
  ms_endpoint_members :: "membership list"
  ms_address_members :: "membership list"

section \<open>What both services share\<close>

definition workspace_public :: "workspace list \<Rightarrow> row_id \<Rightarrow> string" where
  "workspace_public W i = (case get_workspace_by_id i W of Some w \<Rightarrow> strip (ws_workspace_id w) | None \<Rightarrow> [])"

definition public_workspace_ids :: "workspace list \<Rightarrow> membership list \<Rightarrow> string list" where
  "public_workspace_ids W rows = dedup_nonempty [] (map (\<lambda>r. workspace_public W (mb_workspace_id r)) rows)"

text \<open>The primary row, or the first one, or none.\<close>

definition primary_workspace_id :: "workspace list \<Rightarrow> membership list \<Rightarrow> string" where
  "primary_workspace_id W rows =
     (case (case find mb_is_primary rows of Some r \<Rightarrow> Some r | None \<Rightarrow> (case rows of r # _ \<Rightarrow> Some r | [] \<Rightarrow> None)) of
        Some r \<Rightarrow> workspace_public W (mb_workspace_id r)
      | None \<Rightarrow> [])"

definition scope_meta :: "workspace list \<Rightarrow> membership list \<Rightarrow> pydict \<Rightarrow> pydict" where
  "scope_meta W rows m =
     dset ''primary_workspace_id'' (PStr (primary_workspace_id W rows))
       (dset ''managed_workspace_ids'' (PList (map PStr (public_workspace_ids W rows))) m)"

definition active_workspace :: "workspace \<Rightarrow> bool" where
  "active_workspace w \<longleftrightarrow> or_str (ws_status w) ''active'' \<noteq> ''archived''"

definition get_active_workspace :: "string \<Rightarrow> workspace list \<Rightarrow> workspace option" where
  "get_active_workspace wid W =
     (case get_by_workspace_id wid W of Some w \<Rightarrow> if active_workspace w then Some w else None | None \<Rightarrow> None)"

definition active_workspaces :: "string list \<Rightarrow> workspace list \<Rightarrow> workspace list" where
  "active_workspaces wids W = List.map_filter (\<lambda>wid. get_active_workspace wid W) wids"

text \<open>The loop that seeds the memberships; the first workspace is the primary one.\<close>

fun seed_rows ::
  "string \<Rightarrow> (nat \<Rightarrow> row_id) \<Rightarrow> row_id \<Rightarrow> string \<Rightarrow> string list \<Rightarrow> nat \<Rightarrow> workspace list \<Rightarrow> membership list
   \<Rightarrow> pyerr + membership list" where
  "seed_rows prefix ids own src requested index [] T = Inr T"
| "seed_rows prefix ids own src requested index (w # ws) T =
     rbind (mb_upsert prefix (ids index) own (ws_id w) [] ''member'' (index = 0) True src
              (Some [(''seeded_from_workspace_ids'', PList (map PStr requested))]) T)
       (\<lambda>(_, T'). seed_rows prefix ids own src requested (Suc index) ws T')"

text \<open>What an operation answers.\<close>

record membership_view =
  mv_public_id :: string
  mv_workspace_ids :: "string list"
  mv_primary_workspace_id :: string

section \<open>Workspaces of endpoints\<close>

definition endpoint_is_core :: "endpoint \<Rightarrow> bool" where
  "endpoint_is_core e \<longleftrightarrow> tidy (ep_provider_type e) = ''core''"

definition synced_endpoint :: "workspace list \<Rightarrow> membership list \<Rightarrow> endpoint \<Rightarrow> endpoint" where
  "synced_endpoint W M e =
     (let rows = list_for_owner (ep_id e) False M
      in e\<lparr>ep_workspace_scope := public_workspace_ids W rows, ep_meta := scope_meta W rows (ep_meta e)\<rparr>)"

definition sync_endpoint_scope :: "endpoint \<Rightarrow> member_store \<Rightarrow> string list \<times> member_store" where
  "sync_endpoint_scope e S =
     (let e' = synced_endpoint (ms_workspaces S) (ms_endpoint_members S) e
      in (ep_workspace_scope e', S\<lparr>ms_endpoints := tbl_upd ep_id (ep_id e) (\<lambda>_. e') (ms_endpoints S)\<rparr>))"

definition seed_workspaces :: "endpoint \<Rightarrow> string list \<Rightarrow> string \<Rightarrow> workspace list \<Rightarrow> workspace list" where
  "seed_workspaces e requested fallback W =
     (let ws = active_workspaces requested W
      in if ws = [] \<and> \<not> endpoint_is_core e then active_workspaces [fallback] W else ws)"

definition seed_endpoint_memberships ::
  "(nat \<Rightarrow> row_id) \<Rightarrow> row_id \<Rightarrow> pyval list \<Rightarrow> string \<Rightarrow> string \<Rightarrow> member_store \<Rightarrow> pyerr + string list \<times> member_store" where
  "seed_endpoint_memberships ids row workspace_ids src fallback S =
     (let requested = string_list workspace_ids in
      case get_endpoint_by_id row (ms_endpoints S) of
        None \<Rightarrow> Inr ([], S)
      | Some e \<Rightarrow>
          if list_for_owner (ep_id e) False (ms_endpoint_members S) \<noteq> [] then Inr (sync_endpoint_scope e S)
          else rbind (seed_rows ''ewm'' ids (ep_id e) src requested 0
                        (seed_workspaces e requested fallback (ms_workspaces S)) (ms_endpoint_members S))
                 (\<lambda>M. Inr (sync_endpoint_scope e (S\<lparr>ms_endpoint_members := M\<rparr>))))"

text \<open>The checks at the head of the three operations: the endpoint exists and is not the core's.\<close>

definition managed_endpoint :: "string \<Rightarrow> member_store \<Rightarrow> pyerr + endpoint" where
  "managed_endpoint eid S =
     (case get_by_endpoint_id (strip eid) (ms_endpoints S) of
        None \<Rightarrow> Inl (KeyError ''endpoint_not_found'')
      | Some e \<Rightarrow> if endpoint_is_core e then Inl (ValueError ''core_endpoint_membership_readonly'') else Inr e)"

definition endpoint_view :: "endpoint \<Rightarrow> membership list \<Rightarrow> string list \<times> member_store \<Rightarrow> membership_view \<times> member_store" where
  "endpoint_view e rows p =
     (\<lparr>mv_public_id = ep_endpoint_id e, mv_workspace_ids = fst p,
       mv_primary_workspace_id = primary_workspace_id (ms_workspaces (snd p)) rows\<rparr>, snd p)"

definition add_workspace ::
  "row_id \<Rightarrow> string \<Rightarrow> string \<Rightarrow> bool \<Rightarrow> string \<Rightarrow> member_store \<Rightarrow> pyerr + membership_view \<times> member_store" where
  "add_workspace new_id eid wid make_primary src S =
     rbind (managed_endpoint eid S) (\<lambda>e.
     case get_active_workspace (strip wid) (ms_workspaces S) of
       None \<Rightarrow> Inl (KeyError ''workspace_not_found'')
     | Some w \<Rightarrow>
         rbind (endpoint_membership_upsert new_id (ep_id e) (ws_id w) [] ''member''
                  (make_primary \<or> list_for_owner (ep_id e) False (ms_endpoint_members S) = []) True src None (ms_endpoint_members S))
           (\<lambda>(_, M). let p = sync_endpoint_scope e (S\<lparr>ms_endpoint_members := M\<rparr>)
                     in Inr (endpoint_view e (list_for_owner (ep_id e) False M) p)))"

definition remove_workspace :: "string \<Rightarrow> string \<Rightarrow> member_store \<Rightarrow> pyerr + membership_view \<times> member_store" where
  "remove_workspace eid wid S =
     rbind (managed_endpoint eid S) (\<lambda>e.
     case get_by_workspace_id (strip wid) (ms_workspaces S) of
       None \<Rightarrow> Inl (KeyError ''workspace_not_found'')
     | Some w \<Rightarrow>
         let rows = list_for_owner (ep_id e) False (ms_endpoint_members S) in
         if ws_id w \<notin> set (map mb_workspace_id rows) then Inr (endpoint_view e rows (sync_endpoint_scope e S))
         else if length rows \<le> 1 then Inl (ValueError ''endpoint_last_workspace_membership'')
         else (let M = snd (mb_disable (ep_id e) (ws_id w) (ms_endpoint_members S))
               in Inr (endpoint_view e (list_for_owner (ep_id e) False M)
                         (sync_endpoint_scope e (S\<lparr>ms_endpoint_members := M\<rparr>)))))"

definition set_primary_workspace ::
  "row_id \<Rightarrow> string \<Rightarrow> string \<Rightarrow> member_store \<Rightarrow> pyerr + membership_view \<times> member_store" where
  "set_primary_workspace new_id eid wid S =
     rbind (managed_endpoint eid S) (\<lambda>e.
     case get_active_workspace (strip wid) (ms_workspaces S) of
       None \<Rightarrow> Inl (KeyError ''workspace_not_found'')
     | Some w \<Rightarrow>
         rbind (endpoint_membership_upsert new_id (ep_id e) (ws_id w) [] ''member'' True True ''core'' None (ms_endpoint_members S))
           (\<lambda>(_, M). Inr (endpoint_view e (list_for_owner (ep_id e) False M)
                            (sync_endpoint_scope e (S\<lparr>ms_endpoint_members := M\<rparr>)))))"

section \<open>Workspaces of addresses\<close>

definition synced_address :: "workspace list \<Rightarrow> membership list \<Rightarrow> address \<Rightarrow> address" where
  "synced_address W M a =
     (let rows = list_for_address (ad_id a) False M
      in a\<lparr>ad_workspace_scope := public_workspace_ids W rows, ad_meta := scope_meta W rows (ad_meta a)\<rparr>)"

definition sync_address_scope :: "address \<Rightarrow> member_store \<Rightarrow> string list \<times> member_store" where
  "sync_address_scope a S =
     (let a' = synced_address (ms_workspaces S) (ms_address_members S) a
      in (ad_workspace_scope a', S\<lparr>ms_addresses := tbl_upd ad_id (ad_id a) (\<lambda>_. a') (ms_addresses S)\<rparr>))"

definition seed_address_workspaces :: "address \<Rightarrow> string list \<Rightarrow> member_store \<Rightarrow> workspace list" where
  "seed_address_workspaces a requested S =
     (let ws = active_workspaces requested (ms_workspaces S)
      in if ws = []
         then active_workspaces (string_list (map PStr (case get_endpoint_by_id (ad_endpoint_id a) (ms_endpoints S) of
                Some e \<Rightarrow> ep_workspace_scope e | None \<Rightarrow> []))) (ms_workspaces S)
         else ws)"

definition seed_address_memberships ::
  "(nat \<Rightarrow> row_id) \<Rightarrow> row_id \<Rightarrow> pyval list \<Rightarrow> string \<Rightarrow> member_store \<Rightarrow> pyerr + string list \<times> member_store" where
  "seed_address_memberships ids row workspace_ids src S =
     (let requested = string_list workspace_ids in
      case get_address_by_id row (ms_addresses S) of
        None \<Rightarrow> Inr ([], S)
      | Some a \<Rightarrow>
          if list_for_address (ad_id a) False (ms_address_members S) \<noteq> [] then Inr (sync_address_scope a S)
          else rbind (seed_rows ''eawm'' ids (ad_id a) src requested 0
                        (seed_address_workspaces a requested S) (ms_address_members S))
                 (\<lambda>M. Inr (sync_address_scope a (S\<lparr>ms_address_members := M\<rparr>))))"

definition address_view :: "address \<Rightarrow> membership list \<Rightarrow> string list \<times> member_store \<Rightarrow> membership_view \<times> member_store" where
  "address_view a rows p =
     (\<lparr>mv_public_id = ad_address_id a, mv_workspace_ids = fst p,
       mv_primary_workspace_id = primary_workspace_id (ms_workspaces (snd p)) rows\<rparr>, snd p)"

definition managed_address :: "string \<Rightarrow> member_store \<Rightarrow> pyerr + address" where
  "managed_address aid S =
     (case get_by_address_id (strip aid) (ms_addresses S) of
        None \<Rightarrow> Inl (KeyError ''address_not_found'')
      | Some a \<Rightarrow> Inr a)"

definition address_add_workspace ::
  "row_id \<Rightarrow> string \<Rightarrow> string \<Rightarrow> bool \<Rightarrow> string \<Rightarrow> member_store \<Rightarrow> pyerr + membership_view \<times> member_store" where
  "address_add_workspace new_id aid wid make_primary src S =
     rbind (managed_address aid S) (\<lambda>a.
     case get_active_workspace (strip wid) (ms_workspaces S) of
       None \<Rightarrow> Inl (KeyError ''workspace_not_found'')
     | Some w \<Rightarrow>
         rbind (address_membership_upsert new_id (ad_id a) (ws_id w) [] ''member''
                  (make_primary \<or> list_for_address (ad_id a) False (ms_address_members S) = []) True src None (ms_address_members S))
           (\<lambda>(_, M). let p = sync_address_scope a (S\<lparr>ms_address_members := M\<rparr>)
                     in Inr (address_view a (list_for_address (ad_id a) False M) p)))"

definition address_remove_workspace :: "string \<Rightarrow> string \<Rightarrow> member_store \<Rightarrow> pyerr + membership_view \<times> member_store" where
  "address_remove_workspace aid wid S =
     rbind (managed_address aid S) (\<lambda>a.
     case get_by_workspace_id (strip wid) (ms_workspaces S) of
       None \<Rightarrow> Inl (KeyError ''workspace_not_found'')
     | Some w \<Rightarrow>
         let rows = list_for_address (ad_id a) False (ms_address_members S) in
         if ws_id w \<notin> set (map mb_workspace_id rows) then Inr (address_view a rows (sync_address_scope a S))
         else if length rows \<le> 1 then Inl (ValueError ''address_last_workspace_membership'')
         else (let M = snd (address_membership_disable (ad_id a) (ws_id w) (ms_address_members S))
               in Inr (address_view a (list_for_address (ad_id a) False M)
                         (sync_address_scope a (S\<lparr>ms_address_members := M\<rparr>)))))"

definition address_set_primary_workspace ::
  "row_id \<Rightarrow> string \<Rightarrow> string \<Rightarrow> member_store \<Rightarrow> pyerr + membership_view \<times> member_store" where
  "address_set_primary_workspace new_id aid wid S =
     rbind (managed_address aid S) (\<lambda>a.
     case get_active_workspace (strip wid) (ms_workspaces S) of
       None \<Rightarrow> Inl (KeyError ''workspace_not_found'')
     | Some w \<Rightarrow>
         rbind (address_membership_upsert new_id (ad_id a) (ws_id w) [] ''member'' True True ''core'' None (ms_address_members S))
           (\<lambda>(_, M). Inr (address_view a (list_for_address (ad_id a) False M)
                            (sync_address_scope a (S\<lparr>ms_address_members := M\<rparr>)))))"

section \<open>Scopes\<close>

definition rows_of :: "row_id \<Rightarrow> membership list \<Rightarrow> membership list" where
  "rows_of own M = filter (\<lambda>r. mb_owner r = own) M"

text \<open>The workspaces an owner may be used in: the contract of the service is about this set.\<close>

definition scope_of :: "row_id \<Rightarrow> membership list \<Rightarrow> row_id set" where
  "scope_of own M = mb_workspace_id ` {r \<in> set M. mb_owner r = own \<and> mb_enabled r}"

datatype scope_change = Include row_id | Exclude row_id

fun change_scope :: "scope_change \<Rightarrow> row_id set \<Rightarrow> row_id set option" where
  "change_scope (Include w) A = Some (insert w A)"
| "change_scope (Exclude w) A = (if w \<notin> A then Some A else if A = {w} then None else Some (A - {w}))"

lemma scope_of_rows: "rows_of own M = rows_of own M' \<Longrightarrow> scope_of own M = scope_of own M'"
proof -
  have "scope_of own N = mb_workspace_id ` {r \<in> set (rows_of own N). mb_enabled r}" for N
    by (auto simp: scope_of_def rows_of_def)
  then show "rows_of own M = rows_of own M' \<Longrightarrow> scope_of own M = scope_of own M'" by simp
qed

lemma scope_of_simps [simp]:
  "scope_of own [] = {}"
  "scope_of own (r # M) = (if mb_owner r = own \<and> mb_enabled r then insert (mb_workspace_id r) (scope_of own M) else scope_of own M)"
  "scope_of own (M @ N) = scope_of own M \<union> scope_of own N"
  by (auto simp: scope_of_def)

lemma set_list_for_owner: "set (list_for_owner own False M) = {r \<in> set M. mb_owner r = own \<and> mb_enabled r}"
  by (auto simp: list_for_owner_def)

lemma scope_of_list: "scope_of own M = set (map mb_workspace_id (list_for_owner own False M))"
  by (simp add: scope_of_def set_list_for_owner)

lemma list_for_owner_Nil: "list_for_owner own False M = [] \<longleftrightarrow> scope_of own M = {}"
  by (simp add: scope_of_list)

lemma rows_of_upd:
  "(\<And>r. r \<in> set M \<Longrightarrow> mb_id r = k \<Longrightarrow> mb_owner r \<noteq> own \<and> mb_owner (f r) \<noteq> own) \<Longrightarrow>
   rows_of own (tbl_upd mb_id k f M) = rows_of own M"
  by (induction M) (auto simp: rows_of_def tbl_upd_def)

lemma scope_of_map:
  "(\<And>r. mb_owner (f r) = mb_owner r \<and> mb_enabled (f r) = mb_enabled r \<and> mb_workspace_id (f r) = mb_workspace_id r)
   \<Longrightarrow> scope_of own (map f M) = scope_of own M"
  by (induction M) simp_all

lemma scope_of_clear [simp]: "scope_of o' (clear_other_primary own keep M) = scope_of o' M"
  unfolding clear_other_primary_def by (rule scope_of_map) simp

lemma scope_of_disable:
  "(\<And>x. x \<in> set M \<Longrightarrow> mb_id x = k \<longleftrightarrow> mb_owner x = own \<and> mb_workspace_id x = ws) \<Longrightarrow> (\<And>r. \<not> mb_enabled (f r))
   \<Longrightarrow> scope_of own (tbl_upd mb_id k f M) = scope_of own M - {ws}"
proof (induction M)
  case (Cons x M)
  then have "scope_of own (tbl_upd mb_id k f M) = scope_of own M - {ws}" by simp
  moreover have "mb_id x = k \<longleftrightarrow> mb_owner x = own \<and> mb_workspace_id x = ws" using Cons.prems(1) by simp
  ultimately show ?case using Cons.prems(2) [of x] by (cases "mb_id x = k") (auto simp: tbl_upd_def)
qed (simp add: tbl_upd_def)

lemma rows_of_clear: "o' \<noteq> own \<Longrightarrow> rows_of o' (clear_other_primary own keep M) = rows_of o' M"
  by (induction M) (auto simp: rows_of_def clear_other_primary_def)

lemma same_membership:
  "unique_rows mb_clash M \<Longrightarrow> r \<in> set M \<Longrightarrow> x \<in> set M \<Longrightarrow> mb_id x = mb_id r \<Longrightarrow> x = r"
  by (rule mb.unique_eq) (simp_all add: mb_clash_def)

lemma upsert_scope:
  assumes u: "unique_rows mb_clash M"
    and up: "mb_upsert prefix i own ws mid role prim True src md M = Inr (r, M')"
  shows "unique_rows mb_clash M'" "scope_of own M' = insert ws (scope_of own M)"
    "o' \<noteq> own \<Longrightarrow> rows_of o' M' = rows_of o' M"
proof -
  obtain M1 where M1: "M' = (if prim then clear_other_primary own ws M1 else M1)"
    and T1: "(case mb_get own ws M of
        None \<Rightarrow> insert_row mb_clash ''workspace_memberships'' (new_membership prefix i own ws mid role prim True src md) M
      | Some row \<Rightarrow> replace_row mb_id mb_clash ''workspace_memberships'' row (updated_membership role prim True src md row) M)
      = Inr (r, M1)"
    using up by (auto simp: mb_upsert_def rbind_def split: sum.splits)
  have "unique_rows mb_clash M1 \<and> scope_of own M1 = insert ws (scope_of own M) \<and> (o' \<noteq> own \<longrightarrow> rows_of o' M1 = rows_of o' M)"
  proof (cases "mb_get own ws M")
    case None
    let ?new = "new_membership prefix i own ws mid role prim True src md"
    from None T1 have "unique_rows mb_clash M1" "M1 = M @ [?new]" using mb.insert_ok [OF _ u] by auto
    then show ?thesis by (simp add: rows_of_def new_membership_def)
  next
    case (Some row)
    let ?new = "updated_membership role prim True src md row"
    have row: "row \<in> set M" "mb_owner row = own" "mb_workspace_id row = ws" using mb_getD [OF Some] by simp_all
    have n: "mb_id ?new = mb_id row" "mb_owner ?new = own" "mb_workspace_id ?new = ws" "mb_enabled ?new"
      using row by (simp_all add: updated_membership_def)
    from Some T1 have rep: "replace_row mb_id mb_clash ''workspace_memberships'' row ?new M = Inr (r, M1)" by simp
    then have M1_eq: "M1 = tbl_upd mb_id (mb_id row) (\<lambda>_. ?new) M" by (auto simp: replace_row_def split: if_splits)
    have R: "unique_rows mb_clash M1" "set M1 = insert ?new {x \<in> set M. mb_id x \<noteq> mb_id row}"
      using mb.replace_ok [OF rep u n(1) row(1)] by simp_all
    have "scope_of own M1 = insert ws (scope_of own M)"
    proof -
      have "x \<in> set M \<Longrightarrow> mb_id x = mb_id row \<Longrightarrow> mb_workspace_id x = ws" for x
        using same_membership [OF u row(1)] row(3) by blast
      then show ?thesis unfolding scope_of_def R(2) using n by (auto simp: image_iff)
    qed
    moreover have "o' \<noteq> own \<longrightarrow> rows_of o' M1 = rows_of o' M"
      unfolding M1_eq using same_membership [OF u row(1)] row(2) n(2) by (intro impI rows_of_upd) auto
    ultimately show ?thesis using R(1) by simp
  qed
  then show "unique_rows mb_clash M'" "scope_of own M' = insert ws (scope_of own M)"
    "o' \<noteq> own \<Longrightarrow> rows_of o' M' = rows_of o' M"
    unfolding M1 by (simp_all add: unique_clear rows_of_clear)
qed

lemma disable_scope:
  assumes u: "unique_rows mb_clash M"
  shows "unique_rows mb_clash (snd (mb_disable own ws M))"
    "scope_of own (snd (mb_disable own ws M)) = scope_of own M - {ws}"
    "o' \<noteq> own \<Longrightarrow> rows_of o' (snd (mb_disable own ws M)) = rows_of o' M"
proof -
  let ?M' = "snd (mb_disable own ws M)"
  have "unique_rows mb_clash ?M' \<and> scope_of own ?M' = scope_of own M - {ws} \<and> (o' \<noteq> own \<longrightarrow> rows_of o' ?M' = rows_of o' M)"
  proof (cases "mb_get own ws M")
    case None
    then have "ws \<notin> scope_of own M" by (auto simp: mb_get_def tbl_get_None scope_of_def)
    with None u show ?thesis by (simp add: mb_disable_def)
  next
    case (Some row)
    have row: "row \<in> set M" "mb_owner row = own" "mb_workspace_id row = ws" using mb_getD [OF Some] by simp_all
    have pair: "x = row" if "x \<in> set M" "mb_owner x = own" "mb_workspace_id x = ws" for x
      using mb.unique_eq [OF u that(1) row(1)] that row by (simp add: mb_clash_def)
    show ?thesis
    proof (cases "mb_enabled row")
      case False
      then have "ws \<notin> scope_of own M" using pair by (auto simp: scope_of_def)
      with False Some u show ?thesis by (simp add: mb_disable_def)
    next
      case True
      let ?f = "\<lambda>r. r\<lparr>mb_enabled := False, mb_is_primary := False\<rparr>"
      let ?M1 = "tbl_upd mb_id (mb_id row) ?f M"
      let ?p = "\<lambda>i. tbl_upd mb_id i (\<lambda>r. r\<lparr>mb_is_primary := True\<rparr>)"
      have u1: "unique_rows mb_clash ?M1" by (rule unique_upd [OF u]) simp
      have s1: "scope_of own ?M1 = scope_of own M - {ws}"
      proof (rule scope_of_disable)
        fix x
        assume x: "x \<in> set M"
        show "mb_id x = mb_id row \<longleftrightarrow> mb_owner x = own \<and> mb_workspace_id x = ws"
        proof
          assume "mb_id x = mb_id row"
          then have "x = row" by (rule same_membership [OF u row(1) x])
          then show "mb_owner x = own \<and> mb_workspace_id x = ws" using row by simp
        next
          assume "mb_owner x = own \<and> mb_workspace_id x = ws"
          then have "x = row" using pair [OF x] by simp
          then show "mb_id x = mb_id row" by simp
        qed
      qed simp
      have r1: "rows_of o' ?M1 = rows_of o' M" if "o' \<noteq> own"
      proof (rule rows_of_upd)
        fix r
        assume "r \<in> set M" "mb_id r = mb_id row"
        then have "r = row" by (rule same_membership [OF u row(1)])
        then show "mb_owner r \<noteq> o' \<and> mb_owner (?f r) \<noteq> o'" using row(2) that by simp
      qed
      have sp: "scope_of own (?p i ?M1) = scope_of own ?M1" for i
        unfolding tbl_upd_def [of mb_id i] by (rule scope_of_map) simp
      have rp: "rows_of o' (?p i ?M1) = rows_of o' ?M1"
        if i: "i \<in> mb_id ` set (list_for_owner own False M)" "o' \<noteq> own" for i
      proof (rule rows_of_upd)
        fix r
        assume r: "r \<in> set ?M1" "mb_id r = i"
        obtain q where q: "q \<in> set M" "mb_owner q = own" "mb_id q = i" using i(1) by (auto simp: set_list_for_owner)
        obtain r0 where "r0 \<in> set M" "mb_id r0 = mb_id r" "mb_owner r0 = mb_owner r"
          using r(1) by (auto simp: tbl_upd_def)
        then have "mb_owner r = own" using same_membership [OF u q(1)] q r(2) by metis
        then show "mb_owner r \<noteq> o' \<and> mb_owner (r\<lparr>mb_is_primary := True\<rparr>) \<noteq> o'" using i(2) by simp
      qed
      have "?M' = ?M1 \<or> (\<exists>i \<in> mb_id ` set (list_for_owner own False M). ?M' = ?p i ?M1)"
        using Some True by (auto simp: mb_disable_def promote_first_enabled_def Let_def split: list.splits)
      then show ?thesis
      proof
        assume "?M' = ?M1"
        then show ?thesis using u1 s1 r1 by simp
      next
        assume "\<exists>i \<in> mb_id ` set (list_for_owner own False M). ?M' = ?p i ?M1"
        then obtain i where "i \<in> mb_id ` set (list_for_owner own False M)" "?M' = ?p i ?M1" by blast
        then show ?thesis using unique_upd [OF u1] s1 sp r1 rp by simp
      qed
    qed
  qed
  then show "unique_rows mb_clash ?M'" "scope_of own ?M' = scope_of own M - {ws}"
    "o' \<noteq> own \<Longrightarrow> rows_of o' ?M' = rows_of o' M" by blast+
qed

lemma seed_rows_effect:
  assumes "seed_rows prefix ids own src req n ws M = Inr M'" and "unique_rows mb_clash M"
  shows "unique_rows mb_clash M' \<and> scope_of own M' = scope_of own M \<union> ws_id ` set ws
    \<and> (o' \<noteq> own \<longrightarrow> rows_of o' M' = rows_of o' M)"
  using assms
proof (induction ws arbitrary: n M)
  case (Cons w ws)
  then obtain r M1 where up: "mb_upsert prefix (ids n) own (ws_id w) [] ''member'' (n = 0) True src
        (Some [(''seeded_from_workspace_ids'', PList (map PStr req))]) M = Inr (r, M1)"
    and rest: "seed_rows prefix ids own src req (Suc n) ws M1 = Inr M'"
    by (auto simp: rbind_def split: sum.splits)
  note eff = upsert_scope [OF Cons.prems(2) up]
  from Cons.IH [OF rest eff(1)] eff(2,3) show ?case by auto
qed simp

text \<open>An upsert succeeds unless its new keys are taken.\<close>

lemma upsert_succeeds:
  assumes u: "unique_rows mb_clash M"
    and fresh: "mb_get own ws M = None \<Longrightarrow> list_all (\<lambda>r. mb_id r \<noteq> i \<and> mb_membership_id r \<noteq> strip (prefix @ ''.'' @ own @ ''.'' @ ws)) M"
  shows "\<exists>r M'. mb_upsert prefix i own ws [] role prim True src md M = Inr (r, M')"
proof (cases "mb_get own ws M")
  case None
  then have "(own, ws) \<notin> (\<lambda>r. (mb_owner r, mb_workspace_id r)) ` set M" by (simp add: mb_get_def tbl_get_None)
  with fresh [OF None] have "\<not> list_ex (mb_clash (new_membership prefix i own ws [] role prim True src md)) M"
    by (auto simp: list_ex_iff list_all_iff mb_clash_def new_membership_def or_str_def image_iff)
  with None show ?thesis by (simp add: mb_upsert_def insert_row_def rbind_def)
next
  case (Some row)
  then have row: "row \<in> set M" by (simp add: mb_getD)
  let ?new = "updated_membership role prim True src md row"
  have "mb_clash ?new r \<longleftrightarrow> mb_clash row r" for r by (simp add: mb_clash_def updated_membership_def)
  then have "\<not> list_ex (\<lambda>r. mb_id r \<noteq> mb_id row \<and> mb_clash ?new r) M"
    using mb.unique_eq [OF u row] by (auto simp: list_ex_iff)
  with Some show ?thesis by (simp add: mb_upsert_def replace_row_def rbind_def)
qed

section \<open>The services keep their contract\<close>

lemma public_ids_scope:
  "set (public_workspace_ids W (list_for_owner own False M)) = workspace_public W ` scope_of own M - {[]}"
  by (simp add: public_workspace_ids_def set_dedup_nonempty image_image scope_of_list)

lemma sync_simps [simp]:
  "ms_endpoint_members (snd (sync_endpoint_scope e S)) = ms_endpoint_members S"
  "ms_address_members (snd (sync_endpoint_scope e S)) = ms_address_members S"
  "ms_workspaces (snd (sync_endpoint_scope e S)) = ms_workspaces S"
  "ms_addresses (snd (sync_endpoint_scope e S)) = ms_addresses S"
  "fst (sync_endpoint_scope e S) = public_workspace_ids (ms_workspaces S) (list_for_owner (ep_id e) False (ms_endpoint_members S))"
  "ms_endpoint_members (snd (sync_address_scope a S)) = ms_endpoint_members S"
  "ms_address_members (snd (sync_address_scope a S)) = ms_address_members S"
  "ms_workspaces (snd (sync_address_scope a S)) = ms_workspaces S"
  "ms_endpoints (snd (sync_address_scope a S)) = ms_endpoints S"
  "fst (sync_address_scope a S) = public_workspace_ids (ms_workspaces S) (list_for_owner (ad_id a) False (ms_address_members S))"
  by (simp_all add: sync_endpoint_scope_def sync_address_scope_def synced_endpoint_def synced_address_def Let_def list_for_address_def)

lemma view_simps [simp]:
  "snd (endpoint_view e rows p) = snd p" "mv_workspace_ids (fst (endpoint_view e rows p)) = fst p"
  "mv_primary_workspace_id (fst (endpoint_view e rows p)) = primary_workspace_id (ms_workspaces (snd p)) rows"
  "snd (address_view a rows p) = snd p" "mv_workspace_ids (fst (address_view a rows p)) = fst p"
  "mv_primary_workspace_id (fst (address_view a rows p)) = primary_workspace_id (ms_workspaces (snd p)) rows"
  by (simp_all add: endpoint_view_def address_view_def)

interpretation synced: row_op ep_id "synced_endpoint W M"
  by unfold_locales (simp add: synced_endpoint_def Let_def)

lemma get_synced:
  assumes "get_endpoint_by_id (ep_id e) (ms_endpoints S) = Some e"
  shows "get_endpoint_by_id (ep_id e) (ms_endpoints (snd (sync_endpoint_scope e S)))
    = Some (synced_endpoint (ms_workspaces S) (ms_endpoint_members S) e)"
proof -
  have k: "ep_id (synced_endpoint W M e) = ep_id e" for W M by (rule synced.key_f)
  have "tbl_get ep_id (ep_id e) (tbl_upd ep_id (ep_id e) (\<lambda>_. synced_endpoint W M e) T) =
      map_option (\<lambda>_. synced_endpoint W M e) (tbl_get ep_id (ep_id e) T)" for W M T
    by (induction T) (auto simp: tbl_upd_def k)
  with assms show ?thesis by (simp add: sync_endpoint_scope_def get_endpoint_by_id_def Let_def)
qed

lemma sync_others:
  "map ep_id (ms_endpoints (snd (sync_endpoint_scope e S))) = map ep_id (ms_endpoints S)"
  "filter (\<lambda>x. ep_id x \<noteq> ep_id e) (ms_endpoints (snd (sync_endpoint_scope e S)))
     = filter (\<lambda>x. ep_id x \<noteq> ep_id e) (ms_endpoints S)"
proof -
  have k: "ep_id (synced_endpoint W M e) = ep_id e" for W M by (rule synced.key_f)
  have "map ep_id (tbl_upd ep_id (ep_id e) (\<lambda>_. synced_endpoint W M e) T) = map ep_id T
    \<and> filter (\<lambda>x. ep_id x \<noteq> ep_id e) (tbl_upd ep_id (ep_id e) (\<lambda>_. synced_endpoint W M e) T)
      = filter (\<lambda>x. ep_id x \<noteq> ep_id e) T" for W M T
    by (induction T) (auto simp: tbl_upd_def k)
  then show "map ep_id (ms_endpoints (snd (sync_endpoint_scope e S))) = map ep_id (ms_endpoints S)"
    "filter (\<lambda>x. ep_id x \<noteq> ep_id e) (ms_endpoints (snd (sync_endpoint_scope e S)))
     = filter (\<lambda>x. ep_id x \<noteq> ep_id e) (ms_endpoints S)"
    by (simp_all add: sync_endpoint_scope_def Let_def)
qed

text \<open>
  What is not the business of an operation on the endpoint \<open>e\<close>: the workspaces, the addresses and
  their memberships, the rows of the other endpoints and the memberships of the other endpoints.
\<close>

definition rest_unchanged :: "endpoint \<Rightarrow> member_store \<Rightarrow> member_store \<Rightarrow> bool" where
  "rest_unchanged e S S' \<longleftrightarrow>
     ms_workspaces S' = ms_workspaces S \<and> ms_addresses S' = ms_addresses S
   \<and> ms_address_members S' = ms_address_members S
   \<and> map ep_id (ms_endpoints S') = map ep_id (ms_endpoints S)
   \<and> filter (\<lambda>x. ep_id x \<noteq> ep_id e) (ms_endpoints S') = filter (\<lambda>x. ep_id x \<noteq> ep_id e) (ms_endpoints S)
   \<and> (\<forall>o'. o' \<noteq> ep_id e \<longrightarrow> rows_of o' (ms_endpoint_members S') = rows_of o' (ms_endpoint_members S))"

text \<open>
  What an operation on the endpoint \<open>e\<close> owes: it performs the change on the scope of \<open>e\<close> if the
  abstract change is possible and refuses it otherwise, it leaves everything else as it was, and
  afterwards the scope in the row of \<open>e\<close> and the answer agree with the memberships.
\<close>

definition scope_refines ::
  "endpoint \<Rightarrow> scope_change \<Rightarrow> member_store \<Rightarrow> pyerr + membership_view \<times> member_store \<Rightarrow> bool" where
  "scope_refines e ch S result =
     (case change_scope ch (scope_of (ep_id e) (ms_endpoint_members S)) of
        None \<Rightarrow> result = Inl (ValueError ''endpoint_last_workspace_membership'')
      | Some A \<Rightarrow>
         (case result of
            Inl _ \<Rightarrow> False
          | Inr (v, S') \<Rightarrow>
              scope_of (ep_id e) (ms_endpoint_members S') = A
              \<and> rest_unchanged e S S'
              \<and> get_endpoint_by_id (ep_id e) (ms_endpoints S')
                  = Some (synced_endpoint (ms_workspaces S) (ms_endpoint_members S') e)
              \<and> set (mv_workspace_ids v) = workspace_public (ms_workspaces S) ` A - {[]}))"

lemma length_list_for_owner:
  assumes u: "unique_rows mb_clash M"
  shows "length (list_for_owner own False M) = card (scope_of own M)"
proof -
  have d: "distinct (map (\<lambda>r. (mb_owner r, mb_workspace_id r)) M)" by (rule mb_pair.unique_keys [OF u])
  let ?P = "\<lambda>r. mb_owner r = own \<and> (False \<or> mb_enabled r)"
  have "inj_on mb_workspace_id (set (filter ?P M))"
    using d by (auto simp: distinct_map inj_on_def)
  then have "distinct (map mb_workspace_id (filter ?P M))"
    using d by (simp add: distinct_map)
  then have "distinct (map mb_workspace_id (list_for_owner own False M))"
    by (simp add: list_for_owner_def distinct_map)
  then have "card (set (map mb_workspace_id (list_for_owner own False M))) = length (list_for_owner own False M)"
    using distinct_card by fastforce
  then show ?thesis unfolding scope_of_list by simp
qed

lemma last_scope:
  assumes "unique_rows mb_clash M" and "w \<in> scope_of own M"
  shows "length (list_for_owner own False M) \<le> 1 \<longleftrightarrow> scope_of own M = {w}"
proof -
  let ?A = "scope_of own M"
  have "finite ?A" by (simp add: scope_of_list)
  then have "card ?A \<le> Suc 0 \<longleftrightarrow> (\<forall>x \<in> ?A. \<forall>y \<in> ?A. x = y)" by (rule card_le_Suc0_iff_eq)
  also have "\<dots> \<longleftrightarrow> ?A = {w}"
  proof
    assume all: "\<forall>x \<in> ?A. \<forall>y \<in> ?A. x = y"
    have "?A \<subseteq> {w}"
    proof
      fix x
      assume x: "x \<in> ?A"
      have "x = w" by (rule all [THEN bspec, OF x, THEN bspec, OF assms(2)])
      then show "x \<in> {w}" by simp
    qed
    then show "?A = {w}" using assms(2) unfolding subset_singleton_iff by (metis empty_iff)
  qed simp
  finally show ?thesis using length_list_for_owner [OF assms(1), of own] by simp
qed

lemma managed_endpointD:
  assumes "managed_endpoint eid S = Inr e" and "unique_rows ep_clash (ms_endpoints S)"
  shows "get_endpoint_by_id (ep_id e) (ms_endpoints S) = Some e" "\<not> endpoint_is_core e"
proof -
  from assms(1) have "get_by_endpoint_id (strip eid) (ms_endpoints S) = Some e" and c: "\<not> endpoint_is_core e"
    by (auto simp: managed_endpoint_def split: option.splits if_splits)
  then have "e \<in> set (ms_endpoints S)" by (simp add: get_by_endpoint_idD)
  from ep.get_mem [OF assms(2) this] show "get_endpoint_by_id (ep_id e) (ms_endpoints S) = Some e"
    by (simp add: get_endpoint_by_id_def)
  from c show "\<not> endpoint_is_core e" .
qed

text \<open>Both operations that enable a membership are an upsert followed by the synchronisation.\<close>

lemma include_refines:
  assumes up: "mb_upsert ''ewm'' i (ep_id e) w [] ''member'' prim True src None (ms_endpoint_members S) = Inr (r, M)"
    and u: "unique_rows mb_clash (ms_endpoint_members S)"
    and e: "get_endpoint_by_id (ep_id e) (ms_endpoints S) = Some e"
  shows "scope_refines e (Include w) S
    (Inr (endpoint_view e (list_for_owner (ep_id e) False M) (sync_endpoint_scope e (S\<lparr>ms_endpoint_members := M\<rparr>))))"
proof -
  note eff = upsert_scope [OF u up]
  have "get_endpoint_by_id (ep_id e) (ms_endpoints (S\<lparr>ms_endpoint_members := M\<rparr>)) = Some e" using e by simp
  from get_synced [OF this] eff(2,3) show ?thesis
    by (simp add: scope_refines_def rest_unchanged_def sync_others public_ids_scope case_prod_beta)
qed

lemma remove_refines:
  assumes m: "managed_endpoint eid S = Inr e" and w: "get_by_workspace_id (strip wid) (ms_workspaces S) = Some w"
    and u: "unique_rows mb_clash (ms_endpoint_members S)" and ue: "unique_rows ep_clash (ms_endpoints S)"
  shows "scope_refines e (Exclude (ws_id w)) S (remove_workspace eid wid S)"
proof -
  let ?M = "ms_endpoint_members S" and ?rows = "list_for_owner (ep_id e) False (ms_endpoint_members S)"
  note e = managed_endpointD(1) [OF m ue]
  show ?thesis
  proof (cases "ws_id w \<in> scope_of (ep_id e) ?M")
    case False
    then have "remove_workspace eid wid S = Inr (endpoint_view e ?rows (sync_endpoint_scope e S))"
      using m w by (simp add: remove_workspace_def rbind_def scope_of_list)
    with False get_synced [OF e] show ?thesis
      by (simp add: scope_refines_def rest_unchanged_def sync_others public_ids_scope case_prod_beta)
  next
    case True
    then have mem: "ws_id w \<in> set (map mb_workspace_id ?rows)" by (simp add: scope_of_list)
    show ?thesis
    proof (cases "scope_of (ep_id e) ?M = {ws_id w}")
      case one: True
      then have "length ?rows \<le> 1" using last_scope [OF u True] by simp
      then have "remove_workspace eid wid S = Inl (ValueError ''endpoint_last_workspace_membership'')"
        using m w mem by (simp add: remove_workspace_def rbind_def)
      with one show ?thesis by (simp add: scope_refines_def)
    next
      case more: False
      let ?M' = "snd (mb_disable (ep_id e) (ws_id w) ?M)"
      have "\<not> length ?rows \<le> 1" using last_scope [OF u True] more by simp
      then have r: "remove_workspace eid wid S = Inr (endpoint_view e (list_for_owner (ep_id e) False ?M')
          (sync_endpoint_scope e (S\<lparr>ms_endpoint_members := ?M'\<rparr>)))"
        using m w mem by (simp add: remove_workspace_def rbind_def Let_def)
      have "get_endpoint_by_id (ep_id e) (ms_endpoints (S\<lparr>ms_endpoint_members := ?M'\<rparr>)) = Some e" using e by simp
      from get_synced [OF this] disable_scope [OF u, where own = "ep_id e" and ws = "ws_id w"] True more show ?thesis
        by (simp add: r scope_refines_def rest_unchanged_def sync_others public_ids_scope case_prod_beta)
    qed
  qed
qed

text \<open>(C28)
  The membership service implements sets of workspaces: seen through the set of workspaces an
  endpoint may be used in, adding a workspace and making one primary insert it, removing one
  deletes it, and removing the last one is refused. No operation touches the workspaces, the
  addresses and their memberships, or another endpoint and its memberships, and after each the
  \<open>workspace_scope\<close> and the metadata of the endpoint, which the tool router reads, agree with its
  memberships. The endpoint is not the core's, the workspace is active, and the keys drawn for a
  new membership are fresh.
\<close>

theorem membership_service_refines_scopes:
  assumes m: "managed_endpoint eid S = Inr e"
    and w: "get_active_workspace (strip wid) (ms_workspaces S) = Some w"
    and u: "unique_rows mb_clash (ms_endpoint_members S)" "unique_rows ep_clash (ms_endpoints S)"
    and fresh: "list_all (\<lambda>r. mb_id r \<noteq> i \<and> mb_membership_id r \<noteq> strip (''ewm.'' @ ep_id e @ ''.'' @ ws_id w))
        (filter (\<lambda>r. (mb_owner r, mb_workspace_id r) \<noteq> (ep_id e, ws_id w)) (ms_endpoint_members S))"
  shows "scope_refines e (Include (ws_id w)) S (add_workspace i eid wid prim src S)
    \<and> scope_refines e (Include (ws_id w)) S (set_primary_workspace i eid wid S)
    \<and> scope_refines e (Exclude (ws_id w)) S (remove_workspace eid wid S)"
proof -
  let ?M = "ms_endpoint_members S"
  note e = managed_endpointD(1) [OF m u(2)]
  have "mb_get (ep_id e) (ws_id w) ?M = None \<Longrightarrow>
      filter (\<lambda>r. (mb_owner r, mb_workspace_id r) \<noteq> (ep_id e, ws_id w)) ?M = ?M"
    by (auto simp: mb_get_def tbl_get_None filter_id_conv image_iff)
  then have up: "\<exists>r M'. mb_upsert ''ewm'' i (ep_id e) (ws_id w) [] ''member'' p True s None ?M = Inr (r, M')" for p s
    using fresh by (intro upsert_succeeds [OF u(1)]) simp
  obtain r1 M1 where M1: "mb_upsert ''ewm'' i (ep_id e) (ws_id w) [] ''member''
      (prim \<or> list_for_owner (ep_id e) False ?M = []) True src None ?M = Inr (r1, M1)" using up by blast
  have A: "scope_refines e (Include (ws_id w)) S (add_workspace i eid wid prim src S)"
    using include_refines [OF M1 u(1) e] m w M1
    by (simp add: add_workspace_def rbind_def endpoint_membership_upsert_def Let_def)
  obtain r2 M2 where M2: "mb_upsert ''ewm'' i (ep_id e) (ws_id w) [] ''member'' True True ''core'' None ?M = Inr (r2, M2)"
    using up by blast
  have B: "scope_refines e (Include (ws_id w)) S (set_primary_workspace i eid wid S)"
    using include_refines [OF M2 u(1) e] m w M2
    by (simp add: set_primary_workspace_def rbind_def endpoint_membership_upsert_def)
  have "get_by_workspace_id (strip wid) (ms_workspaces S) = Some w"
    using w by (auto simp: get_active_workspace_def split: option.splits if_splits)
  from remove_refines [OF m this u] A B show ?thesis by blast
qed

definition example_store :: member_store where
  "example_store = \<lparr>
     ms_workspaces = map (\<lambda>(i, n). \<lparr>ws_id = i, ws_workspace_id = n, ws_principal_id = ''p'', ws_title = n, ws_description = [],
        ws_status = ''active'', ws_base_mode = ''general'', ws_prompt_overlay = [], ws_default_execution_target = ''core.local'', ws_meta = []\<rparr>)
        [(''w1'', ''personal''), (''w2'', ''work''), (''w3'', ''lab'')],
     ms_endpoints = [\<lparr>ep_id = ''e'', ep_endpoint_id = ''desk'', ep_endpoint_type = ''desktop'', ep_provider_type = ''desktop'',
        ep_transport_type = ''websocket'', ep_owner_actor_id = None, ep_workspace_scope = [], ep_status = ''active'',
        ep_labels = [], ep_priority = 100, ep_meta = []\<rparr>],
     ms_addresses = [], ms_endpoint_members = [], ms_address_members = []\<rparr>"

definition seeded_store :: member_store where
  "seeded_store = snd (projr (seed_endpoint_memberships (\<lambda>n. ''m'' @ nat_str n) ''e''
      [PStr ''work'', PStr '' lab '', PStr ''work'', PStr ''gone''] ''provider_declared'' ''personal'' example_store))"

theorem membership_service_refines_scopes_witness:
  "(let e = hd (ms_endpoints seeded_store) in
     scope_of ''e'' (ms_endpoint_members seeded_store) = {''w2'', ''w3''}
     \<and> scope_refines e (Exclude ''w2'') seeded_store (remove_workspace ''desk'' '' work'' seeded_store))"
proof -
  let ?e = "hd (ms_endpoints seeded_store)" and ?w = "ms_workspaces seeded_store ! 1"
  have s: "map (\<lambda>r. (mb_owner r, mb_workspace_id r, mb_enabled r)) (ms_endpoint_members seeded_store)
      = [(''e'', ''w2'', True), (''e'', ''w3'', True)]" by code_simp
  then have scope: "scope_of ''e'' (ms_endpoint_members seeded_store) = {''w2'', ''w3''}"
    by (cases "ms_endpoint_members seeded_store"; cases "tl (ms_endpoint_members seeded_store)") auto
  have m: "\<not> isl (managed_endpoint ''desk'' seeded_store)" "projr (managed_endpoint ''desk'' seeded_store) = ?e"
    and w: "get_active_workspace (strip '' work'') (ms_workspaces seeded_store) = Some ?w" "ws_id ?w = ''w2''"
    and u: "unique_rows mb_clash (ms_endpoint_members seeded_store)" "unique_rows ep_clash (ms_endpoints seeded_store)"
    and fresh: "list_all (\<lambda>r. mb_id r \<noteq> ''m9'' \<and> mb_membership_id r \<noteq> strip (''ewm.'' @ ep_id ?e @ ''.'' @ ws_id ?w))
        (filter (\<lambda>r. (mb_owner r, mb_workspace_id r) \<noteq> (ep_id ?e, ws_id ?w)) (ms_endpoint_members seeded_store))"
    by code_simp+
  from Inr_projr [OF m(1)] m(2) have "managed_endpoint ''desk'' seeded_store = Inr ?e" by simp
  from membership_service_refines_scopes [OF this w(1) u fresh] w(2) scope show ?thesis by (simp add: Let_def)
qed

section \<open>Sequences of operations\<close>

inductive member_step :: "member_store \<Rightarrow> member_store \<Rightarrow> bool" where
  seed: "seed_endpoint_memberships ids row wids src fb S = Inr (ws, S') \<Longrightarrow> member_step S S'"
| add: "add_workspace i eid wid prim src S = Inr (v, S') \<Longrightarrow> member_step S S'"
| remove: "remove_workspace eid wid S = Inr (v, S') \<Longrightarrow> member_step S S'"
| set_primary: "set_primary_workspace i eid wid S = Inr (v, S') \<Longrightarrow> member_step S S'"
| seed_address: "seed_address_memberships ids row wids src S = Inr (ws, S') \<Longrightarrow> member_step S S'"
| add_address: "address_add_workspace i aid wid prim src S = Inr (v, S') \<Longrightarrow> member_step S S'"
| remove_address: "address_remove_workspace aid wid S = Inr (v, S') \<Longrightarrow> member_step S S'"
| set_primary_address: "address_set_primary_workspace i aid wid S = Inr (v, S') \<Longrightarrow> member_step S S'"

definition ep_key :: "endpoint \<Rightarrow> row_id \<times> string \<times> string" where
  "ep_key e = (ep_id e, ep_endpoint_id e, ep_provider_type e)"

definition store_ok :: "member_store \<Rightarrow> bool" where
  "store_ok S \<longleftrightarrow> unique_rows mb_clash (ms_endpoint_members S) \<and> unique_rows ep_clash (ms_endpoints S)"

text \<open>What every operation keeps of the endpoints and their memberships.\<close>

definition keeps :: "member_store \<Rightarrow> member_store \<Rightarrow> bool" where
  "keeps S S' \<longleftrightarrow> map ep_key (ms_endpoints S') = map ep_key (ms_endpoints S) \<and> store_ok S'
     \<and> (\<forall>e \<in> set (ms_endpoints S). scope_of (ep_id e) (ms_endpoint_members S) \<noteq> {} \<longrightarrow>
          scope_of (ep_id e) (ms_endpoint_members S') \<noteq> {}
          \<and> (endpoint_is_core e \<longrightarrow> rows_of (ep_id e) (ms_endpoint_members S') = rows_of (ep_id e) (ms_endpoint_members S)))"

lemma unique_ep_key: "map ep_key E = map ep_key E' \<Longrightarrow> unique_rows ep_clash E = unique_rows ep_clash E'"
proof -
  have "unique_rows ep_clash E = sorted_wrt (\<lambda>a b. fst a \<noteq> fst b \<and> fst (snd a) \<noteq> fst (snd b)) (map ep_key E)" for E
    by (simp add: sorted_wrt_map ep_clash_def ep_key_def)
  then show "map ep_key E = map ep_key E' \<Longrightarrow> unique_rows ep_clash E = unique_rows ep_clash E'" by simp
qed

lemma keeps_same: "store_ok S \<Longrightarrow> ms_endpoints S' = ms_endpoints S \<Longrightarrow> ms_endpoint_members S' = ms_endpoint_members S \<Longrightarrow> keeps S S'"
  by (simp add: keeps_def store_ok_def)

text \<open>Synchronising the row of one endpoint after a change of its memberships.\<close>

lemma keeps_sync:
  assumes ok: "store_ok S" and e: "e \<in> set (ms_endpoints S)"
    and M: "unique_rows mb_clash M" "\<And>o'. o' \<noteq> ep_id e \<Longrightarrow> rows_of o' M = rows_of o' (ms_endpoint_members S)"
      "scope_of (ep_id e) (ms_endpoint_members S) \<noteq> {} \<Longrightarrow> scope_of (ep_id e) M \<noteq> {}"
      "endpoint_is_core e \<Longrightarrow> scope_of (ep_id e) (ms_endpoint_members S) \<noteq> {} \<Longrightarrow>
        rows_of (ep_id e) M = rows_of (ep_id e) (ms_endpoint_members S)"
  shows "keeps S (snd (sync_endpoint_scope e (S\<lparr>ms_endpoint_members := M\<rparr>)))"
proof -
  let ?e' = "synced_endpoint (ms_workspaces S) M e"
  have same: "x = e" if "x \<in> set (ms_endpoints S)" "ep_id x = ep_id e" for x
    using ep.unique_eq [of "ms_endpoints S" x e] ok that e by (simp add: store_ok_def ep_clash_def)
  have "ep_key ?e' = ep_key e" by (simp add: ep_key_def synced_endpoint_def Let_def)
  then have k: "map ep_key (tbl_upd ep_id (ep_id e) (\<lambda>_. ?e') (ms_endpoints S)) = map ep_key (ms_endpoints S)"
    using same by (auto simp: tbl_upd_def)
  have "scope_of (ep_id x) M \<noteq> {} \<and> (endpoint_is_core x \<longrightarrow> rows_of (ep_id x) M = rows_of (ep_id x) (ms_endpoint_members S))"
    if x: "x \<in> set (ms_endpoints S)" "scope_of (ep_id x) (ms_endpoint_members S) \<noteq> {}" for x
  proof (cases "ep_id x = ep_id e")
    case True
    then show ?thesis using same [OF x(1)] x(2) M(3,4) by simp
  next
    case False
    then show ?thesis using M(2) scope_of_rows x(2) by metis
  qed
  then show ?thesis using k ok M(1) unique_ep_key [OF k]
    by (simp add: keeps_def store_ok_def) (simp add: sync_endpoint_scope_def Let_def)
qed

lemma managed_endpoint_mem: "managed_endpoint eid S = Inr e \<Longrightarrow> e \<in> set (ms_endpoints S) \<and> \<not> endpoint_is_core e"
  by (auto simp: managed_endpoint_def get_by_endpoint_idD split: option.splits if_splits)

text \<open>The successful runs of the operations that enable a membership.\<close>

lemma add_workspaceD:
  assumes "add_workspace i eid wid prim src S = Inr (v, S')"
  shows "\<exists>e k p. managed_endpoint eid S = Inr e \<and> mb_upsert ''ewm'' i (ep_id e) k [] ''member''
      (prim \<or> list_for_owner (ep_id e) False (ms_endpoint_members S) = []) True src None (ms_endpoint_members S) = Inr p
    \<and> S' = snd (sync_endpoint_scope e (S\<lparr>ms_endpoint_members := snd p\<rparr>))"
proof -
  obtain e where e: "managed_endpoint eid S = Inr e"
    using assms by (cases "managed_endpoint eid S") (simp_all add: add_workspace_def rbind_def)
  obtain w where w: "get_active_workspace (strip wid) (ms_workspaces S) = Some w"
    using assms e by (cases "get_active_workspace (strip wid) (ms_workspaces S)") (simp_all add: add_workspace_def rbind_def)
  let ?up = "mb_upsert ''ewm'' i (ep_id e) (ws_id w) [] ''member''
      (prim \<or> list_for_owner (ep_id e) False (ms_endpoint_members S) = []) True src None (ms_endpoint_members S)"
  obtain p where p: "?up = Inr p"
    using assms e w by (cases ?up) (simp_all add: add_workspace_def rbind_def endpoint_membership_upsert_def)
  then have "S' = snd (sync_endpoint_scope e (S\<lparr>ms_endpoint_members := snd p\<rparr>))"
    using assms e w by (cases p) (simp add: add_workspace_def rbind_def endpoint_membership_upsert_def Let_def endpoint_view_def)
  with e p show ?thesis by blast
qed

lemma set_primary_workspaceD:
  assumes "set_primary_workspace i eid wid S = Inr (v, S')"
  shows "\<exists>e k p. managed_endpoint eid S = Inr e \<and> mb_upsert ''ewm'' i (ep_id e) k [] ''member''
      True True ''core'' None (ms_endpoint_members S) = Inr p
    \<and> S' = snd (sync_endpoint_scope e (S\<lparr>ms_endpoint_members := snd p\<rparr>))"
proof -
  obtain e where e: "managed_endpoint eid S = Inr e"
    using assms by (cases "managed_endpoint eid S") (simp_all add: set_primary_workspace_def rbind_def)
  obtain w where w: "get_active_workspace (strip wid) (ms_workspaces S) = Some w"
    using assms e by (cases "get_active_workspace (strip wid) (ms_workspaces S)") (simp_all add: set_primary_workspace_def rbind_def)
  let ?up = "mb_upsert ''ewm'' i (ep_id e) (ws_id w) [] ''member'' True True ''core'' None (ms_endpoint_members S)"
  obtain p where p: "?up = Inr p"
    using assms e w by (cases ?up) (simp_all add: set_primary_workspace_def rbind_def endpoint_membership_upsert_def)
  then have "S' = snd (sync_endpoint_scope e (S\<lparr>ms_endpoint_members := snd p\<rparr>))"
    using assms e w by (cases p) (simp add: set_primary_workspace_def rbind_def endpoint_membership_upsert_def endpoint_view_def)
  with e p show ?thesis by blast
qed

lemma upsert_keeps:
  assumes ok: "store_ok S" and m: "managed_endpoint eid S = Inr e"
    and up: "mb_upsert ''ewm'' i (ep_id e) w [] ''member'' prim True src None (ms_endpoint_members S) = Inr p"
  shows "keeps S (snd (sync_endpoint_scope e (S\<lparr>ms_endpoint_members := snd p\<rparr>)))"
proof -
  have u: "unique_rows mb_clash (ms_endpoint_members S)" using ok by (simp add: store_ok_def)
  have up': "mb_upsert ''ewm'' i (ep_id e) w [] ''member'' prim True src None (ms_endpoint_members S) = Inr (fst p, snd p)"
    using up by simp
  show ?thesis
    using managed_endpoint_mem [OF m] upsert_scope [OF u up']
    by (intro keeps_sync [OF ok]) simp_all
qed

lemma seed_keeps:
  assumes ok: "store_ok S" and seed: "seed_endpoint_memberships ids row wids src fb S = Inr (ws, S')"
  shows "keeps S S'"
proof (cases "get_endpoint_by_id row (ms_endpoints S)")
  case None
  then show ?thesis using seed keeps_same [OF ok] by (simp add: seed_endpoint_memberships_def)
next
  case (Some e)
  have u: "unique_rows mb_clash (ms_endpoint_members S)" using ok by (simp add: store_ok_def)
  have e: "e \<in> set (ms_endpoints S)" using tbl_get_Some [of ep_id row "ms_endpoints S" e] Some by (simp add: get_endpoint_by_id_def)
  show ?thesis
  proof (cases "list_for_owner (ep_id e) False (ms_endpoint_members S) = []")
    case False
    then have "S' = snd (sync_endpoint_scope e (S\<lparr>ms_endpoint_members := ms_endpoint_members S\<rparr>))"
      using seed Some by (simp add: seed_endpoint_memberships_def Let_def prod_eq_iff)
    then show ?thesis using keeps_sync [OF ok e u] by simp
  next
    case True
    let ?rows = "seed_rows ''ewm'' ids (ep_id e) src (string_list wids) 0
        (seed_workspaces e (string_list wids) fb (ms_workspaces S)) (ms_endpoint_members S)"
    obtain M where r: "?rows = Inr M" using seed Some True
      by (cases ?rows) (simp_all add: seed_endpoint_memberships_def Let_def rbind_def)
    then have S': "S' = snd (sync_endpoint_scope e (S\<lparr>ms_endpoint_members := M\<rparr>))"
      using seed Some True by (simp add: seed_endpoint_memberships_def Let_def rbind_def prod_eq_iff)
    have "scope_of (ep_id e) (ms_endpoint_members S) = {}" using True by (simp add: list_for_owner_Nil)
    then show ?thesis unfolding S' using seed_rows_effect [OF r u] by (intro keeps_sync [OF ok e]) simp_all
  qed
qed

lemma remove_keeps:
  assumes ok: "store_ok S" and rm: "remove_workspace eid wid S = Inr (v, S')"
  shows "keeps S S'"
proof -
  from rm obtain e w where m: "managed_endpoint eid S = Inr e"
    and w: "get_by_workspace_id (strip wid) (ms_workspaces S) = Some w"
    by (auto simp: remove_workspace_def rbind_def split: sum.splits option.splits)
  let ?M = "ms_endpoint_members S"
  have u: "unique_rows mb_clash ?M" "unique_rows ep_clash (ms_endpoints S)" using ok by (simp_all add: store_ok_def)
  have e: "e \<in> set (ms_endpoints S)" "\<not> endpoint_is_core e" using managed_endpoint_mem [OF m] by simp_all
  show ?thesis
  proof (cases "ws_id w \<in> scope_of (ep_id e) ?M")
    case False
    then have "S' = snd (sync_endpoint_scope e (S\<lparr>ms_endpoint_members := ?M\<rparr>))"
      using rm m w by (simp add: remove_workspace_def rbind_def scope_of_list Let_def endpoint_view_def)
    then show ?thesis using keeps_sync [OF ok e(1) u(1)] e(2) by simp
  next
    case True
    have more: "scope_of (ep_id e) ?M \<noteq> {ws_id w}"
    proof
      assume "scope_of (ep_id e) ?M = {ws_id w}"
      with remove_refines [OF m w u] rm show False by (simp add: scope_refines_def)
    qed
    then have "\<not> length (list_for_owner (ep_id e) False ?M) \<le> 1" using last_scope [OF u(1) True] by simp
    then have S': "S' = snd (sync_endpoint_scope e (S\<lparr>ms_endpoint_members := snd (mb_disable (ep_id e) (ws_id w) ?M)\<rparr>))"
      using rm m w True by (simp add: remove_workspace_def rbind_def scope_of_list Let_def endpoint_view_def)
    show ?thesis unfolding S'
      using disable_scope [OF u(1), where own = "ep_id e" and ws = "ws_id w"] True more e(2)
      by (intro keeps_sync [OF ok e(1)]) (simp_all, blast)
  qed
qed

lemma step_keeps: "member_step S S' \<Longrightarrow> store_ok S \<Longrightarrow> keeps S S'"
proof (induction rule: member_step.induct)
  case (seed ids row wids src fb S ws S')
  then show ?case by (rule seed_keeps [rotated])
next
  case (add i eid wid prim src S v S')
  from add_workspaceD [OF add(1)] upsert_keeps [OF add(2)] show ?case by blast
next
  case (remove eid wid S v S')
  then show ?case by (rule remove_keeps [rotated])
next
  case (set_primary i eid wid S v S')
  from set_primary_workspaceD [OF set_primary(1)] upsert_keeps [OF set_primary(2)] show ?case by blast
next
  case (seed_address ids row wids src S ws S')
  from seed_address(1) have "ms_endpoints S' = ms_endpoints S \<and> ms_endpoint_members S' = ms_endpoint_members S"
    by (auto simp: seed_address_memberships_def rbind_def sync_address_scope_def Let_def split: option.splits sum.splits if_splits)
  with seed_address(2) show ?case by (auto intro: keeps_same)
next
  case (add_address i aid wid prim src S v S')
  from add_address(1) have "ms_endpoints S' = ms_endpoints S \<and> ms_endpoint_members S' = ms_endpoint_members S"
    by (auto simp: address_add_workspace_def rbind_def address_view_def sync_address_scope_def Let_def split: option.splits sum.splits if_splits)
  with add_address(2) show ?case by (auto intro: keeps_same)
next
  case (remove_address aid wid S v S')
  from remove_address(1) have "ms_endpoints S' = ms_endpoints S \<and> ms_endpoint_members S' = ms_endpoint_members S"
    by (auto simp: address_remove_workspace_def rbind_def address_view_def sync_address_scope_def Let_def split: option.splits sum.splits if_splits)
  with remove_address(2) show ?case by (auto intro: keeps_same)
next
  case (set_primary_address i aid wid S v S')
  from set_primary_address(1) have "ms_endpoints S' = ms_endpoints S \<and> ms_endpoint_members S' = ms_endpoint_members S"
    by (auto simp: address_set_primary_workspace_def rbind_def address_view_def sync_address_scope_def Let_def split: option.splits sum.splits if_splits)
  with set_primary_address(2) show ?case by (auto intro: keeps_same)
qed

lemma keeps_refl: "store_ok S \<Longrightarrow> keeps S S"
  by (simp add: keeps_same)

lemma keepsD:
  assumes "keeps S S'" "e \<in> set (ms_endpoints S)" "scope_of (ep_id e) (ms_endpoint_members S) \<noteq> {}"
  shows "scope_of (ep_id e) (ms_endpoint_members S') \<noteq> {}"
    "endpoint_is_core e \<Longrightarrow> rows_of (ep_id e) (ms_endpoint_members S') = rows_of (ep_id e) (ms_endpoint_members S)"
  using assms by (simp_all add: keeps_def)

lemma keeps_trans:
  assumes a: "keeps S T" and b: "keeps T U"
  shows "keeps S U"
proof -
  have keys: "map ep_key (ms_endpoints T) = map ep_key (ms_endpoints S)" "map ep_key (ms_endpoints U) = map ep_key (ms_endpoints T)"
    and ok: "store_ok U" using a b by (simp_all add: keeps_def)
  have "scope_of (ep_id e) (ms_endpoint_members U) \<noteq> {}
      \<and> (endpoint_is_core e \<longrightarrow> rows_of (ep_id e) (ms_endpoint_members U) = rows_of (ep_id e) (ms_endpoint_members S))"
    if e: "e \<in> set (ms_endpoints S)" "scope_of (ep_id e) (ms_endpoint_members S) \<noteq> {}" for e
  proof -
    have "ep_key e \<in> set (map ep_key (ms_endpoints T))" using e(1) unfolding keys(1) by simp
    then obtain e' where e': "e' \<in> set (ms_endpoints T)" "ep_key e' = ep_key e" by auto
    then have k: "ep_id e' = ep_id e" "endpoint_is_core e' = endpoint_is_core e" by (simp_all add: ep_key_def endpoint_is_core_def)
    note T = keepsD [OF a e]
    from keepsD [OF b e'(1), unfolded k, OF T(1)] T(2) show ?thesis by simp
  qed
  then show ?thesis using keys ok by (simp add: keeps_def)
qed

lemma steps_keep: "member_step\<^sup>*\<^sup>* S S' \<Longrightarrow> store_ok S \<Longrightarrow> keeps S S'"
proof (induction rule: rtranclp_induct)
  case base
  then show ?case by (rule keeps_refl)
next
  case (step T U)
  then have "keeps S T" "store_ok T" by (simp_all add: keeps_def)
  then show ?case using keeps_trans step_keeps [OF step(2)] by blast
qed

text \<open>(C17)
  An endpoint never loses its last workspace: whatever operations on the memberships of endpoints
  and addresses follow one another, an endpoint that has an enabled membership, and so may be used
  in some workspace, keeps at least one; and if it is an endpoint of the core, its memberships do
  not change at all. An endpoint without an enabled membership is not covered: it can be seeded,
  also one of the core.
\<close>

theorem last_workspace_never_lost:
  assumes "member_step\<^sup>*\<^sup>* S S'" and "store_ok S" and "e \<in> set (ms_endpoints S)"
    and "scope_of (ep_id e) (ms_endpoint_members S) \<noteq> {}"
  shows "scope_of (ep_id e) (ms_endpoint_members S') \<noteq> {}
    \<and> (if endpoint_is_core e then rows_of (ep_id e) (ms_endpoint_members S') = rows_of (ep_id e) (ms_endpoint_members S) else True)"
  using steps_keep [OF assms(1,2)] assms(3,4) by (simp add: keeps_def)

lemma seeded_scope: "scope_of ''e'' (ms_endpoint_members seeded_store) = {''w2'', ''w3''}"
proof -
  have "map (\<lambda>r. (mb_owner r, mb_workspace_id r, mb_enabled r)) (ms_endpoint_members seeded_store)
      = [(''e'', ''w2'', True), (''e'', ''w3'', True)]" by code_simp
  then show ?thesis
    by (cases "ms_endpoint_members seeded_store"; cases "tl (ms_endpoint_members seeded_store)") auto
qed

lemma seeded_ok: "store_ok seeded_store"
  by code_simp

text \<open>The same store with an endpoint of the core, which is seeded too.\<close>

definition core_store :: member_store where
  "core_store = snd (projr (seed_endpoint_memberships (\<lambda>n. ''c'' @ nat_str n) ''k'' [PStr ''personal''] ''core'' ''personal''
     (seeded_store\<lparr>ms_endpoints := ms_endpoints seeded_store @
        [\<lparr>ep_id = ''k'', ep_endpoint_id = ''core.local'', ep_endpoint_type = ''core'', ep_provider_type = ''core'',
          ep_transport_type = ''local'', ep_owner_actor_id = None, ep_workspace_scope = [], ep_status = ''active'',
          ep_labels = [], ep_priority = 1, ep_meta = []\<rparr>]\<rparr>)))"

lemma core_store_members:
  "map (\<lambda>r. (mb_owner r, mb_workspace_id r, mb_enabled r)) (ms_endpoint_members core_store)
     = [(''e'', ''w2'', True), (''e'', ''w3'', True), (''k'', ''w1'', True)]"
  by code_simp

lemma scope_of_map_members:
  "scope_of own M = (\<lambda>(_, w, _). w) ` {x \<in> set (map (\<lambda>r. (mb_owner r, mb_workspace_id r, mb_enabled r)) M). fst x = own \<and> snd (snd x)}"
  by (force simp: scope_of_def image_iff)

theorem last_workspace_never_lost_witness:
  "(let S' = snd (projr (remove_workspace ''desk'' ''lab'' core_store)) in
     scope_of ''e'' (ms_endpoint_members S') \<noteq> {}
     \<and> remove_workspace ''desk'' ''work'' S' = Inl (ValueError ''endpoint_last_workspace_membership'')
     \<and> scope_of ''k'' (ms_endpoint_members S') \<noteq> {}
     \<and> rows_of ''k'' (ms_endpoint_members S') = rows_of ''k'' (ms_endpoint_members core_store))"
proof -
  let ?r = "remove_workspace ''desk'' ''lab'' core_store"
    and ?e = "hd (ms_endpoints core_store)" and ?k = "ms_endpoints core_store ! 1"
  have r: "\<not> isl ?r" and e: "ms_endpoints core_store = [?e, ?k]" "ep_id ?e = ''e''" "ep_id ?k = ''k''" "endpoint_is_core ?k"
    and last: "remove_workspace ''desk'' ''work'' (snd (projr ?r)) = Inl (ValueError ''endpoint_last_workspace_membership'')"
    and ok: "store_ok core_store"
    by code_simp+
  have "?r = Inr (fst (projr ?r), snd (projr ?r))" using Inr_projr [OF r] by simp
  from member_step.remove [OF this] have s: "member_step\<^sup>*\<^sup>* core_store (snd (projr ?r))" by simp
  have m: "?e \<in> set (ms_endpoints core_store)" "?k \<in> set (ms_endpoints core_store)"
    using arg_cong [OF e(1), of set] by auto
  have ne: "scope_of (ep_id ?e) (ms_endpoint_members core_store) \<noteq> {}" "scope_of (ep_id ?k) (ms_endpoint_members core_store) \<noteq> {}"
    unfolding scope_of_map_members core_store_members e(2,3) by auto
  from last_workspace_never_lost [OF s ok m(1) ne(1)] last_workspace_never_lost [OF s ok m(2) ne(2)] last e(2-4)
  show ?thesis by (simp add: Let_def)
qed

section \<open>Removing the primary workspace\<close>

lemma synced_key [simp]:
  "ep_id (synced_endpoint W M e) = ep_id e" "ep_endpoint_id (synced_endpoint W M e) = ep_endpoint_id e"
  "endpoint_is_core (synced_endpoint W M e) = endpoint_is_core e"
  by (simp_all add: synced_endpoint_def endpoint_is_core_def Let_def)

lemma managed_after_sync:
  assumes m: "managed_endpoint eid S = Inr e"
    and ok: "store_ok (snd (sync_endpoint_scope e (S\<lparr>ms_endpoint_members := M\<rparr>)))"
  shows "managed_endpoint eid (snd (sync_endpoint_scope e (S\<lparr>ms_endpoint_members := M\<rparr>)))
    = Inr (synced_endpoint (ms_workspaces S) M e)"
proof -
  let ?e' = "synced_endpoint (ms_workspaces S) M e" and ?S' = "snd (sync_endpoint_scope e (S\<lparr>ms_endpoint_members := M\<rparr>))"
  have e: "e \<in> set (ms_endpoints S)" "ep_endpoint_id e = strip eid" "\<not> endpoint_is_core e"
    using m by (auto simp: managed_endpoint_def get_by_endpoint_idD split: option.splits if_splits)
  have E: "ms_endpoints ?S' = tbl_upd ep_id (ep_id e) (\<lambda>_. ?e') (ms_endpoints S)"
    by (simp add: sync_endpoint_scope_def Let_def)
  then have "?e' \<in> set (ms_endpoints ?S')" using e(1) by (auto simp: tbl_upd_def)
  moreover have "unique_rows ep_clash (ms_endpoints ?S')" using ok by (simp add: store_ok_def)
  ultimately have "get_by_endpoint_id (strip eid) (ms_endpoints ?S') = Some ?e'"
    using ep_public.get_mem [of "ms_endpoints ?S'" ?e'] e(2) by (simp add: get_by_endpoint_id_def)
  then show ?thesis using e(3) by (simp add: managed_endpoint_def)
qed

lemma primary_is_unique:
  assumes "mb_ok M" "r \<in> set M" "mb_enabled r" "mb_is_primary r"
  shows "primary_workspace_id W (list_for_owner (mb_owner r) False M) = workspace_public W (mb_workspace_id r)"
proof -
  obtain rs where "list_for_owner (mb_owner r) False M = r # rs" using list_for_owner_head [OF assms] by blast
  with assms(4) show ?thesis by (simp add: primary_workspace_id_def)
qed

text \<open>Removing the primary workspace of an endpoint leaves it without a primary one: the operation
  answers with the first remaining workspace as if it were primary, but no enabled membership is
  marked so, while the membership that was removed keeps the mark. Adding that workspace again,
  without asking for it to be primary, makes it the primary workspace again.
\<close>

theorem removed_primary_returns:
  assumes m: "managed_endpoint eid S = Inr e" and w: "get_active_workspace (strip wid) (ms_workspaces S) = Some w"
    and ok: "store_ok S" "mb_reachable (ms_endpoint_members S)"
    and row: "mb_get (ep_id e) (ws_id w) (ms_endpoint_members S) = Some row" "mb_enabled row" "mb_is_primary row"
    and rm: "remove_workspace eid wid S = Inr (v, S1)"
    and add: "add_workspace i eid wid False src S1 = Inr (v2, S2)"
  shows "list_all (\<lambda>r. \<not> mb_is_primary r) (list_for_owner (ep_id e) False (ms_endpoint_members S1))
    \<and> mv_primary_workspace_id v = workspace_public (ms_workspaces S) (mb_workspace_id (hd (list_for_owner (ep_id e) False (ms_endpoint_members S1))))
    \<and> mv_primary_workspace_id v2 = workspace_public (ms_workspaces S) (ws_id w)"
proof -
  let ?M = "ms_endpoint_members S" and ?o = "ep_id e"
  define M1 where "M1 = snd (mb_disable ?o (ws_id w) ?M)"
  note none = disabling_primary_promotes_nothing [OF ok(2) row]
  have w': "get_by_workspace_id (strip wid) (ms_workspaces S) = Some w"
    using w by (auto simp: get_active_workspace_def split: option.splits if_splits)
  have rowM: "row \<in> set ?M" "mb_owner row = ?o" "mb_workspace_id row = ws_id w" using mb_getD [OF row(1)] by simp_all
  then have mem: "ws_id w \<in> set (map mb_workspace_id (list_for_owner ?o False ?M))"
    using row(2) by (force simp: set_list_for_owner)
  have S1: "S1 = snd (sync_endpoint_scope e (S\<lparr>ms_endpoint_members := M1\<rparr>))"
    and v: "mv_primary_workspace_id v = primary_workspace_id (ms_workspaces S) (list_for_owner ?o False M1)"
    and more: "\<not> length (list_for_owner ?o False ?M) \<le> 1"
    using rm m w' mem
    by (auto simp: remove_workspace_def rbind_def Let_def endpoint_view_def M1_def split: if_splits)
  have M1: "ms_endpoint_members S1 = M1" "ms_workspaces S1 = ms_workspaces S" unfolding S1 by simp_all
  have np: "list_all (\<lambda>r. \<not> mb_is_primary r) (list_for_owner ?o False M1)"
    using none by (auto simp: M1_def list_all_iff set_list_for_owner)
  have u: "unique_rows mb_clash ?M" using ok(1) by (simp add: store_ok_def)
  have "list_for_owner ?o False M1 \<noteq> []"
  proof -
    have "ws_id w \<in> scope_of ?o ?M" using mem by (simp add: scope_of_list)
    then have "scope_of ?o ?M \<noteq> {ws_id w}" "ws_id w \<in> scope_of ?o ?M" using more last_scope [OF u] by auto
    then have "scope_of ?o M1 \<noteq> {}" using disable_scope(2) [OF u] unfolding M1_def by blast
    then show ?thesis by (simp add: list_for_owner_Nil)
  qed
  then obtain h rs where L: "list_for_owner ?o False M1 = h # rs" by (cases "list_for_owner ?o False M1") auto
  have "find mb_is_primary (list_for_owner ?o False M1) = None" using np by (auto simp: find_None_iff list_all_iff)
  then have A: "mv_primary_workspace_id v = workspace_public (ms_workspaces S) (mb_workspace_id (hd (list_for_owner ?o False M1)))"
    unfolding v using L by (simp add: primary_workspace_id_def)
  define e1 where "e1 = synced_endpoint (ms_workspaces S) M1 e"
  have ok1: "store_ok S1" using remove_keeps [OF ok(1) rm] by (simp add: keeps_def)
  have m1: "managed_endpoint eid S1 = Inr e1"
    using managed_after_sync [OF m] ok1 unfolding S1 e1_def by blast
  have row1: "mb_get ?o (ws_id w) M1 = Some (row\<lparr>mb_enabled := False\<rparr>)" using none by (simp add: M1_def)
  have id1: "ep_id e1 = ?o" by (simp add: e1_def)
  obtain r2 M2 where up: "mb_upsert ''ewm'' i ?o (ws_id w) [] ''member'' False True src None M1 = Inr (r2, M2)"
    and v2: "mv_primary_workspace_id v2 = primary_workspace_id (ms_workspaces S) (list_for_owner ?o False M2)"
    using add m1 w L id1 M1
    by (auto simp: add_workspace_def rbind_def endpoint_membership_upsert_def endpoint_view_def Let_def split: sum.splits)
  have "mb_ok M1" using mb_ok_disable [OF mb_reachable_ok [OF ok(2)]] by (simp add: M1_def)
  then have ok2: "mb_ok M2" using mb_ok_upsert [OF _ up] by blast
  let ?new = "updated_membership ''member'' False True src None (row\<lparr>mb_enabled := False\<rparr>)"
  have "M2 = tbl_upd mb_id (mb_id row) (\<lambda>_. ?new) M1"
    using up row1 by (auto simp: mb_upsert_def rbind_def replace_row_def split: if_splits)
  then have "?new \<in> set M2" using mb_getD [OF row1] by (force simp: tbl_upd_def)
  moreover have "mb_owner ?new = ?o" "mb_enabled ?new" "mb_is_primary ?new" "mb_workspace_id ?new = ws_id w"
    using rowM row(3) by (simp_all add: updated_membership_def)
  ultimately have "mv_primary_workspace_id v2 = workspace_public (ms_workspaces S) (ws_id w)"
    using primary_is_unique [OF ok2, of ?new] v2 by simp
  with np A M1 show ?thesis by simp
qed

end
