(* ===== verification/Threads.thy ===== *)
theory Threads
  imports Endpoint_Store
begin

text \<open>
  Conversation threads: the table of \<^verbatim>\<open>core/db/models/thread.py\<close>, the repository
  \<^verbatim>\<open>core/db/repositories/thread.py\<close>, the service \<^verbatim>\<open>core/services/thread_service.py\<close>, the
  rules for automatic titles of \<^verbatim>\<open>core/services/thread_titles.py\<close> and
  \<open>EndpointThreadBindingService\<close> of \<^verbatim>\<open>core/services/endpoint_service.py\<close>, which maps the
  conversations of an endpoint to threads.

  \<open>updated_at\<close> is set by the table itself whenever a flush changes the row (\<open>touch\<close>); \<open>now\<close> is
  the time of the flush and \<open>now_iso\<close> its text. \<open>loads\<close> is \<open>json.loads\<close> (None where it raises);
  \<open>digest\<close> is the hexadecimal SHA-256 of a text. The fallback titles outside Latin-1 are left
  out, as no text of the model contains them.
\<close>

section \<open>The table\<close>

record thread =
  th_id :: row_id
  th_thread_id :: string
  th_principal_id :: row_id
  th_home_workspace_id :: row_id
  th_project_id :: pyval
  th_active_branch_id :: "row_id option"
  th_current_leaf_message_id :: "row_id option"
  th_title :: string
  th_status :: string
  th_summary :: string
  th_meta :: pydict
  th_created_at :: instant
  th_updated_at :: instant

definition th_clash :: "thread \<Rightarrow> thread \<Rightarrow> bool" where
  "th_clash a b \<longleftrightarrow> th_id a = th_id b \<or> th_thread_id a = th_thread_id b"

interpretation th: unique_table th_id th_clash
  by unfold_locales (auto simp: th_clash_def)

interpretation th_public: unique_table th_thread_id th_clash
  by unfold_locales (auto simp: th_clash_def)

text \<open>\<open>onupdate\<close> of the column \<open>updated_at\<close>: an UPDATE is sent only when a column changed.\<close>

definition touch :: "instant \<Rightarrow> (thread \<Rightarrow> thread) \<Rightarrow> thread \<Rightarrow> thread" where
  "touch now f row = (if f row = row then row else (f row)\<lparr>th_updated_at := now\<rparr>)"

definition thread_create ::
  "instant \<Rightarrow> row_id \<Rightarrow> string \<Rightarrow> row_id \<Rightarrow> row_id option \<Rightarrow> pyval \<Rightarrow> string \<Rightarrow> pydict option
   \<Rightarrow> thread list \<Rightarrow> pyerr + thread \<times> thread list" where
  "thread_create now new_id thread_id prin home project title metadata T =
     (case home of
        None \<Rightarrow> Inl (IntegrityError ''threads'')
      | Some h \<Rightarrow> insert_row th_clash ''threads''
          \<lparr>th_id = new_id, th_thread_id = thread_id, th_principal_id = prin, th_home_workspace_id = h,
           th_project_id = project, th_active_branch_id = None, th_current_leaf_message_id = None, th_title = title,
           th_status = ''active'', th_summary = [], th_meta = dict_or metadata, th_created_at = now, th_updated_at = now\<rparr> T)"

definition get_any_by_thread_id :: "string \<Rightarrow> thread list \<Rightarrow> thread option" where
  "get_any_by_thread_id thread_id T = tbl_get th_thread_id thread_id T"

definition get_thread_by_id :: "row_id \<Rightarrow> thread list \<Rightarrow> thread option" where
  "get_thread_by_id i T = tbl_get th_id i T"

text \<open>The change of one row and the row returned.\<close>

definition change_thread ::
  "instant \<Rightarrow> row_id \<Rightarrow> (thread \<Rightarrow> thread) \<Rightarrow> thread list \<Rightarrow> thread option \<times> thread list" where
  "change_thread now i f T = (map_option (touch now f) (get_thread_by_id i T), tbl_upd th_id i (touch now f) T)"

definition update_metadata :: "instant \<Rightarrow> row_id \<Rightarrow> pydict \<Rightarrow> thread list \<Rightarrow> thread option \<times> thread list" where
  "update_metadata now i metadata = change_thread now i (\<lambda>t. t\<lparr>th_meta := dmerge (th_meta t) metadata\<rparr>)"

definition title_field :: "pydict \<Rightarrow> thread \<Rightarrow> thread" where
  "title_field upd t =
     (if dget upd ''title'' = PNone then t
      else t\<lparr>th_title := clean (dget upd ''title''), th_meta := dset ''manual_title'' (PBool True) (th_meta t)\<rparr>)"

definition status_field :: "pydict \<Rightarrow> thread \<Rightarrow> thread" where
  "status_field upd t =
     (if dget upd ''status'' = PNone then t else t\<lparr>th_status := or_str (clean (dget upd ''status'')) ''active''\<rparr>)"

definition project_field :: "pydict \<Rightarrow> thread \<Rightarrow> thread" where
  "project_field upd t = (if dhas upd ''project_id'' then t\<lparr>th_project_id := dget upd ''project_id''\<rparr> else t)"

definition metadata_field :: "pydict \<Rightarrow> thread \<Rightarrow> thread" where
  "metadata_field upd t = t\<lparr>th_meta := dmerge (th_meta t) (as_dict (dget upd ''metadata''))\<rparr>"

definition update_fields :: "instant \<Rightarrow> row_id \<Rightarrow> pydict \<Rightarrow> thread list \<Rightarrow> thread option \<times> thread list" where
  "update_fields now i upd =
     change_thread now i (\<lambda>t. metadata_field upd (project_field upd (status_field upd (title_field upd t))))"

definition update_summary :: "instant \<Rightarrow> row_id \<Rightarrow> string \<Rightarrow> pydict option \<Rightarrow> thread list \<Rightarrow> thread option \<times> thread list" where
  "update_summary now i summary metadata =
     change_thread now i (\<lambda>t. t\<lparr>th_summary := strip summary, th_meta := dmerge (th_meta t) (dict_or metadata)\<rparr>)"

text \<open>\<open>updated_at\<close> descending, then \<open>created_at\<close> descending.\<close>

definition thread_limit :: "int \<Rightarrow> nat" where
  "thread_limit n = nat (max 1 (min (if n = 0 then 50 else n) 200))"

definition recency :: "thread \<Rightarrow> instant \<times> instant" where
  "recency t = (th_updated_at t, th_created_at t)"

definition listed :: "row_id \<Rightarrow> row_id option \<Rightarrow> pyval \<Rightarrow> thread \<Rightarrow> bool" where
  "listed prin ws project t \<longleftrightarrow>
     th_principal_id t = prin \<and> th_status t \<noteq> ''deleted''
     \<and> (case ws of Some w \<Rightarrow> th_home_workspace_id t = w | None \<Rightarrow> True)
     \<and> (project = PNone \<or> th_project_id t = project)"

definition list_for_principal :: "row_id \<Rightarrow> row_id option \<Rightarrow> pyval \<Rightarrow> int \<Rightarrow> thread list \<Rightarrow> thread list" where
  "list_for_principal prin ws project count T =
     take (thread_limit count) (sorted_desc recency (filter (listed prin ws project) T))"

definition find_default :: "row_id \<Rightarrow> row_id option \<Rightarrow> string \<Rightarrow> thread list \<Rightarrow> thread option" where
  "find_default prin ws default_key T =
     (let key = strip default_key
      in if key = [] then None
         else find (\<lambda>t. dget (th_meta t) ''default_key'' = PStr key) (list_for_principal prin ws PNone 200 T))"

text \<open>The row, if any, and the reason.\<close>

definition soft_delete ::
  "instant \<Rightarrow> string \<Rightarrow> string \<Rightarrow> row_id \<Rightarrow> bool \<Rightarrow> thread list \<Rightarrow> (thread option \<times> string) \<times> thread list" where
  "soft_delete now now_iso thread_id prin force_default T =
     (let tid = strip thread_id in
      if tid = [] then ((None, ''thread_id_required''), T)
      else case tbl_get (\<lambda>t. (th_thread_id t, th_principal_id t)) (tid, prin) T of
        None \<Rightarrow> ((None, ''not_found''), T)
      | Some row \<Rightarrow>
          if th_status row = ''deleted'' then ((Some row, ''already_deleted''), T)
          else if truthy (dget (th_meta row) ''default_key'') \<and> \<not> force_default then ((Some row, ''default_thread''), T)
          else (let (row', T') = change_thread now (th_id row)
                      (\<lambda>t. t\<lparr>th_status := ''deleted'', th_meta := dset ''deleted_at'' (PStr now_iso) (th_meta t)\<rparr>) T
                in ((row', ''deleted''), T')))"

section \<open>The service\<close>

definition create_thread ::
  "instant \<Rightarrow> row_id \<Rightarrow> string \<Rightarrow> row_id \<Rightarrow> row_id option \<Rightarrow> row_id option \<Rightarrow> pyval \<Rightarrow> string \<Rightarrow> pydict option
   \<Rightarrow> thread list \<Rightarrow> pyerr + thread \<times> thread list" where
  "create_thread now new_id token prin home ws project title metadata T =
     thread_create now new_id (''thr_'' @ token) prin (case home of Some h \<Rightarrow> Some h | None \<Rightarrow> ws) project title metadata T"

definition get_by_thread_id :: "string \<Rightarrow> thread list \<Rightarrow> thread option" where
  "get_by_thread_id thread_id T =
     (case get_any_by_thread_id thread_id T of
        Some t \<Rightarrow> if th_status t = ''deleted'' then None else Some t
      | None \<Rightarrow> None)"

record thread_delete_result =
  td_thread :: "thread option"
  td_deleted :: bool
  td_reason :: string
  td_default_thread :: bool

definition delete_thread ::
  "instant \<Rightarrow> string \<Rightarrow> row_id \<Rightarrow> string \<Rightarrow> bool \<Rightarrow> thread list \<Rightarrow> thread_delete_result \<times> thread list" where
  "delete_thread now now_iso prin thread_id force T =
     (case soft_delete now now_iso thread_id prin force T of ((row, reason), T') \<Rightarrow>
        (\<lparr>td_thread = row, td_deleted = (reason \<in> {''deleted'', ''already_deleted''}), td_reason = reason,
          td_default_thread = (case row of Some r \<Rightarrow> truthy (dget (th_meta r) ''default_key'') | None \<Rightarrow> False)\<rparr>, T'))"

definition ensure_default_thread ::
  "instant \<Rightarrow> row_id \<Rightarrow> string \<Rightarrow> row_id \<Rightarrow> row_id option \<Rightarrow> row_id option \<Rightarrow> string \<Rightarrow> string
   \<Rightarrow> thread list \<Rightarrow> pyerr + thread \<times> thread list" where
  "ensure_default_thread now new_id token prin home ws default_key title T =
     (let h = (case home of Some h \<Rightarrow> Some h | None \<Rightarrow> ws);
          key = or_str (strip (or_str default_key ''frontend.default'')) ''frontend.default''
      in case find_default prin h key T of
           Some t \<Rightarrow> Inr (t, T)
         | None \<Rightarrow> thread_create now new_id (''thr_'' @ token) prin h PNone (or_str title ''Desktop Chat'')
                     (Some [(''default_key'', PStr key)]) T)"

section \<open>Automatic titles\<close>

definition auto_title_fallbacks :: "string list" where
  "auto_title_fallbacks = [[], ''new chat'', ''new conversation'', ''desktop chat'', ''untitled'']"

definition normalize_thread_title :: "string \<Rightarrow> string" where
  "normalize_thread_title s = lower (join '' '' (split_ws s))"

definition can_auto_title_thread :: "thread option \<Rightarrow> bool" where
  "can_auto_title_thread x =
     (case x of
        None \<Rightarrow> False
      | Some t \<Rightarrow>
          if truthy (dget (th_meta t) ''auto_title_disabled'') \<or> truthy (dget (th_meta t) ''manual_title'') then False
          else normalize_thread_title (th_title t) \<in> set auto_title_fallbacks)"

definition auto_title_meta :: "string \<Rightarrow> string \<Rightarrow> string \<Rightarrow> string \<Rightarrow> pydict \<Rightarrow> pydict" where
  "auto_title_meta now_iso src model provider m =
     (let m1 = dmerge m [(''auto_title'', PBool True), (''auto_title_pending'', PBool False),
                 (''auto_title_generated_at'', PStr now_iso), (''auto_title_strategy'', PStr ''model''),
                 (''auto_title_model'', PStr model), (''auto_title_provider'', PStr provider)];
          m2 = (if src \<noteq> [] then dset ''auto_title_source_message_id'' (PStr src) m1 else m1)
      in dpop ''auto_title_error'' m2)"

text \<open>
  The title in a model's answer. The pattern of a fenced block is matched at the first three
  backquotes where it can be: an optional word \<open>json\<close>, white space, a shortest text of at least
  one character, white space, three backquotes. \<open>fence_text\<close> is what follows the word.
\<close>

definition fence_mark :: string where
  "fence_mark = replicate 3 (char_of (96::nat))"

definition fence_text :: "string \<Rightarrow> string option" where
  "fence_text s =
     find (\<lambda>_. True) (List.map_filter (\<lambda>k.
         map_option (\<lambda>e. take (e - k) (drop k s))
           (find (\<lambda>e. startswith (lstrip_by is_space (drop e s)) fence_mark) [k + 1 ..< Suc (length s)]))
       (rev [0 ..< Suc (length (takeWhile is_space s))]))"

definition fence_here :: "string \<Rightarrow> string option" where
  "fence_here s =
     (if \<not> startswith s fence_mark then None
      else let r = drop 3 s in
           (case (if lower (take 4 r) = ''json'' then fence_text (drop 4 r) else None) of
              Some g \<Rightarrow> Some g
            | None \<Rightarrow> fence_text r))"

fun fenced :: "string \<Rightarrow> string option" where
  "fenced [] = None"
| "fenced (c # cs) = (case fence_here (c # cs) of Some g \<Rightarrow> Some g | None \<Rightarrow> fenced cs)"

definition line_break :: "char \<Rightarrow> bool" where
  "line_break c \<longleftrightarrow> (let n = code c in (10 \<le> n \<and> n \<le> 13) \<or> (28 \<le> n \<and> n \<le> 30) \<or> n = 133)"

text \<open>The label \<open>title:\<close> or \<open>name:\<close> in front of the text.\<close>

definition drop_title_label :: "string \<Rightarrow> string" where
  "drop_title_label s =
     (let r = (if lower (take 5 s) = ''title'' then drop 5 s else if lower (take 4 s) = ''name'' then drop 4 s else []);
          v = lstrip_by is_space r
      in case v of c # w \<Rightarrow> if c = CHR '':'' then lstrip_by is_space w else s | [] \<Rightarrow> s)"

definition title_strip_chars :: string where
  "title_strip_chars = map char_of [32, 9, 13, 10, 34, 39, 96 :: nat] @ ''[](){}.,;:!?''"

definition title_cut_chars :: string where
  "title_cut_chars = map char_of [32, 9 :: nat] @ '',;:!?''"

definition json_title :: "(string \<Rightarrow> pyval option) \<Rightarrow> string \<Rightarrow> string" where
  "json_title loads s =
     (let payload = (case loads s of Some v \<Rightarrow> as_dict v | None \<Rightarrow> [])
      in case filter (\<lambda>c. c \<noteq> []) (map (\<lambda>key. clean (dget payload key)) [''title'', ''name'']) of
           c # _ \<Rightarrow> c
         | [] \<Rightarrow> s)"

definition extract_title_from_model_text :: "(string \<Rightarrow> pyval option) \<Rightarrow> nat \<Rightarrow> string \<Rightarrow> string" where
  "extract_title_from_model_text loads max_chars value =
     (let s = strip value in
      if s = [] then []
      else let s1 = json_title loads (case fenced s of Some g \<Rightarrow> strip g | None \<Rightarrow> s);
               s2 = (if char_of (10::nat) \<in> set s1 then takeWhile (\<lambda>c. \<not> line_break c) s1 else s1);
               s3 = strip (drop_title_label s2);
               s4 = join '' '' (split_ws (strip_by (\<lambda>c. c \<in> set title_strip_chars) s3))
           in if length s4 > max_chars then rstrip_by (\<lambda>c. c \<in> set title_cut_chars) (take max_chars s4) else s4)"

text \<open>The message the title was requested for, if the caller names one, must be the expected one.\<close>

definition title_source_mismatch :: "string \<Rightarrow> pydict \<Rightarrow> bool" where
  "title_source_mismatch src m =
     (let expected = clean (dget m ''auto_title_source_message_id'')
      in src \<noteq> [] \<and> expected \<noteq> [] \<and> expected \<noteq> strip src)"

definition apply_auto_title ::
  "(string \<Rightarrow> pyval option) \<Rightarrow> instant \<Rightarrow> string \<Rightarrow> string \<Rightarrow> string \<Rightarrow> string \<Rightarrow> string \<Rightarrow> string
   \<Rightarrow> thread list \<Rightarrow> thread option \<times> thread list" where
  "apply_auto_title loads now now_iso thread_id title src model provider T =
     (let new = extract_title_from_model_text loads 24 title; x = get_any_by_thread_id thread_id T in
      if new = [] \<or> \<not> can_auto_title_thread x then (None, T)
      else if title_source_mismatch src (th_meta (the x)) then (None, T)
      else change_thread now (th_id (the x))
             (\<lambda>t. t\<lparr>th_title := new, th_meta := auto_title_meta now_iso src model provider (th_meta t), th_updated_at := now\<rparr>) T)"

definition record_auto_title_failure ::
  "instant \<Rightarrow> string \<Rightarrow> string \<Rightarrow> string \<Rightarrow> string \<Rightarrow> thread list \<Rightarrow> thread option \<times> thread list" where
  "record_auto_title_failure now now_iso thread_id src err T =
     (case get_any_by_thread_id thread_id T of
        None \<Rightarrow> (None, T)
      | Some row \<Rightarrow>
          if title_source_mismatch src (th_meta row) then (None, T)
          else change_thread now (th_id row)
             (\<lambda>t. t\<lparr>th_meta := dmerge (th_meta t) [(''auto_title_pending'', PBool False),
                        (''auto_title_error'', PStr (take 240 (or_str err ''title_generation_failed''))),
                        (''auto_title_failed_at'', PStr now_iso)],
                    th_updated_at := now\<rparr>) T)"

section \<open>Threads of the conversations of an endpoint\<close>

definition valid_strategies :: "string list" where
  "valid_strategies = [''per_conversation'', ''per_address'', ''shared_endpoint'', ''explicit_thread'']"

definition binding_id :: "(string \<Rightarrow> string) \<Rightarrow> string list \<Rightarrow> string" where
  "binding_id digest parts = ''etb.'' @ take 32 (digest (join [char_of (10::nat)] parts))"

text \<open>\<open>EndpointThreadBindingError\<close> is a \<open>ValueError\<close> with a code, which is kept as its text.\<close>

definition canonical_key ::
  "string \<Rightarrow> string \<Rightarrow> string \<Rightarrow> address option \<Rightarrow> string \<Rightarrow> pyerr + string" where
  "canonical_key strategy public_id conversation_key addr explicit_thread_id =
     (if strategy = ''shared_endpoint'' then Inr (''endpoint:'' @ public_id)
      else if strategy = ''per_address'' then
        (let aid = (case addr of Some a \<Rightarrow> strip (ad_address_id a) | None \<Rightarrow> []);
             ref = (case addr of Some a \<Rightarrow> strip (ad_external_ref a) | None \<Rightarrow> []);
             key = or_str aid (or_str (strip conversation_key) ref)
         in if key = [] then Inl (ValueError ''conversation_key_required'') else Inr (''address:'' @ key))
      else if strategy = ''explicit_thread'' then
        (let key = strip explicit_thread_id
         in if key = [] then Inl (ValueError ''explicit_thread_id_required'') else Inr (''thread:'' @ key))
      else
        (let key = strip conversation_key
         in if key = [] then Inl (ValueError ''conversation_key_required'') else Inr (''conversation:'' @ key)))"

text \<open>The arguments of \<open>resolve_thread\<close>.\<close>

record thread_request =
  tr_principal_id :: row_id
  tr_endpoint_row_id :: row_id
  tr_endpoint_public_id :: string
  tr_workspace_row_id :: "row_id option"
  tr_workspace_public_id :: string
  tr_thread_strategy :: string
  tr_conversation_key :: string
  tr_address_row_id :: "row_id option"
  tr_title :: string
  tr_display_name :: string
  tr_explicit_thread_id :: string
  tr_metadata :: "pydict option"

definition explicit_thread_error :: "thread_request \<Rightarrow> thread option \<Rightarrow> pyerr option" where
  "explicit_thread_error rq x =
     (if tr_explicit_thread_id rq = [] then None
      else case x of
        None \<Rightarrow> Some (ValueError ''explicit_thread_not_found'')
      | Some t \<Rightarrow>
          if th_status t = ''deleted'' then Some (ValueError ''explicit_thread_deleted'')
          else if th_principal_id t \<noteq> tr_principal_id rq then Some (ValueError ''explicit_thread_forbidden'')
          else if tr_workspace_row_id rq \<noteq> None \<and> Some (th_home_workspace_id t) \<noteq> tr_workspace_row_id rq
            then Some (ValueError ''explicit_thread_workspace_mismatch'')
          else None)"

definition new_thread_metadata :: "thread_request \<Rightarrow> string \<Rightarrow> string \<Rightarrow> pydict" where
  "new_thread_metadata rq strategy key =
     dmerge (dict_or (tr_metadata rq))
       [(''endpoint_thread_binding'', PBool True), (''endpoint_id'', PStr (tr_endpoint_public_id rq)),
        (''workspace_id'', PStr (tr_workspace_public_id rq)), (''thread_strategy'', PStr strategy), (''conversation_key'', PStr key)]"

definition binding_metadata :: "thread_request \<Rightarrow> thread \<Rightarrow> pydict" where
  "binding_metadata rq t =
     dmerge (dict_or (tr_metadata rq))
       [(''endpoint_id'', PStr (tr_endpoint_public_id rq)), (''workspace_id'', PStr (tr_workspace_public_id rq)),
        (''thread_id'', PStr (th_thread_id t)), (''raw_conversation_key'', PStr (strip (tr_conversation_key rq))),
        (''explicit_thread_id'', PStr (strip (tr_explicit_thread_id rq)))]"

text \<open>The thread that a binding leads to, unless it was deleted.\<close>

definition bound_thread :: "thread_binding option \<Rightarrow> thread list \<Rightarrow> thread option" where
  "bound_thread b T =
     (case b of
        None \<Rightarrow> None
      | Some r \<Rightarrow> (case get_thread_by_id (tb_thread_id r) T of
            Some t \<Rightarrow> if th_status t = ''deleted'' then None else Some t
          | None \<Rightarrow> None))"

record thread_store =
  ts_threads :: "thread list"
  ts_bindings :: "thread_binding list"
  ts_addresses :: "address list"

text \<open>The thread and the table after the choice: the bound one, the explicit one, or a new one.\<close>

definition choose_thread ::
  "instant \<Rightarrow> row_id \<Rightarrow> string \<Rightarrow> thread_request \<Rightarrow> string \<Rightarrow> string \<Rightarrow> thread option \<Rightarrow> thread option
   \<Rightarrow> thread list \<Rightarrow> pyerr + thread \<times> thread list" where
  "choose_thread now new_id token rq strategy key bound explicit T =
     (case bound of
        Some t \<Rightarrow> Inr (t, T)
      | None \<Rightarrow>
          (case explicit of
             Some t \<Rightarrow> Inr (t, T)
           | None \<Rightarrow> thread_create now new_id (''thr_'' @ token) (tr_principal_id rq) (tr_workspace_row_id rq) PNone
               (take 255 (strip (or_str (tr_title rq) (or_str (tr_display_name rq) key))))
               (Some (new_thread_metadata rq strategy key)) T))"

text \<open>The workspace of a binding is not nullable.\<close>

definition bind_thread ::
  "(string \<Rightarrow> string) \<Rightarrow> row_id \<Rightarrow> thread_request \<Rightarrow> string \<Rightarrow> string \<Rightarrow> thread \<Rightarrow> thread_binding list
   \<Rightarrow> pyerr + thread_binding \<times> thread_binding list" where
  "bind_thread digest new_id rq strategy key t B =
     (case tr_workspace_row_id rq of
        None \<Rightarrow> Inl (IntegrityError ''endpoint_thread_bindings'')
      | Some w \<Rightarrow> binding_upsert new_id
          \<lparr>tb_id = [], tb_binding_id = binding_id digest [tr_endpoint_public_id rq, strategy, key],
           tb_endpoint_id = tr_endpoint_row_id rq, tb_thread_id = th_id t, tb_workspace_id = w,
           tb_address_id = tr_address_row_id rq, tb_thread_strategy = strategy, tb_conversation_key = key,
           tb_display_name = or_str (tr_display_name rq) (tr_title rq), tb_status = ''active'',
           tb_meta = binding_metadata rq t\<rparr> B)"

definition resolve_thread ::
  "(string \<Rightarrow> string) \<Rightarrow> instant \<Rightarrow> row_id \<Rightarrow> row_id \<Rightarrow> string \<Rightarrow> thread_request \<Rightarrow> thread_store
   \<Rightarrow> pyerr + (thread_binding \<times> thread) \<times> thread_store" where
  "resolve_thread digest now new_thread_id new_binding_id token rq S =
     (let strategy = or_str (strip (or_str (tr_thread_strategy rq) ''per_conversation'')) ''per_conversation'';
          addr = (case tr_address_row_id rq of Some i \<Rightarrow> get_address_by_id i (ts_addresses S) | None \<Rightarrow> None)
      in if strategy \<notin> set valid_strategies then Inl (ValueError ''unsupported_thread_strategy'')
      else rbind (canonical_key strategy (tr_endpoint_public_id rq) (tr_conversation_key rq) addr (tr_explicit_thread_id rq)) (\<lambda>key.
        let binding = get_by_endpoint_strategy_key (tr_endpoint_row_id rq) strategy key (ts_bindings S);
            explicit = (if tr_explicit_thread_id rq = [] then None else get_any_by_thread_id (tr_explicit_thread_id rq) (ts_threads S));
            err = explicit_thread_error rq explicit
        in if strategy = ''explicit_thread'' \<and> err \<noteq> None then Inl (the err)
           else rbind (choose_thread now new_thread_id token rq strategy key (bound_thread binding (ts_threads S))
                    (if err = None then explicit else None) (ts_threads S)) (\<lambda>(t, T).
                rbind (bind_thread digest new_binding_id rq strategy key t (ts_bindings S)) (\<lambda>(b, B).
                  Inr ((b, t), S\<lparr>ts_threads := T, ts_bindings := B\<rparr>)))))"

section \<open>A conversation keeps its thread\<close>

lemma thread_create_ok:
  assumes "thread_create now i tid prin home proj title md T = Inr (t, T')" and "unique_rows th_clash T"
  shows "unique_rows th_clash T' \<and> T' = T @ [t] \<and> get_thread_by_id (th_id t) T' = Some t \<and> th_status t = ''active'' \<and> th_id t = i
    \<and> (\<forall>k x. get_thread_by_id k T = Some x \<longrightarrow> get_thread_by_id k T' = Some x)"
proof -
  obtain h where h: "home = Some h" using assms(1) by (cases home) (simp_all add: thread_create_def)
  let ?row = "\<lparr>th_id = i, th_thread_id = tid, th_principal_id = prin, th_home_workspace_id = h,
           th_project_id = proj, th_active_branch_id = None, th_current_leaf_message_id = None, th_title = title,
           th_status = ''active'', th_summary = [], th_meta = dict_or md, th_created_at = now, th_updated_at = now\<rparr>"
  have "insert_row th_clash ''threads'' ?row T = Inr (t, T')" using assms(1) h by (simp add: thread_create_def)
  from th.insert_ok [OF this assms(2)] show ?thesis
    by (auto simp: get_thread_by_id_def tbl_get_append)
qed

lemma get_thread_mem: "unique_rows th_clash T \<Longrightarrow> t \<in> set T \<Longrightarrow> get_thread_by_id (th_id t) T = Some t"
  unfolding get_thread_by_id_def by (rule th.get_mem)

lemma choose_thread_ok:
  assumes ch: "choose_thread now i token rq strategy key (bound_thread b T) x T = Inr (t, T')"
    and u: "unique_rows th_clash T"
    and x: "x \<noteq> None \<Longrightarrow> x = get_any_by_thread_id tid T \<and> th_status (the x) \<noteq> ''deleted''"
  shows "unique_rows th_clash T' \<and> get_thread_by_id (th_id t) T' = Some t \<and> th_status t \<noteq> ''deleted''"
proof (cases "bound_thread b T")
  case (Some s)
  then obtain k where "get_thread_by_id k T = Some s" "th_status s \<noteq> ''deleted''"
    by (auto simp: bound_thread_def split: option.splits if_splits)
  moreover from this(1) have "s \<in> set T" using tbl_get_Some by (force simp: get_thread_by_id_def)
  ultimately show ?thesis using ch Some u get_thread_mem by (auto simp: choose_thread_def)
next
  case None
  show ?thesis
  proof (cases x)
    case (Some s)
    then have "s \<in> set T" "th_status s \<noteq> ''deleted''" using x tbl_get_Some by (force simp: get_any_by_thread_id_def)+
    then show ?thesis using ch None Some u get_thread_mem by (auto simp: choose_thread_def)
  next
    case n: None
    then show ?thesis using ch None thread_create_ok [OF _ u] by (fastforce simp: choose_thread_def)
  qed
qed

lemma binding_upsert_ok:
  assumes up: "binding_upsert i req B = Inr (b, B')" and u: "unique_rows tb_clash B"
  shows "unique_rows tb_clash B' \<and> get_by_endpoint_strategy_key (tb_endpoint_id req) (tb_thread_strategy req) (tb_conversation_key req) B' = Some b
    \<and> tb_thread_id b = tb_thread_id req \<and> tb_workspace_id b = tb_workspace_id req"
proof -
  let ?s = "strip (tb_thread_strategy req)" and ?k = "strip (tb_conversation_key req)"
  show ?thesis
  proof (cases "get_by_endpoint_strategy_key (tb_endpoint_id req) ?s ?k B")
    case None
    then obtain new where ins: "insert_row tb_clash ''endpoint_thread_bindings'' new B = Inr (b, B')"
      and new: "tb_endpoint_id new = tb_endpoint_id req" "tb_thread_strategy new = ?s" "tb_conversation_key new = ?k"
        "tb_thread_id new = tb_thread_id req" "tb_workspace_id new = tb_workspace_id req"
      using up by (auto simp: binding_upsert_def Let_def)
    have "unique_rows tb_clash B'" "b = new" "b \<in> set B'" using tb_key.insert_ok [OF ins u] by auto
    then show ?thesis using tb_key.get_mem [of B' b] new by (simp add: get_by_endpoint_strategy_key_def)
  next
    case (Some old)
    then have old: "old \<in> set B" "tb_endpoint_id old = tb_endpoint_id req" "tb_thread_strategy old = ?s" "tb_conversation_key old = ?k"
      using tbl_get_Some by (force simp: get_by_endpoint_strategy_key_def)+
    from Some up obtain new where rep: "replace_row tb_id tb_clash ''endpoint_thread_bindings'' old new B = Inr (b, B')"
      and new: "tb_id new = tb_id old" "tb_endpoint_id new = tb_endpoint_id req" "tb_thread_strategy new = ?s" "tb_conversation_key new = ?k"
        "tb_thread_id new = tb_thread_id req" "tb_workspace_id new = tb_workspace_id req"
      using old by (auto simp: binding_upsert_def Let_def)
    have "unique_rows tb_clash B'" "b = new" "b \<in> set B'" using tb.replace_ok [OF rep u new(1) old(1)] by auto
    then show ?thesis using tb_key.get_mem [of B' b] new by (simp add: get_by_endpoint_strategy_key_def)
  qed
qed

text \<open>A known binding is always updated: its keys stay as they are.\<close>

lemma binding_upsert_known:
  assumes u: "unique_rows tb_clash B"
    and b: "get_by_endpoint_strategy_key (tb_endpoint_id req) (tb_thread_strategy req) (tb_conversation_key req) B = Some b"
  shows "\<exists>b' B'. binding_upsert i req B = Inr (b', B') \<and> tb_id b' = tb_id b"
proof -
  let ?s = "strip (tb_thread_strategy req)" and ?k = "strip (tb_conversation_key req)"
  have b': "get_by_endpoint_strategy_key (tb_endpoint_id req) ?s ?k B = Some b" "b \<in> set B"
    using b tbl_get_Some by (force simp: get_by_endpoint_strategy_key_def)+
  define new where "new = b\<lparr>tb_thread_id := tb_thread_id req, tb_workspace_id := tb_workspace_id req,
               tb_address_id := tb_address_id req,
               tb_display_name := strip (or_str (tb_display_name req) (tb_display_name b)),
               tb_status := or_str (strip (or_str (tb_status req) (or_str (tb_status b) ''active''))) ''active'',
               tb_meta := or_list (tb_meta req) (tb_meta b)\<rparr>"
  have "tb_clash new r \<longleftrightarrow> tb_clash b r" for r by (simp add: new_def tb_clash_def)
  then have "\<not> list_ex (\<lambda>r. tb_id r \<noteq> tb_id b \<and> tb_clash new r) B"
    using tb.unique_eq [OF u b'(2)] by (auto simp: list_ex_iff)
  then have "binding_upsert i req B = Inr (new, tbl_upd tb_id (tb_id b) (\<lambda>_. new) B)"
    using b'(1) by (simp add: binding_upsert_def Let_def replace_row_def new_def)
  then show ?thesis by (simp add: new_def)
qed

lemma resolve_threadD:
  assumes "resolve_thread digest now i j token rq S = Inr ((b, t), S')"
  shows "\<exists>strategy key x T B.
      strategy = or_str (strip (or_str (tr_thread_strategy rq) ''per_conversation'')) ''per_conversation''
    \<and> strategy \<in> set valid_strategies
    \<and> canonical_key strategy (tr_endpoint_public_id rq) (tr_conversation_key rq)
        (case tr_address_row_id rq of Some i \<Rightarrow> get_address_by_id i (ts_addresses S) | None \<Rightarrow> None) (tr_explicit_thread_id rq) = Inr key
    \<and> x = (if tr_explicit_thread_id rq = [] then None else get_any_by_thread_id (tr_explicit_thread_id rq) (ts_threads S))
    \<and> choose_thread now i token rq strategy key
        (bound_thread (get_by_endpoint_strategy_key (tr_endpoint_row_id rq) strategy key (ts_bindings S)) (ts_threads S))
        (if explicit_thread_error rq x = None then x else None) (ts_threads S) = Inr (t, T)
    \<and> bind_thread digest j rq strategy key t (ts_bindings S) = Inr (b, B)
    \<and> S' = S\<lparr>ts_threads := T, ts_bindings := B\<rparr>"
proof -
  define strategy where "strategy = or_str (strip (or_str (tr_thread_strategy rq) ''per_conversation'')) ''per_conversation''"
  define addr where "addr = (case tr_address_row_id rq of Some i \<Rightarrow> get_address_by_id i (ts_addresses S) | None \<Rightarrow> None)"
  define x where "x = (if tr_explicit_thread_id rq = [] then None else get_any_by_thread_id (tr_explicit_thread_id rq) (ts_threads S))"
  note r = assms [unfolded resolve_thread_def Let_def, folded strategy_def addr_def x_def]
  obtain key where s: "strategy \<in> set valid_strategies"
    and k: "canonical_key strategy (tr_endpoint_public_id rq) (tr_conversation_key rq) addr (tr_explicit_thread_id rq) = Inr key"
    using r by (auto simp: rbind_def split: if_splits sum.splits)
  let ?b = "get_by_endpoint_strategy_key (tr_endpoint_row_id rq) strategy key (ts_bindings S)"
  let ?x = "if explicit_thread_error rq x = None then x else None"
  let ?c = "choose_thread now i token rq strategy key (bound_thread ?b (ts_threads S)) ?x (ts_threads S)"
  obtain t0 T where c: "?c = Inr (t0, T)"
    using r s k by (cases ?c) (auto simp: rbind_def split: if_splits)
  then obtain B where "bind_thread digest j rq strategy key t (ts_bindings S) = Inr (b, B)" "t0 = t"
      "S' = S\<lparr>ts_threads := T, ts_bindings := B\<rparr>"
    using r s k by (auto simp: rbind_def split: if_splits sum.splits)
  with s k c show ?thesis
    by (intro exI [of _ strategy] exI [of _ key] exI [of _ x] exI [of _ T] exI [of _ B])
      (simp only: strategy_def [symmetric] addr_def [symmetric] x_def [symmetric] simp_thms)
qed

lemma canonical_key_other:
  "strategy \<noteq> ''explicit_thread'' \<Longrightarrow> canonical_key strategy pid ck a ex = canonical_key strategy pid ck a ex'"
  by (simp add: canonical_key_def)

lemma explicit_accepted:
  assumes "x = (if tr_explicit_thread_id rq = [] then None else get_any_by_thread_id (tr_explicit_thread_id rq) T)"
    and "explicit_thread_error rq x = None" and "x \<noteq> None"
  shows "x = get_any_by_thread_id (tr_explicit_thread_id rq) T \<and> th_status (the x) \<noteq> ''deleted''"
proof -
  have ne: "tr_explicit_thread_id rq \<noteq> []" using assms(1,3) by auto
  obtain s where "x = Some s" using assms(3) by blast
  then show ?thesis using assms(1,2) ne by (auto simp: explicit_thread_error_def split: if_splits)
qed

text \<open>(C21)
  A conversation keeps its thread under every strategy but the one that names its thread
  explicitly: once a conversation of an endpoint has been resolved, the next call for the same
  conversation, with the same strategy and a workspace, is resolved to the same thread, without a
  new thread being made, whatever title, display name, metadata or explicit thread it carries.
  That includes a call for another principal or another workspace: under these strategies the
  binding is not compared with either, and only the workspace written into the binding changes.
  (The explicit strategy does compare them, and raises.)
\<close>

theorem conversation_keeps_thread:
  assumes u: "unique_rows th_clash (ts_threads S)" "unique_rows tb_clash (ts_bindings S)"
    and r: "resolve_thread digest now i j token rq S = Inr ((b, t), S1)"
    and s: "strip (tr_thread_strategy rq) \<noteq> ''explicit_thread''"
  shows "case resolve_thread digest now' i' j' token' (rq\<lparr>tr_principal_id := p, tr_workspace_row_id := Some w,
        tr_title := ti, tr_display_name := dn, tr_explicit_thread_id := ex, tr_metadata := md\<rparr>) S1 of
      Inr ((b2, t2), S2) \<Rightarrow> t2 = t \<and> ts_threads S2 = ts_threads S1 \<and> tb_id b2 = tb_id b \<and> tb_workspace_id b2 = w
    | Inl _ \<Rightarrow> False"
proof -
  let ?rq = "rq\<lparr>tr_principal_id := p, tr_workspace_row_id := Some w, tr_title := ti, tr_display_name := dn,
      tr_explicit_thread_id := ex, tr_metadata := md\<rparr>"
  let ?addr = "case tr_address_row_id rq of Some i \<Rightarrow> get_address_by_id i (ts_addresses S) | None \<Rightarrow> None"
  obtain strategy key x T B where strategy: "strategy = or_str (strip (or_str (tr_thread_strategy rq) ''per_conversation'')) ''per_conversation''"
    and valid: "strategy \<in> set valid_strategies"
    and key: "canonical_key strategy (tr_endpoint_public_id rq) (tr_conversation_key rq) ?addr (tr_explicit_thread_id rq) = Inr key"
    and x: "x = (if tr_explicit_thread_id rq = [] then None else get_any_by_thread_id (tr_explicit_thread_id rq) (ts_threads S))"
    and choose: "choose_thread now i token rq strategy key
        (bound_thread (get_by_endpoint_strategy_key (tr_endpoint_row_id rq) strategy key (ts_bindings S)) (ts_threads S))
        (if explicit_thread_error rq x = None then x else None) (ts_threads S) = Inr (t, T)"
    and bind: "bind_thread digest j rq strategy key t (ts_bindings S) = Inr (b, B)"
    and S1: "S1 = S\<lparr>ts_threads := T, ts_bindings := B\<rparr>"
    using resolve_threadD [OF r] by blast
  have "strip ''per_conversation'' = ''per_conversation''" by code_simp
  then have ns: "strategy \<noteq> ''explicit_thread''" using s unfolding strategy by (auto simp: or_str_def split: if_splits)
  have accepted: "(if explicit_thread_error rq x = None then x else None) = get_any_by_thread_id (tr_explicit_thread_id rq) (ts_threads S)
      \<and> th_status (the (if explicit_thread_error rq x = None then x else None)) \<noteq> ''deleted''"
    if some: "(if explicit_thread_error rq x = None then x else None) \<noteq> None"
  proof -
    have e: "explicit_thread_error rq x = None" "x \<noteq> None" using some by (auto split: if_splits)
    show ?thesis using explicit_accepted [OF x e] unfolding if_P [OF e(1)] .
  qed
  have T: "unique_rows th_clash T" "get_thread_by_id (th_id t) T = Some t" "th_status t \<noteq> ''deleted''"
    using choose_thread_ok [OF choose u(1) accepted] by simp_all
  obtain req where up: "binding_upsert j req (ts_bindings S) = Inr (b, B)"
    and req: "tb_endpoint_id req = tr_endpoint_row_id rq" "tb_thread_strategy req = strategy" "tb_conversation_key req = key"
      "tb_thread_id req = th_id t"
    using bind by (auto simp: bind_thread_def split: option.splits)
  note B = binding_upsert_ok [OF up u(2), unfolded req]
  have bound: "bound_thread (get_by_endpoint_strategy_key (tr_endpoint_row_id rq) strategy key B) T = Some t"
    using B T by (simp add: bound_thread_def)
  let ?req = "\<lparr>tb_id = [], tb_binding_id = binding_id digest [tr_endpoint_public_id rq, strategy, key],
           tb_endpoint_id = tr_endpoint_row_id rq, tb_thread_id = th_id t, tb_workspace_id = w,
           tb_address_id = tr_address_row_id rq, tb_thread_strategy = strategy, tb_conversation_key = key,
           tb_display_name = or_str dn ti, tb_status = ''active'', tb_meta = binding_metadata ?rq t\<rparr>"
  obtain b2 B2 where up2: "binding_upsert j' ?req B = Inr (b2, B2)" and id2: "tb_id b2 = tb_id b"
    using binding_upsert_known [of B ?req b j'] B by auto
  have w2: "tb_workspace_id b2 = w" using binding_upsert_ok [OF up2] B by simp
  have "resolve_thread digest now' i' j' token' ?rq S1 = Inr ((b2, t), S1\<lparr>ts_threads := T, ts_bindings := B2\<rparr>)"
    using valid key ns bound up2
    by (simp add: resolve_thread_def Let_def strategy [symmetric] S1 rbind_def canonical_key_other [OF ns, of _ _ _ ex "tr_explicit_thread_id rq"]
        choose_thread_def bind_thread_def cong: option.case_cong if_cong)
  then show ?thesis using id2 w2 by (simp add: S1)
qed

definition example_request :: thread_request where
  "example_request = \<lparr>tr_principal_id = ''p1'', tr_endpoint_row_id = ''e1'', tr_endpoint_public_id = ''wechat'',
     tr_workspace_row_id = Some ''w1'', tr_workspace_public_id = ''personal'', tr_thread_strategy = [],
     tr_conversation_key = '' room 7 '', tr_address_row_id = None, tr_title = [], tr_display_name = ''Room'',
     tr_explicit_thread_id = [], tr_metadata = None\<rparr>"

definition empty_threads :: thread_store where
  "empty_threads = \<lparr>ts_threads = [], ts_bindings = [], ts_addresses = []\<rparr>"

theorem conversation_keeps_thread_witness:
  "(let r1 = resolve_thread (\<lambda>s. s) 5 ''t1'' ''b1'' ''tok1'' example_request empty_threads;
        r2 = resolve_thread (\<lambda>s. s) 9 ''t2'' ''b2'' ''tok2'' (example_request\<lparr>tr_principal_id := ''p2'', tr_workspace_row_id := Some ''w2'',
          tr_title := [], tr_display_name := [], tr_explicit_thread_id := [], tr_metadata := None\<rparr>) (snd (projr r1)) in
     th_principal_id (snd (fst (projr r1))) = ''p1'' \<and> th_home_workspace_id (snd (fst (projr r1))) = ''w1''
     \<and> (case r2 of Inr ((b2, t2), _) \<Rightarrow> t2 = snd (fst (projr r1)) \<and> tb_workspace_id b2 = ''w2'' | Inl _ \<Rightarrow> False))"
proof -
  let ?r1 = "resolve_thread (\<lambda>s. s) 5 ''t1'' ''b1'' ''tok1'' example_request empty_threads"
  have e: "\<not> isl ?r1" "strip (tr_thread_strategy example_request) \<noteq> ''explicit_thread''"
    "unique_rows th_clash (ts_threads empty_threads)" "unique_rows tb_clash (ts_bindings empty_threads)"
    "th_principal_id (snd (fst (projr ?r1))) = ''p1''" "th_home_workspace_id (snd (fst (projr ?r1))) = ''w1''"
    by code_simp+
  have "?r1 = Inr ((fst (fst (projr ?r1)), snd (fst (projr ?r1))), snd (projr ?r1))" using Inr_projr [OF e(1)] by simp
  from conversation_keeps_thread [OF e(3,4) this e(2), where now' = 9 and i' = "''t2''" and j' = "''b2''" and token' = "''tok2''" and p = "''p2''"
      and w = "''w2''" and ti = "[]" and dn = "[]" and ex = "[]" and md = None] e(5,6)
  show ?thesis by (simp add: Let_def split: sum.splits prod.splits)
qed

section \<open>Titles set by hand\<close>

definition titled_by_hand :: "string \<Rightarrow> thread \<Rightarrow> bool" where
  "titled_by_hand title t \<longleftrightarrow> th_title t = title \<and> truthy (dget (th_meta t) ''manual_title'')"

text \<open>The operations on threads, as far as they do not rename the thread \<open>i\<close> themselves.\<close>

inductive thread_step :: "row_id \<Rightarrow> thread list \<Rightarrow> thread list \<Rightarrow> bool" for i where
  create: "thread_create now j tid prin home proj title md T = Inr (t, T') \<Longrightarrow> thread_step i T T'"
| ensure_default: "ensure_default_thread now j token prin home ws key title T = Inr (t, T') \<Longrightarrow> thread_step i T T'"
| change_fields: "j \<noteq> i \<or> (dget upd ''title'' = PNone \<and> \<not> dhas (as_dict (dget upd ''metadata'')) ''manual_title'')
    \<Longrightarrow> thread_step i T (snd (update_fields now j upd T))"
| merge_metadata: "j \<noteq> i \<or> \<not> dhas md ''manual_title'' \<Longrightarrow> thread_step i T (snd (update_metadata now j md T))"
| summarise: "j \<noteq> i \<or> \<not> dhas (dict_or md) ''manual_title'' \<Longrightarrow> thread_step i T (snd (update_summary now j s md T))"
| delete: "thread_step i T (snd (soft_delete now now_iso tid prin force T))"
| auto_title: "thread_step i T (snd (apply_auto_title loads now now_iso tid title src model provider T))"
| auto_title_failed: "thread_step i T (snd (record_auto_title_failure now now_iso tid src err T))"

lemma dget_dmerge_other: "\<not> dhas b k \<Longrightarrow> dget (dmerge a b) k = dget a k"
proof (induction b arbitrary: a)
  case (Cons p b)
  then show ?case by (cases p) (auto simp: dmerge_def dhas_def split: if_splits)
qed (simp add: dmerge_def)

lemma change_keeps_title:
  assumes g: "get_thread_by_id i T = Some t" "titled_by_hand title t"
    and f: "\<And>t. th_id (f t) = th_id t"
      "\<And>t. j = i \<Longrightarrow> get_thread_by_id i T = Some t \<Longrightarrow> titled_by_hand title t \<Longrightarrow> titled_by_hand title (f t)"
  shows "\<exists>t'. get_thread_by_id i (snd (change_thread now j f T)) = Some t' \<and> titled_by_hand title t'"
proof -
  have k: "th_id (touch now f t) = th_id t" for t by (simp add: touch_def f(1))
  have op: "row_op th_id (touch now f)" by unfold_locales (rule k)
  show ?thesis
  proof (cases "j = i")
    case True
    then have "get_thread_by_id i (snd (change_thread now j f T)) = Some (touch now f t)"
      using row_op.get_upd_same [OF op] g(1) by (simp add: change_thread_def get_thread_by_id_def)
    moreover have "titled_by_hand title (touch now f t)"
      using f(2) [OF True g] g(2) by (simp add: touch_def titled_by_hand_def)
    ultimately show ?thesis by blast
  next
    case False
    then show ?thesis
      using row_op.get_upd_other [OF op, of i j] g by (simp add: change_thread_def get_thread_by_id_def)
  qed
qed

lemma create_keeps_title:
  assumes "thread_create now j tid prin home proj title0 md T = Inr (r, T')" and "unique_rows th_clash T"
    and "get_thread_by_id i T = Some t"
  shows "unique_rows th_clash T' \<and> get_thread_by_id i T' = Some t"
  using thread_create_ok [OF assms(1,2)] assms(3) by blast

lemma unique_change:
  assumes "unique_rows th_clash T" and "\<And>t. th_id (f t) = th_id t \<and> th_thread_id (f t) = th_thread_id t"
  shows "unique_rows th_clash (snd (change_thread now j f T))"
proof -
  have "th_clash (touch now f a) (touch now f b) = th_clash a b" "th_clash (touch now f a) b = th_clash a b"
    "th_clash a (touch now f b) = th_clash a b" for a b
    using assms(2) by (simp_all add: th_clash_def touch_def)
  then show ?thesis unfolding change_thread_def tbl_upd_def snd_conv
    by (intro th.unique_map [OF assms(1)]) (auto split: if_splits)
qed

lemma field_updates [simp]:
  "th_id (title_field u t) = th_id t" "th_thread_id (title_field u t) = th_thread_id t"
  "th_id (status_field u t) = th_id t" "th_thread_id (status_field u t) = th_thread_id t"
  "th_id (project_field u t) = th_id t" "th_thread_id (project_field u t) = th_thread_id t"
  "th_id (metadata_field u t) = th_id t" "th_thread_id (metadata_field u t) = th_thread_id t"
  by (simp_all add: title_field_def status_field_def project_field_def metadata_field_def)

lemma field_titles:
  "titled_by_hand title (status_field u t) = titled_by_hand title t"
  "titled_by_hand title (project_field u t) = titled_by_hand title t"
  "\<not> dhas (as_dict (dget u ''metadata'')) ''manual_title'' \<Longrightarrow> titled_by_hand title (metadata_field u t) = titled_by_hand title t"
  "dget u ''title'' = PNone \<Longrightarrow> title_field u t = t"
  by (simp_all add: status_field_def project_field_def metadata_field_def title_field_def titled_by_hand_def dget_dmerge_other)

lemma thread_step_keeps_title:
  assumes "thread_step i T T'" and "unique_rows th_clash T"
    and "get_thread_by_id i T = Some t" and "titled_by_hand title t"
  shows "unique_rows th_clash T' \<and> (\<exists>t'. get_thread_by_id i T' = Some t' \<and> titled_by_hand title t')"
  using assms
proof (induction rule: thread_step.induct)
  case (create now j tid prin home proj title0 md T r T')
  then show ?case using create_keeps_title by blast
next
  case (ensure_default now j token prin home ws key title0 T r T')
  then show ?case using create_keeps_title
    by (fastforce simp: ensure_default_thread_def Let_def split: option.splits)
next
  case (change_fields j upd T now)
  let ?f = "\<lambda>t. metadata_field upd (project_field upd (status_field upd (title_field upd t)))"
  have "\<exists>t'. get_thread_by_id i (snd (change_thread now j ?f T)) = Some t' \<and> titled_by_hand title t'"
    using change_fields(1) by (intro change_keeps_title [OF change_fields(3,4)]) (auto simp: field_titles)
  then show ?case using unique_change [OF change_fields(2), of ?f] by (simp add: update_fields_def)
next
  case (merge_metadata j md T now)
  let ?f = "\<lambda>t. t\<lparr>th_meta := dmerge (th_meta t) md\<rparr>"
  have "\<exists>t'. get_thread_by_id i (snd (change_thread now j ?f T)) = Some t' \<and> titled_by_hand title t'"
    using merge_metadata(1) by (intro change_keeps_title [OF merge_metadata(3,4)]) (auto simp: titled_by_hand_def dget_dmerge_other)
  then show ?case using unique_change [OF merge_metadata(2), of ?f] by (simp add: update_metadata_def)
next
  case (summarise j md T now s)
  let ?f = "\<lambda>t. t\<lparr>th_summary := strip s, th_meta := dmerge (th_meta t) (dict_or md)\<rparr>"
  have "\<exists>t'. get_thread_by_id i (snd (change_thread now j ?f T)) = Some t' \<and> titled_by_hand title t'"
    using summarise(1) by (intro change_keeps_title [OF summarise(3,4)]) (auto simp: titled_by_hand_def dget_dmerge_other)
  then show ?case using unique_change [OF summarise(2), of ?f] by (simp add: update_summary_def)
next
  case (delete T now now_iso tid prin force)
  let ?f = "\<lambda>t. t\<lparr>th_status := ''deleted'', th_meta := dset ''deleted_at'' (PStr now_iso) (th_meta t)\<rparr>"
  have c: "\<exists>t'. get_thread_by_id i (snd (change_thread now j ?f T)) = Some t' \<and> titled_by_hand title t'" for j
    by (intro change_keeps_title [OF delete(2,3)]) (auto simp: titled_by_hand_def)
  have "snd (soft_delete now now_iso tid prin force T) = T \<or> (\<exists>j. snd (soft_delete now now_iso tid prin force T) = snd (change_thread now j ?f T))"
    by (auto simp: soft_delete_def Let_def case_prod_beta split: option.split)
  then show ?case using c delete unique_change [OF delete(1), of ?f] by auto
next
  case (auto_title T loads now now_iso tid title0 src model provider)
  let ?f = "\<lambda>t. t\<lparr>th_title := extract_title_from_model_text loads 24 title0, th_meta := auto_title_meta now_iso src model provider (th_meta t), th_updated_at := now\<rparr>"
  let ?T' = "snd (apply_auto_title loads now now_iso tid title0 src model provider T)"
  show ?case
  proof (cases "?T' = T")
    case False
    then obtain x where x: "get_any_by_thread_id tid T = Some x" "can_auto_title_thread (Some x)" "?T' = snd (change_thread now (th_id x) ?f T)"
      by (cases "get_any_by_thread_id tid T") (auto simp: apply_auto_title_def Let_def can_auto_title_thread_def split: if_splits)
    have "th_id x \<noteq> i"
    proof
      assume "th_id x = i"
      moreover have "x \<in> set T" using x(1) tbl_get_Some by (force simp: get_any_by_thread_id_def)
      ultimately have "x = t" using get_thread_mem [OF auto_title(1)] auto_title(2) by fastforce
      then show False using x(2) auto_title(3) by (simp add: can_auto_title_thread_def titled_by_hand_def)
    qed
    then have "\<exists>t'. get_thread_by_id i (snd (change_thread now (th_id x) ?f T)) = Some t' \<and> titled_by_hand title t'"
      by (intro change_keeps_title [OF auto_title(2,3)]) auto
    then show ?thesis using unique_change [OF auto_title(1), of ?f] x(3) by simp
  qed (use auto_title in auto)
next
  case (auto_title_failed T now now_iso tid src err)
  let ?f = "\<lambda>t. t\<lparr>th_meta := dmerge (th_meta t) [(''auto_title_pending'', PBool False),
                        (''auto_title_error'', PStr (take 240 (or_str err ''title_generation_failed''))),
                        (''auto_title_failed_at'', PStr now_iso)],
                    th_updated_at := now\<rparr>"
  have c: "\<exists>t'. get_thread_by_id i (snd (change_thread now j ?f T)) = Some t' \<and> titled_by_hand title t'" for j
    by (intro change_keeps_title [OF auto_title_failed(2,3)]) (auto simp: titled_by_hand_def dget_dmerge_other dhas_def)
  have "snd (record_auto_title_failure now now_iso tid src err T) = T
      \<or> (\<exists>j. snd (record_auto_title_failure now now_iso tid src err T) = snd (change_thread now j ?f T))"
    by (auto simp: record_auto_title_failure_def split: option.split)
  then show ?case using c auto_title_failed unique_change [OF auto_title_failed(1), of ?f] by auto
qed

text \<open>A title set by hand stays: after \<open>update_thread\<close> has set the title of a thread, no automatic
  title, no failure report, no summary, no deletion and no change of other fields replaces it;
  it is there until the title is set again or the mark of manual titles is overwritten through
  the metadata.
\<close>

theorem manual_title_stays:
  assumes "unique_rows th_clash T" and "get_thread_by_id i T = Some t"
    and "dget upd ''title'' \<noteq> PNone" and "\<not> dhas (as_dict (dget upd ''metadata'')) ''manual_title''"
    and "(thread_step i)\<^sup>*\<^sup>* (snd (update_fields now i upd T)) T'"
  shows "map_option th_title (get_thread_by_id i T') = Some (clean (dget upd ''title''))"
proof -
  let ?title = "clean (dget upd ''title'')"
  let ?f = "\<lambda>t. metadata_field upd (project_field upd (status_field upd (title_field upd t)))"
  have hand: "titled_by_hand ?title (?f t)"
    using assms(3,4) by (simp add: field_titles) (simp add: titled_by_hand_def title_field_def)
  have "row_op th_id (touch now ?f)" by unfold_locales (simp add: touch_def)
  from row_op.get_upd_same [OF this] have "get_thread_by_id i (snd (update_fields now i upd T)) = Some (touch now ?f t)"
    using assms(2) by (simp add: update_fields_def change_thread_def get_thread_by_id_def)
  moreover have "titled_by_hand ?title (touch now ?f t)"
    using hand by (cases "?f t = t") (simp_all add: touch_def titled_by_hand_def)
  moreover have "unique_rows th_clash (snd (update_fields now i upd T))"
    unfolding update_fields_def by (rule unique_change [OF assms(1)]) simp
  ultimately have "\<exists>t0. unique_rows th_clash (snd (update_fields now i upd T))
      \<and> get_thread_by_id i (snd (update_fields now i upd T)) = Some t0 \<and> titled_by_hand ?title t0" by blast
  with assms(5) have "\<exists>t'. unique_rows th_clash T' \<and> get_thread_by_id i T' = Some t' \<and> titled_by_hand ?title t'"
    by (induction rule: rtranclp_induct) (use thread_step_keeps_title in blast)+
  then show ?thesis by (auto simp: titled_by_hand_def)
qed

definition example_thread :: thread where
  "example_thread = \<lparr>th_id = ''t1'', th_thread_id = ''thr_1'', th_principal_id = ''p'', th_home_workspace_id = ''w'', th_project_id = PNone,
     th_active_branch_id = None, th_current_leaf_message_id = None, th_title = ''New  Chat'', th_status = ''active'', th_summary = [],
     th_meta = [], th_created_at = 0, th_updated_at = 0\<rparr>"

theorem manual_title_stays_witness:
  "map_option th_title (get_thread_by_id ''t1'' (snd (apply_auto_title (\<lambda>s. None) 1 ''now'' ''thr_1'' ''Weather'' [] ''m'' ''p'' [example_thread])))
     = Some ''Weather''
   \<and> map_option th_title (get_thread_by_id ''t1'' (snd (apply_auto_title (\<lambda>s. None) 2 ''now'' ''thr_1'' ''Weather'' [] ''m'' ''p''
       (snd (update_fields 1 ''t1'' [(''title'', PStr '' New chat '')] [example_thread]))))) = Some ''New chat''"
proof
  let ?upd = "[(''title'', PStr '' New chat '')]"
  let ?T = "snd (update_fields 1 ''t1'' ?upd [example_thread])"
  show "map_option th_title (get_thread_by_id ''t1'' (snd (apply_auto_title (\<lambda>s. None) 1 ''now'' ''thr_1'' ''Weather'' [] ''m'' ''p'' [example_thread])))
     = Some ''Weather''" by code_simp
  have e: "unique_rows th_clash [example_thread]" "get_thread_by_id ''t1'' [example_thread] = Some example_thread"
    "dget ?upd ''title'' \<noteq> PNone" "\<not> dhas (as_dict (dget ?upd ''metadata'')) ''manual_title''"
    "clean (dget ?upd ''title'') = ''New chat''" by code_simp+
  have "(thread_step ''t1'')\<^sup>*\<^sup>* ?T (snd (apply_auto_title (\<lambda>s. None) 2 ''now'' ''thr_1'' ''Weather'' [] ''m'' ''p'' ?T))"
    by (rule r_into_rtranclp) (rule thread_step.auto_title)
  from manual_title_stays [OF e(1-4) this] e(5)
  show "map_option th_title (get_thread_by_id ''t1'' (snd (apply_auto_title (\<lambda>s. None) 2 ''now'' ''thr_1'' ''Weather'' [] ''m'' ''p'' ?T)))
      = Some ''New chat''" by simp
qed

section \<open>Default threads\<close>

lemma insort_key_max: "\<forall>x \<in> set xs. k x < k y \<Longrightarrow> insort_key k y xs = xs @ [y]"
  by (induction xs) (simp_all add: not_le [symmetric])

lemma sorted_desc_max:
  assumes "\<And>x. x \<in> set xs \<Longrightarrow> k x < k y"
  shows "sorted_desc k (xs @ [y]) = y # sorted_desc k xs"
proof -
  have "insort_key k y (sort_key k (rev xs)) = sort_key k (rev xs) @ [y]"
    by (rule insort_key_max) (simp add: assms)
  then show ?thesis by (simp add: sorted_desc_def)
qed

text \<open>What precedes an element in descending order is all that is greater.\<close>

lemma take_sorted_desc:
  assumes "x \<in> set (take n (sorted_desc k xs))"
  shows "length (filter (\<lambda>y. k x < k y) xs) < n"
proof -
  let ?ys = "sorted_desc k xs"
  obtain m where m: "m < n" "m < length ?ys" "?ys ! m = x" using assms by (auto simp: in_set_conv_nth)
  have "filter (\<lambda>y. k x < k y) (drop m ?ys) = []"
  proof -
    have "k y \<le> k x" if y: "y \<in> set (drop m ?ys)" for y
    proof -
      obtain j where j: "m \<le> j" "j < length ?ys" "y = ?ys ! j"
        using y by (auto simp: in_set_conv_nth) (metis add.commute le_add2 less_diff_conv)
      show ?thesis
      proof (cases "j = m")
        case False
        then show ?thesis using sorted_wrt_nth_less [OF sorted_desc_sorted [of k xs], of m j] j m by simp
      qed (use j m in simp)
    qed
    then show ?thesis by (auto simp: filter_empty_conv leD)
  qed
  then have "length (filter (\<lambda>y. k x < k y) ?ys) = length (filter (\<lambda>y. k x < k y) (take m ?ys))"
    by (metis append_take_drop_id append_Nil2 filter_append)
  also have "\<dots> \<le> m" using length_filter_le [of _ "take m ?ys"] by (metis length_take min.bounded_iff)
  finally have "length (filter (\<lambda>y. k x < k y) ?ys) < n" using m(1) by simp
  moreover have "length (filter P ?ys) = length (filter P xs)" for P
    by (simp add: sorted_desc_def rev_filter [symmetric] filter_sort)
  ultimately show ?thesis by simp
qed

lemma default_key_normal: "or_str (strip (or_str key ''frontend.default'')) ''frontend.default'' \<noteq> []"
    "strip (or_str (strip (or_str key ''frontend.default'')) ''frontend.default'')
      = or_str (strip (or_str key ''frontend.default'')) ''frontend.default''"
proof -
  have "strip ''frontend.default'' = ''frontend.default''" by code_simp
  then show "strip (or_str (strip (or_str key ''frontend.default'')) ''frontend.default'')
      = or_str (strip (or_str key ''frontend.default'')) ''frontend.default''" by (simp add: or_str_def)
qed simp

text \<open>
  The default thread is made once: when \<open>ensure_default_thread\<close> has returned a thread, asking
  again returns the same one and changes nothing, provided that the clock had moved on since the
  other threads were last changed.
\<close>

theorem default_thread_found_again:
  assumes "ensure_default_thread now i token prin home ws key title T = Inr (t, T')"
    and "list_all (\<lambda>r. recency r < (now, now)) T"
  shows "ensure_default_thread now' i' token' prin home ws key title' T' = Inr (t, T')"
proof -
  define h where "h = (case home of Some h \<Rightarrow> Some h | None \<Rightarrow> ws)"
  define K where "K = or_str (strip (or_str key ''frontend.default'')) ''frontend.default''"
  have K: "K \<noteq> []" "strip K = K" using default_key_normal [of key] by (simp_all add: K_def)
  note e = assms(1) [unfolded ensure_default_thread_def Let_def, folded h_def K_def]
  have "find_default prin h K T' = Some t"
  proof (cases "find_default prin h K T")
    case (Some x)
    with e show ?thesis by simp
  next
    case None
    with e have "thread_create now i (''thr_'' @ token) prin h PNone (or_str title ''Desktop Chat'') (Some [(''default_key'', PStr K)]) T = Inr (t, T')"
      by simp
    then have t: "T' = T @ [t]" "recency t = (now, now)" "listed prin h PNone t" "dget (th_meta t) ''default_key'' = PStr K"
      by (auto simp: thread_create_def insert_row_def recency_def listed_def dget_def dict_or_def split: option.splits if_splits)
    have "sorted_desc recency (filter (listed prin h PNone) T @ [t]) = t # sorted_desc recency (filter (listed prin h PNone) T)"
      using assms(2) t(2) by (intro sorted_desc_max) (auto simp: list_all_iff)
    then show ?thesis using K t by (simp add: find_default_def list_for_principal_def thread_limit_def)
  qed
  then show ?thesis unfolding ensure_default_thread_def Let_def h_def [symmetric] K_def [symmetric] by simp
qed

text \<open>
  A default thread is lost behind two hundred others: the search for it looks only at the two
  hundred threads changed last, so when that many others in the workspace have been changed
  since, \<open>ensure_default_thread\<close> does not find it and makes a second one.
\<close>

theorem default_thread_lost:
  assumes others: "list_all (\<lambda>r. r = t \<or> dget (th_meta r) ''default_key'' \<noteq> PStr (or_str (strip (or_str key ''frontend.default'')) ''frontend.default'')) T"
    and later: "200 \<le> length (filter (\<lambda>r. listed prin (Some w) PNone r \<and> recency t < recency r) T)"
    and fresh: "list_all (\<lambda>r. th_id r \<noteq> i \<and> th_thread_id r \<noteq> ''thr_'' @ token) T"
  shows "case ensure_default_thread now i token prin (Some w) ws key title T of
      Inr (t', T') \<Rightarrow> T' = T @ [t'] \<and> dget (th_meta t') ''default_key'' = PStr (or_str (strip (or_str key ''frontend.default'')) ''frontend.default'')
    | Inl _ \<Rightarrow> False"
proof -
  define K where "K = or_str (strip (or_str key ''frontend.default'')) ''frontend.default''"
  have K: "K \<noteq> []" "strip K = K" using default_key_normal [of key] by (simp_all add: K_def)
  let ?L = "filter (listed prin (Some w) PNone) T"
  have "t \<notin> set (take 200 (sorted_desc recency ?L))"
  proof
    assume "t \<in> set (take 200 (sorted_desc recency ?L))"
    from take_sorted_desc [OF this] have "length (filter (\<lambda>r. recency t < recency r) ?L) < 200" .
    with later show False by (simp add: conj_commute)
  qed
  moreover have "set (take 200 (sorted_desc recency ?L)) \<subseteq> set T" using set_take_subset by fastforce
  ultimately have "find_default prin (Some w) K T = None"
    using others K by (auto simp: find_default_def list_for_principal_def thread_limit_def find_None_iff list_all_iff K_def [symmetric])
  moreover have "\<not> list_ex (th_clash \<lparr>th_id = i, th_thread_id = ''thr_'' @ token, th_principal_id = prin, th_home_workspace_id = w,
      th_project_id = PNone, th_active_branch_id = None, th_current_leaf_message_id = None, th_title = or_str title ''Desktop Chat'',
      th_status = ''active'', th_summary = [], th_meta = [(''default_key'', PStr K)], th_created_at = now, th_updated_at = now\<rparr>) T"
    using fresh by (auto simp: list_ex_iff list_all_iff th_clash_def)
  ultimately show ?thesis unfolding K_def [symmetric]
    by (simp add: ensure_default_thread_def Let_def K_def [symmetric] thread_create_def insert_row_def dict_or_def dget_def)
qed

definition default_thread :: thread where
  "default_thread = example_thread\<lparr>th_meta := [(''default_key'', PStr ''frontend.default'')]\<rparr>"

theorem default_thread_found_again_witness:
  "(let r = ensure_default_thread 5 ''t2'' ''a'' ''p'' None (Some ''w'') [] [] [example_thread] in
     th_title (fst (projr r)) = ''Desktop Chat''
     \<and> ensure_default_thread 6 ''t3'' ''b'' ''p'' None (Some ''w'') [] [] (snd (projr r)) = r)"
proof -
  let ?r = "ensure_default_thread 5 ''t2'' ''a'' ''p'' None (Some ''w'') [] [] [example_thread]"
  have e: "\<not> isl ?r" "list_all (\<lambda>r. recency r < (5, 5)) [example_thread]" "th_title (fst (projr ?r)) = ''Desktop Chat''"
    by code_simp+
  have "?r = Inr (fst (projr ?r), snd (projr ?r))" using Inr_projr [OF e(1)] by simp
  from default_thread_found_again [OF this e(2), of 6 "''t3''" "''b''" "[]"] e(3) Inr_projr [OF e(1)]
  show ?thesis by (simp add: Let_def)
qed

definition busy_threads :: "thread list" where
  "busy_threads = default_thread #
     map (\<lambda>n. example_thread\<lparr>th_id := ''x'' @ nat_str n, th_thread_id := ''x'' @ nat_str n, th_updated_at := int n + 1\<rparr>) [0..<200]"

theorem default_thread_lost_witness:
  "get_by_thread_id ''thr_1'' busy_threads = Some default_thread
   \<and> (case ensure_default_thread 500 ''y'' ''new'' ''p'' (Some ''w'') None [] [] busy_threads of
        Inr (t', T') \<Rightarrow> T' = busy_threads @ [t'] | Inl _ \<Rightarrow> False)"
proof
  show "get_by_thread_id ''thr_1'' busy_threads = Some default_thread"
    by (simp add: busy_threads_def get_by_thread_id_def get_any_by_thread_id_def default_thread_def example_thread_def)
next
  have K: "or_str (strip (or_str [] ''frontend.default'')) ''frontend.default'' = ''frontend.default''" by code_simp
  have "recency default_thread = (0, 0)" by code_simp
  then have l: "200 \<le> length (filter (\<lambda>r. listed ''p'' (Some ''w'') PNone r \<and> recency default_thread < recency r) busy_threads)"
    by (simp add: busy_threads_def listed_def recency_def example_thread_def default_thread_def filter_map comp_def filter_True)
  have o: "list_all (\<lambda>r. r = default_thread \<or> dget (th_meta r) ''default_key'' \<noteq> PStr (or_str (strip (or_str [] ''frontend.default'')) ''frontend.default'')) busy_threads"
    unfolding K by (simp add: busy_threads_def list_all_iff example_thread_def dget_def)
  have f: "list_all (\<lambda>r. th_id r \<noteq> ''y'' \<and> th_thread_id r \<noteq> ''thr_'' @ ''new'') busy_threads"
    by (simp add: busy_threads_def list_all_iff default_thread_def example_thread_def)
  show "case ensure_default_thread 500 ''y'' ''new'' ''p'' (Some ''w'') None [] [] busy_threads of
        Inr (t', T') \<Rightarrow> T' = busy_threads @ [t'] | Inl _ \<Rightarrow> False"
    using default_thread_lost [OF o l f, where now = 500 and ws = None and title = "[]"] by (auto split: sum.splits)
qed

end
