(* ===== verification/Messages.thy ===== *)
theory Messages
  imports Threads
begin

text \<open>
  Messages of a thread: the table of \<^verbatim>\<open>core/db/models/message.py\<close>, the repository
  \<^verbatim>\<open>core/db/repositories/message.py\<close> and the service \<^verbatim>\<open>core/services/message_service.py\<close>.

  The rows of the table are in the order of creation, which is the order of \<open>created_at\<close>; rows
  created at the same instant keep that order. A message has an optional parent; following the
  parents from the current leaf of the thread gives the branch that is shown. The loop that
  follows them remembers the rows it has seen.
\<close>

section \<open>The table\<close>

record message =
  ms_id :: row_id
  ms_message_id :: string
  ms_thread_id :: row_id
  ms_session_id :: "row_id option"
  ms_run_id :: "row_id option"
  ms_role :: string
  ms_channel :: string
  ms_content :: string
  ms_content_type :: string
  ms_status :: string
  ms_created_by_actor_id :: "row_id option"
  ms_origin_endpoint_id :: "row_id option"
  ms_active_workspace_id :: "row_id option"
  ms_parent_message_id :: "row_id option"
  ms_branch_id :: "row_id option"
  ms_revision_of_message_id :: "row_id option"
  ms_variant_index :: int
  ms_visibility :: string
  ms_meta :: pydict
  ms_created_at :: instant

definition ms_clash :: "message \<Rightarrow> message \<Rightarrow> bool" where
  "ms_clash a b \<longleftrightarrow> ms_id a = ms_id b \<or> ms_message_id a = ms_message_id b"

interpretation ms: unique_table ms_id ms_clash
  by unfold_locales (auto simp: ms_clash_def)

text \<open>\<open>request\<close> carries the arguments, with the visibility still raw.\<close>

definition message_create :: "instant \<Rightarrow> row_id \<Rightarrow> message \<Rightarrow> message list \<Rightarrow> pyerr + message \<times> message list" where
  "message_create now new_id request M =
     insert_row ms_clash ''messages''
       (request\<lparr>ms_id := new_id, ms_visibility := or_str (strip (or_str (ms_visibility request) ''active'')) ''active'',
          ms_created_at := now\<rparr>) M"

definition list_by_thread_id :: "row_id \<Rightarrow> message list \<Rightarrow> message list" where
  "list_by_thread_id thread M = sort_key ms_created_at (filter (\<lambda>m. ms_thread_id m = thread) M)"

definition get_message_by_id :: "row_id \<Rightarrow> message list \<Rightarrow> message option" where
  "get_message_by_id i M = tbl_get ms_id i M"

definition get_by_message_id :: "string \<Rightarrow> message list \<Rightarrow> message option" where
  "get_by_message_id message_id M = tbl_get ms_message_id message_id M"

section \<open>The path of a branch\<close>

text \<open>
  \<open>by_id\<close> is the dictionary of the rows of the thread. The loop runs while there is a current
  row that was not seen; each turn marks one more key of the dictionary as seen, so the number
  of keys that are not seen decreases.
\<close>

definition unseen :: "(row_id \<times> message) list \<Rightarrow> row_id list \<Rightarrow> nat" where
  "unseen by_id seen = card (fst ` set by_id - set seen)"

function path_loop :: "(row_id \<times> message) list \<Rightarrow> row_id option \<Rightarrow> row_id list \<Rightarrow> message list \<Rightarrow> message list" where
  "path_loop by_id i seen path =
     (case i of
        None \<Rightarrow> path
      | Some k \<Rightarrow>
          (case map_of by_id k of
             None \<Rightarrow> path
           | Some m \<Rightarrow>
               if k \<in> set seen then path
               else path_loop by_id (ms_parent_message_id m) (k # seen) (path @ [m])))"
  by pat_completeness auto

termination
proof (relation "measure (\<lambda>(by_id, i, seen, path). unseen by_id seen)")
  fix by_id :: "(row_id \<times> message) list" and i :: "row_id option" and seen :: "row_id list" and path k m
  assume "i = Some k" "map_of by_id k = Some m" "k \<notin> set seen"
  then have "k \<in> fst ` set by_id - set seen" by (force dest: map_of_SomeD)
  then have "card (fst ` set by_id - set seen - {k}) < card (fst ` set by_id - set seen)"
    by (intro card_Diff1_less) simp_all
  moreover have "fst ` set by_id - set (k # seen) = fst ` set by_id - set seen - {k}" by auto
  ultimately show "((by_id, ms_parent_message_id m, k # seen, path @ [m]), (by_id, i, seen, path))
      \<in> measure (\<lambda>(by_id, i, seen, path). unseen by_id seen)"
    by (simp add: unseen_def)
qed simp

declare path_loop.simps [simp del]

definition list_branch_path :: "row_id \<Rightarrow> row_id option \<Rightarrow> message list \<Rightarrow> message list" where
  "list_branch_path thread leaf M =
     (let by_id = map (\<lambda>m. (ms_id m, m)) (list_by_thread_id thread M)
      in if leaf = None then [] else rev (path_loop by_id leaf [] []))"

section \<open>The window of messages for the model\<close>

definition context_roles :: "string list" where
  "context_roles = [''user'', ''assistant'']"

definition in_context :: "row_id \<Rightarrow> string \<Rightarrow> message list \<Rightarrow> message \<Rightarrow> bool" where
  "in_context thread before M m \<longleftrightarrow>
     ms_thread_id m = thread \<and> ms_role m \<in> set context_roles \<and> ms_channel m = ''message'' \<and> ms_status m = ''completed''
     \<and> (case (if before = [] then None else get_by_message_id before M) of
          Some b \<Rightarrow> if ms_thread_id b = thread then ms_created_at m < ms_created_at b else True
        | None \<Rightarrow> True)
     \<and> (before = [] \<or> ms_message_id m \<noteq> before)"

definition thread_context_query :: "row_id \<Rightarrow> string \<Rightarrow> message list \<Rightarrow> message list" where
  "thread_context_query thread before_message_id M = filter (in_context thread (strip before_message_id) M) M"

definition matches_endpoint_message_id :: "string \<Rightarrow> message \<Rightarrow> bool" where
  "matches_endpoint_message_id eid m \<longleftrightarrow>
     strip eid \<noteq> [] \<and> clean (dget (ms_meta m) ''endpoint_message_id'') = strip eid"

text \<open>\<open>max(1, min(int(x or d), m))\<close>.\<close>

definition bounded :: "int \<Rightarrow> int \<Rightarrow> int \<Rightarrow> nat" where
  "bounded dflt upper x = nat (max 1 (min (if x = 0 then dflt else x) upper))"

text \<open>The loop over the rows, newest first: the rows kept and the number of rows skipped.\<close>

fun window_loop :: "string \<Rightarrow> nat \<Rightarrow> message list \<Rightarrow> message list \<Rightarrow> nat \<Rightarrow> message list \<times> nat" where
  "window_loop eid most [] kept skipped = (kept, skipped)"
| "window_loop eid most (m # ms) kept skipped =
     (if matches_endpoint_message_id eid m then window_loop eid most ms kept (Suc skipped)
      else if length kept + 1 \<ge> most then (kept @ [m], skipped)
      else window_loop eid most ms (kept @ [m]) skipped)"

record context_window =
  cw_messages :: "message list"
  cw_total_count :: nat
  cw_older_count :: nat

definition newest_first :: "message list \<Rightarrow> message list" where
  "newest_first ms = sorted_desc ms_created_at ms"

definition load_thread_context_window ::
  "row_id \<Rightarrow> string \<Rightarrow> string \<Rightarrow> int \<Rightarrow> message list \<Rightarrow> context_window" where
  "load_thread_context_window thread before exclude limit M =
     (let most = bounded 24 200 limit;
          q = thread_context_query thread before M;
          rows_desc = take (min (most + 8) 240) (newest_first q);
          (rows, excluded) = window_loop exclude most rows_desc [] 0;
          total = nat (max (int (length q) - int excluded) (int (length rows)))
      in \<lparr>cw_messages = rev rows, cw_total_count = total, cw_older_count = total - length rows\<rparr>)"

definition list_older_thread_context_messages ::
  "row_id \<Rightarrow> string \<Rightarrow> string \<Rightarrow> int \<Rightarrow> int \<Rightarrow> message list \<Rightarrow> message list" where
  "list_older_thread_context_messages thread before exclude offset limit M =
     (let off = nat (max 0 offset); most = bounded 80 400 limit;
          rows_desc = take (min (most + 8) 440) (drop off (newest_first (thread_context_query thread before M)))
      in rev (fst (window_loop exclude most rows_desc [] 0)))"

definition get_by_endpoint_message_id ::
  "row_id \<Rightarrow> string \<Rightarrow> row_id option \<Rightarrow> string \<Rightarrow> message list \<Rightarrow> message option" where
  "get_by_endpoint_message_id thread eid origin role M =
     (if strip eid = [] then None
      else find (\<lambda>m. clean (dget (ms_meta m) ''endpoint_message_id'') = strip eid)
             (sort_key ms_created_at (filter (\<lambda>m. ms_thread_id m = thread \<and> ms_role m = role
                \<and> (case origin of Some e \<Rightarrow> ms_origin_endpoint_id m = Some e | None \<Rightarrow> True)) M)))"

section \<open>The service\<close>

record message_store =
  st_messages :: "message list"
  st_threads :: "thread list"

definition pending_title_row :: "instant \<Rightarrow> string \<Rightarrow> string \<Rightarrow> thread \<Rightarrow> thread" where
  "pending_title_row now now_iso message_id =
     touch now (\<lambda>t. t\<lparr>th_meta := dmerge (th_meta t) [(''auto_title_pending'', PBool True),
         (''auto_title_source_message_id'', PStr message_id), (''auto_title_requested_at'', PStr now_iso),
         (''auto_title_strategy'', PStr ''model'')], th_updated_at := now\<rparr>)"

definition maybe_mark_auto_title_pending :: "instant \<Rightarrow> string \<Rightarrow> message \<Rightarrow> message_store \<Rightarrow> message_store" where
  "maybe_mark_auto_title_pending now now_iso m S =
     (if lower (strip (ms_role m)) \<noteq> ''user'' then S
      else if lower (strip (or_str (ms_channel m) ''message'')) \<noteq> ''message'' then S
      else if \<not> can_auto_title_thread (get_thread_by_id (ms_thread_id m) (st_threads S)) then S
      else if length (filter (\<lambda>r. ms_thread_id r = ms_thread_id m \<and> ms_role r = ''user'' \<and> ms_channel r = ''message'')
                (st_messages S)) \<noteq> 1 then S
      else S\<lparr>st_threads := tbl_upd th_id (ms_thread_id m) (pending_title_row now now_iso (ms_message_id m)) (st_threads S)\<rparr>)"

definition create_message ::
  "instant \<Rightarrow> string \<Rightarrow> row_id \<Rightarrow> string \<Rightarrow> message \<Rightarrow> message_store \<Rightarrow> pyerr + message \<times> message_store" where
  "create_message now now_iso new_id token request S =
     rbind (message_create now new_id (request\<lparr>ms_message_id := ''msg_'' @ token\<rparr>) (st_messages S)) (\<lambda>(m, M).
       Inr (m, maybe_mark_auto_title_pending now now_iso m (S\<lparr>st_messages := M\<rparr>)))"

definition list_messages_for_thread :: "row_id \<Rightarrow> message_store \<Rightarrow> message list" where
  "list_messages_for_thread thread S =
     (case get_thread_by_id thread (st_threads S) of
        None \<Rightarrow> list_by_thread_id thread (st_messages S)
      | Some t \<Rightarrow>
          (let path = (if th_current_leaf_message_id t = None then []
                       else list_branch_path thread (th_current_leaf_message_id t) (st_messages S))
           in if path \<noteq> [] then path else list_by_thread_id thread (st_messages S)))"

section \<open>The path of a branch always ends\<close>

text \<open>The same loop with a bound on the number of its turns: None when the bound is too small.\<close>

fun path_loop_fuel :: "nat \<Rightarrow> (row_id \<times> message) list \<Rightarrow> row_id option \<Rightarrow> row_id list \<Rightarrow> message list \<Rightarrow> message list option" where
  "path_loop_fuel n by_id i seen path =
     (case (case i of Some k \<Rightarrow> (case map_of by_id k of Some m \<Rightarrow> if k \<in> set seen then None else Some (k, m) | None \<Rightarrow> None) | None \<Rightarrow> None) of
        None \<Rightarrow> Some path
      | Some (k, m) \<Rightarrow>
          (case n of 0 \<Rightarrow> None | Suc n' \<Rightarrow> path_loop_fuel n' by_id (ms_parent_message_id m) (k # seen) (path @ [m])))"

declare path_loop_fuel.simps [simp del]

text \<open>The turns of the loop.\<close>

lemma path_loop_stop:
  fixes by_id :: "(row_id \<times> message) list"
  assumes "\<And>k m. i = Some k \<Longrightarrow> map_of by_id k = Some m \<Longrightarrow> k \<in> set seen"
  shows "path_loop by_id i seen path = path"
  using assms by (subst path_loop.simps) (simp split: option.split)

lemma path_loop_turn:
  fixes by_id :: "(row_id \<times> message) list"
  shows "map_of by_id k = Some m \<Longrightarrow> k \<notin> set seen \<Longrightarrow>
   path_loop by_id (Some k) seen path = path_loop by_id (ms_parent_message_id m) (k # seen) (path @ [m])"
  by (subst path_loop.simps) simp

lemma path_loop_induct [case_names stop turn]:
  fixes by_id :: "(row_id \<times> message) list"
  assumes stop: "\<And>i seen path. (\<And>k m. i = Some k \<Longrightarrow> map_of by_id k = Some m \<Longrightarrow> k \<in> set seen) \<Longrightarrow> P i seen path"
    and turn: "\<And>k m seen path. map_of by_id k = Some m \<Longrightarrow> k \<notin> set seen \<Longrightarrow>
      P (ms_parent_message_id m) (k # seen) (path @ [m]) \<Longrightarrow> P (Some k) seen path"
  shows "P i seen path"
proof -
  have "d = by_id \<Longrightarrow> P i seen path" for d
  proof (induction d i seen path rule: path_loop.induct)
    case (1 d i seen path)
    show ?case
    proof (cases "\<exists>k m. i = Some k \<and> map_of by_id k = Some m \<and> k \<notin> set seen")
      case True
      then obtain k m where i: "i = Some k" and km: "map_of by_id k = Some m" "k \<notin> set seen" by blast
      show ?thesis unfolding i by (rule turn [OF km]) (use 1 i km in simp)
    next
      case False
      then show ?thesis by (intro stop) blast
    qed
  qed
  then show ?thesis by simp
qed

lemma path_loop_fuel_enough:
  "unseen by_id seen \<le> n \<Longrightarrow> path_loop_fuel n by_id i seen path = Some (path_loop by_id i seen path)"
proof (induction i seen path arbitrary: n rule: path_loop_induct [of by_id])
  case (stop i seen path)
  then show ?case by (subst path_loop_fuel.simps) (auto simp: path_loop_stop split: option.split)
next
  case (turn k m seen path)
  have mem: "k \<in> fst ` set by_id - set seen" using turn(1,2) by (force dest: map_of_SomeD)
  have "fst ` set by_id - set (k # seen) = fst ` set by_id - set seen - {k}" by auto
  then have "unseen by_id (k # seen) < unseen by_id seen"
    using mem by (simp only: unseen_def) (rule card_Diff1_less, simp_all)
  then obtain n' where "n = Suc n'" "unseen by_id (k # seen) \<le> n'" using turn(4) by (cases n) auto
  then show ?case using turn(1-3) by (subst path_loop_fuel.simps) (simp add: path_loop_turn)
qed

definition parent_link :: "message \<Rightarrow> message \<Rightarrow> bool" where
  "parent_link m p \<longleftrightarrow> ms_parent_message_id m = Some (ms_id p)"

text \<open>What the loop keeps: the rows of the path are the keys seen, each is the parent of the one
  before it, and the next key is the parent of the last one.\<close>

definition path_ok :: "(row_id \<times> message) list \<Rightarrow> row_id option \<Rightarrow> row_id option \<Rightarrow> row_id list \<Rightarrow> message list \<Rightarrow> bool" where
  "path_ok by_id leaf i seen path \<longleftrightarrow>
     map ms_id path = rev seen \<and> distinct seen \<and> set path \<subseteq> snd ` set by_id \<and> successively parent_link path
     \<and> (if path = [] then i = leaf else leaf = Some (ms_id (hd path)) \<and> i = ms_parent_message_id (last path))"

lemma successively_snoc: "successively P (xs @ [x]) \<longleftrightarrow> successively P xs \<and> (xs = [] \<or> P (last xs) x)"
  by (auto simp: successively_append_iff)

lemma path_ok_turn:
  assumes "path_ok by_id leaf (Some k) seen path" and "map_of by_id k = Some m" and "k \<notin> set seen"
    and keys: "\<And>k m. (k, m) \<in> set by_id \<Longrightarrow> ms_id m = k"
  shows "path_ok by_id leaf (ms_parent_message_id m) (k # seen) (path @ [m])"
proof -
  have km: "(k, m) \<in> set by_id" using assms(2) by (rule map_of_SomeD)
  then have "m \<in> snd ` set by_id" "ms_id m = k" using keys by force+
  with assms(1,3) show ?thesis
    by (cases "path = []") (auto simp: path_ok_def successively_snoc parent_link_def)
qed

lemma path_loop_ok:
  assumes "path_ok by_id leaf i seen path" and keys: "\<And>k m. (k, m) \<in> set by_id \<Longrightarrow> ms_id m = k"
  shows "\<exists>i' seen'. path_ok by_id leaf i' seen' (path_loop by_id i seen path)
    \<and> (case i' of None \<Rightarrow> True | Some k \<Rightarrow> k \<notin> fst ` set by_id \<or> k \<in> set seen')"
  using assms(1)
proof (induction i seen path rule: path_loop_induct [of by_id])
  case (stop i seen path)
  have "case i of None \<Rightarrow> True | Some k \<Rightarrow> k \<notin> fst ` set by_id \<or> k \<in> set seen"
    using stop(1) by (force simp: map_of_eq_None_iff split: option.split)
  then show ?case using stop(2) path_loop_stop [OF stop(1)] by auto
next
  case (turn k m seen path)
  then show ?case using path_ok_turn [OF turn(4,1,2) keys] by (simp add: path_loop_turn)
qed

lemma branch_path_facts:
  fixes thread leaf M
  defines "rows \<equiv> list_by_thread_id thread M" and "path \<equiv> list_branch_path thread leaf M"
  shows "path_loop_fuel (length rows) (map (\<lambda>m. (ms_id m, m)) rows) leaf [] [] = Some (rev path)
    \<and> distinct (map ms_id path) \<and> set path \<subseteq> set rows \<and> successively (\<lambda>p m. parent_link m p) path
    \<and> (if path = [] then (case leaf of Some k \<Rightarrow> k \<notin> ms_id ` set rows | None \<Rightarrow> True)
       else leaf = Some (ms_id (last path))
         \<and> (case ms_parent_message_id (hd path) of Some k \<Rightarrow> k \<notin> ms_id ` set rows - ms_id ` set path | None \<Rightarrow> True))"
proof -
  let ?d = "map (\<lambda>m. (ms_id m, m)) rows"
  have stop: "path_loop ?d None [] [] = []" by (rule path_loop_stop) simp
  have path: "path = rev (path_loop ?d leaf [] [])"
    by (cases leaf) (simp_all add: path_def list_branch_path_def rows_def [symmetric] Let_def stop)
  have keys: "(k, m) \<in> set ?d \<Longrightarrow> ms_id m = k" for k m by auto
  have img: "fst ` set ?d = ms_id ` set rows" "snd ` set ?d = set rows" by (force simp: image_image)+
  have "unseen ?d [] \<le> length rows"
    using card_length [of "map ms_id rows"] unfolding unseen_def img by simp
  then have fuel: "path_loop_fuel (length rows) ?d leaf [] [] = Some (rev path)"
    by (simp add: path_loop_fuel_enough path)
  have "path_ok ?d leaf leaf [] []" by (simp add: path_ok_def)
  from path_loop_ok [OF this keys] obtain i seen where ok: "path_ok ?d leaf i seen (rev path)"
    and i: "case i of None \<Rightarrow> True | Some k \<Rightarrow> k \<notin> ms_id ` set rows \<or> k \<in> set seen"
    unfolding path img rev_rev_ident by blast
  have "map ms_id path = seen" using ok by (simp add: path_ok_def rev_map [symmetric])
  then have seen: "set seen = ms_id ` set path" "distinct (map ms_id path)"
    using ok by (auto simp: path_ok_def)
  have "successively (\<lambda>p m. parent_link m p) path" using ok by (simp add: path_ok_def successively_rev)
  moreover have "set path \<subseteq> set rows" using ok img(2) by (simp add: path_ok_def del: set_map)
  moreover have "if path = [] then (case leaf of Some k \<Rightarrow> k \<notin> ms_id ` set rows | None \<Rightarrow> True)
       else leaf = Some (ms_id (last path))
         \<and> (case ms_parent_message_id (hd path) of Some k \<Rightarrow> k \<notin> ms_id ` set rows - ms_id ` set path | None \<Rightarrow> True)"
    using ok i unfolding seen(1) by (auto simp: path_ok_def hd_rev last_rev split: option.splits if_splits)
  ultimately show ?thesis using fuel seen(2) by blast
qed

text \<open>(C30)
  Following the parents always ends: whatever the parents in the table are, also when they form a
  circle, the loop of \<open>list_branch_path\<close> stops after at most as many turns as the thread has
  messages. The path it returns ends with the leaf, each message is the parent of the next, no
  message occurs twice, and it goes back until a message has no parent in the thread or its
  parent is already on the path.
\<close>

theorem branch_path_ends:
  "let rows = list_by_thread_id thread M; path = list_branch_path thread leaf M
   in path_loop_fuel (length rows) (map (\<lambda>m. (ms_id m, m)) rows) leaf [] [] = Some (rev path)
    \<and> distinct (map ms_id path) \<and> set path \<subseteq> set rows \<and> successively (\<lambda>p m. parent_link m p) path
    \<and> (if path = [] then (case leaf of Some k \<Rightarrow> k \<notin> ms_id ` set rows | None \<Rightarrow> True)
       else leaf = Some (ms_id (last path))
         \<and> (case ms_parent_message_id (hd path) of Some k \<Rightarrow> k \<notin> ms_id ` set rows - ms_id ` set path | None \<Rightarrow> True))"
  unfolding Let_def by (rule branch_path_facts)

section \<open>The window shows the newest messages\<close>

abbreviation shown :: "string \<Rightarrow> message list \<Rightarrow> message list" where
  "shown eid \<equiv> filter (\<lambda>m. \<not> matches_endpoint_message_id eid m)"

lemma window_loop_rows:
  "length kept < most \<Longrightarrow> fst (window_loop eid most ms kept skipped) = kept @ take (most - length kept) (shown eid ms)"
proof (induction eid most ms kept skipped rule: window_loop.induct)
  case (2 eid most m ms kept skipped)
  show ?case
  proof (cases "length kept + 1 \<ge> most")
    case True
    with 2(3) have "most - length kept = 1" by simp
    then show ?thesis using 2 True by simp
  next
    case False
    then obtain d where "most - length kept = Suc d" "most - Suc (length kept) = d"
      by (metis Suc_diff_Suc 2(3))
    then show ?thesis using 2 False by simp
  qed
qed simp

text \<open>The loop consumes a prefix of the rows: those it keeps and those it skips.\<close>

text \<open>Where the loop stops: right after the message that filled the window, or at the end.\<close>

lemma window_loop_prefix:
  "length kept < most \<Longrightarrow> \<exists>n \<le> length ms. fst (window_loop eid most ms kept skipped) = kept @ shown eid (take n ms)
     \<and> snd (window_loop eid most ms kept skipped) + length (shown eid (take n ms)) = skipped + n
     \<and> (length (fst (window_loop eid most ms kept skipped)) = most \<and> 0 < n \<and> \<not> matches_endpoint_message_id eid (ms ! (n - 1))
        \<or> length (fst (window_loop eid most ms kept skipped)) < most \<and> n = length ms)"
proof (induction eid most ms kept skipped rule: window_loop.induct)
  case (2 eid most m ms kept skipped)
  consider (skip) "matches_endpoint_message_id eid m"
    | (full) "\<not> matches_endpoint_message_id eid m" "length kept + 1 \<ge> most"
    | (more) "\<not> matches_endpoint_message_id eid m" "\<not> length kept + 1 \<ge> most" by blast
  then show ?case
  proof cases
    case skip
    from 2(1) [OF skip 2(3)] obtain n where "n \<le> length ms"
      "fst (window_loop eid most ms kept (Suc skipped)) = kept @ shown eid (take n ms)"
      "snd (window_loop eid most ms kept (Suc skipped)) + length (shown eid (take n ms)) = Suc skipped + n"
      "length (fst (window_loop eid most ms kept (Suc skipped))) = most \<and> 0 < n \<and> \<not> matches_endpoint_message_id eid (ms ! (n - 1))
        \<or> length (fst (window_loop eid most ms kept (Suc skipped))) < most \<and> n = length ms" by blast
    then show ?thesis using skip 2(3) by (intro exI [of _ "Suc n"]) (auto simp: nth_Cons')
  next
    case full
    then show ?thesis using 2(3) by (intro exI [of _ 1]) simp
  next
    case more
    have "length (kept @ [m]) < most" using more(2) by simp
    from 2(2) [OF more this] obtain n where "n \<le> length ms"
      "fst (window_loop eid most ms (kept @ [m]) skipped) = (kept @ [m]) @ shown eid (take n ms)"
      "snd (window_loop eid most ms (kept @ [m]) skipped) + length (shown eid (take n ms)) = skipped + n"
      "length (fst (window_loop eid most ms (kept @ [m]) skipped)) = most \<and> 0 < n \<and> \<not> matches_endpoint_message_id eid (ms ! (n - 1))
        \<or> length (fst (window_loop eid most ms (kept @ [m]) skipped)) < most \<and> n = length ms" by blast
    then show ?thesis using more by (intro exI [of _ "Suc n"]) (auto simp: nth_Cons')
  qed
qed simp

text \<open>The places of the messages that are not copies, newest first.\<close>

definition shown_places :: "string \<Rightarrow> message list \<Rightarrow> nat list" where
  "shown_places eid ms = filter (\<lambda>i. \<not> matches_endpoint_message_id eid (ms ! i)) [0 ..< length ms]"

lemma length_filter_nth: "k \<le> length ms \<Longrightarrow> length (filter (\<lambda>i. P (ms ! i)) [0 ..< k]) = length (filter P (take k ms))"
proof -
  assume k: "k \<le> length ms"
  have "take k ms = map ((!) ms) [0 ..< k]" using k by (intro nth_equalityI) simp_all
  then show ?thesis by (simp add: filter_map o_def)
qed

lemma length_shown_places: "length (shown_places eid ms) = length (shown eid ms)"
  using length_filter_nth [of "length ms" ms "\<lambda>m. \<not> matches_endpoint_message_id eid m"] by (simp add: shown_places_def)

lemma shown_places_nth:
  assumes "0 < n" "n \<le> length ms" "\<not> matches_endpoint_message_id eid (ms ! (n - 1))"
    and "length (shown eid (take n ms)) = most"
  shows "most \<le> length (shown_places eid ms) \<and> shown_places eid ms ! (most - 1) = n - 1"
proof -
  let ?P = "\<lambda>i. \<not> matches_endpoint_message_id eid (ms ! i)"
  obtain k where k: "n = Suc k" using assms(1) by (cases n) simp_all
  have "[0 ..< length ms] = [0 ..< k] @ k # [Suc k ..< length ms]"
    using assms(2) k upt_add_eq_append [of 0 k "length ms - k"] upt_conv_Cons [of k "length ms"] by simp
  then have places: "shown_places eid ms = filter ?P [0 ..< k] @ k # filter ?P [Suc k ..< length ms]"
    using assms(3) k by (simp add: shown_places_def)
  have "take n ms = take k ms @ [ms ! k]" using assms(2) k by (simp add: take_Suc_conv_app_nth)
  then have "most = Suc (length (shown eid (take k ms)))" using assms(3,4) k by simp
  moreover have "length (filter ?P [0 ..< k]) = length (shown eid (take k ms))"
    by (rule length_filter_nth) (use assms(2) k in simp)
  ultimately show ?thesis by (simp add: places nth_append k)
qed

lemma length_filter_sorted_desc: "length (filter p (sorted_desc k xs)) = length (filter p xs)"
proof -
  have "filter p (sorted_desc k xs) = sorted_desc k (filter p xs)"
    by (simp add: sorted_desc_def rev_filter [symmetric] filter_sort)
  then show ?thesis by simp
qed

lemma bounded_range: "0 < bounded dflt upper x" "0 < upper \<Longrightarrow> int (bounded dflt upper x) \<le> upper"
  by (auto simp: bounded_def)

lemma take_shown_enough:
  assumes "most \<le> k - j" and "length (filter (matches_endpoint_message_id eid) ms) \<le> j"
  shows "take most (shown eid (take k ms)) = take most (shown eid ms)"
proof (cases "length ms \<le> k")
  case False
  have split: "shown eid ms = shown eid (take k ms) @ shown eid (drop k ms)"
    by (metis append_take_drop_id filter_append)
  have "length (filter (matches_endpoint_message_id eid) (take k ms)) \<le> j"
    using assms(2) by (metis append_take_drop_id filter_append le_trans length_append le_add1)
  moreover have "length (filter (matches_endpoint_message_id eid) (take k ms)) + length (shown eid (take k ms)) = k"
    using sum_length_filter_compl [of "matches_endpoint_message_id eid" "take k ms"] False by simp
  ultimately have "most \<le> length (shown eid (take k ms))" using assms(1) by linarith
  then show ?thesis unfolding split by simp
qed simp

text \<open>(C31)
  The window of a thread: the rows are read with eight to spare, so as long as at most eight of
  the messages that qualify are copies of the message being answered, the window holds the
  newest messages of the thread up to the limit, without those copies and in the order of time.
  When there are fewer such messages than the limit, all of them are shown and no message is
  counted as older. Otherwise the messages counted as older are those that come after the oldest
  one shown, in the order of the query and copies of the message being answered among them. The
  total is what is shown and what is counted as older.
\<close>

theorem context_window_exact:
  assumes few: "length (filter (matches_endpoint_message_id eid) (thread_context_query thread before M)) \<le> 8"
  shows "let newest = newest_first (thread_context_query thread before M);
             most = bounded 24 200 limit;
             places = shown_places eid newest;
             w = load_thread_context_window thread before eid limit M
         in sorted_wrt (\<lambda>a b. ms_created_at b \<le> ms_created_at a) newest
          \<and> cw_messages w = rev (take most (shown eid newest))
          \<and> cw_older_count w = (if length places < most then 0 else length newest - Suc (places ! (most - 1)))
          \<and> cw_total_count w = length (cw_messages w) + cw_older_count w"
proof -
  let ?most = "bounded 24 200 limit" and ?new = "newest_first (thread_context_query thread before M)"
  let ?rows = "take (min (?most + 8) 240) ?new"
  let ?loop = "window_loop eid ?most ?rows [] 0"
  have most: "?most \<le> 200" "0 < ?most" using bounded_range(2) [of 200 24 limit] bounded_range(1) by simp_all
  have few': "length (filter (matches_endpoint_message_id eid) ?new) \<le> 8"
    using few by (simp add: newest_first_def length_filter_sorted_desc)
  have kept: "fst ?loop = take ?most (shown eid ?new)"
    using window_loop_rows [of "[]" ?most eid ?rows 0] most take_shown_enough [OF _ few', of ?most "min (?most + 8) 240"] by simp
  obtain n where n: "n \<le> length ?rows" "fst ?loop = shown eid (take n ?rows)"
      "snd ?loop + length (shown eid (take n ?rows)) = n"
      "length (fst ?loop) = ?most \<and> 0 < n \<and> \<not> matches_endpoint_message_id eid (?rows ! (n - 1))
        \<or> length (fst ?loop) < ?most \<and> n = length ?rows"
    using window_loop_prefix [of "[]" ?most ?rows eid 0] most(2) unfolding append_Nil add_0 list.size(3) by blast
  have take: "take n ?rows = take n ?new" using n(1) by (simp only: take_take length_take min.bounded_iff min_absorb1)
  have len: "length ?new = length (thread_context_query thread before M)" by (simp add: newest_first_def)
  have sorted: "sorted_wrt (\<lambda>a b. ms_created_at b \<le> ms_created_at a) ?new"
    by (simp add: newest_first_def sorted_desc_sorted)
  have le: "n \<le> length ?new" using n(1) by simp
  obtain rows ex where loop: "?loop = (rows, ex)" by (cases ?loop)
  have r: "ex + length rows = n" "rows = shown eid (take n ?new)" "rows = take ?most (shown eid ?new)"
    using n(2,3) kept unfolding loop take by simp_all
  have total: "nat (max (int a - int ex) (int (length rows))) = a - ex"
      "a - ex - length rows = a - n" "a - ex = length rows + (a - n)" if "n \<le> a" for a
    using r(1) that by linarith+
  have w: "load_thread_context_window thread before eid limit M
      = \<lparr>cw_messages = rev rows, cw_total_count = length ?new - ex, cw_older_count = length ?new - n\<rparr>"
    unfolding load_thread_context_window_def Let_def loop prod.case len [symmetric] total(1,2) [OF le] ..
  have older: "length ?new - n = (if length (shown_places eid ?new) < ?most then 0
      else length ?new - Suc (shown_places eid ?new ! (?most - 1)))"
    using n(4)
  proof
    assume full: "length (fst ?loop) = ?most \<and> 0 < n \<and> \<not> matches_endpoint_message_id eid (?rows ! (n - 1))"
    then have "?rows ! (n - 1) = ?new ! (n - 1)" using n(1) by (intro nth_take) auto
    then have "\<not> matches_endpoint_message_id eid (?new ! (n - 1))" using full by metis
    from shown_places_nth [OF _ le this, of ?most] full r(2) loop show ?thesis by simp
  next
    assume all: "length (fst ?loop) < ?most \<and> n = length ?rows"
    then have "min (length (shown eid ?new)) ?most < ?most" unfolding kept length_take by simp
    then have "length (shown eid ?new) < ?most" by linarith
    moreover from this have "length ?new < ?most + 8"
      using sum_length_filter_compl [of "matches_endpoint_message_id eid" ?new] few' by linarith
    ultimately show ?thesis using all most by (simp add: length_shown_places)
  qed
  show ?thesis unfolding Let_def w context_window.simps length_rev
    using sorted r(3) older total(3) [OF le] by simp
qed

definition example_message :: "nat \<Rightarrow> string \<Rightarrow> message" where
  "example_message n eid =
     \<lparr>ms_id = ''m'' @ nat_str n, ms_message_id = ''msg_'' @ nat_str n, ms_thread_id = ''t1'', ms_session_id = None,
      ms_run_id = None, ms_role = ''user'', ms_channel = ''message'', ms_content = ''hello'', ms_content_type = ''text'',
      ms_status = ''completed'', ms_created_by_actor_id = None, ms_origin_endpoint_id = None, ms_active_workspace_id = None,
      ms_parent_message_id = None, ms_branch_id = None, ms_revision_of_message_id = None, ms_variant_index = 0,
      ms_visibility = ''active'', ms_meta = (if eid = [] then [] else [(''endpoint_message_id'', PStr eid)]),
      ms_created_at = int n\<rparr>"

definition example_messages :: "message list" where
  "example_messages = [example_message 1 [], example_message 2 [], example_message 3 [], example_message 4 ''e4'']"

theorem context_window_exact_witness:
  "map ms_created_at (cw_messages (load_thread_context_window ''t1'' [] ''e4'' 2 example_messages)) = [2, 3]
   \<and> cw_older_count (load_thread_context_window ''t1'' [] ''e4'' 2 example_messages) = 1
   \<and> cw_older_count (load_thread_context_window ''t1'' [] ''e4'' 24 example_messages) = 0"
proof -
  let ?new = "newest_first (thread_context_query ''t1'' [] example_messages)"
  have e: "length (filter (matches_endpoint_message_id ''e4'') (thread_context_query ''t1'' [] example_messages)) \<le> 8"
    "map ms_created_at (take (bounded 24 200 2) (shown ''e4'' ?new)) = [3, 2]"
    "shown_places ''e4'' ?new = [1, 2, 3]" "bounded 24 200 2 = 2" "bounded 24 200 24 = 24" "length ?new = 4"
    by code_simp+
  note two = context_window_exact [OF e(1), of 2, unfolded Let_def e(3,6)]
  have "map ms_created_at (cw_messages (load_thread_context_window ''t1'' [] ''e4'' 2 example_messages)) = [2, 3]"
    using two by (simp add: rev_map [symmetric] e(2))
  moreover have "cw_older_count (load_thread_context_window ''t1'' [] ''e4'' 2 example_messages) = 1"
    using two by (simp add: e(4))
  moreover have "cw_older_count (load_thread_context_window ''t1'' [] ''e4'' 24 example_messages) = 0"
    using context_window_exact [OF e(1), of 24, unfolded Let_def e(3,6)] by (simp add: e(5))
  ultimately show ?thesis by blast
qed

end
