(* ===== verification/Model_History.thy ===== *)
theory Model_History
  imports Py_Base "HOL-Library.Sublist"
begin

text \<open>
  The history of messages as a provider accepts it: the part of
  \<^verbatim>\<open>adapters/openai_adapter.py\<close> that drops incomplete tool exchanges and that replaces the
  finished ones by text.

  A message is a dictionary. Reading its tool calls iterates over a value that may not be
  iterable, and summarising one asks it for a key, so both can raise.
\<close>

section \<open>JSON text\<close>

text \<open>\<open>json.dumps(value, ensure_ascii=False)\<close>.\<close>

definition json_char :: "char \<Rightarrow> string" where
  "json_char c =
     (let n = code c; bs = char_of (92::nat) in
      if n = 34 \<or> n = 92 then [bs, c]
      else if n = 10 then [bs, CHR ''n''] else if n = 13 then [bs, CHR ''r''] else if n = 9 then [bs, CHR ''t'']
      else if n = 8 then [bs, CHR ''b''] else if n = 12 then [bs, CHR ''f'']
      else if n < 32 then [bs] @ ''u00'' @ [hex_digit (n div 16), hex_digit (n mod 16)] else [c])"

definition json_string :: "string \<Rightarrow> string" where
  "json_string s = (let q = char_of (34::nat) in [q] @ concat (map json_char s) @ [q])"

fun json_dumps :: "pyval \<Rightarrow> string"
and json_items :: "pyval list \<Rightarrow> string list"
and json_pairs :: "(string \<times> pyval) list \<Rightarrow> string list" where
  "json_dumps PNone = ''null''"
| "json_dumps (PBool b) = (if b then ''true'' else ''false'')"
| "json_dumps (PInt i) = int_str i"
| "json_dumps (PFloat r s) = s"
| "json_dumps (PStr s) = json_string s"
| "json_dumps (PList xs) = ''['' @ join '', '' (json_items xs) @ '']''"
| "json_dumps (PDict d) = ''{'' @ join '', '' (json_pairs d) @ ''}''"
| "json_items [] = []"
| "json_items (x # xs) = json_dumps x # json_items xs"
| "json_pairs [] = []"
| "json_pairs ((k, v) # d) = (json_string k @ '': '' @ json_dumps v) # json_pairs d"

definition stringify_content :: "pyval \<Rightarrow> string" where
  "stringify_content v = (case v of PNone \<Rightarrow> [] | PStr s \<Rightarrow> s | _ \<Rightarrow> json_dumps v)"

section \<open>The calls of a message\<close>

definition role :: "pydict \<Rightarrow> string" where
  "role m = str_or (dget m ''role'') []"

definition tool_call_id :: "pydict \<Rightarrow> string" where
  "tool_call_id m = clean (dget m ''tool_call_id'')"

definition dicts :: "pyval list \<Rightarrow> pydict list" where
  "dicts vs = map as_dict (filter is_dict vs)"

definition tool_call_ids :: "pyval list \<Rightarrow> string list" where
  "tool_call_ids calls = filter (\<lambda>s. s \<noteq> []) (map (\<lambda>d. clean (dget d ''id'')) (dicts calls))"

definition function_calls :: "pyval list \<Rightarrow> pydict list" where
  "function_calls items = filter (\<lambda>d. dget d ''type'' = PStr ''function_call'') (dicts items)"

definition provider_call_ids :: "pyval list \<Rightarrow> string list" where
  "provider_call_ids items =
     filter (\<lambda>s. s \<noteq> []) (map (\<lambda>d. clean (py_or (dget d ''call_id'') (dget d ''id''))) (function_calls items))"

definition assistant_call_ids :: "pydict \<Rightarrow> pyerr + string list" where
  "assistant_call_ids m =
     rbind (py_list_or (dget m ''tool_calls'')) (\<lambda>calls.
       if tool_call_ids calls \<noteq> [] then Inr (tool_call_ids calls)
       else rbind (py_list_or (dget m ''provider_items'')) (\<lambda>items. Inr (provider_call_ids items)))"

definition call_ids :: "pydict \<Rightarrow> pyerr + string list" where
  "call_ids m = (if role m = ''assistant'' then assistant_call_ids m else Inr [])"

section \<open>Dropping incomplete exchanges\<close>

record exchange_state =
  ex_sanitized :: "pydict list"
  ex_pending_assistant :: "pydict option"
  ex_pending_call_ids :: "string list"
  ex_pending_tool_messages :: "pydict list"
  ex_seen :: "string list"

definition drop_pending :: "exchange_state \<Rightarrow> exchange_state" where
  "drop_pending S = S\<lparr>ex_pending_assistant := None, ex_pending_call_ids := [], ex_pending_tool_messages := [], ex_seen := []\<rparr>"

definition flush_pending :: "exchange_state \<Rightarrow> exchange_state" where
  "flush_pending S =
     (case ex_pending_assistant S of
        None \<Rightarrow> S
      | Some a \<Rightarrow> drop_pending (S\<lparr>ex_sanitized := ex_sanitized S @ [a] @ ex_pending_tool_messages S\<rparr>))"

text \<open>\<open>seen\<close> is a set: \<open>tid\<close> is new where it is added, so its length is its size.\<close>

definition answer_pending :: "pydict \<Rightarrow> exchange_state \<Rightarrow> exchange_state" where
  "answer_pending m S =
     (let tid = tool_call_id m in
      if tid \<in> set (ex_pending_call_ids S) \<and> tid \<notin> set (ex_seen S) then
        (let S' = S\<lparr>ex_pending_tool_messages := ex_pending_tool_messages S @ [m], ex_seen := tid # ex_seen S\<rparr>
         in if length (ex_seen S') = length (ex_pending_call_ids S') then flush_pending S' else S')
      else S)"

definition sanitize_step :: "pydict \<Rightarrow> string list \<Rightarrow> exchange_state \<Rightarrow> exchange_state" where
  "sanitize_step m ids S =
     (if ids \<noteq> [] then (drop_pending S)\<lparr>ex_pending_assistant := Some m, ex_pending_call_ids := ids\<rparr>
      else if ex_pending_assistant S \<noteq> None then
        (if role m \<noteq> ''tool'' then (let S' = drop_pending S in S'\<lparr>ex_sanitized := ex_sanitized S' @ [m]\<rparr>)
         else answer_pending m S)
      else if role m = ''tool'' then S
      else S\<lparr>ex_sanitized := ex_sanitized S @ [m]\<rparr>)"

fun sanitize_loop :: "pydict list \<Rightarrow> exchange_state \<Rightarrow> pyerr + exchange_state" where
  "sanitize_loop [] S = Inr S"
| "sanitize_loop (m # ms) S = rbind (call_ids m) (\<lambda>ids. sanitize_loop ms (sanitize_step m ids S))"

definition sanitize_tool_message_history :: "pydict list \<Rightarrow> pyerr + pydict list" where
  "sanitize_tool_message_history ms =
     rbind (sanitize_loop ms
         \<lparr>ex_sanitized = [], ex_pending_assistant = None, ex_pending_call_ids = [], ex_pending_tool_messages = [], ex_seen = []\<rparr>)
       (\<lambda>S. Inr (ex_sanitized S))"

section \<open>Replacing finished exchanges by text\<close>

definition active_tail_tool_chain_start :: "pydict list \<Rightarrow> pyerr + nat option" where
  "active_tail_tool_chain_start ms =
     (let tools = takeWhile (\<lambda>m. role m = ''tool'') (rev ms) in
      if length tools = length ms then Inr None
      else let idx = length ms - length tools - 1; candidate = ms ! idx in
        if role candidate \<noteq> ''assistant'' \<or> \<not> truthy (dget candidate ''tool_calls'') then Inr None
        else rbind (assistant_call_ids candidate) (\<lambda>expected.
          if expected = [] then Inr None
          else if set expected \<subseteq> set (map tool_call_id tools) then Inr (Some idx) else Inr None))"

text \<open>The summaries: asking a value that is no dictionary for a key raises.\<close>

definition tool_call_summary :: "pyval \<Rightarrow> pyerr + string" where
  "tool_call_summary v =
     (case v of
        PDict call \<Rightarrow>
          (let func = as_dict (dget call ''function'');
               name = py_str (py_or (dget func ''name'') (py_or (dget call ''name'') (PStr ''function'')));
               args = dget_or func ''arguments'' (dget_or call ''arguments'' (PStr []));
               text_args = (case args of PStr s \<Rightarrow> s | _ \<Rightarrow> json_dumps args);
               cid = clean (py_or (dget call ''id'') (dget call ''call_id''))
           in Inr (''- '' @ name @ (if cid \<noteq> [] then '' id='' @ cid else []) @ '' args='' @ take 1200 text_args))
      | _ \<Rightarrow> Inl (AttributeError ''get''))"

definition tool_result_summary :: "pydict \<Rightarrow> string" where
  "tool_result_summary m =
     (let cid = tool_call_id m
      in (if cid \<noteq> [] then ''- result for '' @ cid @ '': '' else ''- result: '')
         @ take 1600 (strip (stringify_content (dget m ''content''))))"

fun summaries :: "pyval list \<Rightarrow> pyerr + string list" where
  "summaries [] = Inr []"
| "summaries (v # vs) = rbind (tool_call_summary v) (\<lambda>s. rbind (summaries vs) (\<lambda>ss. Inr (s # ss)))"

text \<open>The results that directly follow, up to the last one expected, and the ids they answer.\<close>

fun collect_results :: "string list \<Rightarrow> pydict list \<Rightarrow> string list \<Rightarrow> pydict list \<times> string list" where
  "collect_results ids [] seen = ([], seen)"
| "collect_results ids (m # ms) seen =
     (if role m = ''tool'' \<and> tool_call_id m \<noteq> [] \<and> tool_call_id m \<in> set ids then
        (let seen' = tool_call_id m # seen in
         if set ids \<subseteq> set seen' then ([m], seen')
         else (case collect_results ids ms seen' of (rs, seen'') \<Rightarrow> (m # rs, seen'')))
      else ([], seen))"

definition collapsed_message :: "pydict \<Rightarrow> pydict list \<Rightarrow> pyerr + pydict" where
  "collapsed_message m results =
     (let content = strip (stringify_content (dget m ''content'')) in
      rbind (py_list_or (dget m ''tool_calls'')) (\<lambda>calls.
      rbind (if calls \<noteq> [] then Inr calls
             else rbind (py_list_or (dget m ''provider_items'')) (\<lambda>items. Inr (map PDict (function_calls items)))) (\<lambda>items.
      rbind (summaries items) (\<lambda>call_lines.
        Inr [(''role'', PStr ''assistant''),
             (''content'', PStr (join [char_of (10::nat)]
               ([''[Tool history collapsed for provider compatibility]'']
                @ (if content \<noteq> [] then [''assistant_content: '' @ take 1600 content] else [])
                @ [''tool_calls:''] @ call_lines
                @ (if results \<noteq> [] then ''tool_results:'' # map tool_result_summary results else []))))]))))"

text \<open>\<open>i\<close> is the index of the first message of the list.\<close>

function collapse_loop :: "nat option \<Rightarrow> nat \<Rightarrow> pydict list \<Rightarrow> pyerr + pydict list" where
  "collapse_loop keep_from i [] = Inr []"
| "collapse_loop keep_from i (m # ms) =
     (if (case keep_from of Some k \<Rightarrow> k \<le> i | None \<Rightarrow> False) \<or> role m \<noteq> ''assistant''
      then rbind (collapse_loop keep_from (Suc i) ms) (\<lambda>out. Inr (m # out))
      else rbind (assistant_call_ids m) (\<lambda>ids.
        if ids = [] then rbind (collapse_loop keep_from (Suc i) ms) (\<lambda>out. Inr (m # out))
        else (case collect_results ids ms [] of (results, seen) \<Rightarrow>
          if \<not> set ids \<subseteq> set seen then rbind (collapse_loop keep_from (Suc i) ms) (\<lambda>out. Inr (m # out))
          else rbind (collapsed_message m results) (\<lambda>c.
            rbind (collapse_loop keep_from (Suc i + length results) (drop (length results) ms)) (\<lambda>out. Inr (c # out))))))"
  by pat_completeness auto
termination by (relation "measure (\<lambda>(_, _, ms). length ms)") auto

declare collapse_loop.simps [simp del]

definition collapse_resolved_tool_history :: "pydict list \<Rightarrow> pyerr + pydict list" where
  "collapse_resolved_tool_history ms =
     rbind (active_tail_tool_chain_start ms) (\<lambda>keep_from. collapse_loop keep_from 0 ms)"

section \<open>Complete histories\<close>

text \<open>
  What a provider accepts: an assistant message with calls is directly followed by the results
  of exactly its calls, in any order, and there is no other result.
\<close>

inductive complete_history :: "pydict list \<Rightarrow> bool" where
  nil: "complete_history []"
| plain: "role m \<noteq> ''tool'' \<Longrightarrow> call_ids m = Inr [] \<Longrightarrow> complete_history ms \<Longrightarrow> complete_history (m # ms)"
| exchange: "call_ids a = Inr ids \<Longrightarrow> ids \<noteq> [] \<Longrightarrow> length ts = length ids \<Longrightarrow> list_all (\<lambda>t. role t = ''tool'') ts
    \<Longrightarrow> distinct (map tool_call_id ts) \<Longrightarrow> set (map tool_call_id ts) \<subseteq> set ids \<Longrightarrow> complete_history ms
    \<Longrightarrow> complete_history (a # ts @ ms)"

lemma complete_append: "complete_history xs \<Longrightarrow> complete_history ys \<Longrightarrow> complete_history (xs @ ys)"
  by (induction rule: complete_history.induct) (simp_all add: complete_history.plain complete_history.exchange)

text \<open>A message that is neither a result nor asks for one.\<close>

definition plain_message :: "pydict \<Rightarrow> bool" where
  "plain_message m \<longleftrightarrow> role m \<noteq> ''tool'' \<and> call_ids m = Inr []"

lemma call_ids_tool [simp]: "role m = ''tool'' \<Longrightarrow> call_ids m = Inr []"
  by (simp add: call_ids_def)

definition pending_ok :: "exchange_state \<Rightarrow> bool" where
  "pending_ok S \<longleftrightarrow>
     (case ex_pending_assistant S of
        None \<Rightarrow> ex_pending_tool_messages S = []
      | Some a \<Rightarrow> call_ids a = Inr (ex_pending_call_ids S) \<and> ex_pending_call_ids S \<noteq> []
          \<and> length (ex_pending_tool_messages S) < length (ex_pending_call_ids S)
          \<and> list_all (\<lambda>t. role t = ''tool'') (ex_pending_tool_messages S)
          \<and> ex_seen S = rev (map tool_call_id (ex_pending_tool_messages S)) \<and> distinct (ex_seen S)
          \<and> set (ex_seen S) \<subseteq> set (ex_pending_call_ids S))"

definition pending_messages :: "exchange_state \<Rightarrow> pydict list" where
  "pending_messages S = (case ex_pending_assistant S of None \<Rightarrow> [] | Some a \<Rightarrow> a # ex_pending_tool_messages S)"

text \<open>What holds after the messages of \<open>pre\<close>.\<close>

definition exchange_ok :: "pydict list \<Rightarrow> exchange_state \<Rightarrow> bool" where
  "exchange_ok pre S \<longleftrightarrow> complete_history (ex_sanitized S) \<and> pending_ok S
     \<and> subseq (ex_sanitized S @ pending_messages S) pre
     \<and> filter plain_message (ex_sanitized S) = filter plain_message pre"

lemma subseq_prefix_snoc:
  assumes "subseq (xs @ ys) pre"
  shows "subseq (xs @ [m]) (pre @ [m])"
proof -
  have "subseq xs (xs @ ys)" using list_emb_prefix [of "(=)" xs xs ys] by simp
  then have "subseq xs pre" using assms by (rule subseq_order.trans)
  then show ?thesis by (rule list_emb_append_mono) simp
qed

lemma subseq_snoc_skip: "subseq xs pre \<Longrightarrow> subseq xs (pre @ [m])"
  by (rule list_emb_prefix)

lemma exchange_ok_step:
  assumes ok: "exchange_ok pre S" and ids: "call_ids m = Inr ids"
  shows "exchange_ok (pre @ [m]) (sanitize_step m ids S)"
proof -
  have c: "complete_history (ex_sanitized S)" and p: "pending_ok S"
    and sub: "subseq (ex_sanitized S @ pending_messages S) pre"
    and plain: "filter plain_message (ex_sanitized S) = filter plain_message pre"
    using ok by (simp_all add: exchange_ok_def)
  have sub1: "subseq (ex_sanitized S @ [m]) (pre @ [m])" using subseq_prefix_snoc [OF sub] .
  consider (call) "ids \<noteq> []" | (plain) "ids = []" "role m \<noteq> ''tool''"
    | (stray) "ids = []" "role m = ''tool''" "ex_pending_assistant S = None"
    | (answer) a where "ids = []" "role m = ''tool''" "ex_pending_assistant S = Some a" by (cases "ex_pending_assistant S") auto
  then show ?thesis
  proof cases
    case call
    then show ?thesis using c sub1 plain ids
      by (simp add: exchange_ok_def sanitize_step_def drop_pending_def pending_ok_def pending_messages_def plain_message_def)
  next
    case plain
    have "complete_history (ex_sanitized S @ [m])"
      using complete_append [OF c complete_history.plain [OF plain(2) _ complete_history.nil]] ids plain(1) by simp
    moreover have "pending_ok S \<Longrightarrow> ex_pending_assistant S = None \<Longrightarrow> pending_ok (S\<lparr>ex_sanitized := ex_sanitized S @ [m]\<rparr>)"
      by (simp add: pending_ok_def)
    ultimately show ?thesis using p sub1 \<open>filter plain_message (ex_sanitized S) = filter plain_message pre\<close> ids plain
      by (auto simp: exchange_ok_def sanitize_step_def drop_pending_def pending_ok_def pending_messages_def plain_message_def Let_def)
  next
    case stray
    then show ?thesis using c p plain subseq_snoc_skip [OF sub]
      by (simp add: exchange_ok_def sanitize_step_def plain_message_def)
  next
    case answer
    have np: "\<not> plain_message m" using answer(2) by (simp add: plain_message_def)
    let ?ts = "ex_pending_tool_messages S" and ?ids = "ex_pending_call_ids S"
    have a: "call_ids a = Inr ?ids" "?ids \<noteq> []" "length ?ts < length ?ids" "list_all (\<lambda>t. role t = ''tool'') ?ts"
      "ex_seen S = rev (map tool_call_id ?ts)" "distinct (ex_seen S)" "set (ex_seen S) \<subseteq> set ?ids"
      using p unfolding pending_ok_def answer(3) option.case by blast+
    have sub2: "subseq (ex_sanitized S @ a # ?ts @ [m]) (pre @ [m])"
      using sub answer(3) list_emb_append_mono [of "(=)" "ex_sanitized S @ a # ?ts" pre "[m]" "[m]"]
      by (simp add: pending_messages_def)
    show ?thesis
    proof (cases "tool_call_id m \<in> set ?ids \<and> tool_call_id m \<notin> set (ex_seen S)")
      case False
      then have "sanitize_step m ids S = S" using answer by (auto simp: sanitize_step_def answer_pending_def Let_def)
      then show ?thesis using c p plain subseq_snoc_skip [OF sub] np by (simp add: exchange_ok_def)
    next
      case new: True
      show ?thesis
      proof (cases "Suc (length ?ts) = length ?ids")
        case True
        have "complete_history (a # (?ts @ [m]) @ [])"
          using a new answer(2) True by (intro complete_history.exchange [OF a(1,2)]) (auto simp: complete_history.nil)
        then have "complete_history (ex_sanitized S @ a # ?ts @ [m])" using complete_append [OF c] by simp
        moreover have "\<not> plain_message a" using a(1,2) by (simp add: plain_message_def)
        moreover have "filter plain_message ?ts = []" using a(4) by (auto simp: plain_message_def list_all_iff filter_empty_conv)
        ultimately show ?thesis using answer new a(5) True sub2 plain np
          by (simp add: exchange_ok_def sanitize_step_def answer_pending_def flush_pending_def drop_pending_def pending_ok_def
              pending_messages_def Let_def)
      next
        case False
        then show ?thesis using answer new a c sub2 plain np
          by (simp add: exchange_ok_def sanitize_step_def answer_pending_def pending_ok_def pending_messages_def Let_def)
      qed
    qed
  qed
qed

lemma sanitize_loop_ok: "exchange_ok pre S \<Longrightarrow> sanitize_loop ms S = Inr S' \<Longrightarrow> exchange_ok (pre @ ms) S'"
proof (induction ms arbitrary: pre S)
  case (Cons m ms)
  then obtain ids where "call_ids m = Inr ids" "sanitize_loop ms (sanitize_step m ids S) = Inr S'"
    by (auto simp: rbind_def split: sum.splits)
  then show ?case using Cons.IH [OF exchange_ok_step [OF Cons.prems(1)]] by simp
qed simp

text \<open>A state without a pending message, and one that waits for the rest of the results.\<close>

definition settled :: "pydict list \<Rightarrow> exchange_state" where
  "settled out = \<lparr>ex_sanitized = out, ex_pending_assistant = None, ex_pending_call_ids = [], ex_pending_tool_messages = [], ex_seen = []\<rparr>"

definition awaiting :: "pydict list \<Rightarrow> pydict \<Rightarrow> string list \<Rightarrow> pydict list \<Rightarrow> exchange_state" where
  "awaiting out a ids ts = \<lparr>ex_sanitized = out, ex_pending_assistant = Some a, ex_pending_call_ids = ids,
     ex_pending_tool_messages = ts, ex_seen = rev (map tool_call_id ts)\<rparr>"

lemma sanitize_results:
  assumes "ts \<noteq> []" and "length (us @ ts) = length ids" and "list_all (\<lambda>t. role t = ''tool'') ts"
    and "distinct (map tool_call_id (us @ ts))" and "set (map tool_call_id ts) \<subseteq> set ids"
  shows "sanitize_loop (ts @ ms) (awaiting out a ids us) = sanitize_loop ms (settled (out @ a # us @ ts))"
  using assms
proof (induction ts arbitrary: us)
  case (Cons t ts)
  have t: "role t = ''tool''" "tool_call_id t \<in> set ids" "tool_call_id t \<notin> tool_call_id ` set us" using Cons.prems by auto
  show ?case
  proof (cases "ts = []")
    case True
    then have "sanitize_step t [] (awaiting out a ids us) = settled (out @ a # us @ [t])"
      using t Cons.prems(2) by (simp add: sanitize_step_def answer_pending_def flush_pending_def drop_pending_def awaiting_def settled_def Let_def)
    then show ?thesis using t(1) True by (simp add: rbind_def)
  next
    case False
    then have "sanitize_step t [] (awaiting out a ids us) = awaiting out a ids (us @ [t])"
      using t Cons.prems(2) by (cases ts) (simp_all add: sanitize_step_def answer_pending_def awaiting_def Let_def)
    then show ?thesis using t(1) False Cons.IH [of "us @ [t]"] Cons.prems by (simp add: rbind_def)
  qed
qed simp

lemma sanitize_complete:
  "complete_history ms \<Longrightarrow> sanitize_loop ms (settled out) = Inr (settled (out @ ms))"
proof (induction ms arbitrary: out rule: complete_history.induct)
  case (plain m ms)
  have "sanitize_step m [] (settled out) = settled (out @ [m])"
    using plain.hyps(1) by (simp add: sanitize_step_def settled_def)
  then show ?case using plain by (simp add: rbind_def)
next
  case (exchange a ids ts ms)
  have "sanitize_step a ids (settled out) = awaiting out a ids []"
    using exchange.hyps(2) by (simp add: sanitize_step_def drop_pending_def settled_def awaiting_def)
  moreover have "ts \<noteq> []" using exchange.hyps(2,3) by auto
  ultimately show ?case using exchange sanitize_results [of ts "[]" ids ms out a] by (simp add: rbind_def)
qed simp

lemma sanitize_result:
  assumes "sanitize_tool_message_history ms = Inr out"
  shows "\<exists>S. exchange_ok ms S \<and> ex_sanitized S = out"
proof -
  obtain S where S: "sanitize_loop ms (settled []) = Inr S" "ex_sanitized S = out"
    using assms by (auto simp: sanitize_tool_message_history_def settled_def rbind_def split: sum.splits)
  have "exchange_ok [] (settled [])"
    by (simp add: exchange_ok_def settled_def pending_ok_def pending_messages_def complete_history.nil)
  from sanitize_loop_ok [OF this S(1)] S(2) show ?thesis by auto
qed

lemma sanitize_of_complete: "complete_history ms \<Longrightarrow> sanitize_tool_message_history ms = Inr ms"
  using sanitize_complete [of ms "[]"] by (simp add: sanitize_tool_message_history_def settled_def rbind_def)

lemma complete_exchange_answered:
  "complete_history ms \<Longrightarrow> a \<in> set ms \<Longrightarrow> call_ids a = Inr ids \<Longrightarrow> i \<in> set ids
   \<Longrightarrow> \<exists>t \<in> set ms. role t = ''tool'' \<and> tool_call_id t = i"
proof (induction rule: complete_history.induct)
  case (exchange b ids' ts ms)
  show ?case
  proof (cases "a = b")
    case True
    have "card (set ids') \<le> card (set (map tool_call_id ts))"
      using card_length [of ids'] exchange.hyps(3,5) distinct_card [of "map tool_call_id ts"] by simp
    then have "set ids' = set (map tool_call_id ts)"
      using exchange.hyps(6) card_seteq [of "set ids'"] by (metis List.finite_set)
    then show ?thesis using True exchange.prems exchange.hyps(1,4) by (auto simp: list_all_iff)
  next
    case False
    have "a \<notin> set ts" if "i \<in> set ids"
      using that exchange.hyps(4) exchange.prems(2) by (auto simp: list_all_iff)
    then show ?thesis using False exchange by auto
  qed
qed auto

lemma sanitize_facts:
  assumes "sanitize_tool_message_history ms = Inr out"
  shows "complete_history out \<and> subseq out ms \<and> filter plain_message out = filter plain_message ms"
proof -
  obtain S where S: "exchange_ok ms S" "ex_sanitized S = out" using sanitize_result [OF assms] by blast
  then have sub: "subseq (out @ pending_messages S) ms" by (simp add: exchange_ok_def)
  have "subseq out (out @ pending_messages S)" using list_emb_prefix [of "(=)" out out] by simp
  then have "subseq out ms" using sub by (rule subseq_order.trans)
  then show ?thesis using S by (auto simp: exchange_ok_def)
qed

lemma unanswered_not_sent:
  assumes "sanitize_tool_message_history ms = Inr out" and "call_ids a = Inr ids" "i \<in> set ids"
    and "\<forall>t \<in> set ms. role t = ''tool'' \<longrightarrow> tool_call_id t \<noteq> i"
  shows "a \<notin> set out"
proof
  assume "a \<in> set out"
  then obtain t where "t \<in> set out" "role t = ''tool''" "tool_call_id t = i"
    using complete_exchange_answered assms(2,3) sanitize_facts [OF assms(1)] by blast
  moreover from this(1) have "t \<in> set ms" using sanitize_facts [OF assms(1)] by (auto dest: list_emb_set)
  ultimately show False using assms(4) by blast
qed

text \<open>(C5)
  What is sent to the provider is a complete history: the messages kept are in their order,
  every message without calls is kept, and a message with calls is sent only together with a
  result for each of them, so that a call without its result takes the text of its message with
  it. A history that is complete already is sent as it is.
\<close>

theorem sanitized_history_complete:
  assumes "sanitize_tool_message_history ms = Inr out"
  shows "complete_history out \<and> subseq out ms \<and> filter plain_message out = filter plain_message ms
    \<and> sanitize_tool_message_history out = Inr out \<and> (complete_history ms \<longrightarrow> out = ms)
    \<and> (\<forall>a \<in> set ms. \<forall>ids i. call_ids a = Inr ids \<and> i \<in> set ids
          \<and> (\<forall>t \<in> set ms. role t = ''tool'' \<longrightarrow> tool_call_id t \<noteq> i) \<longrightarrow> a \<notin> set out)"
proof -
  have c: "complete_history out" using sanitize_facts [OF assms] by blast
  have "complete_history ms \<longrightarrow> out = ms" using sanitize_of_complete assms by auto
  then show ?thesis using sanitize_facts [OF assms] sanitize_of_complete [OF c] unanswered_not_sent [OF assms] by blast
qed

definition example_call :: "string \<Rightarrow> string \<Rightarrow> pydict" where
  "example_call content i = [(''role'', PStr ''assistant''), (''content'', PStr content),
     (''tool_calls'', PList [PDict [(''id'', PStr i), (''name'', PStr ''read''), (''arguments'', PStr ''{}'')]])]"

definition example_text :: "string \<Rightarrow> string \<Rightarrow> pydict" where
  "example_text r content = [(''role'', PStr r), (''content'', PStr content)]"

definition example_result :: "string \<Rightarrow> pydict" where
  "example_result i = [(''role'', PStr ''tool''), (''tool_call_id'', PStr i), (''content'', PStr ''ok'')]"

theorem sanitized_history_complete_witness:
  "(let ms = [example_call ''let me see'' ''c1'', example_result ''c1'', example_call ''and this'' ''c2''] in
    \<exists>out. sanitize_tool_message_history ms = Inr out \<and> length out = 2 \<and> example_call ''and this'' ''c2'' \<notin> set out)"
proof -
  let ?ms = "[example_call ''let me see'' ''c1'', example_result ''c1'', example_call ''and this'' ''c2'']"
  have ids: "call_ids (example_call ''let me see'' ''c1'') = Inr [''c1'']" "call_ids (example_call ''and this'' ''c2'') = Inr [''c2'']"
    by code_simp+
  have roles: "role (example_result ''c1'') = ''tool''" "role (example_call ''let me see'' ''c1'') = ''assistant''"
      "role (example_call ''and this'' ''c2'') = ''assistant''" "tool_call_id (example_result ''c1'') = ''c1''" by code_simp+
  have r: "sanitize_tool_message_history ?ms = Inr [example_call ''let me see'' ''c1'', example_result ''c1'']"
    using ids roles
    by (simp add: sanitize_tool_message_history_def rbind_def sanitize_step_def drop_pending_def answer_pending_def flush_pending_def Let_def)
  have "\<forall>t \<in> set ?ms. role t = ''tool'' \<longrightarrow> tool_call_id t \<noteq> ''c2''" using roles by simp
  then have "example_call ''and this'' ''c2'' \<notin> set [example_call ''let me see'' ''c1'', example_result ''c1'']"
    using sanitized_history_complete [OF r] ids(2) by (meson list.set_intros(1) list.set_intros(2))
  then show ?thesis using r by simp
qed

section \<open>Finished exchanges become text\<close>

lemma complete_call_ids: "complete_history ms \<Longrightarrow> m \<in> set ms \<Longrightarrow> \<exists>ids. call_ids m = Inr ids"
  by (induction rule: complete_history.induct) (auto simp: list_all_iff)

lemma complete_split:
  "complete_history ms \<Longrightarrow> k < length ms \<Longrightarrow> role (ms ! k) \<noteq> ''tool'' \<Longrightarrow>
   complete_history (take k ms) \<and> complete_history (drop k ms)"
proof (induction arbitrary: k rule: complete_history.induct)
  case (plain m ms)
  show ?case
  proof (cases k)
    case 0
    then show ?thesis using plain complete_history.plain by (simp add: complete_history.nil)
  next
    case (Suc j)
    then show ?thesis using plain complete_history.plain by simp
  qed
next
  case (exchange a ids ts ms)
  show ?case
  proof (cases k)
    case 0
    then show ?thesis using complete_history.exchange [OF exchange.hyps] by (simp add: complete_history.nil)
  next
    case (Suc j)
    have "length ts \<le> j"
    proof (rule ccontr)
      assume "\<not> length ts \<le> j"
      then have "(a # ts @ ms) ! k \<in> set ts" using Suc by (simp add: nth_append)
      then show False using exchange.prems(2) exchange.hyps(4) by (auto simp: list_all_iff)
    qed
    then have "complete_history (take (j - length ts) ms) \<and> complete_history (drop (j - length ts) ms)"
      using exchange Suc by (intro exchange.IH) (auto simp: nth_append)
    then show ?thesis using Suc \<open>length ts \<le> j\<close> complete_history.exchange [OF exchange.hyps(1-6)] by simp
  qed
qed simp

lemma collect_results_all:
  assumes "list_all (\<lambda>t. role t = ''tool'') ts" and "distinct (rev (map tool_call_id ts) @ seen)"
    and "set (map tool_call_id ts) \<union> set seen = set ids" and "[] \<notin> set ids" and "ts \<noteq> []"
  shows "collect_results ids (ts @ ms) seen = (ts, rev (map tool_call_id ts) @ seen)"
  using assms
proof (induction ts arbitrary: seen)
  case (Cons t ts)
  have t: "role t = ''tool''" "tool_call_id t \<in> set ids" "tool_call_id t \<noteq> []" using Cons.prems by auto
  show ?case
  proof (cases "ts = []")
    case True
    then show ?thesis using t Cons.prems(3) by simp
  next
    case False
    then have "tool_call_id (hd ts) \<in> set ids" "tool_call_id (hd ts) \<notin> set (tool_call_id t # seen)"
      using Cons.prems(2,3) by (cases ts; auto)+
    then have n: "\<not> set ids \<subseteq> set (tool_call_id t # seen)" by blast
    have "collect_results ids (ts @ ms) (tool_call_id t # seen) = (ts, rev (map tool_call_id ts) @ tool_call_id t # seen)"
      using Cons.prems False by (intro Cons.IH) auto
    then show ?thesis using t n by simp
  qed
qed simp

lemma summaries_ok: "list_all is_dict vs \<Longrightarrow> \<exists>ss. summaries vs = Inr ss"
proof (induction vs)
  case (Cons v vs)
  then show ?case by (cases v) (auto simp: rbind_def tool_call_summary_def Let_def)
qed simp

abbreviation call_dicts :: "pydict \<Rightarrow> bool" where
  "call_dicts m \<equiv> case py_list_or (dget m ''tool_calls'') of Inr calls \<Rightarrow> list_all is_dict calls | Inl _ \<Rightarrow> True"

lemma collapsed_message_ok:
  assumes "assistant_call_ids m = Inr ids" and "call_dicts m"
  shows "\<exists>c. collapsed_message m results = Inr c \<and> plain_message c"
proof -
  obtain calls where calls: "py_list_or (dget m ''tool_calls'') = Inr calls" "list_all is_dict calls"
    using assms by (auto simp: assistant_call_ids_def rbind_def split: sum.splits)
  have fc: "list_all is_dict (map PDict (function_calls items))" for items by (simp add: list_all_iff)
  obtain items where items: "(if calls \<noteq> [] then Inr calls
      else rbind (py_list_or (dget m ''provider_items'')) (\<lambda>items. Inr (map PDict (function_calls items)))) = Inr items"
      "list_all is_dict items"
    using assms(1) calls fc
    by (cases "calls = []") (auto simp: assistant_call_ids_def tool_call_ids_def dicts_def rbind_def split: sum.splits)
  obtain lines where "summaries items = Inr lines" using summaries_ok [OF items(2)] by blast
  moreover have "plain_message [(''role'', PStr ''assistant''), (''content'', PStr s)]" for s
    by (simp add: plain_message_def call_ids_def role_def assistant_call_ids_def dget_def str_or_def py_or_def
        py_list_or_def rbind_def tool_call_ids_def provider_call_ids_def function_calls_def dicts_def)
  ultimately show ?thesis using calls items by (simp add: collapsed_message_def rbind_def Let_def)
qed

lemma collapse_kept: "k \<le> i \<Longrightarrow> collapse_loop (Some k) i ms = Inr ms"
  by (induction ms arbitrary: i) (simp_all add: collapse_loop.simps rbind_def)

lemma collapse_before:
  assumes "complete_history xs" and "\<And>k. keep_from = Some k \<Longrightarrow> i + length xs \<le> k" and "list_all call_dicts xs"
  shows "\<exists>pre. collapse_loop keep_from i (xs @ ys) = rbind (collapse_loop keep_from (i + length xs) ys) (\<lambda>out. Inr (pre @ out))
    \<and> list_all plain_message pre"
  using assms
proof (induction arbitrary: i rule: complete_history.induct)
  case nil
  show ?case by (intro exI [of _ "[]"]) (simp add: rbind_def split: sum.split)
next
  case (plain m ms)
  have b: "Suc i + length ms \<le> k" if "keep_from = Some k" for k using plain.prems(1) [OF that] by simp
  have d: "list_all call_dicts ms" using plain.prems(2) by simp
  from plain.IH [OF b d] obtain pre where pre: "collapse_loop keep_from (Suc i) (ms @ ys)
      = rbind (collapse_loop keep_from (Suc i + length ms) ys) (\<lambda>out. Inr (pre @ out))" "list_all plain_message pre"
    by blast
  have "plain_message m" using plain.hyps by (simp add: plain_message_def)
  moreover have "role m = ''assistant'' \<Longrightarrow> assistant_call_ids m = Inr []" using plain.hyps(2) by (simp add: call_ids_def)
  then have "collapse_loop keep_from i (m # ms @ ys) = rbind (collapse_loop keep_from (Suc i) (ms @ ys)) (\<lambda>out. Inr (m # out))"
    by (simp add: collapse_loop.simps rbind_def)
  ultimately show ?case using pre by (intro exI [of _ "m # pre"]) (simp add: rbind_def split: sum.split)
next
  case (exchange a ids ts ms)
  have role: "role a = ''assistant''" and ids: "assistant_call_ids a = Inr ids"
    using exchange.hyps(1,2) by (auto simp: call_ids_def split: if_splits)
  have ne: "[] \<notin> set ids"
    using ids by (auto simp: assistant_call_ids_def rbind_def tool_call_ids_def provider_call_ids_def split: sum.splits if_splits)
  have "card (set ids) \<le> card (set (map tool_call_id ts))"
    using card_length [of ids] exchange.hyps(3,5) distinct_card [of "map tool_call_id ts"] by simp
  then have all: "set (map tool_call_id ts) = set ids"
    using exchange.hyps(6) card_seteq [of "set ids"] by (metis List.finite_set)
  have "ts \<noteq> []" using exchange.hyps(2,3) by auto
  then have results: "collect_results ids (ts @ ms @ ys) [] = (ts, rev (map tool_call_id ts))"
    using collect_results_all [of ts "[]" ids "ms @ ys"] exchange.hyps(4,5) all ne by simp
  obtain c where c: "collapsed_message a ts = Inr c" "plain_message c"
    using collapsed_message_ok [OF ids] exchange.prems(2) by auto
  have b: "Suc i + length ts + length ms \<le> k" if "keep_from = Some k" for k using exchange.prems(1) [OF that] by simp
  have d: "list_all call_dicts ms" using exchange.prems(2) by simp
  from exchange.IH [OF b d] obtain pre where pre: "collapse_loop keep_from (Suc i + length ts) (ms @ ys)
      = rbind (collapse_loop keep_from (Suc i + length ts + length ms) ys) (\<lambda>out. Inr (pre @ out))" "list_all plain_message pre"
    by blast
  have "\<not> (case keep_from of Some k \<Rightarrow> k \<le> i | None \<Rightarrow> False)" using exchange.prems(1) by (auto split: option.split)
  then have "collapse_loop keep_from i (a # ts @ ms @ ys)
      = rbind (collapse_loop keep_from (Suc i + length ts) (ms @ ys)) (\<lambda>out. Inr (c # out))"
    using role ids exchange.hyps(2) results all c(1) by (simp add: collapse_loop.simps(2) rbind_def)
  then show ?case using pre c(2) by (intro exI [of _ "c # pre"]) (simp add: rbind_def add.assoc split: sum.split)
qed

lemma active_tail_start:
  assumes "complete_history ms"
  shows "\<exists>k. active_tail_tool_chain_start ms = Inr k \<and> (case k of None \<Rightarrow> True | Some j \<Rightarrow> j < length ms \<and> role (ms ! j) \<noteq> ''tool'')"
proof -
  let ?tools = "takeWhile (\<lambda>m. role m = ''tool'') (rev ms)"
  let ?idx = "length ms - length ?tools - 1"
  show ?thesis
  proof (cases "length ?tools = length ms")
    case False
    then have "length ?tools < length ms" by (metis le_neq_implies_less length_rev length_takeWhile_le)
    then have lt: "?idx < length ms" by simp
    then obtain ids where "call_ids (ms ! ?idx) = Inr ids" using complete_call_ids [OF assms nth_mem] by blast
    then show ?thesis using False lt
      by (cases "role (ms ! ?idx) = ''assistant''") (auto simp: active_tail_tool_chain_start_def Let_def rbind_def call_ids_def)
  qed (simp add: active_tail_tool_chain_start_def)
qed

text \<open>
  For a provider that must not see old calls, the finished exchanges of a complete history are
  replaced by text: the result is again complete, it holds no call and no result before the
  exchange at the end of the history (if there is one), and that exchange is kept as it is. The
  only thing that can raise is an entry of the tool calls that is no dictionary.
\<close>

theorem collapsed_history_complete:
  assumes "complete_history ms" and "list_all call_dicts ms"
  shows "\<exists>k pre. active_tail_tool_chain_start ms = Inr k
    \<and> collapse_resolved_tool_history ms = Inr (pre @ (case k of Some j \<Rightarrow> drop j ms | None \<Rightarrow> []))
    \<and> list_all plain_message pre \<and> complete_history (pre @ (case k of Some j \<Rightarrow> drop j ms | None \<Rightarrow> []))"
proof -
  have plain: "list_all plain_message pre \<Longrightarrow> complete_history pre" for pre
    by (induction pre) (auto simp: plain_message_def intro: complete_history.intros)
  from active_tail_start [OF assms(1)] obtain k where k: "active_tail_tool_chain_start ms = Inr k"
    "case k of None \<Rightarrow> True | Some j \<Rightarrow> j < length ms \<and> role (ms ! j) \<noteq> ''tool''" by blast
  show ?thesis
  proof (cases k)
    case None
    obtain pre where "collapse_loop None 0 (ms @ []) = rbind (collapse_loop None (0 + length ms) []) (\<lambda>out. Inr (pre @ out))"
      "list_all plain_message pre" using collapse_before [of ms None 0 "[]"] assms by auto
    then show ?thesis using k None plain
      by (intro exI [of _ k] exI [of _ pre]) (simp add: collapse_resolved_tool_history_def rbind_def collapse_loop.simps)
  next
    case (Some j)
    then have c: "complete_history (take j ms)" "complete_history (drop j ms)" and len: "length (take j ms) = j"
      using complete_split [OF assms(1)] k(2) by simp_all
    have "list_all call_dicts (take j ms)" using assms(2) by (auto simp: list_all_iff dest: in_set_takeD)
    from collapse_before [OF c(1) _ this, of "Some j" 0 "drop j ms"] len obtain pre where
      "collapse_loop (Some j) 0 (take j ms @ drop j ms) = rbind (collapse_loop (Some j) (0 + length (take j ms)) (drop j ms)) (\<lambda>out. Inr (pre @ out))"
      "list_all plain_message pre" by auto
    then show ?thesis using k Some c(2) complete_append [OF plain] collapse_kept [of j j] len
      by (intro exI [of _ k] exI [of _ pre]) (simp add: collapse_resolved_tool_history_def rbind_def)
  qed
qed

theorem collapsed_history_complete_witness:
  "(let ms = [example_call ''let me see'' ''c1'', example_result ''c1'', example_text ''user'' ''go on''] in
     complete_history ms \<and> (\<exists>pre. collapse_resolved_tool_history ms = Inr pre \<and> list_all plain_message pre))"
proof -
  let ?ms = "[example_call ''let me see'' ''c1'', example_result ''c1'', example_text ''user'' ''go on'']"
  have ids: "call_ids (example_call ''let me see'' ''c1'') = Inr [''c1'']" "call_ids (example_text ''user'' ''go on'') = Inr []"
    by code_simp+
  have roles: "role (example_result ''c1'') = ''tool''" "role (example_text ''user'' ''go on'') \<noteq> ''tool''" "tool_call_id (example_result ''c1'') = ''c1''"
    "role (example_text ''user'' ''go on'') \<noteq> ''assistant''" by code_simp+
  have c: "complete_history (example_call ''let me see'' ''c1'' # [example_result ''c1''] @ [example_text ''user'' ''go on''])"
    by (rule complete_history.exchange [OF ids(1)]) (simp_all add: roles ids complete_history.intros)
  have d: "list_all call_dicts ?ms" by code_simp
  have "active_tail_tool_chain_start ?ms = Inr None" using roles by (simp add: active_tail_tool_chain_start_def)
  then show ?thesis using collapsed_history_complete [of ?ms] c d by (auto simp: Let_def)
qed

end
