(* ===== verification/Context_Plan.thy ===== *)
theory Context_Plan
  imports Messages Model_History Py_Float
begin

text \<open>
  What is sent to the model: token estimates, the length policy, the plan of a turn, the
  compaction of long histories and the loading of a thread, from \<^verbatim>\<open>core/context.py\<close>.

  Texts of the code that lie outside Latin-1 are the fields of a \<open>context_texts\<close>, an argument.
  \<open>chat\<close> is the request to the model (None where it raises), \<open>limit_of\<close> the context limit the
  adapter knows for a model, \<open>recall\<close> the query of the context pool.
\<close>

record context_texts =
  tx_empty_summary :: string
  tx_summary_heading :: string
  tx_pool_notice :: string
  tx_project_notice :: string
  tx_message_label :: string
  tx_summary_instructions :: string
  tx_existing_heading :: string

section \<open>Token estimates\<close>

definition estimate_text_tokens :: "string \<Rightarrow> int" where
  "estimate_text_tokens s = rat_trunc (fdiv (fl (of_nat (length s))) (fl (9 / 5)))"

definition estimate_value_tokens :: "pyval \<Rightarrow> int" where
  "estimate_value_tokens v =
     (case v of PNone \<Rightarrow> 0 | PStr s \<Rightarrow> estimate_text_tokens s | _ \<Rightarrow> estimate_text_tokens (json_dumps v))"

definition estimate_message_tokens :: "pydict \<Rightarrow> int" where
  "estimate_message_tokens m =
     estimate_value_tokens (dget_or m ''content'' (PStr [])) + estimate_value_tokens (dget m ''tool_calls'')
     + estimate_value_tokens (dget m ''provider_items'') + estimate_value_tokens (dget m ''tool_call_id'')"

definition estimate_tokens :: "pydict list \<Rightarrow> int" where
  "estimate_tokens ms = sum_list (map estimate_message_tokens ms)"

section \<open>The length policy\<close>

definition normalize_conversation_summary :: "context_texts \<Rightarrow> string \<Rightarrow> string" where
  "normalize_conversation_summary tx summary =
     (let s = strip summary in if s \<noteq> [] \<and> s \<noteq> tx_empty_summary tx then s else [])"

definition provider_family :: "string \<Rightarrow> string \<Rightarrow> string" where
  "provider_family provider_name api_url =
     (let p = lower (strip provider_name); u = lower (strip api_url) in
      if p \<in> {''openai'', ''anthropic'', ''gemini''} then p
      else if contains ''anthropic'' u \<or> contains ''claude'' u then ''anthropic''
      else if contains ''gemini'' u \<or> contains ''googleapis'' u then ''gemini''
      else if contains ''openai'' u then ''openai''
      else ''generic'')"

record length_params =
  pr_reserve_ratio :: rat
  pr_response_ratio :: rat
  pr_min_response_tokens :: int
  pr_recent_history_turns :: int

definition provider_length_policies :: "string \<Rightarrow> length_params" where
  "provider_length_policies family =
     (if family = ''openai'' then
        \<lparr>pr_reserve_ratio = fl (72 / 100), pr_response_ratio = fl (22 / 100), pr_min_response_tokens = 1024, pr_recent_history_turns = 8\<rparr>
      else if family = ''anthropic'' then
        \<lparr>pr_reserve_ratio = fl (78 / 100), pr_response_ratio = fl (18 / 100), pr_min_response_tokens = 768, pr_recent_history_turns = 10\<rparr>
      else if family = ''gemini'' then
        \<lparr>pr_reserve_ratio = fl (74 / 100), pr_response_ratio = fl (2 / 10), pr_min_response_tokens = 1024, pr_recent_history_turns = 8\<rparr>
      else
        \<lparr>pr_reserve_ratio = fl (75 / 100), pr_response_ratio = fl (2 / 10), pr_min_response_tokens = 768, pr_recent_history_turns = 8\<rparr>)"

record length_policy =
  lp_provider_family :: string
  lp_model :: string
  lp_context_limit_tokens :: int
  lp_target_input_tokens :: int
  lp_reserved_response_tokens :: int
  lp_reserve_ratio :: rat
  lp_recent_history_turns :: int
  lp_budgets :: "(string \<times> int) list"

text \<open>\<open>int(n * ratio)\<close>.\<close>

definition share :: "int \<Rightarrow> rat \<Rightarrow> int" where
  "share n ratio = rat_trunc (fmul (fl (of_int n)) ratio)"

definition build_length_policy :: "(string \<Rightarrow> int) \<Rightarrow> string \<Rightarrow> string \<Rightarrow> string \<Rightarrow> int \<Rightarrow> length_policy" where
  "build_length_policy limit_of model provider_name api_url override =
     (let limit = (if override \<noteq> 0 then override else limit_of model);
          family = provider_family provider_name api_url;
          p = provider_length_policies family;
          reserved = max (pr_min_response_tokens p) (share limit (pr_response_ratio p));
          target = max 512 (min (share limit (pr_reserve_ratio p)) (limit - reserved))
      in \<lparr>lp_provider_family = family, lp_model = model, lp_context_limit_tokens = limit, lp_target_input_tokens = target,
          lp_reserved_response_tokens = reserved, lp_reserve_ratio = pr_reserve_ratio p,
          lp_recent_history_turns = pr_recent_history_turns p,
          lp_budgets = [(''system'', max 256 (share target (fl (16 / 100)))), (''conversation_summary'', max 192 (share target (fl (12 / 100)))),
            (''context_pool'', max 192 (share target (fl (1 / 10)))), (''memory'', max 192 (share target (fl (14 / 100)))),
            (''policy'', max 256 (share target (fl (16 / 100)))), (''history'', max 256 (share target (fl (26 / 100)))),
            (''tool_history'', max 128 (share target (fl (1 / 10)))), (''current_input'', max 128 (share target (fl (12 / 100)))),
            (''proprioception'', max 64 (share target (fl (8 / 100))))]\<rparr>)"

section \<open>What may be trimmed\<close>

definition trim_priority :: "pydict \<Rightarrow> nat" where
  "trim_priority m =
     (if role m = ''tool'' then 0
      else if truthy (dget m ''tool_calls'') then 1
      else if role m = ''assistant'' then 2
      else if role m = ''user'' then 3 else 4)"

definition message_call_ids :: "pydict \<Rightarrow> pyerr + string list" where
  "message_call_ids m = rbind (py_list_or (dget m ''tool_calls'')) (\<lambda>calls. Inr (tool_call_ids calls))"

fun requested_ids :: "pydict list \<Rightarrow> pyerr + string list" where
  "requested_ids [] = Inr []"
| "requested_ids (m # ms) = rbind (message_call_ids m) (\<lambda>ids. rbind (requested_ids ms) (\<lambda>rest. Inr (ids @ rest)))"

definition pending_tool_call_ids :: "pydict list \<Rightarrow> pyerr + string list" where
  "pending_tool_call_ids ms =
     rbind (requested_ids ms) (\<lambda>requested.
       let resolved = filter (\<lambda>s. s \<noteq> []) (map tool_call_id ms)
       in Inr (filter (\<lambda>i. i \<notin> set resolved) requested))"

text \<open>The ids as the pinning reads them: \<open>(tool_call or {}).get("id")\<close>.\<close>

fun pin_call_ids :: "pyval list \<Rightarrow> pyerr + string list" where
  "pin_call_ids [] = Inr []"
| "pin_call_ids (v # vs) =
     (if truthy v \<and> \<not> is_dict v then Inl (AttributeError ''get'')
      else rbind (pin_call_ids vs) (\<lambda>ids. Inr (clean (dget (as_dict v) ''id'') # ids)))"

definition pinned_for :: "string list \<Rightarrow> nat \<Rightarrow> pydict \<Rightarrow> pyerr + nat list" where
  "pinned_for pending idx m =
     rbind (py_list_or (dget m ''tool_calls'')) (\<lambda>calls.
     rbind (pin_call_ids calls) (\<lambda>ids.
       let tid = tool_call_id m in
       Inr ((if tid \<noteq> [] \<and> tid \<in> set pending then (if 0 < idx then [idx, idx - 1] else [idx]) else [])
            @ (if list_ex (\<lambda>i. i \<noteq> [] \<and> i \<in> set pending) ids then [idx] else []))))"

fun pinned_from :: "string list \<Rightarrow> nat \<Rightarrow> pydict list \<Rightarrow> pyerr + nat list" where
  "pinned_from pending idx [] = Inr []"
| "pinned_from pending idx (m # ms) =
     rbind (pinned_for pending idx m) (\<lambda>a. rbind (pinned_from pending (Suc idx) ms) (\<lambda>b. Inr (a @ b)))"

definition pinned_indexes :: "string list \<Rightarrow> pydict list \<Rightarrow> pyerr + nat list" where
  "pinned_indexes pending sel = (if pending = [] then Inr [] else pinned_from pending 0 sel)"

text \<open>\<open>==\<close> on values, where the order of the keys of a dictionary does not count.\<close>

fun numeric :: "pyval \<Rightarrow> rat option" where
  "numeric (PBool b) = Some (if b then 1 else 0)"
| "numeric (PInt i) = Some (of_int i)"
| "numeric (PFloat r _) = Some r"
| "numeric _ = None"

fun py_eq :: "pyval \<Rightarrow> pyval \<Rightarrow> bool"
and items_eq :: "pyval list \<Rightarrow> pyval list \<Rightarrow> bool"
and pairs_eq :: "(string \<times> pyval) list \<Rightarrow> (string \<times> pyval) list \<Rightarrow> bool" where
  "py_eq (PStr a) v = (v = PStr a)"
| "py_eq PNone v = (v = PNone)"
| "py_eq (PList xs) v = (case v of PList ys \<Rightarrow> items_eq xs ys | _ \<Rightarrow> False)"
| "py_eq (PDict a) v = (case v of PDict b \<Rightarrow> length a = length b \<and> pairs_eq a b | _ \<Rightarrow> False)"
| "py_eq (PBool b) v = (numeric v = Some (if b then 1 else 0))"
| "py_eq (PInt i) v = (numeric v = Some (of_int i))"
| "py_eq (PFloat r s) v = (numeric v = Some r)"
| "items_eq [] ys = (ys = [])"
| "items_eq (x # xs) ys = (case ys of y # zs \<Rightarrow> py_eq x y \<and> items_eq xs zs | [] \<Rightarrow> False)"
| "pairs_eq [] b = True"
| "pairs_eq ((k, x) # a) b = ((case map_of b k of Some y \<Rightarrow> py_eq x y | None \<Rightarrow> False) \<and> pairs_eq a b)"

text \<open>\<open>xs.index(m)\<close>: the first entry that is the same object or equal.\<close>

definition index_of :: "pydict \<Rightarrow> pydict list \<Rightarrow> nat option" where
  "index_of m xs = find (\<lambda>i. xs ! i = m \<or> py_eq (PDict (xs ! i)) (PDict m)) [0 ..< length xs]"

text \<open>The first index of the least number.\<close>

fun min_index :: "nat list \<Rightarrow> nat" where
  "min_index [] = 0"
| "min_index (x # xs) = (if xs = [] \<or> x \<le> xs ! min_index xs then 0 else Suc (min_index xs))"

definition remove_at :: "nat \<Rightarrow> 'a list \<Rightarrow> 'a list" where
  "remove_at i xs = take i xs @ drop (Suc i) xs"

definition tool_like :: "pydict \<Rightarrow> bool" where
  "tool_like m \<longleftrightarrow> dget m ''role'' = PStr ''tool'' \<or> truthy (dget m ''tool_calls'')"

text \<open>The index of the message to drop next; None where the loop gives up.\<close>

definition removal_index :: "nat \<Rightarrow> string list \<Rightarrow> pydict list \<Rightarrow> pyerr + nat option" where
  "removal_index recent pending sel =
     rbind (pinned_indexes pending sel) (\<lambda>pinned.
       let removable_prefix = length sel - recent in
       if 0 < removable_prefix then
         (let window = map (\<lambda>i. sel ! i) (filter (\<lambda>i. i \<notin> set pinned) [0 ..< removable_prefix]) in
          if window = [] then Inr None
          else (case index_of (window ! min_index (map trim_priority window)) sel of
                  Some i \<Rightarrow> Inr (Some i)
                | None \<Rightarrow> Inl (ValueError ''list.index'')))
       else
         (case filter (\<lambda>i. tool_like (sel ! i) \<and> i \<notin> set pinned) [0 ..< length sel] of
            [] \<Rightarrow> Inr None
          | i # _ \<Rightarrow> Inr (Some i)))"

lemma index_of_less: "index_of m xs = Some i \<Longrightarrow> i < length xs"
  by (auto simp: index_of_def find_Some_iff)

lemma filter_upt_head:
  assumes "filter p [0 ..< n] = j # js"
  shows "j < n \<and> p j"
proof -
  have "j \<in> set (filter p [0 ..< n])" by (simp only: assms list.set_intros)
  then show ?thesis by simp
qed

text \<open>Either the first of the least candidates in front of the recent messages, or a tool message.\<close>

lemma removal_indexE:
  assumes "removal_index recent pending sel = Inr (Some i)"
  obtains pinned window where "pinned_indexes pending sel = Inr pinned"
      "window = map (\<lambda>i. sel ! i) (filter (\<lambda>i. i \<notin> set pinned) [0 ..< length sel - recent])" "window \<noteq> []"
      "index_of (window ! min_index (map trim_priority window)) sel = Some i"
    | pinned where "pinned_indexes pending sel = Inr pinned" "length sel \<le> recent" "i < length sel" "tool_like (sel ! i)" "i \<notin> set pinned"
proof -
  obtain pinned where p: "pinned_indexes pending sel = Inr pinned"
    using assms by (auto simp: removal_index_def rbind_def split: sum.splits)
  let ?w = "map (\<lambda>i. sel ! i) (filter (\<lambda>i. i \<notin> set pinned) [0 ..< length sel - recent])"
  let ?f = "filter (\<lambda>i. tool_like (sel ! i) \<and> i \<notin> set pinned) [0 ..< length sel]"
  show ?thesis
  proof (cases "0 < length sel - recent")
    case True
    then have "?w \<noteq> []" "index_of (?w ! min_index (map trim_priority ?w)) sel = Some i"
      using assms unfolding removal_index_def p rbind_def sum.case Let_def if_P [OF True]
      by (auto split: if_splits option.splits simp del: map_map)
    then show ?thesis using that(1) [OF p refl] by blast
  next
    case False
    then obtain js where "?f = i # js"
      using assms unfolding removal_index_def p rbind_def sum.case Let_def if_not_P [OF False]
      by (cases ?f) auto
    from filter_upt_head [OF this] show ?thesis using that(2) [OF p] False by simp
  qed
qed

lemma removal_index_less: "removal_index recent pending sel = Inr (Some i) \<Longrightarrow> i < length sel"
  by (erule removal_indexE) (auto dest: index_of_less)

lemma length_remove_at: "i < length xs \<Longrightarrow> length (remove_at i xs) = length xs - 1"
  by (simp add: remove_at_def)

text \<open>\<open>tokens\<close> estimates the messages that are composed around the selected history.\<close>

function trim_loop :: "(pydict list \<Rightarrow> int) \<Rightarrow> int \<Rightarrow> nat \<Rightarrow> string list \<Rightarrow> pydict list \<Rightarrow> pyerr + pydict list" where
  "trim_loop tokens target recent pending sel =
     (if tokens sel \<le> target \<or> sel = [] then Inr sel
      else (case removal_index recent pending sel of
              Inl e \<Rightarrow> Inl e
            | Inr None \<Rightarrow> Inr sel
            | Inr (Some i) \<Rightarrow> trim_loop tokens target recent pending (remove_at i sel)))"
  by pat_completeness auto
termination
  by (relation "measure (\<lambda>(_, _, _, _, sel). length sel)")
    (auto simp: length_remove_at dest!: removal_index_less)

declare trim_loop.simps [simp del]

section \<open>The plan of a turn\<close>

text \<open>The layers around the history, in the order they are sent.\<close>

record plan_layers =
  pl_system_history :: "pydict list"
  pl_summary :: "pydict option"
  pl_context_pool :: "pydict option"
  pl_project :: "pydict option"
  pl_memory :: "pydict option"
  pl_policy :: "pydict list"
  pl_current_turn :: "pydict list"
  pl_proprioception :: "pydict option"

definition opt_list :: "'a option \<Rightarrow> 'a list" where
  "opt_list x = (case x of Some a \<Rightarrow> [a] | None \<Rightarrow> [])"

definition compose_messages :: "plan_layers \<Rightarrow> pydict list \<Rightarrow> pydict list" where
  "compose_messages L selected =
     pl_system_history L
     @ (case pl_summary L of Some m \<Rightarrow> if m = [] then [] else [m] | None \<Rightarrow> [])
     @ (case pl_context_pool L of Some m \<Rightarrow> if m = [] then [] else [m] | None \<Rightarrow> [])
     @ (case pl_project L of Some m \<Rightarrow> if m = [] then [] else [m] | None \<Rightarrow> [])
     @ opt_list (pl_memory L) @ pl_policy L @ selected @ pl_current_turn L @ opt_list (pl_proprioception L)"

definition layer_message :: "string \<Rightarrow> string \<Rightarrow> pydict" where
  "layer_message layer content =
     [(''role'', PStr ''system''), (''content'', PStr content),
      (''metadata'', PDict [(''context_layer'', PStr layer), (''transient'', PBool True)])]"

definition summary_message :: "context_texts \<Rightarrow> string \<Rightarrow> pydict option" where
  "summary_message tx summary =
     (let s = normalize_conversation_summary tx summary
      in if s = [] then None else Some (layer_message ''conversation_summary'' (tx_summary_heading tx @ [char_of (10::nat)] @ s)))"

text \<open>
  The query of the context pool: the texts of the user in this turn. \<open>principal\<close> is what the
  getter of the principal returns (None where it or the service is not set), \<open>ev\<close> the context of
  the event, \<open>recall\<close> the service with the principal, the text, the public ids of the thread, the
  session and the workspace; an exception there is logged and ends the recall.
\<close>

definition query_text :: "pydict list \<Rightarrow> string" where
  "query_text turn =
     strip (join [char_of (10::nat)] (filter (\<lambda>s. s \<noteq> []) (map (\<lambda>m. case dget m ''content'' of PStr s \<Rightarrow> strip s | _ \<Rightarrow> [])
       (filter (\<lambda>m. role m = ''user'') turn))))"

definition active_workspace_of :: "pydict \<Rightarrow> pydict \<Rightarrow> string" where
  "active_workspace_of ev route =
     clean (py_or (dget ev ''active_workspace_id'') (py_or (dget ev ''workspace_id'')
       (dget (as_dict (dget route ''workspace'')) ''workspace_id'')))"

definition build_context_pool_message ::
  "context_texts \<Rightarrow> ('p \<Rightarrow> string \<Rightarrow> string \<Rightarrow> string \<Rightarrow> string \<Rightarrow> pyerr + pydict list) option \<Rightarrow> (pyerr + 'p) option
   \<Rightarrow> pydict \<Rightarrow> pydict list \<Rightarrow> pydict \<Rightarrow> pydict option" where
  "build_context_pool_message tx recall principal_of ev turn route =
     (case (recall, principal_of) of
        (Some query, Some pr) \<Rightarrow>
          if query_text turn = [] then None
          else (case rbind pr (\<lambda>p. query p (query_text turn) (clean (dget ev ''thread_id'')) (clean (dget ev ''session_id''))
                       (active_workspace_of ev route)) of
                  Inl _ \<Rightarrow> None
                | Inr rows \<Rightarrow>
                    if rows = [] then None
                    else Some (layer_message ''context_pool''
                      (''[ContextPool]'' @ [char_of (10::nat)] @ tx_pool_notice tx @ [char_of (10::nat)]
                       @ json_dumps (PDict [(''items'', PList (map PDict rows))]))))
      | _ \<Rightarrow> None)"

definition source_lines :: "nat \<Rightarrow> pydict \<Rightarrow> string list" where
  "source_lines index source =
     (let sid = clean (dget source ''source_id''); ty = clean (dget source ''source_type'');
          title = strip (py_str (py_or (dget source ''title'') (PStr (or_str sid (''source '' @ nat_str index)))));
          parts = (if sid \<noteq> [] then [''id='' @ sid] else []) @ (if ty \<noteq> [] then [''type='' @ ty] else []);
          content = clean (dget source ''content'')
      in join '' '' ([nat_str index @ ''. '' @ title] @ (if parts \<noteq> [] then [''('' @ join '', '' parts @ '')''] else []))
         # (if content \<noteq> [] then [content] else []))"

definition build_project_context_message :: "context_texts \<Rightarrow> pydict \<Rightarrow> pyerr + pydict option" where
  "build_project_context_message tx route =
     (let project = as_dict (dget route ''project'') in
      if project = [] then Inr None
      else let pid = clean (dget project ''project_id''); title = clean (dget project ''title'');
               description = clean (dget project ''description''); instructions = clean (dget project ''instructions'') in
      rbind (py_list_or (dget project ''sources'')) (\<lambda>items.
        let sources = dicts items in
        if pid = [] \<and> title = [] \<and> description = [] \<and> instructions = [] \<and> sources = [] then Inr None
        else Inr (Some
          [(''role'', PStr ''system''),
           (''content'', PStr (join [char_of (10::nat)]
              ([''[Project Context]'', tx_project_notice tx]
               @ (if title \<noteq> [] \<or> pid \<noteq> [] then
                    [''Project: '' @ or_str title pid @ (if title \<noteq> [] \<and> pid \<noteq> [] then '' ('' @ pid @ '')'' else [])] else [])
               @ (if description \<noteq> [] then [''Project description:'', description] else [])
               @ (if instructions \<noteq> [] then [''Project instructions:'', instructions] else [])
               @ (if sources \<noteq> [] then ''Project sources:''
                    # concat (map (\<lambda>i. source_lines (Suc i) (take 5 sources ! i)) [0 ..< length (take 5 sources)]) else [])))),
           (''metadata'', PDict [(''context_layer'', PStr ''project_context''), (''project_id'', PStr pid),
              (''project_source_count'', PInt (int (length sources))), (''transient'', PBool True)])])))"

definition is_system :: "pydict \<Rightarrow> bool" where
  "is_system m \<longleftrightarrow> dget m ''role'' = PStr ''system''"

text \<open>The tokens of each layer.\<close>

definition tool_history :: "pydict \<Rightarrow> bool" where
  "tool_history m \<longleftrightarrow> \<not> is_system m \<and> tool_like m"

definition optional_tokens :: "pydict option \<Rightarrow> int" where
  "optional_tokens x = estimate_message_tokens (case x of Some m \<Rightarrow> m | None \<Rightarrow> [])"

definition build_context_breakdown :: "plan_layers \<Rightarrow> pydict list \<Rightarrow> (string \<times> int) list" where
  "build_context_breakdown L history =
     (let sys = estimate_tokens (filter is_system history);
          tools = estimate_tokens (filter tool_history history);
          hist = estimate_tokens (filter (\<lambda>m. \<not> is_system m \<and> \<not> tool_like m) history);
          pool = optional_tokens (pl_context_pool L);
          mem = optional_tokens (pl_memory L) + optional_tokens (pl_summary L) + optional_tokens (pl_project L);
          pol = estimate_tokens (pl_policy L); cur = estimate_tokens (pl_current_turn L);
          prop = optional_tokens (pl_proprioception L)
      in [(''system'', sys), (''history'', hist), (''tool_history'', tools), (''context_pool'', pool), (''memory_context'', mem),
          (''policy'', pol), (''current_input'', cur), (''proprioception'', prop),
          (''total'', sys + hist + tools + pool + mem + pol + cur + prop)])"

record context_plan =
  cp_messages :: "pydict list"
  cp_length_policy :: length_policy
  cp_breakdown :: "(string \<times> int) list"
  cp_history :: "pydict list"

text \<open>The arguments of a plan; the context pool and the project are built from the route.\<close>

definition plan_history ::
  "length_policy \<Rightarrow> plan_layers \<Rightarrow> pydict list \<Rightarrow> pyerr + pydict list" where
  "plan_history policy L history =
     rbind (pending_tool_call_ids history) (\<lambda>pending.
       trim_loop (\<lambda>sel. estimate_tokens (compose_messages L sel)) (lp_target_input_tokens policy)
         (nat (lp_recent_history_turns policy)) pending history)"

definition layers_of ::
  "context_texts \<Rightarrow> pydict option \<Rightarrow> string \<Rightarrow> pydict option \<Rightarrow> pydict list \<Rightarrow> pydict list \<Rightarrow> pydict option
   \<Rightarrow> pydict list \<Rightarrow> pydict option \<Rightarrow> plan_layers" where
  "layers_of tx pool summary project session_history turn memory policies proprioception =
     \<lparr>pl_system_history = filter is_system session_history, pl_summary = summary_message tx summary,
      pl_context_pool = pool, pl_project = project, pl_memory = memory, pl_policy = policies,
      pl_current_turn = turn, pl_proprioception = proprioception\<rparr>"

definition build_context_plan ::
  "context_texts \<Rightarrow> length_policy \<Rightarrow> pydict option \<Rightarrow> string \<Rightarrow> pydict \<Rightarrow> pydict list \<Rightarrow> pydict list \<Rightarrow> pydict option
   \<Rightarrow> pydict list \<Rightarrow> pydict option \<Rightarrow> pyerr + context_plan" where
  "build_context_plan tx policy pool summary route session_history turn memory policies proprioception =
     rbind (build_project_context_message tx route) (\<lambda>project.
       let L = layers_of tx pool summary project session_history turn memory policies proprioception
       in rbind (plan_history policy L (filter (\<lambda>m. \<not> is_system m) session_history)) (\<lambda>selected.
            Inr \<lparr>cp_messages = compose_messages L selected, cp_length_policy = policy,
                 cp_breakdown = build_context_breakdown L selected, cp_history = selected\<rparr>))"

section \<open>What trimming keeps\<close>

definition has_pending :: "string list \<Rightarrow> pydict \<Rightarrow> bool" where
  "has_pending pending m \<longleftrightarrow> (case message_call_ids m of Inr ids \<Rightarrow> list_ex (\<lambda>i. i \<in> set pending) ids | Inl _ \<Rightarrow> False)"

lemma remove_at_split:
  assumes "i < length xs"
  obtains ys zs where "xs = ys @ xs ! i # zs" "remove_at i xs = ys @ zs" "length ys = i"
  using id_take_nth_drop [OF assms] assms that [of "take i xs" "drop (Suc i) xs"] by (simp add: remove_at_def)

lemma subseq_remove_at: "subseq (remove_at i xs) xs"
proof (cases "i < length xs")
  case True
  then obtain ys zs where "xs = ys @ xs ! i # zs" "remove_at i xs = ys @ zs" by (rule remove_at_split)
  moreover have "subseq (ys @ zs) (ys @ xs ! i # zs)"
    by (intro list_emb_append_mono subseq_order.refl list_emb_Cons)
  ultimately show ?thesis by simp
qed (simp add: remove_at_def)

lemma set_remove_at: "set (remove_at i xs) \<subseteq> set xs"
  using subseq_remove_at [of i xs] list_emb_set [of "(=)" "remove_at i xs" xs] by blast

lemma filter_remove_at: "i < length xs \<Longrightarrow> \<not> p (xs ! i) \<Longrightarrow> filter p (remove_at i xs) = filter p xs"
  by (erule remove_at_split) (metis filter.simps(2) filter_append)

lemma drop_remove_at: "i < n \<Longrightarrow> n \<le> length xs \<Longrightarrow> drop (n - 1) (remove_at i xs) = drop n xs"
  by (simp add: remove_at_def)

lemma pin_call_ids_mem: "pin_call_ids vs = Inr ids \<Longrightarrow> set (tool_call_ids vs) \<subseteq> set ids"
proof (induction vs arbitrary: ids)
  case (Cons v vs)
  then obtain rest where "pin_call_ids vs = Inr rest" "ids = clean (dget (as_dict v) ''id'') # rest"
    by (auto simp: rbind_def split: if_splits sum.splits)
  then show ?case using Cons.IH by (cases v) (auto simp: tool_call_ids_def dicts_def)
qed (simp add: tool_call_ids_def dicts_def)

lemma pinned_from_mem:
  "pinned_from pending idx ms = Inr P \<Longrightarrow> i < length ms \<Longrightarrow> has_pending pending (ms ! i) \<Longrightarrow> idx + i \<in> set P"
proof (induction pending idx ms arbitrary: P i rule: pinned_from.induct)
  case (2 pending idx m ms)
  obtain a b where ab: "pinned_for pending idx m = Inr a" "pinned_from pending (Suc idx) ms = Inr b" "P = a @ b"
    using 2(2) by (auto simp: rbind_def split: sum.splits)
  show ?case
  proof (cases i)
    case 0
    obtain calls ids where c: "py_list_or (dget m ''tool_calls'') = Inr calls" "pin_call_ids calls = Inr ids"
      using ab(1) by (auto simp: pinned_for_def rbind_def split: sum.splits)
    obtain j where "j \<in> set (tool_call_ids calls)" "j \<in> set pending"
      using 2(4) 0 c(1) by (auto simp: has_pending_def message_call_ids_def rbind_def list_ex_iff)
    moreover from this(1) have "j \<noteq> []" by (simp add: tool_call_ids_def)
    ultimately have "list_ex (\<lambda>i. i \<noteq> [] \<and> i \<in> set pending) ids" using pin_call_ids_mem [OF c(2)] by (auto simp: list_ex_iff)
    then have "idx \<in> set a" using ab(1) c by (auto simp: pinned_for_def rbind_def Let_def)
    then show ?thesis using 0 ab(3) by simp
  next
    case (Suc k)
    then show ?thesis using 2(1) [OF ab(2), of k] 2(3,4) ab(3) by simp
  qed
qed simp

lemma pinned_indexes_mem:
  "pinned_indexes pending sel = Inr P \<Longrightarrow> i < length sel \<Longrightarrow> has_pending pending (sel ! i) \<Longrightarrow> i \<in> set P"
  using pinned_from_mem [of pending 0 sel P i]
  by (cases "pending = []") (auto simp: pinned_indexes_def has_pending_def list_ex_iff split: sum.splits)

lemma min_index_less: "xs \<noteq> [] \<Longrightarrow> min_index xs < length xs"
  by (induction xs) auto

text \<open>Messages that Python calls equal are the same.\<close>

abbreviation plain_equality :: "pydict list \<Rightarrow> bool" where
  "plain_equality sel \<equiv> list_all (\<lambda>a. list_all (\<lambda>b. py_eq (PDict a) (PDict b) \<longrightarrow> a = b) sel) sel"

lemma index_of_same:
  assumes "index_of (sel ! j) sel = Some i" and "j < length sel" and "plain_equality sel"
  shows "i \<le> j \<and> sel ! i = sel ! j"
proof -
  let ?p = "\<lambda>i. sel ! i = sel ! j \<or> py_eq (PDict (sel ! i)) (PDict (sel ! j))"
  obtain k where k: "k < length [0 ..< length sel]" "?p ([0 ..< length sel] ! k)" "i = [0 ..< length sel] ! k" "\<forall>l<k. \<not> ?p ([0 ..< length sel] ! l)"
    using assms(1) unfolding index_of_def find_Some_iff by blast
  then have i: "i = k" "?p i" "\<forall>l<i. \<not> ?p l" by (simp_all del: py_eq.simps)
  have "i \<le> j"
  proof (rule ccontr)
    assume "\<not> i \<le> j"
    then have "j < i" by simp
    then show False using i(3) by blast
  qed
  moreover have "sel ! i = sel ! j"
  proof (cases "sel ! i = sel ! j")
    case False
    then have "py_eq (PDict (sel ! i)) (PDict (sel ! j))" using i(2) by blast
    moreover have "sel ! i \<in> set sel" "sel ! j \<in> set sel" using k(1) i(1) assms(2) by (simp_all del: py_eq.simps)
    ultimately show ?thesis using assms(3) unfolding list_all_iff by blast
  qed
  ultimately show ?thesis ..
qed

lemma removal_spares:
  assumes "removal_index recent pending sel = Inr (Some i)" and "plain_equality sel"
  shows "i < length sel \<and> \<not> has_pending pending (sel ! i)
    \<and> (i < length sel - recent \<or> length sel \<le> recent \<and> tool_like (sel ! i))"
  using assms(1)
proof (cases rule: removal_indexE)
  case (1 pinned window)
  let ?js = "filter (\<lambda>i. i \<notin> set pinned) [0 ..< length sel - recent]"
  define n where "n = min_index (map trim_priority window)"
  have n: "n < length ?js" using 1(2,3) min_index_less [of "map trim_priority window"] by (auto simp: n_def)
  define j where "j = ?js ! n"
  have "j \<in> set ?js" using nth_mem [OF n] by (simp only: j_def)
  then have j: "j < length sel - recent" "j \<notin> set pinned" by simp_all
  have "window ! n = sel ! j" using 1(2) n by (simp add: j_def)
  then have "index_of (sel ! j) sel = Some i" using 1(4) by (simp add: n_def)
  then have i: "i \<le> j" "sel ! i = sel ! j" using index_of_same assms(2) j(1) by auto
  have "\<not> has_pending pending (sel ! j)" using pinned_indexes_mem [OF 1(1)] j by auto
  then show ?thesis using i j(1) by auto
next
  case (2 pinned)
  then show ?thesis using pinned_indexes_mem [OF 2(1)] by auto
qed

abbreviation recent_text :: "nat \<Rightarrow> pydict list \<Rightarrow> pydict list" where
  "recent_text recent ms \<equiv> filter (\<lambda>m. \<not> tool_like m) (drop (length ms - recent) ms)"

lemma trim_loop_keeps:
  "trim_loop tokens target recent pending sel = Inr out \<Longrightarrow> plain_equality sel \<Longrightarrow>
   subseq out sel \<and> filter (has_pending pending) out = filter (has_pending pending) sel
   \<and> suffix (recent_text recent sel) (filter (\<lambda>m. \<not> tool_like m) out)
   \<and> (tokens out \<le> target \<or> out = [] \<or> removal_index recent pending out = Inr None)"
proof (induction tokens target recent pending sel rule: trim_loop.induct)
  case (1 tokens target recent pending sel)
  have suf: "suffix (recent_text recent sel) (filter (\<lambda>m. \<not> tool_like m) sel)"
    by (metis append_take_drop_id filter_append suffixI)
  consider (stop) "out = sel" "tokens out \<le> target \<or> out = [] \<or> removal_index recent pending out = Inr None"
    | (turn) i where "\<not> (tokens sel \<le> target \<or> sel = [])" "removal_index recent pending sel = Inr (Some i)"
        "trim_loop tokens target recent pending (remove_at i sel) = Inr out"
    using 1(2) by (subst (asm) trim_loop.simps) (auto split: if_splits sum.splits option.splits)
  then show ?case
  proof cases
    case stop
    then show ?thesis using suf by simp
  next
    case turn
    note r = removal_spares [OF turn(2) 1(3)]
    have "plain_equality (remove_at i sel)" using 1(3) set_remove_at [of i sel] unfolding list_all_iff by blast
    note ih = 1(1) [OF turn(1) turn(2) refl turn(3) this]
    have "recent_text recent sel = recent_text recent (remove_at i sel)"
      using r drop_remove_at [of i "length sel - recent" sel] by (auto simp: length_remove_at filter_remove_at)
    then show ?thesis using ih r filter_remove_at [of i sel "has_pending pending"] subseq_order.trans [OF _ subseq_remove_at]
      by auto
  qed
qed

section \<open>A plan is always built\<close>

text \<open>The tool calls of a message are a list of dictionaries (or of empty values).\<close>

definition well_called :: "pydict \<Rightarrow> bool" where
  "well_called m \<longleftrightarrow> (case py_list_or (dget m ''tool_calls'') of
     Inr calls \<Rightarrow> list_all (\<lambda>v. is_dict v \<or> \<not> truthy v) calls | Inl _ \<Rightarrow> False)"

lemma pin_call_ids_total: "list_all (\<lambda>v. is_dict v \<or> \<not> truthy v) vs \<Longrightarrow> \<exists>ids. pin_call_ids vs = Inr ids"
  by (induction vs) (auto simp: rbind_def)

lemma pinned_for_total: "well_called m \<Longrightarrow> \<exists>a. pinned_for pending idx m = Inr a"
  using pin_call_ids_total by (fastforce simp: well_called_def pinned_for_def rbind_def Let_def split: sum.splits)

lemma pinned_from_total: "list_all well_called ms \<Longrightarrow> \<exists>P. pinned_from pending idx ms = Inr P"
proof (induction ms arbitrary: idx)
  case (Cons m ms)
  then obtain a where "pinned_for pending idx m = Inr a" using pinned_for_total [of m pending idx] by auto
  moreover obtain b where "pinned_from pending (Suc idx) ms = Inr b" using Cons by fastforce
  ultimately show ?case by (simp add: rbind_def)
qed simp

lemma index_of_total: "m \<in> set xs \<Longrightarrow> index_of m xs \<noteq> None"
  by (auto simp: index_of_def find_None_iff in_set_conv_nth)

lemma removal_index_total:
  assumes "list_all well_called sel"
  shows "\<exists>r. removal_index recent pending sel = Inr r"
proof -
  obtain pinned where p: "pinned_indexes pending sel = Inr pinned"
    using pinned_from_total [OF assms, of pending 0] by (cases "pending = []") (auto simp: pinned_indexes_def)
  define window where "window = map (\<lambda>i. sel ! i) (filter (\<lambda>i. i \<notin> set pinned) [0 ..< length sel - recent])"
  have "index_of (window ! min_index (map trim_priority window)) sel \<noteq> None" if "window \<noteq> []"
  proof (rule index_of_total)
    have "window ! min_index (map trim_priority window) \<in> set window"
      using that min_index_less [of "map trim_priority window"] by simp
    also have "set window \<subseteq> set sel" by (auto simp: window_def)
    finally show "window ! min_index (map trim_priority window) \<in> set sel" .
  qed
  then show ?thesis unfolding removal_index_def p rbind_def sum.case Let_def window_def [symmetric]
    by (auto split: option.split list.split)
qed

lemma trim_loop_total: "list_all well_called sel \<Longrightarrow> \<exists>out. trim_loop tokens target recent pending sel = Inr out"
proof (induction tokens target recent pending sel rule: trim_loop.induct)
  case (1 tokens target recent pending sel)
  obtain r where r: "removal_index recent pending sel = Inr r" using removal_index_total [OF 1(2)] by blast
  show ?case
  proof (cases "tokens sel \<le> target \<or> sel = []")
    case go: False
    show ?thesis
    proof (cases r)
      case (Some i)
      have "list_all well_called (remove_at i sel)" using 1(2) set_remove_at [of i sel] unfolding list_all_iff by blast
      then show ?thesis using 1(1) [OF go _ refl, of i] r Some go by (subst trim_loop.simps) simp
    qed (subst trim_loop.simps, simp add: r)
  qed (subst trim_loop.simps, simp)
qed

lemma pending_total: "list_all well_called ms \<Longrightarrow> \<exists>pending. pending_tool_call_ids ms = Inr pending"
proof -
  assume "list_all well_called ms"
  then have "\<exists>ids. requested_ids ms = Inr ids"
    by (induction ms) (auto simp: rbind_def message_call_ids_def well_called_def split: sum.splits)
  then show ?thesis by (auto simp: pending_tool_call_ids_def rbind_def)
qed

lemma project_total: "\<not> isl (py_list_or (dget (as_dict (dget route ''project'')) ''sources'')) \<Longrightarrow>
   \<exists>p. build_project_context_message tx route = Inr p"
  by (auto simp: build_project_context_message_def rbind_def Let_def split: sum.splits)

text \<open>What a plan consists of, and what it takes to have one.\<close>

definition trimmed :: "length_policy \<Rightarrow> plan_layers \<Rightarrow> string list \<Rightarrow> pydict list \<Rightarrow> pyerr + pydict list" where
  "trimmed policy L pending h =
     trim_loop (\<lambda>sel. estimate_tokens (compose_messages L sel)) (lp_target_input_tokens policy)
       (nat (lp_recent_history_turns policy)) pending h"

definition plan_of :: "length_policy \<Rightarrow> plan_layers \<Rightarrow> pydict list \<Rightarrow> context_plan" where
  "plan_of policy L sel =
     \<lparr>cp_messages = compose_messages L sel, cp_length_policy = policy, cp_breakdown = build_context_breakdown L sel, cp_history = sel\<rparr>"

lemma plan_iff:
  "build_context_plan tx policy pool summary route history turn memory policies proprioception = Inr plan \<longleftrightarrow>
   (\<exists>project pending sel. build_project_context_message tx route = Inr project
      \<and> pending_tool_call_ids (filter (\<lambda>m. \<not> is_system m) history) = Inr pending
      \<and> trimmed policy (layers_of tx pool summary project history turn memory policies proprioception) pending
          (filter (\<lambda>m. \<not> is_system m) history) = Inr sel
      \<and> plan = plan_of policy (layers_of tx pool summary project history turn memory policies proprioception) sel)"
  unfolding build_context_plan_def plan_history_def trimmed_def plan_of_def rbind_def Let_def
  by (cases "build_project_context_message tx route"; cases "pending_tool_call_ids (filter (\<lambda>m. \<not> is_system m) history)")
    (auto split: sum.splits)

lemma layers_of_simps [simp]:
  "pl_system_history (layers_of tx pool summary project h turn memory policies prop) = filter is_system h"
  "pl_current_turn (layers_of tx pool summary project h turn memory policies prop) = turn"
  by (simp_all add: layers_of_def)

lemma plan_built:
  assumes "list_all well_called (filter (\<lambda>m. \<not> is_system m) history)"
    and "\<not> isl (py_list_or (dget (as_dict (dget route ''project'')) ''sources''))"
  shows "\<exists>plan. build_context_plan tx policy pool summary route history turn memory policies proprioception = Inr plan"
  unfolding plan_iff trimmed_def
  using pending_total [OF assms(1)] trim_loop_total [OF assms(1)] project_total [OF assms(2), of tx] by blast

text \<open>The other direction of pinning: where no result answers an open call, only open calls are pinned.\<close>

lemma pin_call_ids_sub: "pin_call_ids vs = Inr ids \<Longrightarrow> {i \<in> set ids. i \<noteq> []} \<subseteq> set (tool_call_ids vs)"
proof (induction vs arbitrary: ids)
  case (Cons v vs)
  then obtain rest where rest: "pin_call_ids vs = Inr rest" "ids = clean (dget (as_dict v) ''id'') # rest"
    and v: "is_dict v \<or> \<not> truthy v"
    by (auto simp: rbind_def split: if_splits sum.splits)
  have "clean (dget (as_dict v) ''id'') = []" if "\<not> is_dict v"
  proof -
    have "as_dict v = []" using that by (cases v) simp_all
    then show ?thesis by (simp add: dget_def clean_def str_or_def py_or_def)
  qed
  then show ?case using Cons.IH [OF rest(1)] rest(2) by (auto simp: tool_call_ids_def dicts_def)
qed (simp add: tool_call_ids_def dicts_def)

lemma pinned_from_open:
  "pinned_from pending idx ms = Inr P \<Longrightarrow> \<forall>m \<in> set ms. tool_call_id m \<notin> set pending \<Longrightarrow> i \<in> set P \<Longrightarrow>
   idx \<le> i \<and> i < idx + length ms \<and> has_pending pending (ms ! (i - idx))"
proof (induction pending idx ms arbitrary: P rule: pinned_from.induct)
  case (2 pending idx m ms)
  obtain a b where ab: "pinned_for pending idx m = Inr a" "pinned_from pending (Suc idx) ms = Inr b" "P = a @ b"
    using 2(2) by (auto simp: rbind_def split: sum.splits)
  consider "i \<in> set a" | "i \<in> set b" using 2(4) ab(3) by auto
  then show ?case
  proof cases
    case 1
    obtain calls ids where c: "py_list_or (dget m ''tool_calls'') = Inr calls" "pin_call_ids calls = Inr ids"
      using ab(1) by (auto simp: pinned_for_def rbind_def split: sum.splits)
    have i: "i = idx" "list_ex (\<lambda>i. i \<noteq> [] \<and> i \<in> set pending) ids"
      using ab(1) c 1 2(3) by (auto simp: pinned_for_def rbind_def Let_def split: if_splits)
    then have "list_ex (\<lambda>i. i \<in> set pending) (tool_call_ids calls)"
      using pin_call_ids_sub [OF c(2)] by (auto simp: list_ex_iff)
    then show ?thesis using i(1) c(1) by (simp add: has_pending_def message_call_ids_def rbind_def)
  next
    case 2
    then have "Suc idx \<le> i" "i < Suc idx + length ms" "has_pending pending (ms ! (i - Suc idx))"
      using "2.IH" [OF ab(2)] "2.prems"(2) by auto
    moreover from this(1) have "i - idx = Suc (i - Suc idx)" by simp
    ultimately show ?thesis by simp
  qed
qed simp

text \<open>Where the loop gives up: what it would have to give up next are calls without a result.\<close>

lemma removal_index_None:
  assumes "removal_index recent pending sel = Inr None" and "\<forall>m \<in> set sel. tool_call_id m \<notin> set pending"
  shows "list_all (has_pending pending) (take (length sel - recent) sel)
    \<and> (length sel \<le> recent \<longrightarrow> list_all (\<lambda>m. tool_like m \<longrightarrow> has_pending pending m) sel)"
proof -
  obtain pinned where p: "pinned_indexes pending sel = Inr pinned"
    using assms(1) by (auto simp: removal_index_def rbind_def split: sum.splits)
  have pin: "has_pending pending (sel ! i)" if "i \<in> set pinned" for i
    using p that pinned_from_open [of pending 0 sel pinned i] assms(2)
    by (auto simp: pinned_indexes_def split: if_splits)
  show ?thesis
  proof (cases "0 < length sel - recent")
    case True
    then have "filter (\<lambda>i. i \<notin> set pinned) [0 ..< length sel - recent] = []"
      using assms(1) unfolding removal_index_def p rbind_def sum.case Let_def if_P [OF True]
      by (auto split: if_splits option.splits simp del: map_map)
    then have "i \<in> set pinned" if "i < length sel - recent" for i
      using that by (auto simp: filter_empty_conv)
    then show ?thesis using pin True by (auto simp: list_all_length)
  next
    case False
    then have "filter (\<lambda>i. tool_like (sel ! i) \<and> i \<notin> set pinned) [0 ..< length sel] = []"
      using assms(1) unfolding removal_index_def p rbind_def sum.case Let_def if_not_P [OF False]
      by (auto split: list.splits)
    then have "i \<in> set pinned" if "i < length sel" "tool_like (sel ! i)" for i
      using that by (auto simp: filter_empty_conv)
    then show ?thesis using pin False by (auto simp: list_all_length)
  qed
qed

lemma requested_nonempty: "requested_ids ms = Inr ids \<Longrightarrow> [] \<notin> set ids"
  by (induction ms arbitrary: ids)
    (auto simp: rbind_def message_call_ids_def tool_call_ids_def split: sum.splits)

lemma pending_unanswered:
  "pending_tool_call_ids ms = Inr pending \<Longrightarrow> m \<in> set ms \<Longrightarrow> tool_call_id m \<notin> set pending"
  using requested_nonempty by (fastforce simp: pending_tool_call_ids_def rbind_def Let_def split: sum.splits)

text \<open>A history that meets the target is not trimmed.\<close>

lemma trim_loop_fits: "tokens sel \<le> target \<Longrightarrow> trim_loop tokens target recent pending sel = Inr sel"
  by (subst trim_loop.simps) simp

text \<open>(C4)
  The plan of a turn, for a history whose tool calls are lists of dictionaries (or empty values),
  in which messages that Python calls equal are the same, and a project whose sources are a list:
  it is always built. The messages are the system messages of the session, the context layers,
  what is left of the history, this turn and the status line. What is left of the history is in
  its order; every message with a call that has no result stays, and so does every message among
  the most recent ones that is neither a call nor a result. A history with which the messages meet
  the target of tokens is left whole. A plan over its target has nothing left to drop: all but the
  most recent messages that are left have a call without a result, and when only recent ones are
  left, so has every call or result among them.
\<close>

theorem plan_keeps_pending_and_recent:
  assumes calls: "list_all well_called (filter (\<lambda>m. \<not> is_system m) history)"
    and eq: "plain_equality (filter (\<lambda>m. \<not> is_system m) history)"
    and sources: "\<not> isl (py_list_or (dget (as_dict (dget route ''project'')) ''sources''))"
  shows "\<exists>plan L pending. build_context_plan tx policy pool summary route history turn memory policies proprioception = Inr plan
    \<and> pending_tool_call_ids (filter (\<lambda>m. \<not> is_system m) history) = Inr pending
    \<and> pl_system_history L = filter is_system history \<and> pl_current_turn L = turn \<and> cp_messages plan = compose_messages L (cp_history plan)
    \<and> subseq (cp_history plan) (filter (\<lambda>m. \<not> is_system m) history)
    \<and> filter (has_pending pending) (cp_history plan) = filter (has_pending pending) (filter (\<lambda>m. \<not> is_system m) history)
    \<and> suffix (recent_text (nat (lp_recent_history_turns policy)) (filter (\<lambda>m. \<not> is_system m) history))
        (filter (\<lambda>m. \<not> tool_like m) (cp_history plan))
    \<and> (estimate_tokens (compose_messages L (filter (\<lambda>m. \<not> is_system m) history)) \<le> lp_target_input_tokens policy \<longrightarrow>
        cp_history plan = filter (\<lambda>m. \<not> is_system m) history)
    \<and> (estimate_tokens (cp_messages plan) \<le> lp_target_input_tokens policy
       \<or> list_all (has_pending pending)
           (take (length (cp_history plan) - nat (lp_recent_history_turns policy)) (cp_history plan))
         \<and> (length (cp_history plan) \<le> nat (lp_recent_history_turns policy) \<longrightarrow>
             list_all (\<lambda>m. tool_like m \<longrightarrow> has_pending pending m) (cp_history plan)))"
proof -
  let ?h = "filter (\<lambda>m. \<not> is_system m) history"
  obtain plan where plan: "build_context_plan tx policy pool summary route history turn memory policies proprioception = Inr plan"
    using plan_built [OF calls sources] by blast
  then obtain project pending sel where p: "pending_tool_call_ids ?h = Inr pending"
    and out: "trimmed policy (layers_of tx pool summary project history turn memory policies proprioception) pending ?h = Inr sel"
    and plan_of: "plan = plan_of policy (layers_of tx pool summary project history turn memory policies proprioception) sel"
    unfolding plan_iff by blast
  let ?L = "layers_of tx pool summary project history turn memory policies proprioception"
  let ?n = "nat (lp_recent_history_turns policy)"
  have msgs: "cp_history plan = sel" "cp_messages plan = compose_messages ?L sel" by (simp_all add: plan_of plan_of_def)
  note keeps = trim_loop_keeps [OF out [unfolded trimmed_def] eq]
  have "\<forall>m \<in> set sel. tool_call_id m \<notin> set pending"
    using pending_unanswered [OF p] list_emb_set [OF conjunct1 [OF keeps]] by metis
  then have stuck: "list_all (has_pending pending) (take (length sel - ?n) sel)
      \<and> (length sel \<le> ?n \<longrightarrow> list_all (\<lambda>m. tool_like m \<longrightarrow> has_pending pending m) sel)"
    if "sel = [] \<or> removal_index ?n pending sel = Inr None"
    using that removal_index_None [of ?n pending sel] by auto
  have fits: "sel = ?h" if "estimate_tokens (compose_messages ?L ?h) \<le> lp_target_input_tokens policy"
    using out trim_loop_fits [of "\<lambda>sel. estimate_tokens (compose_messages ?L sel)" ?h, OF that]
    by (simp add: trimmed_def)
  show ?thesis unfolding layers_of_simps
    using plan p keeps stuck fits msgs
    by (intro exI [of _ plan] exI [of _ ?L] exI [of _ pending]) (simp only: layers_of_simps msgs, blast)
qed

lemma estimate_tokens_append: "estimate_tokens (xs @ ys) = estimate_tokens xs + estimate_tokens ys"
  by (simp add: estimate_tokens_def)

lemma estimate_tokens_split: "estimate_tokens ms = estimate_tokens (filter p ms) + estimate_tokens (filter (\<lambda>m. \<not> p m) ms)"
  by (induction ms) (simp_all add: estimate_tokens_def)

lemma empty_message_tokens: "estimate_message_tokens [] = 0"
  by code_simp

lemma layer_tokens:
  "estimate_tokens (case x of Some m \<Rightarrow> if m = [] then [] else [m] | None \<Rightarrow> []) = optional_tokens x"
  "estimate_tokens (opt_list x) = optional_tokens x"
  by (simp_all add: estimate_tokens_def optional_tokens_def opt_list_def empty_message_tokens split: option.split)

lemma trim_loop_subset: "trim_loop tokens target recent pending sel = Inr out \<Longrightarrow> set out \<subseteq> set sel"
proof (induction tokens target recent pending sel rule: trim_loop.induct)
  case (1 tokens target recent pending sel)
  then show ?case using set_remove_at by (subst (asm) (2) trim_loop.simps) (fastforce split: if_splits sum.splits option.splits)
qed

text \<open>The token figures of a plan leave out the system messages of the session: they are reported
  as nothing, and the total is what is sent less their estimate.
\<close>

theorem breakdown_misses_system:
  assumes "build_context_plan tx policy pool summary route history turn memory policies proprioception = Inr plan"
  shows "map_of (cp_breakdown plan) ''system'' = Some 0
    \<and> map_of (cp_breakdown plan) ''total'' = Some (estimate_tokens (cp_messages plan) - estimate_tokens (filter is_system history))"
proof -
  let ?h = "filter (\<lambda>m. \<not> is_system m) history"
  obtain project pending out where
    "trimmed policy (layers_of tx pool summary project history turn memory policies proprioception) pending ?h = Inr out"
    and plan_of: "plan = plan_of policy (layers_of tx pool summary project history turn memory policies proprioception) out"
    using assms unfolding plan_iff by blast
  note out = this(1) [unfolded trimmed_def]
  let ?L = "layers_of tx pool summary project history turn memory policies proprioception"
  have plan: "cp_messages plan = compose_messages ?L out" "cp_breakdown plan = build_context_breakdown ?L out"
    by (simp_all add: plan_of plan_of_def)
  have no_sys: "filter is_system out = []" using trim_loop_subset [OF out] by (auto simp: filter_empty_conv)
  have hist: "estimate_tokens (filter tool_history out) + estimate_tokens (filter (\<lambda>m. \<not> is_system m \<and> \<not> tool_like m) out) = estimate_tokens out"
  proof -
    have "filter tool_history out = filter tool_like out" "filter (\<lambda>m. \<not> is_system m \<and> \<not> tool_like m) out = filter (\<lambda>m. \<not> tool_like m) out"
      using no_sys by (auto simp: tool_history_def filter_empty_conv intro!: filter_cong)
    then show ?thesis using estimate_tokens_split [of out tool_like] by simp
  qed
  show ?thesis
    using hist unfolding plan build_context_breakdown_def compose_messages_def estimate_tokens_append layer_tokens layers_of_simps no_sys Let_def
    by (simp add: estimate_tokens_def [of "[]"])
qed

lemma message_call_ids_call_ids:
  "role a = ''assistant'' \<Longrightarrow> message_call_ids a = Inr ids \<Longrightarrow> i \<in> set ids \<Longrightarrow> call_ids a = Inr ids"
  by (auto simp: call_ids_def assistant_call_ids_def message_call_ids_def rbind_def split: sum.splits)

text \<open>A call whose result is missing is kept by the plan, whatever the budget, and its tokens are
  counted, but it is never sent: the adapter drops its message, with the text of that message.
\<close>

theorem pinned_call_not_sent:
  assumes plan: "build_context_plan tx policy pool summary route history turn memory policies proprioception = Inr plan"
    and eq: "plain_equality (filter (\<lambda>m. \<not> is_system m) history)"
    and a: "a \<in> set history" "role a = ''assistant''" "message_call_ids a = Inr ids" "i \<in> set ids"
    and open_call: "\<forall>m \<in> set history. tool_call_id m \<noteq> i" "\<forall>m \<in> set (cp_messages plan). role m = ''tool'' \<longrightarrow> tool_call_id m \<noteq> i"
    and sent: "sanitize_tool_message_history (cp_messages plan) = Inr out"
  shows "a \<in> set (cp_history plan) \<and> a \<in> set (cp_messages plan) \<and> a \<notin> set out"
proof -
  let ?h = "filter (\<lambda>m. \<not> is_system m) history"
  have "\<not> is_system a" using a(2) by (auto simp: is_system_def role_def str_or_def py_or_def)
  then have ah: "a \<in> set ?h" using a(1) by simp
  obtain project pending sel where pending: "pending_tool_call_ids ?h = Inr pending"
    and trim: "trimmed policy (layers_of tx pool summary project history turn memory policies proprioception) pending ?h = Inr sel"
    and plan_of: "plan = plan_of policy (layers_of tx pool summary project history turn memory policies proprioception) sel"
    using plan unfolding plan_iff by blast
  let ?L = "layers_of tx pool summary project history turn memory policies proprioception"
  have p: "cp_history plan = sel" "cp_messages plan = compose_messages ?L sel" by (simp_all add: plan_of plan_of_def)
  have req: "i \<in> set r" if "requested_ids ms = Inr r" "a \<in> set ms" for ms r
    using that a(3,4) by (induction ms arbitrary: r) (auto simp: rbind_def split: sum.splits)
  have "i \<in> set pending" using pending req [OF _ ah] open_call(1)
    by (auto simp: pending_tool_call_ids_def rbind_def Let_def split: sum.splits)
  then have "has_pending pending a" using a(3,4) by (auto simp: has_pending_def list_ex_iff)
  then have "a \<in> set (filter (has_pending pending) ?h)" using ah by simp
  then have "a \<in> set sel" using trim_loop_keeps [OF trim [unfolded trimmed_def] eq] by (metis filter_is_subset subsetD)
  moreover have "set sel \<subseteq> set (compose_messages ?L sel)" by (auto simp: compose_messages_def)
  moreover have "a \<notin> set out"
    by (rule unanswered_not_sent [OF sent message_call_ids_call_ids [OF a(2,3,4)] a(4) open_call(2)])
  ultimately show ?thesis using p by auto
qed

section \<open>Examples\<close>

definition example_texts :: context_texts where
  "example_texts = \<lparr>tx_empty_summary = ''none'', tx_summary_heading = ''[Summary]'', tx_pool_notice = ''shared'',
     tx_project_notice = ''read only'', tx_message_label = ''message'', tx_summary_instructions = ''Summarise.'',
     tx_existing_heading = ''So far:''\<rparr>"

definition example_policy :: length_policy where
  "example_policy = \<lparr>lp_provider_family = ''generic'', lp_model = ''m'', lp_context_limit_tokens = 1000, lp_target_input_tokens = 4,
     lp_reserved_response_tokens = 768, lp_reserve_ratio = 3 / 4, lp_recent_history_turns = 1, lp_budgets = []\<rparr>"

definition example_history :: "pydict list" where
  "example_history = [example_text ''system'' ''be kind'', example_text ''user'' ''a question'', example_call ''let me see'' ''c1'',
     example_text ''user'' ''stop'']"

lemma example_tokens: "estimate_text_tokens ''a question'' = 5" "estimate_text_tokens ''stop'' = 2"
  by code_simp+

lemma example_facts:
  "list_all well_called (filter (\<lambda>m. \<not> is_system m) example_history)"
  "plain_equality (filter (\<lambda>m. \<not> is_system m) example_history)"
  "\<not> isl (py_list_or (dget (as_dict (dget [] ''project'')) ''sources''))"
  "has_pending [''c1''] (example_call ''let me see'' ''c1'')"
  "pending_tool_call_ids (filter (\<lambda>m. \<not> is_system m) example_history) = Inr [''c1'']"
  "example_call ''let me see'' ''c1'' \<in> set (filter (\<lambda>m. \<not> is_system m) example_history)"
  by code_simp+

theorem plan_keeps_pending_and_recent_witness:
  "\<exists>plan. build_context_plan example_texts example_policy None [] [] example_history [] None [] None = Inr plan
     \<and> example_call ''let me see'' ''c1'' \<in> set (cp_messages plan)"
proof -
  from plan_keeps_pending_and_recent [OF example_facts(1-3), of example_texts example_policy None "[]" "[]" None "[]" None]
  obtain plan L pending where p: "build_context_plan example_texts example_policy None [] [] example_history [] None [] None = Inr plan"
      "pending_tool_call_ids (filter (\<lambda>m. \<not> is_system m) example_history) = Inr pending"
      "cp_messages plan = compose_messages L (cp_history plan)"
      "filter (has_pending pending) (cp_history plan) = filter (has_pending pending) (filter (\<lambda>m. \<not> is_system m) example_history)"
    by blast
  have "pending = [''c1'']" using p(2) example_facts(5) by simp
  then have "example_call ''let me see'' ''c1'' \<in> set (filter (has_pending pending) (cp_history plan))"
    using example_facts(4,6) unfolding p(4) set_filter by simp
  then show ?thesis using p(1,3) by (auto simp: compose_messages_def)
qed

theorem breakdown_misses_system_witness:
  "\<exists>plan. build_context_plan example_texts example_policy None [] [] example_history [] None [] None = Inr plan
     \<and> map_of (cp_breakdown plan) ''system'' = Some 0 \<and> estimate_tokens (filter is_system example_history) = 3"
proof -
  obtain plan where "build_context_plan example_texts example_policy None [] [] example_history [] None [] None = Inr plan"
    using plan_built [OF example_facts(1,3)] by blast
  moreover have "estimate_tokens (filter is_system example_history) = 3" by code_simp
  ultimately show ?thesis using breakdown_misses_system by blast
qed

theorem pinned_call_not_sent_witness:
  "\<exists>plan out. build_context_plan example_texts (example_policy\<lparr>lp_target_input_tokens := 1000\<rparr>) None [] [] example_history [] None [] None = Inr plan
     \<and> sanitize_tool_message_history (cp_messages plan) = Inr out
     \<and> example_call ''let me see'' ''c1'' \<in> set (cp_messages plan) \<and> example_call ''let me see'' ''c1'' \<notin> set out"
proof -
  let ?policy = "example_policy\<lparr>lp_target_input_tokens := 1000\<rparr>"
  let ?L = "layers_of example_texts None [] None example_history [] None [] None"
  let ?h = "filter (\<lambda>m. \<not> is_system m) example_history"
  let ?plan = "plan_of ?policy ?L ?h"
  let ?out = "[example_text ''system'' ''be kind'', example_text ''user'' ''a question'', example_text ''user'' ''stop'']"
  have "estimate_tokens (compose_messages ?L ?h) \<le> lp_target_input_tokens ?policy" by code_simp
  then have "trimmed ?policy ?L [''c1''] ?h = Inr ?h" unfolding trimmed_def by (subst trim_loop.simps) simp
  moreover have "build_project_context_message example_texts [] = Inr None" by code_simp
  ultimately have plan: "build_context_plan example_texts ?policy None [] [] example_history [] None [] None = Inr ?plan"
    unfolding plan_iff using example_facts(5) by blast
  have ms: "cp_messages ?plan = example_history"
    by (simp add: plan_of_def compose_messages_def layers_of_def) code_simp
  have e: "call_ids (example_call ''let me see'' ''c1'') = Inr [''c1'']" "call_ids (example_text ''system'' ''be kind'') = Inr []"
      "call_ids (example_text ''user'' ''a question'') = Inr []" "call_ids (example_text ''user'' ''stop'') = Inr []"
      "role (example_text ''system'' ''be kind'') \<noteq> ''tool''" "role (example_text ''user'' ''a question'') \<noteq> ''tool''"
      "role (example_text ''user'' ''stop'') \<noteq> ''tool''" "role (example_call ''let me see'' ''c1'') = ''assistant''"
      "message_call_ids (example_call ''let me see'' ''c1'') = Inr [''c1'']"
      "list_all (\<lambda>m. tool_call_id m \<noteq> ''c1'') example_history" by code_simp+
  have s: "sanitize_tool_message_history example_history = Inr ?out"
    using e(1-8) by (simp add: example_history_def sanitize_tool_message_history_def rbind_def sanitize_step_def drop_pending_def Let_def)
  have m: "example_call ''let me see'' ''c1'' \<in> set example_history" using example_facts(6) by simp
  have o: "\<forall>m \<in> set example_history. tool_call_id m \<noteq> ''c1''" using e(10) unfolding list_all_iff .
  show ?thesis
    using pinned_call_not_sent [OF plan example_facts(2) m e(8,9), of "''c1''" ?out] o plan s ms by auto
qed

end
