(* ===== verification/Context_Compaction.thy ===== *)
theory Context_Compaction
  imports Context_Plan "HOL-Library.Multiset"
begin

text \<open>
  Compaction of the history of a session and loading of the history of a thread, the rest of
  \<^verbatim>\<open>core/context.py\<close>: the summary request, \<open>trim_history\<close>, the compaction when the session is
  idle, and \<open>hydrate_thread_context\<close>.

  The working summary of the session is read through \<open>loaded\<close> and written through the last
  component of a result: Some text where the code stores one.
\<close>

section \<open>The summary of messages\<close>

fun has_source_reference :: "pyval \<Rightarrow> bool"
and any_item_reference :: "pyval list \<Rightarrow> bool"
and any_value_reference :: "(string \<times> pyval) list \<Rightarrow> bool" where
  "has_source_reference (PDict d) =
     (truthy (dget d ''source_id'') \<or> truthy (dget d ''source_ids'') \<or> truthy (dget d ''citation_ids'') \<or> any_value_reference d)"
| "has_source_reference (PList xs) = any_item_reference xs"
| "has_source_reference _ = False"
| "any_item_reference [] = False"
| "any_item_reference (x # xs) = (has_source_reference x \<or> any_item_reference xs)"
| "any_value_reference [] = False"
| "any_value_reference ((k, v) # d) = (has_source_reference v \<or> any_value_reference d)"

text \<open>\<open>text.replace("\r\n", "\n").replace("\r", "\n")\<close>.\<close>

fun unix_newlines :: "string \<Rightarrow> string" where
  "unix_newlines [] = []"
| "unix_newlines [c] = [if code c = 13 then char_of (10::nat) else c]"
| "unix_newlines (c # d # s) =
     (if code c = 13 then char_of (10::nat) # (if code d = 10 then unix_newlines s else unix_newlines (d # s))
      else c # unix_newlines (d # s))"

definition summary_line :: "string \<Rightarrow> pyval \<Rightarrow> string" where
  "summary_line label v =
     (let text = (case v of PStr s \<Rightarrow> strip s | PNone \<Rightarrow> [] | _ \<Rightarrow> json_dumps v)
      in if text = [] then [] else label @ '': '' @ take 1200 (unix_newlines text))"

definition serialize_message_for_summary :: "context_texts \<Rightarrow> pydict \<Rightarrow> nat \<Rightarrow> string" where
  "serialize_message_for_summary tx m index =
     (let content = summary_line ''content'' (dget m ''content'');
          calls = summary_line ''tool_calls'' (dget m ''tool_calls'');
          items = summary_line ''provider_items'' (dget m ''provider_items'');
          cid = summary_line ''tool_call_id'' (dget m ''tool_call_id'')
      in join [char_of (10::nat)]
        ([''['' @ tx_message_label tx @ '' '' @ nat_str index @ '']'', ''role: '' @ str_or (dget m ''role'') ''unknown'']
         @ (if content = [] then []
            else if estimate_text_tokens content > 256 then [take 640 content @ '' ...[truncated_for_summary]''] else [content])
         @ (if has_source_reference (dget m ''content'') then [''traceability: source id detected in content''] else [])
         @ (if calls = [] then [] else [calls])
         @ (if items = [] then [] else [items])
         @ (if has_source_reference (dget m ''provider_items'') then [''traceability: source id detected in provider_items''] else [])
         @ (if cid = [] then [] else [cid])))"

definition summary_text :: "context_texts \<Rightarrow> pydict list \<Rightarrow> string" where
  "summary_text tx ms =
     join [char_of (10::nat), char_of (10::nat)] (map (\<lambda>i. serialize_message_for_summary tx (ms ! i) (i + 1)) [0 ..< length ms])"

text \<open>The summary and its usage; the text itself is cut where the model gives nothing.\<close>

definition summarize ::
  "context_texts \<Rightarrow> (pydict list \<Rightarrow> pydict option) \<Rightarrow> pydict list \<Rightarrow> string \<Rightarrow> string \<times> pyval" where
  "summarize tx chat ms existing =
     (let text = summary_text tx ms;
          request = [[(''role'', PStr ''system''), (''content'', PStr (tx_summary_instructions tx))]]
            @ (if existing \<noteq> [] then [[(''role'', PStr ''system''),
                 (''content'', PStr (tx_existing_heading tx @ [char_of (10::nat)] @ existing))]] else [])
            @ [[(''role'', PStr ''user''), (''content'', PStr text)]];
          answer = chat request;
          summary = (case answer of Some r \<Rightarrow> clean (dget r ''content'') | None \<Rightarrow> [])
      in if summary \<noteq> [] then (summary, (case answer of Some r \<Rightarrow> dget r ''usage'' | None \<Rightarrow> PNone))
         else if existing \<noteq> [] \<and> text \<noteq> [] then
           (let merged = strip (existing @ [char_of (10::nat)] @ take 600 text)
            in (take 1200 merged @ (if length merged > 1200 then ''...'' else []), PNone))
         else (take 800 text @ ''...'', PNone))"

section \<open>Trimming the history of a session\<close>

record compression =
  co_triggered :: bool
  co_level :: string
  co_trimmed_messages :: nat
  co_before_tokens :: int
  co_after_tokens :: int
  co_summary_tokens :: int

record trim_result =
  tm_summary_usage :: pyval
  tm_current_tokens :: int
  tm_conversation_summary :: string
  tm_trimmed_messages :: nat
  tm_compression :: compression

definition untouched_result :: "int \<Rightarrow> trim_result" where
  "untouched_result tokens =
     \<lparr>tm_summary_usage = PNone, tm_current_tokens = tokens, tm_conversation_summary = [], tm_trimmed_messages = 0,
      tm_compression = \<lparr>co_triggered = False, co_level = ''none'', co_trimmed_messages = 0, co_before_tokens = tokens,
        co_after_tokens = tokens, co_summary_tokens = 0\<rparr>\<rparr>"

definition least_priority :: "pydict list \<Rightarrow> nat" where
  "least_priority ms = min_index (map trim_priority ms)"

lemma least_priority_less: "ms \<noteq> [] \<Longrightarrow> least_priority ms < length ms"
  using min_index_less [of "map trim_priority ms"] by (simp add: least_priority_def)

text \<open>The two newest messages are never taken.\<close>

function pop_loop :: "(pydict list \<Rightarrow> int) \<Rightarrow> int \<Rightarrow> pydict list \<Rightarrow> pydict list \<Rightarrow> pydict list \<times> pydict list" where
  "pop_loop tokens usable removable taken =
     (if tokens removable > usable \<and> length removable > 2 then
        (let i = least_priority (take (length removable - 2) removable)
         in pop_loop tokens usable (remove_at i removable) (taken @ [removable ! i]))
      else (removable, taken))"
  by pat_completeness auto

termination
proof (relation "measure (\<lambda>(_, _, removable, _). length removable)")
  fix tokens usable removable taken i
  assume "usable < tokens removable \<and> 2 < length removable" "i = least_priority (take (length removable - 2) removable)"
  then have "i < length removable" using least_priority_less [of "take (length removable - 2) removable"] by fastforce
  then show "((tokens, usable, remove_at i removable, taken @ [removable ! i]), (tokens, usable, removable, taken))
      \<in> measure (\<lambda>(_, _, removable, _). length removable)" by (simp add: length_remove_at)
qed simp

declare pop_loop.simps [simp del]

definition history_summary ::
  "context_texts \<Rightarrow> (pydict list \<Rightarrow> pydict option) \<Rightarrow> string \<Rightarrow> string \<Rightarrow> pydict list \<Rightarrow> string \<times> pyval" where
  "history_summary tx chat session_id loaded ms =
     summarize tx chat ms (if session_id \<noteq> [] then normalize_conversation_summary tx loaded else [])"

text \<open>The new history, the result, and the working summary that is stored.\<close>

definition compacted ::
  "context_texts \<Rightarrow> string \<Rightarrow> string \<Rightarrow> string \<times> pyval \<Rightarrow> nat \<Rightarrow> int \<Rightarrow> pydict list
   \<Rightarrow> pydict list \<times> trim_result \<times> string option" where
  "compacted tx level session_id answer n before history =
     (let summary = normalize_conversation_summary tx (fst answer); tokens = estimate_tokens history in
      (history,
       \<lparr>tm_summary_usage = snd answer, tm_current_tokens = tokens, tm_conversation_summary = summary, tm_trimmed_messages = n,
        tm_compression = \<lparr>co_triggered = True, co_level = level, co_trimmed_messages = n, co_before_tokens = before,
          co_after_tokens = tokens, co_summary_tokens = estimate_text_tokens summary\<rparr>\<rparr>,
       if summary \<noteq> [] then Some summary else None))"

definition usable_tokens :: "(string \<Rightarrow> int) \<Rightarrow> length_policy \<Rightarrow> string \<Rightarrow> rat \<Rightarrow> int" where
  "usable_tokens limit_of policy model reserve_ratio =
     (let limit = (if lp_context_limit_tokens policy \<noteq> 0 then lp_context_limit_tokens policy else limit_of model);
          s = share limit reserve_ratio
      in min s (if lp_target_input_tokens policy \<noteq> 0 then lp_target_input_tokens policy else s))"

definition trim_history ::
  "context_texts \<Rightarrow> (pydict list \<Rightarrow> pydict option) \<Rightarrow> int \<Rightarrow> int \<Rightarrow> string \<Rightarrow> string \<Rightarrow> pydict list
   \<Rightarrow> pydict list \<times> trim_result \<times> string option" where
  "trim_history tx chat usable preserve_message_count session_id loaded history =
     (let current = estimate_tokens history; k = nat (max preserve_message_count 0) in
      if current \<le> usable then (history, untouched_result current, None)
      else case pop_loop (\<lambda>rest. estimate_tokens (take k history @ rest)) usable (drop k history) [] of (rest, taken) \<Rightarrow>
        if taken = [] then (history, untouched_result current, None)
        else compacted tx ''history_summary'' session_id (history_summary tx chat session_id loaded taken)
               (length taken) current (take k history @ rest))"

section \<open>Compaction when the session is idle\<close>

definition is_meaningful :: "pydict \<Rightarrow> bool" where
  "is_meaningful m \<longleftrightarrow>
     \<not> truthy (dget (as_dict (dget m ''metadata'')) ''transient'')
     \<and> (clean (dget m ''content'') \<noteq> [] \<or> truthy (dget m ''tool_calls'') \<or> truthy (dget m ''provider_items''))"

definition compact_history_for_idle_heartbeat ::
  "context_texts \<Rightarrow> (pydict list \<Rightarrow> pydict option) \<Rightarrow> int \<Rightarrow> int \<Rightarrow> string \<Rightarrow> string \<Rightarrow> pydict list
   \<Rightarrow> pydict list \<times> trim_result \<times> string option" where
  "compact_history_for_idle_heartbeat tx chat preserve_message_count recent_message_count session_id loaded history =
     (let k = nat (max preserve_message_count 0); r = nat (max recent_message_count 2);
          current = estimate_tokens history; tail = drop k history
      in if length tail \<le> r then (history, untouched_result current, None)
         else let old = filter is_meaningful (take (length tail - r) tail) in
           if old = [] then (history, untouched_result current, None)
           else compacted tx ''idle_heartbeat_summary'' session_id (history_summary tx chat session_id loaded old)
                  (length old) current (take k history @ drop (length tail - r) tail))"

section \<open>The history of a thread\<close>

definition thread_message_metadata :: "message \<Rightarrow> pydict" where
  "thread_message_metadata row =
     (let m = dmerge (ms_meta row) [(''context_layer'', PStr ''thread_history''), (''persisted_thread_history'', PBool True),
                (''thread_context_message_id'', PStr (ms_message_id row))]
      in case ms_active_workspace_id row of Some w \<Rightarrow> dset ''active_workspace_row_id'' (PStr w) m | None \<Rightarrow> m)"

definition thread_message_to_model_message :: "message \<Rightarrow> pydict" where
  "thread_message_to_model_message row =
     [(''role'', PStr (or_str (ms_role row) ''user'')), (''content'', PStr (ms_content row)),
      (''metadata'', PDict (thread_message_metadata row))]"

definition rows_to_summary_messages :: "message list \<Rightarrow> pydict list" where
  "rows_to_summary_messages rows =
     map thread_message_to_model_message (filter (\<lambda>r. strip (ms_content r) \<noteq> [] \<and> ms_role r \<in> set context_roles) rows)"

definition thread_summary_meta :: "string \<Rightarrow> nat \<Rightarrow> int \<Rightarrow> int \<Rightarrow> pydict" where
  "thread_summary_meta now_iso older summarized message_limit =
     [(''context_summary'', PDict [(''older_message_count'', PInt (int older)), (''summarized_message_count'', PInt (max 0 summarized)),
        (''summary_message_limit'', PInt (max 1 (if message_limit = 0 then 80 else message_limit))), (''updated_at'', PStr now_iso)])]"

record hydration =
  hy_thread_id :: string
  hy_summary :: string
  hy_messages :: "pydict list"
  hy_older_count :: nat

definition summarized_count :: "thread \<Rightarrow> pyerr + int" where
  "summarized_count t =
     py_int (py_or (dget (as_dict (dget (th_meta t) ''context_summary'')) ''summarized_message_count'') (PInt 0))"

text \<open>The messages whose summary is asked for.\<close>

definition older_messages :: "row_id \<Rightarrow> string \<Rightarrow> string \<Rightarrow> int \<Rightarrow> int \<Rightarrow> message_store \<Rightarrow> pydict list" where
  "older_messages i current current_endpoint exact_limit summary_limit S =
     rows_to_summary_messages
       (list_older_thread_context_messages i current current_endpoint exact_limit summary_limit (st_messages S))"

text \<open>The limits are at least 1; a failed store of the summary is only logged.\<close>

definition hydrate_thread_context ::
  "context_texts \<Rightarrow> (pydict list \<Rightarrow> pydict option) \<Rightarrow> instant \<Rightarrow> string \<Rightarrow> string \<Rightarrow> string \<Rightarrow> string \<Rightarrow> int \<Rightarrow> int
   \<Rightarrow> message_store \<Rightarrow> pyerr + hydration option \<times> message_store" where
  "hydrate_thread_context tx chat now now_iso thread_id current current_endpoint exact_message_limit summary_message_limit S =
     (case (if strip thread_id = [] then None else get_by_thread_id (strip thread_id) (st_threads S)) of
        None \<Rightarrow> Inr (None, S)
      | Some t \<Rightarrow>
          (let exact = max 1 (if exact_message_limit = 0 then 24 else exact_message_limit);
               limit = max 1 (if summary_message_limit = 0 then 80 else summary_message_limit);
               w = load_thread_context_window (th_id t) current current_endpoint exact (st_messages S);
               older = cw_older_count w; old_summary = strip (th_summary t)
           in rbind (summarized_count t) (\<lambda>done.
                let stale = (older > 0 \<and> (old_summary = [] \<or> done < int older));
                    ms = (if stale then older_messages (th_id t) current current_endpoint exact limit S else []);
                    new = (if ms = [] then [] else normalize_conversation_summary tx (fst (summarize tx chat ms old_summary)));
                    S' = (if new = [] then S
                          else S\<lparr>st_threads := snd (update_summary now (th_id t) new
                                 (Some (thread_summary_meta now_iso older (max (int older) done) limit)) (st_threads S))\<rparr>)
                in Inr (Some \<lparr>hy_thread_id = strip thread_id, hy_summary = or_str new old_summary,
                          hy_messages = rows_to_summary_messages (cw_messages w), hy_older_count = older\<rparr>, S'))))"

section \<open>Compaction loses nothing\<close>

lemma mset_remove_at: "i < length xs \<Longrightarrow> mset xs = mset (remove_at i xs) + {# xs ! i #}"
  by (erule remove_at_split) (metis add_mset_add_single mset.simps(2) mset_append union_mset_add_mset_right)

lemma least_priority_least: "x \<in> set ms \<Longrightarrow> trim_priority (ms ! least_priority ms) \<le> trim_priority x"
proof -
  have "y \<in> set xs \<Longrightarrow> xs ! min_index xs \<le> y" for xs y by (induction xs) auto
  from this [of _ "map trim_priority ms"] show "x \<in> set ms \<Longrightarrow> ?thesis"
    using least_priority_less [of ms] by (cases "ms = []") (auto simp: least_priority_def)
qed

text \<open>Where the last two of a list are cut off, removing an entry in front of them commutes.\<close>

lemma front_remove_at:
  assumes "i < length xs - 2"
  shows "take (length (remove_at i xs) - 2) (remove_at i xs) = remove_at i (take (length xs - 2) xs)"
    and "drop (length (remove_at i xs) - 2) (remove_at i xs) = drop (length xs - 2) xs"
proof -
  define f l where "f = take (length xs - 2) xs" and "l = drop (length xs - 2) xs"
  have xs: "xs = f @ l" "length l = 2" "i < length f" using assms by (simp_all add: f_def l_def)
  then have "remove_at i xs = remove_at i f @ l" by (simp add: remove_at_def)
  then show "take (length (remove_at i xs) - 2) (remove_at i xs) = remove_at i (take (length xs - 2) xs)"
    and "drop (length (remove_at i xs) - 2) (remove_at i xs) = drop (length xs - 2) xs"
    using xs by simp_all
qed

abbreviation front :: "pydict list \<Rightarrow> pydict list" where
  "front ms \<equiv> take (length ms - 2) ms"

definition popped :: "pydict list \<Rightarrow> pydict list \<Rightarrow> pydict list \<Rightarrow> pydict list \<Rightarrow> bool" where
  "popped removable taken rest taken' \<longleftrightarrow>
     mset rest + mset taken' = mset removable + mset taken \<and> subseq rest removable
     \<and> drop (length rest - 2) rest = drop (length removable - 2) removable"

lemma pop_loop_popped:
  "pop_loop tokens usable removable taken = (rest, taken') \<Longrightarrow>
   popped removable taken rest taken' \<and> (tokens rest \<le> usable \<or> length rest \<le> 2)
   \<and> (\<forall>y \<in> set taken'. y \<in> set taken \<or> (\<forall>x \<in> set (front rest). trim_priority y \<le> trim_priority x))
   \<and> set (front rest) \<subseteq> set (front removable)"
proof (induction tokens usable removable taken arbitrary: rest rule: pop_loop.induct)
  case (1 tokens usable removable taken)
  show ?case
  proof (cases "tokens removable > usable \<and> length removable > 2")
    case go: True
    let ?i = "least_priority (front removable)"
    have "front removable \<noteq> []" using go by (cases removable) auto
    then have i: "?i < length removable - 2" using least_priority_less [of "front removable"] by simp
    have pop: "pop_loop tokens usable (remove_at ?i removable) (taken @ [removable ! ?i]) = (rest, taken')"
      using 1(2) go by (subst (asm) pop_loop.simps) (simp add: Let_def)
    note ih = 1(1) [OF go refl pop]
    have f: "front (remove_at ?i removable) = remove_at ?i (front removable)" by (rule front_remove_at [OF i])
    have d: "drop (length (remove_at ?i removable) - 2) (remove_at ?i removable) = drop (length removable - 2) removable"
      by (rule front_remove_at [OF i])
    have sub: "set (front (remove_at ?i removable)) \<subseteq> set (front removable)"
      unfolding f by (rule set_remove_at)
    have i': "?i < length removable" using i by simp
    have "mset removable = mset (remove_at ?i removable) + {# removable ! ?i #}" by (rule mset_remove_at [OF i'])
    moreover have a: "mset rest + mset taken' = mset (remove_at ?i removable) + mset (taken @ [removable ! ?i])"
        "subseq rest (remove_at ?i removable)"
        "drop (length rest - 2) rest = drop (length (remove_at ?i removable) - 2) (remove_at ?i removable)"
      using ih unfolding popped_def by blast+
    ultimately have "mset rest + mset taken' = mset removable + mset taken" by simp
    then have "popped removable taken rest taken'"
      using a(3) d subseq_order.trans [OF a(2) subseq_remove_at] unfolding popped_def by simp
    moreover have "front removable ! ?i = removable ! ?i" using i by simp
    then have "trim_priority (removable ! ?i) \<le> trim_priority x" if "x \<in> set (front rest)" for x
      using least_priority_least [of x "front removable"] that ih sub by auto
    then have "\<forall>y \<in> set taken'. y \<in> set taken \<or> (\<forall>x \<in> set (front rest). trim_priority y \<le> trim_priority x)"
      using ih by auto
    ultimately show ?thesis using ih sub by blast
  next
    case False
    then have "rest = removable" "taken' = taken" "tokens rest \<le> usable \<or> length rest \<le> 2"
      using 1(2) by (subst (asm) pop_loop.simps, auto)+
    then show ?thesis by (auto simp: popped_def)
  qed
qed

text \<open>(C10)
  Trimming the history of a session: either nothing is changed, or the messages in front that
  are to be preserved stay, every other message is either kept or handed to the summary, exactly
  once, those kept are in their order and include the two newest, and the oldest and least
  important go first: results of tools before calls, these before answers, these before the
  user's words. It goes on until the history fits or only two messages are left.
\<close>

theorem trimming_loses_nothing:
  assumes "trim_history tx chat usable n session_id loaded history = (history', res, stored)"
  shows "(history' = history \<and> stored = None \<and> res = untouched_result (estimate_tokens history))
    \<or> (\<exists>kept taken. history' = take (nat n) history @ kept \<and> taken \<noteq> []
         \<and> mset kept + mset taken = mset (drop (nat n) history) \<and> subseq kept (drop (nat n) history)
         \<and> drop (length kept - 2) kept = drop (length (drop (nat n) history) - 2) (drop (nat n) history)
         \<and> (\<forall>y \<in> set taken. \<forall>x \<in> set (front kept). trim_priority y \<le> trim_priority x)
         \<and> (estimate_tokens history' \<le> usable \<or> length kept \<le> 2)
         \<and> tm_trimmed_messages res = length taken \<and> tm_current_tokens res = estimate_tokens history'
         \<and> tm_conversation_summary res = normalize_conversation_summary tx (fst (history_summary tx chat session_id loaded taken)))"
proof -
  have k: "nat (max n 0) = nat n" by simp
  let ?p = "pop_loop (\<lambda>rest. estimate_tokens (take (nat n) history @ rest)) usable (drop (nat n) history) []"
  obtain kept taken where p: "?p = (kept, taken)" by (cases ?p)
  note popped = pop_loop_popped [OF p]
  consider "history' = history" "stored = None" "res = untouched_result (estimate_tokens history)"
    | "taken \<noteq> []" "compacted tx ''history_summary'' session_id (history_summary tx chat session_id loaded taken)
         (length taken) (estimate_tokens history) (take (nat n) history @ kept) = (history', res, stored)"
    using assms by (auto simp: trim_history_def Let_def k p split: if_splits)
  then show ?thesis
  proof cases
    case 2
    then have "history' = take (nat n) history @ kept" "tm_trimmed_messages res = length taken"
      "tm_current_tokens res = estimate_tokens history'"
      "tm_conversation_summary res = normalize_conversation_summary tx (fst (history_summary tx chat session_id loaded taken))"
      by (auto simp: compacted_def Let_def)
    then show ?thesis using popped 2(1) by (intro disjI2 exI [of _ kept] exI [of _ taken]) (simp add: popped_def)
  qed simp
qed

section \<open>The summary of a thread\<close>

lemma dget_dmerge_last [simp]: "dget (dmerge d [(k, v)]) k = v"
  by (simp add: dmerge_def dget_def update_conv)

lemma length_window_loop: "length kept < most \<Longrightarrow> length (fst (window_loop eid most ms kept skipped)) \<le> most"
  using window_loop_rows [of kept most eid ms skipped] by simp

lemma older_messages_bound: "1 \<le> limit \<Longrightarrow> int (length (older_messages i b eid off limit S)) \<le> limit"
proof -
  assume l: "1 \<le> limit"
  have "0 < bounded 80 400 limit" by (rule bounded_range)
  then have "length (list_older_thread_context_messages i b eid off limit (st_messages S)) \<le> bounded 80 400 limit"
    using length_window_loop [of "[]" "bounded 80 400 limit"] by (simp add: list_older_thread_context_messages_def Let_def)
  moreover have "int (bounded 80 400 limit) \<le> limit" using l by (simp add: bounded_def)
  moreover have "length (older_messages i b eid off limit S)
      \<le> length (list_older_thread_context_messages i b eid off limit (st_messages S))"
    by (simp add: older_messages_def rows_to_summary_messages_def)
  ultimately show ?thesis by linarith
qed

lemma public_after_change:
  assumes u: "unique_rows th_clash T" and t: "get_any_by_thread_id tid T = Some t"
    and f: "\<And>t. th_id (f t) = th_id t \<and> th_thread_id (f t) = th_thread_id t"
  shows "get_any_by_thread_id tid (snd (change_thread now (th_id t) f T)) = Some (touch now f t)"
proof -
  let ?T' = "snd (change_thread now (th_id t) f T)"
  have op: "row_op th_id (touch now f)" by unfold_locales (simp add: touch_def f)
  have mem: "t \<in> set T" "th_thread_id t = tid" using t tbl_get_Some by (force simp: get_any_by_thread_id_def)+
  then have "get_thread_by_id (th_id t) ?T' = Some (touch now f t)"
    using row_op.get_upd_same [OF op] get_thread_mem [OF u] by (simp add: change_thread_def get_thread_by_id_def)
  then have "touch now f t \<in> set ?T'" using tbl_get_Some by (force simp: get_thread_by_id_def)
  moreover have "unique_rows th_clash ?T'" by (rule unique_change [OF u f])
  ultimately have "tbl_get th_thread_id (th_thread_id (touch now f t)) ?T' = Some (touch now f t)" by (intro th_public.get_mem)
  moreover have "th_thread_id (touch now f t) = tid" using mem(2) f by (simp add: touch_def)
  ultimately show ?thesis by (simp add: get_any_by_thread_id_def)
qed

text \<open>(C38)
  The summary of a thread is marked as covering all its older messages although fewer of them, at
  most the limit, were read for it. Whenever the thread is loaded again, with whatever messages,
  limits and answers of the model, and counts no more older messages than it did then, nothing is
  summarised and the summary stays: the older messages that were not read are not in it. (Once the
  thread has grown beyond that count, it is summarised again, from the newest older messages.)
\<close>

theorem older_messages_never_summarised:
  assumes u: "unique_rows th_clash (st_threads S)"
    and t: "get_by_thread_id (strip thread_id) (st_threads S) = Some t" "strip thread_id \<noteq> []"
    and counted: "summarized_count t = Inr old" "old < int older"
    and older: "older = cw_older_count (load_thread_context_window (th_id t) current current_endpoint exact (st_messages S))"
    and many: "1 \<le> exact" "1 \<le> limit" "int older > limit"
    and ms: "ms = older_messages (th_id t) current current_endpoint exact limit S" "ms \<noteq> []"
    and new: "new = normalize_conversation_summary tx (fst (summarize tx chat ms (strip (th_summary t))))" "new \<noteq> []"
  shows "\<exists>h S'. hydrate_thread_context tx chat now now_iso thread_id current current_endpoint exact limit S = Inr (Some h, S')
    \<and> hy_summary h = new \<and> hy_older_count h = older \<and> length ms < older
    \<and> (\<forall>chat' now' now_iso' current' endpoint' exact' limit' M.
         cw_older_count (load_thread_context_window (th_id t) current' endpoint' (max 1 (if exact' = 0 then 24 else exact')) M) \<le> older \<longrightarrow>
         (\<exists>h'. hydrate_thread_context tx chat' now' now_iso' thread_id current' endpoint' exact' limit' (S'\<lparr>st_messages := M\<rparr>)
              = Inr (Some h', S'\<lparr>st_messages := M\<rparr>) \<and> hy_summary h' = new))"
proof -
  let ?f = "\<lambda>t. t\<lparr>th_summary := strip new, th_meta := dmerge (th_meta t) (dict_or (Some (thread_summary_meta now_iso older (max (int older) old) limit)))\<rparr>"
  let ?S = "S\<lparr>st_threads := snd (change_thread now (th_id t) ?f (st_threads S))\<rparr>"
  let ?h = "\<lparr>hy_thread_id = strip thread_id, hy_summary = new,
     hy_messages = rows_to_summary_messages (cw_messages (load_thread_context_window (th_id t) current current_endpoint exact (st_messages S))),
     hy_older_count = older\<rparr>"
  have lim: "max 1 (if limit = 0 then 80 else limit) = limit" "max 1 (if exact = 0 then 24 else exact) = exact" using many by simp_all
  have pos: "0 < older" using many by linarith
  have first: "hydrate_thread_context tx chat now now_iso thread_id current current_endpoint exact limit S = Inr (Some ?h, ?S)"
    using t counted older [symmetric] ms(1) [symmetric] ms(2) new pos
    by (simp add: hydrate_thread_context_def lim rbind_def Let_def update_summary_def or_str_def new(1) [symmetric])
  have any: "get_any_by_thread_id (strip thread_id) (st_threads S) = Some t" "th_status t \<noteq> ''deleted''"
    using t(1) by (auto simp: get_by_thread_id_def split: option.splits if_splits)
  define t2 where "t2 = touch now ?f t"
  have "get_any_by_thread_id (strip thread_id) (st_threads ?S) = Some t2"
    using public_after_change [OF u any(1), of ?f] by (simp add: t2_def)
  moreover have keep: "th_status t2 = th_status t" "th_id t2 = th_id t" "th_summary t2 = strip new"
      "th_meta t2 = dmerge (th_meta t) (dict_or (Some (thread_summary_meta now_iso older (max (int older) old) limit)))"
    by (auto simp: t2_def touch_def dest: arg_cong [of _ t th_summary] arg_cong [of _ t th_meta])
  ultimately have t': "get_by_thread_id (strip thread_id) (st_threads ?S) = Some t2" using any by (simp add: get_by_thread_id_def)
  have new_strip: "strip new = new" using new by (simp add: normalize_conversation_summary_def Let_def)
  have "dget (th_meta t2) ''context_summary'' = PDict [(''older_message_count'', PInt (int older)),
        (''summarized_message_count'', PInt (max 0 (max (int older) old))), (''summary_message_limit'', PInt (max 1 (if limit = 0 then 80 else limit))),
        (''updated_at'', PStr now_iso)]"
    by (simp add: keep(4) thread_summary_meta_def dict_or_def)
  then have c': "summarized_count t2 = Inr (int older)"
    using pos counted(2) by (simp add: summarized_count_def dget_def py_or_def)
  have "\<exists>h'. hydrate_thread_context tx chat' now' now_iso' thread_id current' endpoint' exact' limit' (?S\<lparr>st_messages := M\<rparr>)
      = Inr (Some h', ?S\<lparr>st_messages := M\<rparr>) \<and> hy_summary h' = new"
    if few: "cw_older_count (load_thread_context_window (th_id t) current' endpoint' (max 1 (if exact' = 0 then 24 else exact')) M) \<le> older"
    for chat' now' now_iso' current' endpoint' exact' limit' M
  proof -
    have "get_by_thread_id (strip thread_id) (st_threads (?S\<lparr>st_messages := M\<rparr>)) = Some t2" using t' by simp
    then show ?thesis
      using t(2) c' new_strip new(2) keep(2,3) few
      by (simp add: hydrate_thread_context_def rbind_def Let_def or_str_def)
  qed
  moreover have "length ms < older" using older_messages_bound [OF many(2), of "th_id t" current current_endpoint exact S] many(3) ms(1) by simp
  ultimately show ?thesis using first by (intro exI [of _ ?h] exI [of _ ?S]) simp
qed

definition short_history :: "pydict list" where
  "short_history = [[(''role'', PStr ''system'')], [(''role'', PStr ''user'')], [(''role'', PStr ''tool'')],
     [(''role'', PStr ''assistant'')], [(''role'', PStr ''user''), (''content'', PStr ''a question'')]]"

theorem trimming_loses_nothing_witness:
  "\<exists>kept taken. fst (trim_history example_texts (\<lambda>_. None) 0 1 [] [] short_history) = take 1 short_history @ kept
     \<and> taken \<noteq> [] \<and> mset kept + mset taken = mset (drop 1 short_history) \<and> estimate_tokens short_history = 5"
proof -
  let ?r = "trim_history example_texts (\<lambda>_. None) 0 1 [] [] short_history"
  have r: "?r = (fst ?r, fst (snd ?r), snd (snd ?r))" by simp
  have e: "estimate_message_tokens [(''role'', PStr ''system'')] = 0" "estimate_message_tokens [(''role'', PStr ''user'')] = 0"
      "estimate_message_tokens [(''role'', PStr ''tool'')] = 0" "estimate_message_tokens [(''role'', PStr ''assistant'')] = 0"
      "estimate_message_tokens [(''role'', PStr ''user''), (''content'', PStr ''a question'')] = 5"
      "least_priority [[(''role'', PStr ''user'')], [(''role'', PStr ''tool'')]] = 1" "least_priority [[(''role'', PStr ''user'')]] = 0"
    by code_simp+
  have "pop_loop (\<lambda>rest. estimate_tokens (take 1 short_history @ rest)) 0 (drop 1 short_history) []
      = (drop 3 short_history, [[(''role'', PStr ''tool'')], [(''role'', PStr ''user'')]])"
    by (simp add: pop_loop.simps short_history_def estimate_tokens_def e remove_at_def Let_def)
  then have "length (fst ?r) = 3"
    by (simp add: trim_history_def compacted_def Let_def short_history_def estimate_tokens_def e)
  then have "fst ?r \<noteq> short_history" by (auto simp: short_history_def)
  moreover have "estimate_tokens short_history = 5" by (simp add: short_history_def estimate_tokens_def e)
  ultimately show ?thesis using trimming_loses_nothing [OF r] by auto
qed

definition example_store :: message_store where
  "example_store = \<lparr>st_messages = [example_message 1 [], example_message 2 [], example_message 3 []], st_threads = [example_thread]\<rparr>"

theorem older_messages_never_summarised_witness:
  "\<exists>h S'. hydrate_thread_context example_texts (\<lambda>_. Some [(''content'', PStr ''hello'')]) 9 ''now'' ''thr_1'' [] [] 1 1 example_store = Inr (Some h, S')
     \<and> hy_summary h = ''hello'' \<and> hy_older_count h = 2
     \<and> (\<exists>h'. hydrate_thread_context example_texts (\<lambda>_. None) 10 ''then'' ''thr_1'' [] [] 1 1 (S'\<lparr>st_messages := st_messages example_store\<rparr>)
          = Inr (Some h', S'\<lparr>st_messages := st_messages example_store\<rparr>) \<and> hy_summary h' = ''hello'')"
proof -
  let ?chat = "\<lambda>_ :: pydict list. Some [(''content'', PStr ''hello'')]"
  have e: "unique_rows th_clash (st_threads example_store)"
    "get_by_thread_id (strip ''thr_1'') (st_threads example_store) = Some example_thread" "strip ''thr_1'' \<noteq> []"
    "summarized_count example_thread = Inr 0"
    "cw_older_count (load_thread_context_window (th_id example_thread) [] [] 1 (st_messages example_store)) = 2"
    "length (older_messages (th_id example_thread) [] [] 1 1 example_store) = 1" by code_simp+
  have ne: "older_messages (th_id example_thread) [] [] 1 1 example_store \<noteq> []" using e(6) by auto
  let ?new = "normalize_conversation_summary example_texts
    (fst (summarize example_texts ?chat (older_messages (th_id example_thread) [] [] 1 1 example_store) (strip (th_summary example_thread))))"
  have "strip ''hello'' = ''hello''" by code_simp
  then have new: "?new = ''hello''"
    by (simp add: summarize_def Let_def dget_def normalize_conversation_summary_def example_texts_def)
  have more: "(0::int) < int 2" "(1::int) \<le> 1" "int 2 > (1::int)" by simp_all
  obtain h S' where h: "hydrate_thread_context example_texts ?chat 9 ''now'' ''thr_1'' [] [] 1 1 example_store = Inr (Some h, S')"
      "hy_summary h = ''hello''" "hy_older_count h = 2"
    and again: "\<forall>chat' now' now_iso' current' endpoint' exact' limit' M.
         cw_older_count (load_thread_context_window (th_id example_thread) current' endpoint' (max 1 (if exact' = 0 then 24 else exact')) M) \<le> 2 \<longrightarrow>
         (\<exists>h'. hydrate_thread_context example_texts chat' now' now_iso' ''thr_1'' current' endpoint' exact' limit' (S'\<lparr>st_messages := M\<rparr>)
              = Inr (Some h', S'\<lparr>st_messages := M\<rparr>) \<and> hy_summary h' = ''hello'')"
    using older_messages_never_summarised [OF e(1-4) more(1) e(5) [symmetric] more(2,2,3) refl ne refl, of example_texts ?chat 9 "''now''"]
    unfolding new by auto
  have "cw_older_count (load_thread_context_window (th_id example_thread) [] [] (max 1 (if (1::int) = 0 then 24 else 1)) (st_messages example_store)) \<le> 2"
    using e(5) by simp
  with h again show ?thesis by blast
qed

end
