(* ===== verification/Runs.thy ===== *)
theory Runs
  imports Endpoint_Store
begin

text \<open>
  Runs, their events and the sessions they belong to: the tables of \<^verbatim>\<open>core/db/models/run.py\<close> and
  \<^verbatim>\<open>core/db/models/session.py\<close>, the repositories \<^verbatim>\<open>core/db/repositories/run.py\<close> and
  \<^verbatim>\<open>core/db/repositories/session.py\<close> and the services \<^verbatim>\<open>core/services/run_service.py\<close> and
  \<^verbatim>\<open>core/services/session_service.py\<close>.
\<close>

section \<open>Runs\<close>

record run =
  rn_id :: row_id
  rn_run_id :: string
  rn_workspace_id :: row_id
  rn_thread_id :: "row_id option"
  rn_trigger_type :: string
  rn_origin_actor_id :: row_id
  rn_origin_endpoint_id :: "row_id option"
  rn_status :: string
  rn_input :: pydict
  rn_output :: pydict
  rn_execution_policy :: pydict
  rn_delivery_policy :: pydict
  rn_meta :: pydict
  rn_started_at :: "instant option"
  rn_finished_at :: "instant option"

definition rn_clash :: "run \<Rightarrow> run \<Rightarrow> bool" where
  "rn_clash a b \<longleftrightarrow> rn_id a = rn_id b \<or> rn_run_id a = rn_run_id b"

interpretation rn: unique_table rn_id rn_clash
  by unfold_locales (auto simp: rn_clash_def)

definition run_create :: "row_id \<Rightarrow> run \<Rightarrow> run list \<Rightarrow> pyerr + run \<times> run list" where
  "run_create new_id request R =
     insert_row rn_clash ''runs'' (request\<lparr>rn_id := new_id, rn_started_at := None, rn_finished_at := None\<rparr>) R"

definition get_by_run_id :: "string \<Rightarrow> run list \<Rightarrow> run option" where
  "get_by_run_id run_id R = tbl_get rn_run_id run_id R"

definition get_run_by_id :: "row_id \<Rightarrow> run list \<Rightarrow> run option" where
  "get_run_by_id i R = tbl_get rn_id i R"

definition final_statuses :: "string list" where
  "final_statuses = [''succeeded'', ''failed'', ''cancelled'']"

definition status_row :: "instant \<Rightarrow> string \<Rightarrow> pydict option \<Rightarrow> run \<Rightarrow> run" where
  "status_row now status out r =
     r\<lparr>rn_status := status,
       rn_started_at := (if status = ''running'' \<and> rn_started_at r = None then Some now else rn_started_at r),
       rn_finished_at := (if status \<in> set final_statuses then Some now else rn_finished_at r),
       rn_output := (case out of Some d \<Rightarrow> d | None \<Rightarrow> rn_output r)\<rparr>"

definition update_status :: "instant \<Rightarrow> row_id \<Rightarrow> string \<Rightarrow> pydict option \<Rightarrow> run list \<Rightarrow> run option \<times> run list" where
  "update_status now i status out R =
     (map_option (status_row now status out) (get_run_by_id i R), tbl_upd rn_id i (status_row now status out) R)"

text \<open>\<open>token\<close> is the fresh part of the public name.\<close>

definition create_run :: "row_id \<Rightarrow> string \<Rightarrow> run \<Rightarrow> run list \<Rightarrow> pyerr + run \<times> run list" where
  "create_run new_id token request R = run_create new_id (request\<lparr>rn_run_id := ''run_'' @ token\<rparr>) R"

section \<open>Events of a run\<close>

record run_event =
  ev_id :: row_id
  ev_event_id :: string
  ev_run_id :: row_id
  ev_thread_id :: "row_id option"
  ev_seq :: int
  ev_type :: string
  ev_payload :: pydict
  ev_durable :: bool
  ev_created_at :: instant

definition ev_clash :: "run_event \<Rightarrow> run_event \<Rightarrow> bool" where
  "ev_clash a b \<longleftrightarrow> ev_id a = ev_id b \<or> ev_event_id a = ev_event_id b \<or> (ev_run_id a = ev_run_id b \<and> ev_seq a = ev_seq b)"

interpretation ev: unique_table ev_id ev_clash
  by unfold_locales (auto simp: ev_clash_def)

text \<open>\<open>coalesce(max(seq), 0)\<close> over the events of the run.\<close>

definition max_seq :: "row_id \<Rightarrow> run_event list \<Rightarrow> int" where
  "max_seq run E = (case filter (\<lambda>e. ev_run_id e = run) E of [] \<Rightarrow> 0 | es \<Rightarrow> Max (set (map ev_seq es)))"

definition event_append :: "instant \<Rightarrow> row_id \<Rightarrow> run_event \<Rightarrow> run_event list \<Rightarrow> pyerr + run_event \<times> run_event list" where
  "event_append now new_id request E =
     insert_row ev_clash ''run_events''
       (request\<lparr>ev_id := new_id, ev_seq := max_seq (ev_run_id request) E + 1, ev_created_at := now\<rparr>) E"

definition list_for_run_after :: "row_id \<Rightarrow> int \<Rightarrow> bool \<Rightarrow> run_event list \<Rightarrow> run_event list" where
  "list_for_run_after run after_seq durable_only E =
     sort_key ev_seq (filter (\<lambda>e. ev_run_id e = run \<and> after_seq < ev_seq e \<and> (durable_only \<longrightarrow> ev_durable e)) E)"

definition list_for_thread_after :: "row_id \<Rightarrow> int \<Rightarrow> bool \<Rightarrow> run_event list \<Rightarrow> run_event list" where
  "list_for_thread_after thread after_seq durable_only E =
     sort_key (\<lambda>e. (ev_created_at e, ev_seq e))
       (filter (\<lambda>e. ev_thread_id e = Some thread \<and> after_seq < ev_seq e \<and> (durable_only \<longrightarrow> ev_durable e)) E)"

definition append_event :: "instant \<Rightarrow> row_id \<Rightarrow> string \<Rightarrow> run_event \<Rightarrow> run_event list \<Rightarrow> pyerr + run_event \<times> run_event list" where
  "append_event now new_id token request E = event_append now new_id (request\<lparr>ev_event_id := ''evt_'' @ token\<rparr>) E"

definition emit_progress_notice ::
  "instant \<Rightarrow> row_id \<Rightarrow> string \<Rightarrow> row_id \<Rightarrow> row_id option \<Rightarrow> string \<Rightarrow> string \<Rightarrow> int \<Rightarrow> bool
   \<Rightarrow> run_event list \<Rightarrow> pyerr + run_event \<times> run_event list" where
  "emit_progress_notice now new_id token run thread text severity ttl durable E =
     append_event now new_id token
       \<lparr>ev_id = [], ev_event_id = [], ev_run_id = run, ev_thread_id = thread, ev_seq = 0, ev_type = ''assistant.progress_notice'',
        ev_payload = [(''text'', PStr text), (''severity'', PStr (or_str severity ''info'')), (''ttl_seconds'', PInt (if ttl = 0 then 60 else ttl))],
        ev_durable = durable, ev_created_at = 0\<rparr> E"

section \<open>Sessions\<close>

record session_row =
  sn_id :: row_id
  sn_session_id :: string
  sn_thread_id :: row_id
  sn_origin_endpoint_id :: "row_id option"
  sn_active_workspace_id :: row_id
  sn_status :: string
  sn_meta :: pydict

definition sn_clash :: "session_row \<Rightarrow> session_row \<Rightarrow> bool" where
  "sn_clash a b \<longleftrightarrow> sn_id a = sn_id b \<or> sn_session_id a = sn_session_id b"

interpretation sn: unique_table sn_id sn_clash
  by unfold_locales (auto simp: sn_clash_def)

definition session_create ::
  "row_id \<Rightarrow> string \<Rightarrow> row_id \<Rightarrow> row_id option \<Rightarrow> row_id option \<Rightarrow> row_id option \<Rightarrow> string
   \<Rightarrow> session_row list \<Rightarrow> pyerr + session_row \<times> session_row list" where
  "session_create new_id session_id thread origin active ws status T =
     (case (case active of Some a \<Rightarrow> Some a | None \<Rightarrow> ws) of
        None \<Rightarrow> Inl (IntegrityError ''sessions'')
      | Some w \<Rightarrow> insert_row sn_clash ''sessions''
          \<lparr>sn_id = new_id, sn_session_id = session_id, sn_thread_id = thread, sn_origin_endpoint_id = origin,
           sn_active_workspace_id = w, sn_status = status, sn_meta = []\<rparr> T)"

definition create_session ::
  "row_id \<Rightarrow> string \<Rightarrow> row_id \<Rightarrow> row_id option \<Rightarrow> row_id option \<Rightarrow> row_id option \<Rightarrow> string
   \<Rightarrow> session_row list \<Rightarrow> pyerr + session_row \<times> session_row list" where
  "create_session new_id token thread origin active ws status T =
     session_create new_id (''sess_'' @ token) thread origin (case active of Some a \<Rightarrow> Some a | None \<Rightarrow> ws) None status T"

definition get_by_session_id :: "string \<Rightarrow> session_row list \<Rightarrow> session_row option" where
  "get_by_session_id session_id T = tbl_get sn_session_id session_id T"

definition get_session_by_id :: "row_id \<Rightarrow> session_row list \<Rightarrow> session_row option" where
  "get_session_by_id i T = tbl_get sn_id i T"

definition session_workspace :: "row_id \<Rightarrow> pydict option \<Rightarrow> session_row \<Rightarrow> session_row" where
  "session_workspace w metadata s = s\<lparr>sn_active_workspace_id := w, sn_meta := dmerge (sn_meta s) (dict_or metadata)\<rparr>"

definition update_active_workspace ::
  "string \<Rightarrow> row_id \<Rightarrow> pydict option \<Rightarrow> session_row list \<Rightarrow> session_row option \<times> session_row list" where
  "update_active_workspace session_id w metadata T =
     (map_option (session_workspace w metadata) (get_by_session_id session_id T),
      tbl_upd sn_session_id session_id (session_workspace w metadata) T)"

section \<open>Resuming the events of a run\<close>

text \<open>What any sequence of appended events makes of the table.\<close>

inductive event_steps :: "run_event list \<Rightarrow> run_event list \<Rightarrow> bool" where
  none: "event_steps E E"
| append: "event_steps E E' \<Longrightarrow> append_event now i token request E' = Inr (e, E'') \<Longrightarrow> event_steps E E''"

definition run_events :: "row_id \<Rightarrow> run_event list \<Rightarrow> run_event list" where
  "run_events run E = filter (\<lambda>e. ev_run_id e = run) E"

text \<open>The events of every run are numbered from 1 in the order of the table.\<close>

definition numbered :: "run_event list \<Rightarrow> bool" where
  "numbered E \<longleftrightarrow> (\<forall>run. map ev_seq (run_events run E) = [1 .. int (length (run_events run E))])"

lemma max_seq_numbered: "numbered E \<Longrightarrow> max_seq run E = int (length (run_events run E))"
proof -
  assume "numbered E"
  then have m: "map ev_seq (run_events run E) = [1 .. int (length (run_events run E))]" by (simp add: numbered_def)
  show ?thesis
  proof (cases "run_events run E")
    case (Cons e es)
    then have "set (map ev_seq (run_events run E)) = {1 .. int (length (run_events run E))}" unfolding m by simp
    moreover have "Max {1 .. int (length (run_events run E))} = int (length (run_events run E))"
      using Cons by (intro Max_eqI) auto
    ultimately show ?thesis using Cons by (simp add: max_seq_def run_events_def [symmetric])
  qed (simp add: max_seq_def run_events_def [symmetric])
qed

lemma append_event_row:
  assumes "append_event now i token request E = Inr (e, E')"
  shows "E' = E @ [e] \<and> ev_run_id e = ev_run_id request \<and> ev_thread_id e = ev_thread_id request
    \<and> ev_seq e = max_seq (ev_run_id request) E + 1"
  using assms by (auto simp: append_event_def event_append_def insert_row_def split: if_splits)

lemma upto_snoc: "0 \<le> n \<Longrightarrow> [1 .. n] @ [n + 1] = [1 .. n + 1 :: int]"
  using upto_rec2 [of 1 "n + 1"] by simp

lemma numbered_append: "numbered E \<Longrightarrow> append_event now i token request E = Inr (e, E') \<Longrightarrow> numbered E'"
proof -
  assume n: "numbered E" and "append_event now i token request E = Inr (e, E')"
  then have e: "E' = E @ [e]" "ev_seq e = int (length (run_events (ev_run_id e) E)) + 1"
    using append_event_row max_seq_numbered [OF n] by metis+
  let ?n = "int (length (run_events (ev_run_id e) E))"
  have "[1 .. ?n] @ [?n + 1] = [1 .. ?n + 1]" by (rule upto_snoc) simp
  then have "map ev_seq (run_events run E') = [1 .. int (length (run_events run E'))]" for run
    using n e by (cases "ev_run_id e = run") (simp_all add: numbered_def run_events_def add.commute)
  then show "numbered E'" by (simp add: numbered_def)
qed

text \<open>Later events of a run have greater numbers than all events before.\<close>

lemma event_steps_extend:
  "event_steps E E' \<Longrightarrow> numbered E \<Longrightarrow>
   numbered E' \<and> (\<exists>D. E' = E @ D \<and> (\<forall>d \<in> set D. \<forall>e \<in> set E. ev_run_id d = ev_run_id e \<longrightarrow> ev_seq e < ev_seq d))"
proof (induction rule: event_steps.induct)
  case (append E E' now i token request e E'')
  then obtain D where n: "numbered E'" and D: "E' = E @ D" "\<forall>d \<in> set D. \<forall>x \<in> set E. ev_run_id d = ev_run_id x \<longrightarrow> ev_seq x < ev_seq d"
    by blast
  have e: "E'' = E' @ [e]" "ev_seq e = int (length (run_events (ev_run_id e) E')) + 1"
    using append_event_row [OF append.hyps(2)] max_seq_numbered [OF n] by metis+
  have "ev_seq x < ev_seq e" if "x \<in> set E" "ev_run_id e = ev_run_id x" for x
  proof -
    have "ev_seq x \<in> set (map ev_seq (run_events (ev_run_id e) E'))" using that D(1) by (auto simp: run_events_def)
    then have "ev_seq x \<in> set [1 .. int (length (run_events (ev_run_id e) E'))]" using n unfolding numbered_def by metis
    then show ?thesis using e(2) by simp
  qed
  then show ?case using numbered_append [OF n append.hyps(2)] e(1) D by auto
qed simp

lemma sorted_filter_run: "numbered E \<Longrightarrow> sorted (map ev_seq (filter (\<lambda>e. ev_run_id e = run \<and> p e) E))"
proof -
  assume "numbered E"
  then have "sorted (map ev_seq (run_events run E))" by (simp add: numbered_def)
  then have "sorted (map ev_seq (filter p (run_events run E)))" by (rule sorted_filter)
  then show ?thesis by (simp add: run_events_def)
qed

lemma list_for_run_after_numbered:
  "numbered E \<Longrightarrow> list_for_run_after run a d E
     = filter (\<lambda>e. ev_run_id e = run \<and> a < ev_seq e \<and> (d \<longrightarrow> ev_durable e)) E"
  using sorted_filter_run [of E run "\<lambda>e. a < ev_seq e \<and> (d \<longrightarrow> ev_durable e)"]
  by (simp add: list_for_run_after_def sort_key_id_if_sorted sorted_sort_id)

lemma filter_upto: "0 \<le> a \<Longrightarrow> filter (\<lambda>s. a < s) [1 .. n] = [a + 1 .. n]"
  by (rule sorted_distinct_set_unique) (auto simp: sorted_wrt_filter)

lemma list_all_numbers:
  "numbered E \<Longrightarrow> 0 \<le> a \<Longrightarrow> map ev_seq (list_for_run_after run a False E) = [a + 1 .. max_seq run E]"
proof -
  assume n: "numbered E" and a: "0 \<le> a"
  have "list_for_run_after run a False E = filter (\<lambda>e. a < ev_seq e) (run_events run E)"
    using list_for_run_after_numbered [OF n, of run a False] by (simp add: run_events_def conj_commute)
  then have "map ev_seq (list_for_run_after run a False E) = filter (\<lambda>s. a < s) (map ev_seq (run_events run E))"
    by (simp add: filter_map comp_def)
  also have "map ev_seq (run_events run E) = [1 .. max_seq run E]" using n max_seq_numbered [OF n] by (simp add: numbered_def)
  finally show ?thesis using filter_upto [OF a] by simp
qed

lemma sorted_le_last: "sorted (map f xs) \<Longrightarrow> x \<in> set xs \<Longrightarrow> f x \<le> f (last xs)"
  by (induction xs) (auto simp: image_subset_iff)

text \<open>(C8)
  Resuming the events of a run is exact: a reader that asked for the events after \<open>a\<close>, whatever
  was appended since by this or other runs, and asks again after the last number it has seen,
  has together with the first answer exactly what one question after \<open>a\<close> would give now:
  nothing is missed, nothing comes twice, and the order is the same. Without the filter for
  durable events the numbers have no gap.
\<close>

theorem run_resume_exact:
  assumes n: "numbered E" and s: "event_steps E E'"
    and seen: "seen = list_for_run_after run a d E"
  shows "list_for_run_after run a d E' = seen @ list_for_run_after run (if seen = [] then a else ev_seq (last seen)) d E'
    \<and> (seen \<noteq> [] \<longrightarrow> set (list_for_run_after run (ev_seq (last seen)) d E') \<inter> set E = {})
    \<and> (0 \<le> a \<longrightarrow> map ev_seq (list_for_run_after run a False E') = [a + 1 .. max_seq run E'])"
proof -
  obtain D where n': "numbered E'" and E': "E' = E @ D"
    and later: "\<forall>d \<in> set D. \<forall>e \<in> set E. ev_run_id d = ev_run_id e \<longrightarrow> ev_seq e < ev_seq d"
    using event_steps_extend [OF s n] by blast
  let ?f = "\<lambda>b. filter (\<lambda>e. ev_run_id e = run \<and> b < ev_seq e \<and> (d \<longrightarrow> ev_durable e))"
  have seen': "seen = ?f a E" using list_for_run_after_numbered [OF n] seen by simp
  have now: "list_for_run_after run b d E' = ?f b E @ ?f b D" for b
    using list_for_run_after_numbered [OF n'] E' by simp
  have rest: "?f (ev_seq (last seen)) E = [] \<and> ?f (ev_seq (last seen)) D = ?f a D" if "seen \<noteq> []"
  proof
    have l: "last seen \<in> set E" "ev_run_id (last seen) = run" "a < ev_seq (last seen)"
      using last_in_set [OF that] by (auto simp: seen')
    have "sorted (map ev_seq seen)" unfolding seen' by (rule sorted_filter_run [OF n])
    then have "x \<in> set seen \<Longrightarrow> ev_seq x \<le> ev_seq (last seen)" for x by (rule sorted_le_last)
    then show "?f (ev_seq (last seen)) E = []" using l(3) by (fastforce simp: seen' filter_empty_conv)
    show "?f (ev_seq (last seen)) D = ?f a D" using later l by (intro filter_cong) (auto intro: less_trans)
  qed
  have "set (?f b D) \<inter> set E = {}" for b using later by fastforce
  then show ?thesis using rest now seen' list_all_numbers [OF n'] by auto
qed

text \<open>A thread is resumed by the number of an event in its run: the first event of a new run of the
  thread is not given to a reader that has already seen an event of another run, though a reader
  that starts over would get it.
\<close>

theorem thread_resume_skips_new_run:
  assumes new: "run_events (ev_run_id request) E = []" and thread: "ev_thread_id request = Some thread"
    and ok: "append_event now i token request E = Inr (e, E')" and a: "1 \<le> a"
  shows "list_for_thread_after thread a d E' = list_for_thread_after thread a d E
    \<and> e \<in> set (list_for_thread_after thread 0 False E')"
proof -
  have "max_seq (ev_run_id request) E = 0" using new by (simp add: max_seq_def run_events_def)
  then have "E' = E @ [e]" "ev_seq e = 1" "ev_thread_id e = Some thread"
    using append_event_row [OF ok] thread by auto
  then show ?thesis using a by (simp add: list_for_thread_after_def)
qed

section \<open>The times of a run\<close>

lemma status_row_keeps: "rn_id (status_row now s out r) = rn_id r"
  by (simp add: status_row_def)

text \<open>Applying a list of updates, each with its time, run, status and output.\<close>

definition apply_updates :: "(instant \<times> row_id \<times> string \<times> pydict option) list \<Rightarrow> run list \<Rightarrow> run list" where
  "apply_updates us R = fold (\<lambda>(now, i, s, out) R. snd (update_status now i s out R)) us R"

text \<open>
  The times of a run: whatever updates follow, on this run or on others, a start that was
  recorded never changes and an end that was recorded is never taken back; the run still exists,
  and its status is the one of the last update that names it.
\<close>

theorem run_times_kept:
  assumes "get_run_by_id i R = Some r"
  shows "\<exists>r'. get_run_by_id i (apply_updates us R) = Some r'
    \<and> (rn_started_at r \<noteq> None \<longrightarrow> rn_started_at r' = rn_started_at r)
    \<and> (rn_finished_at r \<noteq> None \<longrightarrow> rn_finished_at r' \<noteq> None)
    \<and> rn_status r' = fold (\<lambda>(now, j, s, out) st. if j = i then s else st) us (rn_status r)"
  using assms
proof (induction us arbitrary: R r)
  case (Cons u us)
  obtain now j s out where u: "u = (now, j, s, out)" by (cases u)
  have op: "row_op rn_id (status_row now s out)" by unfold_locales (rule status_row_keeps)
  let ?R = "snd (update_status now j s out R)"
  let ?r = "if j = i then status_row now s out r else r"
  have "get_run_by_id i ?R = Some ?r"
    using Cons.prems row_op.get_upd_same [OF op] row_op.get_upd_other [OF op]
    by (simp add: get_run_by_id_def update_status_def)
  from Cons.IH [OF this] show ?case
    by (auto simp: u apply_updates_def status_row_def split: if_splits)
qed (simp add: apply_updates_def)

definition example_event :: "row_id \<Rightarrow> bool \<Rightarrow> run_event" where
  "example_event run durable = \<lparr>ev_id = [], ev_event_id = [], ev_run_id = run, ev_thread_id = Some ''t1'', ev_seq = 0,
     ev_type = ''progress'', ev_payload = [], ev_durable = durable, ev_created_at = 0\<rparr>"

definition events_1 :: "run_event list" where
  "events_1 = snd (projr (append_event 1 ''e1'' ''a'' (example_event ''r1'' True) []))"

definition events_2 :: "run_event list" where
  "events_2 = snd (projr (append_event 2 ''e2'' ''b'' (example_event ''r1'' True) events_1))"

lemma example_appends:
  "append_event 1 ''e1'' ''a'' (example_event ''r1'' True) [] = Inr (fst (projr (append_event 1 ''e1'' ''a'' (example_event ''r1'' True) [])), events_1)"
  "append_event 2 ''e2'' ''b'' (example_event ''r1'' True) events_1
     = Inr (fst (projr (append_event 2 ''e2'' ''b'' (example_event ''r1'' True) events_1)), events_2)"
proof -
  have e: "\<not> isl (append_event 1 ''e1'' ''a'' (example_event ''r1'' True) [])"
    "\<not> isl (append_event 2 ''e2'' ''b'' (example_event ''r1'' True) events_1)" by code_simp+
  show "append_event 1 ''e1'' ''a'' (example_event ''r1'' True) [] = Inr (fst (projr (append_event 1 ''e1'' ''a'' (example_event ''r1'' True) [])), events_1)"
    and "append_event 2 ''e2'' ''b'' (example_event ''r1'' True) events_1
     = Inr (fst (projr (append_event 2 ''e2'' ''b'' (example_event ''r1'' True) events_1)), events_2)"
    using Inr_projr [OF e(1)] Inr_projr [OF e(2)] by (metis events_1_def events_2_def prod.collapse)+
qed

theorem run_resume_exact_witness:
  "map ev_seq (list_for_run_after ''r1'' 0 False events_2) = [1, 2]
   \<and> list_for_run_after ''r1'' 0 False events_2
       = list_for_run_after ''r1'' 0 False events_1 @ list_for_run_after ''r1'' 1 False events_2"
proof -
  have "numbered []" by (simp add: numbered_def run_events_def)
  then have n: "numbered events_1" using example_appends(1) by (rule numbered_append)
  have s: "event_steps events_1 events_2" by (rule event_steps.append [OF event_steps.none example_appends(2)])
  have e: "list_for_run_after ''r1'' 0 False events_1 \<noteq> []" "ev_seq (last (list_for_run_after ''r1'' 0 False events_1)) = 1"
    "max_seq ''r1'' events_2 = 2" by code_simp+
  have "[0 + 1 .. 2 :: int] = [1, 2]" by code_simp
  note r = run_resume_exact [OF n s refl, of "''r1''" 0 False, unfolded if_not_P [OF e(1)] e(2,3)]
  have "map ev_seq (list_for_run_after ''r1'' 0 False events_2) = [1, 2]"
    using r [THEN conjunct2, THEN conjunct2] \<open>[0 + 1 .. 2 :: int] = [1, 2]\<close> by simp
  then show ?thesis using r [THEN conjunct1] by (intro conjI)
qed

theorem thread_resume_skips_new_run_witness:
  "list_for_thread_after ''t1'' 1 False (snd (projr (append_event 3 ''e3'' ''c'' (example_event ''r2'' True) events_2)))
     = list_for_thread_after ''t1'' 1 False events_2
   \<and> map ev_run_id (list_for_thread_after ''t1'' 0 False (snd (projr (append_event 3 ''e3'' ''c'' (example_event ''r2'' True) events_2))))
       = [''r1'', ''r1'', ''r2'']"
proof -
  let ?x = "append_event 3 ''e3'' ''c'' (example_event ''r2'' True) events_2"
  have e: "\<not> isl ?x" "run_events (ev_run_id (example_event ''r2'' True)) events_2 = []"
    "ev_thread_id (example_event ''r2'' True) = Some ''t1''"
    "map ev_run_id (list_for_thread_after ''t1'' 0 False (snd (projr ?x))) = [''r1'', ''r1'', ''r2'']" by code_simp+
  have "?x = Inr (fst (projr ?x), snd (projr ?x))" using Inr_projr [OF e(1)] by simp
  from thread_resume_skips_new_run [OF e(2,3) this, of 1 False] e(4) show ?thesis by simp
qed

definition example_run :: run where
  "example_run = \<lparr>rn_id = ''r1'', rn_run_id = ''run_1'', rn_workspace_id = ''w'', rn_thread_id = None, rn_trigger_type = ''user'',
     rn_origin_actor_id = ''a'', rn_origin_endpoint_id = None, rn_status = ''running'', rn_input = [], rn_output = [],
     rn_execution_policy = [], rn_delivery_policy = [], rn_meta = [], rn_started_at = Some 3, rn_finished_at = None\<rparr>"

theorem run_times_kept_witness:
  "\<exists>r'. get_run_by_id ''r1'' (apply_updates [(5, ''r1'', ''failed'', None), (7, ''r1'', ''running'', None)] [example_run]) = Some r'
     \<and> rn_started_at r' = Some 3 \<and> rn_status r' = ''running''"
proof -
  have e: "get_run_by_id ''r1'' [example_run] = Some example_run" "rn_started_at example_run = Some 3" by code_simp+
  from run_times_kept [OF e(1), of "[(5, ''r1'', ''failed'', None), (7, ''r1'', ''running'', None)]"] e(2) show ?thesis by auto
qed

end
