(* ===== verification/Conversation_Versions.thy ===== *)
theory Conversation_Versions
  imports Messages Runs "HOL-Library.Sublist"
begin

text \<open>
  Branches and checkpoints of a conversation: \<open>ThreadBranchRepository\<close>,
  \<open>ConversationCheckpointRepository\<close> and the two functions of
  \<^verbatim>\<open>core/db/repositories/v5.py\<close>, their tables in \<^verbatim>\<open>core/db/models/v5.py\<close> and
  \<open>ConversationVersionService\<close> of \<^verbatim>\<open>core/services/v5_service.py\<close>.

  A thread points to its active branch and to the message that is its current leaf; a
  checkpoint remembers such a pair. A service call is one transaction: \<open>Inl\<close> leaves the tables
  as they were. All filters of its queries are on columns that the call does not change, so it
  is the same whether a query runs before or after the pending changes are flushed. The titles
  that lie outside Latin-1 are the fields of \<open>version_texts\<close>; the identifiers a call draws are
  the fields of \<open>version_ids\<close>, each a primary key and the hexadecimal text of the public name.
\<close>

section \<open>Tables\<close>

record branch =
  br_id :: row_id
  br_branch_id :: string
  br_thread_id :: row_id
  br_parent_branch_id :: "row_id option"
  br_root_message_id :: "row_id option"
  br_current_leaf_message_id :: "row_id option"
  br_title :: string
  br_status :: string
  br_meta :: pydict
  br_created_at :: instant

record checkpoint =
  ck_id :: row_id
  ck_checkpoint_id :: string
  ck_thread_id :: row_id
  ck_branch_id :: "row_id option"
  ck_message_id :: "row_id option"
  ck_run_id :: "row_id option"
  ck_checkpoint_type :: string
  ck_title :: string
  ck_state :: pydict
  ck_status :: string
  ck_meta :: pydict
  ck_created_at :: instant

record version_store = message_store +
  vs_branches :: "branch list"
  vs_checkpoints :: "checkpoint list"
  vs_sessions :: "session_row list"

record version_texts =
  vt_default_branch :: string
  vt_checkpoint :: string
  vt_auto_checkpoint :: string
  vt_user :: string
  vt_assistant :: string
  vt_system :: string
  vt_tool :: string
  vt_message :: string
  vt_checkout :: string
  vt_edit_retry :: string

record version_ids =
  vi_default :: "row_id \<times> string"
  vi_branch :: "row_id \<times> string"
  vi_message :: "row_id \<times> string"
  vi_checkpoint :: "row_id \<times> string"

definition br_clash :: "branch \<Rightarrow> branch \<Rightarrow> bool" where
  "br_clash a b \<longleftrightarrow> br_id a = br_id b \<or> br_branch_id a = br_branch_id b"

definition ck_clash :: "checkpoint \<Rightarrow> checkpoint \<Rightarrow> bool" where
  "ck_clash a b \<longleftrightarrow> ck_id a = ck_id b \<or> ck_checkpoint_id a = ck_checkpoint_id b"

interpretation br: unique_table br_id br_clash
  by unfold_locales (auto simp: br_clash_def)

interpretation ck: unique_table ck_id ck_clash
  by unfold_locales (auto simp: ck_clash_def)

interpretation ck_public: unique_table ck_checkpoint_id ck_clash
  by unfold_locales (auto simp: ck_clash_def)

section \<open>The repositories\<close>

definition branch_create ::
  "instant \<Rightarrow> row_id \<times> string \<Rightarrow> row_id \<Rightarrow> row_id option \<Rightarrow> row_id option \<Rightarrow> row_id option \<Rightarrow> string \<Rightarrow> pydict option
   \<Rightarrow> branch list \<Rightarrow> pyerr + branch \<times> branch list" where
  "branch_create now drawn thread parent rt leaf title metadata B =
     insert_row br_clash ''thread_branches''
       \<lparr>br_id = fst drawn, br_branch_id = ''br_'' @ snd drawn, br_thread_id = thread, br_parent_branch_id = parent,
        br_root_message_id = rt, br_current_leaf_message_id = leaf, br_title = title, br_status = ''active'',
        br_meta = dict_or metadata, br_created_at = now\<rparr> B"

definition get_by_branch_id :: "string \<Rightarrow> branch list \<Rightarrow> branch option" where
  "get_by_branch_id branch_id B = tbl_get br_branch_id (strip branch_id) B"

definition get_branch :: "row_id option \<Rightarrow> branch list \<Rightarrow> branch option" where
  "get_branch i B = (case i of Some k \<Rightarrow> tbl_get br_id k B | None \<Rightarrow> None)"

definition list_branches_for_thread :: "row_id \<Rightarrow> bool \<Rightarrow> branch list \<Rightarrow> branch list" where
  "list_branches_for_thread thread include_archived B =
     sort_key br_created_at (filter (\<lambda>b. br_thread_id b = thread \<and> (include_archived \<or> br_status b \<noteq> ''archived'')) B)"

definition find_default_for_thread :: "row_id \<Rightarrow> branch list \<Rightarrow> branch option" where
  "find_default_for_thread thread B =
     (let rows = list_branches_for_thread thread True B
      in case find (\<lambda>b. truthy (dget (br_meta b) ''default_branch'')) rows of
           Some b \<Rightarrow> Some b
         | None \<Rightarrow> (case rows of b # _ \<Rightarrow> Some b | [] \<Rightarrow> None))"

definition update_leaf :: "row_id \<Rightarrow> row_id option \<Rightarrow> branch list \<Rightarrow> branch option \<times> branch list" where
  "update_leaf i leaf B =
     (let f = (\<lambda>b. b\<lparr>br_current_leaf_message_id := leaf\<rparr>)
      in (map_option f (tbl_get br_id i B), tbl_upd br_id i f B))"

definition checkpoint_create ::
  "instant \<Rightarrow> row_id \<times> string \<Rightarrow> row_id \<Rightarrow> row_id option \<Rightarrow> row_id option \<Rightarrow> string \<Rightarrow> string \<Rightarrow> pydict \<Rightarrow> pydict option
   \<Rightarrow> checkpoint list \<Rightarrow> pyerr + checkpoint \<times> checkpoint list" where
  "checkpoint_create now drawn thread branch message checkpoint_type title state metadata C =
     insert_row ck_clash ''conversation_checkpoints''
       \<lparr>ck_id = fst drawn, ck_checkpoint_id = ''chk_'' @ snd drawn, ck_thread_id = thread, ck_branch_id = branch,
        ck_message_id = message, ck_run_id = None, ck_checkpoint_type = checkpoint_type, ck_title = title,
        ck_state = state, ck_status = ''active'', ck_meta = dict_or metadata, ck_created_at = now\<rparr> C"

definition get_by_checkpoint_id :: "string \<Rightarrow> checkpoint list \<Rightarrow> checkpoint option" where
  "get_by_checkpoint_id checkpoint_id C = tbl_get ck_checkpoint_id (strip checkpoint_id) C"

definition list_checkpoints_for_thread :: "row_id \<Rightarrow> bool \<Rightarrow> int \<Rightarrow> checkpoint list \<Rightarrow> checkpoint list" where
  "list_checkpoints_for_thread thread include_archived limit C =
     take (bounded 100 500 limit) (sorted_desc ck_created_at
       (filter (\<lambda>c. ck_thread_id c = thread \<and> (include_archived \<or> ck_status c \<noteq> ''archived'')) C))"

definition last_message_for_thread :: "row_id \<Rightarrow> row_id option \<Rightarrow> message list \<Rightarrow> message option" where
  "last_message_for_thread thread branch M =
     (case sorted_desc ms_created_at (filter (\<lambda>m. ms_thread_id m = thread \<and> (branch = None \<or> ms_branch_id m = branch)) M) of
        m # _ \<Rightarrow> Some m | [] \<Rightarrow> None)"

definition point_thread :: "instant \<Rightarrow> row_id option \<Rightarrow> row_id option \<Rightarrow> thread \<Rightarrow> thread" where
  "point_thread now active leaf t =
     t\<lparr>th_active_branch_id := (if active = None then th_active_branch_id t else active),
       th_current_leaf_message_id := leaf, th_updated_at := now\<rparr>"

definition update_thread_version_pointer ::
  "instant \<Rightarrow> row_id \<Rightarrow> row_id option \<Rightarrow> row_id option \<Rightarrow> thread list \<Rightarrow> thread option \<times> thread list" where
  "update_thread_version_pointer now thread active leaf T =
     (map_option (point_thread now active leaf) (get_thread_by_id thread T),
      tbl_upd th_id thread (point_thread now active leaf) T)"

section \<open>The default branch\<close>

text \<open>\<open>point\<close> is the effect of \<open>update_thread_version_pointer\<close> on the tables.\<close>

definition point :: "instant \<Rightarrow> row_id \<Rightarrow> row_id option \<Rightarrow> row_id option \<Rightarrow> version_store \<Rightarrow> version_store" where
  "point now thread active leaf S =
     S\<lparr>st_threads := snd (update_thread_version_pointer now thread active leaf (st_threads S))\<rparr>"

definition make_default_branch ::
  "version_texts \<Rightarrow> instant \<Rightarrow> version_ids \<Rightarrow> row_id \<Rightarrow> version_store \<Rightarrow> pyerr + branch \<times> version_store" where
  "make_default_branch tx now ids thread S =
     rbind (branch_create now (vi_default ids) thread None None
              (map_option ms_id (last_message_for_thread thread None (st_messages S))) (vt_default_branch tx)
              (Some [(''default_branch'', PBool True)]) (vs_branches S)) (\<lambda>(b, B).
       Inr (b, S\<lparr>vs_branches := B,
         st_messages := map (\<lambda>m. if ms_thread_id m = thread then m\<lparr>ms_branch_id := Some (br_id b)\<rparr> else m) (st_messages S)\<rparr>))"

definition ensure_default_branch ::
  "version_texts \<Rightarrow> instant \<Rightarrow> version_ids \<Rightarrow> row_id \<Rightarrow> version_store \<Rightarrow> pyerr + branch \<times> version_store" where
  "ensure_default_branch tx now ids thread S =
     (case find_default_for_thread thread (vs_branches S) of
        Some b \<Rightarrow> Inr (b, S)
      | None \<Rightarrow> rbind (make_default_branch tx now ids thread S) (\<lambda>(b, S1).
          Inr (b, point now thread (Some (br_id b)) (br_current_leaf_message_id b) S1)))"

definition ensure_default_branch_in_session ::
  "version_texts \<Rightarrow> instant \<Rightarrow> version_ids \<Rightarrow> thread \<Rightarrow> version_store \<Rightarrow> pyerr + branch \<times> version_store" where
  "ensure_default_branch_in_session tx now ids t S =
     rbind (case find_default_for_thread (th_id t) (vs_branches S) of
              Some b \<Rightarrow> Inr (b, S)
            | None \<Rightarrow> make_default_branch tx now ids (th_id t) S) (\<lambda>(b, S1).
       Inr (b, if th_active_branch_id t = None
               then point now (th_id t) (Some (br_id b)) (br_current_leaf_message_id b) S1 else S1))"

definition list_branches ::
  "version_texts \<Rightarrow> instant \<Rightarrow> version_ids \<Rightarrow> string \<Rightarrow> version_store \<Rightarrow> pyerr + branch list option \<times> version_store" where
  "list_branches tx now ids thread_id S =
     (case get_any_by_thread_id thread_id (st_threads S) of
        None \<Rightarrow> Inr (None, S)
      | Some t \<Rightarrow> rbind (ensure_default_branch_in_session tx now ids t S) (\<lambda>(b, S1).
          Inr (Some (list_branches_for_thread (th_id t) False (vs_branches S1)), S1)))"

section \<open>Checkpoints\<close>

text \<open>\<open>ThreadBranchRepository(session).get_by_id(thread.active_branch_id) or branch\<close>, after the
  thread was changed.\<close>

definition active_branch :: "row_id \<Rightarrow> branch \<Rightarrow> version_store \<Rightarrow> branch" where
  "active_branch thread b S =
     (case get_branch (case get_thread_by_id thread (st_threads S) of Some t \<Rightarrow> th_active_branch_id t | None \<Rightarrow> None)
             (vs_branches S) of Some a \<Rightarrow> a | None \<Rightarrow> b)"

definition current_leaf :: "row_id \<Rightarrow> version_store \<Rightarrow> row_id option" where
  "current_leaf thread S =
     (case get_thread_by_id thread (st_threads S) of Some t \<Rightarrow> th_current_leaf_message_id t | None \<Rightarrow> None)"

definition create_checkpoint ::
  "version_texts \<Rightarrow> instant \<Rightarrow> version_ids \<Rightarrow> string \<Rightarrow> string \<Rightarrow> string \<Rightarrow> pydict option \<Rightarrow> version_store
   \<Rightarrow> pyerr + checkpoint option \<times> version_store" where
  "create_checkpoint tx now ids thread_id title checkpoint_type metadata S =
     (case get_any_by_thread_id thread_id (st_threads S) of
        None \<Rightarrow> Inr (None, S)
      | Some t \<Rightarrow>
          rbind (ensure_default_branch_in_session tx now ids t S) (\<lambda>(b, S1).
            let a = active_branch (th_id t) b S1;
                leaf_id = (case current_leaf (th_id t) S1 of Some k \<Rightarrow> Some k | None \<Rightarrow> br_current_leaf_message_id a);
                leaf = (case leaf_id of Some k \<Rightarrow> get_message_by_id k (st_messages S1) | None \<Rightarrow> None);
                state = [(''thread_id'', PStr (th_thread_id t)), (''active_branch_id'', PStr (br_branch_id a)),
                  (''current_leaf_message_id'', PStr (case leaf of Some m \<Rightarrow> ms_message_id m | None \<Rightarrow> []))]
            in rbind (checkpoint_create now (vi_checkpoint ids) (th_id t) (Some (br_id a)) leaf_id checkpoint_type
                        (or_str (strip title) (vt_checkpoint tx)) state metadata (vs_checkpoints S1)) (\<lambda>(c, C).
                 Inr (Some c, S1\<lparr>vs_checkpoints := C\<rparr>))))"

definition last8 :: "string \<Rightarrow> string" where
  "last8 s = drop (length s - 8) s"

definition role_label :: "version_texts \<Rightarrow> string \<Rightarrow> string" where
  "role_label tx role =
     (let r = lower (strip role) in
      if r = ''user'' then vt_user tx else if r = ''assistant'' then vt_assistant tx
      else if r = ''system'' then vt_system tx else if r = ''tool'' then vt_tool tx else vt_message tx)"

definition create_auto_checkpoint ::
  "version_texts \<Rightarrow> instant \<Rightarrow> version_ids \<Rightarrow> thread \<Rightarrow> branch \<Rightarrow> message \<Rightarrow> version_store
   \<Rightarrow> pyerr + checkpoint \<times> version_store" where
  "create_auto_checkpoint tx now ids t b m S =
     (case filter (\<lambda>c. ck_thread_id c = th_id t \<and> ck_message_id c = Some (ms_id m) \<and> ck_checkpoint_type c = ''auto'')
             (vs_checkpoints S) of
        [c] \<Rightarrow> Inr (c, S)
      | _ # _ # _ \<Rightarrow> Inl MultipleResultsFound
      | [] \<Rightarrow>
          rbind (checkpoint_create now (vi_checkpoint ids) (th_id t) (Some (br_id b)) (Some (ms_id m)) ''auto''
                   (vt_auto_checkpoint tx @ role_label tx (ms_role m) @ '' '' @ last8 (ms_message_id m))
                   [(''thread_id'', PStr (th_thread_id t)), (''active_branch_id'', PStr (br_branch_id b)),
                    (''current_leaf_message_id'', PStr (ms_message_id m))]
                   (Some [(''auto'', PBool True), (''auto_reason'', PStr ''message_persisted''),
                     (''message_id'', PStr (ms_message_id m)), (''role'', PStr (ms_role m)),
                     (''turn_id'', PStr (str_or (dget (ms_meta m) ''turn_id'') [])),
                     (''stream_id'', PStr (str_or (dget (ms_meta m) ''stream_id'') []))])
                   (vs_checkpoints S)) (\<lambda>(c, C). Inr (c, S\<lparr>vs_checkpoints := C\<rparr>)))"

definition list_checkpoints :: "string \<Rightarrow> int \<Rightarrow> version_store \<Rightarrow> checkpoint list option" where
  "list_checkpoints thread_id limit S =
     map_option (\<lambda>t. list_checkpoints_for_thread (th_id t) False limit (vs_checkpoints S))
       (get_any_by_thread_id thread_id (st_threads S))"

section \<open>Moving between versions\<close>

definition set_leaf :: "row_id \<Rightarrow> row_id option \<Rightarrow> version_store \<Rightarrow> version_store" where
  "set_leaf i leaf S = S\<lparr>vs_branches := snd (update_leaf i leaf (vs_branches S))\<rparr>"

text \<open>The fields of the message that attaching it fills in.\<close>

definition attached :: "row_id \<Rightarrow> row_id option \<Rightarrow> message \<Rightarrow> message" where
  "attached branch leaf m =
     m\<lparr>ms_branch_id := (if ms_branch_id m = None then Some branch else ms_branch_id m),
       ms_parent_message_id := (if ms_parent_message_id m = None \<and> leaf \<noteq> Some (ms_id m) then leaf else ms_parent_message_id m)\<rparr>"

definition attach_message_to_active_branch ::
  "version_texts \<Rightarrow> instant \<Rightarrow> version_ids \<Rightarrow> row_id \<Rightarrow> row_id \<Rightarrow> version_store
   \<Rightarrow> pyerr + message option \<times> version_store" where
  "attach_message_to_active_branch tx now ids thread message S =
     (case (get_thread_by_id thread (st_threads S), get_message_by_id message (st_messages S)) of
        (Some t, Some _) \<Rightarrow>
          rbind (ensure_default_branch_in_session tx now ids t S) (\<lambda>(b, S1).
            let a = active_branch thread b S1; f = attached (br_id a) (current_leaf thread S1);
                S2 = point now thread (Some (br_id a)) (Some message)
                       (set_leaf (br_id a) (Some message) (S1\<lparr>st_messages := tbl_upd ms_id message f (st_messages S1)\<rparr>))
            in case get_message_by_id message (st_messages S2) of
                 None \<Rightarrow> Inr (None, S2)
               | Some m \<Rightarrow> rbind (create_auto_checkpoint tx now ids t a m S2) (\<lambda>(c, S3). Inr (Some m, S3)))
      | _ \<Rightarrow> Inr (None, S))"

text \<open>A checkpoint of the thread with the given name.\<close>

definition own_checkpoint :: "string \<Rightarrow> string \<Rightarrow> version_store \<Rightarrow> (thread \<times> checkpoint) option" where
  "own_checkpoint thread_id checkpoint_id S =
     (case (get_any_by_thread_id thread_id (st_threads S), get_by_checkpoint_id checkpoint_id (vs_checkpoints S)) of
        (Some t, Some c) \<Rightarrow> if ck_thread_id c = th_id t then Some (t, c) else None
      | _ \<Rightarrow> None)"

definition restore_checkpoint ::
  "instant \<Rightarrow> string \<Rightarrow> string \<Rightarrow> version_store \<Rightarrow> checkpoint option \<times> version_store" where
  "restore_checkpoint now thread_id checkpoint_id S =
     (case own_checkpoint thread_id checkpoint_id S of
        None \<Rightarrow> (None, S)
      | Some (t, c) \<Rightarrow> (Some c, point now (th_id t) (ck_branch_id c) (ck_message_id c) S))"

definition checkout_checkpoint ::
  "version_texts \<Rightarrow> instant \<Rightarrow> version_ids \<Rightarrow> string \<Rightarrow> string \<Rightarrow> string \<Rightarrow> version_store
   \<Rightarrow> pyerr + branch option \<times> version_store" where
  "checkout_checkpoint tx now ids thread_id checkpoint_id title S =
     (case own_checkpoint thread_id checkpoint_id S of
        None \<Rightarrow> Inr (None, S)
      | Some (t, c) \<Rightarrow>
          rbind (branch_create now (vi_branch ids) (th_id t) (ck_branch_id c) (ck_message_id c) (ck_message_id c)
                   (or_str (strip title) (vt_checkout tx @ last8 (ck_checkpoint_id c)))
                   (Some [(''checkout_checkpoint_id'', PStr (ck_checkpoint_id c))]) (vs_branches S)) (\<lambda>(b, B).
            Inr (Some b, point now (th_id t) (Some (br_id b)) (ck_message_id c) (S\<lparr>vs_branches := B\<rparr>))))"

definition activate_branch :: "instant \<Rightarrow> string \<Rightarrow> string \<Rightarrow> version_store \<Rightarrow> branch option \<times> version_store" where
  "activate_branch now thread_id branch_id S =
     (case (get_any_by_thread_id thread_id (st_threads S), get_by_branch_id branch_id (vs_branches S)) of
        (Some t, Some b) \<Rightarrow>
          if br_thread_id b = th_id t
          then (Some b, point now (th_id t) (Some (br_id b)) (br_current_leaf_message_id b) S) else (None, S)
      | _ \<Rightarrow> (None, S))"

section \<open>Editing a message\<close>

record edit_request =
  er_message_id :: string
  er_new_content :: string
  er_title :: string
  er_session :: "row_id option"
  er_endpoint :: "row_id option"
  er_workspace :: "row_id option"
  er_metadata :: "pydict option"

definition or_option :: "'a option \<Rightarrow> 'a option \<Rightarrow> 'a option" where
  "or_option a b = (if a = None then b else a)"

definition fallback_session :: "edit_request \<Rightarrow> row_id \<Rightarrow> version_store \<Rightarrow> session_row option" where
  "fallback_session rq thread S =
     (case er_session rq of
        None \<Rightarrow> None
      | Some i \<Rightarrow> (case get_session_by_id i (vs_sessions S) of
                    Some s \<Rightarrow> if sn_thread_id s = thread then Some s else None
                  | None \<Rightarrow> None))"

text \<open>The row of the edited message, before it is inserted.\<close>

definition edited_message :: "edit_request \<Rightarrow> session_row option \<Rightarrow> string \<Rightarrow> message \<Rightarrow> message" where
  "edited_message rq fs token m =
     m\<lparr>ms_message_id := ''msg_'' @ token,
       ms_session_id := or_option (ms_session_id m) (map_option sn_id fs),
       ms_run_id := None, ms_content := er_new_content rq, ms_status := ''completed'',
       ms_origin_endpoint_id := or_option (ms_origin_endpoint_id m) (or_option (case fs of Some s \<Rightarrow> sn_origin_endpoint_id s | None \<Rightarrow> None) (er_endpoint rq)),
       ms_active_workspace_id := or_option (ms_active_workspace_id m) (or_option (map_option sn_active_workspace_id fs) (er_workspace rq)),
       ms_parent_message_id := None, ms_branch_id := None, ms_revision_of_message_id := None,
       ms_variant_index := 0, ms_visibility := ''active'',
       ms_meta := dmerge (dmerge (ms_meta m) (filter (\<lambda>(k, v). clean v \<noteq> []) (dict_or (er_metadata rq))))
         [(''edit_retry'', PBool True), (''revision_of_message_id'', PStr (ms_message_id m))]\<rparr>"

definition edit_retry ::
  "version_texts \<Rightarrow> instant \<Rightarrow> version_ids \<Rightarrow> edit_request \<Rightarrow> version_store
   \<Rightarrow> pyerr + (branch \<times> message \<times> string) option \<times> version_store" where
  "edit_retry tx now ids rq S =
     (case get_by_message_id (er_message_id rq) (st_messages S) of
        None \<Rightarrow> Inr (None, S)
      | Some m0 \<Rightarrow>
          if ms_role m0 \<noteq> ''user'' then Inr (None, S)
          else case get_thread_by_id (ms_thread_id m0) (st_threads S) of
            None \<Rightarrow> Inr (None, S)
          | Some t \<Rightarrow>
              rbind (ensure_default_branch_in_session tx now ids t S) (\<lambda>(d, S1).
                let m = (case get_message_by_id (ms_id m0) (st_messages S1) of Some m \<Rightarrow> m | None \<Rightarrow> m0) in
                rbind (branch_create now (vi_branch ids) (th_id t) (ms_branch_id m) (ms_parent_message_id m) None
                         (or_str (strip (er_title rq)) (vt_edit_retry tx @ last8 (ms_message_id m)))
                         (Some [(''edit_retry_of_message_id'', PStr (ms_message_id m))]) (vs_branches S1)) (\<lambda>(b, B).
                  let siblings = length (filter (\<lambda>r. ms_revision_of_message_id r = Some (ms_id m)) (st_messages S1)) in
                  rbind (message_create now (fst (vi_message ids))
                           (edited_message rq (fallback_session rq (th_id t) S) (snd (vi_message ids)) m) (st_messages S1)) (\<lambda>(e, M).
                    let e' = e\<lparr>ms_parent_message_id := ms_parent_message_id m, ms_branch_id := Some (br_id b),
                               ms_revision_of_message_id := Some (ms_id m), ms_variant_index := int siblings + 1\<rparr>;
                        S2 = point now (th_id t) (Some (br_id b)) (Some (ms_id e))
                               (set_leaf (br_id b) (Some (ms_id e))
                                 (S1\<lparr>vs_branches := B, st_messages := tbl_upd ms_id (ms_id e) (\<lambda>_. e') M\<rparr>))
                    in rbind (create_auto_checkpoint tx now ids t b e' S2) (\<lambda>(c, S3).
                         Inr (Some (b\<lparr>br_current_leaf_message_id := Some (ms_id e)\<rparr>, e', ''branch_created''), S3))))))"

text \<open>
  Storing a message and attaching it are two transactions, made one after the other by every
  caller, such as \<open>_persist_runtime_assistant_message\<close> of the gateway. An error of the second
  leaves the message in the table but attached to no branch.
\<close>

definition persist_message ::
  "version_texts \<Rightarrow> instant \<Rightarrow> string \<Rightarrow> version_ids \<Rightarrow> message \<Rightarrow> version_store \<Rightarrow> pyerr + message option \<times> version_store" where
  "persist_message tx now now_iso ids request S =
     rbind (create_message now now_iso (fst (vi_message ids)) (snd (vi_message ids)) request (message_store.truncate S)) (\<lambda>(m, B).
       attach_message_to_active_branch tx now ids (ms_thread_id m) (ms_id m)
         (S\<lparr>st_messages := st_messages B, st_threads := st_threads B\<rparr>))"

section \<open>The line of a message\<close>

text \<open>
  The conversation that ends with a message, read off the rows from the newest to the oldest:
  the message, its parent, the parent's parent. In a table in which every parent is an older
  row, this is what the loop of \<open>list_branch_path\<close> finds.
\<close>

fun line :: "row_id \<Rightarrow> message list \<Rightarrow> row_id option \<Rightarrow> message list" where
  "line thread [] leaf = []"
| "line thread (m # older) leaf =
     (if leaf = Some (ms_id m)
      then (if ms_thread_id m = thread then line thread older (ms_parent_message_id m) @ [m] else [])
      else line thread older leaf)"

fun descends :: "message list \<Rightarrow> bool" where
  "descends [] \<longleftrightarrow> True"
| "descends (m # older) \<longleftrightarrow>
     (case ms_parent_message_id m of None \<Rightarrow> True | Some k \<Rightarrow> k \<in> ms_id ` set older)
     \<and> ms_id m \<notin> ms_id ` set older \<and> descends older"

lemma line_unknown: "(case leaf of None \<Rightarrow> True | Some k \<Rightarrow> k \<notin> ms_id ` set R) \<Longrightarrow> line thread R leaf = []"
  by (induction R) (auto split: option.splits)

lemma line_skip: "(case leaf of None \<Rightarrow> True | Some k \<Rightarrow> k \<notin> ms_id ` set N) \<Longrightarrow> line thread (N @ R) leaf = line thread R leaf"
  by (induction N) (auto split: option.splits)

lemma line_map:
  "(\<And>m. ms_id (f m) = ms_id m \<and> ms_thread_id (f m) = ms_thread_id m \<and> ms_parent_message_id (f m) = ms_parent_message_id m)
   \<Longrightarrow> line thread (map f R) leaf = map f (line thread R leaf)"
  by (induction R arbitrary: leaf) auto

lemma descends_tail: "descends (N @ R) \<Longrightarrow> descends R \<and> ms_id ` set N \<inter> ms_id ` set R = {}"
  by (induction N) auto

lemma path_loop_line:
  assumes "\<And>m. m \<in> set R \<Longrightarrow> map_of by_id (ms_id m) = (if ms_thread_id m = thread then Some m else None)"
    and "descends R" and "ms_id ` set R \<inter> set seen = {}"
    and "case leaf of None \<Rightarrow> True | Some k \<Rightarrow> k \<in> ms_id ` set R"
  shows "path_loop by_id leaf seen acc = acc @ rev (line thread R leaf)"
  using assms
proof (induction R arbitrary: leaf seen acc)
  case Nil
  then show ?case by (cases leaf) (auto intro: path_loop_stop)
next
  case (Cons m R)
  have look: "map_of by_id (ms_id m) = (if ms_thread_id m = thread then Some m else None)" by (rule Cons.prems(1)) simp
  show ?case
  proof (cases "leaf = Some (ms_id m)")
    case True
    note here = this
    show ?thesis
    proof (cases "ms_thread_id m = thread")
      case True
      have "path_loop by_id (ms_parent_message_id m) (ms_id m # seen) (acc @ [m])
          = (acc @ [m]) @ rev (line thread R (ms_parent_message_id m))"
        by (rule Cons.IH) (use Cons.prems in auto)
      then show ?thesis using here True look Cons.prems(3) by (simp add: path_loop_turn)
    next
      case False
      then have "path_loop by_id (Some (ms_id m)) seen acc = acc" using look by (intro path_loop_stop) simp
      then show ?thesis using here False by simp
    qed
  next
    case False
    then have "line thread (m # R) leaf = line thread R leaf" by simp
    moreover have "path_loop by_id leaf seen acc = acc @ rev (line thread R leaf)"
      by (rule Cons.IH) (use Cons.prems False in \<open>auto split: option.splits\<close>)
    ultimately show ?thesis by simp
  qed
qed

lemma descends_keys: "descends R \<Longrightarrow> distinct (map ms_id R)"
  by (induction R) auto

lemma by_id_lookup:
  assumes "distinct (map ms_id M)"
  shows "map_of (map (\<lambda>m. (ms_id m, m)) (list_by_thread_id thread M)) k
    = (case tbl_get ms_id k M of Some m \<Rightarrow> if ms_thread_id m = thread then Some m else None | None \<Rightarrow> None)"
proof -
  let ?rows = "list_by_thread_id thread M"
  have rows: "set ?rows = {m \<in> set M. ms_thread_id m = thread}" by (auto simp: list_by_thread_id_def)
  have d: "distinct (map ms_id ?rows)"
    using assms rows by (auto simp: distinct_map list_by_thread_id_def inj_on_def)
  show ?thesis
  proof (cases "tbl_get ms_id k M")
    case None
    then have "k \<notin> ms_id ` set ?rows" using rows by (auto simp: tbl_get_None)
    then show ?thesis using None by (auto simp: map_of_eq_None_iff)
  next
    case (Some m)
    then have m: "m \<in> set M" "ms_id m = k" by (auto dest: tbl_get_Some)
    have dk: "distinct (map fst (map (\<lambda>m. (ms_id m, m)) ?rows))" using d by (simp add: comp_def)
    show ?thesis
    proof (cases "ms_thread_id m = thread")
      case True
      then have "(k, m) \<in> set (map (\<lambda>m. (ms_id m, m)) ?rows)" using rows m by auto
      then show ?thesis using Some True map_of_is_SomeI [OF dk] by simp
    next
      case False
      have "m' = m" if "m' \<in> set M" "ms_id m' = k" for m'
        using that m assms by (simp add: distinct_map inj_on_def)
      then have "k \<notin> ms_id ` set ?rows" using rows False by auto
      then show ?thesis using Some False by (simp add: map_of_eq_None_iff image_image)
    qed
  qed
qed

lemma branch_path_line:
  assumes "descends (rev M)"
  shows "list_branch_path thread leaf M = line thread (rev M) leaf"
proof -
  let ?d = "map (\<lambda>m. (ms_id m, m)) (list_by_thread_id thread M)"
  have d: "distinct (map ms_id M)" using descends_keys [OF assms] by (simp add: rev_map [symmetric])
  have look: "map_of ?d (ms_id m) = (if ms_thread_id m = thread then Some m else None)" if "m \<in> set (rev M)" for m
    using that tbl_get_unique [of ms_id M m] d by (simp add: by_id_lookup)
  have "path_loop ?d leaf [] [] = rev (line thread (rev M) leaf)"
  proof (cases "case leaf of None \<Rightarrow> True | Some k \<Rightarrow> k \<in> ms_id ` set (rev M)")
    case True
    then show ?thesis using path_loop_line [OF look assms, of "[]" leaf "[]"] by simp
  next
    case False
    then obtain k where k: "leaf = Some k" "k \<notin> ms_id ` set M" by (cases leaf) auto
    then have "tbl_get ms_id k M = None" by (simp add: tbl_get_None)
    then have "path_loop ?d leaf [] [] = []" using k(1) d by (intro path_loop_stop) (simp add: by_id_lookup)
    moreover have "line thread (rev M) leaf = []" using k by (intro line_unknown) simp
    ultimately show ?thesis by simp
  qed
  then show ?thesis by (cases leaf) (simp_all add: list_branch_path_def line_unknown)
qed


section \<open>Runs of a conversation\<close>

text \<open>
  A step is one of the calls that change the versions of a conversation, a new thread, or a
  change of the fields of a thread. Messages are stored without a parent or a branch, as every
  caller does.
\<close>

inductive version_step :: "version_texts \<Rightarrow> version_store \<Rightarrow> version_store \<Rightarrow> bool" for tx where
  new_thread: "thread_create now i name prin home project title metadata (st_threads S) = Inr (t, T)
    \<Longrightarrow> version_step tx S (S\<lparr>st_threads := T\<rparr>)"
| thread_fields: "update_fields now i upd (st_threads S) = (r, T) \<Longrightarrow> version_step tx S (S\<lparr>st_threads := T\<rparr>)"
| message: "ms_parent_message_id request = None \<Longrightarrow> ms_branch_id request = None
    \<Longrightarrow> persist_message tx now now_iso ids request S = Inr (r, S') \<Longrightarrow> version_step tx S S'"
| branches: "list_branches tx now ids thread_id S = Inr (r, S') \<Longrightarrow> version_step tx S S'"
| checkpoint: "create_checkpoint tx now ids thread_id title ck_type metadata S = Inr (r, S') \<Longrightarrow> version_step tx S S'"
| restore: "restore_checkpoint now thread_id checkpoint_id S = (r, S') \<Longrightarrow> version_step tx S S'"
| checkout: "checkout_checkpoint tx now ids thread_id checkpoint_id title S = Inr (r, S') \<Longrightarrow> version_step tx S S'"
| activate: "activate_branch now thread_id branch_id S = (r, S') \<Longrightarrow> version_step tx S S'"
| edit: "edit_retry tx now ids rq S = Inr (r, S') \<Longrightarrow> version_step tx S S'"

definition empty_versions :: "session_row list \<Rightarrow> version_store" where
  "empty_versions sessions =
     \<lparr>st_messages = [], st_threads = [], vs_branches = [], vs_checkpoints = [], vs_sessions = sessions\<rparr>"

text \<open>A pointer of thread \<open>t\<close> leads to a row of that thread.\<close>

definition leaf_in :: "message list \<Rightarrow> row_id \<Rightarrow> row_id option \<Rightarrow> bool" where
  "leaf_in M t leaf \<longleftrightarrow> (case leaf of None \<Rightarrow> True | Some k \<Rightarrow> \<exists>m \<in> set M. ms_id m = k \<and> ms_thread_id m = t)"

definition branch_in :: "branch list \<Rightarrow> row_id \<Rightarrow> row_id option \<Rightarrow> bool" where
  "branch_in B t i \<longleftrightarrow> (case i of None \<Rightarrow> True | Some k \<Rightarrow> \<exists>b \<in> set B. br_id b = k \<and> br_thread_id b = t)"

definition pointers_ok :: "version_store \<Rightarrow> bool" where
  "pointers_ok S \<longleftrightarrow>
     (\<forall>t \<in> set (st_threads S). leaf_in (st_messages S) (th_id t) (th_current_leaf_message_id t)
        \<and> branch_in (vs_branches S) (th_id t) (th_active_branch_id t))
   \<and> (\<forall>b \<in> set (vs_branches S). leaf_in (st_messages S) (br_thread_id b) (br_current_leaf_message_id b))
   \<and> (\<forall>c \<in> set (vs_checkpoints S). leaf_in (st_messages S) (ck_thread_id c) (ck_message_id c)
        \<and> branch_in (vs_branches S) (ck_thread_id c) (ck_branch_id c))"

definition versions_ok :: "version_store \<Rightarrow> bool" where
  "versions_ok S \<longleftrightarrow> pointers_ok S \<and> descends (rev (st_messages S)) \<and> unique_rows ms_clash (st_messages S)
     \<and> unique_rows th_clash (st_threads S) \<and> unique_rows br_clash (vs_branches S)
     \<and> unique_rows ck_clash (vs_checkpoints S)"

text \<open>What no step changes: a message but for its branch, the names of a thread and of a branch,
  a checkpoint.\<close>

definition core :: "message \<Rightarrow> message" where
  "core m = m\<lparr>ms_branch_id := None\<rparr>"

definition thread_names :: "thread \<Rightarrow> row_id \<times> string" where
  "thread_names t = (th_id t, th_thread_id t)"

definition branch_names :: "branch \<Rightarrow> row_id \<times> string \<times> row_id" where
  "branch_names b = (br_id b, br_branch_id b, br_thread_id b)"

definition extends :: "version_store \<Rightarrow> version_store \<Rightarrow> bool" where
  "extends S S' \<longleftrightarrow> prefix (map core (st_messages S)) (map core (st_messages S'))
     \<and> prefix (map thread_names (st_threads S)) (map thread_names (st_threads S'))
     \<and> prefix (map branch_names (vs_branches S)) (map branch_names (vs_branches S'))
     \<and> prefix (vs_checkpoints S) (vs_checkpoints S')"

lemma core_fields [simp]:
  "ms_id (core m) = ms_id m" "ms_message_id (core m) = ms_message_id m" "ms_thread_id (core m) = ms_thread_id m"
  "ms_parent_message_id (core m) = ms_parent_message_id m" "ms_content (core m) = ms_content m" "ms_role (core m) = ms_role m"
  by (simp_all add: core_def)

lemma core_eq: "core a = core b \<Longrightarrow> ms_id a = ms_id b \<and> ms_message_id a = ms_message_id b
    \<and> ms_thread_id a = ms_thread_id b \<and> ms_parent_message_id a = ms_parent_message_id b"
  by (metis core_fields)

lemma extends_refl [simp, intro]: "extends S S"
  by (simp add: extends_def)

lemma extends_trans [trans]: "extends S S' \<Longrightarrow> extends S' S'' \<Longrightarrow> extends S S''"
  unfolding extends_def by (meson prefix_order.trans)

lemma map_id_core: "map ms_id (map core R) = map ms_id R"
  by (induction R) simp_all

lemma core_ids: "map core R = map core Q \<Longrightarrow> map ms_id R = map ms_id Q"
  by (subst (1 2) map_id_core [symmetric]) simp

lemma prefix_mem:
  assumes "prefix (map f A) (map f B)" and "a \<in> set A"
  obtains b where "b \<in> set B" "f b = f a"
proof -
  have "f a \<in> set (map f B)" using assms set_mono_prefix [OF assms(1)] by auto
  then show ?thesis using that by force
qed

lemma descends_core: "map core R = map core R' \<Longrightarrow> descends R' \<Longrightarrow> descends R"
proof (induction R arbitrary: R')
  case (Cons m R)
  then obtain m' Q where R': "R' = m' # Q" "core m = core m'" "map core R = map core Q" by auto
  have "ms_id ` set R = ms_id ` set Q" using arg_cong [OF core_ids [OF R'(3)], of set] by simp
  then show ?case using Cons.IH [OF R'(3)] Cons.prems(2) core_eq [OF R'(2)] R'(1)
    by (cases "ms_parent_message_id m'") simp_all
qed simp

lemma leaf_in_core:
  assumes "prefix (map core M) (map core M')" and "leaf_in M t leaf"
  shows "leaf_in M' t leaf"
proof (cases leaf)
  case (Some k)
  then obtain m where "m \<in> set M" "ms_id m = k" "ms_thread_id m = t" using assms(2) by (auto simp: leaf_in_def)
  moreover obtain m' where "m' \<in> set M'" "core m' = core m" using prefix_mem [OF assms(1) \<open>m \<in> set M\<close>] .
  ultimately show ?thesis using Some core_eq [of m' m] by (auto simp: leaf_in_def)
qed (simp add: leaf_in_def)

lemma branch_in_names:
  assumes "prefix (map branch_names B) (map branch_names B')" and "branch_in B t i"
  shows "branch_in B' t i"
proof (cases i)
  case (Some k)
  then obtain b where "b \<in> set B" "br_id b = k" "br_thread_id b = t" using assms(2) by (auto simp: branch_in_def)
  moreover obtain b' where "b' \<in> set B'" "branch_names b' = branch_names b" using prefix_mem [OF assms(1) \<open>b \<in> set B\<close>] .
  ultimately show ?thesis using Some by (auto simp: branch_in_def branch_names_def)
qed (simp add: branch_in_def)


lemma pointers_step:
  assumes ok: "pointers_ok S" and ext: "extends S S'"
    and "\<And>t. t \<in> set (st_threads S') \<Longrightarrow> t \<in> set (st_threads S) \<or>
        leaf_in (st_messages S') (th_id t) (th_current_leaf_message_id t) \<and> branch_in (vs_branches S') (th_id t) (th_active_branch_id t)"
    and "\<And>b. b \<in> set (vs_branches S') \<Longrightarrow> b \<in> set (vs_branches S) \<or>
        leaf_in (st_messages S') (br_thread_id b) (br_current_leaf_message_id b)"
    and "\<And>c. c \<in> set (vs_checkpoints S') \<Longrightarrow> c \<in> set (vs_checkpoints S) \<or>
        leaf_in (st_messages S') (ck_thread_id c) (ck_message_id c) \<and> branch_in (vs_branches S') (ck_thread_id c) (ck_branch_id c)"
  shows "pointers_ok S'"
proof -
  have m: "leaf_in (st_messages S') t leaf" if "leaf_in (st_messages S) t leaf" for t leaf
    using leaf_in_core [OF _ that] ext by (simp add: extends_def)
  have b: "branch_in (vs_branches S') t i" if "branch_in (vs_branches S) t i" for t i
    using branch_in_names [OF _ that] ext by (simp add: extends_def)
  show ?thesis unfolding pointers_ok_def using ok assms(3-5) m b unfolding pointers_ok_def by metis
qed

text \<open>A change of a table that keeps what \<open>extends\<close> speaks about.\<close>

lemma tbl_upd_names: "(\<And>r. names (f r) = names r) \<Longrightarrow> map names (tbl_upd key k f T) = map names T"
  by (simp add: tbl_upd_def)

lemma in_tbl_upd: "r \<in> set (tbl_upd key k f T) \<Longrightarrow> r \<in> set T \<or> (\<exists>x \<in> set T. key x = k \<and> r = f x)"
  by (auto simp: tbl_upd_def)

definition good :: "version_store \<Rightarrow> version_store \<Rightarrow> bool" where
  "good S S' \<longleftrightarrow> versions_ok S' \<and> extends S S'"

lemma good_trans [trans]: "good S S' \<Longrightarrow> good S' S'' \<Longrightarrow> good S S''"
  unfolding good_def using extends_trans by blast

lemma good_refl: "versions_ok S \<Longrightarrow> good S S"
  by (simp add: good_def)

lemma good_threads:
  assumes ok: "versions_ok S" and names: "map thread_names T = map thread_names (st_threads S)"
    and new: "\<And>t. t \<in> set T \<Longrightarrow> t \<in> set (st_threads S) \<or>
      leaf_in (st_messages S) (th_id t) (th_current_leaf_message_id t) \<and> branch_in (vs_branches S) (th_id t) (th_active_branch_id t)"
  shows "good S (S\<lparr>st_threads := T\<rparr>)"
proof -
  have ext: "extends S (S\<lparr>st_threads := T\<rparr>)" using names by (simp add: extends_def)
  have "sorted_wrt (\<lambda>a b. \<not> (fst a = fst b \<or> snd a = snd b)) (map thread_names T)"
    using ok unfolding names by (simp add: versions_ok_def thread_names_def sorted_wrt_map th_clash_def)
  then have "unique_rows th_clash T" by (simp add: thread_names_def sorted_wrt_map th_clash_def)
  moreover have "pointers_ok (S\<lparr>st_threads := T\<rparr>)"
    by (rule pointers_step [OF _ ext]) (use ok new in \<open>auto simp: versions_ok_def\<close>)
  ultimately show ?thesis using ok ext by (simp add: good_def versions_ok_def)
qed

lemma good_point:
  assumes "versions_ok S" and "leaf_in (st_messages S) t leaf" and "branch_in (vs_branches S) t active"
  shows "good S (point now t active leaf S)"
  unfolding point_def
proof (rule good_threads [OF assms(1)])
  show "map thread_names (snd (update_thread_version_pointer now t active leaf (st_threads S))) = map thread_names (st_threads S)"
    unfolding update_thread_version_pointer_def snd_conv by (rule tbl_upd_names) (simp add: thread_names_def point_thread_def)
next
  fix r assume "r \<in> set (snd (update_thread_version_pointer now t active leaf (st_threads S)))"
  then consider "r \<in> set (st_threads S)" | x where "x \<in> set (st_threads S)" "th_id x = t" "r = point_thread now active leaf x"
    unfolding update_thread_version_pointer_def snd_conv using in_tbl_upd by metis
  then show "r \<in> set (st_threads S) \<or>
      leaf_in (st_messages S) (th_id r) (th_current_leaf_message_id r) \<and> branch_in (vs_branches S) (th_id r) (th_active_branch_id r)"
  proof cases
    case (2 x)
    have "branch_in (vs_branches S) t (th_active_branch_id x)"
      using 2 assms(1) by (auto simp: versions_ok_def pointers_ok_def)
    then show ?thesis using 2 assms(2,3) by (simp add: point_thread_def)
  qed simp
qed

lemma good_branches:
  assumes ok: "versions_ok S" and names: "map branch_names B = map branch_names (vs_branches S)"
    and new: "\<And>b. b \<in> set B \<Longrightarrow> b \<in> set (vs_branches S) \<or> leaf_in (st_messages S) (br_thread_id b) (br_current_leaf_message_id b)"
  shows "good S (S\<lparr>vs_branches := B\<rparr>)"
proof -
  have ext: "extends S (S\<lparr>vs_branches := B\<rparr>)" using names by (simp add: extends_def)
  have "sorted_wrt (\<lambda>a b. \<not> (fst a = fst b \<or> fst (snd a) = fst (snd b))) (map branch_names B)"
    using ok unfolding names by (simp add: versions_ok_def branch_names_def sorted_wrt_map br_clash_def)
  then have "unique_rows br_clash B" by (simp add: branch_names_def sorted_wrt_map br_clash_def)
  moreover have "pointers_ok (S\<lparr>vs_branches := B\<rparr>)"
    by (rule pointers_step [OF _ ext]) (use ok new in \<open>auto simp: versions_ok_def\<close>)
  ultimately show ?thesis using ok ext by (simp add: good_def versions_ok_def)
qed

lemma good_set_leaf:
  assumes "versions_ok S" and "\<And>b. b \<in> set (vs_branches S) \<Longrightarrow> br_id b = i \<Longrightarrow> leaf_in (st_messages S) (br_thread_id b) leaf"
  shows "good S (set_leaf i leaf S)"
  unfolding set_leaf_def
proof (rule good_branches [OF assms(1)])
  show "map branch_names (snd (update_leaf i leaf (vs_branches S))) = map branch_names (vs_branches S)"
    unfolding update_leaf_def Let_def snd_conv by (rule tbl_upd_names) (simp add: branch_names_def)
next
  fix b assume "b \<in> set (snd (update_leaf i leaf (vs_branches S)))"
  then consider "b \<in> set (vs_branches S)" | x where "x \<in> set (vs_branches S)" "br_id x = i" "b = x\<lparr>br_current_leaf_message_id := leaf\<rparr>"
    unfolding update_leaf_def Let_def snd_conv by (blast dest: in_tbl_upd)
  then show "b \<in> set (vs_branches S) \<or> leaf_in (st_messages S) (br_thread_id b) (br_current_leaf_message_id b)"
  proof cases
    case (2 x)
    then show ?thesis using assms(2) [OF 2(1,2)] by simp
  qed simp
qed

lemma good_new_branch:
  assumes ok: "versions_ok S" and new: "branch_create now drawn t parent rt leaf title metadata (vs_branches S) = Inr (b, B)"
    and leaf: "leaf_in (st_messages S) t leaf"
  shows "good S (S\<lparr>vs_branches := B\<rparr>)" "B = vs_branches S @ [b]"
    "br_id b = fst drawn" "br_thread_id b = t" "br_current_leaf_message_id b = leaf" "branch_in B t (Some (br_id b))"
proof -
  have u: "unique_rows br_clash (vs_branches S)" using ok by (simp add: versions_ok_def)
  note ins = br.insert_ok [OF new [unfolded branch_create_def] u]
  then show b: "B = vs_branches S @ [b]" "br_id b = fst drawn" "br_thread_id b = t" "br_current_leaf_message_id b = leaf" by auto
  then show "branch_in B t (Some (br_id b))" by (simp add: branch_in_def)
  have ext: "extends S (S\<lparr>vs_branches := B\<rparr>)" using b by (simp add: extends_def)
  have "pointers_ok (S\<lparr>vs_branches := B\<rparr>)"
    by (rule pointers_step [OF _ ext]) (use ok leaf b in \<open>auto simp: versions_ok_def\<close>)
  then show "good S (S\<lparr>vs_branches := B\<rparr>)" using ok ext conjunct1 [OF ins] by (simp add: good_def versions_ok_def)
qed

lemma good_new_checkpoint:
  assumes ok: "versions_ok S" and new: "checkpoint_create now drawn t br msg ct title state metadata (vs_checkpoints S) = Inr (c, C)"
    and ptr: "leaf_in (st_messages S) t msg" "branch_in (vs_branches S) t br"
  shows "good S (S\<lparr>vs_checkpoints := C\<rparr>)" "C = vs_checkpoints S @ [c]" "ck_message_id c = msg" "ck_thread_id c = t"
proof -
  have u: "unique_rows ck_clash (vs_checkpoints S)" using ok by (simp add: versions_ok_def)
  note ins = ck.insert_ok [OF new [unfolded checkpoint_create_def] u]
  then show c: "C = vs_checkpoints S @ [c]" "ck_message_id c = msg" "ck_thread_id c = t" by auto
  have b: "ck_branch_id c = br" using ins by auto
  have ext: "extends S (S\<lparr>vs_checkpoints := C\<rparr>)" using c by (simp add: extends_def)
  have "pointers_ok (S\<lparr>vs_checkpoints := C\<rparr>)"
    by (rule pointers_step [OF _ ext]) (use ok ptr c b in \<open>auto simp: versions_ok_def\<close>)
  then show "good S (S\<lparr>vs_checkpoints := C\<rparr>)" using ok ext conjunct1 [OF ins] by (simp add: good_def versions_ok_def)
qed

lemma good_relabel:
  assumes ok: "versions_ok S" and f: "\<And>m. core (f m) = core m"
  shows "good S (S\<lparr>st_messages := map f (st_messages S)\<rparr>)"
proof -
  have c: "map core (map f (st_messages S)) = map core (st_messages S)" using f by simp
  have ext: "extends S (S\<lparr>st_messages := map f (st_messages S)\<rparr>)" using c by (simp add: extends_def del: map_map)
  have "descends (rev (map f (st_messages S)))"
    by (rule descends_core [of _ "rev (st_messages S)"]) (use ok c in \<open>simp_all add: rev_map [symmetric] versions_ok_def del: map_map\<close>)
  moreover have "unique_rows ms_clash (map f (st_messages S))"
    by (rule ms.unique_map) (use ok core_eq [OF f] in \<open>simp_all add: versions_ok_def ms_clash_def\<close>)
  moreover have "pointers_ok (S\<lparr>st_messages := map f (st_messages S)\<rparr>)"
    by (rule pointers_step [OF _ ext]) (use ok in \<open>auto simp: versions_ok_def\<close>)
  ultimately show ?thesis using ok ext by (simp add: good_def versions_ok_def)
qed

lemma good_append:
  assumes ok: "versions_ok S" and u: "unique_rows ms_clash (st_messages S @ [m])"
    and p: "leaf_in (st_messages S) t (ms_parent_message_id m)"
  shows "good S (S\<lparr>st_messages := st_messages S @ [m]\<rparr>)"
proof -
  have ext: "extends S (S\<lparr>st_messages := st_messages S @ [m]\<rparr>)" by (simp add: extends_def)
  have "ms_id m \<notin> ms_id ` set (st_messages S)" using ms.unique_keys [OF u] by auto
  then have "descends (rev (st_messages S @ [m]))"
    using ok p by (auto simp: versions_ok_def leaf_in_def split: option.splits)
  moreover have "pointers_ok (S\<lparr>st_messages := st_messages S @ [m]\<rparr>)"
    by (rule pointers_step [OF _ ext]) (use ok in \<open>auto simp: versions_ok_def\<close>)
  ultimately show ?thesis using ok ext u by (simp add: good_def versions_ok_def)
qed


lemma versions_okD:
  assumes "versions_ok S"
  shows "t \<in> set (st_threads S) \<Longrightarrow> leaf_in (st_messages S) (th_id t) (th_current_leaf_message_id t)"
    "t \<in> set (st_threads S) \<Longrightarrow> branch_in (vs_branches S) (th_id t) (th_active_branch_id t)"
    "b \<in> set (vs_branches S) \<Longrightarrow> leaf_in (st_messages S) (br_thread_id b) (br_current_leaf_message_id b)"
    "c \<in> set (vs_checkpoints S) \<Longrightarrow> leaf_in (st_messages S) (ck_thread_id c) (ck_message_id c)"
    "c \<in> set (vs_checkpoints S) \<Longrightarrow> branch_in (vs_branches S) (ck_thread_id c) (ck_branch_id c)"
  using assms by (simp_all add: versions_ok_def pointers_ok_def)

lemma branch_unique:
  "versions_ok S \<Longrightarrow> x \<in> set (vs_branches S) \<Longrightarrow> y \<in> set (vs_branches S) \<Longrightarrow> br_id x = br_id y \<Longrightarrow> x = y"
  using br.unique_keys [of "vs_branches S"] by (auto simp: versions_ok_def distinct_map inj_on_def)

lemma find_default_mem: "find_default_for_thread t B = Some b \<Longrightarrow> b \<in> set B \<and> br_thread_id b = t"
proof -
  assume d: "find_default_for_thread t B = Some b"
  let ?rows = "list_branches_for_thread t True B"
  have "b \<in> set ?rows"
  proof (cases "find (\<lambda>b. truthy (dget (br_meta b) ''default_branch'')) ?rows")
    case None
    then show ?thesis using d by (cases ?rows) (simp_all add: find_default_for_thread_def Let_def)
  next
    case (Some c)
    then have "c \<in> set ?rows" by (auto simp: find_Some_iff)
    then show ?thesis using d Some by (simp add: find_default_for_thread_def Let_def)
  qed
  then show ?thesis by (simp add: list_branches_for_thread_def)
qed

lemma last_message_in: "leaf_in M t (map_option ms_id (last_message_for_thread t None M))"
proof (cases "sorted_desc ms_created_at (filter (\<lambda>m. ms_thread_id m = t) M)")
  case (Cons m ms)
  then have "m \<in> set (filter (\<lambda>m. ms_thread_id m = t) M)" by (metis list.set_intros(1) set_sorted_desc)
  then show ?thesis using Cons by (auto simp: last_message_for_thread_def leaf_in_def)
qed (simp add: last_message_for_thread_def leaf_in_def)

lemma get_threadD: "get_thread_by_id i T = Some t \<Longrightarrow> t \<in> set T \<and> th_id t = i"
  unfolding get_thread_by_id_def by (rule tbl_get_Some)

lemma get_thread_nameD: "get_any_by_thread_id n T = Some t \<Longrightarrow> t \<in> set T \<and> th_thread_id t = n"
  unfolding get_any_by_thread_id_def by (rule tbl_get_Some)

lemma good_make_default:
  assumes ok: "versions_ok S" and mk: "make_default_branch tx now ids t S = Inr (b, S')"
  shows "good S S'" "br_thread_id b = t" "b \<in> set (vs_branches S')"
    "st_threads S' = st_threads S" "vs_checkpoints S' = vs_checkpoints S"
    "br_current_leaf_message_id b = map_option ms_id (last_message_for_thread t None (st_messages S))"
    "\<exists>g. st_messages S' = map g (st_messages S) \<and> (\<forall>m. core (g m) = core m)"
proof -
  let ?leaf = "map_option ms_id (last_message_for_thread t None (st_messages S))"
  let ?g = "\<lambda>m. if ms_thread_id m = t then m\<lparr>ms_branch_id := Some (br_id b)\<rparr> else m"
  obtain B where B: "branch_create now (vi_default ids) t None None ?leaf (vt_default_branch tx)
        (Some [(''default_branch'', PBool True)]) (vs_branches S) = Inr (b, B)"
    and S': "S' = S\<lparr>vs_branches := B, st_messages := map ?g (st_messages S)\<rparr>"
    using mk by (auto simp: make_default_branch_def rbind_def split: sum.splits)
  note new = good_new_branch [OF ok B last_message_in]
  have g: "core (?g m) = core m" for m by (simp add: core_def)
  have "versions_ok (S\<lparr>vs_branches := B\<rparr>)" using new(1) by (simp add: good_def)
  from good_relabel [OF this g] have "good (S\<lparr>vs_branches := B\<rparr>) S'" by (simp add: S')
  with new(1) show "good S S'" by (rule good_trans)
  show "br_thread_id b = t" "b \<in> set (vs_branches S')" "st_threads S' = st_threads S" "vs_checkpoints S' = vs_checkpoints S"
    "br_current_leaf_message_id b = ?leaf" using new by (simp_all add: S')
  show "\<exists>g. st_messages S' = map g (st_messages S) \<and> (\<forall>m. core (g m) = core m)"
    using g by (intro exI [of _ ?g]) (simp add: S')
qed

lemma get_thread_point:
  "get_thread_by_id j (st_threads (point now i active leaf S))
    = map_option (\<lambda>t. if j = i then point_thread now active leaf t else t) (get_thread_by_id j (st_threads S))"
proof -
  have "row_op th_id (point_thread now active leaf)" by unfold_locales (simp add: point_thread_def)
  from row_op.get_upd_same [OF this, of i "st_threads S"] row_op.get_upd_other [OF this, of j i "st_threads S"]
  show ?thesis by (cases "j = i") (simp_all add: point_def update_thread_version_pointer_def get_thread_by_id_def option.map_ident)
qed

lemma point_other [simp]:
  "st_messages (point now i active leaf S) = st_messages S" "vs_branches (point now i active leaf S) = vs_branches S"
  "vs_checkpoints (point now i active leaf S) = vs_checkpoints S"
  by (simp_all add: point_def)

lemma set_leaf_other [simp]:
  "st_messages (set_leaf i leaf S) = st_messages S" "st_threads (set_leaf i leaf S) = st_threads S"
  "vs_checkpoints (set_leaf i leaf S) = vs_checkpoints S"
  by (simp_all add: set_leaf_def)

text \<open>After the default branch is there: the thread has an active branch, and a leaf it had
  together with an active branch is still its leaf.\<close>

lemma good_ensure:
  assumes ok: "versions_ok S" and t: "get_thread_by_id (th_id t) (st_threads S) = Some t"
    and en: "ensure_default_branch_in_session tx now ids t S = Inr (b, S')"
  shows "good S S'" "br_thread_id b = th_id t" "b \<in> set (vs_branches S')" "vs_checkpoints S' = vs_checkpoints S"
    "\<exists>g. st_messages S' = map g (st_messages S) \<and> (\<forall>m. core (g m) = core m)"
    "\<exists>t'. get_thread_by_id (th_id t) (st_threads S') = Some t' \<and> th_active_branch_id t' \<noteq> None"
    "th_active_branch_id t \<noteq> None \<Longrightarrow> get_thread_by_id (th_id t) (st_threads S') = Some t"
    "th_active_branch_id t = None \<Longrightarrow> find_default_for_thread (th_id t) (vs_branches S) = None \<Longrightarrow>
       current_leaf (th_id t) S' = map_option ms_id (last_message_for_thread (th_id t) None (st_messages S))"
proof -
  obtain S1 where S1: "(case find_default_for_thread (th_id t) (vs_branches S) of Some b \<Rightarrow> Inr (b, S)
        | None \<Rightarrow> make_default_branch tx now ids (th_id t) S) = Inr (b, S1)"
    and S': "S' = (if th_active_branch_id t = None
          then point now (th_id t) (Some (br_id b)) (br_current_leaf_message_id b) S1 else S1)"
    using en by (auto simp: ensure_default_branch_in_session_def rbind_def split: sum.splits)
  have 1: "good S S1 \<and> br_thread_id b = th_id t \<and> b \<in> set (vs_branches S1) \<and> st_threads S1 = st_threads S
      \<and> vs_checkpoints S1 = vs_checkpoints S \<and> (\<exists>g. st_messages S1 = map g (st_messages S) \<and> (\<forall>m. core (g m) = core m))
      \<and> (find_default_for_thread (th_id t) (vs_branches S) = None \<longrightarrow>
          br_current_leaf_message_id b = map_option ms_id (last_message_for_thread (th_id t) None (st_messages S)))"
  proof (cases "find_default_for_thread (th_id t) (vs_branches S)")
    case None
    then have "make_default_branch tx now ids (th_id t) S = Inr (b, S1)" using S1 by simp
    from good_make_default [OF ok this] show ?thesis by simp
  next
    case (Some d)
    then have "b = d" "S1 = S" using S1 by simp_all
    then show ?thesis using find_default_mem [OF Some] good_refl [OF ok] Some
      by (auto intro: exI [of _ "\<lambda>m. m"])
  qed
  have ok1: "versions_ok S1" using 1 by (simp add: good_def)
  have b: "branch_in (vs_branches S1) (th_id t) (Some (br_id b))" using 1 by (auto simp: branch_in_def)
  have leaf: "leaf_in (st_messages S1) (th_id t) (br_current_leaf_message_id b)"
    using versions_okD(3) [OF ok1, of b] 1 by simp
  have "good S1 S'" using good_point [OF ok1 leaf b] good_refl [OF ok1] by (simp add: S')
  with 1 show "good S S'" using good_trans by blast
  show "br_thread_id b = th_id t" "b \<in> set (vs_branches S')" "vs_checkpoints S' = vs_checkpoints S"
    "\<exists>g. st_messages S' = map g (st_messages S) \<and> (\<forall>m. core (g m) = core m)" using 1 by (simp_all add: S')
  show "\<exists>t'. get_thread_by_id (th_id t) (st_threads S') = Some t' \<and> th_active_branch_id t' \<noteq> None"
    using 1 t by (simp add: S' get_thread_point point_thread_def)
  show "get_thread_by_id (th_id t) (st_threads S') = Some t" if "th_active_branch_id t \<noteq> None"
    using that 1 t by (auto simp: S')
  show "current_leaf (th_id t) S' = map_option ms_id (last_message_for_thread (th_id t) None (st_messages S))"
    if "th_active_branch_id t = None" "find_default_for_thread (th_id t) (vs_branches S) = None"
    using that 1 t by (simp add: S' current_leaf_def get_thread_point point_thread_def)
qed


lemma good_auto_checkpoint:
  assumes ok: "versions_ok S" and new: "create_auto_checkpoint tx now ids t b m S = Inr (c, S')"
    and ptr: "leaf_in (st_messages S) (th_id t) (Some (ms_id m))" "branch_in (vs_branches S) (th_id t) (Some (br_id b))"
  shows "good S S'" "st_messages S' = st_messages S" "st_threads S' = st_threads S" "vs_branches S' = vs_branches S"
proof -
  let ?own = "filter (\<lambda>c. ck_thread_id c = th_id t \<and> ck_message_id c = Some (ms_id m) \<and> ck_checkpoint_type c = ''auto'')
             (vs_checkpoints S)"
  have "good S S' \<and> st_messages S' = st_messages S \<and> st_threads S' = st_threads S \<and> vs_branches S' = vs_branches S"
  proof (cases "?own = []")
    case True
    then obtain ttl state metadata C where
      c: "checkpoint_create now (vi_checkpoint ids) (th_id t) (Some (br_id b)) (Some (ms_id m)) ''auto'' ttl state metadata
            (vs_checkpoints S) = Inr (c, C)" and S': "S' = S\<lparr>vs_checkpoints := C\<rparr>"
      using new by (auto simp: create_auto_checkpoint_def rbind_def split: sum.splits)
    then show ?thesis using good_new_checkpoint(1) [OF ok c ptr] by simp
  next
    case False
    then obtain d ds where "?own = d # ds" by (cases ?own) simp_all
    then have "S' = S" using new by (cases ds) (simp_all add: create_auto_checkpoint_def)
    then show ?thesis using good_refl [OF ok] by simp
  qed
  then show "good S S'" "st_messages S' = st_messages S" "st_threads S' = st_threads S" "vs_branches S' = vs_branches S" by simp_all
qed

lemma active_branch_in:
  assumes ok: "versions_ok S" and b: "b \<in> set (vs_branches S)" "br_thread_id b = t"
  shows "active_branch t b S \<in> set (vs_branches S) \<and> br_thread_id (active_branch t b S) = t"
proof (cases "get_thread_by_id t (st_threads S)")
  case (Some r)
  then have r: "r \<in> set (st_threads S)" "th_id r = t" by (auto dest: get_threadD)
  show ?thesis
  proof (cases "get_branch (th_active_branch_id r) (vs_branches S)")
    case (Some a)
    then obtain k where k: "th_active_branch_id r = Some k" "a \<in> set (vs_branches S)" "br_id a = k"
      by (auto simp: get_branch_def split: option.splits dest: tbl_get_Some)
    obtain a' where a': "a' \<in> set (vs_branches S)" "br_id a' = k" "br_thread_id a' = t"
      using versions_okD(2) [OF ok r(1)] k(1) r(2) by (auto simp: branch_in_def)
    have "a' = a" using branch_unique [OF ok a'(1) k(2)] k(3) a'(2) by simp
    then show ?thesis using Some k a' \<open>get_thread_by_id t (st_threads S) = Some r\<close> by (simp add: active_branch_def)
  next
    case None
    then show ?thesis using b \<open>get_thread_by_id t (st_threads S) = Some r\<close> by (simp add: active_branch_def)
  qed
qed (use b in \<open>simp add: active_branch_def get_branch_def\<close>)

lemma current_leaf_in: "versions_ok S \<Longrightarrow> leaf_in (st_messages S) t (current_leaf t S)"
  using versions_okD(1) [of S] get_threadD by (fastforce simp: current_leaf_def leaf_in_def split: option.splits)

text \<open>Setting the parent of the newest message.\<close>

lemma versions_ok_attached:
  assumes ok: "versions_ok S" and M: "st_messages S = X @ [m]" and leaf: "leaf_in (X @ [m]) t leaf"
  shows "versions_ok (S\<lparr>st_messages := X @ [attached b leaf m]\<rparr>)"
proof -
  let ?m = "attached b leaf m"
  have id: "ms_id ?m = ms_id m" "ms_message_id ?m = ms_message_id m" "ms_thread_id ?m = ms_thread_id m"
    by (simp_all add: attached_def)
  have d: "descends (m # rev X)" using ok M by (simp add: versions_ok_def)
  have "descends (?m # rev X)"
  proof (cases "ms_parent_message_id m = None \<and> leaf \<noteq> Some (ms_id m)")
    case True
    then have "ms_parent_message_id ?m = leaf" by (simp add: attached_def)
    moreover have "case leaf of None \<Rightarrow> True | Some k \<Rightarrow> k \<in> ms_id ` set X"
      using leaf True by (auto simp: leaf_in_def split: option.splits)
    ultimately show ?thesis using d id by (cases leaf) simp_all
  next
    case False
    then have "ms_parent_message_id ?m = ms_parent_message_id m" by (auto simp: attached_def)
    then show ?thesis using d id by simp
  qed
  moreover have "unique_rows ms_clash (X @ [?m])"
    using ok M id by (simp add: versions_ok_def sorted_wrt_append ms_clash_def)
  moreover have "leaf_in (X @ [?m]) u l = leaf_in (X @ [m]) u l" for u l
    using id by (simp add: leaf_in_def split: option.split)
  ultimately show ?thesis using ok M by (simp add: versions_ok_def pointers_ok_def)
qed

lemma tbl_upd_last:
  "ms_id m \<notin> ms_id ` set X \<Longrightarrow> tbl_upd ms_id (ms_id m) f (X @ [m]) = X @ [f m]"
proof -
  assume n: "ms_id m \<notin> ms_id ` set X"
  have "map (\<lambda>r. if ms_id r = ms_id m then f r else r) X = X" by (rule map_idI) (use n in \<open>metis imageI\<close>)
  then show ?thesis by (simp add: tbl_upd_def)
qed

lemma rbind_Inr: "rbind x f = Inr y \<longleftrightarrow> (\<exists>a. x = Inr a \<and> f a = Inr y)"
  by (cases x) (simp_all add: rbind_def)

text \<open>Moving a branch and its thread to a message of the thread, and recording the automatic
  checkpoint: the end of attaching and of editing.\<close>

lemma good_advance:
  assumes ok: "versions_ok S" and a: "a \<in> set (vs_branches S)" "br_thread_id a = th_id t"
    and m: "leaf_in (st_messages S) (th_id t) (Some (ms_id m))"
    and t: "get_thread_by_id (th_id t) (st_threads S) \<noteq> None"
    and c: "create_auto_checkpoint tx now ids t a' m
        (point now (th_id t) (Some (br_id a)) (Some (ms_id m)) (set_leaf (br_id a) (Some (ms_id m)) S)) = Inr (c, S')"
    and a': "br_id a' = br_id a"
  shows "good S S'" "st_messages S' = st_messages S" "current_leaf (th_id t) S' = Some (ms_id m)"
    "\<And>i. i \<noteq> th_id t \<Longrightarrow> current_leaf i S' = current_leaf i S"
proof -
  let ?k = "Some (ms_id m)" let ?S = "set_leaf (br_id a) ?k S"
  let ?P = "point now (th_id t) (Some (br_id a)) ?k ?S"
  have "br_thread_id x = th_id t" if "x \<in> set (vs_branches S)" "br_id x = br_id a" for x
    using branch_unique [OF ok, of x a] that a by simp
  then have g1: "good S ?S" by (intro good_set_leaf [OF ok]) (use m in simp)
  have ok1: "versions_ok ?S" using g1 by (simp add: good_def)
  have "branch_in (vs_branches S) (th_id t) (Some (br_id a))" using a by (auto simp: branch_in_def)
  from branch_in_names [OF _ this] have bi: "branch_in (vs_branches ?S) (th_id t) (Some (br_id a))"
    using g1 by (simp add: good_def extends_def)
  have g2: "good ?S ?P" by (rule good_point [OF ok1 _ bi]) (use m in simp)
  have ok2: "versions_ok ?P" using g2 by (simp add: good_def)
  note g3 = good_auto_checkpoint [OF ok2 c]
  have ptr: "leaf_in (st_messages ?P) (th_id t) ?k" "branch_in (vs_branches ?P) (th_id t) (Some (br_id a'))"
    using m bi a' by simp_all
  show "good S S'" using g1 g2 g3(1) [OF ptr] good_trans by blast
  show "st_messages S' = st_messages S" using g3(2) [OF ptr] by simp
  show "current_leaf (th_id t) S' = ?k"
    using t by (auto simp: current_leaf_def g3(3) [OF ptr] get_thread_point point_thread_def)
  show "current_leaf i S' = current_leaf i S" if "i \<noteq> th_id t" for i
    using that by (cases "get_thread_by_id i (st_threads S)") (simp_all add: current_leaf_def g3(3) [OF ptr] get_thread_point)
qed

text \<open>The effect of attaching the newest message of the table.\<close>

lemma attach_newest:
  assumes ok: "versions_ok S" and M: "st_messages S = M @ [m]"
    and at: "attach_message_to_active_branch tx now ids (ms_thread_id m) (ms_id m) S = Inr (r, S')"
    and t: "get_thread_by_id (ms_thread_id m) (st_threads S) = Some t"
  shows "\<exists>m1 X l. versions_ok S' \<and> st_messages S' = X @ [m1] \<and> map core X = map core M
    \<and> ms_id m1 = ms_id m \<and> ms_thread_id m1 = ms_thread_id m
    \<and> core m1 = core (m\<lparr>ms_parent_message_id := ms_parent_message_id m1\<rparr>)
    \<and> ms_parent_message_id m1 = (if ms_parent_message_id m = None \<and> l \<noteq> Some (ms_id m) then l else ms_parent_message_id m)
    \<and> prefix (map thread_names (st_threads S)) (map thread_names (st_threads S'))
    \<and> prefix (map branch_names (vs_branches S)) (map branch_names (vs_branches S'))
    \<and> prefix (vs_checkpoints S) (vs_checkpoints S')
    \<and> r = Some m1 \<and> current_leaf (ms_thread_id m) S' = Some (ms_id m)
    \<and> (th_active_branch_id t \<noteq> None \<longrightarrow> l = th_current_leaf_message_id t)
    \<and> (th_active_branch_id t = None \<and> find_default_for_thread (ms_thread_id m) (vs_branches S) = None \<longrightarrow>
       l = map_option ms_id (last_message_for_thread (ms_thread_id m) None (M @ [m])))"
proof -
  let ?i = "ms_thread_id m"
  have ti: "th_id t = ?i" using get_threadD [OF t] by simp
  have nid: "ms_id m \<notin> ms_id ` set M" using ok M by (simp add: versions_ok_def)
  have got: "get_message_by_id (ms_id m) (st_messages S) = Some m"
    unfolding get_message_by_id_def by (rule ms.get_mem) (use ok M in \<open>simp_all add: versions_ok_def\<close>)
  obtain b S1 where en: "ensure_default_branch_in_session tx now ids t S = Inr (b, S1)"
    using at t got by (auto simp: attach_message_to_active_branch_def rbind_def split: sum.splits)
  have t': "get_thread_by_id (th_id t) (st_threads S) = Some t" using t ti by simp
  note e = good_ensure [OF ok t' en, unfolded ti]
  have ok1: "versions_ok S1" and ext1: "extends S S1" using e(1) by (simp_all add: good_def)
  obtain g where g: "st_messages S1 = map g M @ [g m]" "\<And>x. core (g x) = core x" using e(5) M by auto
  define a l where "a = active_branch ?i b S1" and "l = current_leaf ?i S1"
  define m1 where "m1 = attached (br_id a) l (g m)"
  have a: "a \<in> set (vs_branches S1)" "br_thread_id a = ?i" using active_branch_in [OF ok1 e(3,2)] by (simp_all add: a_def)
  have gm: "ms_id (g m) = ms_id m" "ms_thread_id (g m) = ?i" "ms_parent_message_id (g m) = ms_parent_message_id m"
    using core_eq [OF g(2)] by simp_all
  have "map core (map g M) = map core M" using g(2) by simp
  from arg_cong [OF core_ids [OF this], of set] have nid1: "ms_id (g m) \<notin> ms_id ` set (map g M)"
    using nid gm(1) by (simp add: image_image)
  define S2 where "S2 = S1\<lparr>st_messages := map g M @ [m1]\<rparr>"
  have m1: "ms_id m1 = ms_id m" "ms_thread_id m1 = ?i"
    "ms_parent_message_id m1 = (if ms_parent_message_id m = None \<and> l \<noteq> Some (ms_id m) then l else ms_parent_message_id m)"
    "core m1 = (core (g m))\<lparr>ms_parent_message_id := ms_parent_message_id m1\<rparr>"
    using gm by (simp_all add: m1_def attached_def core_def)
  have S2_msgs: "st_messages S2 = map g M @ [m1]" by (simp add: S2_def)
  have ok2: "versions_ok S2" unfolding S2_def m1_def
    by (rule versions_ok_attached [OF ok1 g(1), where t = ?i]) (use current_leaf_in [OF ok1, of ?i] g(1) in \<open>simp add: l_def\<close>)
  have upd: "tbl_upd ms_id (ms_id m) (attached (br_id a) l) (st_messages S1) = map g M @ [m1]"
    using tbl_upd_last [OF nid1] gm(1) by (simp add: g(1) m1_def)
  have u2: "unique_rows ms_clash (map g M @ [m1])" using ok2 by (simp add: versions_ok_def S2_def)
  have got2: "get_message_by_id (ms_id m) (map g M @ [m1]) = Some m1"
    using ms.get_mem [OF u2, of m1] m1(1) unfolding get_message_by_id_def by simp
  let ?S = "point now (th_id t) (Some (br_id a)) (Some (ms_id m1)) (set_leaf (br_id a) (Some (ms_id m1)) S2)"
  have "rbind (create_auto_checkpoint tx now ids t a m1 ?S) (\<lambda>(c, S3). Inr (Some m1, S3)) = Inr (r, S')"
    using at by (simp add: attach_message_to_active_branch_def t got en rbind_def Let_def
        a_def [symmetric] l_def [symmetric] upd S2_def [symmetric] S2_msgs got2 m1(1) ti)
  then obtain c where c: "create_auto_checkpoint tx now ids t a m1 ?S = Inr (c, S')" and r: "r = Some m1"
    by (auto simp: rbind_Inr)
  have leaf: "leaf_in (st_messages S2) (th_id t) (Some (ms_id m1))" using m1(2) ti by (simp add: S2_def leaf_in_def)
  have some: "get_thread_by_id (th_id t) (st_threads S2) \<noteq> None" using e(6) ti by (auto simp: S2_def)
  note adv = good_advance [OF ok2 _ _ leaf some c refl]
  have a2: "a \<in> set (vs_branches S2)" "br_thread_id a = th_id t" using a ti by (simp_all add: S2_def)
  have pre: "prefix (map thread_names (st_threads S)) (map thread_names (st_threads S'))"
      "prefix (map branch_names (vs_branches S)) (map branch_names (vs_branches S'))"
      "prefix (vs_checkpoints S) (vs_checkpoints S')"
    using ext1 adv(1) [OF a2] prefix_order.trans unfolding good_def extends_def S2_def by auto
  have ok': "versions_ok S'" using adv(1) [OF a2] by (simp add: good_def)
  have M': "st_messages S' = map g M @ [m1]" using adv(2) [OF a2] by (simp add: S2_def)
  have cm: "core m1 = core (m\<lparr>ms_parent_message_id := ms_parent_message_id m1\<rparr>)" using m1(4) g(2) by (simp add: core_def)
  have leaf': "current_leaf ?i S' = Some (ms_id m)" using adv(3) [OF a2] m1(1) ti by simp
  have l1: "th_active_branch_id t \<noteq> None \<longrightarrow> l = th_current_leaf_message_id t"
    using e(7) by (auto simp: l_def current_leaf_def)
  have l2: "th_active_branch_id t = None \<and> find_default_for_thread ?i (vs_branches S) = None \<longrightarrow>
      l = map_option ms_id (last_message_for_thread ?i None (M @ [m]))"
    using e(8) M by (simp add: l_def)
  show ?thesis
    by (intro exI conjI) (rule ok' M' \<open>map core (map g M) = map core M\<close> m1(1,2) cm m1(3) pre r leaf' l1 l2)+
qed

lemma pending_names: "thread_names (pending_title_row now now_iso i t) = thread_names t
    \<and> th_current_leaf_message_id (pending_title_row now now_iso i t) = th_current_leaf_message_id t
    \<and> th_active_branch_id (pending_title_row now now_iso i t) = th_active_branch_id t
    \<and> th_id (pending_title_row now now_iso i t) = th_id t"
  by (simp add: pending_title_row_def touch_def thread_names_def)

text \<open>Storing a message: one new row, and threads that keep their names and pointers.\<close>

lemma create_message_effect:
  assumes ok: "versions_ok S"
    and cr: "create_message now now_iso i token request (message_store.truncate S) = Inr (m, B)"
    and new: "ms_parent_message_id request = None"
  shows "st_messages B = st_messages S @ [m]" "ms_parent_message_id m = None" "ms_thread_id m = ms_thread_id request"
    "ms_branch_id m = ms_branch_id request" "ms_content m = ms_content request"
    "\<exists>h. st_threads B = map h (st_threads S) \<and> (\<forall>t. thread_names (h t) = thread_names t \<and> th_id (h t) = th_id t
       \<and> th_current_leaf_message_id (h t) = th_current_leaf_message_id t \<and> th_active_branch_id (h t) = th_active_branch_id t)"
    "versions_ok (S\<lparr>st_messages := st_messages B, st_threads := st_threads B\<rparr>)"
proof -
  have u: "unique_rows ms_clash (st_messages S)" using ok by (simp add: versions_ok_def)
  obtain M where ins: "message_create now i (request\<lparr>ms_message_id := ''msg_'' @ token\<rparr>) (st_messages S) = Inr (m, M)"
    and B: "B = maybe_mark_auto_title_pending now now_iso m ((message_store.truncate S)\<lparr>st_messages := M\<rparr>)"
    using cr by (auto simp: create_message_def rbind_def message_store.defs split: sum.splits)
  note i = ms.insert_ok [OF ins [unfolded message_create_def] u]
  have m: "M = st_messages S @ [m]" "ms_parent_message_id m = None" "ms_thread_id m = ms_thread_id request"
    "ms_branch_id m = ms_branch_id request" "ms_content m = ms_content request" and um: "unique_rows ms_clash M"
    using i new by auto
  then show "ms_parent_message_id m = None" "ms_thread_id m = ms_thread_id request" "ms_branch_id m = ms_branch_id request"
    "ms_content m = ms_content request" by simp_all
  show B1: "st_messages B = st_messages S @ [m]" using m(1) by (simp add: B maybe_mark_auto_title_pending_def message_store.defs)
  have "st_threads B = st_threads S \<or>
      st_threads B = map (\<lambda>t. if th_id t = ms_thread_id m then pending_title_row now now_iso (ms_message_id m) t else t) (st_threads S)"
    by (simp add: B maybe_mark_auto_title_pending_def message_store.defs tbl_upd_def)
  then show ex: "\<exists>h. st_threads B = map h (st_threads S) \<and> (\<forall>t. thread_names (h t) = thread_names t \<and> th_id (h t) = th_id t
       \<and> th_current_leaf_message_id (h t) = th_current_leaf_message_id t \<and> th_active_branch_id (h t) = th_active_branch_id t)"
  proof
    assume "st_threads B = st_threads S"
    then show ?thesis by (intro exI [of _ "\<lambda>t. t"]) simp
  next
    let ?h = "\<lambda>t. if th_id t = ms_thread_id m then pending_title_row now now_iso (ms_message_id m) t else t"
    assume "st_threads B = map ?h (st_threads S)"
    then show ?thesis by (intro exI [of _ ?h]) (simp add: pending_names)
  qed
  then obtain h where h: "st_threads B = map h (st_threads S)"
    "\<And>t. thread_names (h t) = thread_names t \<and> th_id (h t) = th_id t
       \<and> th_current_leaf_message_id (h t) = th_current_leaf_message_id t \<and> th_active_branch_id (h t) = th_active_branch_id t" by blast
  have "good S (S\<lparr>st_messages := st_messages S @ [m]\<rparr>)"
    by (rule good_append [OF ok um [unfolded m(1)], of "ms_thread_id m"]) (simp add: m(2) leaf_in_def)
  then have ok1: "versions_ok (S\<lparr>st_messages := st_messages B\<rparr>)" by (simp add: good_def B1)
  have "good (S\<lparr>st_messages := st_messages B\<rparr>) (S\<lparr>st_messages := st_messages B, st_threads := st_threads B\<rparr>)"
  proof (rule good_threads [OF ok1])
    show "map thread_names (st_threads B) = map thread_names (st_threads (S\<lparr>st_messages := st_messages B\<rparr>))"
      using h by (simp add: comp_def)
  next
    fix t assume "t \<in> set (st_threads B)"
    then obtain x where x: "x \<in> set (st_threads (S\<lparr>st_messages := st_messages B\<rparr>))" "t = h x" using h(1) by auto
    then show "t \<in> set (st_threads (S\<lparr>st_messages := st_messages B\<rparr>)) \<or>
        leaf_in (st_messages (S\<lparr>st_messages := st_messages B\<rparr>)) (th_id t) (th_current_leaf_message_id t) \<and>
        branch_in (vs_branches (S\<lparr>st_messages := st_messages B\<rparr>)) (th_id t) (th_active_branch_id t)"
      using versions_okD(1,2) [OF ok1 x(1)] h(2) [of x] by simp
  qed
  then show "versions_ok (S\<lparr>st_messages := st_messages B, st_threads := st_threads B\<rparr>)" by (simp add: good_def)
qed

lemma good_persist:
  assumes ok: "versions_ok S" and p: "persist_message tx now now_iso ids request S = Inr (r, S')"
    and new: "ms_parent_message_id request = None"
  shows "good S S'"
proof -
  obtain m B where cr: "create_message now now_iso (fst (vi_message ids)) (snd (vi_message ids)) request (message_store.truncate S) = Inr (m, B)"
    and at: "attach_message_to_active_branch tx now ids (ms_thread_id m) (ms_id m)
        (S\<lparr>st_messages := st_messages B, st_threads := st_threads B\<rparr>) = Inr (r, S')"
    using p by (auto simp: persist_message_def rbind_def split: sum.splits)
  let ?S = "S\<lparr>st_messages := st_messages B, st_threads := st_threads B\<rparr>"
  note c = create_message_effect [OF ok cr new]
  obtain h where h: "st_threads B = map h (st_threads S)" "\<And>t. thread_names (h t) = thread_names t" using c(6) by blast
  have names: "map thread_names (st_threads ?S) = map thread_names (st_threads S)" using h by (simp add: comp_def)
  have M: "st_messages ?S = st_messages S @ [m]" using c(1) by simp
  show ?thesis
  proof (cases "get_thread_by_id (ms_thread_id m) (st_threads ?S)")
    case None
    then have "S' = ?S" using at by (simp add: attach_message_to_active_branch_def)
    moreover have "extends S ?S" using M names by (simp add: extends_def)
    ultimately show ?thesis using c(7) by (simp add: good_def)
  next
    case (Some t)
    obtain m1 X where "versions_ok S'" "st_messages S' = X @ [m1]" "map core X = map core (st_messages S)"
      "prefix (map thread_names (st_threads ?S)) (map thread_names (st_threads S'))"
      "prefix (map branch_names (vs_branches ?S)) (map branch_names (vs_branches S'))"
      "prefix (vs_checkpoints ?S) (vs_checkpoints S')"
      using attach_newest [OF c(7) M at Some] by metis
    then show ?thesis unfolding good_def extends_def names by simp
  qed
qed


lemma parent_known:
  assumes ok: "versions_ok S" and m: "m \<in> set (st_messages S)"
  shows "case ms_parent_message_id m of None \<Rightarrow> True | Some k \<Rightarrow> \<exists>x \<in> set (st_messages S). ms_id x = k"
proof -
  have "descends R \<Longrightarrow> m \<in> set R \<Longrightarrow> case ms_parent_message_id m of None \<Rightarrow> True | Some k \<Rightarrow> \<exists>x \<in> set R. ms_id x = k" for R
    by (induction R) (auto split: option.splits)
  from this [of "rev (st_messages S)", unfolded set_rev] show ?thesis using assms by (simp add: versions_ok_def)
qed

lemma ensure_other_threads:
  assumes en: "ensure_default_branch_in_session tx now ids t S = Inr (b, S')" and i: "i \<noteq> th_id t"
  shows "get_thread_by_id i (st_threads S') = get_thread_by_id i (st_threads S)"
proof -
  obtain S1 where S1: "(case find_default_for_thread (th_id t) (vs_branches S) of Some b \<Rightarrow> Inr (b, S)
        | None \<Rightarrow> make_default_branch tx now ids (th_id t) S) = Inr (b, S1)"
    and S': "S' = (if th_active_branch_id t = None
          then point now (th_id t) (Some (br_id b)) (br_current_leaf_message_id b) S1 else S1)"
    using en by (auto simp: ensure_default_branch_in_session_def rbind_def split: sum.splits)
  have "st_threads S1 = st_threads S"
    using S1 by (auto simp: make_default_branch_def rbind_def split: option.splits sum.splits)
  then show ?thesis using i by (simp add: S' get_thread_point option.map_ident)
qed

lemma core_append_cases:
  assumes "map core X = map core M" and "get_message_by_id k M = Some m" and "distinct (map ms_id M)"
  obtains x where "get_message_by_id k X = Some x" "core x = core m"
proof -
  have m: "m \<in> set M" "ms_id m = k" using assms(2) by (auto simp: get_message_by_id_def dest: tbl_get_Some)
  have "core m \<in> set (map core X)" using m(1) unfolding assms(1) by simp
  then obtain x where x: "x \<in> set X" "core x = core m" by auto
  have "distinct (map ms_id X)" using assms(3) core_ids [OF assms(1)] by simp
  then have "get_message_by_id k X = Some x"
    using tbl_get_unique [of ms_id X x] x core_eq [OF x(2)] m(2) by (simp add: get_message_by_id_def)
  then show ?thesis using x(2) by (rule that)
qed

text \<open>The effect of editing a message.\<close>

lemma edit_effect:
  assumes ok: "versions_ok S" and ed: "edit_retry tx now ids rq S = Inr (Some (b', e, status), S')"
  obtains m0 X where "get_by_message_id (er_message_id rq) (st_messages S) = Some m0" "good S S'"
    "st_messages S' = X @ [e]" "map core X = map core (st_messages S)"
    "ms_parent_message_id e = ms_parent_message_id m0" "ms_thread_id e = ms_thread_id m0"
    "ms_content e = er_new_content rq" "ms_role e = ''user''"
    "current_leaf (ms_thread_id m0) S' = Some (ms_id e)"
    "\<And>i. i \<noteq> ms_thread_id m0 \<Longrightarrow> current_leaf i S' = current_leaf i S"
proof -
  obtain m0 where m0: "get_by_message_id (er_message_id rq) (st_messages S) = Some m0" "ms_role m0 = ''user''"
    using ed by (auto simp: edit_retry_def split: option.splits if_splits)
  let ?i = "ms_thread_id m0"
  have mem0: "m0 \<in> set (st_messages S)" using m0(1) by (auto simp: get_by_message_id_def dest: tbl_get_Some)
  obtain t where t: "get_thread_by_id ?i (st_threads S) = Some t"
    using ed m0 by (auto simp: edit_retry_def split: option.splits)
  have ti: "th_id t = ?i" using get_threadD [OF t] by simp
  obtain d S1 where en: "ensure_default_branch_in_session tx now ids t S = Inr (d, S1)"
    using ed m0 t by (auto simp: edit_retry_def rbind_def split: sum.splits)
  have t': "get_thread_by_id (th_id t) (st_threads S) = Some t" using t ti by simp
  note en_facts = good_ensure [OF ok t' en, unfolded ti]
  have ok1: "versions_ok S1" using en_facts(1) by (simp add: good_def)
  obtain g where g: "st_messages S1 = map g (st_messages S)" "\<And>x. core (g x) = core x" using en_facts(5) by blast
  have core1: "map core (st_messages S1) = map core (st_messages S)" using g by simp
  have u: "distinct (map ms_id (st_messages S))" using ok ms.unique_keys by (simp add: versions_ok_def)
  have "get_message_by_id (ms_id m0) (st_messages S) = Some m0"
    unfolding get_message_by_id_def by (rule tbl_get_unique [OF u mem0])
  from core_append_cases [OF core1 this u] obtain m where m: "get_message_by_id (ms_id m0) (st_messages S1) = Some m" "core m = core m0" .
  have mm: "ms_parent_message_id m = ms_parent_message_id m0" "ms_thread_id m = ?i" "ms_role m = ''user''"
    using m0(2) core_eq [OF m(2)] arg_cong [OF m(2), of ms_role] by simp_all
  let ?n = "length (filter (\<lambda>r. ms_revision_of_message_id r = Some (ms_id m)) (st_messages S1))"
  obtain b B where b: "branch_create now (vi_branch ids) (th_id t) (ms_branch_id m) (ms_parent_message_id m) None
           (or_str (strip (er_title rq)) (vt_edit_retry tx @ last8 (ms_message_id m)))
           (Some [(''edit_retry_of_message_id'', PStr (ms_message_id m))]) (vs_branches S1) = Inr (b, B)"
    using ed m0 t m(1) by (auto simp: edit_retry_def en rbind_def Let_def split: sum.splits)
  obtain e0 M1 where e0: "message_create now (fst (vi_message ids))
           (edited_message rq (fallback_session rq (th_id t) S) (snd (vi_message ids)) m) (st_messages S1) = Inr (e0, M1)"
    using ed m0 t m(1) b by (auto simp: edit_retry_def en rbind_def Let_def split: sum.splits)
  define e1 where "e1 = e0\<lparr>ms_parent_message_id := ms_parent_message_id m, ms_branch_id := Some (br_id b),
       ms_revision_of_message_id := Some (ms_id m), ms_variant_index := int ?n + 1\<rparr>"
  define S2 where "S2 = S1\<lparr>vs_branches := B, st_messages := tbl_upd ms_id (ms_id e0) (\<lambda>_. e1) M1\<rparr>"
  have e1_id: "ms_id e1 = ms_id e0" by (simp add: e1_def)
  let ?S = "point now (th_id t) (Some (br_id b)) (Some (ms_id e1)) (set_leaf (br_id b) (Some (ms_id e1)) S2)"
  have "rbind (create_auto_checkpoint tx now ids t b e1 ?S) (\<lambda>(c, S4).
      Inr (Some (b\<lparr>br_current_leaf_message_id := Some (ms_id e0)\<rparr>, e1, ''branch_created''), S4)) = Inr (Some (b', e, status), S')"
    using ed by (simp only: edit_retry_def m0 t en m(1) b e0 option.case rbind_def sum.case prod.case Let_def simp_thms if_False
        e1_def [symmetric] S2_def [symmetric] e1_id)
  then obtain c where c: "create_auto_checkpoint tx now ids t b e1 ?S = Inr (c, S')" and e: "e = e1"
    unfolding rbind_Inr by (elim exE conjE) (simp split: prod.splits)
  have u1: "unique_rows ms_clash (st_messages S1)" using ok1 by (simp add: versions_ok_def)
  note i = ms.insert_ok [OF e0 [unfolded message_create_def] u1]
  have M1: "M1 = st_messages S1 @ [e0]" "unique_rows ms_clash (st_messages S1 @ [e0])" "ms_thread_id e0 = ?i"
    "ms_content e0 = er_new_content rq" "ms_role e0 = ''user''"
    using i mm by (auto simp: edited_message_def)
  have nid: "ms_id e0 \<notin> ms_id ` set (st_messages S1)" using ms.unique_keys [OF M1(2)] by auto
  have upd: "tbl_upd ms_id (ms_id e0) (\<lambda>_. e1) M1 = st_messages S1 @ [e1]" unfolding M1(1) by (rule tbl_upd_last [OF nid])
  have e1: "ms_id e1 = ms_id e0" "ms_message_id e1 = ms_message_id e0" "ms_thread_id e1 = ?i" "ms_parent_message_id e1 = ms_parent_message_id m"
    "ms_content e1 = er_new_content rq" "ms_role e1 = ''user''"
    using M1 by (simp_all add: e1_def)
  have ue: "unique_rows ms_clash (st_messages S1 @ [e1])" using M1(2) e1 by (simp add: sorted_wrt_append ms_clash_def)
  have p: "leaf_in (st_messages S1) ?i None" by (simp add: leaf_in_def)
  note nb = good_new_branch [OF ok1 b, unfolded ti, OF p]
  have okb: "versions_ok (S1\<lparr>vs_branches := B\<rparr>)" using nb(1) by (simp add: good_def)
  have "case ms_parent_message_id m of None \<Rightarrow> True | Some k \<Rightarrow> \<exists>x \<in> set (st_messages S1). ms_id x = k"
    using parent_known [of S1 m] ok1 m(1) by (auto simp: get_message_by_id_def dest: tbl_get_Some)
  then obtain u' where pm: "leaf_in (st_messages S1) u' (ms_parent_message_id m)"
    by (cases "ms_parent_message_id m") (auto simp: leaf_in_def)
  have g2: "good (S1\<lparr>vs_branches := B\<rparr>) S2"
    using good_append [OF okb, of e1 u'] ue pm e1(4) by (simp add: S2_def upd)
  have ok2: "versions_ok S2" using g2 by (simp add: good_def)
  have leaf2: "leaf_in (st_messages S2) (th_id t) (Some (ms_id e1))" using e1(3) ti by (simp add: S2_def upd leaf_in_def)
  have thr: "st_threads S2 = st_threads S1" by (simp add: S2_def)
  have some: "get_thread_by_id (th_id t) (st_threads S2) \<noteq> None" using en_facts(6) ti thr by auto
  have b2: "b \<in> set (vs_branches S2)" "br_thread_id b = th_id t" using nb(2,4) ti by (simp_all add: S2_def)
  note adv = good_advance [OF ok2 b2 leaf2 some c refl]
  show ?thesis
  proof (rule that [of m0 "st_messages S1"])
    show "good S S'" using en_facts(1) nb(1) g2 adv(1) good_trans by blast
    show "st_messages S' = st_messages S1 @ [e]" using adv(2) by (simp add: S2_def upd e)
    show "current_leaf ?i S' = Some (ms_id e)" using adv(3) e ti by simp
    show "current_leaf i S' = current_leaf i S" if "i \<noteq> ?i" for i
      using adv(4) [of i] that ensure_other_threads [OF en, of i] ti by (simp add: current_leaf_def thr)
  qed (use m0 core1 e e1 mm in simp_all)
qed


lemma get_own_thread:
  assumes ok: "versions_ok S" and "get_any_by_thread_id n (st_threads S) = Some t"
  shows "get_thread_by_id (th_id t) (st_threads S) = Some t"
  unfolding get_thread_by_id_def using th.get_mem [of "st_threads S" t] get_thread_nameD [OF assms(2)] ok
  by (simp add: versions_ok_def)

text \<open>Creating a checkpoint adds it, for the leaf of the thread.\<close>

lemma create_checkpoint_effect:
  assumes ok: "versions_ok S" and cr: "create_checkpoint tx now ids thread_id title ct metadata S = Inr (r, S')"
    and t: "get_any_by_thread_id thread_id (st_threads S) = Some t"
  obtains c where "good S S'" "r = Some c" "c \<in> set (vs_checkpoints S')" "ck_thread_id c = th_id t"
    "th_active_branch_id t \<noteq> None \<Longrightarrow> th_current_leaf_message_id t \<noteq> None \<Longrightarrow> ck_message_id c = th_current_leaf_message_id t"
proof -
  obtain b S1 where en: "ensure_default_branch_in_session tx now ids t S = Inr (b, S1)"
    using cr t by (auto simp: create_checkpoint_def rbind_def split: sum.splits)
  note e = good_ensure [OF ok get_own_thread [OF ok t] en]
  have ok1: "versions_ok S1" using e(1) by (simp add: good_def)
  let ?a = "active_branch (th_id t) b S1"
  let ?leaf = "case current_leaf (th_id t) S1 of Some k \<Rightarrow> Some k | None \<Rightarrow> br_current_leaf_message_id ?a"
  obtain state c C where c: "checkpoint_create now (vi_checkpoint ids) (th_id t) (Some (br_id ?a)) ?leaf ct
      (or_str (strip title) (vt_checkpoint tx)) state metadata (vs_checkpoints S1) = Inr (c, C)"
    and S': "S' = S1\<lparr>vs_checkpoints := C\<rparr>" "r = Some c"
    using cr t by (auto simp: create_checkpoint_def en rbind_def Let_def split: sum.splits)
  have a: "?a \<in> set (vs_branches S1)" "br_thread_id ?a = th_id t" using active_branch_in [OF ok1 e(3,2)] by simp_all
  have leaf: "leaf_in (st_messages S1) (th_id t) ?leaf"
    using current_leaf_in [OF ok1, of "th_id t"] versions_okD(3) [OF ok1 a(1)] a(2) by (cases "current_leaf (th_id t) S1") simp_all
  have "branch_in (vs_branches S1) (th_id t) (Some (br_id ?a))" using a by (auto simp: branch_in_def)
  note new = good_new_checkpoint [OF ok1 c leaf this]
  show ?thesis
  proof (rule that [of c])
    show "good S S'" using e(1) new(1) good_trans unfolding S' by blast
    show "ck_message_id c = th_current_leaf_message_id t"
      if "th_active_branch_id t \<noteq> None" "th_current_leaf_message_id t \<noteq> None"
      using that(2) new(3) e(7) [OF that(1)] by (auto simp: current_leaf_def)
  qed (use new S' in simp_all)
qed

lemma good_create_checkpoint:
  assumes ok: "versions_ok S" and cr: "create_checkpoint tx now ids thread_id title ct metadata S = Inr (r, S')"
  shows "good S S'"
proof (cases "get_any_by_thread_id thread_id (st_threads S)")
  case None
  then show ?thesis using cr good_refl [OF ok] by (simp add: create_checkpoint_def)
next
  case (Some t)
  from create_checkpoint_effect [OF ok cr Some] show ?thesis by blast
qed

lemma own_checkpointD:
  assumes "versions_ok S" and "own_checkpoint thread_id checkpoint_id S = Some (t, c)"
  shows "leaf_in (st_messages S) (th_id t) (ck_message_id c)" "branch_in (vs_branches S) (th_id t) (ck_branch_id c)"
proof -
  have c: "c \<in> set (vs_checkpoints S)" "ck_thread_id c = th_id t"
    using assms(2) by (auto simp: own_checkpoint_def get_by_checkpoint_id_def dest: tbl_get_Some split: option.splits if_splits)
  then show "leaf_in (st_messages S) (th_id t) (ck_message_id c)" "branch_in (vs_branches S) (th_id t) (ck_branch_id c)"
    using versions_okD(4,5) [OF assms(1) c(1)] by simp_all
qed

lemma good_restore:
  assumes ok: "versions_ok S" and re: "restore_checkpoint now thread_id checkpoint_id S = (r, S')"
  shows "good S S'"
proof (cases "own_checkpoint thread_id checkpoint_id S")
  case None
  then show ?thesis using re good_refl [OF ok] by (simp add: restore_checkpoint_def)
next
  case (Some p)
  obtain t c where p: "p = (t, c)" by (cases p)
  then have "S' = point now (th_id t) (ck_branch_id c) (ck_message_id c) S" using re Some by (simp add: restore_checkpoint_def)
  then show ?thesis using good_point [OF ok own_checkpointD [OF ok Some [unfolded p]]] by simp
qed

lemma good_checkout:
  assumes ok: "versions_ok S" and co: "checkout_checkpoint tx now ids thread_id checkpoint_id title S = Inr (r, S')"
  shows "good S S'"
proof (cases "own_checkpoint thread_id checkpoint_id S")
  case None
  then show ?thesis using co good_refl [OF ok] by (simp add: checkout_checkpoint_def)
next
  case (Some p)
  obtain t c where p: "p = (t, c)" by (cases p)
  note ptr = own_checkpointD [OF ok Some [unfolded p]]
  obtain b B where b: "branch_create now (vi_branch ids) (th_id t) (ck_branch_id c) (ck_message_id c) (ck_message_id c)
        (or_str (strip title) (vt_checkout tx @ last8 (ck_checkpoint_id c)))
        (Some [(''checkout_checkpoint_id'', PStr (ck_checkpoint_id c))]) (vs_branches S) = Inr (b, B)"
    and S': "S' = point now (th_id t) (Some (br_id b)) (ck_message_id c) (S\<lparr>vs_branches := B\<rparr>)"
    using co Some p by (auto simp: checkout_checkpoint_def rbind_def split: sum.splits)
  note nb = good_new_branch [OF ok b ptr(1)]
  have okb: "versions_ok (S\<lparr>vs_branches := B\<rparr>)" using nb(1) by (simp add: good_def)
  have "good (S\<lparr>vs_branches := B\<rparr>) S'" unfolding S'
    by (rule good_point [OF okb]) (use ptr(1) nb(6) in simp_all)
  with nb(1) show ?thesis by (rule good_trans)
qed

lemma good_activate:
  assumes ok: "versions_ok S" and ac: "activate_branch now thread_id branch_id S = (r, S')"
  shows "good S S'"
proof (cases "S' = S")
  case False
  then obtain t b where tb: "get_by_branch_id branch_id (vs_branches S) = Some b"
      and t: "get_any_by_thread_id thread_id (st_threads S) = Some t"
    using ac by (cases "get_any_by_thread_id thread_id (st_threads S)"; cases "get_by_branch_id branch_id (vs_branches S)")
      (auto simp: activate_branch_def)
  have th: "br_thread_id b = th_id t" using False ac tb t by (auto simp: activate_branch_def split: if_splits)
  then have S': "S' = point now (th_id t) (Some (br_id b)) (br_current_leaf_message_id b) S"
    using ac tb t by (simp add: activate_branch_def)
  have b: "b \<in> set (vs_branches S)" using tb by (auto simp: get_by_branch_id_def dest: tbl_get_Some)
  show ?thesis unfolding S'
    by (rule good_point [OF ok]) (use versions_okD(3) [OF ok b] b th in \<open>auto simp: branch_in_def\<close>)
qed (simp add: good_refl [OF ok])

lemma good_new_thread:
  assumes ok: "versions_ok S" and cr: "thread_create now i name prin home project title metadata (st_threads S) = Inr (t, T)"
  shows "good S (S\<lparr>st_threads := T\<rparr>)"
proof -
  have u: "unique_rows th_clash (st_threads S)" using ok by (simp add: versions_ok_def)
  obtain row where "insert_row th_clash ''threads'' row (st_threads S) = Inr (t, T)"
    "th_active_branch_id row = None" "th_current_leaf_message_id row = None"
    using cr by (auto simp: thread_create_def split: option.splits)
  with th.insert_ok [OF this(1) u] have T: "T = st_threads S @ [t]" "unique_rows th_clash T"
    "th_active_branch_id t = None" "th_current_leaf_message_id t = None" by auto
  have ext: "extends S (S\<lparr>st_threads := T\<rparr>)" using T(1) by (simp add: extends_def)
  have "pointers_ok (S\<lparr>st_threads := T\<rparr>)"
    by (rule pointers_step [OF _ ext]) (use ok T in \<open>auto simp: versions_ok_def leaf_in_def branch_in_def\<close>)
  then show ?thesis using ok ext T(2) by (simp add: good_def versions_ok_def)
qed

lemma good_thread_fields:
  assumes ok: "versions_ok S" and up: "update_fields now i upd (st_threads S) = (r, T)"
  shows "good S (S\<lparr>st_threads := T\<rparr>)"
proof -
  let ?f = "touch now (\<lambda>t. metadata_field upd (project_field upd (status_field upd (title_field upd t))))"
  have f: "thread_names (?f t) = thread_names t" "th_id (?f t) = th_id t"
    "th_current_leaf_message_id (?f t) = th_current_leaf_message_id t" "th_active_branch_id (?f t) = th_active_branch_id t" for t
    by (simp_all add: touch_def thread_names_def metadata_field_def project_field_def status_field_def title_field_def Let_def
        split: pyval.split)
  have T: "T = tbl_upd th_id i ?f (st_threads S)" using up by (simp add: update_fields_def change_thread_def)
  show ?thesis
  proof (rule good_threads [OF ok])
    show "map thread_names T = map thread_names (st_threads S)" unfolding T by (rule tbl_upd_names) (rule f)
    fix t assume "t \<in> set T"
    then have "t \<in> set (st_threads S) \<or> (\<exists>x \<in> set (st_threads S). th_id x = i \<and> t = ?f x)" unfolding T by (rule in_tbl_upd)
    then show "t \<in> set (st_threads S) \<or>
      leaf_in (st_messages S) (th_id t) (th_current_leaf_message_id t) \<and> branch_in (vs_branches S) (th_id t) (th_active_branch_id t)"
      using versions_okD(1,2) [OF ok] f(2-4) by auto
  qed
qed

lemma good_list_branches:
  assumes ok: "versions_ok S" and lb: "list_branches tx now ids thread_id S = Inr (r, S')"
  shows "good S S'"
proof (cases "get_any_by_thread_id thread_id (st_threads S)")
  case None
  then show ?thesis using lb good_refl [OF ok] by (simp add: list_branches_def)
next
  case (Some t)
  obtain b where "ensure_default_branch_in_session tx now ids t S = Inr (b, S')"
    using lb Some by (auto simp: list_branches_def rbind_def split: sum.splits)
  from good_ensure(1) [OF ok get_own_thread [OF ok Some] this] show ?thesis .
qed

lemma good_edit:
  assumes ok: "versions_ok S" and ed: "edit_retry tx now ids rq S = Inr (r, S')"
  shows "good S S'"
proof (cases r)
  case None
  have "S' = S"
  proof (cases "get_by_message_id (er_message_id rq) (st_messages S)")
    case (Some m0)
    then show ?thesis using ed None
      by (cases "ms_role m0 = ''user''"; cases "get_thread_by_id (ms_thread_id m0) (st_threads S)")
        (auto simp: edit_retry_def rbind_Inr Let_def)
  qed (use ed None in \<open>simp add: edit_retry_def\<close>)
  then show ?thesis using good_refl [OF ok] by simp
next
  case (Some p)
  obtain b e st where "p = (b, e, st)" by (cases p)
  then show ?thesis using edit_effect [OF ok] ed Some by metis
qed

lemma good_step: "version_step tx S S' \<Longrightarrow> versions_ok S \<Longrightarrow> good S S'"
  by (induction rule: version_step.induct)
    (simp_all add: good_new_thread good_thread_fields good_persist good_list_branches good_create_checkpoint good_restore
      good_checkout good_activate good_edit)

lemma good_steps: "(version_step tx)\<^sup>*\<^sup>* S S' \<Longrightarrow> versions_ok S \<Longrightarrow> good S S'"
proof (induction rule: rtranclp_induct)
  case base
  then show ?case by (rule good_refl)
next
  case (step S1 S2)
  then show ?case using good_step good_trans unfolding good_def by (meson extends_trans)
qed

lemma empty_versions_ok: "versions_ok (empty_versions sessions)"
  by (simp add: versions_ok_def pointers_ok_def empty_versions_def)


section \<open>What the user sees\<close>

text \<open>The messages that the service lists for a thread.\<close>

definition conversation :: "row_id \<Rightarrow> version_store \<Rightarrow> message list" where
  "conversation thread S = list_messages_for_thread thread (message_store.truncate S)"

lemma descends_ok: "versions_ok S \<Longrightarrow> descends (rev (st_messages S))"
  by (simp add: versions_ok_def)

lemma line_core: "map core (line thread R leaf) = line thread (map core R) leaf"
  by (rule line_map [symmetric]) simp

text \<open>The line of a message is the same in every later table.\<close>

lemma line_prefix:
  assumes pre: "prefix (map core M) (map core M')" and d: "descends (rev M')" and leaf: "leaf_in M t leaf"
  shows "map core (line t (rev M') leaf) = map core (line t (rev M) leaf)"
proof -
  obtain N where N: "map core M' = map core M @ N" using pre by (auto simp: prefix_def)
  have rv: "map core (rev M') = rev N @ map core (rev M)" by (simp add: rev_map [symmetric] N)
  have "descends (rev N @ map core (rev M))"
    by (rule descends_core [of _ "rev M'", OF _ d]) (simp add: rv [symmetric] comp_def core_def)
  from descends_tail [OF this] have dis: "ms_id ` set (rev N) \<inter> ms_id ` set (map core (rev M)) = {}" by blast
  have "ms_id ` set (map core (rev M)) = ms_id ` set M" by (simp add: image_image)
  then have "case leaf of None \<Rightarrow> True | Some k \<Rightarrow> k \<notin> ms_id ` set (rev N)"
    using dis leaf by (auto simp: leaf_in_def split: option.splits)
  then show ?thesis unfolding line_core rv by (rule line_skip)
qed

lemma line_known:
  assumes "leaf_in M t (Some k)" and "descends (rev M)"
  shows "line t (rev M) (Some k) \<noteq> []"
proof -
  have "descends R \<Longrightarrow> m \<in> set R \<Longrightarrow> ms_thread_id m = t \<Longrightarrow> line t R (Some (ms_id m)) \<noteq> []" for R m
    by (induction R) (auto simp: image_iff)
  moreover obtain m where "m \<in> set (rev M)" "ms_id m = k" "ms_thread_id m = t" using assms(1) by (auto simp: leaf_in_def)
  ultimately show ?thesis using assms(2) by blast
qed

lemma conversation_line:
  assumes ok: "versions_ok S" and leaf: "current_leaf t S = Some k"
  shows "conversation t S = line t (rev (st_messages S)) (Some k)"
proof -
  obtain r where r: "get_thread_by_id t (st_threads S) = Some r" "th_current_leaf_message_id r = Some k"
    using leaf by (auto simp: current_leaf_def split: option.splits)
  have "leaf_in (st_messages S) t (Some k)" using current_leaf_in [OF ok, of t] leaf by simp
  from line_known [OF this descends_ok [OF ok]] show ?thesis
    using r by (simp add: conversation_def list_messages_for_thread_def message_store.defs Let_def
        branch_path_line [OF descends_ok [OF ok]])
qed

lemma conversation_no_leaf:
  "current_leaf t S = None \<Longrightarrow> conversation t S = list_by_thread_id t (st_messages S)"
  by (auto simp: conversation_def list_messages_for_thread_def message_store.defs current_leaf_def split: option.splits)

text \<open>The line of the newest message.\<close>

lemma conversation_newest:
  assumes ok: "versions_ok S'" and M': "st_messages S' = X @ [m]" "map core X = map core M"
    and m: "ms_thread_id m = t" "current_leaf t S' = Some (ms_id m)"
  shows "map core (conversation t S') = map core (line t (rev M) (ms_parent_message_id m)) @ [core m]"
proof -
  have "conversation t S' = line t (rev X) (ms_parent_message_id m) @ [m]"
    by (simp add: conversation_line [OF ok m(2)] M' m(1))
  moreover have "map core (rev X) = map core (rev M)" using M'(2) by (simp add: rev_map [symmetric])
  ultimately show ?thesis by (simp add: line_core)
qed


lemma sort_key_map_core: "sort_key ms_created_at (map core Y) = map core (sort_key ms_created_at Y)"
proof -
  have c: "ms_created_at (core m) = ms_created_at m" for m by (simp add: core_def)
  have "insort_key ms_created_at (core y) (map core Z) = map core (insort_key ms_created_at y Z)" for y Z
    by (induction Z) (simp_all add: c)
  then show ?thesis by (induction Y) (simp_all add: sort_key_def)
qed

lemma tbl_get_map:
  assumes "tbl_get key k T = Some r" and "\<And>x. key (h x) = key x"
  shows "tbl_get key k (map h T) = Some (h r)"
  using assms by (induction T) (auto simp: tbl_get_def split: if_splits)

lemma same_thread:
  assumes ok: "versions_ok S'" and pre: "prefix (map thread_names (st_threads S)) (map thread_names (st_threads S'))"
    and t: "get_any_by_thread_id n (st_threads S) = Some t"
  obtains t' where "get_any_by_thread_id n (st_threads S') = Some t'" "th_id t' = th_id t"
proof -
  obtain t' where t': "t' \<in> set (st_threads S')" "thread_names t' = thread_names t"
    using prefix_mem [OF pre] get_thread_nameD [OF t] by metis
  then have "get_any_by_thread_id n (st_threads S') = Some t'"
    using th_public.get_mem [of "st_threads S'" t'] ok get_thread_nameD [OF t]
    by (simp add: versions_ok_def thread_names_def get_any_by_thread_id_def)
  moreover have "th_id t' = th_id t" using t'(2) by (simp add: thread_names_def)
  ultimately show ?thesis by (rule that)
qed

lemma other_conversation:
  assumes ok: "versions_ok S" "versions_ok S'" and ext: "extends S S'" and leaf: "current_leaf i S' = current_leaf i S"
    and new: "st_messages S' = X @ [e]" "map core X = map core (st_messages S)" "ms_thread_id e \<noteq> i"
  shows "map core (conversation i S') = map core (conversation i S)"
proof (cases "current_leaf i S")
  case (Some k)
  have "leaf_in (st_messages S) i (Some k)" using current_leaf_in [OF ok(1), of i] Some by simp
  from line_prefix [OF _ descends_ok [OF ok(2)] this] show ?thesis
    using ext leaf Some by (simp add: extends_def conversation_line [OF ok(1)] conversation_line [OF ok(2)])
next
  case None
  have s: "map core (list_by_thread_id i M) = list_by_thread_id i (map core M)" for M
  proof -
    have "sort_key ms_created_at (map core Y) = map core (sort_key ms_created_at Y)" for Y
      by (rule sort_key_map_core)
    then show ?thesis by (simp add: list_by_thread_id_def filter_map comp_def)
  qed
  have "list_by_thread_id i (map core (X @ [e])) = list_by_thread_id i (map core X)"
    using new(3) by (simp add: list_by_thread_id_def)
  then show ?thesis using None leaf new by (simp add: conversation_no_leaf s del: map_append)
qed

text \<open>(C14)
  Restoring a checkpoint brings back the conversation it was taken of. In every state that calls
  can lead to, if a thread shows a message when its checkpoint is created, then whatever happens
  afterwards (new messages, edits, other branches and checkpoints, in this thread or another),
  restoring the checkpoint succeeds and the thread shows the same messages in the same order;
  only the label that says to which branch a message belongs may differ.
\<close>

theorem checkpoint_restores_conversation:
  assumes reach: "(version_step tx)\<^sup>*\<^sup>* (empty_versions sessions) S"
    and t: "get_any_by_thread_id thread_id (st_threads S) = Some t"
    and shown: "th_current_leaf_message_id t \<noteq> None" "th_active_branch_id t \<noteq> None"
    and cp: "create_checkpoint tx now ids thread_id title ct metadata S = Inr (Some c, S1)"
    and name: "strip (ck_checkpoint_id c) = ck_checkpoint_id c"
    and later: "(version_step tx)\<^sup>*\<^sup>* S1 S2"
  shows "\<exists>S3. restore_checkpoint later_now thread_id (ck_checkpoint_id c) S2 = (Some c, S3)
    \<and> map core (conversation (th_id t) S3) = map core (conversation (th_id t) S)"
proof -
  have ok: "versions_ok S" using good_steps [OF reach empty_versions_ok] by (simp add: good_def)
  obtain k where k: "th_current_leaf_message_id t = Some k" using shown(1) by blast
  have g1: "good S S1" and c: "c \<in> set (vs_checkpoints S1)" "ck_thread_id c = th_id t" "ck_message_id c = Some k"
    using create_checkpoint_effect [OF ok cp t] shown k by (metis option.inject)+
  have ok1: "versions_ok S1" using g1 by (simp add: good_def)
  have ok2: "versions_ok S2" and ext: "extends S S2"
    using good_steps [OF later ok1] g1 extends_trans unfolding good_def by blast+
  obtain t2 where t2: "get_any_by_thread_id thread_id (st_threads S2) = Some t2" "th_id t2 = th_id t"
    using same_thread [OF ok2 _ t] ext by (auto simp: extends_def)
  have "c \<in> set (vs_checkpoints S2)"
    using c(1) good_steps [OF later ok1] by (auto simp: good_def extends_def prefix_def)
  then have own: "own_checkpoint thread_id (ck_checkpoint_id c) S2 = Some (t2, c)"
    using ck_public.get_mem [of "vs_checkpoints S2" c] ok2 name t2 c(2)
    by (simp add: own_checkpoint_def get_by_checkpoint_id_def versions_ok_def)
  define S3 where "S3 = point later_now (th_id t2) (ck_branch_id c) (ck_message_id c) S2"
  have ok3: "versions_ok S3"
    using good_point [OF ok2 own_checkpointD [OF ok2 own], of later_now] by (simp add: S3_def good_def)
  have "get_thread_by_id (th_id t) (st_threads S2) = Some t2" using get_own_thread [OF ok2 t2(1)] t2(2) by simp
  then have leaf3: "current_leaf (th_id t) S3 = Some k"
    using t2(2) c(3) by (simp add: S3_def current_leaf_def get_thread_point point_thread_def)
  have leaf: "current_leaf (th_id t) S = Some k" using get_own_thread [OF ok t] k by (simp add: current_leaf_def)
  have in_S: "leaf_in (st_messages S) (th_id t) (Some k)" using current_leaf_in [OF ok] leaf by metis
  have "prefix (map core (st_messages S)) (map core (st_messages S3))" using ext by (simp add: extends_def S3_def)
  from line_prefix [OF this descends_ok [OF ok3] in_S]
  have "map core (conversation (th_id t) S3) = map core (conversation (th_id t) S)"
    by (simp add: conversation_line [OF ok3 leaf3] conversation_line [OF ok leaf])
  moreover have "restore_checkpoint later_now thread_id (ck_checkpoint_id c) S2 = (Some c, S3)"
    using own by (simp add: restore_checkpoint_def S3_def)
  ultimately show ?thesis by blast
qed

text \<open>(C20)
  A new message is shown after the ones that were shown. The thread has an active branch and
  shows a conversation, or it has no messages yet and either an active branch or no default
  branch; the message names no parent. Then storing the message and attaching it to the thread
  makes the thread show what it showed before followed by the new message, and the table of
  messages is what it was, but for the branches of its rows, with the message at its end. A thread
  that has messages and shows none, as after an empty checkpoint was restored, is not covered.
\<close>

theorem message_extends_conversation:
  assumes reach: "(version_step tx)\<^sup>*\<^sup>* (empty_versions sessions) S"
    and t: "get_thread_by_id i (st_threads S) = Some t"
    and before: "th_active_branch_id t \<noteq> None \<and> th_current_leaf_message_id t \<noteq> None
      \<or> list_by_thread_id i (st_messages S) = []
        \<and> (th_active_branch_id t \<noteq> None \<or> find_default_for_thread i (vs_branches S) = None)"
    and request: "ms_thread_id request = i" "ms_parent_message_id request = None"
    and persist: "persist_message tx now now_iso ids request S = Inr (r, S')"
  shows "\<exists>m X. r = Some m \<and> ms_content m = ms_content request
    \<and> map core (conversation i S') = map core (conversation i S) @ [core m]
    \<and> st_messages S' = X @ [m] \<and> map core X = map core (st_messages S)"
proof -
  have ok: "versions_ok S" using good_steps [OF reach empty_versions_ok] by (simp add: good_def)
  obtain m B where cr: "create_message now now_iso (fst (vi_message ids)) (snd (vi_message ids)) request (message_store.truncate S) = Inr (m, B)"
    and at: "attach_message_to_active_branch tx now ids (ms_thread_id m) (ms_id m)
        (S\<lparr>st_messages := st_messages B, st_threads := st_threads B\<rparr>) = Inr (r, S')"
    using persist by (auto simp: persist_message_def rbind_Inr)
  let ?S = "S\<lparr>st_messages := st_messages B, st_threads := st_threads B\<rparr>"
  note c = create_message_effect [OF ok cr request(2)]
  have mt: "ms_thread_id m = i" using c(3) request(1) by simp
  obtain t' where t': "get_thread_by_id i (st_threads ?S) = Some t'"
    "th_active_branch_id t' = th_active_branch_id t" "th_current_leaf_message_id t' = th_current_leaf_message_id t"
  proof -
    obtain h where h: "st_threads B = map h (st_threads S)" "\<And>t. th_id (h t) = th_id t
       \<and> th_current_leaf_message_id (h t) = th_current_leaf_message_id t \<and> th_active_branch_id (h t) = th_active_branch_id t"
      using c(6) by blast
    have "tbl_get th_id i (map h (st_threads S)) = Some (h t)"
      by (rule tbl_get_map) (use t h(2) in \<open>simp_all add: get_thread_by_id_def\<close>)
    then show ?thesis using h by (intro that [of "h t"]) (simp_all add: get_thread_by_id_def)
  qed
  have M: "st_messages ?S = st_messages S @ [m]" using c(1) by simp
  have nid: "ms_id m \<notin> ms_id ` set (st_messages S)" using c(7) M by (simp add: versions_ok_def)
  have th: "get_thread_by_id (ms_thread_id m) (st_threads ?S) = Some t'" using t'(1) mt by simp
  obtain m1 X l where a: "versions_ok S'" "st_messages S' = X @ [m1]" "map core X = map core (st_messages S)"
    "ms_id m1 = ms_id m" "ms_thread_id m1 = ms_thread_id m" "core m1 = core (m\<lparr>ms_parent_message_id := ms_parent_message_id m1\<rparr>)"
    "ms_parent_message_id m1 = (if ms_parent_message_id m = None \<and> l \<noteq> Some (ms_id m) then l else ms_parent_message_id m)"
    "prefix (map thread_names (st_threads ?S)) (map thread_names (st_threads S'))"
    "prefix (map branch_names (vs_branches ?S)) (map branch_names (vs_branches S'))"
    "prefix (vs_checkpoints ?S) (vs_checkpoints S')"
    "r = Some m1" "current_leaf (ms_thread_id m) S' = Some (ms_id m)"
    "th_active_branch_id t' \<noteq> None \<longrightarrow> l = th_current_leaf_message_id t'"
    "th_active_branch_id t' = None \<and> find_default_for_thread (ms_thread_id m) (vs_branches ?S) = None \<longrightarrow>
       l = map_option ms_id (last_message_for_thread (ms_thread_id m) None (st_messages S @ [m]))"
    using attach_newest [OF c(7) M at th] by (elim exE conjE) (rule that)
  have e: "ms_thread_id m1 = i" "current_leaf i S' = Some (ms_id m1)"
    "ms_parent_message_id m1 = (if l \<noteq> Some (ms_id m) then l else None)"
    using a(4,5,7,12) mt c(2) by simp_all
  have leaf: "current_leaf i S = th_current_leaf_message_id t" using t by (simp add: current_leaf_def)
  note in_S = current_leaf_in [OF ok, of i, unfolded leaf]
  have "map core (line i (rev (st_messages S)) (ms_parent_message_id m1)) = map core (conversation i S)"
    using before
  proof
    assume "th_active_branch_id t \<noteq> None \<and> th_current_leaf_message_id t \<noteq> None"
    moreover from this obtain k where k: "th_current_leaf_message_id t = Some k" by blast
    moreover have "k \<in> ms_id ` set (st_messages S)" using in_S k by (auto simp: leaf_in_def)
    then have "k \<noteq> ms_id m" using nid by blast
    ultimately have "ms_parent_message_id m1 = Some k" using e(3) a(13) t'(2,3) by simp
    then show ?thesis using conversation_line [OF ok] leaf k by simp
  next
    assume "list_by_thread_id i (st_messages S) = []
        \<and> (th_active_branch_id t \<noteq> None \<or> find_default_for_thread i (vs_branches S) = None)"
    then have none: "list_by_thread_id i (st_messages S) = []"
      and b: "th_active_branch_id t \<noteq> None \<or> find_default_for_thread i (vs_branches S) = None" by simp_all
    have no: "filter (\<lambda>m. ms_thread_id m = i) (st_messages S) = []"
      using arg_cong [OF none, of set] by (simp add: list_by_thread_id_def)
    then have nol: "th_current_leaf_message_id t = None" using in_S by (cases "th_current_leaf_message_id t") (auto simp: leaf_in_def filter_empty_conv)
    have "last_message_for_thread i None (st_messages S @ [m]) = Some m"
      using no mt by (simp add: last_message_for_thread_def sorted_desc_def)
    then have "ms_parent_message_id m1 = None" using e(3) a(13,14) b t'(2,3) nol mt by (cases "th_active_branch_id t") auto
    then show ?thesis using conversation_no_leaf [of i S] leaf nol none by (simp add: line_unknown)
  qed
  moreover have "ms_content m1 = ms_content request" using arg_cong [OF a(6), of ms_content] c(5) by simp
  ultimately have "ms_content m1 = ms_content request \<and> map core (conversation i S') = map core (conversation i S) @ [core m1]"
    using conversation_newest [OF a(1,2,3) e(1,2)] by simp
  then show ?thesis using a(2,3,11) by blast
qed

text \<open>(C15)
  Editing a message starts a branch and destroys nothing. The thread then shows the conversation
  as it was before the edited message, followed by the new text; every row of the table is kept
  but for its branch, every other thread shows what it showed, and the old conversation can be
  shown again, since all its rows are still there.
\<close>

theorem edit_shows_new_text:
  assumes reach: "(version_step tx)\<^sup>*\<^sup>* (empty_versions sessions) S"
    and edit: "edit_retry tx now ids rq S = Inr (Some (b, e, status), S')"
  shows "\<exists>m X. get_by_message_id (er_message_id rq) (st_messages S) = Some m
    \<and> ms_content e = er_new_content rq \<and> ms_role e = ''user''
    \<and> st_messages S' = X @ [e] \<and> map core X = map core (st_messages S)
    \<and> map core (conversation (ms_thread_id m) S')
        = map core (list_branch_path (ms_thread_id m) (ms_parent_message_id m) (st_messages S)) @ [core e]
    \<and> (\<forall>i. i \<noteq> ms_thread_id m \<longrightarrow> map core (conversation i S') = map core (conversation i S))"
proof -
  have ok: "versions_ok S" using good_steps [OF reach empty_versions_ok] by (simp add: good_def)
  obtain m X where e: "get_by_message_id (er_message_id rq) (st_messages S) = Some m" "good S S'"
    "st_messages S' = X @ [e]" "map core X = map core (st_messages S)"
    "ms_parent_message_id e = ms_parent_message_id m" "ms_thread_id e = ms_thread_id m"
    "ms_content e = er_new_content rq" "ms_role e = ''user''" "current_leaf (ms_thread_id m) S' = Some (ms_id e)"
    and other: "\<And>i. i \<noteq> ms_thread_id m \<Longrightarrow> current_leaf i S' = current_leaf i S"
    using edit_effect [OF ok edit] by blast
  have ok': "versions_ok S'" and ext: "extends S S'" using e(2) by (simp_all add: good_def)
  have "map core (conversation (ms_thread_id m) S')
      = map core (list_branch_path (ms_thread_id m) (ms_parent_message_id m) (st_messages S)) @ [core e]"
    using conversation_newest [OF ok' e(3,4,6,9)] by (simp add: e(5) branch_path_line [OF descends_ok [OF ok]])
  moreover have "map core (conversation i S') = map core (conversation i S)" if "i \<noteq> ms_thread_id m" for i
    using other_conversation [OF ok ok' ext other [OF that]] that e(3,4,6) by simp
  ultimately show ?thesis using e(1,3,4,7,8) by (intro exI [of _ m] exI [of _ X]) blast
qed


section \<open>Examples\<close>

definition ex_texts :: version_texts where
  "ex_texts = \<lparr>vt_default_branch = ''Default'', vt_checkpoint = ''Checkpoint'', vt_auto_checkpoint = ''Auto: '', vt_user = ''user'',
     vt_assistant = ''assistant'', vt_system = ''system'', vt_tool = ''tool'', vt_message = ''message'',
     vt_checkout = ''From '', vt_edit_retry = ''Edit ''\<rparr>"

definition ex_ids :: "string \<Rightarrow> version_ids" where
  "ex_ids n = \<lparr>vi_default = (''d'' @ n, ''d'' @ n), vi_branch = (''b'' @ n, ''b'' @ n), vi_message = (''m'' @ n, ''m'' @ n),
     vi_checkpoint = (''c'' @ n, ''c'' @ n)\<rparr>"

definition ex_request :: "string \<Rightarrow> message" where
  "ex_request content = (example_message 1 [])\<lparr>ms_content := content\<rparr>"

definition ex_thread :: version_store where
  "ex_thread = (empty_versions [])\<lparr>st_threads :=
     snd (projr (thread_create 1 ''t1'' ''thr_1'' ''p1'' (Some ''w1'') PNone ''Talk'' None (st_threads (empty_versions []))))\<rparr>"

definition ex_first :: version_store where
  "ex_first = snd (projr (persist_message ex_texts 2 ''2'' (ex_ids ''1'') (ex_request ''first'') ex_thread))"

definition ex_checkpoint :: version_store where
  "ex_checkpoint = snd (projr (create_checkpoint ex_texts 3 (ex_ids ''2'') ''thr_1'' ''Before'' ''manual'' None ex_first))"

definition ex_second :: version_store where
  "ex_second = snd (projr (persist_message ex_texts 4 ''4'' (ex_ids ''3'') (ex_request ''second'') ex_checkpoint))"

definition ex_edit :: edit_request where
  "ex_edit = \<lparr>er_message_id = ''msg_m1'', er_new_content = ''better'', er_title = [], er_session = None, er_endpoint = None,
     er_workspace = None, er_metadata = None\<rparr>"

lemma projr_pair: "\<not> isl x \<Longrightarrow> x = Inr (fst (projr x), snd (projr x))"
  by (cases x) simp_all

lemma ex_steps:
  "version_step ex_texts (empty_versions []) ex_thread"
  "version_step ex_texts ex_thread ex_first"
  "version_step ex_texts ex_first ex_checkpoint"
  "version_step ex_texts ex_checkpoint ex_second"
proof -
  have 1: "\<not> isl (thread_create 1 ''t1'' ''thr_1'' ''p1'' (Some ''w1'') PNone ''Talk'' None (st_threads (empty_versions [])))" by code_simp
  show "version_step ex_texts (empty_versions []) ex_thread"
    unfolding ex_thread_def by (rule version_step.new_thread [OF projr_pair [OF 1]])
  have 2: "\<not> isl (persist_message ex_texts 2 ''2'' (ex_ids ''1'') (ex_request ''first'') ex_thread)" by code_simp
  have r: "ms_parent_message_id (ex_request s) = None" "ms_branch_id (ex_request s) = None" for s
    by (simp_all add: ex_request_def example_message_def)
  show "version_step ex_texts ex_thread ex_first"
    unfolding ex_first_def by (rule version_step.message [OF r projr_pair [OF 2]])
  have 3: "\<not> isl (create_checkpoint ex_texts 3 (ex_ids ''2'') ''thr_1'' ''Before'' ''manual'' None ex_first)" by code_simp
  show "version_step ex_texts ex_first ex_checkpoint"
    unfolding ex_checkpoint_def by (rule version_step.checkpoint [OF projr_pair [OF 3]])
  have 4: "\<not> isl (persist_message ex_texts 4 ''4'' (ex_ids ''3'') (ex_request ''second'') ex_checkpoint)" by code_simp
  show "version_step ex_texts ex_checkpoint ex_second"
    unfolding ex_second_def by (rule version_step.message [OF r projr_pair [OF 4]])
qed


lemma ex_reach:
  "(version_step ex_texts)\<^sup>*\<^sup>* (empty_versions []) ex_thread"
  "(version_step ex_texts)\<^sup>*\<^sup>* (empty_versions []) ex_first"
  "(version_step ex_texts)\<^sup>*\<^sup>* (empty_versions []) ex_second"
  "(version_step ex_texts)\<^sup>*\<^sup>* ex_checkpoint ex_second"
  using ex_steps by (auto intro: rtranclp.rtrancl_into_rtrancl)

theorem checkpoint_restores_conversation_witness:
  "map ms_content (conversation ''t1'' ex_second) = [''first'', ''second'']
   \<and> (\<exists>c S3. restore_checkpoint 9 ''thr_1'' ''chk_c2'' ex_second = (Some c, S3)
        \<and> map core (conversation ''t1'' S3) = map core (conversation ''t1'' ex_first)
        \<and> map ms_content (conversation ''t1'' ex_first) = [''first''])"
proof -
  have t: "get_any_by_thread_id ''thr_1'' (st_threads ex_first) = Some (the (get_any_by_thread_id ''thr_1'' (st_threads ex_first)))"
    (is "_ = Some ?t") by code_simp
  have sh: "th_current_leaf_message_id ?t \<noteq> None" "th_active_branch_id ?t \<noteq> None" "th_id ?t = ''t1''" by code_simp+
  let ?call = "create_checkpoint ex_texts 3 (ex_ids ''2'') ''thr_1'' ''Before'' ''manual'' None ex_first"
  have some: "\<not> isl ?call" "fst (projr ?call) = Some (the (fst (projr ?call)))" (is "_ = Some ?c") by code_simp+
  have cp: "?call = Inr (Some ?c, ex_checkpoint)"
    using projr_pair [OF some(1)] some(2) unfolding ex_checkpoint_def by simp
  have name: "strip (ck_checkpoint_id ?c) = ck_checkpoint_id ?c" "ck_checkpoint_id ?c = ''chk_c2''" by code_simp+
  have shown: "map ms_content (conversation ''t1'' ex_second) = [''first'', ''second'']"
    "map ms_content (conversation ''t1'' ex_first) = [''first'']" by code_simp+
  from checkpoint_restores_conversation [OF ex_reach(2) t sh(1,2) cp name(1) ex_reach(4), of 9] shown
  show ?thesis unfolding sh(3) name(2) by (intro conjI) (assumption, metis)
qed

theorem message_extends_conversation_witness:
  "\<exists>m. map core (conversation ''t1'' ex_first) = [core m] \<and> ms_content m = ''first''"
proof -
  have t: "get_thread_by_id ''t1'' (st_threads ex_thread) = Some (the (get_thread_by_id ''t1'' (st_threads ex_thread)))"
    (is "_ = Some ?t") by code_simp
  have "list_by_thread_id ''t1'' (st_messages ex_thread) = [] \<and> find_default_for_thread ''t1'' (vs_branches ex_thread) = None" by code_simp
  then have b: "th_active_branch_id ?t \<noteq> None \<and> th_current_leaf_message_id ?t \<noteq> None
      \<or> list_by_thread_id ''t1'' (st_messages ex_thread) = []
        \<and> (th_active_branch_id ?t \<noteq> None \<or> find_default_for_thread ''t1'' (vs_branches ex_thread) = None)" by (intro disjI2) simp
  have r: "ms_thread_id (ex_request ''first'') = ''t1''" "ms_parent_message_id (ex_request ''first'') = None"
    "ms_content (ex_request ''first'') = ''first''" by code_simp+
  have ok: "\<not> isl (persist_message ex_texts 2 ''2'' (ex_ids ''1'') (ex_request ''first'') ex_thread)" by code_simp
  have empty: "conversation ''t1'' ex_thread = []" by code_simp
  from message_extends_conversation [OF ex_reach(1) t b r(1,2) projr_pair [OF ok]]
  show ?thesis unfolding ex_first_def [symmetric] empty r(3) by auto
qed

definition ex_edited :: version_store where
  "ex_edited = snd (projr (edit_retry ex_texts 5 (ex_ids ''4'') ex_edit ex_second))"

theorem edit_shows_new_text_witness:
  "\<exists>e. map core (conversation ''t1'' ex_edited) = [core e] \<and> ms_content e = ''better''
    \<and> map ms_content (conversation ''t1'' ex_second) = [''first'', ''second'']"
proof -
  let ?call = "edit_retry ex_texts 5 (ex_ids ''4'') ex_edit ex_second"
  have "case ?call of Inr (Some _, _) \<Rightarrow> True | _ \<Rightarrow> False" by code_simp
  then have some: "\<not> isl ?call" "fst (projr ?call) = Some (fst (the (fst (projr ?call))), fst (snd (the (fst (projr ?call)))), snd (snd (the (fst (projr ?call)))))"
    by (auto split: sum.splits option.splits)
  have ed: "?call = Inr (Some (fst (the (fst (projr ?call))), fst (snd (the (fst (projr ?call)))), snd (snd (the (fst (projr ?call))))), ex_edited)"
    (is "_ = Inr (Some (_, ?e, _), _)")
    using projr_pair [OF some(1)] some(2) unfolding ex_edited_def by simp
  have m: "get_by_message_id (er_message_id ex_edit) (st_messages ex_second) = Some (the (get_by_message_id ''msg_m1'' (st_messages ex_second)))"
    (is "_ = Some ?m") by code_simp
  have f: "ms_thread_id ?m = ''t1''" "list_branch_path ''t1'' (ms_parent_message_id ?m) (st_messages ex_second) = []"
    "er_new_content ex_edit = ''better''" "map ms_content (conversation ''t1'' ex_second) = [''first'', ''second'']" by code_simp+
  from edit_shows_new_text [OF ex_reach(3) ed] obtain m' where
    "get_by_message_id (er_message_id ex_edit) (st_messages ex_second) = Some m'" "ms_content ?e = er_new_content ex_edit"
    "map core (conversation (ms_thread_id m') ex_edited)
        = map core (list_branch_path (ms_thread_id m') (ms_parent_message_id m') (st_messages ex_second)) @ [core ?e]" by blast
  then show ?thesis using m f by auto
qed

section \<open>Where the versions surprise\<close>

text \<open>(C39)
  A checkpoint of an empty conversation cannot be restored: it has no message, so restoring it
  leaves the thread without a current leaf, and the service then falls back to all messages of
  the thread, of every branch and in the order of time.
\<close>

theorem empty_checkpoint_shows_everything:
  assumes reach: "(version_step tx)\<^sup>*\<^sup>* (empty_versions sessions) S"
    and t: "get_any_by_thread_id thread_id (st_threads S) = Some t"
    and restore: "restore_checkpoint now thread_id checkpoint_id S = (Some c, S')"
    and empty: "ck_message_id c = None"
  shows "conversation (th_id t) S' = list_by_thread_id (th_id t) (st_messages S)"
proof -
  have ok: "versions_ok S" using good_steps [OF reach empty_versions_ok] by (simp add: good_def)
  have S': "S' = point now (th_id t) (ck_branch_id c) None S"
    using restore t empty by (auto simp: restore_checkpoint_def own_checkpoint_def split: option.splits if_splits)
  have "current_leaf (th_id t) S' = None"
    using get_own_thread [OF ok t] by (simp add: S' current_leaf_def get_thread_point point_thread_def)
  from conversation_no_leaf [OF this] show ?thesis by (simp add: S')
qed

definition ex_blank :: version_store where
  "ex_blank = snd (projr (create_checkpoint ex_texts 2 (ex_ids ''0'') ''thr_1'' ''Start'' ''manual'' None ex_thread))"

definition ex_blank_first :: version_store where
  "ex_blank_first = snd (projr (persist_message ex_texts 3 ''3'' (ex_ids ''1'') (ex_request ''first'') ex_blank))"

definition ex_blank_edited :: version_store where
  "ex_blank_edited = snd (projr (edit_retry ex_texts 5 (ex_ids ''4'') ex_edit ex_blank_first))"

theorem empty_checkpoint_shows_everything_witness:
  "map ms_content (conversation ''t1'' ex_blank_edited) = [''better'']
   \<and> map ms_content (conversation ''t1'' (snd (restore_checkpoint 9 ''thr_1'' ''chk_c0'' ex_blank_edited))) = [''first'', ''better'']"
proof -
  have r: "ms_parent_message_id (ex_request s) = None" "ms_branch_id (ex_request s) = None" for s
    by (simp_all add: ex_request_def example_message_def)
  have 1: "\<not> isl (create_checkpoint ex_texts 2 (ex_ids ''0'') ''thr_1'' ''Start'' ''manual'' None ex_thread)" by code_simp
  have 2: "\<not> isl (persist_message ex_texts 3 ''3'' (ex_ids ''1'') (ex_request ''first'') ex_blank)" by code_simp
  have 3: "\<not> isl (edit_retry ex_texts 5 (ex_ids ''4'') ex_edit ex_blank_first)" by code_simp
  have "version_step ex_texts ex_thread ex_blank" "version_step ex_texts ex_blank ex_blank_first"
    "version_step ex_texts ex_blank_first ex_blank_edited"
    using version_step.checkpoint [OF projr_pair [OF 1]] version_step.message [OF r projr_pair [OF 2]]
      version_step.edit [OF projr_pair [OF 3]] by (simp_all add: ex_blank_def ex_blank_first_def ex_blank_edited_def)
  with ex_reach(1) have reach: "(version_step ex_texts)\<^sup>*\<^sup>* (empty_versions []) ex_blank_edited"
    by (meson rtranclp.rtrancl_into_rtrancl)
  have t: "get_any_by_thread_id ''thr_1'' (st_threads ex_blank_edited) = Some (the (get_any_by_thread_id ''thr_1'' (st_threads ex_blank_edited)))"
    (is "_ = Some ?t") by code_simp
  let ?call = "restore_checkpoint 9 ''thr_1'' ''chk_c0'' ex_blank_edited"
  have c: "fst ?call = Some (the (fst ?call))" "ck_message_id (the (fst ?call)) = None" "th_id ?t = ''t1''"
    "map ms_content (list_by_thread_id ''t1'' (st_messages ex_blank_edited)) = [''first'', ''better'']"
    "map ms_content (conversation ''t1'' ex_blank_edited) = [''better'']" by code_simp+
  have call: "?call = (Some (the (fst ?call)), snd ?call)" using c(1) by (metis prod.collapse)
  from empty_checkpoint_shows_everything [OF reach t call c(2), unfolded c(3)] c(4,5) show ?thesis by simp
qed

text \<open>Two messages stored before either is attached.\<close>

definition crossed_messages :: "pyerr + message option \<times> version_store" where
  "crossed_messages =
     rbind (create_message 2 ''2'' ''m1'' ''m1'' (ex_request ''first'') (message_store.truncate ex_thread)) (\<lambda>(m, B).
     rbind (create_message 3 ''3'' ''m2'' ''m2'' (ex_request ''second'') B) (\<lambda>(m', B').
     rbind (attach_message_to_active_branch ex_texts 4 (ex_ids ''1'') ''t1'' (ms_id m)
              (ex_thread\<lparr>st_messages := st_messages B', st_threads := st_threads B'\<rparr>)) (\<lambda>(r, S).
       attach_message_to_active_branch ex_texts 5 (ex_ids ''2'') ''t1'' (ms_id m') S)))"

text \<open>Storing a message and attaching it are two transactions. When the first two messages of a
  thread are both stored before either is attached, attaching them makes each the parent of the
  other: the default branch starts with the newest message as its leaf, so the older one gets
  the newer as its parent, and then the newer the older.
\<close>

theorem crossed_messages_form_a_circle:
  "map (\<lambda>m. (ms_id m, ms_parent_message_id m)) (st_messages (snd (projr crossed_messages)))
     = [(''m1'', Some ''m2''), (''m2'', Some ''m1'')]
   \<and> map ms_content (conversation ''t1'' (snd (projr crossed_messages))) = [''first'', ''second'']"
  by code_simp

end
