(* ===== verification/Research_Tasks.thy ===== *)
theory Research_Tasks
  imports Endpoint_Store
begin

text \<open>
  Research tasks: \<open>ResearchTaskService\<close> of \<^verbatim>\<open>core/services/v5_service.py\<close> with the guard on
  the citations of a report, \<open>ResearchTaskRepository\<close> of \<^verbatim>\<open>core/db/repositories/v5.py\<close> and the
  table of \<^verbatim>\<open>core/db/models/v5.py\<close>.

  A task goes from planned through approved and running to one of three terminal statuses; every
  change is recorded in the list \<open>events\<close> of its metadata. An error is a value of
  \<open>research_error\<close> with the code of the exception (the texts are left out). \<open>enum\<close> is the order in
  which Python iterates over a set; \<open>tx\<close> holds the Chinese texts of the default plan by name;
  \<open>now_iso\<close> is the time of the call as text.
\<close>

datatype research_error =
    CitationError "string list" "string list" "string list"
  | StateError string
  | InvalidValue string
  | OtherError pyerr

section \<open>The citations of a report\<close>

text \<open>\<open>(?<!!)\[(\d+)\]\<close>, found from left to right; \<open>prev\<close> is the character before. A match never
  contains a bracket inside, so the search goes on right behind it.\<close>

definition digits :: "string \<Rightarrow> string" where
  "digits s = takeWhile is_decimal s"

definition behind_digits :: "string \<Rightarrow> string" where
  "behind_digits s = dropWhile is_decimal s"

function scan :: "char option \<Rightarrow> string \<Rightarrow> string list" where
  "scan prev [] = []"
| "scan prev (c # cs) =
     (if c = CHR ''['' \<and> prev \<noteq> Some (CHR ''!'') \<and> digits cs \<noteq> [] \<and> startswith (behind_digits cs) '']''
      then digits cs # scan (Some (CHR '']'')) (tl (behind_digits cs))
      else scan (Some c) cs)"
  by pat_completeness auto

termination
  by (relation "measure (\<lambda>(prev, s). length s)")
    (auto simp: behind_digits_def intro: le_imp_less_Suc le_trans [OF diff_le_self length_dropWhile_le])

definition citations :: "string \<Rightarrow> string list" where
  "citations text = scan None text"

text \<open>\<open>sorted(set, key=int)\<close>. Converting a text of more than 4300 digits raises.\<close>

definition number :: "string \<Rightarrow> int" where
  "number d = (case parse_int d of Some i \<Rightarrow> i | None \<Rightarrow> 0)"

definition sorted_citations :: "(string list \<Rightarrow> string list) \<Rightarrow> string \<Rightarrow> research_error + string list" where
  "sorted_citations enum text =
     (if list_ex (\<lambda>d. 4300 < length d) (citations text) then Inl (OtherError (ValueError ''Exceeds the limit for integer string conversion''))
      else Inr (sort_key number (enum (remdups (citations text)))))"

definition evidence_id :: "pydict \<Rightarrow> string" where
  "evidence_id d = clean (dget_or d ''source_id'' (dget_or d ''id'' (dget_or d ''evidence_id'' (PStr []))))"

definition evidence_source_ids :: "pyval list \<Rightarrow> string list" where
  "evidence_source_ids ledger = dedup_nonempty [] (map (\<lambda>v. evidence_id (as_dict v)) (filter is_dict ledger))"

record citation_check =
  cc_citation_ids :: "string list"
  cc_evidence_source_ids :: "string list"
  cc_missing_source_ids :: "string list"

definition validate_report_citations ::
  "(string list \<Rightarrow> string list) \<Rightarrow> string \<Rightarrow> pyval list \<Rightarrow> research_error + citation_check" where
  "validate_report_citations enum report ledger =
     rbind (sorted_citations enum report) (\<lambda>cited.
       let known = evidence_source_ids ledger; missing = filter (\<lambda>s. s \<notin> set known) cited
       in if missing \<noteq> [] then Inl (CitationError missing cited known)
          else Inr \<lparr>cc_citation_ids = cited, cc_evidence_source_ids = known, cc_missing_source_ids = []\<rparr>)"

section \<open>The default plan\<close>

fun policy_values :: "pyval \<Rightarrow> pyval list" where
  "policy_values (PList xs) = xs"
| "policy_values (PStr s) = (if strip s \<noteq> [] then [PStr s] else [])"
| "policy_values _ = []"

definition policy_list :: "pydict \<Rightarrow> string list \<Rightarrow> string list" where
  "policy_list policy keys = dedup_nonempty [] (map clean (concat (map (\<lambda>k. policy_values (dget policy k)) keys)))"

definition policy_bool :: "pydict \<Rightarrow> string list \<Rightarrow> bool" where
  "policy_bool policy keys = list_ex (\<lambda>k. case dget policy k of
       PStr s \<Rightarrow> lower (strip s) \<in> {''1'', ''true'', ''yes'', ''on'', ''enabled''}
     | v \<Rightarrow> truthy v) keys"

definition policy_limit :: "pydict \<Rightarrow> int" where
  "policy_limit policy =
     (case py_int (py_or (dget_or policy ''max_sources'' (dget_or policy ''limit'' (PInt 8))) (PInt 8)) of
        Inr n \<Rightarrow> max 1 (min n 24)
      | Inl _ \<Rightarrow> 8)"

definition derived_formats :: "pydict \<Rightarrow> string \<Rightarrow> string list" where
  "derived_formats policy output_format =
     (let out = lower (strip output_format);
          formats = policy_list policy [''derived_formats'', ''artifact_formats'', ''report_formats'']
            @ (if policy_bool policy [''include_pdf''] then [''pdf''] else [])
            @ (if policy_bool policy [''include_docx''] then [''docx''] else [])
            @ (if out \<in> {''all'', ''pdf''} \<or> contains ''pdf'' out then [''pdf''] else [])
            @ (if out \<in> {''all'', ''docx'', ''word''} \<or> contains ''docx'' out then [''docx''] else [])
      in dedup_nonempty [] (filter (\<lambda>f. f \<in> {''pdf'', ''docx''}) (map (\<lambda>f. lower (strip f)) formats)))"

definition plan_step :: "(string \<Rightarrow> string) \<Rightarrow> string \<Rightarrow> pydict \<Rightarrow> pyval" where
  "plan_step tx i extra = PDict ([(''id'', PStr i), (''title'', PStr (tx i)), (''status'', PStr ''planned'')] @ extra)"

definition quality_gate :: "(string \<Rightarrow> string) \<Rightarrow> string \<Rightarrow> string \<Rightarrow> pyval" where
  "quality_gate tx i enforcement = PDict [(''id'', PStr i), (''title'', PStr (tx i)), (''enforcement'', PStr enforcement)]"

definition plan_strings :: "string list \<Rightarrow> pyval" where
  "plan_strings ss = PList (map PStr ss)"

definition build_default_plan :: "(string \<Rightarrow> string) \<Rightarrow> string \<Rightarrow> pydict option \<Rightarrow> string \<Rightarrow> pydict" where
  "build_default_plan tx topic source_policy output_format =
     (let policy = dict_or source_policy;
          found = policy_list policy [''source_adapters''];
          adapters = (if found \<noteq> [] then found else [''web'', ''arxiv'', ''openalex'', ''crossref'', ''semantic_scholar'']);
          web_urls = policy_list policy [''web_urls'', ''seed_urls'', ''source_urls'']
      in [(''schema'', PStr ''meetyou.research.plan.v1''),
          (''language'', PStr ''zh-CN''),
          (''topic'', PStr (strip topic)),
          (''steps'', PList
            [plan_step tx ''intake'' [(''editable_fields'', plan_strings [''topic'', ''constraints'', ''audience'', ''output_format''])],
             plan_step tx ''plan_review'' [(''requires_user_confirmation'', PBool True)],
             plan_step tx ''gather'' [], plan_step tx ''evidence_review'' [],
             plan_step tx ''synthesize'' [], plan_step tx ''artifact'' []]),
          (''research_questions'', plan_strings
            [tx ''question_before_topic'' @ strip topic @ tx ''question_after_topic'', tx ''question_2'', tx ''question_3'']),
          (''source_strategy'', PDict
            [(''read_only'', PBool (dget_or policy ''read_only'' (PBool True) \<noteq> PBool False)),
             (''source_adapters'', plan_strings adapters),
             (''include_project_sources'', PBool (policy_bool policy [''include_project_sources''])),
             (''web_search'', PBool (policy_bool policy [''web_search'', ''enable_web_search'', ''discover_urls'', ''search_discovery''])),
             (''web_queries'', plan_strings (policy_list policy [''web_queries'', ''web_search_queries'', ''search_queries'', ''queries''])),
             (''web_url_count'', PInt (int (length web_urls))),
             (''max_sources'', PInt (policy_limit policy))]),
          (''quality_gates'', PList
            [quality_gate tx ''read_only'' ''fail_if_write_policy_requested'',
             quality_gate tx ''evidence_required'' ''fail_without_evidence'',
             quality_gate tx ''citation_guard'' ''citation_guard'',
             quality_gate tx ''prompt_injection'' ''ignore_source_instructions'']),
          (''deliverables'', PDict
            [(''primary'', PStr ''markdown''),
             (''derived_formats'', plan_strings (derived_formats policy output_format)),
             (''final_message'', PStr ''summary_with_artifact_links'')]),
          (''source_adapters'', plan_strings adapters),
          (''requires_approval'', PBool True),
          (''approval'', PDict
            [(''required'', PBool True), (''editable'', PBool True), (''editable_before_start'', PBool True),
             (''start_after'', PStr ''approve_or_explicit_start'')])])"

section \<open>The table\<close>

record research_task =
  rt_id :: row_id
  rt_research_task_id :: string
  rt_principal_id :: row_id
  rt_project_id :: "row_id option"
  rt_thread_id :: "row_id option"
  rt_run_id :: pyval
  rt_artifact_id :: pyval
  rt_topic :: string
  rt_status :: string
  rt_plan :: pydict
  rt_source_policy :: pydict
  rt_evidence_ledger :: "pyval list"
  rt_output_format :: string
  rt_summary :: string
  rt_meta :: pydict
  rt_created_at :: instant
  rt_updated_at :: instant

definition rt_clash :: "research_task \<Rightarrow> research_task \<Rightarrow> bool" where
  "rt_clash a b \<longleftrightarrow> rt_id a = rt_id b \<or> rt_research_task_id a = rt_research_task_id b"

interpretation rt: unique_table rt_id rt_clash
  by unfold_locales (auto simp: rt_clash_def)

interpretation rt_public: unique_table rt_research_task_id rt_clash
  by unfold_locales (auto simp: rt_clash_def)

definition research_task_create ::
  "instant \<Rightarrow> row_id \<Rightarrow> string \<Rightarrow> row_id \<Rightarrow> row_id option \<Rightarrow> row_id option \<Rightarrow> string \<Rightarrow> pydict \<Rightarrow> pydict option \<Rightarrow> string \<Rightarrow> pydict option
   \<Rightarrow> research_task list \<Rightarrow> pyerr + research_task \<times> research_task list" where
  "research_task_create now new_id research_task_id prin project thread topic plan source_policy output_format metadata T =
     insert_row rt_clash ''research_tasks''
       \<lparr>rt_id = new_id, rt_research_task_id = research_task_id, rt_principal_id = prin, rt_project_id = project,
        rt_thread_id = thread, rt_run_id = PNone, rt_artifact_id = PNone, rt_topic = topic, rt_status = ''planned'',
        rt_plan = plan, rt_source_policy = dict_or source_policy, rt_evidence_ledger = [], rt_output_format = output_format,
        rt_summary = [], rt_meta = dict_or metadata, rt_created_at = now, rt_updated_at = now\<rparr> T"

definition get_by_research_task_id :: "string \<Rightarrow> research_task list \<Rightarrow> research_task option" where
  "get_by_research_task_id i T = tbl_get rt_research_task_id (strip i) T"

definition list_tasks_for_principal :: "row_id \<Rightarrow> row_id option \<Rightarrow> row_id option \<Rightarrow> int \<Rightarrow> research_task list \<Rightarrow> research_task list" where
  "list_tasks_for_principal prin project thread limit T =
     take (nat (max 1 (min (if limit = 0 then 100 else limit) 500)))
       (sorted_desc (\<lambda>r. (rt_updated_at r, rt_created_at r))
         (filter (\<lambda>r. rt_principal_id r = prin \<and> (project = None \<or> rt_project_id r = project)
            \<and> (thread = None \<or> rt_thread_id r = thread)) T))"

text \<open>One field of \<open>update\<close>: a text that is given and not null.\<close>

definition task_text_field :: "pydict \<Rightarrow> string \<Rightarrow> string \<Rightarrow> string" where
  "task_text_field upd k old = (if dget upd k \<noteq> PNone then str_or (dget upd k) [] else old)"

definition task_dict_field :: "pydict \<Rightarrow> string \<Rightarrow> pydict \<Rightarrow> pydict" where
  "task_dict_field upd k old = (case dget upd k of PDict d \<Rightarrow> d | _ \<Rightarrow> old)"

definition updated_task :: "instant \<Rightarrow> pydict \<Rightarrow> research_task \<Rightarrow> research_task" where
  "updated_task now upd r =
     (let r' = r\<lparr>rt_topic := task_text_field upd ''topic'' (rt_topic r),
                 rt_status := task_text_field upd ''status'' (rt_status r),
                 rt_output_format := task_text_field upd ''output_format'' (rt_output_format r),
                 rt_summary := task_text_field upd ''summary'' (rt_summary r),
                 rt_plan := task_dict_field upd ''plan'' (rt_plan r),
                 rt_source_policy := task_dict_field upd ''source_policy'' (rt_source_policy r),
                 rt_evidence_ledger := (case dget upd ''evidence_ledger'' of PList xs \<Rightarrow> xs | _ \<Rightarrow> rt_evidence_ledger r),
                 rt_artifact_id := dget_or upd ''artifact_id'' (rt_artifact_id r),
                 rt_run_id := dget_or upd ''run_id'' (rt_run_id r),
                 rt_meta := (case dget upd ''metadata'' of PDict d \<Rightarrow> dmerge (rt_meta r) d | _ \<Rightarrow> rt_meta r)\<rparr>
      in if r' = r then r else r'\<lparr>rt_updated_at := now\<rparr>)"

definition research_task_update ::
  "instant \<Rightarrow> string \<Rightarrow> pydict \<Rightarrow> research_task list \<Rightarrow> research_task option \<times> research_task list" where
  "research_task_update now i upd T =
     (map_option (updated_task now upd) (get_by_research_task_id i T),
      tbl_upd rt_research_task_id (strip i) (updated_task now upd) T)"

definition create_task ::
  "(string \<Rightarrow> string) \<Rightarrow> instant \<Rightarrow> row_id \<Rightarrow> string \<Rightarrow> row_id \<Rightarrow> row_id option \<Rightarrow> row_id option \<Rightarrow> string \<Rightarrow> pydict option \<Rightarrow> string \<Rightarrow> pydict option
   \<Rightarrow> research_task list \<Rightarrow> research_error + research_task \<times> research_task list" where
  "create_task tx now new_id token prin project thread topic source_policy output_format metadata T =
     (if strip topic = [] then Inl (InvalidValue ''topic is required'')
      else case research_task_create now new_id (''res_'' @ token) prin project thread (strip topic)
                  (build_default_plan tx (strip topic) source_policy output_format) source_policy
                  (or_str (strip (or_str output_format ''markdown'')) ''markdown'') metadata T of
             Inl e \<Rightarrow> Inl (OtherError e)
           | Inr x \<Rightarrow> Inr x)"

section \<open>The statuses\<close>

definition terminal_statuses :: "string list" where
  "terminal_statuses = [''cancelled'', ''completed'', ''failed'']"

definition allowed_statuses :: "string list" where
  "allowed_statuses = [''planned'', ''approved'', ''running''] @ terminal_statuses"

text \<open>The status an action asks for, or None where the action is not possible.\<close>

definition action_status :: "string \<Rightarrow> string \<Rightarrow> research_error + string" where
  "action_status action current =
     (let invalid = Inl (StateError ''research_transition_invalid'') in
      if action = ''approve'' then (if current \<noteq> ''planned'' then invalid else Inr ''approved'')
      else if action = ''start'' then (if current \<notin> {''planned'', ''approved''} then invalid else Inr ''running'')
      else if action = ''cancel'' then (if current \<in> set terminal_statuses then invalid else Inr ''cancelled'')
      else if action = ''complete'' then (if current \<in> set terminal_statuses then invalid else Inr ''completed'')
      else if action = ''fail'' then (if current \<in> set terminal_statuses then invalid else Inr ''failed'')
      else Inl (StateError ''research_action_invalid''))"

definition requested_status :: "string \<Rightarrow> string \<Rightarrow> pydict \<Rightarrow> research_error + pyval" where
  "requested_status action current upd =
     (if action \<noteq> [] then rbind (action_status action current) (\<lambda>s. Inr (PStr s)) else Inr (dget upd ''status''))"

text \<open>The fields with the target status; \<open>requested\<close> is null when no status is asked for.\<close>

definition target_fields :: "string \<Rightarrow> string \<Rightarrow> pyval \<Rightarrow> pydict \<Rightarrow> research_error + pydict" where
  "target_fields action current requested upd =
     (if requested = PNone then Inr upd
      else let target = lower (clean requested) in
           if target \<notin> set allowed_statuses then Inl (StateError ''research_status_invalid'')
           else if action = [] \<and> current \<in> set terminal_statuses \<and> target \<noteq> current
           then Inl (StateError ''research_transition_invalid'')
           else Inr (dset ''status'' (PStr target) upd))"

definition transition_event :: "string \<Rightarrow> string \<Rightarrow> string \<Rightarrow> string \<Rightarrow> pyval" where
  "transition_event action current target now_iso =
     PDict [(''action'', PStr (or_str action ''status'')), (''from_status'', PStr current), (''to_status'', PStr target),
            (''at'', PStr now_iso)]"

text \<open>The metadata with one more event. The metadata of the request is a dictionary or null.\<close>

definition logged_fields :: "string \<Rightarrow> string \<Rightarrow> string \<Rightarrow> pydict \<Rightarrow> pydict \<Rightarrow> research_error + pydict" where
  "logged_fields now_iso action current existing upd =
     (let target = lower (strip (str_or (dget upd ''status'') current));
          metadata = dmerge existing (as_dict (dget upd ''metadata''))
      in case py_list_or (dget metadata ''events'') of
           Inl e \<Rightarrow> Inl (OtherError e)
         | Inr events \<Rightarrow>
             Inr (dset ''metadata''
               (PDict (dset ''events'' (PList (events @ [transition_event action current target now_iso])) metadata)) upd))"

definition normalized_transition_fields ::
  "string \<Rightarrow> string \<Rightarrow> string \<Rightarrow> pydict \<Rightarrow> pydict \<Rightarrow> research_error + pydict" where
  "normalized_transition_fields now_iso current_status action_text upd existing =
     (let action = lower (strip action_text);
          current = or_str (lower (strip (or_str current_status ''planned''))) ''planned''
      in if dhas upd ''plan'' \<and> current \<in> set (''running'' # terminal_statuses)
         then Inl (StateError ''research_plan_locked'')
         else rbind (requested_status action current upd) (\<lambda>requested.
           rbind (target_fields action current requested upd) (\<lambda>upd'.
             if action \<noteq> [] \<or> requested \<noteq> PNone
             then logged_fields now_iso action current existing upd'
             else Inr upd')))"

definition transition_task ::
  "instant \<Rightarrow> string \<Rightarrow> string \<Rightarrow> string \<Rightarrow> pydict \<Rightarrow> research_task list
   \<Rightarrow> research_error + research_task option \<times> research_task list" where
  "transition_task now now_iso i action upd T =
     (case get_by_research_task_id i T of
        None \<Rightarrow> Inr (None, T)
      | Some r \<Rightarrow>
          rbind (normalized_transition_fields now_iso (or_str (rt_status r) ''planned'') action upd (rt_meta r)) (\<lambda>upd'.
            Inr (research_task_update now i upd' T)))"


section \<open>Every citation is found\<close>

text \<open>The specification: \<open>d\<close> stands in brackets somewhere in the text, and no exclamation mark is
  in front of the bracket.\<close>

definition cited_in :: "string \<Rightarrow> string \<Rightarrow> bool" where
  "cited_in d text \<longleftrightarrow> d \<noteq> [] \<and> list_all is_decimal d
     \<and> (\<exists>pre post. text = pre @ ''['' @ d @ '']'' @ post \<and> (pre = [] \<or> last pre \<noteq> CHR ''!''))"

definition cited_after :: "char option \<Rightarrow> string \<Rightarrow> string \<Rightarrow> bool" where
  "cited_after prev d text \<longleftrightarrow> d \<noteq> [] \<and> list_all is_decimal d
     \<and> (\<exists>pre post. text = pre @ ''['' @ d @ '']'' @ post
          \<and> (if pre = [] then prev \<noteq> Some (CHR ''!'') else last pre \<noteq> CHR ''!''))"

lemma not_decimal_bracket [simp]: "\<not> is_decimal (CHR '']'')" "\<not> is_decimal (CHR ''['')"
  by (simp_all add: is_decimal_def)

lemma digits_exact: "list_all is_decimal d \<Longrightarrow> digits (d @ '']'' @ post) = d \<and> behind_digits (d @ '']'' @ post) = '']'' @ post"
  by (simp add: digits_def behind_digits_def list_all_iff takeWhile_append2 dropWhile_append2)

lemma digits_split: "s = digits s @ behind_digits s" "list_all is_decimal (digits s)"
  by (simp add: digits_def behind_digits_def) (induction s, simp_all add: digits_def)

lemma cited_after_Cons:
  "cited_after prev d (c # cs) \<longleftrightarrow> cited_after (Some c) d cs
     \<or> (c = CHR ''['' \<and> prev \<noteq> Some (CHR ''!'') \<and> digits cs = d \<and> d \<noteq> [] \<and> startswith (behind_digits cs) '']'')"
  (is "?L \<longleftrightarrow> ?A \<or> ?B")
proof
  assume ?L
  then obtain pre post where d: "d \<noteq> []" "list_all is_decimal d" and eq: "c # cs = pre @ ''['' @ d @ '']'' @ post"
    and p: "if pre = [] then prev \<noteq> Some (CHR ''!'') else last pre \<noteq> CHR ''!''" by (auto simp: cited_after_def)
  show "?A \<or> ?B"
  proof (cases pre)
    case Nil
    then have "c = CHR ''[''" "cs = d @ '']'' @ post" using eq by simp_all
    then show ?thesis using digits_exact [OF d(2), of post] d(1) p Nil by (simp add: startswith_def)
  next
    case (Cons x pre')
    then have "cs = pre' @ ''['' @ d @ '']'' @ post" "x = c" using eq by simp_all
    moreover have "if pre' = [] then Some c \<noteq> Some (CHR ''!'') else last pre' \<noteq> CHR ''!''"
      using p Cons \<open>x = c\<close> by (simp split: if_splits)
    ultimately have ?A using d unfolding cited_after_def by blast
    then show ?thesis ..
  qed
next
  assume "?A \<or> ?B"
  then show ?L
  proof
    assume ?A
    then obtain pre post where d: "d \<noteq> []" "list_all is_decimal d" and eq: "cs = pre @ ''['' @ d @ '']'' @ post"
      and p: "if pre = [] then Some c \<noteq> Some (CHR ''!'') else last pre \<noteq> CHR ''!''" by (auto simp: cited_after_def)
    have "c # cs = (c # pre) @ ''['' @ d @ '']'' @ post" using eq by simp
    moreover have "last (c # pre) \<noteq> CHR ''!''" using p by (simp split: if_splits)
    ultimately show ?L using d unfolding cited_after_def
      by (intro conjI exI [of _ "c # pre"] exI [of _ post]) (assumption | simp)+
  next
    assume B: ?B
    then obtain post where "behind_digits cs = '']'' @ post"
      by (cases "behind_digits cs") (auto simp: startswith_def)
    then have "c # cs = [] @ ''['' @ d @ '']'' @ post" using digits_split(1) [of cs] B by auto
    moreover have "d \<noteq> []" "list_all is_decimal d" "prev \<noteq> Some (CHR ''!'')" using B digits_split(2) [of cs] by auto
    ultimately show ?L unfolding cited_after_def by (intro conjI exI [of _ "[]"] exI [of _ post]) simp_all
  qed
qed

text \<open>Inside a match nothing else is cited.\<close>

lemma cited_behind:
  assumes "list_all (\<lambda>c. c \<noteq> CHR ''['' \<and> c \<noteq> CHR ''!'') w" and "w \<noteq> []"
  shows "cited_after prev d (w @ rest) \<longleftrightarrow> cited_after (Some (last w)) d rest"
  using assms
proof (induction w arbitrary: prev)
  case (Cons c w)
  then have c: "c \<noteq> CHR ''[''" by simp
  show ?case
  proof (cases "w = []")
    case True
    then show ?thesis using c by (simp add: cited_after_Cons)
  next
    case False
    have "cited_after (Some c) d (w @ rest) \<longleftrightarrow> cited_after (Some (last w)) d rest"
      by (rule Cons.IH) (use Cons.prems False in simp_all)
    then show ?thesis using c False by (simp add: cited_after_Cons)
  qed
qed simp

lemma set_scan: "set (scan prev s) = {d. cited_after prev d s}"
proof (induction prev s rule: scan.induct)
  case (1 prev)
  then show ?case by (simp add: cited_after_def)
next
  case (2 prev c cs)
  let ?m = "c = CHR ''['' \<and> prev \<noteq> Some (CHR ''!'') \<and> digits cs \<noteq> [] \<and> startswith (behind_digits cs) '']''"
  show ?case
  proof (cases ?m)
    case True
    then obtain post where post: "behind_digits cs = CHR '']'' # post"
      by (cases "behind_digits cs") (auto simp: startswith_def)
    then have cs: "cs = (digits cs @ '']'') @ post" using digits_split(1) [of cs] by simp
    have "list_all (\<lambda>c. c \<noteq> CHR ''['' \<and> c \<noteq> CHR ''!'') (digits cs @ '']'')"
      using digits_split(2) [of cs] by (auto simp: list_all_iff is_decimal_def)
    then have behind: "cited_after (Some c) d cs \<longleftrightarrow> cited_after (Some (CHR '']'')) d post" for d
      by (subst cs) (simp add: cited_behind del: append_assoc)
    have IH: "set (scan (Some (CHR '']'')) post) = {d. cited_after (Some (CHR '']'')) d post}"
      using 2(1) [OF True] post by simp
    have "set (scan prev (c # cs)) = insert (digits cs) {d. cited_after (Some (CHR '']'')) d post}"
      using True IH post by simp
    also have "\<dots> = {d. cited_after prev d (c # cs)}"
      unfolding cited_after_Cons behind by (intro set_eqI iffI) (use True in auto)
    finally show ?thesis .
  next
    case False
    have "cited_after prev d (c # cs) \<longleftrightarrow> cited_after (Some c) d cs" for d
      using False by (auto simp: cited_after_Cons)
    then show ?thesis using 2(2) [OF False] unfolding scan.simps if_not_P [OF False] by simp
  qed
qed

lemma set_citations: "set (citations text) = {d. cited_in d text}"
  by (auto simp: citations_def set_scan cited_after_def cited_in_def)


text \<open>(C18)
  The guard is exact for the citations its regular expression reads: one number, digits only, in
  brackets of its own and without an exclamation mark in front. A report is accepted exactly when
  every such number is the id of an entry of the evidence ledger and has at most 4300 digits,
  whatever else the report and the ledger contain. Brackets with anything else in them, such as
  a list of two numbers, are not checked.
\<close>

theorem citation_guard_exact:
  assumes enum: "\<And>xs. set (enum xs) = set xs"
  shows "(\<exists>c. validate_report_citations enum report ledger = Inr c)
    \<longleftrightarrow> (\<forall>d. cited_in d report \<longrightarrow> length d \<le> 4300 \<and> (\<exists>e. PDict e \<in> set ledger \<and> evidence_id e = d))"
proof -
  have known: "d \<in> set (evidence_source_ids ledger) \<longleftrightarrow> (\<exists>e. PDict e \<in> set ledger \<and> evidence_id e = d)"
    if "cited_in d report" for d
  proof -
    have "d \<noteq> []" using that by (simp add: cited_in_def)
    then have "d \<in> set (evidence_source_ids ledger) \<longleftrightarrow> (\<exists>v \<in> set ledger. is_dict v \<and> evidence_id (as_dict v) = d)"
      by (auto simp: evidence_source_ids_def set_dedup_nonempty)
    also have "\<dots> \<longleftrightarrow> (\<exists>e. PDict e \<in> set ledger \<and> evidence_id e = d)"
    proof
      assume "\<exists>v \<in> set ledger. is_dict v \<and> evidence_id (as_dict v) = d"
      then obtain v where v: "v \<in> set ledger" "is_dict v" "evidence_id (as_dict v) = d" by blast
      obtain e where "v = PDict e" using v(2) by (cases v) auto
      with v show "\<exists>e. PDict e \<in> set ledger \<and> evidence_id e = d" by auto
    qed force
    finally show ?thesis .
  qed
  have missing: "filter (\<lambda>s. s \<notin> set (evidence_source_ids ledger)) (sort_key number (enum (remdups (citations report)))) = []
      \<longleftrightarrow> (\<forall>d. cited_in d report \<longrightarrow> d \<in> set (evidence_source_ids ledger))"
    by (auto simp: filter_empty_conv enum set_citations)
  show ?thesis
  proof (cases "\<exists>d. cited_in d report \<and> 4300 < length d")
    case True
    then have "list_ex (\<lambda>d. 4300 < length d) (citations report)" by (auto simp: list_ex_iff set_citations)
    then show ?thesis using True by (auto simp: validate_report_citations_def sorted_citations_def rbind_def)
  next
    case False
    then have long: "\<not> list_ex (\<lambda>d. 4300 < length d) (citations report)" by (auto simp: list_ex_iff set_citations)
    have "(\<exists>c. validate_report_citations enum report ledger = Inr c)
        \<longleftrightarrow> (\<forall>d. cited_in d report \<longrightarrow> d \<in> set (evidence_source_ids ledger))"
      unfolding validate_report_citations_def sorted_citations_def rbind_def if_not_P [OF long] sum.case Let_def missing [symmetric]
      by simp
    then show ?thesis using False known by (auto simp: not_less)
  qed
qed

theorem citation_guard_exact_witness:
  "(\<exists>c. validate_report_citations (\<lambda>xs. xs) ''Yes [1], and ![9].'' [PDict [(''source_id'', PInt 1)]] = Inr c)
   \<and> \<not> (\<exists>c. validate_report_citations (\<lambda>xs. xs) ''Yes [2].'' [PDict [(''source_id'', PInt 1)]] = Inr c)"
proof -
  have "\<not> isl (validate_report_citations (\<lambda>xs. xs) ''Yes [1], and ![9].'' [PDict [(''source_id'', PInt 1)]])" by code_simp
  then have ok: "\<exists>c. validate_report_citations (\<lambda>xs. xs) ''Yes [1], and ![9].'' [PDict [(''source_id'', PInt 1)]] = Inr c"
    using Inr_projr by blast
  have c: "cited_in ''2'' ''Yes [2].''" unfolding cited_in_def
    by (intro conjI exI [of _ "''Yes ''"] exI [of _ "''.''"]) (simp_all add: is_decimal_def)
  have "evidence_id [(''source_id'', PInt 1)] = ''1''" by code_simp
  then have "\<not> (\<exists>e. PDict e \<in> set [PDict [(''source_id'', PInt 1)]] \<and> evidence_id e = ''2'')" by auto
  then have "\<not> (\<exists>c. validate_report_citations (\<lambda>xs. xs) ''Yes [2].'' [PDict [(''source_id'', PInt 1)]] = Inr c)"
    using citation_guard_exact [of "\<lambda>xs. xs" "''Yes [2].''" "[PDict [(''source_id'', PInt 1)]]"] c by blast
  with ok show ?thesis by blast
qed

section \<open>A finished task stays as it is\<close>

text \<open>
  A step is the creation of a task, a transition, or an update by the runner, which writes
  metadata, the run and the artifact but neither the status nor the plan.
\<close>

inductive task_step :: "research_task list \<Rightarrow> research_task list \<Rightarrow> bool" where
  create: "create_task tx now new_id token prin project thread topic source_policy output_format metadata T = Inr (r, T')
    \<Longrightarrow> task_step T T'"
| transition: "transition_task now now_iso i action upd T = Inr (r, T') \<Longrightarrow> task_step T T'"
| runner: "\<not> dhas upd ''status'' \<Longrightarrow> \<not> dhas upd ''plan'' \<Longrightarrow> research_task_update now i upd T = (r, T') \<Longrightarrow> task_step T T'"

definition finished_as :: "string \<Rightarrow> string \<Rightarrow> pydict \<Rightarrow> research_task list \<Rightarrow> bool" where
  "finished_as i status plan T \<longleftrightarrow>
     (case tbl_get rt_research_task_id i T of
        Some r \<Rightarrow> rt_status r = status \<and> status \<in> set terminal_statuses \<and> rt_plan r = plan
      | None \<Rightarrow> False)"

lemma updated_task_fields:
  "rt_status (updated_task now upd r) = task_text_field upd ''status'' (rt_status r)"
  "rt_plan (updated_task now upd r) = task_dict_field upd ''plan'' (rt_plan r)"
  "rt_research_task_id (updated_task now upd r) = rt_research_task_id r"
  "rt_id (updated_task now upd r) = rt_id r"
proof -
  have "rt_status (updated_task now upd r) = task_text_field upd ''status'' (rt_status r)
      \<and> rt_plan (updated_task now upd r) = task_dict_field upd ''plan'' (rt_plan r)
      \<and> rt_research_task_id (updated_task now upd r) = rt_research_task_id r \<and> rt_id (updated_task now upd r) = rt_id r"
    unfolding updated_task_def Let_def
    by (split if_split) (auto dest: arg_cong [of _ _ rt_status] arg_cong [of _ _ rt_plan])
  then show "rt_status (updated_task now upd r) = task_text_field upd ''status'' (rt_status r)"
    "rt_plan (updated_task now upd r) = task_dict_field upd ''plan'' (rt_plan r)"
    "rt_research_task_id (updated_task now upd r) = rt_research_task_id r"
    "rt_id (updated_task now upd r) = rt_id r" by blast+
qed

lemma dhas_dget: "\<not> dhas d k \<Longrightarrow> dget d k = PNone"
  by (auto simp: dhas_def dget_def split: option.splits)

lemma update_keeps_finished:
  assumes "finished_as i status plan T" and keeps: "task_text_field upd ''status'' status = status" "task_dict_field upd ''plan'' plan = plan"
  shows "finished_as i status plan (tbl_upd rt_research_task_id i (updated_task now upd) T)"
proof -
  have "row_op rt_research_task_id (updated_task now upd)" by unfold_locales (rule updated_task_fields)
  from row_op.get_upd_same [OF this, of i T] show ?thesis
    using assms by (auto simp: finished_as_def updated_task_fields split: option.splits)
qed

lemma update_other_finished:
  assumes "finished_as i status plan T" and "j \<noteq> i"
  shows "finished_as i status plan (tbl_upd rt_research_task_id j (updated_task now upd) T)"
proof -
  have "row_op rt_research_task_id (updated_task now upd)" by unfold_locales (rule updated_task_fields)
  from row_op.get_upd_other [OF this, of i j T] show ?thesis
    using assms by (auto simp: finished_as_def)
qed

lemma dget_dset_other: "k \<noteq> k' \<Longrightarrow> dget (dset k v d) k' = dget d k'"
  by simp

text \<open>What a transition may write into a finished task: its own status, and no plan.\<close>

lemma transition_fields_of_finished:
  assumes "status \<in> set terminal_statuses"
    and "normalized_transition_fields now_iso status action upd existing = Inr upd'"
  shows "dget upd' ''plan'' = PNone \<and> (dget upd' ''status'' = PNone \<or> dget upd' ''status'' = PStr status)"
proof -
  have st: "or_str (lower (strip (or_str status ''planned''))) ''planned'' = status"
    "status \<noteq> ''planned''" "status \<noteq> ''approved''" "status \<noteq> []"
    using assms(1) by (auto simp: terminal_statuses_def) code_simp+
  let ?a = "lower (strip action)"
  have plan: "\<not> dhas upd ''plan''"
    using assms by (auto simp: normalized_transition_fields_def Let_def st(1) split: if_splits)
  obtain requested u where r: "requested_status ?a status upd = Inr requested" "target_fields ?a status requested upd = Inr u"
    and u: "(if ?a \<noteq> [] \<or> requested \<noteq> PNone then logged_fields now_iso ?a status existing u else Inr u) = Inr upd'"
    using assms(2) plan by (auto simp: normalized_transition_fields_def Let_def st(1) rbind_def split: sum.splits if_splits)
  have no_action: "?a = []"
  proof (rule ccontr)
    assume a: "?a \<noteq> []"
    obtain s where s: "action_status ?a status = Inr s"
      using r(1) a by (auto simp: requested_status_def rbind_def split: sum.splits)
    then show False using assms(1) st(2,3) by (auto simp: action_status_def Let_def split: if_splits)
  qed
  have us: "dget u ''plan'' = PNone" "dget u ''status'' = PNone \<or> dget u ''status'' = PStr status"
    using r dhas_dget [OF plan] assms(1) no_action
    by (auto simp: target_fields_def requested_status_def Let_def split: if_splits)
  have "dget upd' ''plan'' = dget u ''plan''" "dget upd' ''status'' = dget u ''status''"
    using u by (auto simp: logged_fields_def Let_def split: if_splits sum.splits)
  then show ?thesis using us by simp
qed


lemma task_text_field_status:
  "dget upd ''status'' = PNone \<or> dget upd ''status'' = PStr status \<Longrightarrow> task_text_field upd ''status'' status = status"
  by (auto simp: task_text_field_def str_or_def py_or_def)

lemma finished_step:
  assumes step: "task_step T T'" and fin: "finished_as i status plan T" and i: "strip i = i"
  shows "finished_as i status plan T'"
  using step fin
proof (induction rule: task_step.induct)
  case (create tx now new_id token prin project thread topic source_policy output_format metadata T r T')
  then obtain row where "insert_row rt_clash ''research_tasks'' row T = Inr (r, T')"
    by (auto simp: create_task_def research_task_create_def split: if_splits sum.splits)
  then have "T' = T @ [r]" by (auto simp: insert_row_def split: if_splits)
  then show ?case using create(2) by (auto simp: finished_as_def tbl_get_append split: option.splits)
next
  case (transition now now_iso j action upd T r T')
  show ?case
  proof (cases "get_by_research_task_id j T")
    case None
    then show ?thesis using transition by (simp add: transition_task_def)
  next
    case (Some row)
    then obtain upd' where u: "normalized_transition_fields now_iso (or_str (rt_status row) ''planned'') action upd (rt_meta row) = Inr upd'"
      and T': "T' = tbl_upd rt_research_task_id (strip j) (updated_task now upd') T"
      using transition(1) by (auto simp: transition_task_def rbind_def research_task_update_def split: sum.splits)
    show ?thesis
    proof (cases "strip j = i")
      case True
      then have row: "rt_status row = status" "status \<in> set terminal_statuses" "rt_plan row = plan"
        using Some transition(2) by (auto simp: finished_as_def get_by_research_task_id_def)
      have "status \<noteq> []" using row(2) by (auto simp: terminal_statuses_def)
      with u row(1) have "normalized_transition_fields now_iso status action upd (rt_meta row) = Inr upd'" by (simp add: or_str_def)
      from transition_fields_of_finished [OF row(2) this] show ?thesis
        unfolding T' True by (intro update_keeps_finished [OF transition(2)]) (simp_all add: task_text_field_status task_dict_field_def)
    next
      case False
      then show ?thesis unfolding T' by (rule update_other_finished [OF transition(2)])
    qed
  qed
next
  case (runner upd now j T r T')
  have T': "T' = tbl_upd rt_research_task_id (strip j) (updated_task now upd) T"
    using runner(3) by (simp add: research_task_update_def)
  show ?case
  proof (cases "strip j = i")
    case True
    show ?thesis unfolding T' True
      by (rule update_keeps_finished [OF runner(4)]) (simp_all add: task_text_field_def task_dict_field_def dhas_dget runner(1,2))
  next
    case False
    then show ?thesis unfolding T' by (rule update_other_finished [OF runner(4)])
  qed
qed

text \<open>(C19)
  A finished task stays as it is. Once a research task is cancelled, completed or failed, no
  sequence of creations, transitions and updates by the runner changes its status or its plan.
\<close>

theorem finished_task_is_final:
  assumes t: "tbl_get rt_research_task_id i T = Some r" and i: "strip i = i"
    and finished: "rt_status r \<in> set terminal_statuses"
    and steps: "task_step\<^sup>*\<^sup>* T T'"
  shows "\<exists>r'. tbl_get rt_research_task_id i T' = Some r' \<and> rt_status r' = rt_status r \<and> rt_plan r' = rt_plan r"
proof -
  have "finished_as i (rt_status r) (rt_plan r) T" using t finished by (simp add: finished_as_def)
  with steps have "finished_as i (rt_status r) (rt_plan r) T'"
    by (induction rule: rtranclp_induct) (use finished_step i in blast)+
  then show ?thesis by (auto simp: finished_as_def split: option.splits)
qed

definition ex_task :: "string \<Rightarrow> research_task" where
  "ex_task status = \<lparr>rt_id = ''r1'', rt_research_task_id = ''res_1'', rt_principal_id = ''p1'', rt_project_id = None,
     rt_thread_id = None, rt_run_id = PNone, rt_artifact_id = PNone, rt_topic = ''bees'', rt_status = status,
     rt_plan = [(''topic'', PStr ''bees'')], rt_source_policy = [], rt_evidence_ledger = [], rt_output_format = ''markdown'',
     rt_summary = [], rt_meta = [], rt_created_at = 1, rt_updated_at = 1\<rparr>"

theorem finished_task_is_final_witness:
  "\<exists>T r'. transition_task 5 ''5'' ''res_1'' [] [(''summary'', PStr ''done'')] [ex_task ''completed''] = Inr (Some (T ! 0), T)
     \<and> rt_summary (T ! 0) = ''done'' \<and> T = [r'] \<and> rt_status r' = ''completed'' \<and> rt_plan r' = [(''topic'', PStr ''bees'')]"
proof -
  let ?call = "transition_task 5 ''5'' ''res_1'' [] [(''summary'', PStr ''done'')] [ex_task ''completed'']"
  have c: "\<not> isl ?call" "fst (projr ?call) = Some (snd (projr ?call) ! 0)" "rt_summary (snd (projr ?call) ! 0) = ''done''"
    "tbl_get rt_research_task_id ''res_1'' (snd (projr ?call)) = Some (snd (projr ?call) ! 0)"
    "length (snd (projr ?call)) = 1"
    by code_simp+
  have call: "?call = Inr (fst (projr ?call), snd (projr ?call))" using Inr_projr [OF c(1)] by simp
  have i: "strip ''res_1'' = ''res_1''" by code_simp
  have t: "tbl_get rt_research_task_id ''res_1'' [ex_task ''completed''] = Some (ex_task ''completed'')"
    by (simp add: ex_task_def)
  have f: "rt_status (ex_task ''completed'') = ''completed''" "rt_plan (ex_task ''completed'') = [(''topic'', PStr ''bees'')]"
    "''completed'' \<in> set terminal_statuses" by (simp_all add: ex_task_def terminal_statuses_def)
  obtain r' where r': "tbl_get rt_research_task_id ''res_1'' (snd (projr ?call)) = Some r'" "rt_status r' = ''completed''"
    "rt_plan r' = [(''topic'', PStr ''bees'')]"
    using finished_task_is_final [OF t i _ r_into_rtranclp [of task_step, OF task_step.transition [OF call]]] f by auto
  have "snd (projr ?call) = [snd (projr ?call) ! 0]" using c(5) by (cases "snd (projr ?call)") auto
  then show ?thesis using call c(2,3,4) r' by (intro exI [of _ "snd (projr ?call)"] exI [of _ r']) simp
qed

text \<open>The plan of a running task is not locked. While a task runs its plan cannot be written, but its
  status can be set back to planned without an action, and then the plan can be replaced and the
  task started again.
\<close>

definition replanned :: "research_error + research_task option \<times> research_task list" where
  "replanned =
     rbind (transition_task 2 ''2'' ''res_1'' [] [(''status'', PStr ''planned'')] [ex_task ''running'']) (\<lambda>(_, T).
     rbind (transition_task 3 ''3'' ''res_1'' [] [(''plan'', PDict [(''topic'', PStr ''wasps'')])] T) (\<lambda>(_, T).
       transition_task 4 ''4'' ''res_1'' ''start'' [] T))"

theorem running_plan_can_be_replaced:
  "transition_task 2 ''2'' ''res_1'' [] [(''plan'', PDict [(''topic'', PStr ''wasps'')])] [ex_task ''running'']
     = Inl (StateError ''research_plan_locked'')
   \<and> map (\<lambda>r. (rt_status r, rt_plan r)) (snd (projr replanned)) = [(''running'', [(''topic'', PStr ''wasps'')])]"
  by code_simp

end
