(* ===== verification/Tool_Executor.thy ===== *)
theory Tool_Executor
  imports Tool_Authorization Model_History
begin

text \<open>
  Execution of a tool call: \<^verbatim>\<open>core/tool_runtime/executor.py\<close> and the results of
  \<^verbatim>\<open>core/tool_runtime/models.py\<close>. Every call goes through the authorization gateway; what it
  allows runs as a built-in function or on an MCP server.

  A built-in tool is the names of its parameters and a function from its keyword arguments to an
  outcome; the answer of an MCP server is an argument. \<open>loads\<close> is \<open>json.loads\<close> (None where it
  raises) and \<open>validate\<close> the check of the pydantic model on a dictionary (None where it fails).
  An execution records what was invoked and what the observer was told; exceptions of the
  observer are ignored by the code. \<open>now_iso\<close> is the time stamp of an error.
\<close>

section \<open>Results\<close>

record tool_content =
  tc_kind :: string
  tc_text :: string
  tc_data :: pyval

record tool_error =
  te_code :: string
  te_category :: string
  te_message :: string
  te_retryable :: bool
  te_details :: pydict
  te_occurred_at :: string

record tool_result =
  tres_tool_name :: string
  tres_ok :: bool
  tres_source :: string
  tres_action_risk :: string
  tres_content :: tool_content
  tres_error :: "tool_error option"
  tres_metadata :: pydict

definition no_content :: tool_content where
  "no_content = \<lparr>tc_kind = ''empty'', tc_text = [], tc_data = PNone\<rparr>"

text \<open>What a tool may return: a JSON value, content, a result ready made (with its text), or another
  object, given by its text.\<close>

datatype raw_output =
    RawValue pyval
  | RawContent tool_content
  | RawResult tool_result string
  | RawOther string

fun normalize_tool_output :: "(string \<Rightarrow> pyval option) \<Rightarrow> raw_output \<Rightarrow> tool_content" where
  "normalize_tool_output loads (RawContent c) = c"
| "normalize_tool_output loads (RawValue PNone) = no_content"
| "normalize_tool_output loads (RawValue (PStr s)) =
     (if strip s = [] then no_content
      else case loads s of
             None \<Rightarrow> \<lparr>tc_kind = ''text'', tc_text = s, tc_data = PNone\<rparr>
           | Some v \<Rightarrow> \<lparr>tc_kind = ''json'', tc_text = s, tc_data = v\<rparr>)"
| "normalize_tool_output loads (RawValue v) = \<lparr>tc_kind = ''json'', tc_text = json_dumps v, tc_data = v\<rparr>"
| "normalize_tool_output loads (RawOther s) = \<lparr>tc_kind = ''text'', tc_text = s, tc_data = PNone\<rparr>"
| "normalize_tool_output loads (RawResult _ s) = \<lparr>tc_kind = ''text'', tc_text = s, tc_data = PNone\<rparr>"

definition success :: "(string \<Rightarrow> pyval option) \<Rightarrow> string \<Rightarrow> string \<Rightarrow> string \<Rightarrow> raw_output \<Rightarrow> pydict \<Rightarrow> tool_result" where
  "success loads tool_name source risk raw metadata =
     \<lparr>tres_tool_name = tool_name, tres_ok = True, tres_source = source, tres_action_risk = risk,
      tres_content = normalize_tool_output loads raw, tres_error = None, tres_metadata = metadata\<rparr>"

definition failure ::
  "string \<Rightarrow> string \<Rightarrow> string \<Rightarrow> string \<Rightarrow> string \<Rightarrow> string \<Rightarrow> string \<Rightarrow> bool \<Rightarrow> pydict \<Rightarrow> pydict \<Rightarrow> tool_result" where
  "failure now_iso tool_name source risk err_code category message retryable details metadata =
     \<lparr>tres_tool_name = tool_name, tres_ok = False, tres_source = source, tres_action_risk = risk,
      tres_content = no_content,
      tres_error = Some \<lparr>te_code = err_code, te_category = category, te_message = message, te_retryable = retryable,
        te_details = details, te_occurred_at = now_iso\<rparr>,
      tres_metadata = metadata\<rparr>"

definition normalize_tool_result ::
  "(string \<Rightarrow> pyval option) \<Rightarrow> (pydict \<Rightarrow> tool_result option) \<Rightarrow> string \<Rightarrow> string \<Rightarrow> string \<Rightarrow> pydict \<Rightarrow> raw_output \<Rightarrow> tool_result" where
  "normalize_tool_result loads validate tool_name source risk metadata raw =
     (case raw of
        RawResult r _ \<Rightarrow> r
      | RawValue (PDict d) \<Rightarrow>
          (case (if dhas d ''tool_name'' \<and> dhas d ''ok'' then validate d else None) of
             Some r \<Rightarrow> r
           | None \<Rightarrow> success loads tool_name source risk raw metadata)
      | _ \<Rightarrow> success loads tool_name source risk raw metadata)"

text \<open>The text of a result for the model, \<open>as_message_content\<close>.\<close>

definition content_dict :: "tool_content \<Rightarrow> pydict" where
  "content_dict c =
     (if tc_kind c = ''json'' \<and> tc_data c \<noteq> PNone then [(''kind'', PStr ''json''), (''data'', tc_data c)]
      else [(''kind'', PStr (tc_kind c)), (''text'', PStr (tc_text c)), (''data'', tc_data c)])"

definition error_dict :: "tool_error \<Rightarrow> pydict" where
  "error_dict e =
     [(''code'', PStr (te_code e)), (''category'', PStr (te_category e)), (''message'', PStr (te_message e)),
      (''retryable'', PBool (te_retryable e)), (''details'', PDict (te_details e)), (''occurred_at'', PStr (te_occurred_at e))]"

definition as_message_content :: "tool_result \<Rightarrow> string" where
  "as_message_content r = json_dumps (PDict
     [(''tool_name'', PStr (tres_tool_name r)), (''ok'', PBool (tres_ok r)), (''source'', PStr (tres_source r)),
      (''action_risk'', PStr (tres_action_risk r)), (''content'', PDict (content_dict (tres_content r))),
      (''error'', case tres_error r of None \<Rightarrow> PNone | Some e \<Rightarrow> PDict (error_dict e)), (''metadata'', PDict (tres_metadata r))])"

section \<open>Built-in tools\<close>

text \<open>A keyword argument: a value of the call, or one of the objects the executor passes.\<close>

datatype call_value = Arg pyval | SourceObject | ActivityCallback

type_synonym call_kwargs = "(string \<times> call_value) list"

record tool_exception =
  tx_type :: string
  tx_text :: string
  tx_code :: string
  tx_message :: string
  tx_details :: pydict
  tx_retryable :: bool

text \<open>\<open>Raised\<close> carries what \<open>getattr\<close> finds on the exception, the defaults included. Being
  cancelled is not an \<open>Exception\<close> and is not caught.\<close>

datatype tool_outcome =
    Returned raw_output
  | RaisedTypeError string string
  | Raised tool_exception
  | CancelledCall

record builtin =
  bt_parameters :: "string list"
  bt_run :: "call_kwargs \<Rightarrow> tool_outcome"

record call_context =
  cc_session_id :: string
  cc_route_context :: "pydict option"

definition injected :: "string \<Rightarrow> call_value \<Rightarrow> builtin \<Rightarrow> call_kwargs \<Rightarrow> call_kwargs" where
  "injected name v b kwargs = (if name \<in> set (bt_parameters b) then dset name v kwargs else kwargs)"

definition builtin_kwargs :: "call_context \<Rightarrow> builtin \<Rightarrow> pydict \<Rightarrow> call_kwargs" where
  "builtin_kwargs ctx b args =
     injected ''route_context'' (Arg (PDict (dict_or (cc_route_context ctx)))) b
       (injected ''activity_callback'' ActivityCallback b
         (injected ''source'' SourceObject b
           (injected ''session_id'' (Arg (PStr (cc_session_id ctx))) b (map (\<lambda>(k, v). (k, Arg v)) args))))"

definition exception_details :: "string \<Rightarrow> string \<Rightarrow> string \<Rightarrow> pydict" where
  "exception_details tool_name ty msg =
     [(''tool_name'', PStr tool_name), (''exception_type'', PStr ty), (''exception_message'', PStr msg)]"

definition builtin_result ::
  "(string \<Rightarrow> pyval option) \<Rightarrow> (pydict \<Rightarrow> tool_result option) \<Rightarrow> string \<Rightarrow> string \<Rightarrow> string \<Rightarrow> tool_outcome \<Rightarrow> tool_result option" where
  "builtin_result loads validate now_iso tool_name risk outcome =
     (case outcome of
        Returned raw \<Rightarrow> Some (normalize_tool_result loads validate tool_name ''builtin'' risk [] raw)
      | RaisedTypeError ty msg \<Rightarrow>
          Some (failure now_iso tool_name ''builtin'' risk ''tool_argument_mismatch'' ''validation''
            ''Tool arguments did not match the expected signature.'' False (exception_details tool_name ty msg) [])
      | Raised e \<Rightarrow>
          Some (failure now_iso tool_name ''builtin'' risk (tx_code e) ''execution'' (tx_message e) (tx_retryable e)
            (dmerge (exception_details tool_name (tx_type e) (tx_text e)) (tx_details e)) [])
      | CancelledCall \<Rightarrow> None)"

section \<open>MCP tools\<close>

text \<open>An item of the answer: a text with its \<open>model_dump\<close>, a dictionary, another model with its
  dump, or another object with its text.\<close>

datatype mcp_item = TextItem string pyval | DictItem pydict | ModelItem pyval | OtherItem string

datatype mcp_answer = McpObject "mcp_item list" "pyval option" | McpPlain pyval

datatype mcp_outcome = McpAnswer mcp_answer | McpTimeout | McpRaised string string | McpCancelled

fun text_chunks :: "mcp_item list \<Rightarrow> string list" where
  "text_chunks [] = []"
| "text_chunks (TextItem s _ # items) = (if strip s \<noteq> [] then s # text_chunks items else text_chunks items)"
| "text_chunks (_ # items) = text_chunks items"

fun normalized_item :: "mcp_item \<Rightarrow> pyval" where
  "normalized_item (TextItem _ dump) = dump"
| "normalized_item (DictItem d) = PDict d"
| "normalized_item (ModelItem dump) = dump"
| "normalized_item (OtherItem s) = PStr s"

fun extract_mcp_output :: "mcp_answer \<Rightarrow> pyval" where
  "extract_mcp_output (McpObject content structured) =
     (if content \<noteq> [] then
        (if text_chunks content \<noteq> [] then PStr (join [char_of (10::nat)] (text_chunks content))
         else PList (map normalized_item content))
      else case structured of Some v \<Rightarrow> v | None \<Rightarrow> PNone)"
| "extract_mcp_output (McpPlain v) = (case v of PDict _ \<Rightarrow> v | PList _ \<Rightarrow> v | PStr _ \<Rightarrow> v | _ \<Rightarrow> PNone)"

definition timeout_value :: "string \<Rightarrow> pyval" where
  "timeout_value tool_name = (if is_browser_tool tool_name then PFloat 30 ''30.0'' else PFloat 10 ''10.0'')"

definition mcp_result ::
  "(string \<Rightarrow> pyval option) \<Rightarrow> (pydict \<Rightarrow> tool_result option) \<Rightarrow> string \<Rightarrow> string \<Rightarrow> string \<Rightarrow> string \<Rightarrow> mcp_outcome \<Rightarrow> tool_result option" where
  "mcp_result loads validate now_iso server tool_name risk outcome =
     (let metadata = [(''server_name'', PStr server), (''timeout_seconds'', timeout_value tool_name)];
          details = [(''tool_name'', PStr tool_name), (''server_name'', PStr server)]
      in case outcome of
           McpAnswer answer \<Rightarrow>
             (let raw = extract_mcp_output answer in
              if raw = PNone \<or> raw = PStr []
              then Some (failure now_iso tool_name ''mcp'' risk ''mcp_empty_result'' ''dependency''
                     ''MCP tool returned no usable content.'' False details metadata)
              else Some (normalize_tool_result loads validate tool_name ''mcp'' risk metadata (RawValue raw)))
         | McpTimeout \<Rightarrow>
             Some (failure now_iso tool_name ''mcp'' risk ''tool_timeout'' ''timeout'' ''Tool execution timed out.'' True
               (details @ [(''timeout_seconds'', timeout_value tool_name)]) metadata)
         | McpRaised ty msg \<Rightarrow>
             Some (failure now_iso tool_name ''mcp'' risk ''mcp_tool_failed'' ''dependency'' ''MCP tool execution failed.'' True
               (details @ [(''exception_type'', PStr ty), (''exception_message'', PStr msg)]) metadata)
         | McpCancelled \<Rightarrow> None)"

section \<open>The executor\<close>

datatype invocation = RanBuiltin string call_kwargs | RanMcp string pydict

record execution =
  ex_result :: tool_result
  ex_invoked :: "invocation list"
  ex_observed :: "pydict option"

datatype execute_error = GatewayRaised pyerr | WasCancelled "invocation list"

record executor_env =
  ee_loads :: "string \<Rightarrow> pyval option"
  ee_validate :: "pydict \<Rightarrow> tool_result option"
  ee_now_iso :: string
  ee_paths :: path_env
  ee_gateway :: "gateway option"
  ee_risks :: "(string \<times> string) list"
  ee_builtins :: "(string \<times> builtin) list"
  ee_tool_map :: "(string \<times> string) list"
  ee_mcp :: "string \<Rightarrow> pydict \<Rightarrow> mcp_outcome"

fun type_name :: "pyval \<Rightarrow> string" where
  "type_name PNone = ''NoneType''"
| "type_name (PBool _) = ''bool''"
| "type_name (PInt _) = ''int''"
| "type_name (PFloat _ _) = ''float''"
| "type_name (PStr _) = ''str''"
| "type_name (PList _) = ''list''"
| "type_name (PDict _) = ''dict''"

definition attach_authorization :: "authorization_decision option \<Rightarrow> tool_result \<Rightarrow> tool_result" where
  "attach_authorization decision r =
     (case decision of
        None \<Rightarrow> r
      | Some d \<Rightarrow> r\<lparr>tres_metadata := dset ''authorization'' (PDict (decision_to_dict d)) (tres_metadata r)\<rparr>)"

definition finish_execution ::
  "authorization_decision option \<Rightarrow> pydict \<Rightarrow> invocation list \<Rightarrow> tool_result option \<Rightarrow> execute_error + execution" where
  "finish_execution decision args invoked result =
     (case result of
        None \<Rightarrow> Inl (WasCancelled invoked)
      | Some r \<Rightarrow> Inr \<lparr>ex_result = attach_authorization decision r, ex_invoked = invoked, ex_observed = Some args\<rparr>)"

definition run_allowed ::
  "executor_env \<Rightarrow> string \<Rightarrow> pydict \<Rightarrow> call_context \<Rightarrow> authorization_decision option \<Rightarrow> execute_error + execution" where
  "run_allowed env tool_name args ctx decision =
     (let risk = get_tool_action_risk (ee_risks env) tool_name in
      case map_of (ee_builtins env) tool_name of
        Some b \<Rightarrow>
          (let kwargs = builtin_kwargs ctx b args
           in finish_execution decision args [RanBuiltin tool_name kwargs]
                (builtin_result (ee_loads env) (ee_validate env) (ee_now_iso env) tool_name risk (bt_run b kwargs)))
      | None \<Rightarrow>
          (case map_of (ee_tool_map env) tool_name of
             Some server \<Rightarrow>
               finish_execution decision args [RanMcp tool_name args]
                 (mcp_result (ee_loads env) (ee_validate env) (ee_now_iso env) server tool_name risk (ee_mcp env tool_name args))
           | None \<Rightarrow>
               finish_execution decision args []
                 (Some (failure (ee_now_iso env) tool_name ''unknown'' risk ''tool_not_found'' ''not_found''
                    ''Requested tool is not registered.'' False [(''tool_name'', PStr tool_name)] []))))"

definition denied_result :: "executor_env \<Rightarrow> string \<Rightarrow> authorization_decision \<Rightarrow> tool_result" where
  "denied_result env tool_name d =
     failure (ee_now_iso env) tool_name ''unknown'' (get_tool_action_risk (ee_risks env) tool_name)
       (or_str (ad_reason_code d) ''tool_not_allowed'') ''permission''
       (or_str (ad_reason_message d) ''Tool call was denied by the authorization gateway.'') False (ad_details d)
       [(''authorization'', PDict (decision_to_dict d))]"

definition execute :: "executor_env \<Rightarrow> string \<Rightarrow> pyval \<Rightarrow> call_context \<Rightarrow> execute_error + execution" where
  "execute env tool_name tool_args ctx =
     (case (case tool_args of PNone \<Rightarrow> Some [] | PDict d \<Rightarrow> Some d | _ \<Rightarrow> None) of
        None \<Rightarrow>
          Inr \<lparr>ex_result = failure (ee_now_iso env) tool_name ''unknown'' (get_tool_action_risk (ee_risks env) tool_name)
                 ''tool_arguments_invalid'' ''validation'' ''Tool arguments must be a JSON object.'' False
                 [(''tool_name'', PStr tool_name), (''provided_type'', PStr (type_name tool_args))] [],
               ex_invoked = [], ex_observed = None\<rparr>
      | Some args \<Rightarrow>
          (case ee_gateway env of
             None \<Rightarrow> run_allowed env tool_name args ctx None
           | Some gw \<Rightarrow>
               (case decide (ee_paths env) gw tool_name (Some args) (Some (dict_or (cc_route_context ctx))) of
                  Inl e \<Rightarrow> Inl (GatewayRaised e)
                | Inr d \<Rightarrow>
                    if \<not> ad_allowed d
                    then Inr \<lparr>ex_result = denied_result env tool_name d, ex_invoked = [], ex_observed = Some args\<rparr>
                    else run_allowed env tool_name args ctx (Some d))))"

section \<open>Nothing runs without permission\<close>

text \<open>What was invoked, whether or not the execution was cancelled.\<close>

definition invoked_by :: "execute_error + execution \<Rightarrow> invocation list" where
  "invoked_by x = (case x of Inr e \<Rightarrow> ex_invoked e | Inl (WasCancelled is) \<Rightarrow> is | Inl (GatewayRaised _) \<Rightarrow> [])"

lemma invoked_finish [simp]: "invoked_by (finish_execution decision args is r) = is"
  by (simp add: finish_execution_def invoked_by_def split: option.split)

lemma invoked_run_allowed:
  "invoked_by (run_allowed env tool_name args ctx decision) =
     (case map_of (ee_builtins env) tool_name of
        Some b \<Rightarrow> [RanBuiltin tool_name (builtin_kwargs ctx b args)]
      | None \<Rightarrow> (case map_of (ee_tool_map env) tool_name of Some server \<Rightarrow> [RanMcp tool_name args] | None \<Rightarrow> []))"
  by (simp add: run_allowed_def Let_def split: option.split)

lemma injected_get: "map_of (injected name v b kwargs) k =
    (if k = name \<and> name \<in> set (bt_parameters b) then Some v else map_of kwargs k)"
  by (simp add: injected_def)

lemma map_of_args: "map_of (map (\<lambda>(k, v). (k, Arg v)) args) k = map_option Arg (map_of args k)"
  by (induction args) auto

text \<open>(C12)
  Nothing runs without permission. Whatever a call of the executor with a gateway invokes, the
  gateway had allowed exactly this tool with exactly these arguments, it is invoked once, and it
  is invoked as the built-in function of that name, or else as the MCP tool of that name with the
  same arguments.
\<close>

theorem nothing_runs_without_permission:
  assumes gw: "ee_gateway env = Some gw" and ran: "invoked_by (execute env tool_name tool_args ctx) \<noteq> []"
  shows "\<exists>args d. (tool_args = PDict args \<or> tool_args = PNone \<and> args = [])
    \<and> decide (ee_paths env) gw tool_name (Some args) (Some (dict_or (cc_route_context ctx))) = Inr d \<and> ad_allowed d
    \<and> invoked_by (execute env tool_name tool_args ctx)
        = (case map_of (ee_builtins env) tool_name of
             Some b \<Rightarrow> [RanBuiltin tool_name (builtin_kwargs ctx b args)]
           | None \<Rightarrow> [RanMcp tool_name args])"
proof -
  obtain args where args: "(case tool_args of PNone \<Rightarrow> Some [] | PDict d \<Rightarrow> Some d | _ \<Rightarrow> None) = Some args"
    using ran by (cases tool_args) (auto simp: execute_def invoked_by_def)
  let ?d = "decide (ee_paths env) gw tool_name (Some args) (Some (dict_or (cc_route_context ctx)))"
  obtain d where d: "?d = Inr d" "ad_allowed d"
    using ran by (auto simp: execute_def args gw invoked_by_def split: sum.splits if_splits)
  have x: "execute env tool_name tool_args ctx = run_allowed env tool_name args ctx (Some d)"
    by (simp add: execute_def args gw d)
  have "tool_args = PDict args \<or> tool_args = PNone \<and> args = []" using args by (cases tool_args) auto
  then show ?thesis using ran d unfolding x invoked_run_allowed
    by (intro exI [of _ args] exI [of _ d]) (auto split: option.splits)
qed

text \<open>The arguments the executor passes cannot be forged. A built-in function that takes the session,
  the source, the callback or the route context gets the executor's, whatever a call of that name
  says; every other argument is the one of the call.
\<close>

theorem injected_arguments_not_forged:
  "(\<lambda>k. map_of (builtin_kwargs ctx b args) k) =
     (\<lambda>k. if k \<in> set (bt_parameters b) \<inter> {''session_id'', ''source'', ''activity_callback'', ''route_context''}
          then map_of [(''session_id'', Arg (PStr (cc_session_id ctx))), (''source'', SourceObject),
                 (''activity_callback'', ActivityCallback), (''route_context'', Arg (PDict (dict_or (cc_route_context ctx))))] k
          else map_option Arg (map_of args k))"
  by (rule ext) (simp add: builtin_kwargs_def injected_get map_of_args; auto)

definition example_builtin :: builtin where
  "example_builtin = \<lparr>bt_parameters = [''text'', ''session_id''], bt_run = (\<lambda>_. Returned (RawValue (PStr ''ok'')))\<rparr>"

definition example_env :: executor_env where
  "example_env =
     \<lparr>ee_loads = (\<lambda>_. None), ee_validate = (\<lambda>_. None), ee_now_iso = ''now'', ee_paths = example_paths,
      ee_gateway = Some example_gateway, ee_risks = default_tool_action_risks,
      ee_builtins = [(''note_search'', example_builtin)], ee_tool_map = [], ee_mcp = (\<lambda>_ _. McpTimeout)\<rparr>"

theorem nothing_runs_without_permission_witness:
  "invoked_by (execute example_env ''note_search'' (PDict [(''session_id'', PStr ''forged'')]) \<lparr>cc_session_id = ''s1'', cc_route_context = None\<rparr>)
     = [RanBuiltin ''note_search'' [(''session_id'', Arg (PStr ''s1''))]]
   \<and> (\<exists>d. decide example_paths example_gateway ''note_search'' (Some [(''session_id'', PStr ''forged'')]) (Some []) = Inr d \<and> ad_allowed d)"
proof -
  let ?ctx = "\<lparr>cc_session_id = ''s1'', cc_route_context = None\<rparr> :: call_context"
  let ?args = "[(''session_id'', PStr ''forged'')]"
  have inv: "invoked_by (execute example_env ''note_search'' (PDict ?args) ?ctx)
      = [RanBuiltin ''note_search'' [(''session_id'', Arg (PStr ''s1''))]]" by code_simp
  have gw: "ee_gateway example_env = Some example_gateway" by (simp add: example_env_def)
  have ran: "invoked_by (execute example_env ''note_search'' (PDict ?args) ?ctx) \<noteq> []" unfolding inv by simp
  from nothing_runs_without_permission [OF gw ran] inv show ?thesis
    by (auto simp: example_env_def dict_or_def)
qed

end
