(* ===== verification/Session_Actor.thy ===== *)
theory Session_Actor
  imports Py_Base "HOL-Library.List_Lexorder" "HOL-Library.Char_ord"
begin

text \<open>
  The queue of a session: \<^verbatim>\<open>core/session_actor.py\<close>. Every session has an actor, a queue of
  payloads and a task that hands one payload after the other to a handler; the runtime keeps the
  actors and shuts them down.

  A coroutine is cut at its suspension points, so that every function below is what the event
  loop runs without interruption. \<open>ac_calls\<close> are the payloads the handler was called with, in
  order. How a handler ends is a parameter of the step \<open>handler_ends\<close>: a handler that is asked
  to stop may end as cancelled, or catch the request and return or raise. The lock of the runtime
  is never held across a suspension point and is left out.
\<close>

section \<open>The actor of a session\<close>

datatype 'p queue_item = Payload 'p | StopMark

datatype handler_end = HandlerReturned | HandlerRaised | HandlerCancelled

text \<open>The task of the actor: waiting for a payload, waiting for the handler (and whether its
  cancellation was requested), or not yet resumed after the handler ended.\<close>

datatype 'p runner = NotStarted | Waiting | Handling 'p bool | Settled 'p bool handler_end | Ended

text \<open>The call of \<open>stop\<close>: waiting for the handler it cancelled, with its end once it has one;
  the mark is in the queue; the exception of the handler ended the call.\<close>

datatype stop_phase = NotStopping | StopAwaits "handler_end option" | StopQueued | StopGaveUp

record 'p actor =
  ac_queue :: "'p queue_item list"
  ac_unfinished :: nat
  ac_closed :: bool
  ac_runner :: "'p runner"
  ac_stop :: stop_phase
  ac_calls :: "'p list"

definition new_actor :: "'p actor" where
  "new_actor = \<lparr>ac_queue = [], ac_unfinished = 0, ac_closed = False, ac_runner = NotStarted,
     ac_stop = NotStopping, ac_calls = []\<rparr>"

definition ensure_started :: "'p actor \<Rightarrow> 'p actor" where
  "ensure_started A = (if ac_runner A = NotStarted \<or> ac_runner A = Ended then A\<lparr>ac_runner := Waiting\<rparr> else A)"

definition put :: "'p queue_item \<Rightarrow> 'p actor \<Rightarrow> 'p actor" where
  "put x A = A\<lparr>ac_queue := ac_queue A @ [x], ac_unfinished := ac_unfinished A + 1\<rparr>"

definition enqueue_payload :: "string \<Rightarrow> 'p \<Rightarrow> 'p actor \<Rightarrow> pyerr + 'p actor" where
  "enqueue_payload session_id p A =
     (if ac_closed A then Inl (RuntimeError (''Session actor already closed: '' @ session_id)) else Inr (put (Payload p) (ensure_started A)))"

text \<open>\<open>queue.join()\<close> waits until \<open>task_done\<close> was called for every item.\<close>

definition join_returns :: "'p actor \<Rightarrow> bool" where
  "join_returns A \<longleftrightarrow> ac_unfinished A = 0"

definition run_get :: "'p actor \<Rightarrow> 'p actor option" where
  "run_get A =
     (case (ac_runner A, ac_queue A) of
        (Waiting, Payload p # q) \<Rightarrow> Some (A\<lparr>ac_queue := q, ac_runner := Handling p False, ac_calls := ac_calls A @ [p]\<rparr>)
      | (Waiting, StopMark # q) \<Rightarrow> Some (A\<lparr>ac_queue := q, ac_runner := Ended, ac_unfinished := ac_unfinished A - 1\<rparr>)
      | _ \<Rightarrow> None)"

definition handler_ends :: "handler_end \<Rightarrow> 'p actor \<Rightarrow> 'p actor option" where
  "handler_ends e A =
     (case ac_runner A of
        Handling p r \<Rightarrow>
          Some (A\<lparr>ac_runner := Settled p r e,
                  ac_stop := (if r \<and> ac_stop A = StopAwaits None then StopAwaits (Some e) else ac_stop A)\<rparr>)
      | _ \<Rightarrow> None)"

definition run_resume :: "'p actor \<Rightarrow> 'p actor option" where
  "run_resume A =
     (case ac_runner A of
        Settled p r e \<Rightarrow>
          Some (A\<lparr>ac_runner := (if e = HandlerCancelled then Ended else Waiting), ac_unfinished := ac_unfinished A - 1\<rparr>)
      | _ \<Rightarrow> None)"

definition cancel_current :: "'p actor \<Rightarrow> bool \<times> 'p actor" where
  "cancel_current A =
     (case ac_runner A of
        Handling p r \<Rightarrow> (True, A\<lparr>ac_runner := Handling p True\<rparr>)
      | _ \<Rightarrow> (False, A))"

definition queue_stop :: "'p actor \<Rightarrow> 'p actor" where
  "queue_stop A = (put StopMark (ensure_started A))\<lparr>ac_stop := StopQueued\<rparr>"

text \<open>The second call of \<open>stop\<close> only cancels the current handler again.\<close>

definition stop :: "'p actor \<Rightarrow> 'p actor" where
  "stop A =
     (if ac_closed A then snd (cancel_current A)
      else let (running, B) = cancel_current (A\<lparr>ac_closed := True\<rparr>) in
           if running then B\<lparr>ac_stop := StopAwaits None\<rparr> else queue_stop B)"

text \<open>The task of the actor awaits the handler before \<open>stop\<close> does, so it resumes first.\<close>

definition stop_continues :: "'p actor \<Rightarrow> 'p actor option" where
  "stop_continues A =
     (case ac_stop A of
        StopAwaits (Some e) \<Rightarrow>
          (case ac_runner A of
             Settled p True e' \<Rightarrow> None
           | _ \<Rightarrow> Some (if e = HandlerRaised then A\<lparr>ac_stop := StopGaveUp\<rparr> else queue_stop A))
      | _ \<Rightarrow> None)"

section \<open>The runtime\<close>

record 'p actor_runtime =
  ar_actors :: "(string \<times> 'p actor) list"
  ar_closed :: bool
  ar_stopping :: "(string \<times> 'p actor) list"

definition new_runtime :: "'p actor_runtime" where
  "new_runtime = \<lparr>ar_actors = [], ar_closed = False, ar_stopping = []\<rparr>"

definition submit :: "string \<Rightarrow> 'p \<Rightarrow> 'p actor_runtime \<Rightarrow> pyerr + 'p actor_runtime" where
  "submit session_id p R =
     (if ar_closed R then Inl (RuntimeError ''Session actor runtime is closed'')
      else case map_of (ar_actors R) session_id of
        Some A \<Rightarrow> map_sum id (\<lambda>B. R\<lparr>ar_actors := dset session_id B (ar_actors R)\<rparr>) (enqueue_payload session_id p A)
      | None \<Rightarrow> map_sum id (\<lambda>B. R\<lparr>ar_actors := dset session_id B (ar_actors R)\<rparr>) (enqueue_payload session_id p new_actor))"

definition cancel_session :: "string \<Rightarrow> 'p actor_runtime \<Rightarrow> bool \<times> 'p actor_runtime" where
  "cancel_session session_id R =
     (case map_of (ar_actors R) session_id of
        None \<Rightarrow> (False, R)
      | Some A \<Rightarrow> let (done', B) = cancel_current A in (done', R\<lparr>ar_actors := dset session_id B (ar_actors R)\<rparr>))"

text \<open>Whether a call of \<open>join\<close> can return now; without a session it waits for all actors.\<close>

definition join_session :: "string \<Rightarrow> 'p actor_runtime \<Rightarrow> bool" where
  "join_session session_id R =
     (if session_id \<noteq> []
      then (case map_of (ar_actors R) session_id of None \<Rightarrow> True | Some A \<Rightarrow> join_returns A)
      else list_all (\<lambda>(s, A). join_returns A) (ar_actors R))"

text \<open>The actors are taken out of the runtime; \<open>stop\<close> is called for each of them, in tasks that
  run later.\<close>

definition shutdown :: "'p actor_runtime \<Rightarrow> 'p actor_runtime" where
  "shutdown R =
     (if ar_closed R then R else R\<lparr>ar_closed := True, ar_actors := [], ar_stopping := ar_actors R\<rparr>)"

definition active_sessions :: "'p actor_runtime \<Rightarrow> string list" where
  "active_sessions R = sort (map fst (ar_actors R))"

section \<open>Runs of the runtime\<close>

text \<open>What the event loop may run: calls of the runtime, steps of the task of an actor and of its
  handler, and steps of the calls of \<open>stop\<close> that a shutdown started.\<close>

datatype task_move = Get | HandlerEnds handler_end | Resume

datatype 'p runtime_move =
  Submit string 'p | CancelSession string | Shutdown | Run string task_move | Stop string | StopContinues string

fun run_step :: "task_move \<Rightarrow> 'p actor \<Rightarrow> 'p actor option" where
  "run_step Get A = run_get A"
| "run_step (HandlerEnds e) A = handler_ends e A"
| "run_step Resume A = run_resume A"

definition on_stopping :: "string \<Rightarrow> ('p actor \<Rightarrow> 'p actor option) \<Rightarrow> 'p actor_runtime \<Rightarrow> 'p actor_runtime option" where
  "on_stopping s f R =
     (case map_of (ar_stopping R) s of
        None \<Rightarrow> None
      | Some A \<Rightarrow> map_option (\<lambda>B. R\<lparr>ar_stopping := dset s B (ar_stopping R)\<rparr>) (f A))"

definition on_actor :: "string \<Rightarrow> ('p actor \<Rightarrow> 'p actor option) \<Rightarrow> 'p actor_runtime \<Rightarrow> 'p actor_runtime option" where
  "on_actor s f R =
     (case map_of (ar_actors R) s of
        None \<Rightarrow> on_stopping s f R
      | Some A \<Rightarrow> map_option (\<lambda>B. R\<lparr>ar_actors := dset s B (ar_actors R)\<rparr>) (f A))"

fun move :: "'p runtime_move \<Rightarrow> 'p actor_runtime \<Rightarrow> 'p actor_runtime option" where
  "move (Submit s p) R = (case submit s p R of Inl _ \<Rightarrow> None | Inr R' \<Rightarrow> Some R')"
| "move (CancelSession s) R = Some (snd (cancel_session s R))"
| "move Shutdown R = Some (shutdown R)"
| "move (Run s m) R = on_actor s (run_step m) R"
| "move (Stop s) R = on_stopping s (\<lambda>A. Some (stop A)) R"
| "move (StopContinues s) R = on_stopping s stop_continues R"

text \<open>\<open>runs ms R\<close>: the moves \<open>ms\<close> lead a new runtime to \<open>R\<close>; a refused call is no move.\<close>

inductive runs :: "'p runtime_move list \<Rightarrow> 'p actor_runtime \<Rightarrow> bool" where
  start: "runs [] new_runtime"
| step: "runs ms R \<Longrightarrow> move m R = Some R' \<Longrightarrow> runs (ms @ [m]) R'"

definition submitted :: "string \<Rightarrow> 'p runtime_move list \<Rightarrow> 'p list" where
  "submitted s ms = concat (map (\<lambda>m. case m of Submit s' p \<Rightarrow> if s' = s then [p] else [] | _ \<Rightarrow> []) ms)"

definition payloads :: "'p queue_item list \<Rightarrow> 'p list" where
  "payloads q = concat (map (\<lambda>x. case x of Payload p \<Rightarrow> [p] | StopMark \<Rightarrow> []) q)"

lemma payloads_simps [simp]:
  "payloads [] = []" "payloads (Payload p # q) = p # payloads q" "payloads (StopMark # q) = payloads q"
  "payloads (q @ q') = payloads q @ payloads q'"
  by (simp_all add: payloads_def)

lemma submitted_simps [simp]:
  "submitted s [] = []" "submitted s (ms @ ns) = submitted s ms @ submitted s ns"
  "submitted s [Submit s' p] = (if s' = s then [p] else [])"
  "submitted s [CancelSession s'] = []" "submitted s [Shutdown] = []" "submitted s [Run s' m] = []"
  "submitted s [Stop s'] = []" "submitted s [StopContinues s'] = []"
  by (simp_all add: submitted_def)

section \<open>The invariant of an actor\<close>

fun busy :: "'p runner \<Rightarrow> nat" where
  "busy (Handling p r) = 1" | "busy (Settled p r e) = 1" | "busy _ = 0"

definition mark_ok :: "'p actor \<Rightarrow> bool" where
  "mark_ok A \<longleftrightarrow>
     (case ac_stop A of
        NotStopping \<Rightarrow> StopMark \<notin> set (ac_queue A) \<and> \<not> ac_closed A
      | StopQueued \<Rightarrow> ac_closed A \<and>
          (ac_queue A = [] \<and> ac_runner A = Ended \<or> (\<exists>xs. ac_queue A = map Payload xs @ [StopMark]))
      | _ \<Rightarrow> StopMark \<notin> set (ac_queue A) \<and> ac_closed A)"

definition actor_ok :: "'p list \<Rightarrow> 'p actor \<Rightarrow> bool" where
  "actor_ok sub A \<longleftrightarrow> ac_calls A @ payloads (ac_queue A) = sub
     \<and> ac_unfinished A = length (ac_queue A) + busy (ac_runner A) \<and> mark_ok A"

lemma new_actor_ok: "actor_ok [] new_actor"
  by (simp add: actor_ok_def new_actor_def mark_ok_def)

lemma no_mark: "StopMark \<notin> set q \<Longrightarrow> \<exists>xs. q = map Payload xs"
proof (induction q)
  case (Cons x q)
  then obtain xs p where "q = map Payload xs" "x = Payload p" by (cases x) auto
  then show ?case by (intro exI [of _ "p # xs"]) simp
qed simp

lemma enqueue_payload_ok:
  assumes "actor_ok sub A" "enqueue_payload s p A = Inr B" shows "actor_ok (sub @ [p]) B \<and> ac_runner B \<noteq> NotStarted"
  using assms by (auto simp: enqueue_payload_def actor_ok_def put_def ensure_started_def mark_ok_def
      split: if_splits stop_phase.splits)

lemma enqueue_payload_closed: "enqueue_payload s p A = Inr B \<Longrightarrow> ac_closed B = ac_closed A"
  by (auto simp: enqueue_payload_def put_def ensure_started_def split: if_splits)

lemma queue_stop_ok:
  assumes "actor_ok sub A" "StopMark \<notin> set (ac_queue A)" "ac_closed A" shows "actor_ok sub (queue_stop A)"
  using assms no_mark [OF assms(2)]
  by (auto simp: queue_stop_def actor_ok_def put_def ensure_started_def mark_ok_def)

lemma mark_same:
  assumes "mark_ok A" "ac_stop B = ac_stop A" "ac_closed B = ac_closed A" "ac_queue B = ac_queue A"
    "ac_runner A = Ended \<Longrightarrow> ac_runner B = Ended"
  shows "mark_ok B"
  using assms by (simp add: mark_ok_def split: stop_phase.splits) blast

lemma mark_tail:
  assumes m: "mark_ok A" and q: "ac_queue A = Payload p # q" and B: "ac_stop B = ac_stop A" "ac_closed B = ac_closed A" "ac_queue B = q"
  shows "mark_ok B"
proof (cases "ac_stop A")
  case StopQueued
  then obtain xs where "Payload p # q = map Payload xs @ [StopMark]" using m q by (auto simp: mark_ok_def)
  then obtain ys where "q = map Payload ys @ [StopMark]" by (cases xs) auto
  then show ?thesis using m B StopQueued by (auto simp: mark_ok_def)
qed (use m q B in \<open>auto simp: mark_ok_def\<close>)

lemma mark_last:
  assumes m: "mark_ok A" and q: "ac_queue A = StopMark # q"
  shows "q = [] \<and> ac_stop A = StopQueued \<and> ac_closed A"
proof (cases "ac_stop A")
  case StopQueued
  then obtain xs where "StopMark # q = map Payload xs @ [StopMark]" using m q by (auto simp: mark_ok_def)
  then have "q = []" by (cases xs) auto
  then show ?thesis using m StopQueued by (simp add: mark_ok_def)
qed (use m q in \<open>auto simp: mark_ok_def\<close>)

lemma run_get_ok:
  assumes ok: "actor_ok sub A" and get: "run_get A = Some B" shows "actor_ok sub B"
proof -
  obtain x q where q: "ac_queue A = x # q" and w: "ac_runner A = Waiting"
    using get by (auto simp: run_get_def split: runner.splits list.splits)
  have m: "mark_ok A" and c: "ac_calls A @ payloads (ac_queue A) = sub"
    and u: "ac_unfinished A = length (ac_queue A) + busy (ac_runner A)" using ok by (simp_all add: actor_ok_def)
  show ?thesis
  proof (cases x)
    case (Payload p)
    then have B: "B = A\<lparr>ac_queue := q, ac_runner := Handling p False, ac_calls := ac_calls A @ [p]\<rparr>"
      using get q w by (simp add: run_get_def)
    have "mark_ok B" using mark_tail [OF m, of p q B] q Payload by (simp add: B)
    then show ?thesis using c u q w Payload by (simp add: actor_ok_def B)
  next
    case StopMark
    then have B: "B = A\<lparr>ac_queue := q, ac_runner := Ended, ac_unfinished := ac_unfinished A - 1\<rparr>"
      using get q w by (simp add: run_get_def)
    have "q = []" "ac_stop A = StopQueued" "ac_closed A" using mark_last [OF m, of q] q StopMark by simp_all
    then show ?thesis using c u q w StopMark by (simp add: actor_ok_def B mark_ok_def)
  qed
qed

lemma handler_ends_ok:
  assumes ok: "actor_ok sub A" and ends: "handler_ends e A = Some B" shows "actor_ok sub B"
proof -
  obtain p r where r: "ac_runner A = Handling p r" using ends by (auto simp: handler_ends_def split: runner.splits)
  have "mark_ok B"
  proof (cases "r \<and> ac_stop A = StopAwaits None")
    case True
    then show ?thesis using ok ends r by (auto simp: handler_ends_def actor_ok_def mark_ok_def)
  next
    case False
    then show ?thesis using ok ends r by - (rule mark_same [of A], auto simp: handler_ends_def actor_ok_def)
  qed
  then show ?thesis using ok ends r by (auto simp: handler_ends_def actor_ok_def)
qed

lemma run_resume_ok:
  assumes ok: "actor_ok sub A" and resume: "run_resume A = Some B" shows "actor_ok sub B"
proof -
  obtain p r e where r: "ac_runner A = Settled p r e" using resume by (auto simp: run_resume_def split: runner.splits)
  then have "mark_ok B" using ok resume by - (rule mark_same [of A], auto simp: run_resume_def actor_ok_def)
  then show ?thesis using ok resume r by (auto simp: run_resume_def actor_ok_def)
qed

lemma cancel_ok: assumes ok: "actor_ok sub A" shows "actor_ok sub (snd (cancel_current A))"
proof (cases "ac_runner A")
  case (Handling p r)
  then have "mark_ok (snd (cancel_current A))" using ok by - (rule mark_same [of A], auto simp: cancel_current_def actor_ok_def)
  then show ?thesis using ok Handling by (simp add: cancel_current_def actor_ok_def)
qed (use ok in \<open>simp_all add: cancel_current_def\<close>)

lemma run_step_ok: "actor_ok sub A \<Longrightarrow> run_step m A = Some B \<Longrightarrow> actor_ok sub B"
  by (cases m) (auto intro: run_get_ok handler_ends_ok run_resume_ok)

lemma stop_ok: assumes ok: "actor_ok sub A" shows "actor_ok sub (stop A)"
proof (cases "ac_closed A")
  case True
  then show ?thesis using cancel_ok [OF ok] by (simp add: stop_def)
next
  case False
  then have m: "StopMark \<notin> set (ac_queue A)" using ok by (auto simp: actor_ok_def mark_ok_def split: stop_phase.splits)
  show ?thesis
  proof (cases "\<exists>p r. ac_runner A = Handling p r")
    case True
    then show ?thesis using ok m False
      by (auto simp: stop_def cancel_current_def actor_ok_def mark_ok_def)
  next
    case idle: False
    then have c: "cancel_current (A\<lparr>ac_closed := True\<rparr>) = (False, A\<lparr>ac_closed := True\<rparr>)"
      by (simp add: cancel_current_def split: runner.split)
    have "actor_ok sub (queue_stop (A\<lparr>ac_closed := True\<rparr>))"
      using ok m no_mark [OF m] by (auto simp: queue_stop_def actor_ok_def put_def ensure_started_def mark_ok_def)
    then show ?thesis using False by (simp add: stop_def c)
  qed
qed

lemma stop_continues_ok:
  assumes ok: "actor_ok sub A" and c: "stop_continues A = Some B" shows "actor_ok sub B"
proof -
  obtain e where e: "ac_stop A = StopAwaits (Some e)"
    using c by (auto simp: stop_continues_def split: stop_phase.splits option.splits)
  have m: "StopMark \<notin> set (ac_queue A)" "ac_closed A" using ok e by (simp_all add: actor_ok_def mark_ok_def)
  have B: "B = (if e = HandlerRaised then A\<lparr>ac_stop := StopGaveUp\<rparr> else queue_stop A)"
    using c e by (auto simp: stop_continues_def split: runner.splits bool.splits if_splits)
  show ?thesis using queue_stop_ok [OF ok m] ok m by (simp add: B actor_ok_def mark_ok_def)
qed

section \<open>The invariant of the runtime\<close>

text \<open>Every session has one actor, in one of the two tables, and it has got exactly the payloads
  submitted for the session.\<close>

definition actor_of :: "string \<Rightarrow> 'p actor_runtime \<Rightarrow> 'p actor option" where
  "actor_of s R = (case map_of (ar_actors R) s of Some A \<Rightarrow> Some A | None \<Rightarrow> map_of (ar_stopping R) s)"

definition runtime_ok :: "(string \<Rightarrow> 'p list) \<Rightarrow> 'p actor_runtime \<Rightarrow> bool" where
  "runtime_ok sub R \<longleftrightarrow>
     (\<forall>s. case actor_of s R of None \<Rightarrow> sub s = [] | Some A \<Rightarrow> actor_ok (sub s) A)
     \<and> (\<forall>s A. map_of (ar_actors R) s = Some A \<longrightarrow> \<not> ac_closed A \<and> ac_runner A \<noteq> NotStarted)
     \<and> (if ar_closed R then ar_actors R = [] else ar_stopping R = [])"

lemma runtime_ok_actor: "runtime_ok sub R \<Longrightarrow> actor_of s R = Some A \<Longrightarrow> actor_ok (sub s) A"
  by (auto simp: runtime_ok_def split: option.splits dest: spec [of _ s])

lemma runtime_ok_no_actor: "runtime_ok sub R \<Longrightarrow> actor_of s R = None \<Longrightarrow> sub s = []"
  by (auto simp: runtime_ok_def dest: spec [of _ s])

lemma run_step_open: "run_step m A = Some B \<Longrightarrow> ac_closed B = ac_closed A \<and> ac_runner B \<noteq> NotStarted"
  by (cases m) (auto simp: run_get_def handler_ends_def run_resume_def split: runner.splits list.splits queue_item.splits if_splits)

lemma cancel_open: "ac_closed (snd (cancel_current A)) = ac_closed A"
  "ac_runner A \<noteq> NotStarted \<Longrightarrow> ac_runner (snd (cancel_current A)) \<noteq> NotStarted"
  by (auto simp: cancel_current_def split: runner.split)

text \<open>Replacing the actor of a session by one that has got the payloads submitted so far.\<close>

lemma runtime_ok_actors:
  assumes ok: "runtime_ok sub R" and open_runtime: "\<not> ar_closed R"
    and B: "actor_ok (sub' s) B" "\<not> ac_closed B" "ac_runner B \<noteq> NotStarted" and other: "\<And>s'. s' \<noteq> s \<Longrightarrow> sub' s' = sub s'"
  shows "runtime_ok sub' (R\<lparr>ar_actors := dset s B (ar_actors R)\<rparr>)"
proof -
  have a: "actor_of s' (R\<lparr>ar_actors := dset s B (ar_actors R)\<rparr>) = (if s' = s then Some B else actor_of s' R)" for s'
    by (simp add: actor_of_def split: option.split)
  have "case actor_of s' (R\<lparr>ar_actors := dset s B (ar_actors R)\<rparr>) of None \<Rightarrow> sub' s' = [] | Some A \<Rightarrow> actor_ok (sub' s') A" for s'
    using conjunct1 [OF ok [unfolded runtime_ok_def], rule_format, of s'] B(1) other [of s'] by (cases "s' = s") (simp_all add: a split: option.splits)
  moreover have "\<not> ac_closed A \<and> ac_runner A \<noteq> NotStarted"
    if "map_of (ar_actors (R\<lparr>ar_actors := dset s B (ar_actors R)\<rparr>)) s' = Some A" for s' A
    using that ok B(2,3) by (auto simp: runtime_ok_def split: if_splits)
  ultimately show ?thesis using ok open_runtime unfolding runtime_ok_def by simp
qed

lemma runtime_ok_stopping:
  assumes ok: "runtime_ok sub R" and closed_runtime: "ar_closed R" and B: "actor_ok (sub s) B"
  shows "runtime_ok sub (R\<lparr>ar_stopping := dset s B (ar_stopping R)\<rparr>)"
proof -
  have e: "ar_actors R = []" using ok closed_runtime by (simp add: runtime_ok_def)
  have a: "actor_of s' (R\<lparr>ar_stopping := dset s B (ar_stopping R)\<rparr>) = (if s' = s then Some B else actor_of s' R)" for s'
    by (simp add: actor_of_def e)
  have "case actor_of s' (R\<lparr>ar_stopping := dset s B (ar_stopping R)\<rparr>) of None \<Rightarrow> sub s' = [] | Some A \<Rightarrow> actor_ok (sub s') A" for s'
    using ok B unfolding a runtime_ok_def by simp
  then show ?thesis using e closed_runtime unfolding runtime_ok_def by simp
qed

lemma on_stopping_ok:
  assumes ok: "runtime_ok sub R" and m: "on_stopping s f R = Some R'"
    and f: "\<And>A B. actor_ok (sub s) A \<Longrightarrow> f A = Some B \<Longrightarrow> actor_ok (sub s) B"
  shows "runtime_ok sub R'"
proof -
  obtain A B where A: "map_of (ar_stopping R) s = Some A" "f A = Some B" "R' = R\<lparr>ar_stopping := dset s B (ar_stopping R)\<rparr>"
    using m by (auto simp: on_stopping_def split: option.splits)
  have c: "ar_closed R" using ok A(1) by (auto simp: runtime_ok_def split: if_splits)
  then have "actor_of s R = Some A" using ok A(1) by (simp add: actor_of_def runtime_ok_def)
  then show ?thesis using runtime_ok_stopping [OF ok c f [OF runtime_ok_actor [OF ok] A(2)]] A(3) by simp
qed

lemma actors_open: "runtime_ok sub R \<Longrightarrow> map_of (ar_actors R) s = Some A \<Longrightarrow> \<not> ar_closed R \<and> actor_ok (sub s) A \<and> \<not> ac_closed A \<and> ac_runner A \<noteq> NotStarted"
  using runtime_ok_actor [of sub R s A] by (auto simp: runtime_ok_def actor_of_def split: if_splits)

lemma on_actor_ok:
  assumes ok: "runtime_ok sub R" and m: "on_actor s (run_step t) R = Some R'" shows "runtime_ok sub R'"
proof (cases "map_of (ar_actors R) s")
  case None
  then have "on_stopping s (run_step t) R = Some R'" using m by (simp add: on_actor_def)
  from on_stopping_ok [OF ok this run_step_ok] show ?thesis .
next
  case (Some A)
  then obtain B where B: "run_step t A = Some B" "R' = R\<lparr>ar_actors := dset s B (ar_actors R)\<rparr>"
    using m by (auto simp: on_actor_def)
  note a = actors_open [OF ok Some]
  show ?thesis unfolding B(2)
    by (rule runtime_ok_actors [OF ok]) (use a B(1) run_step_ok run_step_open in \<open>auto dest: run_step_open intro: run_step_ok\<close>)
qed

lemma submit_Inr:
  assumes "submit s p R = Inr R'"
  shows "\<exists>B. \<not> ar_closed R \<and> enqueue_payload s p (case map_of (ar_actors R) s of Some A \<Rightarrow> A | None \<Rightarrow> new_actor) = Inr B
    \<and> R' = R\<lparr>ar_actors := dset s B (ar_actors R)\<rparr>"
  using assms
  by (cases "enqueue_payload s p (case map_of (ar_actors R) s of Some A \<Rightarrow> A | None \<Rightarrow> new_actor)")
    (auto simp: submit_def split: option.splits if_splits)

lemma submit_ok:
  assumes ok: "runtime_ok sub R" and m: "submit s p R = Inr R'"
  shows "runtime_ok (\<lambda>s'. sub s' @ (if s = s' then [p] else [])) R'"
proof -
  let ?A = "case map_of (ar_actors R) s of Some A \<Rightarrow> A | None \<Rightarrow> new_actor"
  obtain B where o: "\<not> ar_closed R" and B: "enqueue_payload s p ?A = Inr B" "R' = R\<lparr>ar_actors := dset s B (ar_actors R)\<rparr>"
    using submit_Inr [OF m] by blast
  have A: "actor_ok (sub s) ?A \<and> \<not> ac_closed ?A"
  proof (cases "map_of (ar_actors R) s")
    case None
    then have "actor_of s R = None" using ok o by (simp add: actor_of_def runtime_ok_def)
    then show ?thesis using runtime_ok_no_actor [OF ok] new_actor_ok None by (simp add: new_actor_def)
  next
    case (Some A)
    then show ?thesis using actors_open [OF ok Some] by simp
  qed
  have "\<not> ac_closed B" using enqueue_payload_closed [OF B(1)] A by simp
  then show ?thesis unfolding B(2) using enqueue_payload_ok [OF conjunct1 [OF A] B(1)]
    by (intro runtime_ok_actors [OF ok o]) auto
qed

lemma shutdown_ok: "runtime_ok sub R \<Longrightarrow> runtime_ok sub (shutdown R)"
proof (cases "ar_closed R")
  case False
  assume ok: "runtime_ok sub R"
  have "actor_of s (shutdown R) = actor_of s R" for s
    using ok False by (simp add: shutdown_def actor_of_def runtime_ok_def split: option.split)
  then show ?thesis using ok False by (simp add: runtime_ok_def shutdown_def)
qed (simp add: shutdown_def)

lemma cancel_session_ok: assumes ok: "runtime_ok sub R" shows "runtime_ok sub (snd (cancel_session s R))"
proof (cases "map_of (ar_actors R) s")
  case (Some A)
  note a = actors_open [OF ok Some]
  have "runtime_ok sub (R\<lparr>ar_actors := dset s (snd (cancel_current A)) (ar_actors R)\<rparr>)"
    by (rule runtime_ok_actors [OF ok]) (use a cancel_ok cancel_open in auto)
  then show ?thesis using Some by (simp add: cancel_session_def case_prod_unfold Let_def)
qed (use ok in \<open>simp add: cancel_session_def\<close>)

lemma move_ok:
  assumes ok: "runtime_ok sub R" and m: "move m R = Some R'"
  shows "runtime_ok (\<lambda>s. sub s @ submitted s [m]) R'"
proof (cases m)
  case (Submit s p)
  then show ?thesis using submit_ok [OF ok, of s p R'] m by (auto split: sum.splits)
next
  case (Stop s)
  then show ?thesis using on_stopping_ok [OF ok, of s "\<lambda>A. Some (stop A)" R'] stop_ok m by auto
next
  case (StopContinues s)
  then show ?thesis using on_stopping_ok [OF ok, of s stop_continues R'] stop_continues_ok m by auto
next
  case (Run s t)
  then show ?thesis using on_actor_ok [OF ok, of s t R'] m by simp
qed (use ok m cancel_session_ok shutdown_ok in auto)

lemma runs_ok: "runs ms R \<Longrightarrow> runtime_ok (\<lambda>s. submitted s ms) R"
proof (induction rule: runs.induct)
  case start
  then show ?case by (simp add: runtime_ok_def actor_of_def new_runtime_def)
next
  case (step ms R m R')
  then show ?case using move_ok [of "\<lambda>s. submitted s ms" R m R'] by simp
qed

inductive_cases runs_NilE: "runs [] R"

lemma runs_snocE:
  assumes "runs (ms @ [m]) R'" obtains R where "runs ms R" "move m R = Some R'"
  using assms by (cases rule: runs.cases) auto

lemma runs_deterministic: "runs ms R \<Longrightarrow> runs ms R' \<Longrightarrow> R = R'"
proof (induction arbitrary: R' rule: runs.induct)
  case start
  then show ?case by (auto elim: runs.cases)
next
  case (step ms R m R1)
  obtain R2 where "runs ms R2" "move m R2 = Some R'" using runs_snocE [OF step.prems] by blast
  then show ?case using step.IH step.hyps(2) by force
qed

section \<open>Order, and what a cancellation does\<close>

text \<open>(C13)
  Payloads are handled in order. Whatever calls, cancellations and ends of handlers there were,
  the handler of a session has been called with the payloads submitted for this session, in the
  order of their submission, none twice and none left out; those that are missing at the end are
  waiting in the queue, in the same order.
\<close>

theorem payloads_handled_in_order:
  assumes "runs ms R" and "actor_of s R = Some A"
  shows "ac_calls A @ payloads (ac_queue A) = submitted s ms"
  using runtime_ok_actor [OF runs_ok [OF assms(1)] assms(2)] by (simp add: actor_ok_def)

text \<open>\<open>join\<close> waits for everything. When a call of \<open>join\<close> for a session returns, the handler has been
  called with every payload submitted for it, and no handler of the session is running.
\<close>

theorem join_means_handled:
  assumes r: "runs ms R" and A: "map_of (ar_actors R) s = Some A" and s: "s \<noteq> []" and j: "join_session s R"
  shows "ac_calls A = submitted s ms \<and> busy (ac_runner A) = 0"
proof -
  have "actor_ok (submitted s ms) A" using actors_open [OF runs_ok [OF r] A] by simp
  then show ?thesis using A s j by (simp add: join_session_def join_returns_def actor_ok_def)
qed

text \<open>A move that hands the session no payload leaves an actor alone whose task has ended.\<close>

lemma ended_actor_stays:
  assumes A: "map_of (ar_actors R) s = Some A" and e: "ac_runner A = Ended"
    and m: "move m R = Some R'" and quiet: "submitted s [m] = []" "m \<noteq> Shutdown"
  shows "map_of (ar_actors R') s = Some A"
proof (cases m)
  case (Submit s' p)
  then have "submit s' p R = Inr R'" "s \<noteq> s'" using m quiet by (auto split: sum.splits if_splits)
  then show ?thesis using submit_Inr A by fastforce
next
  case (CancelSession s')
  then show ?thesis using A e m
    by (auto simp: cancel_session_def cancel_current_def Let_def case_prod_unfold split: option.splits)
next
  case (Run s' t)
  show ?thesis
  proof (cases "s' = s")
    case True
    then show ?thesis using A e m Run
      by (cases t) (simp_all add: on_actor_def run_get_def handler_ends_def run_resume_def)
  next
    case False
    then show ?thesis using A m Run by (auto simp: on_actor_def on_stopping_def split: option.splits)
  qed
qed (use A m quiet in \<open>auto simp: on_stopping_def split: option.splits\<close>)

lemma runs_task:
  assumes "runs ms R" "map_of (ar_actors R) s = Some A" "run_step t A = Some B"
  shows "runs (ms @ [Run s t]) (R\<lparr>ar_actors := dset s B (ar_actors R)\<rparr>)"
  using runs.step [OF assms(1), of "Run s t"] assms(2,3) by (simp add: on_actor_def)

text \<open>An ended task stays ended until a payload of its session is submitted or a shutdown restarts it.\<close>

lemma ended_actor_waits:
  assumes r: "runs ms R" and A: "map_of (ar_actors R) s = Some A" and ended: "ac_runner A = Ended"
    and more: "runs (ms @ ns) R'" and quiet: "submitted s ns = []" "Shutdown \<notin> set ns"
  shows "map_of (ar_actors R') s = Some A"
  using more quiet
proof (induction ns arbitrary: R' rule: rev_induct)
  case Nil
  then show ?case using runs_deterministic [OF r] A by simp
next
  case (snoc n ns)
  obtain R1 where R1: "runs (ms @ ns) R1" "move n R1 = Some R'"
    using runs_snocE [of "ms @ ns" n R'] snoc.prems(1) by auto
  have q: "submitted s ns = []" "submitted s [n] = []" "Shutdown \<notin> set ns" "n \<noteq> Shutdown"
    using snoc.prems(2,3) by auto
  show ?case using ended_actor_stays [OF snoc.IH [OF R1(1) q(1,3)] ended R1(2) q(2,4)] .
qed

text \<open>(C40)
  A cancelled handler stops the queue. When the handler of a session has ended as cancelled and
  the task of the actor resumes, the task ends. If payloads wait in the queue then, whatever
  happens next, they stay there and are not handled, the handler is called no more and no call of
  \<open>join\<close> for the session returns, as long as no further payload of this session is submitted and
  the runtime is not shut down (either starts the task again).
\<close>

theorem cancelled_handler_stops_queue:
  assumes r: "runs ms R" and A: "map_of (ar_actors R) s = Some A"
    and cancelled: "ac_runner A = Settled p c HandlerCancelled" and waiting: "ac_queue A \<noteq> []" and s: "s \<noteq> []"
    and more: "runs (ms @ Run s Resume # ns) R'" and quiet: "submitted s ns = []" "Shutdown \<notin> set ns"
  shows "\<exists>B. map_of (ar_actors R') s = Some B \<and> ac_runner B = Ended \<and> ac_queue B = ac_queue A
    \<and> ac_calls B = ac_calls A \<and> \<not> join_session s R'"
proof -
  define B where "B = A\<lparr>ac_runner := Ended, ac_unfinished := ac_unfinished A - 1\<rparr>"
  let ?R = "R\<lparr>ar_actors := dset s B (ar_actors R)\<rparr>"
  have "run_step Resume A = Some B" using cancelled by (simp add: run_resume_def B_def)
  then have r1: "runs (ms @ [Run s Resume]) ?R" by (rule runs_task [OF r A])
  have B: "map_of (ar_actors ?R) s = Some B" "ac_runner B = Ended" by (simp_all add: B_def)
  have more1: "runs ((ms @ [Run s Resume]) @ ns) R'" using more by simp
  have stay: "map_of (ar_actors R') s = Some B" by (rule ended_actor_waits [OF r1 B more1 quiet])
  have "ac_unfinished B \<noteq> 0"
    using actors_open [OF runs_ok [OF r1] B(1)] waiting by (auto simp: actor_ok_def B_def)
  then show ?thesis using stay s by (simp add: join_session_def join_returns_def) (simp add: B_def)
qed

text \<open>Nothing is lost at the end. When the task of an actor has taken the mark that \<open>stop\<close> put into
  its queue, it has ended, and the handler has been called with every payload submitted.
\<close>

theorem stop_handles_everything:
  assumes r: "runs ms R" and A: "map_of (ar_stopping R) s = Some A"
    and stopped: "ac_stop A = StopQueued" "StopMark \<notin> set (ac_queue A)"
  shows "ac_calls A = submitted s ms \<and> ac_runner A = Ended"
proof -
  have "ar_actors R = []" using runs_ok [OF r] A by (auto simp: runtime_ok_def split: if_splits)
  then have "actor_ok (submitted s ms) A"
    using runtime_ok_actor [OF runs_ok [OF r], of s A] A by (simp add: actor_of_def)
  then show ?thesis using stopped by (auto simp: actor_ok_def mark_ok_def)
qed

section \<open>The queue drains\<close>

text \<open>The steps of a task and its handler when the handler returns.\<close>

definition smooth :: "task_move set" where
  "smooth = {Get, HandlerEnds HandlerReturned, Resume}"

lemma drain_waiting:
  assumes "runs ms R" "map_of (ar_actors R) s = Some A" "ac_runner A = Waiting"
  shows "\<exists>ts R' B. set ts \<subseteq> smooth \<and> runs (ms @ map (Run s) ts) R' \<and> map_of (ar_actors R') s = Some B \<and> ac_queue B = []
    \<and> ac_runner B = Waiting"
  using assms
proof (induction "ac_queue A" arbitrary: ms R A)
  case Nil
  then show ?case by (intro exI [of _ "[]"] exI [of _ R] exI [of _ A]) simp
next
  case (Cons x q)
  have "StopMark \<notin> set (ac_queue A)"
    using actors_open [OF runs_ok [OF Cons.prems(1)] Cons.prems(2)] by (auto simp: actor_ok_def mark_ok_def split: stop_phase.splits)
  then obtain p where p: "x = Payload p" using Cons.hyps(2) by (cases x) (auto simp: Cons.hyps(2) [symmetric])
  define B where "B = A\<lparr>ac_queue := q, ac_runner := Handling p False, ac_calls := ac_calls A @ [p]\<rparr>"
  define C where "C = B\<lparr>ac_runner := Settled p False HandlerReturned\<rparr>"
  define D where "D = C\<lparr>ac_runner := Waiting, ac_unfinished := ac_unfinished C - 1\<rparr>"
  have steps: "run_step Get A = Some B" "run_step (HandlerEnds HandlerReturned) B = Some C" "run_step Resume C = Some D"
    using Cons.hyps(2) Cons.prems(3) by (simp_all add: run_get_def handler_ends_def run_resume_def B_def C_def D_def p flip: Cons.hyps(2))
  let ?set = "\<lambda>R X. R\<lparr>ar_actors := dset s X (ar_actors R)\<rparr>"
  have 1: "runs (ms @ [Run s Get]) (?set R B)" by (rule runs_task [OF Cons.prems(1,2) steps(1)])
  have 2: "runs ((ms @ [Run s Get]) @ [Run s (HandlerEnds HandlerReturned)]) (?set (?set R B) C)"
    by (rule runs_task [OF 1 _ steps(2)]) simp
  have 3: "runs (((ms @ [Run s Get]) @ [Run s (HandlerEnds HandlerReturned)]) @ [Run s Resume]) (?set (?set (?set R B) C) D)"
    by (rule runs_task [OF 2 _ steps(3)]) simp
  have D: "map_of (ar_actors (?set (?set (?set R B) C) D)) s = Some D" "ac_runner D = Waiting" "q = ac_queue D"
    by (simp_all add: D_def C_def B_def)
  obtain ts R' E where "set ts \<subseteq> smooth"
    "runs ((((ms @ [Run s Get]) @ [Run s (HandlerEnds HandlerReturned)]) @ [Run s Resume]) @ map (Run s) ts) R'"
    "map_of (ar_actors R') s = Some E" "ac_queue E = []" "ac_runner E = Waiting"
    using Cons.hyps(1) [OF D(3) 3 D(1,2)] by blast
  then show ?case
    by (intro exI [of _ "Get # HandlerEnds HandlerReturned # Resume # ts"] exI [of _ R'] exI [of _ E]) (simp add: smooth_def)
qed

text \<open>(C32)
  The queue drains. Unless the handler of a session was cancelled, the task of its actor reaches
  the end of the queue: there are steps of this task and its handler alone, the handler returning
  each time, after which the handler has been called with every payload submitted so far and
  \<open>join\<close> returns.
\<close>

theorem queue_drains:
  assumes r: "runs ms R" and A: "map_of (ar_actors R) s = Some A" and s: "s \<noteq> []"
    and alive: "ac_runner A \<noteq> Ended" "\<And>p c. ac_runner A \<noteq> Settled p c HandlerCancelled"
  shows "\<exists>ts R' B. set ts \<subseteq> smooth \<and> runs (ms @ map (Run s) ts) R' \<and> map_of (ar_actors R') s = Some B
    \<and> ac_calls B = submitted s ms \<and> join_session s R'"
proof -
  let ?set = "\<lambda>X. R\<lparr>ar_actors := dset s X (ar_actors R)\<rparr>"
  have "\<exists>ts R' B. set ts \<subseteq> smooth \<and> runs (ms @ map (Run s) ts) R' \<and> map_of (ar_actors R') s = Some B \<and> ac_runner B = Waiting"
  proof (cases "ac_runner A")
    case NotStarted
    then show ?thesis using actors_open [OF runs_ok [OF r] A] by simp
  next
    case Waiting
    then show ?thesis using r A by (intro exI [of _ "[]"] exI [of _ R] exI [of _ A]) simp
  next
    case (Settled p c e)
    then have "run_step Resume A = Some (A\<lparr>ac_runner := Waiting, ac_unfinished := ac_unfinished A - 1\<rparr>)"
      using alive(2) [of p c] by (simp add: run_resume_def)
    from runs_task [OF r A this] show ?thesis
      by (intro exI [of _ "[Resume]"] exI conjI) (auto simp: smooth_def)
  next
    case (Handling p c)
    then obtain B where B: "run_step (HandlerEnds HandlerReturned) A = Some B" "ac_runner B = Settled p c HandlerReturned"
      by (simp add: handler_ends_def)
    have C: "run_step Resume B = Some (B\<lparr>ac_runner := Waiting, ac_unfinished := ac_unfinished B - 1\<rparr>)"
      using B(2) by (simp add: run_resume_def)
    have b: "map_of (ar_actors (R\<lparr>ar_actors := dset s B (ar_actors R)\<rparr>)) s = Some B" by simp
    from runs_task [OF runs_task [OF r A B(1)] b C] show ?thesis
      by (intro exI [of _ "[HandlerEnds HandlerReturned, Resume]"] exI conjI) (auto simp: smooth_def)
  qed (use alive in simp)
  then obtain ts R1 B where 1: "set ts \<subseteq> smooth" "runs (ms @ map (Run s) ts) R1" "map_of (ar_actors R1) s = Some B" "ac_runner B = Waiting"
    by blast
  obtain us R2 C where 2: "set us \<subseteq> smooth" "runs ((ms @ map (Run s) ts) @ map (Run s) us) R2" "map_of (ar_actors R2) s = Some C"
    "ac_queue C = []" "ac_runner C = Waiting" using drain_waiting [OF 1(2-4)] by blast
  have none: "submitted s (map (Run s') ts) = []" for s' ts by (induction ts) (simp_all add: submitted_def)
  have "actor_ok (submitted s ms) C" using actors_open [OF runs_ok [OF 2(2)] 2(3)] by (simp add: none)
  then have "ac_calls C = submitted s ms \<and> join_session s R2"
    using 2(3-5) s by (simp add: actor_ok_def join_session_def join_returns_def)
  then show ?thesis using 1(1) 2(1-3)
    by (intro exI [of _ "ts @ us"] exI [of _ R2] exI [of _ C]) simp
qed

section \<open>Examples\<close>

fun play :: "'p runtime_move list \<Rightarrow> 'p actor_runtime \<Rightarrow> 'p actor_runtime" where
  "play [] R = R"
| "play (m # ms) R = (case move m R of Some R' \<Rightarrow> play ms R' | None \<Rightarrow> R)"

fun playable :: "'p runtime_move list \<Rightarrow> 'p actor_runtime \<Rightarrow> bool" where
  "playable [] R = True"
| "playable (m # ms) R = (case move m R of Some R' \<Rightarrow> playable ms R' | None \<Rightarrow> False)"

lemma play_runs: "runs ms R \<Longrightarrow> playable ns R \<Longrightarrow> runs (ms @ ns) (play ns R)"
proof (induction ns arbitrary: ms R)
  case (Cons n ns)
  then obtain R' where R': "move n R = Some R'" "playable ns R'" by (auto split: option.splits)
  then show ?case using Cons.IH [OF runs.step [OF Cons.prems(1) R'(1)] R'(2)] by simp
qed simp

lemma play_new: "playable ms new_runtime \<Longrightarrow> runs ms (play ms new_runtime)"
  using play_runs [OF runs.start] by simp

definition ex_busy :: "bool runtime_move list" where
  "ex_busy = [Submit ''s'' True, Submit ''t'' True, Submit ''s'' False, Run ''s'' Get]"

definition ex_cancelled :: "bool runtime_move list" where
  "ex_cancelled = ex_busy @ [CancelSession ''s'', Run ''s'' (HandlerEnds HandlerCancelled)]"

definition ex_stopped :: "bool runtime_move list" where
  "ex_stopped = ex_busy @ [Shutdown, Stop ''s'', Run ''s'' (HandlerEnds HandlerCancelled), Run ''s'' Resume, StopContinues ''s'',
     Run ''s'' Get, Run ''s'' (HandlerEnds HandlerReturned), Run ''s'' Resume, Run ''s'' Get]"

definition session_actor :: "bool runtime_move list \<Rightarrow> bool actor" where
  "session_actor ms = the (actor_of ''s'' (play ms new_runtime))"

theorem payloads_handled_in_order_witness:
  "ac_calls (session_actor ex_busy) = [True] \<and> ac_queue (session_actor ex_busy) = [Payload False]
   \<and> submitted ''s'' ex_busy = [True, False]"
proof -
  have p: "playable ex_busy new_runtime" "actor_of ''s'' (play ex_busy new_runtime) = Some (session_actor ex_busy)"
    "ac_queue (session_actor ex_busy) = [Payload False]" "submitted ''s'' ex_busy = [True, False]" by code_simp+
  from payloads_handled_in_order [OF play_new [OF p(1)] p(2)] p(3,4) show ?thesis by simp
qed

theorem join_means_handled_witness:
  "let ms = ex_busy @ [Run ''s'' (HandlerEnds HandlerRaised), Run ''s'' Resume, Run ''s'' Get,
      Run ''s'' (HandlerEnds HandlerReturned), Run ''s'' Resume] in
   join_session ''s'' (play ms new_runtime) \<and> \<not> join_session [] (play ms new_runtime)
   \<and> ac_calls (session_actor ms) = [True, False]"
proof -
  let ?ms = "ex_busy @ [Run ''s'' (HandlerEnds HandlerRaised), Run ''s'' Resume, Run ''s'' Get,
      Run ''s'' (HandlerEnds HandlerReturned), Run ''s'' Resume]"
  have p: "playable ?ms new_runtime" "map_of (ar_actors (play ?ms new_runtime)) ''s'' = Some (session_actor ?ms)"
    "join_session ''s'' (play ?ms new_runtime)" "\<not> join_session [] (play ?ms new_runtime)" "submitted ''s'' ?ms = [True, False]"
    by code_simp+
  from join_means_handled [OF play_new [OF p(1)] p(2) _ p(3)] p(3-5) show ?thesis by (simp add: Let_def)
qed

theorem cancelled_handler_stops_queue_witness:
  "ac_queue (session_actor ex_cancelled) = [Payload False]
   \<and> (let R = play (ex_cancelled @ [Run ''s'' Resume, Run ''t'' Get, CancelSession ''s'']) new_runtime in
        \<not> join_session ''s'' R \<and> map_option ac_runner (map_of (ar_actors R) ''s'') = Some Ended)"
proof -
  let ?R = "play ex_cancelled new_runtime" and ?more = "[Run ''t'' Get, CancelSession ''s''] :: bool runtime_move list"
  have p: "playable ex_cancelled new_runtime" "map_of (ar_actors ?R) ''s'' = Some (session_actor ex_cancelled)"
    "ac_runner (session_actor ex_cancelled) = Settled True True HandlerCancelled"
    "ac_queue (session_actor ex_cancelled) = [Payload False]"
    "playable (ex_cancelled @ Run ''s'' Resume # ?more) new_runtime" "submitted ''s'' ?more = []" by code_simp+
  from cancelled_handler_stops_queue [OF play_new [OF p(1)] p(2,3) _ _ play_new [OF p(5)] p(6)] p(4)
  show ?thesis by (auto simp: Let_def)
qed

theorem stop_handles_everything_witness:
  "ac_calls (session_actor ex_stopped) = [True, False] \<and> active_sessions (play ex_stopped new_runtime) = []"
proof -
  have p: "playable ex_stopped new_runtime" "map_of (ar_stopping (play ex_stopped new_runtime)) ''s'' = Some (session_actor ex_stopped)"
    "ac_stop (session_actor ex_stopped) = StopQueued" "ac_queue (session_actor ex_stopped) = []"
    "submitted ''s'' ex_stopped = [True, False]" "active_sessions (play ex_stopped new_runtime) = []" by code_simp+
  from stop_handles_everything [OF play_new [OF p(1)] p(2,3)] p(4-6) show ?thesis by simp
qed

theorem queue_drains_witness:
  "\<exists>ts R B. set ts \<subseteq> smooth \<and> runs (ex_busy @ map (Run ''s'') ts) R \<and> map_of (ar_actors R) ''s'' = Some B
    \<and> ac_calls B = [True, False]"
proof -
  have p: "playable ex_busy new_runtime" "map_of (ar_actors (play ex_busy new_runtime)) ''s'' = Some (session_actor ex_busy)"
    "ac_runner (session_actor ex_busy) = Handling True False" "submitted ''s'' ex_busy = [True, False]" by code_simp+
  from queue_drains [OF play_new [OF p(1)] p(2)] p(3,4) show ?thesis by force
qed

end
