(* ===== verification/Context_Pool.thy ===== *)
theory Context_Pool
  imports Messages Runs Workspace_Policy Tool_Executor Py_Float
begin

text \<open>
  The context pool: what earlier turns and tools left for later questions. The table of
  \<^verbatim>\<open>core/db/models/context_pool.py\<close>, its repository
  (\<^verbatim>\<open>core/db/repositories/context_pool.py\<close>) and the service of
  \<^verbatim>\<open>core/services/context_pool_service.py\<close>. Embeddings are never written and are left out.

  Parameters: \<open>now_iso\<close> is the time stamp of a pruning, \<open>iso_text\<close> the text of a date,
  \<open>loads\<close> is \<open>json.loads\<close> and \<open>str_of\<close> the text pydantic gives for a result. Rows created at the
  same time are listed in their order in the table.
\<close>

section \<open>The table\<close>

record pool_item =
  pi_id :: row_id
  pi_context_id :: string
  pi_principal_id :: row_id
  pi_thread_id :: "row_id option"
  pi_session_id :: "row_id option"
  pi_message_id :: "row_id option"
  pi_origin_endpoint_id :: "row_id option"
  pi_home_workspace_id :: "row_id option"
  pi_active_workspace_id :: "row_id option"
  pi_item_type :: string
  pi_role :: string
  pi_content :: string
  pi_canonical_text :: string
  pi_importance :: rat
  pi_status :: string
  pi_workspace_tags :: "string list"
  pi_meta :: pydict
  pi_created_at :: instant

definition pi_clash :: "pool_item \<Rightarrow> pool_item \<Rightarrow> bool" where
  "pi_clash a b \<longleftrightarrow> pi_id a = pi_id b \<or> pi_context_id a = pi_context_id b"

interpretation pool: unique_table pi_id pi_clash
  by unfold_locales (auto simp: pi_clash_def)

definition pool_create :: "pool_item \<Rightarrow> pool_item list \<Rightarrow> pyerr + pool_item \<times> pool_item list" where
  "pool_create row T = insert_row pi_clash ''context_pool_items'' row T"

definition get_by_context_id :: "string \<Rightarrow> pool_item list \<Rightarrow> pool_item option" where
  "get_by_context_id context_id T = tbl_get pi_context_id context_id T"

definition is_active :: "row_id \<Rightarrow> pool_item \<Rightarrow> bool" where
  "is_active principal_id r \<longleftrightarrow> pi_principal_id r = principal_id \<and> pi_status r = ''active''"

definition list_active_for_principal :: "row_id \<Rightarrow> pool_item list \<Rightarrow> pool_item list" where
  "list_active_for_principal principal_id T = sorted_desc pi_created_at (filter (is_active principal_id) T)"

definition rank_key :: "pool_item \<Rightarrow> rat \<times> instant" where
  "rank_key r = (pi_importance r, pi_created_at r)"

definition pruned_item :: "string \<Rightarrow> pool_item \<Rightarrow> pool_item" where
  "pruned_item now_iso r =
     r\<lparr>pi_status := ''pruned'',
       pi_meta := dmerge (pi_meta r) [(''pruned_reason'', PStr ''context_pool_window''), (''pruned_at'', PStr now_iso)]\<rparr>"

definition prune_for_principal :: "string \<Rightarrow> row_id \<Rightarrow> int \<Rightarrow> pool_item list \<Rightarrow> int \<times> pool_item list" where
  "prune_for_principal now_iso principal_id max_items T =
     (let max_active = max 1 (if max_items = 0 then 1 else max_items); rows = list_active_for_principal principal_id T in
      if int (length rows) \<le> max_active then (0, T)
      else let keep = map pi_id (take (nat max_active) (sorted_desc rank_key rows));
               dropped = filter (\<lambda>r. pi_id r \<notin> set keep) rows
           in (int (length dropped),
               map (\<lambda>r. if is_active principal_id r \<and> pi_id r \<notin> set keep then pruned_item now_iso r else r) T))"

text \<open>Thread, session and workspace rank the candidates; they do not limit them.\<close>

definition list_candidates :: "row_id \<Rightarrow> int \<Rightarrow> pool_item list \<Rightarrow> pool_item list" where
  "list_candidates principal_id l T =
     take (nat (max 1 (if l = 0 then 200 else l))) (sorted_desc pi_created_at (filter (is_active principal_id) T))"

section \<open>Texts\<close>

text \<open>The characters of the class \<open>[\w\u4e00-\u9fff]\<close> below 256.\<close>

definition word_char :: "char \<Rightarrow> bool" where
  "word_char c \<longleftrightarrow> (let n = code c in
     48 \<le> n \<and> n \<le> 57 \<or> 65 \<le> n \<and> n \<le> 90 \<or> n = 95 \<or> 97 \<le> n \<and> n \<le> 122
     \<or> n \<in> {170, 178, 179, 181, 185, 186, 188, 189, 190} \<or> 192 \<le> n \<and> n \<noteq> 215 \<and> n \<noteq> 247)"

text \<open>\<open>_TOKEN_RE.findall\<close>; the first argument is the token read so far.\<close>

fun find_tokens :: "string \<Rightarrow> string \<Rightarrow> string list" where
  "find_tokens tok [] = (if tok = [] then [] else [tok])"
| "find_tokens tok (c # cs) =
     (if word_char c then find_tokens (tok @ [c]) cs
      else if tok = [] then find_tokens [] cs else tok # find_tokens [] cs)"

definition canonicalize :: "string \<Rightarrow> string" where
  "canonicalize text = join '' '' (find_tokens [] (lower text))"

definition tokens :: "string \<Rightarrow> string list" where
  "tokens text = remdups (find_tokens [] (canonicalize text))"

definition workspace_tags :: "string list \<Rightarrow> string list" where
  "workspace_tags values = dedup_nonempty [] (map strip values)"

definition max_content_chars :: nat where
  "max_content_chars = 6000"

definition bounded_text :: "string \<Rightarrow> string" where
  "bounded_text s =
     (let text = strip s in
      if length text \<le> max_content_chars then text
      else rstrip_by is_space (take (max_content_chars - 20) text) @ char_of (10::nat) # ''...[truncated]'')"

definition json_value :: "(string \<Rightarrow> pyval option) \<Rightarrow> pyval \<Rightarrow> pyval" where
  "json_value loads v = (case loads (json_dumps v) of Some w \<Rightarrow> w | None \<Rightarrow> PStr (str_or v []))"

definition tool_result_text :: "(tool_result \<Rightarrow> string) \<Rightarrow> tool_result \<Rightarrow> string" where
  "tool_result_text str_of r =
     (let text = strip (tc_text (tres_content r)); data = tc_data (tres_content r) in
      if text \<noteq> [] then bounded_text text
      else if data \<notin> {PNone, PStr [], PList [], PDict []} then bounded_text (json_dumps data)
      else bounded_text (str_of r))"

definition dict_result_text :: "pydict \<Rightarrow> string" where
  "dict_result_text d =
     (case filter (\<lambda>s. s \<noteq> []) (map (\<lambda>k. clean (dget d k)) [''summary'', ''message'', ''text'', ''stdout'', ''stderr'']) of
        s # _ \<Rightarrow> bounded_text s
      | [] \<Rightarrow> bounded_text (json_dumps (PDict d)))"

section \<open>Adding items\<close>

definition pool_limit :: "int \<Rightarrow> int" where
  "pool_limit m = max 1 (if m = 0 then 500 else m)"

text \<open>The number written in a program is the nearest double.\<close>

abbreviation decimal :: "int \<Rightarrow> int \<Rightarrow> rat" where
  "decimal p q \<equiv> fl (of_int p / of_int q)"

definition clamp_importance :: "rat \<Rightarrow> rat" where
  "clamp_importance r = max 0 (min 1 (if r = 0 then decimal 1 2 else r))"

record pool_request =
  pq_principal_id :: row_id
  pq_content :: string
  pq_thread_id :: "row_id option"
  pq_session_id :: "row_id option"
  pq_message_id :: "row_id option"
  pq_origin_endpoint_id :: "row_id option"
  pq_home_workspace_id :: "row_id option"
  pq_active_workspace_id :: "row_id option"
  pq_item_type :: string
  pq_role :: string
  pq_importance :: rat
  pq_workspace_tags :: "string list"
  pq_metadata :: pydict

definition pool_row :: "instant \<Rightarrow> row_id \<Rightarrow> string \<Rightarrow> pool_request \<Rightarrow> pool_item" where
  "pool_row now new_id new_hex rq =
     (let text = bounded_text (strip (pq_content rq)) in
      \<lparr>pi_id = new_id, pi_context_id = ''ctx_'' @ new_hex, pi_principal_id = pq_principal_id rq,
       pi_thread_id = pq_thread_id rq, pi_session_id = pq_session_id rq, pi_message_id = pq_message_id rq,
       pi_origin_endpoint_id = pq_origin_endpoint_id rq, pi_home_workspace_id = pq_home_workspace_id rq,
       pi_active_workspace_id = pq_active_workspace_id rq,
       pi_item_type = or_str (strip (or_str (pq_item_type rq) ''turn'')) ''turn'', pi_role = strip (pq_role rq),
       pi_content = text, pi_canonical_text = canonicalize text, pi_importance = clamp_importance (pq_importance rq),
       pi_status = ''active'', pi_workspace_tags = pq_workspace_tags rq, pi_meta = pq_metadata rq, pi_created_at = now\<rparr>)"

text \<open>The row that is returned is the object of the session, with what the pruning did to it.\<close>

definition add_item ::
  "int \<Rightarrow> instant \<Rightarrow> string \<Rightarrow> row_id \<Rightarrow> string \<Rightarrow> pool_request \<Rightarrow> pool_item list \<Rightarrow> pyerr + pool_item option \<times> pool_item list" where
  "add_item m now now_iso new_id new_hex rq T =
     (if strip (pq_content rq) = [] then Inr (None, T)
      else rbind (pool_create (pool_row now new_id new_hex rq) T) (\<lambda>(row, T1).
        let T2 = snd (prune_for_principal now_iso (pq_principal_id rq) (pool_limit m) T1)
        in Inr (tbl_get pi_id (pi_id row) T2, T2)))"

definition or_else :: "'a option \<Rightarrow> 'a option \<Rightarrow> 'a option" where
  "or_else a b = (case a of None \<Rightarrow> b | Some x \<Rightarrow> Some x)"

definition attribute :: "('r \<Rightarrow> string) \<Rightarrow> 'r option \<Rightarrow> string" where
  "attribute f x = (case x of None \<Rightarrow> [] | Some r \<Rightarrow> f r)"

definition message_request ::
  "row_id \<Rightarrow> message \<Rightarrow> thread option \<Rightarrow> session_row option \<Rightarrow> endpoint option \<Rightarrow> workspace option \<Rightarrow> workspace option
   \<Rightarrow> pydict option \<Rightarrow> pool_request" where
  "message_request principal_id message thread session ep active_workspace home_workspace metadata =
     (let home = attribute ws_workspace_id home_workspace; active = attribute ws_workspace_id active_workspace in
      \<lparr>pq_principal_id = principal_id, pq_content = ms_content message, pq_thread_id = map_option th_id thread,
       pq_session_id = map_option sn_id session, pq_message_id = Some (ms_id message),
       pq_origin_endpoint_id = or_else (map_option ep_id ep) (ms_origin_endpoint_id message),
       pq_home_workspace_id = map_option th_home_workspace_id thread,
       pq_active_workspace_id = or_else (ms_active_workspace_id message) (map_option sn_active_workspace_id session),
       pq_item_type = ''turn'', pq_role = ms_role message,
       pq_importance = (if ms_role message = ''user'' then decimal 65 100 else decimal 45 100),
       pq_workspace_tags = workspace_tags [home, active],
       pq_metadata = dmerge (dict_or metadata)
         [(''message_id'', PStr (ms_message_id message)), (''thread_id'', PStr (attribute th_thread_id thread)),
          (''session_id'', PStr (attribute sn_session_id session)), (''endpoint_id'', PStr (attribute ep_endpoint_id ep)),
          (''home_workspace_id'', PStr home), (''active_workspace_id'', PStr active)]\<rparr>)"

definition record_message ::
  "int \<Rightarrow> instant \<Rightarrow> string \<Rightarrow> row_id \<Rightarrow> string \<Rightarrow> row_id \<Rightarrow> message \<Rightarrow> thread option \<Rightarrow> session_row option \<Rightarrow> endpoint option
   \<Rightarrow> workspace option \<Rightarrow> workspace option \<Rightarrow> pydict option \<Rightarrow> pool_item list \<Rightarrow> pyerr + pool_item option \<times> pool_item list" where
  "record_message m now now_iso new_id new_hex principal_id message thread session ep active_workspace home_workspace metadata T =
     add_item m now now_iso new_id new_hex
       (message_request principal_id message thread session ep active_workspace home_workspace metadata) T"

text \<open>The public names of an event context and the rows they name. The source of the event is a
  dictionary, an object with its \<open>metadata\<close>, or missing.\<close>

datatype context_source = SourceDict pydict | SourceWith pyval | NoSource

record context_tables =
  ct_threads :: "thread list"
  ct_sessions :: "session_row list"
  ct_workspaces :: "workspace list"
  ct_endpoints :: "endpoint list"

record context_rows =
  cr_thread :: "thread option"
  cr_session_id :: "row_id option"
  cr_workspace_id :: "row_id option"
  cr_endpoint_id :: "row_id option"
  cr_public_thread_id :: string
  cr_public_session_id :: string
  cr_public_workspace_id :: string
  cr_public_endpoint_id :: string

definition named :: "(string \<Rightarrow> 'r list \<Rightarrow> 'r option) \<Rightarrow> string \<Rightarrow> 'r list \<Rightarrow> 'r option" where
  "named get name T = (if name = [] then None else get name T)"

definition resolve_context_rows :: "context_tables \<Rightarrow> pydict \<Rightarrow> context_source \<Rightarrow> context_rows" where
  "resolve_context_rows C ctx source =
     (let source_metadata = as_dict (case source of SourceDict d \<Rightarrow> dget_or d ''metadata'' (PDict []) | SourceWith v \<Rightarrow> v | NoSource \<Rightarrow> PDict []);
          thread_id = clean (dget ctx ''thread_id'');
          session_id = clean (dget ctx ''session_id'');
          workspace_id = clean (py_or (dget ctx ''active_workspace_id'') (dget ctx ''workspace_id''));
          endpoint_id = clean (py_or (dget ctx ''endpoint_id'') (dget source_metadata ''endpoint_id''))
      in \<lparr>cr_thread = named get_by_thread_id thread_id (ct_threads C),
          cr_session_id = map_option sn_id (named get_by_session_id session_id (ct_sessions C)),
          cr_workspace_id = map_option ws_id (named get_by_workspace_id workspace_id (ct_workspaces C)),
          cr_endpoint_id = map_option ep_id (named get_by_endpoint_id endpoint_id (ct_endpoints C)),
          cr_public_thread_id = thread_id, cr_public_session_id = session_id, cr_public_workspace_id = workspace_id,
          cr_public_endpoint_id = endpoint_id\<rparr>)"

definition writes :: "string \<Rightarrow> bool" where
  "writes action_risk \<longleftrightarrow> action_risk \<in> {''local_write'', ''external_write'', ''destructive''}"

definition tool_result_request ::
  "(string \<Rightarrow> pyval option) \<Rightarrow> context_rows \<Rightarrow> row_id \<Rightarrow> string \<Rightarrow> string \<Rightarrow> string \<Rightarrow> tool_result \<Rightarrow> pydict \<Rightarrow> pydict \<Rightarrow> pool_request" where
  "tool_result_request loads rows principal_id name content risk r args metadata =
     \<lparr>pq_principal_id = principal_id, pq_content = ''Tool '' @ name @ '' result:'' @ char_of (10::nat) # content,
      pq_thread_id = map_option th_id (cr_thread rows), pq_session_id = cr_session_id rows, pq_message_id = None,
      pq_origin_endpoint_id = cr_endpoint_id rows,
      pq_home_workspace_id = map_option th_home_workspace_id (cr_thread rows), pq_active_workspace_id = cr_workspace_id rows,
      pq_item_type = ''tool_result'', pq_role = ''tool'',
      pq_importance = (if writes risk then decimal 64 100 else decimal 48 100),
      pq_workspace_tags = workspace_tags [cr_public_workspace_id rows],
      pq_metadata = dmerge metadata
        [(''tool_name'', PStr name), (''action_risk'', PStr risk), (''source'', PStr (tres_source r)),
         (''tool_args'', json_value loads (PDict args)), (''thread_id'', PStr (cr_public_thread_id rows)),
         (''session_id'', PStr (cr_public_session_id rows)), (''endpoint_id'', PStr (cr_public_endpoint_id rows)),
         (''active_workspace_id'', PStr (cr_public_workspace_id rows))]\<rparr>"

definition record_tool_result_by_context ::
  "int \<Rightarrow> (string \<Rightarrow> pyval option) \<Rightarrow> (tool_result \<Rightarrow> string) \<Rightarrow> context_tables \<Rightarrow> instant \<Rightarrow> string \<Rightarrow> row_id \<Rightarrow> string \<Rightarrow> row_id
   \<Rightarrow> string \<Rightarrow> tool_result \<Rightarrow> pydict option \<Rightarrow> pydict \<Rightarrow> context_source \<Rightarrow> pydict option \<Rightarrow> pool_item list
   \<Rightarrow> pyerr + pool_item option \<times> pool_item list" where
  "record_tool_result_by_context m loads str_of C now now_iso new_id new_hex principal_id tool_name r args ctx source metadata T =
     (if \<not> tres_ok r then Inr (None, T)
      else let content = tool_result_text str_of r; risk = or_str (tres_action_risk r) ''read'' in
        if length content < 32 \<and> \<not> writes risk then Inr (None, T)
        else let name = strip (or_str tool_name (tres_tool_name r)) in
          if name = [] then Inr (None, T)
          else add_item m now now_iso new_id new_hex
                 (tool_result_request loads (resolve_context_rows C ctx source) principal_id name content risk r (dict_or args) (dict_or metadata)) T)"

record call_origin =
  co_endpoint_id :: "row_id option"
  co_endpoint_name :: string
  co_call_id :: string
  co_target_endpoint_id :: "row_id option"
  co_operation_id :: string
  co_operation_type :: string
  co_requested_by_session_id :: "row_id option"
  co_workspace_id :: "row_id option"

definition record_endpoint_tool_operation_result ::
  "int \<Rightarrow> instant \<Rightarrow> string \<Rightarrow> row_id \<Rightarrow> string \<Rightarrow> row_id \<Rightarrow> call_origin \<Rightarrow> pydict \<Rightarrow> thread option \<Rightarrow> workspace option
   \<Rightarrow> pydict option \<Rightarrow> pool_item list \<Rightarrow> pyerr + pool_item option \<times> pool_item list" where
  "record_endpoint_tool_operation_result m now now_iso new_id new_hex principal_id origin result thread ws metadata T =
     (let content = dict_result_text result; public_workspace = attribute ws_workspace_id ws in
      if content = [] then Inr (None, T)
      else add_item m now now_iso new_id new_hex
        \<lparr>pq_principal_id = principal_id,
         pq_content = ''Endpoint '' @ co_endpoint_name origin @ '' tool operation result:'' @ char_of (10::nat) # content,
         pq_thread_id = map_option th_id thread, pq_session_id = co_requested_by_session_id origin, pq_message_id = None,
         pq_origin_endpoint_id = or_else (co_endpoint_id origin) (co_target_endpoint_id origin),
         pq_home_workspace_id = map_option th_home_workspace_id thread, pq_active_workspace_id = co_workspace_id origin,
         pq_item_type = ''endpoint_tool_result'', pq_role = ''tool'', pq_importance = decimal 58 100,
         pq_workspace_tags = workspace_tags [public_workspace],
         pq_metadata = dmerge (dict_or metadata)
           [(''endpoint_id'', PStr (co_endpoint_name origin)), (''call_id'', PStr (co_call_id origin)),
            (''operation_id'', PStr (co_operation_id origin)), (''operation_type'', PStr (co_operation_type origin)),
            (''thread_id'', PStr (attribute th_thread_id thread)), (''active_workspace_id'', PStr public_workspace)]\<rparr> T)"

section \<open>Questions\<close>

record pool_answer =
  pa_context_id :: string
  pa_item_type :: string
  pa_role :: string
  pa_content :: string
  pa_score :: rat
  pa_same_session :: bool
  pa_same_thread :: bool
  pa_same_workspace :: bool
  pa_workspace_tags :: "string list"
  pa_metadata :: pydict
  pa_created_at :: string

record pool_question =
  qu_principal_id :: row_id
  qu_text :: string
  qu_thread_id :: "row_id option"
  qu_session_id :: "row_id option"
  qu_active_workspace_id :: "row_id option"
  qu_limit :: int

definition same :: "row_id option \<Rightarrow> row_id option \<Rightarrow> bool" where
  "same asked found \<longleftrightarrow> asked \<noteq> None \<and> found = asked"

text \<open>\<open>round(x, 4)\<close>: the nearest multiple of 0.0001, ties to even, as a double.\<close>

definition round4 :: "rat \<Rightarrow> rat" where
  "round4 x = fl (of_int (round_half_even (x * 10000)) / 10000)"

definition lexical_score :: "string list \<Rightarrow> pool_item \<Rightarrow> rat" where
  "lexical_score query_tokens item =
     (if query_tokens = [] then 0
      else fdiv (of_nat (length (filter (\<lambda>t. t \<in> set (find_tokens [] (pi_canonical_text item))) query_tokens)))
        (of_nat (max (length query_tokens) 1)))"

definition same_workspace :: "row_id option \<Rightarrow> pool_item \<Rightarrow> bool" where
  "same_workspace w item \<longleftrightarrow> same w (pi_active_workspace_id item) \<or> same w (pi_home_workspace_id item)"

definition item_score :: "pool_question \<Rightarrow> string list \<Rightarrow> pool_item \<Rightarrow> rat" where
  "item_score q query_tokens item =
     fadd (fadd (fadd (fadd
       (fmul (decimal 55 100) (lexical_score query_tokens item))
       (fmul (decimal 2 10) (pi_importance item)))
       (if same (qu_thread_id q) (pi_thread_id item) then decimal 18 100 else 0))
       (if same (qu_session_id q) (pi_session_id item) then decimal 12 100 else 0))
       (if same_workspace (qu_active_workspace_id q) item then decimal 1 10 else 0)"

definition answer :: "(instant \<Rightarrow> string) \<Rightarrow> pool_question \<Rightarrow> pool_item \<Rightarrow> rat \<Rightarrow> pool_answer" where
  "answer iso_text q item score =
     \<lparr>pa_context_id = pi_context_id item, pa_item_type = pi_item_type item, pa_role = pi_role item,
      pa_content = pi_content item, pa_score = round4 score, pa_same_session = same (qu_session_id q) (pi_session_id item),
      pa_same_thread = same (qu_thread_id q) (pi_thread_id item), pa_same_workspace = same_workspace (qu_active_workspace_id q) item,
      pa_workspace_tags = pi_workspace_tags item, pa_metadata = pi_meta item, pa_created_at = iso_text (pi_created_at item)\<rparr>"

definition answers :: "(instant \<Rightarrow> string) \<Rightarrow> pool_question \<Rightarrow> pool_item list \<Rightarrow> pool_answer list" where
  "answers iso_text q T =
     (let query_tokens = tokens (qu_text q) in
      map (\<lambda>item. answer iso_text q item (item_score q query_tokens item))
        (filter (\<lambda>item. \<not> (item_score q query_tokens item \<le> 0 \<and> query_tokens \<noteq> []))
          (list_candidates (qu_principal_id q) 200 T)))"

definition query :: "(instant \<Rightarrow> string) \<Rightarrow> pool_question \<Rightarrow> pool_item list \<Rightarrow> pool_answer list" where
  "query iso_text q T =
     take (nat (max 1 (if qu_limit q = 0 then 8 else qu_limit q))) (sorted_desc pa_score (answers iso_text q T))"

definition query_by_public_ids ::
  "(instant \<Rightarrow> string) \<Rightarrow> context_tables \<Rightarrow> row_id \<Rightarrow> string \<Rightarrow> string \<Rightarrow> string \<Rightarrow> string \<Rightarrow> int \<Rightarrow> pool_item list \<Rightarrow> pool_answer list" where
  "query_by_public_ids iso_text C principal_id query_text thread_id session_id active_workspace_id l T =
     query iso_text
       \<lparr>qu_principal_id = principal_id, qu_text = query_text,
        qu_thread_id = map_option th_id (named get_by_thread_id thread_id (ct_threads C)),
        qu_session_id = map_option sn_id (named get_by_session_id session_id (ct_sessions C)),
        qu_active_workspace_id = map_option ws_id (named get_by_workspace_id active_workspace_id (ct_workspaces C)),
        qu_limit = l\<rparr> T"

section \<open>The best of a sorted list\<close>

lemma distinct_sorted_desc [simp]: "distinct (sorted_desc k xs) = distinct xs"
  by (simp add: sorted_desc_def)

lemma taken_is_best:
  assumes a: "a \<in> set (take n (sorted_desc k xs))" and b: "b \<in> set xs" "b \<notin> set (take n (sorted_desc k xs))"
  shows "k b \<le> k a"
proof -
  have "sorted_wrt (\<lambda>a b. k b \<le> k a) (take n (sorted_desc k xs) @ drop n (sorted_desc k xs))"
    using sorted_desc_sorted by simp
  moreover have "b \<in> set (drop n (sorted_desc k xs))"
    using b set_append [of "take n (sorted_desc k xs)" "drop n (sorted_desc k xs)"] by simp
  ultimately show ?thesis using a by (simp add: sorted_wrt_append del: append_take_drop_id)
qed

lemma outranked_not_taken:
  assumes n: "n \<le> length (filter (\<lambda>x. k r < k x) xs)" shows "r \<notin> set (take n (sorted_desc k xs))"
proof
  let ?ys = "sorted_desc k xs"
  assume "r \<in> set (take n ?ys)"
  then obtain i where i: "i < n" "i < length ?ys" "?ys ! i = r" by (auto simp: in_set_conv_nth)
  have "sorted_wrt (\<lambda>a b. k b \<le> k a) (take i ?ys @ drop i ?ys)" using sorted_desc_sorted by simp
  moreover have "drop i ?ys = r # drop (Suc i) ?ys" using i by (metis Cons_nth_drop_Suc)
  ultimately have "\<forall>x \<in> set (drop i ?ys). k x \<le> k r" by (simp add: sorted_wrt_append del: append_take_drop_id)
  then have "filter (\<lambda>x. k r < k x) (drop i ?ys) = []" by (auto simp: filter_empty_conv leD)
  then have "length (filter (\<lambda>x. k r < k x) (take i ?ys @ drop i ?ys)) \<le> i"
    unfolding filter_append by (simp add: le_trans [OF length_filter_le])
  then show False using n i(1) length_filter_sorted_desc [of "\<lambda>x. k r < k x" k xs] by simp
qed

section \<open>What a pruning keeps\<close>

definition window :: "int \<Rightarrow> nat" where
  "window max_items = nat (max 1 (if max_items = 0 then 1 else max_items))"

definition kept :: "row_id \<Rightarrow> int \<Rightarrow> pool_item list \<Rightarrow> pool_item list" where
  "kept p n T = take (window n) (sorted_desc rank_key (list_active_for_principal p T))"

definition dropped :: "row_id \<Rightarrow> int \<Rightarrow> pool_item list \<Rightarrow> pool_item \<Rightarrow> bool" where
  "dropped p n T r \<longleftrightarrow> is_active p r \<and> r \<notin> set (kept p n T)"

lemma set_active [simp]: "set (list_active_for_principal p T) = {r \<in> set T. is_active p r}"
  by (simp add: list_active_for_principal_def)

lemma kept_active: "r \<in> set (kept p n T) \<Longrightarrow> r \<in> set T \<and> is_active p r"
  using set_take_subset by (fastforce simp: kept_def)

lemma prune_exact:
  assumes u: "unique_rows pi_clash T"
  shows "snd (prune_for_principal now_iso p n T) = map (\<lambda>r. if dropped p n T r then pruned_item now_iso r else r) T"
proof -
  let ?rows = "list_active_for_principal p T"
  have w: "int (window n) = max 1 (if n = 0 then 1 else n)" by (simp add: window_def)
  show ?thesis
  proof (cases "int (length ?rows) \<le> max 1 (if n = 0 then 1 else n)")
    case True
    then have "length ?rows \<le> window n" using w by linarith
    then have k: "set (kept p n T) = {r \<in> set T. is_active p r}" by (simp add: kept_def)
    have "map (\<lambda>r. if dropped p n T r then pruned_item now_iso r else r) T = map (\<lambda>r. r) T"
      by (rule map_cong) (auto simp: dropped_def k)
    then show ?thesis using True by (simp add: prune_for_principal_def Let_def)
  next
    case False
    have "(is_active p r \<and> pi_id r \<notin> set (map pi_id (kept p n T))) = dropped p n T r" if "r \<in> set T" for r
    proof -
      have "r' = r" if "r' \<in> set (kept p n T)" "pi_id r' = pi_id r" for r'
        using pool.unique_eq [OF u _ \<open>r \<in> set T\<close>, of r'] kept_active that by (auto simp: pi_clash_def)
      then show ?thesis by (auto simp: dropped_def)
    qed
    then show ?thesis using False
      by (simp add: prune_for_principal_def Let_def kept_def window_def cong: map_cong)
  qed
qed

lemma length_kept: "length (kept p n T) \<le> window n"
  by (simp add: kept_def)

lemma active_after_prune:
  assumes u: "unique_rows pi_clash T"
  shows "filter (is_active p) (snd (prune_for_principal now_iso p n T)) = filter (\<lambda>r. r \<in> set (kept p n T)) T"
proof -
  let ?f = "\<lambda>r. if dropped p n T r then pruned_item now_iso r else r"
  have d: "is_active p (?f r) \<longleftrightarrow> r \<in> set (kept p n T)" for r
    using kept_active [of r] by (auto simp: dropped_def is_active_def pruned_item_def)
  have "filter (is_active p) (map ?f T) = map ?f (filter (\<lambda>r. r \<in> set (kept p n T)) T)"
    unfolding filter_map comp_def d ..
  also have "\<dots> = map (\<lambda>r. r) (filter (\<lambda>r. r \<in> set (kept p n T)) T)"
    by (rule map_cong) (auto simp: dropped_def)
  finally show ?thesis by (simp add: prune_exact [OF u])
qed

lemma unique_distinct: "unique_rows pi_clash T \<Longrightarrow> distinct T"
  by (induction T) (auto simp: pi_clash_def)

lemma active_bound:
  assumes u: "unique_rows pi_clash T"
  shows "length (filter (is_active p) (snd (prune_for_principal now_iso p n T))) \<le> window n"
proof -
  have "length (filter (\<lambda>r. r \<in> set (kept p n T)) T) = card (set (filter (\<lambda>r. r \<in> set (kept p n T)) T))"
    using unique_distinct [OF u] by (intro distinct_card [symmetric]) simp
  also have "\<dots> \<le> card (set (kept p n T))" by (rule card_mono) auto
  also have "\<dots> \<le> window n" using card_length length_kept le_trans by blast
  finally show ?thesis by (simp add: active_after_prune [OF u])
qed

lemma prune_other:
  assumes u: "unique_rows pi_clash T" and q: "q \<noteq> p"
  shows "filter (is_active q) (snd (prune_for_principal now_iso p n T)) = filter (is_active q) T"
proof -
  let ?f = "\<lambda>r. if dropped p n T r then pruned_item now_iso r else r"
  have d: "is_active q (?f r) \<longleftrightarrow> is_active q r" for r
    using q by (auto simp: dropped_def is_active_def pruned_item_def)
  have "filter (is_active q) (map ?f T) = map ?f (filter (is_active q) T)"
    unfolding filter_map comp_def d ..
  also have "\<dots> = map (\<lambda>r. r) (filter (is_active q) T)"
    using q by (intro map_cong) (auto simp: dropped_def is_active_def)
  finally show ?thesis by (simp add: prune_exact [OF u])
qed

lemma prune_unique:
  assumes u: "unique_rows pi_clash T" shows "unique_rows pi_clash (snd (prune_for_principal now_iso p n T))"
  unfolding prune_exact [OF u] using u by (rule pool.unique_map) (auto simp: pi_clash_def pruned_item_def split: if_splits)

lemma add_item_cases:
  assumes add: "add_item m now now_iso new_id new_hex rq T = Inr (x, T')" and u: "unique_rows pi_clash T"
  obtains (nothing) "strip (pq_content rq) = []" "x = None" "T' = T"
  | (row) "unique_rows pi_clash (T @ [pool_row now new_id new_hex rq])" "strip (pq_content rq) \<noteq> []"
      "T' = snd (prune_for_principal now_iso (pq_principal_id rq) (pool_limit m) (T @ [pool_row now new_id new_hex rq]))"
      "x = tbl_get pi_id new_id T'"
proof (cases "strip (pq_content rq) = []")
  case True
  then have "x = None" "T' = T" using add by (simp_all add: add_item_def)
  with True show ?thesis by (rule nothing)
next
  case False
  let ?r = "pool_row now new_id new_hex rq"
  obtain row T1 where c: "pool_create ?r T = Inr (row, T1)"
    using add False by (cases "pool_create ?r T") (auto simp: add_item_def rbind_def)
  have T1: "unique_rows pi_clash T1" "row = ?r" "T1 = T @ [?r]"
    using pool.insert_ok [OF c [unfolded pool_create_def] u] by blast+
  have "x = tbl_get pi_id (pi_id ?r) T'" "T' = snd (prune_for_principal now_iso (pq_principal_id rq) (pool_limit m) T1)"
    using add False c T1(2) by (auto simp: add_item_def rbind_def Let_def)
  then show ?thesis using row T1 False by (simp add: pool_row_def Let_def)
qed

section \<open>Properties\<close>

text \<open>Any number of items of any principals, whose names are new to the table.\<close>

inductive pool_step :: "int \<Rightarrow> pool_item list \<Rightarrow> pool_item list \<Rightarrow> bool" for m where
  add: "add_item m now now_iso new_id new_hex rq T = Inr (x, T') \<Longrightarrow> pool_step m T T'"

lemma window_limit: "window (pool_limit m) = nat (pool_limit m)"
  by (simp add: window_def pool_limit_def)

lemma pool_step_ok:
  assumes "pool_step m T T'" and ok: "unique_rows pi_clash T" "\<And>p. length (filter (is_active p) T) \<le> nat (pool_limit m)"
  shows "unique_rows pi_clash T' \<and> (\<forall>p. length (filter (is_active p) T') \<le> nat (pool_limit m))"
  using assms(1)
proof cases
  case (add now now_iso new_id new_hex rq x)
  show ?thesis
  proof (rule add_item_cases [OF add ok(1)])
    assume "T' = T"
    then show ?thesis using ok by simp
  next
    let ?T = "T @ [pool_row now new_id new_hex rq]"
    assume u: "unique_rows pi_clash ?T" and T': "T' = snd (prune_for_principal now_iso (pq_principal_id rq) (pool_limit m) ?T)"
    have "length (filter (is_active p) T') \<le> nat (pool_limit m)" for p
    proof (cases "p = pq_principal_id rq")
      case True
      then show ?thesis using active_bound [OF u, of p now_iso "pool_limit m"] by (simp add: T' window_limit)
    next
      case False
      then have "\<not> is_active p (pool_row now new_id new_hex rq)" by (simp add: is_active_def pool_row_def Let_def)
      then show ?thesis using prune_other [OF u False] ok(2) [of p] by (simp add: T')
    qed
    then show ?thesis using prune_unique [OF u] by (simp add: T')
  qed
qed

text \<open>(C33)
  The pool stays within its window. After any number of items, added for any principals, no
  principal has more active items than the service allows.
\<close>

theorem pool_window_bounded:
  assumes "(pool_step m)\<^sup>*\<^sup>* [] T" shows "length (filter (is_active p) T) \<le> nat (pool_limit m)"
proof -
  have "unique_rows pi_clash T \<and> (\<forall>p. length (filter (is_active p) T) \<le> nat (pool_limit m))"
    using assms by (induction rule: rtranclp_induct) (use pool_step_ok in \<open>auto simp: pool_limit_def\<close>)
  then show ?thesis by blast
qed

text \<open>(C34)
  The window keeps what matters most. An item that is added removes only items of its own
  principal, itself perhaps, and each item it removes is at most as important as every item of
  the principal that stays, and not newer where it is equally important.
\<close>

theorem window_keeps_most_important:
  assumes add: "add_item m now now_iso new_id new_hex rq T = Inr (x, T')" and u: "unique_rows pi_clash T"
    and stays: "a \<in> set T'" "is_active (pq_principal_id rq) a"
    and removed: "b \<in> set (T @ [pool_row now new_id new_hex rq])" "b \<notin> set T'" "strip (pq_content rq) \<noteq> []"
  shows "rank_key b \<le> rank_key a \<and> pi_principal_id b = pq_principal_id rq"
proof (rule add_item_cases [OF add u])
  assume "strip (pq_content rq) = []"
  then show ?thesis using removed(3) by simp
next
  let ?T = "T @ [pool_row now new_id new_hex rq]" and ?p = "pq_principal_id rq"
  assume uT: "unique_rows pi_clash ?T" and T': "T' = snd (prune_for_principal now_iso ?p (pool_limit m) ?T)"
  have d: "dropped ?p (pool_limit m) ?T b"
  proof (rule ccontr)
    assume n: "\<not> dropped ?p (pool_limit m) ?T b"
    have "(\<lambda>r. if dropped ?p (pool_limit m) ?T r then pruned_item now_iso r else r) b \<in> set T'"
      unfolding T' prune_exact [OF uT] set_map using removed(1) by (rule imageI)
    then show False using n removed(2) by simp
  qed
  have a: "a \<in> set (kept ?p (pool_limit m) ?T)"
  proof -
    have "a \<in> set (filter (is_active ?p) T')" using stays by simp
    then show ?thesis unfolding T' active_after_prune [OF uT] set_filter by blast
  qed
  have "rank_key b \<le> rank_key a" unfolding kept_def
    using taken_is_best [OF a [unfolded kept_def], of b] d removed(1) by (simp add: dropped_def kept_def)
  then show ?thesis using d by (simp add: dropped_def is_active_def)
qed

text \<open>A new item may be lost at once. When the principal already has as many active items as the
  window allows, all more important than the new one, the new item is stored as pruned, although
  the call succeeds and returns it, and the pool is otherwise as before.
\<close>

theorem unimportant_item_lost:
  assumes add: "add_item m now now_iso new_id new_hex rq T = Inr (Some r, T')" and u: "unique_rows pi_clash T"
    and full: "nat (pool_limit m) \<le> length (filter (\<lambda>a. is_active (pq_principal_id rq) a \<and> clamp_importance (pq_importance rq) < pi_importance a) T)"
  shows "pi_status r = ''pruned'' \<and> pi_content r = bounded_text (strip (pq_content rq)) \<and> r \<in> set T'"
proof (rule add_item_cases [OF add u])
  assume "Some r = None"
  then show ?thesis by simp
next
  let ?n = "pool_row now new_id new_hex rq" and ?p = "pq_principal_id rq"
  assume uT: "unique_rows pi_clash (T @ [?n])" and T': "T' = snd (prune_for_principal now_iso ?p (pool_limit m) (T @ [?n]))"
    and r: "Some r = tbl_get pi_id new_id T'"
  have k: "rank_key ?n < rank_key a" if "clamp_importance (pq_importance rq) < pi_importance a" for a
    using that by (simp add: rank_key_def pool_row_def Let_def less_prod_def)
  have "window (pool_limit m) \<le> length (filter (\<lambda>a. is_active ?p a \<and> clamp_importance (pq_importance rq) < pi_importance a) T)"
    using full by (simp add: window_limit)
  also have "\<dots> \<le> length (filter (\<lambda>a. rank_key ?n < rank_key a) (filter (is_active ?p) (T @ [?n])))"
    by (induction T) (auto simp: k)
  finally have "?n \<notin> set (kept ?p (pool_limit m) (T @ [?n]))"
    unfolding kept_def list_active_for_principal_def
    by (intro outranked_not_taken) (simp only: length_filter_sorted_desc)
  then have d: "dropped ?p (pool_limit m) (T @ [?n]) ?n"
    by (simp add: dropped_def is_active_def pool_row_def Let_def)
  have "pruned_item now_iso ?n \<in> set T'"
    unfolding T' prune_exact [OF uT] using d by force
  moreover have "pi_id (pruned_item now_iso ?n) = new_id" by (simp add: pruned_item_def pool_row_def Let_def)
  ultimately have "tbl_get pi_id new_id T' = Some (pruned_item now_iso ?n)"
    using pool.get_mem [OF prune_unique [OF uT, of now_iso ?p "pool_limit m", folded T']] by metis
  then have "r = pruned_item now_iso ?n" using r by simp
  then show ?thesis using \<open>pruned_item now_iso ?n \<in> set T'\<close> by (simp add: pruned_item_def pool_row_def Let_def)
qed

lemma answers_from_candidates:
  assumes "a \<in> set (query iso_text q T)"
  shows "\<exists>r \<in> set (list_candidates (qu_principal_id q) 200 T). \<exists>s. a = answer iso_text q r s"
  using assms set_take_subset by (fastforce simp: query_def answers_def Let_def)

text \<open>Answers stay with the principal. Every answer of the pool is an active item of the principal
  that asks; there are at most as many as asked for, and the better ones come first.
\<close>

theorem answers_stay_with_principal:
  "(\<forall>a \<in> set (query iso_text q T). \<exists>r \<in> set T. is_active (qu_principal_id q) r \<and> pa_context_id a = pi_context_id r \<and> pa_content a = pi_content r)
   \<and> length (query iso_text q T) \<le> nat (max 1 (if qu_limit q = 0 then 8 else qu_limit q))
   \<and> sorted_wrt (\<lambda>a b. pa_score b \<le> pa_score a) (query iso_text q T)"
proof (intro conjI ballI)
  fix a assume "a \<in> set (query iso_text q T)"
  then obtain r s where "r \<in> set (list_candidates (qu_principal_id q) 200 T)" "a = answer iso_text q r s"
    using answers_from_candidates by blast
  moreover from this(1) have "r \<in> set T \<and> is_active (qu_principal_id q) r"
    using set_take_subset by (fastforce simp: list_candidates_def)
  ultimately show "\<exists>r \<in> set T. is_active (qu_principal_id q) r \<and> pa_context_id a = pi_context_id r \<and> pa_content a = pi_content r"
    by (auto simp: answer_def)
next
  show "sorted_wrt (\<lambda>a b. pa_score b \<le> pa_score a) (query iso_text q T)"
    unfolding query_def by (intro sorted_wrt_take sorted_desc_sorted)
qed (simp add: query_def)

text \<open>Old items are not found. When the principal has 200 active items that are newer than an item,
  no question of the principal finds it, however well it fits, although the window keeps up to
  500 items and prefers important ones to new ones.
\<close>

theorem old_item_not_found:
  assumes u: "unique_rows pi_clash T" and r: "r \<in> set T"
    and newer: "200 \<le> length (filter (\<lambda>x. is_active (qu_principal_id q) x \<and> pi_created_at r < pi_created_at x) T)"
  shows "pi_context_id r \<notin> pa_context_id ` set (query iso_text q T)"
proof
  assume "pi_context_id r \<in> pa_context_id ` set (query iso_text q T)"
  then obtain c s where c: "c \<in> set (list_candidates (qu_principal_id q) 200 T)" "pa_context_id (answer iso_text q c s) = pi_context_id r"
    using answers_from_candidates by force
  then have "c \<in> set T" using set_take_subset by (fastforce simp: list_candidates_def)
  then have "c = r" using pool.unique_eq [OF u _ r, of c] c(2) by (simp add: answer_def pi_clash_def)
  moreover have "200 \<le> length (filter (\<lambda>x. pi_created_at r < pi_created_at x) (filter (is_active (qu_principal_id q)) T))"
    using newer by (simp add: conj_commute)
  ultimately show False
    using outranked_not_taken [of 200 pi_created_at r "filter (is_active (qu_principal_id q)) T"] c(1)
    by (simp add: list_candidates_def)
qed

section \<open>Examples\<close>

definition ex_pool_request :: "string \<Rightarrow> rat \<Rightarrow> pool_request" where
  "ex_pool_request content importance =
     \<lparr>pq_principal_id = ''p'', pq_content = content, pq_thread_id = None, pq_session_id = None, pq_message_id = None,
      pq_origin_endpoint_id = None, pq_home_workspace_id = None, pq_active_workspace_id = None, pq_item_type = ''turn'',
      pq_role = ''user'', pq_importance = importance, pq_workspace_tags = [], pq_metadata = []\<rparr>"

definition ex_pool :: "pool_item list" where
  "ex_pool = snd (projr (add_item 1 1 ''1'' ''a'' ''a'' (ex_pool_request ''red bees'' 1) []))"

definition ex_lost :: "pyerr + pool_item option \<times> pool_item list" where
  "ex_lost = add_item 1 2 ''2'' ''b'' ''b'' (ex_pool_request ''tea'' (1 / 4)) ex_pool"

lemma ex_pool_add: "add_item 1 1 ''1'' ''a'' ''a'' (ex_pool_request ''red bees'' 1) [] = Inr (Some (hd ex_pool), ex_pool)"
proof -
  let ?c = "add_item 1 1 ''1'' ''a'' ''a'' (ex_pool_request ''red bees'' 1) []"
  have "\<not> isl ?c" "fst (projr ?c) = Some (hd (snd (projr ?c)))" by code_simp+
  then show ?thesis using Inr_projr [of ?c] unfolding ex_pool_def by (metis prod.collapse)
qed

lemma ex_lost_add: "ex_lost = Inr (Some (snd (projr ex_lost) ! 1), snd (projr ex_lost))"
proof -
  have "\<not> isl ex_lost" "fst (projr ex_lost) = Some (snd (projr ex_lost) ! 1)" by code_simp+
  then show ?thesis using Inr_projr [of ex_lost] by (metis prod.collapse)
qed

lemma ex_pool_facts:
  "unique_rows pi_clash ex_pool" "length ex_pool = 1" "is_active ''p'' (hd ex_pool)" "pi_importance (hd ex_pool) = 1"
  "clamp_importance (1 / 4) = 1 / 4"
  by code_simp+

theorem pool_window_bounded_witness:
  "length (filter (is_active ''p'') (snd (projr ex_lost))) \<le> 1 \<and> length (snd (projr ex_lost)) = 2"
proof -
  have "pool_step 1 [] ex_pool" by (rule pool_step.add [OF ex_pool_add])
  moreover have "pool_step 1 ex_pool (snd (projr ex_lost))" using pool_step.add [OF ex_lost_add [unfolded ex_lost_def]] by (simp add: ex_lost_def)
  ultimately have "(pool_step 1)\<^sup>*\<^sup>* [] (snd (projr ex_lost))" by (meson rtranclp.rtrancl_refl rtranclp.rtrancl_into_rtrancl)
  from pool_window_bounded [OF this, of "''p''"] have "length (filter (is_active ''p'') (snd (projr ex_lost))) \<le> 1"
    by (simp add: pool_limit_def)
  moreover have "length (snd (projr ex_lost)) = 2" by code_simp
  ultimately show ?thesis by blast
qed

theorem window_keeps_most_important_witness:
  "rank_key (pool_row 2 ''b'' ''b'' (ex_pool_request ''tea'' (1 / 4))) \<le> rank_key (hd ex_pool)"
proof -
  have "hd ex_pool \<in> set (snd (projr ex_lost))" "pool_row 2 ''b'' ''b'' (ex_pool_request ''tea'' (1 / 4)) \<notin> set (snd (projr ex_lost))"
    "strip (pq_content (ex_pool_request ''tea'' (1 / 4))) \<noteq> []" "pq_principal_id (ex_pool_request ''tea'' (1 / 4)) = ''p''"
    by code_simp+
  with window_keeps_most_important [OF ex_lost_add [unfolded ex_lost_def] ex_pool_facts(1), folded ex_lost_def] ex_pool_facts(3)
  show ?thesis by force
qed

theorem unimportant_item_lost_witness:
  "\<exists>r. ex_lost = Inr (Some r, snd (projr ex_lost)) \<and> pi_status r = ''pruned'' \<and> pi_content r = ''tea''"
proof -
  obtain a where a: "ex_pool = [a]" using ex_pool_facts(2) by (auto simp: length_Suc_conv)
  have q: "pq_principal_id (ex_pool_request ''tea'' (1 / 4)) = ''p''" "pq_importance (ex_pool_request ''tea'' (1 / 4)) = 1 / 4"
    "bounded_text (strip (pq_content (ex_pool_request ''tea'' (1 / 4)))) = ''tea''" by code_simp+
  have "nat (pool_limit 1) \<le> length (filter (\<lambda>a. is_active ''p'' a \<and> clamp_importance (1 / 4) < pi_importance a) ex_pool)"
    using ex_pool_facts(3-5) by (simp add: a pool_limit_def)
  with unimportant_item_lost [OF ex_lost_add [unfolded ex_lost_def] ex_pool_facts(1), folded ex_lost_def, unfolded q]
  have "pi_status (snd (projr ex_lost) ! 1) = ''pruned'' \<and> pi_content (snd (projr ex_lost) ! 1) = ''tea''" by simp
  then show ?thesis using ex_lost_add by blast
qed

theorem answers_stay_with_principal_witness:
  "let q = \<lparr>qu_principal_id = ''o'', qu_text = ''Bees?'', qu_thread_id = None, qu_session_id = None, qu_active_workspace_id = None, qu_limit = 3\<rparr>
   in query (\<lambda>_. []) q ex_pool = [] \<and> length (query (\<lambda>_. []) (q\<lparr>qu_principal_id := ''p''\<rparr>) ex_pool) \<le> 3"
proof -
  let ?q = "\<lparr>qu_principal_id = ''o'', qu_text = ''Bees?'', qu_thread_id = None, qu_session_id = None, qu_active_workspace_id = None, qu_limit = 3\<rparr>"
  obtain a where a: "ex_pool = [a]" using ex_pool_facts(2) by (auto simp: length_Suc_conv)
  have "\<not> is_active ''o'' a" using ex_pool_facts(3) by (simp add: a is_active_def)
  then have "query (\<lambda>_. []) ?q ex_pool = []"
    using answers_stay_with_principal [of "\<lambda>_. []" ?q ex_pool]
    by (cases "query (\<lambda>_. []) ?q ex_pool") (auto simp: a)
  moreover have "length (query (\<lambda>_. []) (?q\<lparr>qu_principal_id := ''p''\<rparr>) ex_pool) \<le> 3"
    using answers_stay_with_principal [of "\<lambda>_. []" "?q\<lparr>qu_principal_id := ''p''\<rparr>" ex_pool] by simp
  ultimately show ?thesis by (simp add: Let_def)
qed

text \<open>A table of 200 newer items, and an old one that fits the question.\<close>

definition ex_new_item :: "nat \<Rightarrow> pool_item" where
  "ex_new_item i = (pool_row (int i + 1) (nat_str i) (nat_str i) (ex_pool_request ''tea'' 1))"

definition ex_old_item :: pool_item where
  "ex_old_item = pool_row 0 ''old'' ''old'' (ex_pool_request ''bees'' 1)"

lemma ex_items_unique: "unique_rows pi_clash (ex_old_item # map ex_new_item [0 ..< n])"
proof -
  have inj: "i = j" if "nat_str i = nat_str j" for i j
    using that by (metis digits_val_nat_str option.inject of_nat_eq_iff)
  have d: "is_decimal (hd (nat_str i))" for i
    using nat_str_decimal [of "hd (nat_str i)" i] by (simp add: hd_in_set)
  have "\<not> is_decimal (CHR ''o'')" by (simp add: is_decimal_def)
  then have old: "nat_str i \<noteq> ''old''" for i
    using d [of i] by (metis list.sel(1))
  have names: "pi_id (ex_new_item i) = nat_str i" "pi_context_id (ex_new_item i) = ''ctx_'' @ nat_str i"
    "pi_id ex_old_item = ''old''" "pi_context_id ex_old_item = ''ctx_'' @ ''old''" for i
    by (simp_all add: ex_new_item_def ex_old_item_def pool_row_def Let_def del: nat_str.simps)
  have "\<not> pi_clash ex_old_item (ex_new_item i)" for i
    unfolding pi_clash_def names same_append_eq using old [of i] by metis
  moreover have "\<not> pi_clash (ex_new_item i) (ex_new_item j)" if "i < j" for i j
    unfolding pi_clash_def names same_append_eq using inj [of i j] that by blast
  ultimately show ?thesis
    by (auto simp: sorted_wrt_map intro!: sorted_wrt_mono_rel [OF _ sorted_wrt_upt])
qed

lemma ex_items_newer:
  "filter (\<lambda>x. is_active ''p'' x \<and> pi_created_at ex_old_item < pi_created_at x) (ex_old_item # map ex_new_item [0 ..< n])
     = map ex_new_item [0 ..< n]"
  by (simp add: filter_map comp_def ex_new_item_def ex_old_item_def is_active_def pool_row_def ex_pool_request_def Let_def
      del: nat_str.simps)

theorem old_item_not_found_witness:
  "\<exists>T. ex_old_item \<in> set T \<and> length T = 201
    \<and> pi_context_id ex_old_item \<notin> pa_context_id ` set (query (\<lambda>_. [])
        \<lparr>qu_principal_id = ''p'', qu_text = ''bees'', qu_thread_id = None, qu_session_id = None, qu_active_workspace_id = None, qu_limit = 3\<rparr> T)"
proof -
  define n :: nat where "n = 200"
  let ?T = "ex_old_item # map ex_new_item [0 ..< n]"
  let ?q = "\<lparr>qu_principal_id = ''p'', qu_text = ''bees'', qu_thread_id = None, qu_session_id = None, qu_active_workspace_id = None, qu_limit = 3\<rparr>"
  have p: "qu_principal_id ?q = ''p''" by simp
  have "200 \<le> length (filter (\<lambda>x. is_active (qu_principal_id ?q) x \<and> pi_created_at ex_old_item < pi_created_at x) ?T)"
    unfolding p ex_items_newer by (simp add: n_def)
  from old_item_not_found [OF ex_items_unique _ this] show ?thesis
    by (intro exI [of _ ?T]) (simp add: n_def)
qed

end
