(* ===== verification/Device_Operations.thy ===== *)
theory Device_Operations
  imports Py_Float "HOL-Library.List_Lexorder" "HOL-Library.Char_ord"
begin

text \<open>
  Operations on a Raspberry Pi endpoint, \<^verbatim>\<open>endpoint_providers/raspberry_pi/meetyou_rpi_endpoint\<close>:
  the runner of operations (\<^verbatim>\<open>runtime/operation_runner.py\<close>, \<^verbatim>\<open>runtime/result_models.py\<close>), its
  validation of arguments, the registry (\<^verbatim>\<open>registry.py\<close>), the list of allowed commands and pins
  (\<^verbatim>\<open>security.py\<close>) and the capabilities that use them (\<^verbatim>\<open>capabilities/safe_shell.py\<close>,
  \<^verbatim>\<open>capabilities/gpio.py\<close> with its fake backend).

  A run is cut at the call of the capability: \<open>run_begin\<close> before it, \<open>run_finish\<close> after it, so
  that other runs come between. Events are what an emitter is given, if there is one; an emitter
  that raises is not modelled. \<open>now\<close> is the time stamp of a new event, \<open>float_text\<close> the text of a
  float, \<open>shlex\<close> is \<open>shlex.split\<close> (None where it raises ValueError).
\<close>

section \<open>Requests, events and final results\<close>

record operation_request =
  oq_operation_id :: string
  oq_call_id :: string
  oq_capability_name :: string
  oq_arguments :: pyval
  oq_timeout :: pyval

text \<open>An event and a final result have the same fields.\<close>

record operation_event =
  oe_operation_id :: string
  oe_call_id :: string
  oe_capability_name :: string
  oe_status :: string
  oe_payload :: pydict
  oe_error :: "pydict option"
  oe_seq :: nat
  oe_timestamp :: string

definition operation_event_type :: "operation_event \<Rightarrow> string" where
  "operation_event_type e =
     (if oe_status e = ''completed'' then ''operation.completed''
      else if oe_status e = ''failed'' then ''operation.failed''
      else if oe_status e = ''cancelled'' then ''operation.cancelled'' else ''operation.progress'')"

definition event_payload :: "string \<Rightarrow> operation_event \<Rightarrow> pydict" where
  "event_payload endpoint_id e =
     [(''operation_id'', PStr (oe_operation_id e)), (''call_id'', PStr (oe_call_id e)), (''endpoint_id'', PStr endpoint_id),
      (''capability_name'', PStr (oe_capability_name e)), (''seq'', PInt (int (oe_seq e))), (''timestamp'', PStr (oe_timestamp e)),
      (''status'', PStr (oe_status e)), (''payload'', PDict (oe_payload e))]
     @ (case oe_error e of None \<Rightarrow> [] | Some d \<Rightarrow> [(''error'', PDict d)])"

definition final_summary :: "operation_event \<Rightarrow> pydict" where
  "final_summary e =
     [(''operation_id'', PStr (oe_operation_id e)), (''call_id'', PStr (oe_call_id e)),
      (''capability_name'', PStr (oe_capability_name e)), (''status'', PStr (oe_status e)),
      (''seq'', PInt (int (oe_seq e))), (''timestamp'', PStr (oe_timestamp e))]
     @ (if oe_payload e = [] then [] else [(''payload'', PDict (oe_payload e))])
     @ (case oe_error e of None \<Rightarrow> [] | Some d \<Rightarrow> [(''error'', PDict d)])"

section \<open>Validation of arguments\<close>

text \<open>The input schemas of the capabilities: the type, the required arguments, the rule of each
  argument, and whether \<open>additionalProperties\<close> is False.\<close>

record input_schema =
  is_object :: bool
  is_required :: "string list"
  is_properties :: "(string \<times> pyval) list"
  is_closed :: bool

record capability_error =
  ce_code :: string
  ce_message :: string
  ce_retryable :: bool

definition invalid_arguments :: "string \<Rightarrow> capability_error" where
  "invalid_arguments message = \<lparr>ce_code = ''invalid_arguments'', ce_message = message, ce_retryable = False\<rparr>"

definition matches_type :: "pyval \<Rightarrow> pyval \<Rightarrow> bool" where
  "matches_type v expected =
     (if expected = PStr ''null'' then v = PNone
      else if expected = PStr ''string'' then (case v of PStr _ \<Rightarrow> True | _ \<Rightarrow> False)
      else if expected = PStr ''boolean'' then (case v of PBool _ \<Rightarrow> True | _ \<Rightarrow> False)
      else if expected = PStr ''integer'' then (case v of PInt _ \<Rightarrow> True | _ \<Rightarrow> False)
      else if expected = PStr ''number'' then (case v of PInt _ \<Rightarrow> True | PFloat _ _ \<Rightarrow> True | _ \<Rightarrow> False)
      else if expected = PStr ''object'' then (case v of PDict _ \<Rightarrow> True | _ \<Rightarrow> False)
      else if expected = PStr ''array'' then (case v of PList _ \<Rightarrow> True | _ \<Rightarrow> False)
      else True)"

definition validate_value_type :: "string \<Rightarrow> pyval \<Rightarrow> pyval \<Rightarrow> capability_error + unit" where
  "validate_value_type key v expected =
     (if expected = PNone then Inr ()
      else let types = (case expected of PList ts \<Rightarrow> ts | t \<Rightarrow> [t]) in
        if list_ex (matches_type v) types then Inr ()
        else Inl (invalid_arguments (''argument '' @ key @ '' must be '' @ join '' or '' (map py_str types))))"

fun validate_properties :: "pydict \<Rightarrow> (string \<times> pyval) list \<Rightarrow> capability_error + unit" where
  "validate_properties args [] = Inr ()"
| "validate_properties args ((key, rule) # rules) =
     (case (map_of args key, rule) of
        (Some v, PDict d) \<Rightarrow> rbind (validate_value_type key v (dget d ''type'')) (\<lambda>_. validate_properties args rules)
      | _ \<Rightarrow> validate_properties args rules)"

definition validate_input_schema :: "input_schema option \<Rightarrow> pyval \<Rightarrow> capability_error + unit" where
  "validate_input_schema schema arguments =
     (case arguments of
        PDict args \<Rightarrow>
          (case schema of
             None \<Rightarrow> Inr ()
           | Some s \<Rightarrow>
               if \<not> is_object s then Inr ()
               else (case filter (\<lambda>k. \<not> dhas args k) (is_required s) of
                       k # _ \<Rightarrow> Inl (invalid_arguments (''missing required argument: '' @ k))
                     | [] \<Rightarrow>
                         let extras = sort (filter (\<lambda>k. k \<notin> fst ` set (is_properties s)) (map fst args)) in
                         if is_closed s \<and> extras \<noteq> []
                         then Inl (invalid_arguments (''unexpected argument(s): '' @ join '', '' extras))
                         else validate_properties args (is_properties s)))
      | _ \<Rightarrow> Inl (invalid_arguments ''arguments must be an object''))"

section \<open>The registry\<close>

datatype capability_outcome = Returns pydict | Fails capability_error

record device_capability =
  ca_name :: string
  ca_schema :: "input_schema option"
  ca_safe_parallel :: bool

definition register :: "device_capability \<Rightarrow> (string \<times> device_capability) list \<Rightarrow> pyerr + (string \<times> device_capability) list" where
  "register c R = (if ca_name c = [] then Inl (ValueError ''Capability name is required'') else Inr (dset (ca_name c) c R))"

definition get_device_capability :: "string \<Rightarrow> (string \<times> device_capability) list \<Rightarrow> device_capability option" where
  "get_device_capability name R = map_of R (strip name)"

definition allows_parallel_tool :: "string \<Rightarrow> (string \<times> device_capability) list \<Rightarrow> bool" where
  "allows_parallel_tool name R = (case get_device_capability name R of None \<Rightarrow> False | Some c \<Rightarrow> ca_safe_parallel c)"

section \<open>The runner\<close>

record operation_runner =
  ru_finals :: "(string \<times> operation_event) list"
  ru_seqs :: "(string \<times> nat) list"

definition new_runner :: operation_runner where
  "new_runner = \<lparr>ru_finals = [], ru_seqs = []\<rparr>"

record runner_config =
  rc_registry :: "(string \<times> device_capability) list"
  rc_default_timeout :: int
  rc_max_timeout :: int

definition runner_config_init :: "(string \<times> device_capability) list \<Rightarrow> int \<Rightarrow> int \<Rightarrow> runner_config" where
  "runner_config_init R default_seconds max_seconds =
     \<lparr>rc_registry = R, rc_default_timeout = max 1 default_seconds, rc_max_timeout = max (max 1 default_seconds) max_seconds\<rparr>"

definition get_final :: "string \<Rightarrow> operation_runner \<Rightarrow> operation_event option" where
  "get_final operation_id S = map_of (ru_finals S) (strip operation_id)"

definition seq_key :: "string \<Rightarrow> string" where
  "seq_key operation_id = or_str (strip operation_id) ''_missing''"

definition next_seq :: "string \<Rightarrow> operation_runner \<Rightarrow> nat \<times> operation_runner" where
  "next_seq operation_id S =
     (let key = seq_key operation_id; n = (case map_of (ru_seqs S) key of Some n \<Rightarrow> n | None \<Rightarrow> 0) + 1
      in (n, S\<lparr>ru_seqs := dset key n (ru_seqs S)\<rparr>))"

definition new_event ::
  "string \<Rightarrow> operation_request \<Rightarrow> string \<Rightarrow> pydict \<Rightarrow> pydict option \<Rightarrow> operation_runner \<Rightarrow> operation_event \<times> operation_runner" where
  "new_event now rq status payload error S =
     (let (n, S') = next_seq (oq_operation_id rq) S in
      (\<lparr>oe_operation_id = oq_operation_id rq, oe_call_id = oq_call_id rq, oe_capability_name = oq_capability_name rq,
        oe_status = status, oe_payload = payload, oe_error = error, oe_seq = n, oe_timestamp = now\<rparr>, S'))"

text \<open>A final result, stored under the operation and emitted. \<open>_fail\<close> stores it unless the
  operation id is empty.\<close>

definition set_final :: "string \<Rightarrow> operation_event \<Rightarrow> operation_runner \<Rightarrow> operation_runner" where
  "set_final operation_id f S = S\<lparr>ru_finals := dset (strip operation_id) f (ru_finals S)\<rparr>"

definition fail ::
  "string \<Rightarrow> operation_request \<Rightarrow> string \<Rightarrow> string \<Rightarrow> bool \<Rightarrow> operation_runner \<Rightarrow> operation_event \<times> operation_runner" where
  "fail now rq err_code message retryable S =
     (let (f, S') = new_event now rq ''failed'' []
            (Some [(''code'', PStr err_code), (''message'', PStr message), (''retryable'', PBool retryable)]) S
      in (f, if oq_operation_id rq = [] then S' else set_final (oq_operation_id rq) f S'))"

definition timeout_seconds :: "(string \<Rightarrow> rat option) \<Rightarrow> runner_config \<Rightarrow> pyval \<Rightarrow> rat" where
  "timeout_seconds float_of_text C requested =
     (let d = fl (of_int (rc_default_timeout C));
          t = (if requested = PNone then d else case py_float float_of_text requested of Some r \<Rightarrow> r | None \<Rightarrow> d)
      in if requested = PNone then d else max (fl (1 / 1000)) (min t (fl (of_int (rc_max_timeout C)))))"

datatype begun = Finished operation_event | Executing

text \<open>The result of the first part: the events it emits, whether the run is over, the new state.\<close>

definition run_begin ::
  "string \<Rightarrow> runner_config \<Rightarrow> operation_request \<Rightarrow> operation_runner \<Rightarrow> begun \<times> operation_event list \<times> operation_runner" where
  "run_begin now C rq S =
     (let failed = (\<lambda>c m r. let (f, S') = fail now rq c m r S in (Finished f, [f], S'));
          name = strip (oq_capability_name rq)
      in if strip (oq_operation_id rq) = [] then failed ''operation_id_required'' ''operation_id is required'' False
         else case get_final (oq_operation_id rq) S of
           Some f \<Rightarrow> (Finished f, [], S)
         | None \<Rightarrow>
             if strip (oq_call_id rq) = [] then failed ''call_id_required'' ''call_id is required'' False
             else if name = [] then failed ''capability_required'' ''capability_name is required'' False
             else case get_device_capability name (rc_registry C) of
               None \<Rightarrow> failed ''capability_not_found'' (''Capability is not registered: '' @ name) False
             | Some c \<Rightarrow>
                 (case validate_input_schema (ca_schema c) (oq_arguments rq) of
                    Inl e \<Rightarrow> failed (ce_code e) (ce_message e) (ce_retryable e)
                  | Inr _ \<Rightarrow>
                      (let (e, S') = new_event now rq ''progress''
                             [(''phase'', PStr ''running''), (''detail'', PStr (''Executing '' @ name))] None S
                       in (Executing, [e], S'))))"

datatype execution_end = Completed pydict | CapabilityFailed capability_error | TimedOut | OperationCancelled | FailedWith string

definition run_finish ::
  "(rat \<Rightarrow> string) \<Rightarrow> (string \<Rightarrow> rat option) \<Rightarrow> string \<Rightarrow> runner_config \<Rightarrow> operation_request \<Rightarrow> execution_end \<Rightarrow> operation_runner
   \<Rightarrow> operation_event \<times> operation_runner" where
  "run_finish float_text float_of_text now C rq x S =
     (case x of
        Completed d \<Rightarrow>
          (let (f, S') = new_event now rq ''completed'' d None S in (f, set_final (oq_operation_id rq) f S'))
      | CapabilityFailed e \<Rightarrow> fail now rq (ce_code e) (ce_message e) (ce_retryable e) S
      | TimedOut \<Rightarrow>
          fail now rq ''operation_timeout''
            (''Operation timed out after '' @ float_text (timeout_seconds float_of_text C (oq_timeout rq)) @ '' seconds'') True S
      | OperationCancelled \<Rightarrow>
          (let (f, S') = new_event now rq ''cancelled'' []
                 (Some [(''code'', PStr ''operation_cancelled''), (''message'', PStr ''Operation cancelled'')]) S
           in (f, set_final (oq_operation_id rq) f S'))
      | FailedWith s \<Rightarrow> fail now rq ''operation_failed'' s False S)"

section \<open>Allowed commands and pins\<close>

record shell_template =
  sh_name :: string
  sh_argv :: "string list"
  sh_timeout :: "int option"
  sh_description :: string

definition optional_int :: "pyval \<Rightarrow> int option" where
  "optional_int v = (if v = PNone then None else case py_int v of Inr i \<Rightarrow> Some i | Inl _ \<Rightarrow> None)"

definition normalize_shell_template :: "(string \<Rightarrow> string list option) \<Rightarrow> pyval \<Rightarrow> pyerr + shell_template option" where
  "normalize_shell_template shlex item =
     (case item of
        PStr s \<Rightarrow>
          (case shlex s of
             None \<Rightarrow> Inl (ValueError ''No closing quotation'')
           | Some parts \<Rightarrow>
               (case filter (\<lambda>p. p \<noteq> []) parts of
                  [] \<Rightarrow> Inr None
                | a # as \<Rightarrow> Inr (Some \<lparr>sh_name = a, sh_argv = a # as, sh_timeout = None, sh_description = []\<rparr>)))
      | PDict d \<Rightarrow>
          (case dget d ''argv'' of
             PList vs \<Rightarrow>
               (let name = clean (dget d ''name''); argv = map py_str (filter (\<lambda>v. clean v \<noteq> []) vs) in
                if name = [] \<or> argv = [] then Inr None
                else Inr (Some \<lparr>sh_name = name, sh_argv = argv, sh_timeout = optional_int (dget d ''timeout_seconds''),
                       sh_description = clean (dget d ''description'')\<rparr>))
           | _ \<Rightarrow> Inr None)
      | _ \<Rightarrow> Inr None)"

fun allowlist_loop :: "(string \<Rightarrow> string list option) \<Rightarrow> string list \<Rightarrow> pyval list \<Rightarrow> pyerr + shell_template list" where
  "allowlist_loop shlex seen [] = Inr []"
| "allowlist_loop shlex seen (v # vs) =
     rbind (normalize_shell_template shlex v) (\<lambda>x.
       case x of
         None \<Rightarrow> allowlist_loop shlex seen vs
       | Some t \<Rightarrow>
           if sh_name t \<in> set seen then allowlist_loop shlex seen vs
           else rbind (allowlist_loop shlex (sh_name t # seen) vs) (\<lambda>ts. Inr (t # ts)))"

definition normalize_safe_shell_allowlist :: "(string \<Rightarrow> string list option) \<Rightarrow> pyval list \<Rightarrow> pyerr + shell_template list" where
  "normalize_safe_shell_allowlist shlex items = allowlist_loop shlex [] items"

definition find_shell_template :: "(string \<Rightarrow> string list option) \<Rightarrow> string \<Rightarrow> pyval list \<Rightarrow> pyerr + shell_template option" where
  "find_shell_template shlex name items =
     (let normalized = strip name in
      if normalized = [] then Inr None
      else rbind (normalize_safe_shell_allowlist shlex items) (\<lambda>ts. Inr (find (\<lambda>t. sh_name t = normalized) ts)))"

record security_config =
  sc_sandbox_dir :: string
  sc_safe_shell_enabled :: bool
  sc_safe_shell_allowlist :: "pyval list"
  sc_gpio_allowed_pins :: "int list"
  sc_gpio_write_default_duration_ms :: "int option"

datatype handler_error = HandlerFailed capability_error | HandlerRaised pyerr

definition capability_fails :: "string \<Rightarrow> string \<Rightarrow> handler_error + 'a" where
  "capability_fails err_code message = Inl (HandlerFailed \<lparr>ce_code = err_code, ce_message = message, ce_retryable = False\<rparr>)"

definition resolve_timeout_seconds :: "pydict \<Rightarrow> int option \<Rightarrow> int \<Rightarrow> int \<Rightarrow> int" where
  "resolve_timeout_seconds args template_timeout default_seconds max_seconds =
     (let requested = (case dget args ''timeout_seconds'' of
            PNone \<Rightarrow> PInt (case template_timeout of Some t \<Rightarrow> t | None \<Rightarrow> default_seconds) | v \<Rightarrow> v);
          timeout = (case py_int requested of Inr i \<Rightarrow> i | Inl _ \<Rightarrow> default_seconds)
      in max 1 (min timeout max_seconds))"

text \<open>What the shell capability does up to the start of the process: the argument vector and the
  time it gets.\<close>

definition safe_exec_process ::
  "(string \<Rightarrow> string list option) \<Rightarrow> security_config \<Rightarrow> int \<Rightarrow> int \<Rightarrow> pydict \<Rightarrow> handler_error + string list \<times> int" where
  "safe_exec_process shlex C default_seconds max_seconds args =
     (if \<not> sc_safe_shell_enabled C
      then capability_fails ''safe_shell_disabled'' ''Safe shell is disabled for this endpoint''
      else if dhas args ''argv'' \<or> dhas args ''shell'' \<or> dhas args ''cmd''
      then capability_fails ''safe_shell_arbitrary_command_rejected''
             ''Safe shell accepts only a configured command name, not arbitrary argv or shell strings''
      else let name = clean (py_or (dget args ''command'') (dget args ''name'')) in
        case find_shell_template shlex name (sc_safe_shell_allowlist C) of
          Inl e \<Rightarrow> Inl (HandlerRaised e)
        | Inr None \<Rightarrow> capability_fails ''safe_shell_command_not_allowed'' (''Command is not allowlisted: '' @ or_str name ''<empty>'')
        | Inr (Some t) \<Rightarrow> Inr (sh_argv t, resolve_timeout_seconds args (sh_timeout t) default_seconds max_seconds))"

definition validate_gpio_pin :: "pyval \<Rightarrow> int list \<Rightarrow> handler_error + int" where
  "validate_gpio_pin pin allowed_pins =
     (case py_int pin of
        Inl _ \<Rightarrow> capability_fails ''invalid_gpio_pin'' ''GPIO pin must be an integer''
      | Inr i \<Rightarrow>
          if i \<notin> set allowed_pins
          then capability_fails ''gpio_pin_not_allowed'' (''GPIO pin '' @ int_str i @ '' is not allowlisted for this endpoint'')
          else Inr i)"

definition gpio_value :: "pyval \<Rightarrow> handler_error + bool" where
  "gpio_value v =
     (case v of
        PBool b \<Rightarrow> Inr b
      | PInt i \<Rightarrow> if i = 0 \<or> i = 1 then Inr (i = 1) else capability_fails ''invalid_gpio_value'' ''GPIO value must be boolean, 0, or 1''
      | PStr s \<Rightarrow> if s = ''0'' \<or> s = ''1'' then Inr (s = ''1'') else capability_fails ''invalid_gpio_value'' ''GPIO value must be boolean, 0, or 1''
      | _ \<Rightarrow> capability_fails ''invalid_gpio_value'' ''GPIO value must be boolean, 0, or 1'')"

text \<open>What is asked of the backend: the pin, the value and how long it is held.\<close>

definition gpio_write_request :: "security_config \<Rightarrow> pydict \<Rightarrow> handler_error + int \<times> bool \<times> int option" where
  "gpio_write_request C args =
     rbind (validate_gpio_pin (dget args ''pin'') (sc_gpio_allowed_pins C)) (\<lambda>pin.
     rbind (gpio_value (dget args ''value'')) (\<lambda>value.
       let requested = (case dget args ''duration_ms'' of
             PNone \<Rightarrow> (case sc_gpio_write_default_duration_ms C of Some d \<Rightarrow> PInt d | None \<Rightarrow> PNone) | v \<Rightarrow> v)
       in if requested = PNone then Inr (pin, value, None)
          else case py_int requested of
            Inl _ \<Rightarrow> capability_fails ''invalid_gpio_duration'' ''GPIO duration_ms must be an integer''
          | Inr d \<Rightarrow> Inr (pin, value, Some (max 0 (min d 60000)))))"

definition gpio_read_request :: "security_config \<Rightarrow> pydict \<Rightarrow> handler_error + int" where
  "gpio_read_request C args = validate_gpio_pin (dget args ''pin'') (sc_gpio_allowed_pins C)"

text \<open>The fake backend: the values written; a write that is held for a time ends with the reset.\<close>

type_synonym pin_values = "(int \<times> bool) list"

definition fake_read :: "int \<Rightarrow> string option \<Rightarrow> pin_values \<Rightarrow> bool" where
  "fake_read pin pull V =
     (case map_of V pin of Some b \<Rightarrow> b | None \<Rightarrow> lower (strip (case pull of Some s \<Rightarrow> s | None \<Rightarrow> [])) = ''up'')"

definition fake_write_begin :: "int \<Rightarrow> bool \<Rightarrow> pin_values \<Rightarrow> pin_values" where
  "fake_write_begin pin value V = dset pin value V"

definition held :: "int option \<Rightarrow> bool" where
  "held duration_ms = (case duration_ms of Some d \<Rightarrow> 0 < d | None \<Rightarrow> False)"

definition fake_write_end :: "int \<Rightarrow> bool \<Rightarrow> int option \<Rightarrow> pin_values \<Rightarrow> pydict \<times> pin_values" where
  "fake_write_end pin value duration_ms V =
     ([(''pin'', PInt pin), (''value'', PBool value),
       (''duration_ms'', case duration_ms of Some d \<Rightarrow> PInt d | None \<Rightarrow> PNone),
       (''reset_performed'', PBool (held duration_ms)), (''backend'', PStr ''fake'')],
      if held duration_ms then dset pin False V else V)"

section \<open>Runs that come between each other\<close>

text \<open>The runner, the events emitted so far and the requests that are being executed.\<close>

type_synonym run_state = "operation_runner \<times> operation_event list \<times> operation_request list"

inductive op_step :: "(rat \<Rightarrow> string) \<Rightarrow> (string \<Rightarrow> rat option) \<Rightarrow> runner_config \<Rightarrow> run_state \<Rightarrow> run_state \<Rightarrow> bool"
  for float_text float_of_text C where
  over: "run_begin now C rq S = (Finished f, es, S') \<Longrightarrow> op_step float_text float_of_text C (S, L, X) (S', L @ es, X)"
| begins: "run_begin now C rq S = (Executing, es, S') \<Longrightarrow> op_step float_text float_of_text C (S, L, X) (S', L @ es, rq # X)"
| finishes: "rq \<in> set X \<Longrightarrow> run_finish float_text float_of_text now C rq x S = (f, S')
    \<Longrightarrow> op_step float_text float_of_text C (S, L, X) (S', L @ [f], remove1 rq X)"

definition of_key :: "string \<Rightarrow> operation_event list \<Rightarrow> operation_event list" where
  "of_key k L = filter (\<lambda>e. seq_key (oe_operation_id e) = k) L"

definition handed_out :: "string \<Rightarrow> operation_runner \<Rightarrow> nat" where
  "handed_out k S = (case map_of (ru_seqs S) k of Some n \<Rightarrow> n | None \<Rightarrow> 0)"

text \<open>Every event takes the next number of its operation.\<close>

definition events_ok :: "operation_runner \<Rightarrow> operation_event list \<Rightarrow> bool" where
  "events_ok S L \<longleftrightarrow> (\<forall>k. handed_out k S = length (of_key k L) \<and> map oe_seq (of_key k L) = [1 ..< Suc (length (of_key k L))])"

lemma new_event_numbered:
  assumes ev: "new_event now rq status payload error S = (e, S')" and ok: "events_ok S L"
  shows "events_ok S' (L @ [e])"
proof -
  have k: "of_key k (L @ [e]) = of_key k L @ (if k = seq_key (oq_operation_id rq) then [e] else [])"
    and h: "handed_out k S' = handed_out k S + (if k = seq_key (oq_operation_id rq) then 1 else 0)"
    and n: "oe_seq e = handed_out (seq_key (oq_operation_id rq)) S + 1" for k
    using ev by (auto simp: new_event_def next_seq_def Let_def of_key_def handed_out_def split: option.splits)
  show ?thesis using ok n by (auto simp: events_ok_def k h)
qed

lemma numbered_final [simp]: "events_ok (set_final i f S) L = events_ok S L"
  by (simp add: events_ok_def handed_out_def set_final_def)

lemma fail_numbered: "fail now rq c m r S = (f, S') \<Longrightarrow> events_ok S L \<Longrightarrow> events_ok S' (L @ [f])"
  by (auto simp: fail_def Let_def dest: new_event_numbered split: prod.splits if_splits)

lemma finish_numbered:
  "run_finish float_text float_of_text now C rq x S = (f, S') \<Longrightarrow> events_ok S L \<Longrightarrow> events_ok S' (L @ [f])"
  by (cases x) (auto simp: run_finish_def dest: new_event_numbered fail_numbered split: prod.splits)

text \<open>The ways a run may begin.\<close>

lemma run_begin_cases:
  assumes "run_begin now C rq S = (b, es, S')"
  obtains (failed) c m r f where "fail now rq c m r S = (f, S')" "b = Finished f" "es = [f]"
      "strip (oq_operation_id rq) = [] \<or> get_final (oq_operation_id rq) S = None"
  | (replayed) f where "get_final (oq_operation_id rq) S = Some f" "b = Finished f" "es = []" "S' = S" "strip (oq_operation_id rq) \<noteq> []"
  | (begun) e d where "new_event now rq ''progress'' d None S = (e, S')" "b = Executing" "es = [e]"
      "get_final (oq_operation_id rq) S = None" "strip (oq_operation_id rq) \<noteq> []"
  using assms unfolding run_begin_def Let_def
  by (auto split: if_splits option.splits sum.splits prod.splits)

lemma step_numbered:
  assumes "op_step float_text float_of_text C (S, L, X) (S', L', X')" "events_ok S L" shows "events_ok S' L'"
  using assms(1)
proof (cases rule: op_step.cases)
  case (over now rq f es)
  show ?thesis by (rule run_begin_cases [OF over(3)]) (use over assms(2) fail_numbered in auto)
next
  case (begins now rq es)
  show ?thesis by (rule run_begin_cases [OF begins(3)]) (use begins assms(2) new_event_numbered in auto)
next
  case (finishes rq now x f)
  then show ?thesis using finish_numbered assms(2) by auto
qed

text \<open>Events are numbered without gaps. However runs of the same or of different operations come
  between each other, the events of an operation carry the numbers 1, 2, 3 and so on, in the
  order in which they are emitted; a result that is replayed is no event.
\<close>

theorem events_numbered:
  assumes "(op_step float_text float_of_text C)\<^sup>*\<^sup>* (new_runner, [], []) (S, L, X)"
  shows "map oe_seq (of_key k L) = [1 ..< Suc (length (of_key k L))]"
proof -
  have "events_ok (fst t) (fst (snd t))" if "(op_step float_text float_of_text C)\<^sup>*\<^sup>* (new_runner, [], []) t" for t
    using that
  proof (induction rule: rtranclp_induct)
    case base
    then show ?case by (simp add: events_ok_def new_runner_def handed_out_def of_key_def)
  next
    case (step t u)
    then show ?case using step_numbered by (cases t; cases u) auto
  qed
  from this [OF assms] show ?thesis by (simp add: events_ok_def)
qed

section \<open>A final result is final\<close>

definition settled_operation :: "string \<Rightarrow> operation_event \<Rightarrow> operation_runner \<Rightarrow> operation_request list \<Rightarrow> bool" where
  "settled_operation i f S X \<longleftrightarrow> get_final i S = Some f \<and> (\<forall>rq \<in> set X. strip (oq_operation_id rq) \<noteq> strip i)"

definition of_operation :: "string \<Rightarrow> operation_event list \<Rightarrow> operation_event list" where
  "of_operation i L = filter (\<lambda>e. strip (oe_operation_id e) = strip i) L"

lemma new_event_final: "new_event now rq status payload error S = (e, S') \<Longrightarrow> get_final i S' = get_final i S"
  and new_event_operation: "new_event now rq status payload error S = (e, S') \<Longrightarrow> oe_operation_id e = oq_operation_id rq"
  by (auto simp: new_event_def next_seq_def Let_def get_final_def)

lemma set_final_other: "strip j \<noteq> strip i \<Longrightarrow> get_final i (set_final j f S) = get_final i S"
  by (simp add: get_final_def set_final_def)

lemma fail_other:
  assumes "fail now rq c m r S = (f, S')" "strip (oq_operation_id rq) \<noteq> strip i"
  shows "get_final i S' = get_final i S \<and> oe_operation_id f = oq_operation_id rq"
  using assms
  by (auto simp: fail_def Let_def set_final_other dest: new_event_final new_event_operation split: prod.splits if_splits)

lemma finish_other:
  assumes "run_finish float_text float_of_text now C rq x S = (f, S')" "strip (oq_operation_id rq) \<noteq> strip i"
  shows "get_final i S' = get_final i S \<and> oe_operation_id f = oq_operation_id rq"
  using assms fail_other [OF _ assms(2)]
  by (cases x) (auto simp: run_finish_def set_final_other dest: new_event_final new_event_operation split: prod.splits)

lemma step_settled:
  assumes step: "op_step float_text float_of_text C (S, L, X) (S', L', X')" and ok: "settled_operation i f S X" and i: "strip i \<noteq> []"
  shows "settled_operation i f S' X' \<and> of_operation i L' = of_operation i L"
  using step
proof (cases rule: op_step.cases)
  case (over now rq f' es)
  show ?thesis
  proof (rule run_begin_cases [OF over(3)])
    fix c m r g assume g: "fail now rq c m r S = (g, S')" "es = [g]"
      and n: "strip (oq_operation_id rq) = [] \<or> get_final (oq_operation_id rq) S = None"
    have "strip (oq_operation_id rq) \<noteq> strip i" using n ok i by (auto simp: settled_operation_def get_final_def)
    then show ?thesis using fail_other [OF g(1)] g(2) ok over by (simp add: settled_operation_def of_operation_def)
  qed (use ok over in \<open>simp_all add: of_operation_def\<close>)
next
  case (begins now rq es)
  show ?thesis
  proof (rule run_begin_cases [OF begins(3)])
    fix e d assume e: "new_event now rq ''progress'' d None S = (e, S')" "es = [e]" and n: "get_final (oq_operation_id rq) S = None"
    have "strip (oq_operation_id rq) \<noteq> strip i" using n ok by (auto simp: settled_operation_def get_final_def)
    then show ?thesis using new_event_final [OF e(1)] new_event_operation [OF e(1)] e(2) ok begins
      by (simp add: settled_operation_def of_operation_def)
  qed simp_all
next
  case (finishes rq now x f')
  have "strip (oq_operation_id rq) \<noteq> strip i" using ok finishes by (simp add: settled_operation_def)
  then show ?thesis using finish_other [OF finishes(4)] ok finishes set_remove1_subset [of rq X]
    by (auto simp: settled_operation_def of_operation_def)
qed

text \<open>(C35)
  An operation runs once. When an operation has a final result and none of its runs is being
  executed, it keeps this result whatever requests follow, also requests for the same operation:
  they are answered with it, nothing is executed for them and no event is emitted.
\<close>

theorem final_result_stays:
  assumes steps: "(op_step float_text float_of_text C)\<^sup>*\<^sup>* (S, L, X) (S', L', X')" and i: "strip i \<noteq> []"
    and f: "get_final i S = Some f" and idle: "list_all (\<lambda>rq. strip (oq_operation_id rq) \<noteq> strip i) X"
  shows "get_final i S' = Some f \<and> of_operation i L' = of_operation i L
    \<and> list_all (\<lambda>rq. strip (oq_operation_id rq) \<noteq> strip i) X'"
proof -
  have "settled_operation i f (fst t) (snd (snd t)) \<and> of_operation i (fst (snd t)) = of_operation i L"
    if "(op_step float_text float_of_text C)\<^sup>*\<^sup>* (S, L, X) t" for t
    using that
  proof (induction rule: rtranclp_induct)
    case base
    then show ?case using f idle by (simp add: settled_operation_def list_all_iff)
  next
    case (step t u)
    then show ?case using step_settled [OF _ _ i] by (cases t; cases u) force
  qed
  from this [OF steps] show ?thesis by (simp add: settled_operation_def list_all_iff)
qed

section \<open>Only what is allowed\<close>

lemma allowlist_loop_mem:
  "allowlist_loop shlex seen vs = Inr ts \<Longrightarrow> t \<in> set ts \<Longrightarrow> \<exists>v \<in> set vs. normalize_shell_template shlex v = Inr (Some t)"
proof (induction vs arbitrary: seen ts)
  case (Cons v vs)
  then show ?case by (auto simp: rbind_def split: sum.splits option.splits if_splits) blast+
qed simp

text \<open>(C36)
  Only listed commands are started. Whatever arguments the shell capability gets, it starts a
  process only when it is enabled, and then with the argument vector of an entry of the list
  whose name is the command asked for; nothing of the arguments becomes part of it, and the time
  it gets is at least one second and within the limit.
\<close>

theorem only_listed_commands:
  assumes run: "safe_exec_process shlex C default_seconds max_seconds args = Inr (argv, secs)" and m: "1 \<le> max_seconds"
  shows "sc_safe_shell_enabled C \<and> 1 \<le> secs \<and> secs \<le> max_seconds
    \<and> (\<exists>v \<in> set (sc_safe_shell_allowlist C). \<exists>t. normalize_shell_template shlex v = Inr (Some t)
        \<and> sh_name t = clean (py_or (dget args ''command'') (dget args ''name'')) \<and> argv = sh_argv t)"
proof -
  let ?name = "clean (py_or (dget args ''command'') (dget args ''name''))"
  obtain t where t: "find_shell_template shlex ?name (sc_safe_shell_allowlist C) = Inr (Some t)" "argv = sh_argv t"
    and s: "secs = resolve_timeout_seconds args (sh_timeout t) default_seconds max_seconds" and e: "sc_safe_shell_enabled C"
    using run by (auto simp: safe_exec_process_def capability_fails_def Let_def split: if_splits sum.splits option.splits)
  obtain ts where ts: "normalize_safe_shell_allowlist shlex (sc_safe_shell_allowlist C) = Inr ts"
    and f: "find (\<lambda>t. sh_name t = strip ?name) ts = Some t"
    using t(1) by (auto simp: find_shell_template_def rbind_def Let_def split: if_splits sum.splits)
  have "t \<in> set ts" "sh_name t = ?name" using f by (auto simp: find_Some_iff)
  with allowlist_loop_mem [OF ts [unfolded normalize_safe_shell_allowlist_def], of t] t(2)
  have "\<exists>v \<in> set (sc_safe_shell_allowlist C). \<exists>t. normalize_shell_template shlex v = Inr (Some t) \<and> sh_name t = ?name \<and> argv = sh_argv t"
    by auto
  then show ?thesis using e s m by (simp add: resolve_timeout_seconds_def Let_def)
qed

text \<open>Only listed pins are written, and not for long. A write that reaches the backend is for a pin
  of the list, with the value asked for, and holds it for at most a minute if it holds it for a
  time at all.
\<close>

theorem gpio_write_bounded:
  assumes "gpio_write_request C args = Inr (pin, value, duration)"
  shows "pin \<in> set (sc_gpio_allowed_pins C) \<and> gpio_value (dget args ''value'') = Inr value
    \<and> (case duration of Some d \<Rightarrow> 0 \<le> d \<and> d \<le> 60000
       | None \<Rightarrow> dget args ''duration_ms'' = PNone \<and> sc_gpio_write_default_duration_ms C = None)"
  using assms
  by (auto simp: gpio_write_request_def validate_gpio_pin_def capability_fails_def rbind_def Let_def
      split: sum.splits if_splits pyval.splits option.splits)

section \<open>Examples\<close>

definition ex_runner_config :: runner_config where
  "ex_runner_config = runner_config_init [(''echo'', \<lparr>ca_name = ''echo'', ca_schema = None, ca_safe_parallel = True\<rparr>)] 30 300"

definition ex_operation :: operation_request where
  "ex_operation = \<lparr>oq_operation_id = ''o1'', oq_call_id = ''c1'', oq_capability_name = ''echo'', oq_arguments = PDict [], oq_timeout = PNone\<rparr>"

definition ex_begun :: "begun \<times> operation_event list \<times> operation_runner" where
  "ex_begun = run_begin ''t1'' ex_runner_config ex_operation new_runner"

definition ex_finished :: "operation_event \<times> operation_runner" where
  "ex_finished = run_finish (\<lambda>_. []) (\<lambda>_. None) ''t2'' ex_runner_config ex_operation TimedOut (snd (snd ex_begun))"

definition ex_replayed :: "begun \<times> operation_event list \<times> operation_runner" where
  "ex_replayed = run_begin ''t3'' ex_runner_config (ex_operation\<lparr>oq_call_id := ''c2''\<rparr>) (snd ex_finished)"

lemma ex_begun_facts: "ex_begun = (Executing, fst (snd ex_begun), snd (snd ex_begun))"
  "map oe_seq (fst (snd ex_begun)) = [1]" "length (fst (snd ex_begun)) = 1"
proof -
  have "fst ex_begun = Executing" by code_simp
  then show "ex_begun = (Executing, fst (snd ex_begun), snd (snd ex_begun))" by (metis prod.collapse)
qed code_simp+

lemma ex_run: "(op_step (\<lambda>_. []) (\<lambda>_. None) ex_runner_config)\<^sup>*\<^sup>* (new_runner, [], [])
    (snd ex_finished, fst (snd ex_begun) @ [fst ex_finished], [])"
proof -
  let ?step = "op_step (\<lambda>_. []) (\<lambda>_. None) ex_runner_config"
  have "?step (new_runner, [], []) (snd (snd ex_begun), [] @ fst (snd ex_begun), [ex_operation])"
    by (rule op_step.begins [of "''t1''"]) (use ex_begun_facts(1) in \<open>simp add: ex_begun_def\<close>)
  moreover have "?step (snd (snd ex_begun), [] @ fst (snd ex_begun), [ex_operation])
      (snd ex_finished, ([] @ fst (snd ex_begun)) @ [fst ex_finished], remove1 ex_operation [ex_operation])"
    by (rule op_step.finishes [of _ _ _ _ "''t2''" _ TimedOut]) (simp_all add: ex_finished_def)
  ultimately show ?thesis by (auto intro: rtranclp.rtrancl_into_rtrancl)
qed

theorem events_numbered_witness:
  "map oe_seq (of_key ''o1'' (fst (snd ex_begun) @ [fst ex_finished])) = [1, 2]"
proof -
  have "length (of_key ''o1'' (fst (snd ex_begun) @ [fst ex_finished])) = 2" by code_simp
  then show ?thesis using events_numbered [OF ex_run, of "''o1''"] by (simp add: upt_rec)
qed

theorem final_result_stays_witness:
  "get_final ''o1'' (snd (snd ex_replayed)) = Some (fst ex_finished) \<and> oe_status (fst ex_finished) = ''failed''
   \<and> fst ex_replayed = Finished (fst ex_finished)"
proof -
  let ?rq = "ex_operation\<lparr>oq_call_id := ''c2''\<rparr>"
  have f: "strip ''o1'' \<noteq> []" "get_final ''o1'' (snd ex_finished) = Some (fst ex_finished)" "oe_status (fst ex_finished) = ''failed''"
    "fst ex_replayed = Finished (fst ex_finished)" by code_simp+
  then have r: "run_begin ''t3'' ex_runner_config ?rq (snd ex_finished)
      = (Finished (fst ex_finished), fst (snd ex_replayed), snd (snd ex_replayed))"
    by (metis ex_replayed_def prod.collapse)
  have "op_step (\<lambda>_. []) (\<lambda>_. None) ex_runner_config (snd ex_finished, [], []) (snd (snd ex_replayed), [] @ fst (snd ex_replayed), [])"
    by (rule op_step.over [OF r])
  then have "(op_step (\<lambda>_. []) (\<lambda>_. None) ex_runner_config)\<^sup>*\<^sup>* (snd ex_finished, [], []) (snd (snd ex_replayed), [] @ fst (snd ex_replayed), [])"
    by (rule r_into_rtranclp)
  from final_result_stays [OF this f(1,2)] f(3,4) show ?thesis by simp
qed

definition ex_security :: security_config where
  "ex_security = \<lparr>sc_sandbox_dir = ''/tmp'', sc_safe_shell_enabled = True,
     sc_safe_shell_allowlist = [PDict [(''name'', PStr ''up''), (''argv'', PList [PStr ''uptime'', PStr ''-p''])]],
     sc_gpio_allowed_pins = [17], sc_gpio_write_default_duration_ms = Some 500\<rparr>"

theorem only_listed_commands_witness:
  "safe_exec_process (\<lambda>_. None) ex_security 30 300 [(''command'', PStr ''up''), (''timeout_seconds'', PInt 900)] = Inr ([''uptime'', ''-p''], 300)
   \<and> (\<exists>v \<in> set (sc_safe_shell_allowlist ex_security). \<exists>t. normalize_shell_template (\<lambda>_. None) v = Inr (Some t) \<and> sh_argv t = [''uptime'', ''-p''])
   \<and> isl (safe_exec_process (\<lambda>_. None) ex_security 30 300 [(''command'', PStr ''rm'')])"
proof -
  have r: "safe_exec_process (\<lambda>_. None) ex_security 30 300 [(''command'', PStr ''up''), (''timeout_seconds'', PInt 900)] = Inr ([''uptime'', ''-p''], 300)"
    "isl (safe_exec_process (\<lambda>_. None) ex_security 30 300 [(''command'', PStr ''rm'')])" by code_simp+
  from only_listed_commands [OF r(1)] r show ?thesis by force
qed

theorem gpio_write_bounded_witness:
  "gpio_write_request ex_security [(''pin'', PInt 17), (''value'', PStr ''1''), (''duration_ms'', PInt 99999)] = Inr (17, True, Some 60000)
   \<and> isl (gpio_write_request ex_security [(''pin'', PInt 4), (''value'', PBool True)]) \<and> 17 \<in> set (sc_gpio_allowed_pins ex_security)"
proof -
  have r: "gpio_write_request ex_security [(''pin'', PInt 17), (''value'', PStr ''1''), (''duration_ms'', PInt 99999)] = Inr (17, True, Some 60000)"
    "isl (gpio_write_request ex_security [(''pin'', PInt 4), (''value'', PBool True)])" by code_simp+
  from gpio_write_bounded [OF r(1)] r show ?thesis by blast
qed

end
