(* ===== verification/Spec2Isabelle.thy ===== *)
theory Spec2Isabelle
  imports Command_Policy Session_Registry Event_Bus Scheduler Delivery Tool_Dispatch Background_Jobs Endpoint_Membership Context_Compaction Runs
    Conversation_Versions Research_Tasks Tool_Executor Session_Actor Context_Pool
    Device_Operations
begin

text \<open>
  Verification of MeetYou, a personal assistant whose core (Python, under \<^verbatim>\<open>src/\<close>) talks to a
  language model, keeps conversations in a relational database and runs tools, in its own process
  or on endpoints (desktop, edge and chat programs that connect to it). The development
  translates the core's own logic into HOL, theory by theory, and proves what makes each part
  correct; where the code does something else than it means to, the theorem states what it does.

  \<^bold>\<open>How the parts interact.\<close> A message of a user reaches a session (Session_Registry gives the
  session and refuses repeated messages, Session_Actor queues what a session has to do, one
  handler at a time) and a thread (Threads maps the conversation of an endpoint to it). It is
  stored (Messages) and attached to the branch of the conversation that is shown
  (Conversation_Versions). For an answer the core loads the history of the thread, compacts it
  (Context_Compaction), asks the pool of earlier results (Context_Pool), plans what fits into the
  model's window (Context_Plan) and brings it into a form the provider accepts (Model_History).
  A tool the model calls goes through the authorization gateway (Tool_Authorization, which asks
  Command_Policy about shell commands and Tool_Risk about risks) and is executed (Tool_Executor);
  or it is routed to an endpoint (Tool_Router, which reads Workspace_Policy, Endpoint_Store and
  Endpoint_Membership) and dispatched (Tool_Dispatch, which records Operations, protects secrets
  with Credential_Guard and waits for the answer). Questions to the user go through Event_Bus.
  Results are delivered to endpoints (Delivery, over the queue of Outbox); jobs run at their
  times (Scheduler over Schedule_Time, Background_Jobs); a run and its events are stored for
  clients that reconnect (Runs); longer work is a research task (Research_Tasks).

  \<^bold>\<open>The library.\<close>
  Py_Base is the prelude: Python's strings, dictionaries, values and exceptions (a fallible
  operation is a value of \<open>pyerr + 'a\<close>, composed with \<open>rbind\<close>), and tables. A table is the list
  of its rows with unique constraints; its locales \<open>row_op\<close>, \<open>guarded_row_op\<close> and
  \<open>unique_table\<close> are the contracts of a row update and of a table with its keys, and the theories
  interpret them on their own tables and updates. Outbox states the interface of the delivery
  queue as a locale, with the database queue as its interpretation. Py_Float is the arithmetic of
  doubles on finite values, rounded to nearest with ties to even.

  \<^bold>\<open>Theories and code.\<close> Every definition has the name of the function it translates, unless the
  name clashes with one of Isabelle's.
  \<^item> Tool_Risk: \<^verbatim>\<open>endpoint_tool_sdk/risk.py\<close>, \<^verbatim>\<open>tool_ids.py\<close>. Tool_Authorization:
    \<^verbatim>\<open>core/tool_runtime/policy.py\<close>, \<^verbatim>\<open>authorization.py\<close> (\<open>decide\<close> and its parts; refinement of
    the rule \<open>auth_spec\<close>; bounds on what may be written). Command_Policy:
    \<^verbatim>\<open>tools/command_policy.py\<close> and the check of \<^verbatim>\<open>tools/system_tools.py\<close>. Tool_Executor:
    \<^verbatim>\<open>core/tool_runtime/executor.py\<close>, \<^verbatim>\<open>models.py\<close> (nothing runs that the gateway did not allow).
  \<^item> Io_Protocol: \<^verbatim>\<open>core/io_protocol.py\<close>. Session_Registry: \<^verbatim>\<open>core/session_manager.py\<close>. Event_Bus:
    \<^verbatim>\<open>core/event_bus.py\<close>, with coroutines cut at their suspension points. Session_Actor:
    \<^verbatim>\<open>core/session_actor.py\<close>, a step relation \<open>runs\<close> with order, completeness and draining of the
    queue.
  \<^item> Schedule_Time: \<^verbatim>\<open>core/services/schedule_time.py\<close> (\<open>cron_next_after\<close> against its first matching
    minute). Scheduler: tables, repositories and service of scheduled jobs, with leases.
    Background_Jobs: \<^verbatim>\<open>core/background_jobs.py\<close>.
  \<^item> Endpoint_Store, Outbox: tables and repositories of \<^verbatim>\<open>core/db/models/endpoint.py\<close> and
    \<^verbatim>\<open>core/db/repositories/endpoint.py\<close>. Endpoint_Registry, Endpoint_Membership: the services of
    \<^verbatim>\<open>core/services/endpoint_service.py\<close> (refinement of the memberships to sets of workspaces).
    Delivery: \<^verbatim>\<open>core/services/delivery_service.py\<close>, \<^verbatim>\<open>core/delivery_formatting.py\<close>.
  \<^item> Workspace_Policy: \<^verbatim>\<open>core/public_contract.py\<close> and the workspace service. Tool_Router,
    Tool_Dispatch: \<^verbatim>\<open>core/services/tool_router_service.py\<close>, resolution and dispatch (a state machine of
    concurrent dispatches). Operations: the operation and call services. Credential_Guard:
    \<^verbatim>\<open>endpoint_tool_sdk/security.py\<close>.
  \<^item> Threads, Messages, Runs: tables, repositories and services of the same names, automatic titles
    and the binding of conversations. Conversation_Versions, Research_Tasks: the two services of
    these names in \<^verbatim>\<open>core/services/v5_service.py\<close> with their tables.
  \<^item> Model_History: the history filter of \<^verbatim>\<open>adapters/openai_adapter.py\<close>. Context_Plan,
    Context_Compaction: \<^verbatim>\<open>core/context.py\<close>. Context_Pool:
    \<^verbatim>\<open>core/services/context_pool_service.py\<close> with its table and repository.
  \<^item> Device_Operations: the runner of operations on a Raspberry Pi endpoint and what it may start and
    switch, under \<^verbatim>\<open>endpoint_providers/raspberry_pi\<close>.

  \<^bold>\<open>What the lemmas show.\<close> In every theory the first lemmas say what an operation does to the
  tables (a row read back, the other rows unchanged, constraints kept), then follow invariants of
  reachable states, and last the properties, each under its claim id: refinements of abstract
  rules (authorization, memberships), safety (routing, leases, first answer of a call, secrets,
  citations, permissions, order of payloads, commands on a device), exact functional behaviour (delivery, resuming a
  run, edits and checkpoints of a conversation, the messages of a window), bounds (attempts of a
  delivery, window of the pool), termination (branch paths), liveness (queues drain), and error
  behaviour, where an operation loses or changes something it should not.

  \<^bold>\<open>Coroutines and transactions.\<close> Python's event loop switches only at suspension points, so a
  coroutine is cut there and the pieces are steps that other steps may come between (sessions,
  events, dispatches of tools, drains of a delivery queue). Any other service
  call is one transaction: \<open>Inl\<close> leaves the tables as they were. Identifiers drawn with uuid4,
  the clock and the texts of time stamps are arguments.

  \<^bold>\<open>Bounds and fuel.\<close> The search for the next minute of a cron expression stops after 366 days
  (at most 527041 minutes), as in the code. The walk along the path of a branch is also given with
  fuel, and as much fuel as the thread has messages is enough, since the loop remembers what it
  has seen. All definitions are total, by structural recursion or with a measure.

  \<^bold>\<open>Parameters.\<close> What is not under \<^verbatim>\<open>src/\<close> is an argument of the definitions that use it: the
  regular expression engine, the file system and Windows paths, the zone database and
  \<open>datetime.fromisoformat\<close>, transports, tool handlers and MCP servers, cipher, key derivation and
  codecs, \<open>json.loads\<close>, SHA-256, pydantic's validation, reading a float from text, the order in
  which a set is enumerated, and the model itself. Two functions of the repository are arguments
  as well: \<open>markdown_to_plain_text\<close>, a cascade of regular expressions, and the floating-point
  average of latencies. Strings are Latin-1, so texts of the program outside it (Chinese titles and
  messages) are arguments or left out. Floats are finite.

  \<^bold>\<open>Not modelled.\<close> The loop of the agent and its prompts (\<^verbatim>\<open>core/brain.py\<close>), modes, skills and
  semantic routing (keyword scores over texts in files), the search requests of research, the
  bodies of the tools, the HTTP and WebSocket gateway, sensors and adapters of platforms and
  providers, the rest of the endpoint programs, supervision of processes, migrations, scripts and the user
  interface: they are requests to other programs, texts, or construction of the objects modelled
  here. Of the services, projects, sources and artifacts and the small key-value services are left
  out: they read and write single rows without further rules. The database is the list of rows
  its tables hold; isolation between transactions, connection failures and the collation of the
  database are not modelled.
\<close>

end
